(* ===== verification/Rnf_Prelude.thy ===== *)
theory Rnf_Prelude
  imports Main "HOL-Library.Word" "HOL-Library.Product_Lexorder" "HOL-Library.List_Lexorder"
    "HOL-Library.Char_ord" "HOL-Library.Monad_Syntax" "HOL-Library.Multiset"
begin

text \<open>
  Shared vocabulary of the development: the machine integers of the program, the collections of
  rewrite rules the component theories extend, generic lemmas on lists and on strictly sorted
  sequences, little-endian loads and stores (the byte loops that \<^verbatim>\<open>bytes.hpp\<close>, \<^verbatim>\<open>hash.cpp\<close>,
  \<^verbatim>\<open>store.cpp\<close> and \<^verbatim>\<open>frame.cpp\<close> all repeat), decimal printing (\<^verbatim>\<open>std::to_string\<close>), and two
  interfaces: a byte codec and a labelled state machine.
\<close>

unbundle bit_operations_syntax

section \<open>Machine integers and rule collections\<close>

type_synonym u8 = "8 word"
type_synonym u16 = "16 word"
type_synonym u32 = "32 word"
type_synonym u64 = "64 word"

named_theorems codec_simps \<open>equations that run a decoder over the bytes an encoder wrote\<close>
named_theorems writer_simps \<open>the effect of each writer method on a writer\<close>
named_theorems inv_intros \<open>preservation of a component invariant by one operation\<close>

abbreviation u64_max :: u64 where "u64_max \<equiv> 0xFFFFFFFFFFFFFFFF"

lemma u64_le_max [simp]: "(x :: u64) \<le> u64_max"
proof -
  have "u64_max = - 1" by simp
  then show ?thesis by (metis word_order.extremum)
qed

lemma unat_u64_lt: "unat (x :: u64) < 2 ^ 64"
  using unsigned_less [of x, where ?'a = nat] by simp

section \<open>Strictly sorted sequences\<close>

abbreviation strict_sorted :: "'a::linorder list \<Rightarrow> bool" where
  "strict_sorted xs \<equiv> sorted_wrt (<) xs"

lemma strict_sorted_unique:
  "strict_sorted xs \<Longrightarrow> strict_sorted ys \<Longrightarrow> set xs = set ys \<Longrightarrow> xs = ys"
  by (metis strict_sorted_equal)

lemma strict_sorted_distinct: "strict_sorted xs \<Longrightarrow> distinct xs"
  by (simp add: strict_sorted_iff)

lemma strict_sorted_remdups_sort: "strict_sorted (remdups (sort xs))"
  by (simp add: strict_sorted_iff)

lemma map_filter_keys: "map f (filter (P \<circ> f) xs) = filter P (map f xs)"
  by (simp add: filter_map)

section \<open>Little-endian loads and stores\<close>

text \<open>
  The program writes an unsigned integer as the bytes
  \<^verbatim>\<open>static_cast<std::uint8_t>((v >> (8 * i)) & 0xFFU)\<close> for ascending \<^verbatim>\<open>i\<close> and reads it back as the
  disjunction of \<^verbatim>\<open>static_cast<T>(p[i]) << (8 * i)\<close>.
\<close>

definition store_le :: "nat \<Rightarrow> 'a::len word \<Rightarrow> u8 list" where
  "store_le n v = map (\<lambda>i. ucast (drop_bit (8 * i) v AND 0xFF)) [0..<n]"

definition load_le :: "nat \<Rightarrow> u8 list \<Rightarrow> 'a::len word" where
  "load_le n p = fold (\<lambda>i v. v OR push_bit (8 * i) (ucast (p ! i))) [0..<n] 0"

lemma length_store_le [simp]: "length (store_le n v) = n"
  by (simp add: store_le_def)

lemma bit_store_le:
  assumes "i < n" "j < 8"
  shows "bit (store_le n v ! i) j \<longleftrightarrow> bit v (8 * i + j)"
proof -
  have mask: "(0xFF :: 'a word) = mask 8" by (simp add: mask_eq_exp_minus_1)
  show ?thesis
    using assms unfolding store_le_def mask
    by (auto simp: bit_simps nth_append add.commute dest: bit_imp_le_length)
qed

lemma bit_load_le:
  "bit (load_le n p :: 'a::len word) k \<longleftrightarrow>
     k < LENGTH('a) \<and> k div 8 < n \<and> bit (p ! (k div 8)) (k mod 8)"
proof (induction n)
  case 0
  show ?case by (simp add: load_le_def)
next
  case (Suc n)
  have step: "(load_le (Suc n) p :: 'a word) = load_le n p OR push_bit (8 * n) (ucast (p ! n))"
    by (simp add: load_le_def)
  have hi: "8 * n \<le> k \<and> k - 8 * n < 8 \<longleftrightarrow> k div 8 = n" by auto
  have "bit (push_bit (8 * n) (ucast (p ! n)) :: 'a word) k \<longleftrightarrow>
      k < LENGTH('a) \<and> k div 8 = n \<and> bit (p ! n) (k mod 8)"
    using hi by (auto simp: bit_simps minus_mult_div_eq_mod [symmetric] dest: bit_imp_le_length)
  then show ?case
    unfolding step by (auto simp: bit_or_iff Suc.IH less_Suc_eq)
qed

lemma load_store_le:
  assumes "LENGTH('a::len) = 8 * n"
  shows "load_le n (store_le n v) = (v :: 'a word)"
proof (rule bit_eqI)
  fix k
  assume "possible_bit TYPE('a word) k"
  then have k: "k < 8 * n" using assms by simp
  then have "k div 8 < n" by auto
  with k show "bit (load_le n (store_le n v) :: 'a word) k \<longleftrightarrow> bit v k"
    by (simp add: bit_load_le bit_store_le assms)
qed

lemma store_load_le:
  assumes "LENGTH('a::len) = 8 * n" "length p = n"
  shows "store_le n (load_le n p :: 'a word) = p"
proof (rule nth_equalityI)
  show "length (store_le n (load_le n p :: 'a word)) = length p" using assms by simp
next
  fix i
  assume "i < length (store_le n (load_le n p :: 'a word))"
  then have i: "i < n" by simp
  show "store_le n (load_le n p :: 'a word) ! i = p ! i"
  proof (rule bit_eqI)
    fix j
    assume "possible_bit TYPE(8 word) j"
    then have j: "j < 8" by simp
    with i have "8 * i + j < 8 * n" by linarith
    with i j show "bit (store_le n (load_le n p :: 'a word) ! i) j \<longleftrightarrow> bit (p ! i) j"
      by (simp add: bit_store_le bit_load_le assms)
  qed
qed

lemma load_le_append:
  assumes "length p = n"
  shows "load_le n (p @ t) = load_le n p"
proof -
  have "fold (\<lambda>i v. v OR push_bit (8 * i) (ucast ((p @ t) ! i))) [0..<n] w =
      fold (\<lambda>i v. v OR push_bit (8 * i) (ucast (p ! i))) [0..<n] w" for w :: "'a word"
    using assms by (intro fold_cong) (auto simp: nth_append)
  then show ?thesis by (simp add: load_le_def)
qed

section \<open>Decimal text\<close>

fun decimal_digits :: "nat \<Rightarrow> nat list" where
  "decimal_digits n = (if n < 10 then [n] else decimal_digits (n div 10) @ [n mod 10])"

declare decimal_digits.simps [simp del]

definition digit_char :: "nat \<Rightarrow> char" where
  "digit_char d = char_of (48 + d)"

definition to_string_nat :: "nat \<Rightarrow> string" where
  "to_string_nat n = map digit_char (decimal_digits n)"

definition to_string_u64 :: "u64 \<Rightarrow> string" where
  "to_string_u64 v = to_string_nat (unat v)"

section \<open>Byte codecs\<close>

text \<open>
  An encoder into bytes and a decoder from the unread bytes form a codec when decoding an encoding
  followed by anything gives the value back with exactly the rest, and when everything the decoder
  accepts is the encoding of what it returns. The second law is what makes an encoding canonical:
  two byte strings never decode to the same value. \<open>ok\<close> is the set of values the encoder accepts.
\<close>

locale codec =
  fixes enc :: "'a \<Rightarrow> u8 list"
    and dec :: "u8 list \<Rightarrow> ('a \<times> u8 list) option"
    and ok :: "'a \<Rightarrow> bool"
  assumes dec_enc: "ok x \<Longrightarrow> dec (enc x @ t) = Some (x, t)"
    and dec_sound: "dec bs = Some (x, t) \<Longrightarrow> ok x \<and> bs = enc x @ t"
begin

lemma enc_append_inj:
  assumes "ok x" "ok y" "enc x @ s = enc y @ t"
  shows "x = y \<and> s = t"
proof -
  have "dec (enc x @ s) = Some (x, s)" by (rule dec_enc) (rule assms(1))
  moreover have "dec (enc x @ s) = Some (y, t)"
    unfolding assms(3) by (rule dec_enc) (rule assms(2))
  ultimately show ?thesis by simp
qed

lemma enc_inj: "ok x \<Longrightarrow> ok y \<Longrightarrow> enc x = enc y \<Longrightarrow> x = y"
  using enc_append_inj [of x y "[]" "[]"] by simp

lemma dec_none_iff: "dec bs = None \<longleftrightarrow> (\<forall>x t. ok x \<longrightarrow> bs \<noteq> enc x @ t)"
proof (cases "dec bs")
  case None
  then show ?thesis using dec_enc by fastforce
next
  case (Some p)
  then obtain x t where "dec bs = Some (x, t)" by (cases p) simp
  with dec_sound show ?thesis by fastforce
qed

lemma dec_length:
  assumes "dec bs = Some (x, t)"
  shows "length bs = length (enc x) + length t"
  using dec_sound [OF assms] by simp

end

text \<open>A counted sequence of elements, read by a loop over the element decoder.\<close>

fun dec_many :: "(u8 list \<Rightarrow> ('a \<times> u8 list) option) \<Rightarrow> nat \<Rightarrow> u8 list \<Rightarrow> ('a list \<times> u8 list) option" where
  "dec_many d 0 bs = Some ([], bs)"
| "dec_many d (Suc n) bs =
     (case d bs of None \<Rightarrow> None
      | Some (x, t) \<Rightarrow>
          (case dec_many d n t of None \<Rightarrow> None | Some (xs, u) \<Rightarrow> Some (x # xs, u)))"

definition enc_many :: "('a \<Rightarrow> u8 list) \<Rightarrow> 'a list \<Rightarrow> u8 list" where
  "enc_many e xs = concat (map e xs)"

lemma enc_many_simps [simp]: "enc_many e [] = []" "enc_many e (x # xs) = e x @ enc_many e xs"
  by (simp_all add: enc_many_def)

context codec
begin

lemma dec_many_enc_many:
  "\<forall>x\<in>set xs. ok x \<Longrightarrow> dec_many dec (length xs) (enc_many enc xs @ t) = Some (xs, t)"
  by (induction xs) (auto simp: dec_enc)

lemma dec_many_sound:
  "dec_many dec n bs = Some (xs, t) \<Longrightarrow>
     length xs = n \<and> (\<forall>x\<in>set xs. ok x) \<and> bs = enc_many enc xs @ t"
proof (induction n arbitrary: bs xs t)
  case 0
  then show ?case by simp
next
  case (Suc n)
  then obtain x u ys where "dec bs = Some (x, u)" "dec_many dec n u = Some (ys, t)" "xs = x # ys"
    by (auto split: option.splits)
  with Suc.IH [of u ys t] show ?case by (auto dest: dec_sound)
qed

end

section \<open>State machines\<close>

text \<open>
  A component with operations is a set of start states and a relation between a state, the label of
  an operation with its arguments, and the state after it. An invariant that holds at the start and
  that every operation keeps holds in every reachable state.
\<close>

locale state_machine =
  fixes init :: "'s \<Rightarrow> bool"
    and step :: "'s \<Rightarrow> 'l \<Rightarrow> 's \<Rightarrow> bool"
    and inv :: "'s \<Rightarrow> bool"
  assumes inv_init: "init s \<Longrightarrow> inv s"
    and inv_step: "inv s \<Longrightarrow> step s l t \<Longrightarrow> inv t"

inductive run :: "('s \<Rightarrow> 'l \<Rightarrow> 's \<Rightarrow> bool) \<Rightarrow> 's \<Rightarrow> 'l list \<Rightarrow> 's \<Rightarrow> bool" for step where
  run_nil: "run step s [] s"
| run_cons: "step s l t \<Longrightarrow> run step t ls u \<Longrightarrow> run step s (l # ls) u"

inductive_simps run_Nil_iff [simp]: "run step s [] t"
inductive_cases run_ConsE: "run step s (l # ls) u"

lemma run_append: "run step s ls t \<Longrightarrow> run step t ms u \<Longrightarrow> run step s (ls @ ms) u"
  by (induction rule: run.induct) (auto intro: run.intros)

context state_machine
begin

lemma inv_run: "run step s ls t \<Longrightarrow> inv s \<Longrightarrow> inv t"
  by (induction rule: run.induct) (auto intro: inv_step)

lemma inv_reachable: "init s \<Longrightarrow> run step s ls t \<Longrightarrow> inv t"
  using inv_run inv_init by blast

end

end
