(* ===== verification/Rnf_Status.thy ===== *)
theory Rnf_Status
  imports Rnf_Prelude
begin

text \<open>
  \<^verbatim>\<open>include/rnf/core/status.hpp\<close>, \<^verbatim>\<open>checked.hpp\<close> and the identities of \<^verbatim>\<open>id.hpp\<close>: status codes and
  classes, the \<^verbatim>\<open>Result\<close> type, the checked arithmetic every capacity computation goes through, and
  hexadecimal rendering. A C++ scoped enumeration with a fixed underlying type can hold every value
  of that type (the decoders produce them with \<^verbatim>\<open>static_cast\<close>), so such an enumeration is a wrapper
  around its underlying integer with one abbreviation per enumerator; an enumeration that is never
  read from bytes is a plain datatype.
\<close>

section \<open>Status codes\<close>

datatype status_code = StatusCode (code_value: u16)

abbreviation kOk :: status_code where "kOk \<equiv> StatusCode 0"
abbreviation kInvalidArgument :: status_code where "kInvalidArgument \<equiv> StatusCode 1"
abbreviation kOutOfRange :: status_code where "kOutOfRange \<equiv> StatusCode 2"
abbreviation kMalformedEncoding :: status_code where "kMalformedEncoding \<equiv> StatusCode 3"
abbreviation kInvalidUnicode :: status_code where "kInvalidUnicode \<equiv> StatusCode 4"
abbreviation kOversizeField :: status_code where "kOversizeField \<equiv> StatusCode 5"
abbreviation kInvalidIdentity :: status_code where "kInvalidIdentity \<equiv> StatusCode 6"
abbreviation kInvalidLifecycleTransition :: status_code where "kInvalidLifecycleTransition \<equiv> StatusCode 7"
abbreviation kInvalidScope :: status_code where "kInvalidScope \<equiv> StatusCode 8"
abbreviation kNotFound :: status_code where "kNotFound \<equiv> StatusCode 9"
abbreviation kDuplicateIdentity :: status_code where "kDuplicateIdentity \<equiv> StatusCode 10"
abbreviation kConflict :: status_code where "kConflict \<equiv> StatusCode 11"
abbreviation kOutOfRack :: status_code where "kOutOfRack \<equiv> StatusCode 12"
abbreviation kUnauthorized :: status_code where "kUnauthorized \<equiv> StatusCode 13"
abbreviation kRefused :: status_code where "kRefused \<equiv> StatusCode 14"
abbreviation kScopeNotEligible :: status_code where "kScopeNotEligible \<equiv> StatusCode 15"
abbreviation kExclusiveConflict :: status_code where "kExclusiveConflict \<equiv> StatusCode 16"
abbreviation kCapacityExhausted :: status_code where "kCapacityExhausted \<equiv> StatusCode 17"
abbreviation kLifecycleRefused :: status_code where "kLifecycleRefused \<equiv> StatusCode 18"
abbreviation kNotAMember :: status_code where "kNotAMember \<equiv> StatusCode 19"
abbreviation kUnsupported :: status_code where "kUnsupported \<equiv> StatusCode 20"
abbreviation kStaleGeneration :: status_code where "kStaleGeneration \<equiv> StatusCode 21"
abbreviation kStaleEpoch :: status_code where "kStaleEpoch \<equiv> StatusCode 22"
abbreviation kStaleProvenance :: status_code where "kStaleProvenance \<equiv> StatusCode 23"
abbreviation kFencedIncarnation :: status_code where "kFencedIncarnation \<equiv> StatusCode 24"
abbreviation kExpired :: status_code where "kExpired \<equiv> StatusCode 25"
abbreviation kSuperseded :: status_code where "kSuperseded \<equiv> StatusCode 26"
abbreviation kReplayed :: status_code where "kReplayed \<equiv> StatusCode 27"
abbreviation kUnknown :: status_code where "kUnknown \<equiv> StatusCode 28"
abbreviation kIncomplete :: status_code where "kIncomplete \<equiv> StatusCode 29"
abbreviation kIndeterminate :: status_code where "kIndeterminate \<equiv> StatusCode 30"
abbreviation kCancelled :: status_code where "kCancelled \<equiv> StatusCode 31"
abbreviation kIo :: status_code where "kIo \<equiv> StatusCode 32"
abbreviation kCorrupt :: status_code where "kCorrupt \<equiv> StatusCode 33"
abbreviation kTruncated :: status_code where "kTruncated \<equiv> StatusCode 34"
abbreviation kIntegrityFailure :: status_code where "kIntegrityFailure \<equiv> StatusCode 35"
abbreviation kIncompatibleVersion :: status_code where "kIncompatibleVersion \<equiv> StatusCode 36"
abbreviation kResourceExhausted :: status_code where "kResourceExhausted \<equiv> StatusCode 37"
abbreviation kBusy :: status_code where "kBusy \<equiv> StatusCode 38"
abbreviation kClosed :: status_code where "kClosed \<equiv> StatusCode 39"
abbreviation kInternal :: status_code where "kInternal \<equiv> StatusCode 40"

datatype status_class =
    Class_kOk | Class_kInvalid | Class_kRefused | Class_kStale | Class_kConflict
  | Class_kIncomplete | Class_kIndeterminate | Class_kUnknown | Class_kUnsupported
  | Class_kCancelled | Class_kEnvironment | Class_kInternal

definition classify :: "status_code \<Rightarrow> status_class" where
  "classify code =
     (if code = kOk then Class_kOk
      else if code \<in> set [kInvalidArgument, kOutOfRange, kMalformedEncoding, kInvalidUnicode,
          kOversizeField, kInvalidIdentity, kInvalidLifecycleTransition, kInvalidScope,
          kDuplicateIdentity] then Class_kInvalid
      else if code \<in> set [kNotFound, kUnauthorized, kRefused, kScopeNotEligible,
          kCapacityExhausted, kLifecycleRefused, kNotAMember, kOutOfRack] then Class_kRefused
      else if code \<in> set [kStaleGeneration, kStaleEpoch, kStaleProvenance, kFencedIncarnation,
          kExpired, kSuperseded, kReplayed] then Class_kStale
      else if code \<in> set [kConflict, kExclusiveConflict] then Class_kConflict
      else if code = kIncomplete then Class_kIncomplete
      else if code = kIndeterminate then Class_kIndeterminate
      else if code = kUnknown then Class_kUnknown
      else if code = kUnsupported then Class_kUnsupported
      else if code \<in> set [kCancelled, kClosed] then Class_kCancelled
      else if code \<in> set [kIo, kCorrupt, kTruncated, kIntegrityFailure, kIncompatibleVersion,
          kResourceExhausted, kBusy] then Class_kEnvironment
      else if code = kInternal then Class_kInternal
      else Class_kUnknown)"

definition status_code_table :: "(status_code \<times> string) list" where
  "status_code_table =
    [(kOk, ''ok''),
     (kInvalidArgument, ''invalid_argument''),
     (kOutOfRange, ''out_of_range''),
     (kMalformedEncoding, ''malformed_encoding''),
     (kInvalidUnicode, ''invalid_unicode''),
     (kOversizeField, ''oversize_field''),
     (kInvalidIdentity, ''invalid_identity''),
     (kInvalidLifecycleTransition, ''invalid_lifecycle_transition''),
     (kInvalidScope, ''invalid_scope''),
     (kNotFound, ''not_found''),
     (kDuplicateIdentity, ''duplicate_identity''),
     (kConflict, ''conflict''),
     (kOutOfRack, ''out_of_rack''),
     (kUnauthorized, ''unauthorized''),
     (kRefused, ''refused''),
     (kScopeNotEligible, ''scope_not_eligible''),
     (kExclusiveConflict, ''exclusive_conflict''),
     (kCapacityExhausted, ''capacity_exhausted''),
     (kLifecycleRefused, ''lifecycle_refused''),
     (kNotAMember, ''not_a_member''),
     (kUnsupported, ''unsupported''),
     (kStaleGeneration, ''stale_generation''),
     (kStaleEpoch, ''stale_epoch''),
     (kStaleProvenance, ''stale_provenance''),
     (kFencedIncarnation, ''fenced_incarnation''),
     (kExpired, ''expired''),
     (kSuperseded, ''superseded''),
     (kReplayed, ''replayed''),
     (kUnknown, ''unknown''),
     (kIncomplete, ''incomplete''),
     (kIndeterminate, ''indeterminate''),
     (kCancelled, ''cancelled''),
     (kIo, ''io''),
     (kCorrupt, ''corrupt''),
     (kTruncated, ''truncated''),
     (kIntegrityFailure, ''integrity_failure''),
     (kIncompatibleVersion, ''incompatible_version''),
     (kResourceExhausted, ''resource_exhausted''),
     (kBusy, ''busy''),
     (kClosed, ''closed''),
     (kInternal, ''internal'')]"

definition status_code_to_string :: "status_code \<Rightarrow> string" where
  "status_code_to_string code =
     (case map_of status_code_table code of Some t \<Rightarrow> t | None \<Rightarrow> ''unknown'')"

fun status_class_to_string :: "status_class \<Rightarrow> string" where
  "status_class_to_string Class_kOk = ''OK''"
| "status_class_to_string Class_kInvalid = ''INVALID''"
| "status_class_to_string Class_kRefused = ''REFUSED''"
| "status_class_to_string Class_kStale = ''STALE''"
| "status_class_to_string Class_kConflict = ''CONFLICTING''"
| "status_class_to_string Class_kIncomplete = ''INCOMPLETE''"
| "status_class_to_string Class_kIndeterminate = ''INDETERMINATE''"
| "status_class_to_string Class_kUnknown = ''UNKNOWN''"
| "status_class_to_string Class_kUnsupported = ''UNSUPPORTED''"
| "status_class_to_string Class_kCancelled = ''CANCELLED''"
| "status_class_to_string Class_kEnvironment = ''ENVIRONMENT''"
| "status_class_to_string Class_kInternal = ''INTERNAL''"

section \<open>Status and Result\<close>

datatype status = Status (st_code: status_code) (st_detail: string)

abbreviation ok_status :: status where "ok_status \<equiv> Status kOk []"

definition status_ok :: "status \<Rightarrow> bool" where
  "status_ok s \<longleftrightarrow> st_code s = kOk"

definition status_describe :: "status \<Rightarrow> string" where
  "status_describe s =
     (if st_detail s = [] then status_code_to_string (st_code s)
      else status_code_to_string (st_code s) @ '': '' @ st_detail s)"

text \<open>\<^verbatim>\<open>Result<T>\<close>: the left summand is the error alternative of the variant.\<close>

type_synonym 'a result = "status + 'a"

abbreviation fail :: "status_code \<Rightarrow> string \<Rightarrow> 'a result" where
  "fail code detail \<equiv> Inl (Status code detail)"

definition result_code :: "'a result \<Rightarrow> status_code" where
  "result_code r = (case r of Inl s \<Rightarrow> st_code s | Inr _ \<Rightarrow> kOk)"

text \<open>\<^verbatim>\<open>RNF_TRY\<close> and \<^verbatim>\<open>RNF_TRYV\<close>: return early with the error, continue with the value.\<close>

definition rnf_try :: "'a result \<Rightarrow> ('a \<Rightarrow> 'b result) \<Rightarrow> 'b result" where
  "rnf_try r k = (case r of Inl s \<Rightarrow> Inl s | Inr x \<Rightarrow> k x)"

definition rnf_tryv :: "status \<Rightarrow> status \<Rightarrow> status" where
  "rnf_tryv s k = (if status_ok s then k else s)"

text \<open>\<^verbatim>\<open>if (!reads) return Status(code, detail)\<close>, then continue with what was read.\<close>

definition or_fail :: "'a option \<Rightarrow> status_code \<Rightarrow> string \<Rightarrow> ('a \<Rightarrow> 'b result) \<Rightarrow> 'b result" where
  "or_fail x code detail k = (case x of None \<Rightarrow> fail code detail | Some v \<Rightarrow> k v)"

lemma rnf_try_simps [simp]: "rnf_try (Inl s) k = Inl s" "rnf_try (Inr x) k = k x"
  by (simp_all add: rnf_try_def)

lemma or_fail_simps [simp]: "or_fail None c d k = fail c d" "or_fail (Some v) c d k = k v"
  by (simp_all add: or_fail_def)

lemma or_fail_Inr_iff: "or_fail x c d k = Inr y \<longleftrightarrow> (\<exists>v. x = Some v \<and> k v = Inr y)"
  by (cases x) auto

lemma status_ok_rnf_tryv: "status_ok (rnf_tryv s k) \<longleftrightarrow> status_ok s \<and> status_ok k"
  by (simp add: rnf_tryv_def)

lemma status_ok_simps [simp]: "status_ok (Status c d) \<longleftrightarrow> c = kOk"
  by (simp add: status_ok_def)

lemma rnf_try_Inr_iff: "rnf_try r k = Inr y \<longleftrightarrow> (\<exists>x. r = Inr x \<and> k x = Inr y)"
  by (cases r) auto

text \<open>No code but \<^verbatim>\<open>kOk\<close> is classified as success, not even one outside the enumeration.\<close>

lemma classify_ok_iff: "classify code = Class_kOk \<longleftrightarrow> code = kOk"
  by (simp add: classify_def)

lemma status_code_spellings_distinct: "distinct (map snd status_code_table)"
  by (simp add: status_code_table_def)

section \<open>Checked arithmetic\<close>

text \<open>Each helper returns \<^verbatim>\<open>false\<close> (here \<open>None\<close>) and leaves its output untouched on overflow.\<close>

definition checked_add_u64 :: "u64 \<Rightarrow> u64 \<Rightarrow> u64 option" where
  "checked_add_u64 a b = (if a > u64_max - b then None else Some (a + b))"

definition checked_sub_u64 :: "u64 \<Rightarrow> u64 \<Rightarrow> u64 option" where
  "checked_sub_u64 a b = (if b > a then None else Some (a - b))"

definition checked_mul_u64 :: "u64 \<Rightarrow> u64 \<Rightarrow> u64 option" where
  "checked_mul_u64 a b =
     (if a = 0 \<or> b = 0 then Some 0 else if a > u64_max div b then None else Some (a * b))"

definition checked_add_u32 :: "u32 \<Rightarrow> u32 \<Rightarrow> u32 option" where
  "checked_add_u32 a b = (if a > 0xFFFFFFFF - b then None else Some (a + b))"

definition saturating_add_u64 :: "u64 \<Rightarrow> u64 \<Rightarrow> u64" where
  "saturating_add_u64 a b = (case checked_add_u64 a b of Some s \<Rightarrow> s | None \<Rightarrow> u64_max)"

definition narrow_u64_to_u32 :: "u64 \<Rightarrow> u32 option" where
  "narrow_u64_to_u32 v = (if v > 0xFFFFFFFF then None else Some (ucast v))"

definition narrow_u64_to_u16 :: "u64 \<Rightarrow> u16 option" where
  "narrow_u64_to_u16 v = (if v > 0xFFFF then None else Some (ucast v))"

lemma unat_max_minus: "unat (u64_max - b) = 2 ^ 64 - 1 - unat b"
  by (simp add: unat_sub)

lemma checked_add_u64_None_iff: "checked_add_u64 a b = None \<longleftrightarrow> 2 ^ 64 \<le> unat a + unat b"
  using unat_u64_lt [of b] by (auto simp: checked_add_u64_def word_less_nat_alt unat_max_minus)

lemma checked_add_u64_Some_iff: "checked_add_u64 a b = Some c \<longleftrightarrow> unat a + unat b = unat c"
proof (cases "checked_add_u64 a b")
  case None
  with checked_add_u64_None_iff [of a b] unat_u64_lt [of c] show ?thesis by auto
next
  case (Some d)
  then have "unat a + unat b < 2 ^ 64" using checked_add_u64_None_iff [of a b] by auto
  then have "unat (a + b) = unat a + unat b" by (simp add: unat_plus_if')
  moreover have "d = a + b" using Some by (simp add: checked_add_u64_def split: if_splits)
  ultimately show ?thesis using Some by (auto simp: word_unat_eq_iff)
qed

lemma checked_sub_u64_None_iff: "checked_sub_u64 a b = None \<longleftrightarrow> unat a < unat b"
  by (simp add: checked_sub_u64_def word_less_nat_alt)

lemma checked_sub_u64_Some_iff: "checked_sub_u64 a b = Some c \<longleftrightarrow> unat a = unat b + unat c"
proof (cases "b \<le> a")
  case True
  then have "unat (a - b) = unat a - unat b" by (rule unat_sub)
  with True show ?thesis
    by (auto simp: checked_sub_u64_def word_unat_eq_iff word_le_nat_alt word_less_nat_alt)
next
  case False
  then show ?thesis by (auto simp: checked_sub_u64_def word_le_nat_alt word_less_nat_alt)
qed

lemma checked_mul_u64_Some_iff: "checked_mul_u64 a b = Some c \<longleftrightarrow> unat a * unat b = unat c"
proof (cases "a = 0 \<or> b = 0")
  case True
  then show ?thesis by (auto simp: checked_mul_u64_def word_unat_eq_iff)
next
  case False
  then have b: "0 < unat b" by (simp add: unat_gt_0)
  have div: "unat (u64_max div b) = (2 ^ 64 - 1) div unat b" by (simp add: unat_div)
  have le: "unat a \<le> (2 ^ 64 - 1) div unat b \<longleftrightarrow> unat a * unat b < 2 ^ 64"
    using b by (auto simp: less_eq_div_iff_mult_less_eq)
  have mult: "unat (a * b) = unat a * unat b" if "unat a * unat b < 2 ^ 64"
    using that by (simp add: unat_word_ariths)
  show ?thesis
    using False le mult unat_u64_lt [of c]
    by (auto simp: checked_mul_u64_def word_less_nat_alt div word_unat_eq_iff not_less)
qed

lemma unat_saturating_add_u64: "unat (saturating_add_u64 a b) = min (unat a + unat b) (2 ^ 64 - 1)"
proof (cases "checked_add_u64 a b")
  case None
  then have "unat (saturating_add_u64 a b) = 2 ^ 64 - 1" by (simp add: saturating_add_u64_def)
  moreover have "2 ^ 64 \<le> unat a + unat b" using None checked_add_u64_None_iff by blast
  ultimately show ?thesis by simp
next
  case (Some c)
  then have "unat a + unat b = unat c" by (simp add: checked_add_u64_Some_iff)
  with Some unat_u64_lt [of c] show ?thesis by (simp add: saturating_add_u64_def)
qed

lemmas checked_iffs = checked_add_u64_Some_iff checked_add_u64_None_iff
  checked_sub_u64_Some_iff checked_sub_u64_None_iff

section \<open>Identities and digests\<close>

text \<open>
  \<^verbatim>\<open>StrongId<Tag>\<close> is a 64 bit value under a phantom tag; zero means unset. The tags only keep
  arguments apart, so the model names the types and shares the representation.
\<close>

type_synonym rack_id = u64
type_synonym device_id = u64
type_synonym port_id = u64
type_synonym link_id = u64
type_synonym attachment_id = u64
type_synonym grant_id = u64
type_synonym principal_id = u64
type_synonym source_id = u64
type_synonym obligation_id = u64
type_synonym path_id = u64

definition id_is_set :: "u64 \<Rightarrow> bool" where
  "id_is_set v \<longleftrightarrow> v \<noteq> 0"

datatype request_id = RequestId (req_hi: u64) (req_lo: u64)

definition request_is_set :: "request_id \<Rightarrow> bool" where
  "request_is_set r \<longleftrightarrow> req_hi r \<noteq> 0 \<or> req_lo r \<noteq> 0"

instantiation request_id :: linorder
begin

definition less_eq_request_id :: "request_id \<Rightarrow> request_id \<Rightarrow> bool" where
  "less_eq_request_id a b \<longleftrightarrow> (req_hi a, req_lo a) \<le> (req_hi b, req_lo b)"

definition less_request_id :: "request_id \<Rightarrow> request_id \<Rightarrow> bool" where
  "less_request_id a b \<longleftrightarrow> (req_hi a, req_lo a) < (req_hi b, req_lo b)"

instance
proof
  fix x y z :: request_id
  show "x < y \<longleftrightarrow> x \<le> y \<and> \<not> y \<le> x" by (auto simp: less_eq_request_id_def less_request_id_def)
  show "x \<le> x" by (simp add: less_eq_request_id_def)
  show "x \<le> y \<Longrightarrow> y \<le> z \<Longrightarrow> x \<le> z" by (auto simp: less_eq_request_id_def)
  show "x \<le> y \<Longrightarrow> y \<le> x \<Longrightarrow> x = y"
    by (cases x; cases y) (auto simp: less_eq_request_id_def)
  show "x \<le> y \<or> y \<le> x" by (auto simp: less_eq_request_id_def)
qed

end

text \<open>
  A digest is its 32 bytes; two digests compare byte by byte from the first, which on lists of
  equal length is the lexicographic order of the list library.
\<close>

type_synonym digest = "u8 list"

definition zero_digest :: digest where
  "zero_digest = replicate 32 0"

definition digest_is_zero :: "digest \<Rightarrow> bool" where
  "digest_is_zero d \<longleftrightarrow> list_all (\<lambda>b. b = 0) d"

section \<open>Hexadecimal text\<close>

definition kHexDigits :: string where
  "kHexDigits = ''0123456789abcdef''"

definition hex_value :: "char \<Rightarrow> u8" where
  "hex_value c =
     (let n = of_char c :: nat in
      if 48 \<le> n \<and> n \<le> 57 then of_nat (n - 48)
      else if 97 \<le> n \<and> n \<le> 102 then of_nat (n - 97 + 10)
      else if 65 \<le> n \<and> n \<le> 70 then of_nat (n - 65 + 10)
      else 0xFF)"

text \<open>
  The loop runs from the last of the 16 positions to the first, peeling the lowest nibble each time.
\<close>

fun hex64_loop :: "nat \<Rightarrow> u64 \<Rightarrow> string \<Rightarrow> string" where
  "hex64_loop 0 v out = out"
| "hex64_loop (Suc i) v out =
     hex64_loop i (drop_bit 4 v) (out[i := kHexDigits ! unat (v AND 0xF)])"

definition hex64 :: "u64 \<Rightarrow> string" where
  "hex64 v = hex64_loop 16 v (replicate 16 (CHR ''0''))"

definition request_to_hex :: "request_id \<Rightarrow> string" where
  "request_to_hex r = hex64 (req_hi r) @ hex64 (req_lo r)"

definition digest_to_hex :: "digest \<Rightarrow> string" where
  "digest_to_hex d =
     concat (map (\<lambda>b. [kHexDigits ! unat (drop_bit 4 b AND 0xF), kHexDigits ! unat (b AND 0xF)]) d)"

fun from_hex_loop :: "string \<Rightarrow> digest result" where
  "from_hex_loop (h # l # rest) =
     (if hex_value h = 0xFF \<or> hex_value l = 0xFF
      then fail kMalformedEncoding ''digest contains a non-hex character''
      else rnf_try (from_hex_loop rest)
        (\<lambda>bs. Inr ((push_bit 4 (hex_value h) OR hex_value l) # bs)))"
| "from_hex_loop _ = Inr []"

definition digest_from_hex :: "string \<Rightarrow> digest result" where
  "digest_from_hex text =
     (if length text \<noteq> 64 then fail kMalformedEncoding ''digest must be 64 hex characters''
      else from_hex_loop text)"

lemma hex_value_digit: "n < 16 \<Longrightarrow> hex_value (kHexDigits ! n) = of_nat n"
proof -
  assume "n < 16"
  then have "n \<in> set [0..<16]" by simp
  then show ?thesis by (auto simp: upt_rec hex_value_def kHexDigits_def)
qed

lemma nibbles_join: "push_bit 4 (drop_bit 4 b AND 0xF) OR (b AND 0xF) = (b :: u8)"
proof (rule bit_eqI)
  fix j
  assume "possible_bit TYPE(8 word) j"
  then have j: "j < 8" by simp
  have m: "(0xF :: u8) = mask 4" by (simp add: mask_eq_exp_minus_1)
  show "bit (push_bit 4 (drop_bit 4 b AND 0xF) OR (b AND 0xF)) j \<longleftrightarrow> bit b j"
    unfolding m using j by (auto simp: bit_simps)
qed

lemma nibble_bound: "unat (x AND 0xF :: u8) < 16"
proof -
  have "x AND 0xF \<le> (0xF :: u8)" by (rule word_and_le1)
  then show ?thesis by (simp add: word_le_nat_alt)
qed

lemma nibble_not_ff: "x AND 0xF \<noteq> (0xFF :: u8)"
proof
  assume "x AND 0xF = (0xFF :: u8)"
  then have "unat (x AND 0xF :: u8) = 255" by simp
  with nibble_bound [of x] show False by simp
qed

lemma from_hex_loop_to_hex: "from_hex_loop (digest_to_hex d) = Inr d"
proof (induction d)
  case Nil
  show ?case by (simp add: digest_to_hex_def)
next
  case (Cons b d)
  have "digest_to_hex (b # d) =
      kHexDigits ! unat (drop_bit 4 b AND 0xF) # kHexDigits ! unat (b AND 0xF) # digest_to_hex d"
    by (simp add: digest_to_hex_def)
  moreover have "push_bit 4 (drop_bit 4 b) AND 240 OR b AND 15 = b"
    using nibbles_join [of b] by simp
  ultimately show ?case
    using Cons by (simp add: hex_value_digit nibble_bound nibble_not_ff)
qed

lemma length_digest_to_hex: "length (digest_to_hex d) = 2 * length d"
  by (induction d) (simp_all add: digest_to_hex_def)

lemma digest_from_to_hex: "length d = 32 \<Longrightarrow> digest_from_hex (digest_to_hex d) = Inr d"
  by (simp add: digest_from_hex_def length_digest_to_hex from_hex_loop_to_hex)

lemma length_hex64_loop: "length (hex64_loop n v out) = length out"
  by (induction n v out rule: hex64_loop.induct) simp_all

lemma length_hex64 [simp]: "length (hex64 v) = 16"
  by (simp add: hex64_def length_hex64_loop)

end
