(* ===== verification/Rnf_Hash.thy ===== *)
theory Rnf_Hash
  imports Rnf_Status
begin

text \<open>
  \<^verbatim>\<open>core/hash\<close>: BLAKE2s-256 as an incremental object with a 64 byte buffer, and CRC-32C over a table
  computed at compile time. Shown here: absorbing a message in any number of pieces gives the same
  digest, a digest is 32 bytes, the table driven CRC is the bitwise division it stands for, it can
  be continued across pieces, and it detects every change of a single byte.
\<close>

section \<open>BLAKE2s\<close>

definition kIV :: "u32 list" where
  "kIV = [0x6A09E667, 0xBB67AE85, 0x3C6EF372, 0xA54FF53A,
          0x510E527F, 0x9B05688C, 0x1F83D9AB, 0x5BE0CD19]"

definition kSigma :: "nat list list" where
  "kSigma =
    [[0, 1, 2, 3, 4, 5, 6, 7, 8, 9, 10, 11, 12, 13, 14, 15],
     [14, 10, 4, 8, 9, 15, 13, 6, 1, 12, 0, 2, 11, 7, 5, 3],
     [11, 8, 12, 0, 5, 2, 15, 13, 10, 14, 3, 6, 7, 1, 9, 4],
     [7, 9, 3, 1, 13, 12, 11, 14, 2, 6, 5, 10, 4, 0, 15, 8],
     [9, 0, 5, 7, 2, 4, 10, 15, 14, 1, 11, 12, 6, 8, 3, 13],
     [2, 12, 6, 10, 0, 11, 8, 3, 4, 13, 7, 5, 15, 14, 1, 9],
     [12, 5, 1, 15, 14, 13, 4, 10, 0, 7, 6, 3, 9, 2, 8, 11],
     [13, 11, 7, 14, 12, 1, 3, 9, 5, 0, 15, 4, 8, 6, 2, 10],
     [6, 15, 14, 9, 11, 3, 0, 8, 12, 2, 13, 7, 1, 4, 10, 5],
     [10, 2, 8, 4, 7, 6, 1, 5, 15, 11, 9, 14, 3, 12, 13, 0]]"

definition rotr32 :: "u32 \<Rightarrow> nat \<Rightarrow> u32" where
  "rotr32 x n = drop_bit n x OR push_bit (32 - n) x"

definition load32_le :: "u8 list \<Rightarrow> u32" where
  "load32_le p = load_le 4 p"

definition store32_le :: "u32 \<Rightarrow> u8 list" where
  "store32_le v = store_le 4 v"

text \<open>\<^verbatim>\<open>mix\<close> takes four elements of the working vector by reference; the model takes their indices.\<close>

definition mix :: "nat \<Rightarrow> nat \<Rightarrow> nat \<Rightarrow> nat \<Rightarrow> u32 \<Rightarrow> u32 \<Rightarrow> u32 list \<Rightarrow> u32 list" where
  "mix ia ib ic id' x y v =
     (let a = v ! ia; b = v ! ib; c = v ! ic; d = v ! id';
          a = a + b + x;
          d = rotr32 (d XOR a) 16;
          c = c + d;
          b = rotr32 (b XOR c) 12;
          a = a + b + y;
          d = rotr32 (d XOR a) 8;
          c = c + d;
          b = rotr32 (b XOR c) 7
      in v[ia := a, ib := b, ic := c, id' := d])"

definition kBlockBytes :: nat where "kBlockBytes = 64"

record blake2s =
  b2_h :: "u32 list"
  b2_buffer :: "u8 list"
  b2_counter :: u64
  b2_buffer_len :: nat

definition compress_round :: "u32 list \<Rightarrow> nat list \<Rightarrow> u32 list \<Rightarrow> u32 list" where
  "compress_round m s v =
     (let v = mix 0 4 8 12 (m ! (s ! 0)) (m ! (s ! 1)) v;
          v = mix 1 5 9 13 (m ! (s ! 2)) (m ! (s ! 3)) v;
          v = mix 2 6 10 14 (m ! (s ! 4)) (m ! (s ! 5)) v;
          v = mix 3 7 11 15 (m ! (s ! 6)) (m ! (s ! 7)) v;
          v = mix 0 5 10 15 (m ! (s ! 8)) (m ! (s ! 9)) v;
          v = mix 1 6 11 12 (m ! (s ! 10)) (m ! (s ! 11)) v;
          v = mix 2 7 8 13 (m ! (s ! 12)) (m ! (s ! 13)) v;
          v = mix 3 4 9 14 (m ! (s ! 14)) (m ! (s ! 15)) v
      in v)"

definition compress :: "u8 list \<Rightarrow> bool \<Rightarrow> blake2s \<Rightarrow> blake2s" where
  "compress block is_last s =
     (let m = map (\<lambda>i. load32_le (drop (i * 4) block)) [0..<16];
          v = b2_h s @ kIV;
          v = v[12 := v ! 12 XOR ucast (b2_counter s AND 0xFFFFFFFF)];
          v = v[13 := v ! 13 XOR ucast (drop_bit 32 (b2_counter s))];
          v = (if is_last then v[14 := NOT (v ! 14)] else v);
          v = fold (compress_round m) kSigma v
      in s\<lparr>b2_h := map (\<lambda>i. b2_h s ! i XOR (v ! i XOR v ! (i + 8))) [0..<8]\<rparr>)"

text \<open>\<^verbatim>\<open>memcpy(buffer + offset, src, n)\<close> and \<^verbatim>\<open>memset(buffer + offset, 0, n)\<close>.\<close>

definition overwrite :: "nat \<Rightarrow> 'a list \<Rightarrow> 'a list \<Rightarrow> 'a list" where
  "overwrite off src buf = take off buf @ src @ drop (off + length src) buf"

text \<open>
  The loop of \<^verbatim>\<open>update\<close>. \<^verbatim>\<open>buffer_len_ <= kBlockBytes\<close> is an invariant of the class; a state outside it,
  where the subtraction would wrap, is left alone.
\<close>

function update :: "u8 list \<Rightarrow> blake2s \<Rightarrow> blake2s" where
  "update p s =
     (if p = [] \<or> kBlockBytes < b2_buffer_len s then s
      else
        (let s = (if b2_buffer_len s = kBlockBytes
                  then (compress (b2_buffer s) False (s\<lparr>b2_counter := b2_counter s + of_nat kBlockBytes\<rparr>))
                         \<lparr>b2_buffer_len := 0\<rparr>
                  else s);
             space = kBlockBytes - b2_buffer_len s;
             taken = (if length p < space then length p else space)
         in update (drop taken p)
              (s\<lparr>b2_buffer := overwrite (b2_buffer_len s) (take taken p) (b2_buffer s),
                 b2_buffer_len := b2_buffer_len s + taken\<rparr>)))"
  by pat_completeness auto
termination
  by (relation "measure (\<lambda>(p, _). length p)") (auto simp: kBlockBytes_def split: if_splits)

declare update.simps [simp del]

definition reset :: "u8 list \<Rightarrow> blake2s" where
  "reset key =
     (let s = \<lparr>b2_h = kIV[0 := kIV ! 0 XOR (0x01010020 XOR push_bit 8 (of_nat (length key)))],
               b2_buffer = replicate kBlockBytes 0, b2_counter = 0, b2_buffer_len = 0\<rparr>
      in if key = [] then s
         else update (overwrite 0 (take kBlockBytes key) (replicate kBlockBytes 0)) s)"

definition final :: "blake2s \<Rightarrow> digest" where
  "final s =
     (let s = s\<lparr>b2_counter := b2_counter s + of_nat (b2_buffer_len s)\<rparr>;
          s = s\<lparr>b2_buffer := overwrite (b2_buffer_len s) (replicate (kBlockBytes - b2_buffer_len s) 0) (b2_buffer s)\<rparr>;
          s = compress (b2_buffer s) True s
      in concat (map (\<lambda>i. store32_le (b2_h s ! i)) [0..<8]))"

definition blake2s_hash :: "u8 list \<Rightarrow> digest" where
  "blake2s_hash data = final (update data (reset []))"

definition update_le64 :: "u64 \<Rightarrow> blake2s \<Rightarrow> blake2s" where
  "update_le64 v s = update (store_le 8 v) s"

subsection \<open>Absorbing in pieces\<close>

text \<open>The reference: absorb one byte at a time, compressing a full buffer when a byte follows it.\<close>

definition absorb :: "u8 \<Rightarrow> blake2s \<Rightarrow> blake2s" where
  "absorb b s =
     (let s = (if b2_buffer_len s = kBlockBytes
               then (compress (b2_buffer s) False (s\<lparr>b2_counter := b2_counter s + of_nat kBlockBytes\<rparr>))
                      \<lparr>b2_buffer_len := 0\<rparr>
               else s)
      in s\<lparr>b2_buffer := overwrite (b2_buffer_len s) [b] (b2_buffer s), b2_buffer_len := b2_buffer_len s + 1\<rparr>)"

definition blake_ok :: "blake2s \<Rightarrow> bool" where
  "blake_ok s \<longleftrightarrow> length (b2_buffer s) = kBlockBytes \<and> b2_buffer_len s \<le> kBlockBytes \<and> length (b2_h s) = 8"

lemma length_overwrite: "off + length src \<le> length buf \<Longrightarrow> length (overwrite off src buf) = length buf"
  by (simp add: overwrite_def)

lemma overwrite_append:
  "off + length (xs @ ys) \<le> length buf \<Longrightarrow>
     overwrite (off + length xs) ys (overwrite off xs buf) = overwrite off (xs @ ys) buf"
  by (simp add: overwrite_def ac_simps)

lemma compress_fields [simp]:
  "b2_buffer (compress blk l s) = b2_buffer s" "b2_counter (compress blk l s) = b2_counter s"
  "b2_buffer_len (compress blk l s) = b2_buffer_len s" "length (b2_h (compress blk l s)) = 8"
  by (simp_all add: compress_def Let_def)

lemma blake_ok_absorb: "blake_ok s \<Longrightarrow> blake_ok (absorb b s)"
  by (auto simp: blake_ok_def absorb_def Let_def length_overwrite kBlockBytes_def)

lemma blake_ok_fold_absorb: "blake_ok s \<Longrightarrow> blake_ok (fold absorb xs s)"
  by (induction xs arbitrary: s) (auto simp: blake_ok_absorb)

lemma fold_absorb_fits:
  "length (b2_buffer s) = kBlockBytes \<Longrightarrow> b2_buffer_len s + length xs \<le> kBlockBytes \<Longrightarrow>
   fold absorb xs s =
     s\<lparr>b2_buffer := overwrite (b2_buffer_len s) xs (b2_buffer s), b2_buffer_len := b2_buffer_len s + length xs\<rparr>"
proof (induction xs arbitrary: s)
  case Nil
  then show ?case by (simp add: overwrite_def)
next
  case (Cons x xs)
  then have step: "absorb x s =
      s\<lparr>b2_buffer := overwrite (b2_buffer_len s) [x] (b2_buffer s), b2_buffer_len := b2_buffer_len s + 1\<rparr>"
    by (simp add: absorb_def)
  show ?case
    using Cons.prems Cons.IH [of "absorb x s"] overwrite_append [of "b2_buffer_len s" "[x]" xs "b2_buffer s"]
    by (simp add: step length_overwrite)
qed

lemma update_eq_fold_absorb: "blake_ok s \<Longrightarrow> update p s = fold absorb p s"
proof (induction "length p" arbitrary: p s rule: less_induct)
  case (less p s)
  show ?case
  proof (cases "p = []")
    case True
    then show ?thesis by (simp add: update.simps)
  next
    case False
    define s1 where "s1 = (if b2_buffer_len s = kBlockBytes
        then (compress (b2_buffer s) False (s\<lparr>b2_counter := b2_counter s + of_nat kBlockBytes\<rparr>))
               \<lparr>b2_buffer_len := 0\<rparr> else s)"
    define n where "n = min (length p) (kBlockBytes - b2_buffer_len s1)"
    define s2 where "s2 = s1\<lparr>b2_buffer := overwrite (b2_buffer_len s1) (take n p) (b2_buffer s1),
        b2_buffer_len := b2_buffer_len s1 + n\<rparr>"
    have ok1: "length (b2_buffer s1) = kBlockBytes" "b2_buffer_len s1 < kBlockBytes" "length (b2_h s1) = 8"
      using less.prems by (auto simp: s1_def blake_ok_def kBlockBytes_def)
    have ok2: "blake_ok s2"
      using ok1 by (auto simp: s2_def blake_ok_def n_def length_overwrite)
    have up: "update p s = update (drop n p) s2"
      using False less.prems
      by (subst update.simps) (simp add: s1_def n_def s2_def Let_def min_def blake_ok_def)
    have "update (drop n p) s2 = fold absorb (drop n p) s2"
      using False ok1 ok2 by (intro less.hyps) (auto simp: n_def)
    moreover have "s2 = fold absorb (take n p) s1"
      using ok1 by (subst fold_absorb_fits) (auto simp: s2_def n_def min_def)
    moreover have "fold absorb (take n p) s1 = fold absorb (take n p) s"
    proof (cases "take n p")
      case Nil
      then show ?thesis using False ok1 by (auto simp: n_def min_def split: if_splits)
    next
      case (Cons x xs)
      have "absorb x s1 = absorb x s" by (auto simp: absorb_def s1_def Let_def kBlockBytes_def)
      with Cons show ?thesis by simp
    qed
    ultimately have "update p s = fold absorb (drop n p) (fold absorb (take n p) s)" using up by simp
    also have "\<dots> = fold absorb p s"
      by (metis append_take_drop_id comp_apply fold_append)
    finally show ?thesis .
  qed
qed

lemma blake_ok_reset_unkeyed: "blake_ok (reset [])"
  by (simp add: reset_def blake_ok_def kIV_def)

lemma update_append: "blake_ok s \<Longrightarrow> update (xs @ ys) s = update ys (update xs s)"
  by (simp add: update_eq_fold_absorb blake_ok_fold_absorb)

lemma blake2s_hash_pieces:
  "final (fold update pieces (reset [])) = blake2s_hash (concat pieces)"
proof -
  have "blake_ok s \<Longrightarrow> fold update pieces s = update (concat pieces) s" for s
  proof (induction pieces arbitrary: s)
    case Nil
    then show ?case by (simp add: update.simps)
  next
    case (Cons p ps)
    moreover from Cons.prems have "blake_ok (update p s)"
      by (simp add: update_eq_fold_absorb blake_ok_fold_absorb)
    ultimately show ?case by (simp add: update_append)
  qed
  then show ?thesis by (simp add: blake2s_hash_def blake_ok_reset_unkeyed)
qed

lemma length_final [simp]: "length (final s) = 32"
  by (simp add: final_def Let_def store32_le_def length_concat comp_def sum_list_triv)

lemma length_blake2s_hash [simp]: "length (blake2s_hash bs) = 32"
  by (simp add: blake2s_hash_def)

section \<open>CRC-32C\<close>

definition crc_bit :: "u32 \<Rightarrow> u32" where
  "crc_bit crc = (if crc AND 1 \<noteq> 0 then drop_bit 1 crc XOR 0x82F63B78 else drop_bit 1 crc)"

definition kCrc32c :: "u32 list" where
  "kCrc32c = map (\<lambda>i. (crc_bit ^^ 8) (of_nat i)) [0..<256]"

definition crc_byte :: "u8 \<Rightarrow> u32 \<Rightarrow> u32" where
  "crc_byte b crc = kCrc32c ! unat ((crc XOR ucast b) AND 0xFF) XOR drop_bit 8 crc"

definition crc32c_extend :: "u32 \<Rightarrow> u8 list \<Rightarrow> u32" where
  "crc32c_extend seed data = NOT (fold crc_byte data (NOT seed))"

definition crc32c :: "u8 list \<Rightarrow> u32" where
  "crc32c data = crc32c_extend 0 data"

subsection \<open>The table is eight steps of the bitwise division\<close>

lemma crc_bit_xor: "crc_bit (x XOR y) = crc_bit x XOR crc_bit y"
proof (rule bit_eqI)
  fix j
  show "bit (crc_bit (x XOR y)) j \<longleftrightarrow> bit (crc_bit x XOR crc_bit y) j"
    by (auto simp: crc_bit_def and_one_eq odd_iff_mod_2_eq_one [symmetric] bit_simps even_xor_iff
        simp flip: bit_0)
qed

lemma crc_bits_xor: "(crc_bit ^^ n) (x XOR y) = (crc_bit ^^ n) x XOR (crc_bit ^^ n) y"
  by (induction n) (simp_all add: crc_bit_xor)

lemma crc_bit_even: "\<not> bit x 0 \<Longrightarrow> crc_bit x = drop_bit 1 x"
  by (simp add: crc_bit_def and_one_eq bit_0 mod2_eq_if)

lemma crc_bits_drop: "(\<And>i. i < n \<Longrightarrow> \<not> bit x i) \<Longrightarrow> (crc_bit ^^ n) x = drop_bit n x"
proof (induction n)
  case 0
  show ?case by simp
next
  case (Suc n)
  have "\<not> bit (drop_bit n x) 0" using Suc.prems [of n] by (simp add: bit_simps)
  with Suc show ?case by (simp add: crc_bit_even drop_bit_drop_bit)
qed

lemma crc_byte_bits: "crc_byte b crc = (crc_bit ^^ 8) (crc XOR ucast b)"
proof -
  let ?x = "crc XOR ucast b :: u32"
  have m: "(0xFF :: u32) = mask 8" by (simp add: mask_eq_exp_minus_1)
  have "?x AND 0xFF \<le> 0xFF" by (rule word_and_le1)
  then have "unat (?x AND 0xFF) < 256" by (simp add: word_le_nat_alt)
  then have tab: "kCrc32c ! unat (?x AND 0xFF) = (crc_bit ^^ 8) (?x AND 0xFF)"
    by (simp add: kCrc32c_def)
  have hi: "drop_bit 8 crc = (crc_bit ^^ 8) (?x AND NOT 0xFF)"
  proof -
    have "(crc_bit ^^ 8) (?x AND NOT 0xFF) = drop_bit 8 (?x AND NOT 0xFF)"
      unfolding m by (rule crc_bits_drop) (simp add: bit_simps)
    also have "\<dots> = drop_bit 8 crc"
      unfolding m by (rule bit_eqI) (auto simp: bit_simps dest: bit_imp_le_length)
    finally show ?thesis by simp
  qed
  have "(?x AND 0xFF) XOR (?x AND NOT 0xFF) = ?x"
    by (rule bit_eqI) (auto simp: bit_simps)
  then show ?thesis
    unfolding crc_byte_def tab hi crc_bits_xor [symmetric] by simp
qed

lemma crc_bit_top: "bit (crc_bit x) 31 \<longleftrightarrow> bit x 0"
  by (auto simp: crc_bit_def and_one_eq bit_0 mod2_eq_if bit_simps dest: bit_imp_le_length)

lemma xor_left_inj: "(x :: u32) XOR y = x XOR z \<Longrightarrow> y = z"
  by (metis xor.left_neutral xor_self_eq xor.assoc)

lemma crc_bit_inj: "crc_bit x = crc_bit y \<Longrightarrow> x = y"
proof -
  assume eq: "crc_bit x = crc_bit y"
  then have low: "bit x 0 \<longleftrightarrow> bit y 0" using crc_bit_top by metis
  with eq have "drop_bit 1 x = drop_bit 1 y"
    by (auto simp: crc_bit_def and_one_eq bit_0 mod2_eq_if xor.commute [of _ 2197175160] split: if_splits
        dest: xor_left_inj)
  then have "bit x (Suc j) \<longleftrightarrow> bit y (Suc j)" for j
    by (metis bit_drop_bit_eq comp_apply plus_1_eq_Suc)
  with low have "bit x j \<longleftrightarrow> bit y j" for j by (cases j) auto
  then show "x = y" by (intro bit_eqI) auto
qed

lemma crc_bits_inj: "(crc_bit ^^ n) x = (crc_bit ^^ n) y \<Longrightarrow> x = y"
  by (induction n) (auto dest: crc_bit_inj)

lemma crc_byte_inj_state: "crc_byte b x = crc_byte b y \<Longrightarrow> x = y"
  by (metis crc_byte_bits crc_bits_inj xor_left_inj xor.commute)

lemma crc_byte_inj_byte: "crc_byte a x = crc_byte b x \<Longrightarrow> a = b"
proof -
  assume "crc_byte a x = crc_byte b x"
  then have "(ucast a :: u32) = ucast b" by (metis crc_byte_bits crc_bits_inj xor_left_inj)
  then have "bit a j \<longleftrightarrow> bit b j" if "j < 8" for j
    using that by (auto dest!: arg_cong [where f = "\<lambda>w :: u32. bit w j"] simp: bit_simps)
  then show "a = b" by (intro bit_eqI) simp
qed

lemma fold_crc_byte_inj: "fold crc_byte data x = fold crc_byte data y \<Longrightarrow> x = y"
  by (induction data arbitrary: x y) (auto dest: crc_byte_inj_state)

lemma crc32c_extend_append: "crc32c_extend (crc32c xs) ys = crc32c (xs @ ys)"
  by (simp add: crc32c_def crc32c_extend_def)

lemma crc32c_detects_byte: "crc32c (xs @ [a] @ ys) = crc32c (xs @ [b] @ ys) \<Longrightarrow> a = b"
  by (auto simp: crc32c_def crc32c_extend_def dest!: fold_crc_byte_inj crc_byte_inj_byte)

end
