(* ===== verification/Rnf_Bytes.thy ===== *)
theory Rnf_Bytes
  imports Rnf_Hash
begin

text \<open>
  \<^verbatim>\<open>core/bytes\<close>: strict UTF-8 validation, the bounded canonical encoder \<^verbatim>\<open>ByteWriter\<close> and the bounds
  checked decoder \<^verbatim>\<open>ByteReader\<close>. An encoder of the program is the sequence of writer calls it makes; the
  writer is the machine that runs such a sequence and latches a failure. The reader is a position in
  a byte range; every method of it refines a parser on the unread suffix, and the decoders of the
  later theories are written over those parsers. Each pair of writer call and reader method is an
  instance of the byte codec interface.
\<close>

section \<open>UTF-8\<close>

definition kMaxTextField :: nat where "kMaxTextField = 256"
definition kMaxBlobField :: nat where "kMaxBlobField = 4096"
definition kDefaultEncodingLimit :: nat where "kDefaultEncodingLimit = 2 ^ 20"

text \<open>The inner loop over the continuation bytes \<^verbatim>\<open>data[i + 1 .. i + extra]\<close>.\<close>

fun utf8_continue :: "nat \<Rightarrow> u8 list \<Rightarrow> u32 \<Rightarrow> u32 option" where
  "utf8_continue (Suc k) (b # bs) cp =
     (if b AND 0xC0 \<noteq> 0x80 then None
      else utf8_continue k bs (push_bit 6 cp OR ucast (b AND 0x3F)))"
| "utf8_continue _ _ cp = Some cp"

definition utf8_lead :: "u8 \<Rightarrow> (nat \<times> u32 \<times> u32) option" where
  "utf8_lead b0 =
     (if b0 AND 0xE0 = 0xC0 then Some (1, ucast (b0 AND 0x1F), 0x80)
      else if b0 AND 0xF0 = 0xE0 then Some (2, ucast (b0 AND 0x0F), 0x800)
      else if b0 AND 0xF8 = 0xF0 then Some (3, ucast (b0 AND 0x07), 0x10000)
      else None)"

function is_valid_utf8 :: "u8 list \<Rightarrow> bool" where
  "is_valid_utf8 [] = True"
| "is_valid_utf8 (b0 # rest) =
     (if b0 = 0 then False
      else if b0 < 0x80 then is_valid_utf8 rest
      else
        (case utf8_lead b0 of
           None \<Rightarrow> False
         | Some (extra, cp, lowest) \<Rightarrow>
             if length rest < extra then False
             else
               (case utf8_continue extra rest cp of
                  None \<Rightarrow> False
                | Some cp \<Rightarrow>
                    if cp < lowest then False
                    else if cp > 0x10FFFF then False
                    else if 0xD800 \<le> cp \<and> cp \<le> 0xDFFF then False
                    else is_valid_utf8 (drop extra rest))))"
  by pat_completeness auto
termination
  by (relation "measure length") auto

definition validate_utf8 :: "u8 list \<Rightarrow> status" where
  "validate_utf8 data =
     (if is_valid_utf8 data then ok_status
      else Status kInvalidUnicode ''field is not well-formed UTF-8'')"

text \<open>A \<^verbatim>\<open>std::string\<close> viewed as bytes, and the bytes assigned back to a string.\<close>

definition string_bytes :: "string \<Rightarrow> u8 list" where
  "string_bytes s = map of_char s"

definition bytes_string :: "u8 list \<Rightarrow> string" where
  "bytes_string bs = map (\<lambda>b. char_of (unat b)) bs"

lemma unat_of_char_u8 [simp]: "unat (of_char c :: u8) = of_char c"
proof -
  have "(of_char c :: u8) = of_nat (of_char c)" by (simp add: of_nat_of_char)
  then show ?thesis using nat_of_char_less_256 [of c] by (simp add: unat_of_nat)
qed

lemma bytes_string_bytes [simp]: "bytes_string (string_bytes s) = s"
  by (simp add: bytes_string_def string_bytes_def comp_def)

lemma string_bytes_string [simp]: "string_bytes (bytes_string bs) = bs"
proof -
  have "(of_char (char_of (unat b)) :: u8) = b" for b :: u8
  proof -
    have "unat b < 256" using unsigned_less [of b, where ?'a = nat] by simp
    then show ?thesis by (simp add: word_unat_eq_iff)
  qed
  then show ?thesis by (simp add: bytes_string_def string_bytes_def comp_def)
qed

lemma length_string_bytes [simp]: "length (string_bytes s) = length s"
  by (simp add: string_bytes_def)

lemma length_bytes_string [simp]: "length (bytes_string bs) = length bs"
  by (simp add: bytes_string_def)

lemma string_bytes_inj: "string_bytes s = string_bytes t \<Longrightarrow> s = t"
  by (metis bytes_string_bytes)

lemma ascii_valid_utf8: "\<forall>c\<in>set s. 0 < (of_char c :: u8) \<and> (of_char c :: u8) < 0x80 \<Longrightarrow> is_valid_utf8 (string_bytes s)"
  by (induction s) (auto simp: string_bytes_def)

section \<open>The writer\<close>

record byte_writer =
  bw_buffer :: "u8 list"
  bw_limit :: nat
  bw_ok :: bool

definition bw_new :: "nat \<Rightarrow> byte_writer" where
  "bw_new limit = \<lparr>bw_buffer = [], bw_limit = limit, bw_ok = True\<rparr>"

definition bw_clear :: "byte_writer \<Rightarrow> byte_writer" where
  "bw_clear w = w\<lparr>bw_buffer := [], bw_ok := True\<rparr>"

definition bw_raw :: "u8 list \<Rightarrow> byte_writer \<Rightarrow> byte_writer" where
  "bw_raw src w =
     (if \<not> bw_ok w \<or> length src > bw_limit w - length (bw_buffer w) then w\<lparr>bw_ok := False\<rparr>
      else w\<lparr>bw_buffer := bw_buffer w @ src\<rparr>)"

definition bw_u8 :: "u8 \<Rightarrow> byte_writer \<Rightarrow> byte_writer" where
  "bw_u8 v = bw_raw [v]"

definition bw_u16 :: "u16 \<Rightarrow> byte_writer \<Rightarrow> byte_writer" where
  "bw_u16 v = bw_raw (store_le 2 v)"

definition bw_u32 :: "u32 \<Rightarrow> byte_writer \<Rightarrow> byte_writer" where
  "bw_u32 v = bw_raw (store_le 4 v)"

definition bw_u64 :: "u64 \<Rightarrow> byte_writer \<Rightarrow> byte_writer" where
  "bw_u64 v = bw_raw (store_le 8 v)"

definition bw_boolean :: "bool \<Rightarrow> byte_writer \<Rightarrow> byte_writer" where
  "bw_boolean v = bw_u8 (if v then 1 else 0)"

definition bw_blob :: "u8 list \<Rightarrow> nat \<Rightarrow> byte_writer \<Rightarrow> byte_writer" where
  "bw_blob data max_len w =
     (if length data > max_len \<or> length data > 0xFFFFFFFF then w\<lparr>bw_ok := False\<rparr>
      else bw_raw data (bw_u32 (of_nat (length data)) w))"

definition bw_text :: "string \<Rightarrow> nat \<Rightarrow> byte_writer \<Rightarrow> byte_writer" where
  "bw_text value max_len w =
     (if \<not> is_valid_utf8 (string_bytes value) then w\<lparr>bw_ok := False\<rparr>
      else bw_blob (string_bytes value) max_len w)"

definition bw_digest :: "digest \<Rightarrow> byte_writer \<Rightarrow> byte_writer" where
  "bw_digest d = bw_raw d"

text \<open>The calls an encoder makes, as data; \<open>W_id\<close> is the \<^verbatim>\<open>id\<close> template, which writes the 64 bit value.\<close>

datatype writer_call =
    W_u8 u8 | W_u16 u16 | W_u32 u32 | W_u64 u64 | W_boolean bool
  | W_raw "u8 list" | W_blob "u8 list" nat | W_text string nat | W_digest digest | W_id u64

fun write_call :: "writer_call \<Rightarrow> byte_writer \<Rightarrow> byte_writer" where
  "write_call (W_u8 v) = bw_u8 v"
| "write_call (W_u16 v) = bw_u16 v"
| "write_call (W_u32 v) = bw_u32 v"
| "write_call (W_u64 v) = bw_u64 v"
| "write_call (W_boolean v) = bw_boolean v"
| "write_call (W_raw bs) = bw_raw bs"
| "write_call (W_blob bs m) = bw_blob bs m"
| "write_call (W_text s m) = bw_text s m"
| "write_call (W_digest d) = bw_digest d"
| "write_call (W_id v) = bw_u64 v"

definition write_all :: "writer_call list \<Rightarrow> byte_writer \<Rightarrow> byte_writer" where
  "write_all calls w = fold write_call calls w"

subsection \<open>What a sequence of calls writes\<close>

fun call_ok :: "writer_call \<Rightarrow> bool" where
  "call_ok (W_blob bs m) \<longleftrightarrow> length bs \<le> m \<and> length bs \<le> 0xFFFFFFFF"
| "call_ok (W_text s m) \<longleftrightarrow>
     is_valid_utf8 (string_bytes s) \<and> length s \<le> m \<and> length s \<le> 0xFFFFFFFF"
| "call_ok _ \<longleftrightarrow> True"

fun call_bytes :: "writer_call \<Rightarrow> u8 list" where
  "call_bytes (W_u8 v) = [v]"
| "call_bytes (W_u16 v) = store_le 2 v"
| "call_bytes (W_u32 v) = store_le 4 v"
| "call_bytes (W_u64 v) = store_le 8 v"
| "call_bytes (W_boolean v) = [if v then 1 else 0]"
| "call_bytes (W_raw bs) = bs"
| "call_bytes (W_blob bs m) = store_le 4 (of_nat (length bs) :: u32) @ bs"
| "call_bytes (W_text s m) = store_le 4 (of_nat (length s) :: u32) @ string_bytes s"
| "call_bytes (W_digest d) = d"
| "call_bytes (W_id v) = store_le 8 v"

abbreviation calls_ok :: "writer_call list \<Rightarrow> bool" where
  "calls_ok cs \<equiv> list_all call_ok cs"

abbreviation calls_bytes :: "writer_call list \<Rightarrow> u8 list" where
  "calls_bytes cs \<equiv> concat (map call_bytes cs)"

definition bw_wf :: "byte_writer \<Rightarrow> bool" where
  "bw_wf w \<longleftrightarrow> length (bw_buffer w) \<le> bw_limit w"

lemma bw_raw_not_ok [writer_simps]: "\<not> bw_ok w \<Longrightarrow> bw_raw bs w = w"
  by (simp add: bw_raw_def)

lemma bw_raw_raw [writer_simps]:
  "bw_wf w \<Longrightarrow> bw_ok (bw_raw ys (bw_raw xs w)) \<longleftrightarrow> bw_ok (bw_raw (xs @ ys) w)"
  "bw_wf w \<Longrightarrow> bw_ok (bw_raw (xs @ ys) w) \<Longrightarrow> bw_raw ys (bw_raw xs w) = bw_raw (xs @ ys) w"
  by (auto simp: bw_raw_def bw_wf_def split: if_splits)

lemma bw_raw_ok_iff:
  "bw_wf w \<Longrightarrow> bw_ok (bw_raw bs w) \<longleftrightarrow> bw_ok w \<and> length (bw_buffer w) + length bs \<le> bw_limit w"
  by (auto simp: bw_raw_def bw_wf_def)

lemma bw_raw_wf: "bw_wf w \<Longrightarrow> bw_wf (bw_raw bs w)"
  by (auto simp: bw_raw_def bw_wf_def)

lemma write_call_wf: "bw_wf w \<Longrightarrow> bw_wf (write_call c w)"
  by (cases c)
    (auto simp: bw_u8_def bw_u16_def bw_u32_def bw_u64_def bw_boolean_def bw_blob_def bw_text_def
      bw_digest_def bw_raw_def bw_wf_def)

lemma write_call_limit [simp]: "bw_limit (write_call c w) = bw_limit w"
  by (cases c)
    (auto simp: bw_u8_def bw_u16_def bw_u32_def bw_u64_def bw_boolean_def bw_blob_def bw_text_def
      bw_digest_def bw_raw_def)

lemma write_call_ok:
  assumes "bw_wf w"
  shows "bw_ok (write_call c w) \<longleftrightarrow>
     bw_ok w \<and> call_ok c \<and> length (bw_buffer w) + length (call_bytes c) \<le> bw_limit w"
  using assms
  by (cases c)
    (auto simp: bw_u8_def bw_u16_def bw_u32_def bw_u64_def bw_boolean_def bw_blob_def bw_text_def
      bw_digest_def bw_raw_ok_iff bw_raw_raw)

lemma write_call_buffer:
  assumes "bw_wf w" "bw_ok (write_call c w)"
  shows "bw_buffer (write_call c w) = bw_buffer w @ call_bytes c"
  using assms
  by (cases c)
    (auto simp: bw_u8_def bw_u16_def bw_u32_def bw_u64_def bw_boolean_def bw_blob_def bw_text_def
      bw_digest_def bw_raw_def bw_wf_def split: if_splits)

lemma write_all_spec:
  assumes "bw_wf w"
  shows "bw_ok (write_all cs w) \<longleftrightarrow>
      (bw_ok w \<and> calls_ok cs \<and> length (bw_buffer w) + length (calls_bytes cs) \<le> bw_limit w
       \<or> (cs = [] \<and> bw_ok w))"
    and "bw_ok (write_all cs w) \<Longrightarrow> bw_buffer (write_all cs w) = bw_buffer w @ calls_bytes cs"
  using assms
proof (induction cs arbitrary: w)
  case Nil
  { case 1 then show ?case by (auto simp: write_all_def bw_wf_def) }
  { case 2 then show ?case by (simp add: write_all_def) }
next
  case (Cons c cs)
  { case 1
    have wf: "bw_wf (write_call c w)" using 1 by (rule write_call_wf)
    have *: "write_all (c # cs) w = write_all cs (write_call c w)" by (simp add: write_all_def)
    show ?case
    proof (cases "bw_ok (write_call c w)")
      case True
      with Cons.IH(1) [OF wf] show ?thesis
        unfolding * using 1 write_call_ok [OF 1, of c] write_call_buffer [OF 1 True] by auto
    next
      case False
      with Cons.IH(1) [OF wf] show ?thesis
        unfolding * using write_call_ok [OF 1, of c] by auto
    qed }
  { case 2
    have wf: "bw_wf (write_call c w)" using 2(2) by (rule write_call_wf)
    have *: "write_all (c # cs) w = write_all cs (write_call c w)" by (simp add: write_all_def)
    have ok: "bw_ok (write_call c w)" using 2(1) Cons.IH(1) [OF wf] unfolding * by auto
    show ?case
      using 2 Cons.IH(2) [OF _ wf] write_call_buffer [OF 2(2) ok] unfolding * by simp }
qed

text \<open>
  The complete effect of running an encoder on a fresh writer: it succeeds exactly when every call
  is within its own bound and the whole fits the limit, and then the buffer is the concatenation.
\<close>

definition encode_calls :: "nat \<Rightarrow> writer_call list \<Rightarrow> u8 list option" where
  "encode_calls limit cs =
     (let w = write_all cs (bw_new limit) in if bw_ok w then Some (bw_buffer w) else None)"

lemma encode_calls_iff:
  "encode_calls limit cs = Some bs \<longleftrightarrow>
     calls_ok cs \<and> length (calls_bytes cs) \<le> limit \<and> bs = calls_bytes cs"
proof -
  have wf: "bw_wf (bw_new limit)" by (simp add: bw_wf_def bw_new_def)
  show ?thesis
    using write_all_spec [OF wf, of cs] by (auto simp: encode_calls_def bw_new_def Let_def)
qed

section \<open>The reader\<close>

record byte_reader =
  br_data :: "u8 list"
  br_offset :: nat

definition br_new :: "u8 list \<Rightarrow> byte_reader" where
  "br_new data = \<lparr>br_data = data, br_offset = 0\<rparr>"

definition br_remaining :: "byte_reader \<Rightarrow> nat" where
  "br_remaining r = length (br_data r) - br_offset r"

definition br_at_end :: "byte_reader \<Rightarrow> bool" where
  "br_at_end r \<longleftrightarrow> br_offset r = length (br_data r)"

definition br_u8 :: "byte_reader \<Rightarrow> (u8 \<times> byte_reader) option" where
  "br_u8 r =
     (if br_remaining r < 1 then None
      else Some (br_data r ! br_offset r, r\<lparr>br_offset := br_offset r + 1\<rparr>))"

definition br_u16 :: "byte_reader \<Rightarrow> (u16 \<times> byte_reader) option" where
  "br_u16 r =
     (if br_remaining r < 2 then None
      else Some (ucast (br_data r ! br_offset r) OR push_bit 8 (ucast (br_data r ! (br_offset r + 1))),
                 r\<lparr>br_offset := br_offset r + 2\<rparr>))"

definition br_u32 :: "byte_reader \<Rightarrow> (u32 \<times> byte_reader) option" where
  "br_u32 r =
     (if br_remaining r < 4 then None
      else Some (fold (\<lambda>i v. v OR push_bit (8 * i) (ucast (br_data r ! (br_offset r + i)))) [0..<4] 0,
                 r\<lparr>br_offset := br_offset r + 4\<rparr>))"

definition br_u64 :: "byte_reader \<Rightarrow> (u64 \<times> byte_reader) option" where
  "br_u64 r =
     (if br_remaining r < 8 then None
      else Some (fold (\<lambda>i v. v OR push_bit (8 * i) (ucast (br_data r ! (br_offset r + i)))) [0..<8] 0,
                 r\<lparr>br_offset := br_offset r + 8\<rparr>))"

definition br_boolean :: "byte_reader \<Rightarrow> (bool \<times> byte_reader) option" where
  "br_boolean r =
     (case br_u8 r of None \<Rightarrow> None | Some (v, r) \<Rightarrow> if v > 1 then None else Some (v \<noteq> 0, r))"

definition br_raw_bytes :: "nat \<Rightarrow> byte_reader \<Rightarrow> (u8 list \<times> byte_reader) option" where
  "br_raw_bytes n r =
     (if br_remaining r < n then None
      else Some (take n (drop (br_offset r) (br_data r)), r\<lparr>br_offset := br_offset r + n\<rparr>))"

definition br_blob :: "nat \<Rightarrow> byte_reader \<Rightarrow> (u8 list \<times> byte_reader) option" where
  "br_blob max_len r =
     (case br_u32 r of
        None \<Rightarrow> None
      | Some (len, r) \<Rightarrow>
          if unat len > max_len \<or> br_remaining r < unat len then None
          else br_raw_bytes (unat len) r)"

definition br_text :: "nat \<Rightarrow> byte_reader \<Rightarrow> (string \<times> byte_reader) option" where
  "br_text max_len r =
     (case br_blob max_len r of
        None \<Rightarrow> None
      | Some (view, r) \<Rightarrow> if \<not> is_valid_utf8 view then None else Some (bytes_string view, r))"

definition br_digest :: "byte_reader \<Rightarrow> (digest \<times> byte_reader) option" where
  "br_digest r = br_raw_bytes 32 r"

definition br_count :: "nat \<Rightarrow> byte_reader \<Rightarrow> (u32 \<times> byte_reader) option" where
  "br_count max_count r =
     (case br_u32 r of None \<Rightarrow> None | Some (n, r) \<Rightarrow> if unat n \<le> max_count then Some (n, r) else None)"

subsection \<open>The reader as a parser of the unread suffix\<close>

definition r_le :: "nat \<Rightarrow> u8 list \<Rightarrow> ('a::len word \<times> u8 list) option" where
  "r_le n bs = (if length bs < n then None else Some (load_le n bs, drop n bs))"

fun r_u8 :: "u8 list \<Rightarrow> (u8 \<times> u8 list) option" where
  "r_u8 [] = None"
| "r_u8 (b # bs) = Some (b, bs)"

definition r_u16 :: "u8 list \<Rightarrow> (u16 \<times> u8 list) option" where "r_u16 = r_le 2"
definition r_u32 :: "u8 list \<Rightarrow> (u32 \<times> u8 list) option" where "r_u32 = r_le 4"
definition r_u64 :: "u8 list \<Rightarrow> (u64 \<times> u8 list) option" where "r_u64 = r_le 8"

definition r_boolean :: "u8 list \<Rightarrow> (bool \<times> u8 list) option" where
  "r_boolean bs =
     (case r_u8 bs of None \<Rightarrow> None | Some (v, t) \<Rightarrow> if v > 1 then None else Some (v \<noteq> 0, t))"

definition r_raw_bytes :: "nat \<Rightarrow> u8 list \<Rightarrow> (u8 list \<times> u8 list) option" where
  "r_raw_bytes n bs = (if length bs < n then None else Some (take n bs, drop n bs))"

definition r_blob :: "nat \<Rightarrow> u8 list \<Rightarrow> (u8 list \<times> u8 list) option" where
  "r_blob max_len bs =
     (case r_u32 bs of
        None \<Rightarrow> None
      | Some (len, t) \<Rightarrow> if unat len > max_len then None else r_raw_bytes (unat len) t)"

definition r_text :: "nat \<Rightarrow> u8 list \<Rightarrow> (string \<times> u8 list) option" where
  "r_text max_len bs =
     (case r_blob max_len bs of
        None \<Rightarrow> None
      | Some (view, t) \<Rightarrow> if \<not> is_valid_utf8 view then None else Some (bytes_string view, t))"

definition r_digest :: "u8 list \<Rightarrow> (digest \<times> u8 list) option" where
  "r_digest = r_raw_bytes 32"

definition r_count :: "nat \<Rightarrow> u8 list \<Rightarrow> (nat \<times> u8 list) option" where
  "r_count max_count bs =
     (case r_u32 bs of
        None \<Rightarrow> None
      | Some (n, t) \<Rightarrow> if unat n \<le> max_count then Some (unat n, t) else None)"

text \<open>
  \<open>br_refines f g\<close>: on every reader within its data, the method \<open>f\<close> yields what the parser \<open>g\<close> yields on
  the unread suffix, and the new position is within the data and leaves exactly the parser's rest.
\<close>

definition br_wf :: "byte_reader \<Rightarrow> bool" where
  "br_wf r \<longleftrightarrow> br_offset r \<le> length (br_data r)"

definition br_rest :: "byte_reader \<Rightarrow> u8 list" where
  "br_rest r = drop (br_offset r) (br_data r)"

definition br_refines ::
  "(byte_reader \<Rightarrow> ('a \<times> byte_reader) option) \<Rightarrow> (u8 list \<Rightarrow> ('a \<times> u8 list) option) \<Rightarrow> bool" where
  "br_refines f g \<longleftrightarrow>
     (\<forall>r. br_wf r \<longrightarrow>
        (case f r of
           None \<Rightarrow> g (br_rest r) = None
         | Some (x, r') \<Rightarrow>
             br_wf r' \<and> br_data r' = br_data r \<and> g (br_rest r) = Some (x, br_rest r')))"

lemma load_le_drop:
  "off + n \<le> length d \<Longrightarrow>
     fold (\<lambda>i v. v OR push_bit (8 * i) (ucast (d ! (off + i)))) [0..<n] w =
     (fold (\<lambda>i v. v OR push_bit (8 * i) (ucast (drop off d ! i))) [0..<n] w :: 'a::len word)"
  by (intro fold_cong) auto

lemma br_u8_refines: "br_refines br_u8 r_u8"
  unfolding br_refines_def
proof (intro allI impI)
  fix r
  assume "br_wf r"
  then show "case br_u8 r of None \<Rightarrow> r_u8 (br_rest r) = None
      | Some (x, r') \<Rightarrow> br_wf r' \<and> br_data r' = br_data r \<and> r_u8 (br_rest r) = Some (x, br_rest r')"
    by (cases "br_rest r")
      (auto simp: br_u8_def br_remaining_def br_wf_def br_rest_def Cons_nth_drop_Suc [symmetric])
qed

lemma br_u16_refines: "br_refines br_u16 r_u16"
  by (auto simp: br_refines_def br_u16_def r_u16_def r_le_def br_remaining_def br_wf_def br_rest_def
      load_le_def eval_nat_numeral ac_simps)

lemma br_u32_refines: "br_refines br_u32 r_u32"
  by (auto simp: br_refines_def br_u32_def r_u32_def r_le_def br_remaining_def br_wf_def br_rest_def
      load_le_def load_le_drop ac_simps simp del: upt_Suc)

lemma br_u64_refines: "br_refines br_u64 r_u64"
  by (auto simp: br_refines_def br_u64_def r_u64_def r_le_def br_remaining_def br_wf_def br_rest_def
      load_le_def load_le_drop ac_simps simp del: upt_Suc)

lemma br_raw_bytes_refines: "br_refines (br_raw_bytes n) (r_raw_bytes n)"
  by (auto simp: br_refines_def br_raw_bytes_def r_raw_bytes_def br_remaining_def br_wf_def
      br_rest_def ac_simps)

text \<open>Sequencing keeps the refinement, so it holds of every decoder built from the methods.\<close>

lemma br_refines_bind:
  assumes f: "br_refines f g" and h: "\<And>x. br_refines (h x) (k x)"
  shows "br_refines (\<lambda>r. case f r of None \<Rightarrow> None | Some (x, r') \<Rightarrow> h x r')
           (\<lambda>bs. case g bs of None \<Rightarrow> None | Some (x, t) \<Rightarrow> k x t)"
  unfolding br_refines_def
proof (intro allI impI)
  fix r
  assume wf: "br_wf r"
  show "case (case f r of None \<Rightarrow> None | Some (x, r') \<Rightarrow> h x r') of
        None \<Rightarrow> (case g (br_rest r) of None \<Rightarrow> None | Some (x, t) \<Rightarrow> k x t) = None
      | Some (x, r') \<Rightarrow> br_wf r' \<and> br_data r' = br_data r \<and>
          (case g (br_rest r) of None \<Rightarrow> None | Some (x, t) \<Rightarrow> k x t) = Some (x, br_rest r')"
  proof (cases "f r")
    case None
    with f wf show ?thesis by (fastforce simp: br_refines_def)
  next
    case (Some p)
    obtain x r1 where p: "p = (x, r1)" by (cases p)
    have 1: "br_wf r1" "br_data r1 = br_data r" "g (br_rest r) = Some (x, br_rest r1)"
      using f wf Some p by (fastforce simp: br_refines_def)+
    then have "case h x r1 of None \<Rightarrow> k x (br_rest r1) = None
        | Some (y, r') \<Rightarrow> br_wf r' \<and> br_data r' = br_data r1 \<and> k x (br_rest r1) = Some (y, br_rest r')"
      using h [of x] by (simp add: br_refines_def)
    with 1 Some p show ?thesis by (auto split: option.splits)
  qed
qed

lemma br_refines_return: "br_refines (\<lambda>r. Some (x, r)) (\<lambda>t. Some (x, t))"
  by (simp add: br_refines_def)

lemma br_refines_none: "br_refines (\<lambda>r. None) (\<lambda>t. None)"
  by (simp add: br_refines_def)

lemma br_refines_if:
  "br_refines f g \<Longrightarrow> br_refines f' g' \<Longrightarrow>
     br_refines (\<lambda>r. if c then f r else f' r) (\<lambda>t. if c then g t else g' t)"
  by (simp add: br_refines_def)

lemmas br_refines_intros = br_u8_refines br_u32_refines br_raw_bytes_refines br_refines_bind
  br_refines_return br_refines_none br_refines_if

lemma br_boolean_refines: "br_refines br_boolean r_boolean"
  unfolding br_boolean_def [abs_def] r_boolean_def [abs_def] by (intro br_refines_intros)

lemma br_blob_refines: "br_refines (br_blob m) (r_blob m)"
proof -
  have "br_blob m = (\<lambda>r. case br_u32 r of None \<Rightarrow> None | Some (len, r) \<Rightarrow>
      if unat len > m then None else br_raw_bytes (unat len) r)"
    by (auto simp: br_blob_def br_raw_bytes_def fun_eq_iff split: option.splits)
  then show ?thesis
    unfolding r_blob_def [abs_def] by (auto intro!: br_refines_intros)
qed

lemma br_text_refines: "br_refines (br_text m) (r_text m)"
  unfolding br_text_def [abs_def] r_text_def [abs_def]
  by (intro br_refines_bind br_blob_refines br_refines_if br_refines_none br_refines_return)

lemma br_digest_refines: "br_refines br_digest r_digest"
  using br_raw_bytes_refines [of 32] by (simp add: br_digest_def [abs_def] r_digest_def)

section \<open>Each writer call with the reader method that reads it back\<close>

lemma r_le_codec:
  assumes "LENGTH('a::len) = 8 * n"
  shows "codec (store_le n :: 'a word \<Rightarrow> u8 list) (r_le n) (\<lambda>_. True)"
proof
  fix x :: "'a word" and t
  show "r_le n (store_le n x @ t) = Some (x, t)"
    by (simp add: r_le_def load_le_append load_store_le assms)
next
  fix bs t and x :: "'a word"
  assume "r_le n bs = Some (x, t)"
  then have *: "n \<le> length bs" "x = load_le n bs" "t = drop n bs"
    by (auto simp: r_le_def split: if_splits)
  have "load_le n bs = (load_le n (take n bs) :: 'a word)"
    using load_le_append [of "take n bs" n "drop n bs"] *(1) by simp
  then have "store_le n x = take n bs"
    using * by (simp add: store_load_le assms)
  with * show "True \<and> bs = store_le n x @ t" by simp
qed

interpretation u8c: codec "\<lambda>v. [v]" r_u8 "\<lambda>_. True"
proof
  fix bs :: "u8 list" and x t
  assume "r_u8 bs = Some (x, t)"
  then show "True \<and> bs = [x] @ t" by (cases bs) simp_all
qed simp

interpretation u16c: codec "store_le 2" r_u16 "\<lambda>_. True"
  unfolding r_u16_def by (rule r_le_codec) simp

interpretation u32c: codec "store_le 4" r_u32 "\<lambda>_. True"
  unfolding r_u32_def by (rule r_le_codec) simp

interpretation u64c: codec "store_le 8" r_u64 "\<lambda>_. True"
  unfolding r_u64_def by (rule r_le_codec) simp

interpretation booleanc: codec "\<lambda>v. [if v then 1 else 0]" r_boolean "\<lambda>_. True"
proof
  fix bs x t
  assume *: "r_boolean bs = Some (x, t)"
  then obtain v where v: "r_u8 bs = Some (v, t)" "v \<le> 1" "x \<longleftrightarrow> v \<noteq> 0"
    by (auto simp: r_boolean_def not_less split: option.splits if_splits)
  have "v = 0 \<or> v = 1" using v(2) by (auto simp: word_le_nat_alt word_unat_eq_iff)
  then show "True \<and> bs = [if x then 1 else 0] @ t"
    using v u8c.dec_sound [OF v(1)] by auto
qed (simp add: r_boolean_def)

lemma raw_bytes_codec: "codec (\<lambda>d. d) (r_raw_bytes n) (\<lambda>d. length d = n)"
  by unfold_locales (auto simp: r_raw_bytes_def split: if_splits)

interpretation digestc: codec "\<lambda>d. d" r_digest "\<lambda>d. length d = 32"
  unfolding r_digest_def by (rule raw_bytes_codec)

definition enc_blob :: "u8 list \<Rightarrow> u8 list" where
  "enc_blob d = store_le 4 (of_nat (length d) :: u32) @ d"

definition enc_text :: "string \<Rightarrow> u8 list" where
  "enc_text s = enc_blob (string_bytes s)"

lemma blob_codec:
  assumes "m < 2 ^ 32"
  shows "codec enc_blob (r_blob m) (\<lambda>d. length d \<le> m)"
proof
  fix d :: "u8 list" and t
  assume "length d \<le> m"
  with assms have "unat (of_nat (length d) :: u32) = length d" by (simp add: unat_of_nat)
  with \<open>length d \<le> m\<close> show "r_blob m (enc_blob d @ t) = Some (d, t)"
    by (simp add: r_blob_def enc_blob_def u32c.dec_enc r_raw_bytes_def)
next
  fix bs d t
  assume "r_blob m bs = Some (d, t)"
  then obtain len u where len: "r_u32 bs = Some (len, u)" "unat len \<le> m" "unat len \<le> length u"
      "d = take (unat len) u" "t = drop (unat len) u"
    by (auto simp: r_blob_def r_raw_bytes_def not_less split: option.splits if_splits)
  then have "length d = unat len" by simp
  then have "of_nat (length d) = len" by simp
  with len \<open>length d = unat len\<close> u32c.dec_sound [OF len(1)] show "length d \<le> m \<and> bs = enc_blob d @ t"
    by (simp add: enc_blob_def)
qed

abbreviation text_ok :: "nat \<Rightarrow> string \<Rightarrow> bool" where
  "text_ok m s \<equiv> length s \<le> m \<and> is_valid_utf8 (string_bytes s)"

lemma text_codec:
  assumes "m < 2 ^ 32"
  shows "codec enc_text (r_text m) (text_ok m)"
proof
  fix s t
  assume "text_ok m s"
  then show "r_text m (enc_text s @ t) = Some (s, t)"
    using codec.dec_enc [OF blob_codec [OF assms], of "string_bytes s" t]
    by (simp add: r_text_def enc_text_def)
next
  fix bs s t
  assume "r_text m bs = Some (s, t)"
  then obtain v where "r_blob m bs = Some (v, t)" "is_valid_utf8 v" "s = bytes_string v"
    by (auto simp: r_text_def split: option.splits if_splits)
  with codec.dec_sound [OF blob_codec [OF assms], of bs v t] show "text_ok m s \<and> bs = enc_text s @ t"
    by (auto simp: enc_text_def length_bytes_string)
qed

interpretation textc: codec enc_text "r_text kMaxTextField" "text_ok kMaxTextField"
  by (rule text_codec) (simp add: kMaxTextField_def)

lemma count_codec:
  assumes "m < 2 ^ 32"
  shows "codec (\<lambda>n. store_le 4 (of_nat n :: u32)) (r_count m) (\<lambda>n. n \<le> m)"
proof
  fix n t
  assume "n \<le> m"
  with assms have "unat (of_nat n :: u32) = n" by (simp add: unat_of_nat)
  with \<open>n \<le> m\<close> show "r_count m (store_le 4 (of_nat n :: u32) @ t) = Some (n, t)"
    by (simp add: r_count_def u32c.dec_enc)
next
  fix bs n t
  assume "r_count m bs = Some (n, t)"
  then obtain v where "r_u32 bs = Some (v, t)" "n = unat v" "n \<le> m"
    by (auto simp: r_count_def split: option.splits if_splits)
  with u32c.dec_sound [of bs v t] show "n \<le> m \<and> bs = store_le 4 (of_nat n :: u32) @ t" by simp
qed

lemmas dec_enc_basic [codec_simps] =
  u8c.dec_enc [simplified] u16c.dec_enc [simplified] u32c.dec_enc [simplified]
  u64c.dec_enc [simplified] booleanc.dec_enc [simplified] digestc.dec_enc

lemmas dec_sound_basic =
  u8c.dec_sound [simplified] u16c.dec_sound [simplified] u32c.dec_sound [simplified]
  u64c.dec_sound [simplified] booleanc.dec_sound [simplified] digestc.dec_sound

lemma call_bytes_text: "call_bytes (W_text s m) = enc_text s"
  by (simp add: enc_text_def enc_blob_def)

end
