(* ===== verification/Rnf_Types.thy ===== *)
theory Rnf_Types
  imports Rnf_Bytes
begin

text \<open>
  \<^verbatim>\<open>model/types\<close>: the domain vocabulary. Decoders cast a byte to an enumeration without checking it, so an
  enumeration with a fixed underlying type is modelled as its byte under a constructor and its
  enumerators as abbreviations; a \<^verbatim>\<open>switch\<close> is then a chain of comparisons with the fallback the source
  writes. Shown here: the lifecycle never leaves the retired state and honours authority only in
  states reachable with it, printing and parsing of every enumeration and of resource references
  invert each other, and availability combines to the least usable observation.
\<close>

section \<open>Scalar vocabulary\<close>

type_synonym topology_generation = u64
type_synonym rack_epoch = u64
type_synonym controller_incarnation = u64
type_synonym member_incarnation = u64
type_synonym fencing_token = u64
type_synonym timestamp_ms = u64
type_synonym sequence_no = u64
type_synonym capacity = u64

definition capacity_add :: "capacity \<Rightarrow> capacity \<Rightarrow> capacity result" where
  "capacity_add a b =
     (case checked_add_u64 a b of
        None \<Rightarrow> fail kOutOfRange ''capacity addition overflowed''
      | Some out \<Rightarrow> Inr out)"

definition capacity_sub :: "capacity \<Rightarrow> capacity \<Rightarrow> capacity result" where
  "capacity_sub a b =
     (case checked_sub_u64 a b of
        None \<Rightarrow> fail kCapacityExhausted ''capacity subtraction underflowed''
      | Some out \<Rightarrow> Inr out)"

lemma capacity_add_Inr_iff [simp]: "capacity_add a b = Inr c \<longleftrightarrow> unat a + unat b = unat c"
  using checked_add_u64_Some_iff [of a b c] by (auto simp: capacity_add_def split: option.splits)

lemma capacity_sub_Inr_iff [simp]: "capacity_sub a b = Inr c \<longleftrightarrow> unat a = unat b + unat c"
  using checked_sub_u64_Some_iff [of a b c] by (auto simp: capacity_sub_def split: option.splits)

section \<open>Enumerations\<close>

datatype device_role = DeviceRole (dr_byte: u8)

abbreviation DeviceRole_kUnknown :: device_role where "DeviceRole_kUnknown \<equiv> DeviceRole 0"
abbreviation DeviceRole_kSwitch :: device_role where "DeviceRole_kSwitch \<equiv> DeviceRole 1"
abbreviation DeviceRole_kHost :: device_role where "DeviceRole_kHost \<equiv> DeviceRole 2"
abbreviation DeviceRole_kAppliance :: device_role where "DeviceRole_kAppliance \<equiv> DeviceRole 3"
abbreviation DeviceRole_kManagement :: device_role where "DeviceRole_kManagement \<equiv> DeviceRole 4"
abbreviation DeviceRole_kSynthetic :: device_role where "DeviceRole_kSynthetic \<equiv> DeviceRole 5"

datatype port_role = PortRole (pr_byte: u8)

abbreviation PortRole_kUnknown :: port_role where "PortRole_kUnknown \<equiv> PortRole 0"
abbreviation PortRole_kAccess :: port_role where "PortRole_kAccess \<equiv> PortRole 1"
abbreviation PortRole_kUplink :: port_role where "PortRole_kUplink \<equiv> PortRole 2"
abbreviation PortRole_kFabric :: port_role where "PortRole_kFabric \<equiv> PortRole 3"
abbreviation PortRole_kPeer :: port_role where "PortRole_kPeer \<equiv> PortRole 4"
abbreviation PortRole_kManagement :: port_role where "PortRole_kManagement \<equiv> PortRole 5"

datatype link_kind = LinkKind (lk_byte: u8)

abbreviation LinkKind_kUnknown :: link_kind where "LinkKind_kUnknown \<equiv> LinkKind 0"
abbreviation LinkKind_kPhysical :: link_kind where "LinkKind_kPhysical \<equiv> LinkKind 1"
abbreviation LinkKind_kLogical :: link_kind where "LinkKind_kLogical \<equiv> LinkKind 2"
abbreviation LinkKind_kPeer :: link_kind where "LinkKind_kPeer \<equiv> LinkKind 3"

datatype admin_state = AdminState (as_byte: u8)

abbreviation AdminState_kUnknown :: admin_state where "AdminState_kUnknown \<equiv> AdminState 0"
abbreviation AdminState_kEnabled :: admin_state where "AdminState_kEnabled \<equiv> AdminState 1"
abbreviation AdminState_kDisabled :: admin_state where "AdminState_kDisabled \<equiv> AdminState 2"
abbreviation AdminState_kDraining :: admin_state where "AdminState_kDraining \<equiv> AdminState 3"

datatype availability = Availability (av_byte: u8)

abbreviation Availability_kUnknown :: availability where "Availability_kUnknown \<equiv> Availability 0"
abbreviation Availability_kDown :: availability where "Availability_kDown \<equiv> Availability 1"
abbreviation Availability_kMaintenance :: availability where "Availability_kMaintenance \<equiv> Availability 2"
abbreviation Availability_kDegraded :: availability where "Availability_kDegraded \<equiv> Availability 3"
abbreviation Availability_kUp :: availability where "Availability_kUp \<equiv> Availability 4"

datatype eligibility = Eligibility (el_byte: u8)

abbreviation Eligibility_kEligible :: eligibility where "Eligibility_kEligible \<equiv> Eligibility 1"
abbreviation Eligibility_kIneligible :: eligibility where "Eligibility_kIneligible \<equiv> Eligibility 2"
abbreviation Eligibility_kUnknown :: eligibility where "Eligibility_kUnknown \<equiv> Eligibility 3"
abbreviation Eligibility_kIncomplete :: eligibility where "Eligibility_kIncomplete \<equiv> Eligibility 4"

datatype resource_kind = ResourceKind (rk_byte: u8)

abbreviation ResourceKind_kRack :: resource_kind where "ResourceKind_kRack \<equiv> ResourceKind 1"
abbreviation ResourceKind_kDevice :: resource_kind where "ResourceKind_kDevice \<equiv> ResourceKind 2"
abbreviation ResourceKind_kPort :: resource_kind where "ResourceKind_kPort \<equiv> ResourceKind 3"
abbreviation ResourceKind_kLink :: resource_kind where "ResourceKind_kLink \<equiv> ResourceKind 4"
abbreviation ResourceKind_kAttachment :: resource_kind where "ResourceKind_kAttachment \<equiv> ResourceKind 5"
abbreviation ResourceKind_kPath :: resource_kind where "ResourceKind_kPath \<equiv> ResourceKind 6"

datatype lifecycle_state = LifecycleState (ls_byte: u8)

abbreviation LifecycleState_kAssembling :: lifecycle_state where "LifecycleState_kAssembling \<equiv> LifecycleState 1"
abbreviation LifecycleState_kActive :: lifecycle_state where "LifecycleState_kActive \<equiv> LifecycleState 2"
abbreviation LifecycleState_kDegraded :: lifecycle_state where "LifecycleState_kDegraded \<equiv> LifecycleState 3"
abbreviation LifecycleState_kDraining :: lifecycle_state where "LifecycleState_kDraining \<equiv> LifecycleState 4"
abbreviation LifecycleState_kMaintenance :: lifecycle_state where "LifecycleState_kMaintenance \<equiv> LifecycleState 5"
abbreviation LifecycleState_kRecovering :: lifecycle_state where "LifecycleState_kRecovering \<equiv> LifecycleState 6"
abbreviation LifecycleState_kRetired :: lifecycle_state where "LifecycleState_kRetired \<equiv> LifecycleState 7"

datatype source_kind = SourceKind (sk_byte: u8)

abbreviation SourceKind_kOperator :: source_kind where "SourceKind_kOperator \<equiv> SourceKind 1"
abbreviation SourceKind_kDiscovery :: source_kind where "SourceKind_kDiscovery \<equiv> SourceKind 2"
abbreviation SourceKind_kImported :: source_kind where "SourceKind_kImported \<equiv> SourceKind 3"
abbreviation SourceKind_kSynthetic :: source_kind where "SourceKind_kSynthetic \<equiv> SourceKind 4"

datatype durability = Durability (du_byte: u8)

abbreviation Durability_kEphemeral :: durability where "Durability_kEphemeral \<equiv> Durability 1"
abbreviation Durability_kSticky :: durability where "Durability_kSticky \<equiv> Durability 2"

datatype maintenance_kind = MaintenanceKind (mk_byte: u8)

abbreviation MaintenanceKind_kDrain :: maintenance_kind where "MaintenanceKind_kDrain \<equiv> MaintenanceKind 1"
abbreviation MaintenanceKind_kMaintenance :: maintenance_kind where "MaintenanceKind_kMaintenance \<equiv> MaintenanceKind 2"
abbreviation MaintenanceKind_kClear :: maintenance_kind where "MaintenanceKind_kClear \<equiv> MaintenanceKind 3"

datatype evidence_kind = EvidenceKind (ek_byte: u8)

abbreviation EvidenceKind_kMember :: evidence_kind where "EvidenceKind_kMember \<equiv> EvidenceKind 1"
abbreviation EvidenceKind_kDevice :: evidence_kind where "EvidenceKind_kDevice \<equiv> EvidenceKind 2"
abbreviation EvidenceKind_kPort :: evidence_kind where "EvidenceKind_kPort \<equiv> EvidenceKind 3"
abbreviation EvidenceKind_kLink :: evidence_kind where "EvidenceKind_kLink \<equiv> EvidenceKind 4"
abbreviation EvidenceKind_kAttachment :: evidence_kind where "EvidenceKind_kAttachment \<equiv> EvidenceKind 5"
abbreviation EvidenceKind_kMaintenance :: evidence_kind where "EvidenceKind_kMaintenance \<equiv> EvidenceKind 6"
abbreviation EvidenceKind_kObligation :: evidence_kind where "EvidenceKind_kObligation \<equiv> EvidenceKind 7"

datatype diagnostic_kind = DiagnosticKind (dk_byte: u8)

abbreviation DiagnosticKind_kStaleEvidence :: diagnostic_kind where "DiagnosticKind_kStaleEvidence \<equiv> DiagnosticKind 1"
abbreviation DiagnosticKind_kSupersededEvidence :: diagnostic_kind where "DiagnosticKind_kSupersededEvidence \<equiv> DiagnosticKind 2"
abbreviation DiagnosticKind_kConflictingEvidence :: diagnostic_kind where "DiagnosticKind_kConflictingEvidence \<equiv> DiagnosticKind 3"
abbreviation DiagnosticKind_kIncompleteTopology :: diagnostic_kind where "DiagnosticKind_kIncompleteTopology \<equiv> DiagnosticKind 4"
abbreviation DiagnosticKind_kOutOfRack :: diagnostic_kind where "DiagnosticKind_kOutOfRack \<equiv> DiagnosticKind 5"
abbreviation DiagnosticKind_kUnknownCapacity :: diagnostic_kind where "DiagnosticKind_kUnknownCapacity \<equiv> DiagnosticKind 6"
abbreviation DiagnosticKind_kCapacityOvercommit :: diagnostic_kind where "DiagnosticKind_kCapacityOvercommit \<equiv> DiagnosticKind 7"
abbreviation DiagnosticKind_kMaintenanceExclusion :: diagnostic_kind where "DiagnosticKind_kMaintenanceExclusion \<equiv> DiagnosticKind 8"
abbreviation DiagnosticKind_kUnsupportedObservation :: diagnostic_kind where "DiagnosticKind_kUnsupportedObservation \<equiv> DiagnosticKind 9"
abbreviation DiagnosticKind_kUnknownMember :: diagnostic_kind where "DiagnosticKind_kUnknownMember \<equiv> DiagnosticKind 10"
abbreviation DiagnosticKind_kReplayedEvidence :: diagnostic_kind where "DiagnosticKind_kReplayedEvidence \<equiv> DiagnosticKind 11"
abbreviation DiagnosticKind_kUnresolvedReference :: diagnostic_kind where "DiagnosticKind_kUnresolvedReference \<equiv> DiagnosticKind 12"

text \<open>The built-in orders of the enumerations are those of their bytes.\<close>

instantiation resource_kind :: linorder
begin

definition less_eq_resource_kind :: "resource_kind \<Rightarrow> resource_kind \<Rightarrow> bool" where
  "less_eq_resource_kind a b \<longleftrightarrow> rk_byte a \<le> rk_byte b"

definition less_resource_kind :: "resource_kind \<Rightarrow> resource_kind \<Rightarrow> bool" where
  "less_resource_kind a b \<longleftrightarrow> rk_byte a < rk_byte b"

instance
  by standard (auto simp: less_eq_resource_kind_def less_resource_kind_def resource_kind.expand)

end

instantiation evidence_kind :: linorder
begin

definition less_eq_evidence_kind :: "evidence_kind \<Rightarrow> evidence_kind \<Rightarrow> bool" where
  "less_eq_evidence_kind a b \<longleftrightarrow> ek_byte a \<le> ek_byte b"

definition less_evidence_kind :: "evidence_kind \<Rightarrow> evidence_kind \<Rightarrow> bool" where
  "less_evidence_kind a b \<longleftrightarrow> ek_byte a < ek_byte b"

instance
  by standard (auto simp: less_eq_evidence_kind_def less_evidence_kind_def evidence_kind.expand)

end

instantiation diagnostic_kind :: linorder
begin

definition less_eq_diagnostic_kind :: "diagnostic_kind \<Rightarrow> diagnostic_kind \<Rightarrow> bool" where
  "less_eq_diagnostic_kind a b \<longleftrightarrow> dk_byte a \<le> dk_byte b"

definition less_diagnostic_kind :: "diagnostic_kind \<Rightarrow> diagnostic_kind \<Rightarrow> bool" where
  "less_diagnostic_kind a b \<longleftrightarrow> dk_byte a < dk_byte b"

instance
  by standard (auto simp: less_eq_diagnostic_kind_def less_diagnostic_kind_def diagnostic_kind.expand)

end

datatype resource_ref = ResourceRef (ref_kind: resource_kind) (ref_id: u64)

datatype diagnostic =
  Diagnostic (dg_kind: diagnostic_kind) (dg_subject_kind: evidence_kind) (dg_subject_id: u64)
    (dg_source: source_id) (dg_detail: string)

text \<open>
  The hand written three way comparisons look at one field after the other and stop at the first
  difference: the lexicographic order of the fields.
\<close>

instantiation resource_ref :: linorder
begin

definition less_eq_resource_ref :: "resource_ref \<Rightarrow> resource_ref \<Rightarrow> bool" where
  "less_eq_resource_ref a b \<longleftrightarrow> (ref_kind a, ref_id a) \<le> (ref_kind b, ref_id b)"

definition less_resource_ref :: "resource_ref \<Rightarrow> resource_ref \<Rightarrow> bool" where
  "less_resource_ref a b \<longleftrightarrow> (ref_kind a, ref_id a) < (ref_kind b, ref_id b)"

instance
  by standard (auto simp: less_eq_resource_ref_def less_resource_ref_def resource_ref.expand)

end

instantiation diagnostic :: linorder
begin

definition less_eq_diagnostic :: "diagnostic \<Rightarrow> diagnostic \<Rightarrow> bool" where
  "less_eq_diagnostic a b \<longleftrightarrow> (dg_kind a, dg_subject_kind a, dg_subject_id a, dg_source a, dg_detail a) \<le> (dg_kind b, dg_subject_kind b, dg_subject_id b, dg_source b, dg_detail b)"

definition less_diagnostic :: "diagnostic \<Rightarrow> diagnostic \<Rightarrow> bool" where
  "less_diagnostic a b \<longleftrightarrow> (dg_kind a, dg_subject_kind a, dg_subject_id a, dg_source a, dg_detail a) < (dg_kind b, dg_subject_kind b, dg_subject_id b, dg_source b, dg_detail b)"

instance
  by standard (auto simp: less_eq_diagnostic_def less_diagnostic_def diagnostic.expand)

end

section \<open>Availability\<close>

definition availability_rank :: "availability \<Rightarrow> nat" where
  "availability_rank a = unat (av_byte a)"

definition combine_availability :: "availability \<Rightarrow> availability \<Rightarrow> availability" where
  "combine_availability a b = (if availability_rank a \<le> availability_rank b then a else b)"

lemma availability_rank_combine:
  "availability_rank (combine_availability a b) = min (availability_rank a) (availability_rank b)"
  by (simp add: combine_availability_def)

lemma combine_availability_assoc:
  "combine_availability (combine_availability a b) c = combine_availability a (combine_availability b c)"
  by (auto simp: combine_availability_def)

lemma combine_availability_commute: "combine_availability a b = combine_availability b a"
  by (auto simp: combine_availability_def availability_rank_def availability.expand word_unat_eq_iff)

section \<open>Lifecycle\<close>

definition lifecycle_accepts_new_authority :: "lifecycle_state \<Rightarrow> bool" where
  "lifecycle_accepts_new_authority s \<longleftrightarrow> s = LifecycleState_kActive \<or> s = LifecycleState_kDegraded"

definition lifecycle_honours_existing_authority :: "lifecycle_state \<Rightarrow> bool" where
  "lifecycle_honours_existing_authority s =
     (if s = LifecycleState_kActive \<or> s = LifecycleState_kDegraded \<or> s = LifecycleState_kDraining then True
      else if s = LifecycleState_kAssembling \<or> s = LifecycleState_kMaintenance
        \<or> s = LifecycleState_kRecovering \<or> s = LifecycleState_kRetired then False
      else False)"

definition lifecycle_transition_allowed :: "lifecycle_state \<Rightarrow> lifecycle_state \<Rightarrow> bool" where
  "lifecycle_transition_allowed src dst =
     (if src = dst then True
      else if src = LifecycleState_kRetired then False
      else if src = LifecycleState_kAssembling then
        dst = LifecycleState_kActive \<or> dst = LifecycleState_kDegraded \<or>
        dst = LifecycleState_kRetired \<or> dst = LifecycleState_kRecovering
      else if src = LifecycleState_kActive then
        dst = LifecycleState_kDegraded \<or> dst = LifecycleState_kDraining \<or>
        dst = LifecycleState_kMaintenance \<or> dst = LifecycleState_kRecovering \<or>
        dst = LifecycleState_kRetired \<or> dst = LifecycleState_kAssembling
      else if src = LifecycleState_kDegraded then
        dst = LifecycleState_kActive \<or> dst = LifecycleState_kDraining \<or>
        dst = LifecycleState_kMaintenance \<or> dst = LifecycleState_kRecovering \<or>
        dst = LifecycleState_kRetired
      else if src = LifecycleState_kDraining then
        dst = LifecycleState_kMaintenance \<or> dst = LifecycleState_kActive \<or>
        dst = LifecycleState_kDegraded \<or> dst = LifecycleState_kRecovering \<or>
        dst = LifecycleState_kRetired
      else if src = LifecycleState_kMaintenance then
        dst = LifecycleState_kDraining \<or> dst = LifecycleState_kRecovering \<or>
        dst = LifecycleState_kRetired
      else if src = LifecycleState_kRecovering then
        dst = LifecycleState_kActive \<or> dst = LifecycleState_kDegraded \<or>
        dst = LifecycleState_kDraining \<or> dst = LifecycleState_kMaintenance \<or>
        dst = LifecycleState_kRetired
      else False)"

lemma lifecycle_accepts_honours:
  "lifecycle_accepts_new_authority s \<Longrightarrow> lifecycle_honours_existing_authority s"
  by (auto simp: lifecycle_accepts_new_authority_def lifecycle_honours_existing_authority_def)

text \<open>A lifecycle history is a path of allowed transitions; retirement ends every one of them.\<close>

lemma lifecycle_retired_final:
  "lifecycle_transition_allowed\<^sup>*\<^sup>* LifecycleState_kRetired s \<Longrightarrow> s = LifecycleState_kRetired"
  by (induction rule: rtranclp_induct) (auto simp: lifecycle_transition_allowed_def split: if_splits)

lemma lifecycle_maintenance_no_shortcut:
  "lifecycle_transition_allowed LifecycleState_kMaintenance s \<Longrightarrow> \<not> lifecycle_accepts_new_authority s"
  by (auto simp: lifecycle_transition_allowed_def lifecycle_accepts_new_authority_def)

section \<open>Text conversion\<close>

definition parse_enum :: "string \<Rightarrow> (string \<times> 'e) list \<Rightarrow> 'e option" where
  "parse_enum text table =
     (case find (\<lambda>e. fst e = text) table of Some e \<Rightarrow> Some (snd e) | None \<Rightarrow> None)"

definition table_to_string :: "(string \<times> 'e) list \<Rightarrow> 'e \<Rightarrow> string" where
  "table_to_string table v =
     (case find (\<lambda>e. snd e = v) table of Some e \<Rightarrow> fst e | None \<Rightarrow> ''unknown'')"

lemma parse_enum_to_string:
  assumes "distinct (map fst table)" "v \<in> snd ` set table"
  shows "parse_enum (table_to_string table v) table = Some v"
proof -
  obtain e where e: "find (\<lambda>e. snd e = v) table = Some e"
    using assms(2) by (cases "find (\<lambda>e. snd e = v) table") (auto simp: find_None_iff)
  then have in_table: "e \<in> set table" "snd e = v" by (auto simp: find_Some_iff)
  obtain f where f: "find (\<lambda>x. fst x = fst e) table = Some f"
    using in_table(1) by (metis (mono_tags, lifting) find_None_iff not_Some_eq)
  then have "f \<in> set table" "fst f = fst e" by (auto simp: find_Some_iff)
  with in_table assms(1) have "f = e" by (metis eq_key_imp_eq_value prod.collapse)
  with e f in_table show ?thesis by (simp add: parse_enum_def table_to_string_def)
qed

definition kDeviceRoles :: "(string \<times> device_role) list" where
  "kDeviceRoles =
    [(''unknown'', DeviceRole_kUnknown),
     (''switch'', DeviceRole_kSwitch),
     (''host'', DeviceRole_kHost),
     (''appliance'', DeviceRole_kAppliance),
     (''management'', DeviceRole_kManagement),
     (''synthetic'', DeviceRole_kSynthetic)]"

definition device_role_to_string :: "device_role \<Rightarrow> string" where
  "device_role_to_string v = table_to_string kDeviceRoles v"

definition parse_device_role :: "string \<Rightarrow> device_role option" where
  "parse_device_role text = parse_enum text kDeviceRoles"

definition kPortRoles :: "(string \<times> port_role) list" where
  "kPortRoles =
    [(''unknown'', PortRole_kUnknown),
     (''access'', PortRole_kAccess),
     (''uplink'', PortRole_kUplink),
     (''fabric'', PortRole_kFabric),
     (''peer'', PortRole_kPeer),
     (''management'', PortRole_kManagement)]"

definition port_role_to_string :: "port_role \<Rightarrow> string" where
  "port_role_to_string v = table_to_string kPortRoles v"

definition parse_port_role :: "string \<Rightarrow> port_role option" where
  "parse_port_role text = parse_enum text kPortRoles"

definition kLinkKinds :: "(string \<times> link_kind) list" where
  "kLinkKinds =
    [(''unknown'', LinkKind_kUnknown),
     (''physical'', LinkKind_kPhysical),
     (''logical'', LinkKind_kLogical),
     (''peer'', LinkKind_kPeer)]"

definition link_kind_to_string :: "link_kind \<Rightarrow> string" where
  "link_kind_to_string v = table_to_string kLinkKinds v"

definition parse_link_kind :: "string \<Rightarrow> link_kind option" where
  "parse_link_kind text = parse_enum text kLinkKinds"

definition kAdminStates :: "(string \<times> admin_state) list" where
  "kAdminStates =
    [(''unknown'', AdminState_kUnknown),
     (''enabled'', AdminState_kEnabled),
     (''disabled'', AdminState_kDisabled),
     (''draining'', AdminState_kDraining)]"

definition admin_state_to_string :: "admin_state \<Rightarrow> string" where
  "admin_state_to_string v = table_to_string kAdminStates v"

definition parse_admin_state :: "string \<Rightarrow> admin_state option" where
  "parse_admin_state text = parse_enum text kAdminStates"

definition kAvailabilities :: "(string \<times> availability) list" where
  "kAvailabilities =
    [(''unknown'', Availability_kUnknown),
     (''down'', Availability_kDown),
     (''maintenance'', Availability_kMaintenance),
     (''degraded'', Availability_kDegraded),
     (''up'', Availability_kUp)]"

definition availability_to_string :: "availability \<Rightarrow> string" where
  "availability_to_string v = table_to_string kAvailabilities v"

definition parse_availability :: "string \<Rightarrow> availability option" where
  "parse_availability text = parse_enum text kAvailabilities"

definition eligibility_to_string :: "eligibility \<Rightarrow> string" where
  "eligibility_to_string v =
     (if v = Eligibility_kEligible then ''eligible''
      else if v = Eligibility_kIneligible then ''ineligible''
      else if v = Eligibility_kUnknown then ''unknown''
      else if v = Eligibility_kIncomplete then ''incomplete''
      else ''unknown'')"

definition kResourceKinds :: "(string \<times> resource_kind) list" where
  "kResourceKinds =
    [(''rack'', ResourceKind_kRack),
     (''device'', ResourceKind_kDevice),
     (''port'', ResourceKind_kPort),
     (''link'', ResourceKind_kLink),
     (''attachment'', ResourceKind_kAttachment),
     (''path'', ResourceKind_kPath)]"

definition resource_kind_to_string :: "resource_kind \<Rightarrow> string" where
  "resource_kind_to_string v = table_to_string kResourceKinds v"

definition parse_resource_kind :: "string \<Rightarrow> resource_kind option" where
  "parse_resource_kind text = parse_enum text kResourceKinds"

definition kLifecycleStates :: "(string \<times> lifecycle_state) list" where
  "kLifecycleStates =
    [(''assembling'', LifecycleState_kAssembling),
     (''active'', LifecycleState_kActive),
     (''degraded'', LifecycleState_kDegraded),
     (''draining'', LifecycleState_kDraining),
     (''maintenance'', LifecycleState_kMaintenance),
     (''recovering'', LifecycleState_kRecovering),
     (''retired'', LifecycleState_kRetired)]"

definition lifecycle_state_to_string :: "lifecycle_state \<Rightarrow> string" where
  "lifecycle_state_to_string v = table_to_string kLifecycleStates v"

definition parse_lifecycle_state :: "string \<Rightarrow> lifecycle_state option" where
  "parse_lifecycle_state text = parse_enum text kLifecycleStates"

definition kSourceKinds :: "(string \<times> source_kind) list" where
  "kSourceKinds =
    [(''operator'', SourceKind_kOperator),
     (''discovery'', SourceKind_kDiscovery),
     (''imported'', SourceKind_kImported),
     (''synthetic'', SourceKind_kSynthetic)]"

definition source_kind_to_string :: "source_kind \<Rightarrow> string" where
  "source_kind_to_string v = table_to_string kSourceKinds v"

definition parse_source_kind :: "string \<Rightarrow> source_kind option" where
  "parse_source_kind text = parse_enum text kSourceKinds"

definition kDurabilities :: "(string \<times> durability) list" where
  "kDurabilities =
    [(''ephemeral'', Durability_kEphemeral),
     (''sticky'', Durability_kSticky)]"

definition durability_to_string :: "durability \<Rightarrow> string" where
  "durability_to_string v = table_to_string kDurabilities v"

definition parse_durability :: "string \<Rightarrow> durability option" where
  "parse_durability text = parse_enum text kDurabilities"

definition kMaintenanceKinds :: "(string \<times> maintenance_kind) list" where
  "kMaintenanceKinds =
    [(''drain'', MaintenanceKind_kDrain),
     (''maintenance'', MaintenanceKind_kMaintenance),
     (''clear'', MaintenanceKind_kClear)]"

definition maintenance_kind_to_string :: "maintenance_kind \<Rightarrow> string" where
  "maintenance_kind_to_string v = table_to_string kMaintenanceKinds v"

definition parse_maintenance_kind :: "string \<Rightarrow> maintenance_kind option" where
  "parse_maintenance_kind text = parse_enum text kMaintenanceKinds"

definition evidence_kind_to_string :: "evidence_kind \<Rightarrow> string" where
  "evidence_kind_to_string v =
     (if v = EvidenceKind_kMember then ''member''
      else if v = EvidenceKind_kDevice then ''device''
      else if v = EvidenceKind_kPort then ''port''
      else if v = EvidenceKind_kLink then ''link''
      else if v = EvidenceKind_kAttachment then ''attachment''
      else if v = EvidenceKind_kMaintenance then ''maintenance''
      else if v = EvidenceKind_kObligation then ''obligation''
      else ''unknown'')"

definition diagnostic_kind_to_string :: "diagnostic_kind \<Rightarrow> string" where
  "diagnostic_kind_to_string v =
     (if v = DiagnosticKind_kStaleEvidence then ''stale_evidence''
      else if v = DiagnosticKind_kSupersededEvidence then ''superseded_evidence''
      else if v = DiagnosticKind_kConflictingEvidence then ''conflicting_evidence''
      else if v = DiagnosticKind_kIncompleteTopology then ''incomplete_topology''
      else if v = DiagnosticKind_kOutOfRack then ''out_of_rack''
      else if v = DiagnosticKind_kUnknownCapacity then ''unknown_capacity''
      else if v = DiagnosticKind_kCapacityOvercommit then ''capacity_overcommit''
      else if v = DiagnosticKind_kMaintenanceExclusion then ''maintenance_exclusion''
      else if v = DiagnosticKind_kUnsupportedObservation then ''unsupported_observation''
      else if v = DiagnosticKind_kUnknownMember then ''unknown_member''
      else if v = DiagnosticKind_kReplayedEvidence then ''replayed_evidence''
      else if v = DiagnosticKind_kUnresolvedReference then ''unresolved_reference''
      else ''unknown'')"

definition ref_to_text :: "resource_ref \<Rightarrow> string" where
  "ref_to_text r = resource_kind_to_string (ref_kind r) @ '':'' @ to_string_u64 (ref_id r)"

fun parse_u64_loop :: "string \<Rightarrow> u64 \<Rightarrow> u64 option" where
  "parse_u64_loop [] v = Some v"
| "parse_u64_loop (c # cs) v =
     (let n = of_char c :: nat in
      if n < 48 \<or> n > 57 then None
      else
        (let digit = of_nat (n - 48) :: u64 in
         if v > (u64_max - digit) div 10 then None
         else parse_u64_loop cs (v * 10 + digit)))"

definition parse_u64 :: "string \<Rightarrow> u64 option" where
  "parse_u64 text = (if text = [] \<or> length text > 20 then None else parse_u64_loop text 0)"

text \<open>\<^verbatim>\<open>text.find(':')\<close>: the characters before the first colon, and those after it.\<close>

definition find_colon :: "string \<Rightarrow> nat option" where
  "find_colon text =
     (let n = length (takeWhile (\<lambda>c. c \<noteq> CHR '':'') text) in
      if n = length text then None else Some n)"

definition parse_resource_ref :: "string \<Rightarrow> resource_ref result" where
  "parse_resource_ref text =
     (case find_colon text of
        None \<Rightarrow> fail kMalformedEncoding (''resource reference must be '<kind>:<id>'' @ [CHR 0x27])
      | Some colon \<Rightarrow>
          if colon = 0 \<or> colon + 1 \<ge> length text
          then fail kMalformedEncoding (''resource reference must be '<kind>:<id>'' @ [CHR 0x27])
          else
            (case parse_resource_kind (take colon text) of
               None \<Rightarrow> fail kMalformedEncoding ''unknown resource kind''
             | Some kind \<Rightarrow>
                 (case parse_u64 (drop (colon + 1) text) of
                    None \<Rightarrow> fail kInvalidIdentity ''resource id must be a positive integer''
                  | Some id' \<Rightarrow>
                      if id' = 0 then fail kInvalidIdentity ''resource id must be a positive integer''
                      else Inr (ResourceRef kind id'))))"

subsection \<open>Printing and parsing resource references\<close>

lemma parse_u64_loop_append:
  "parse_u64_loop (xs @ ys) v =
     (case parse_u64_loop xs v of None \<Rightarrow> None | Some w \<Rightarrow> parse_u64_loop ys w)"
  by (induction xs v rule: parse_u64_loop.induct) (auto simp: Let_def)

lemma of_char_digit_char: "d < 10 \<Longrightarrow> (of_char (digit_char d) :: nat) = 48 + d"
  by (simp add: digit_char_def)

lemma parse_u64_loop_digit:
  assumes "d < 10" "n * 10 + d < 2 ^ 64"
  shows "parse_u64_loop [digit_char d] (of_nat n) = Some (of_nat (n * 10 + d))"
proof -
  have n: "unat (of_nat n :: u64) = n" and d: "unat (of_nat d :: u64) = d"
    using assms by (auto simp: unat_of_nat)
  have "unat (u64_max - of_nat d) = 2 ^ 64 - 1 - d" using d by (simp add: unat_max_minus)
  then have "unat ((u64_max - of_nat d) div 10) = (2 ^ 64 - 1 - d) div 10" by (simp add: unat_div)
  then have "\<not> of_nat n > (u64_max - of_nat d :: u64) div 10"
    using assms n by (simp add: word_less_nat_alt)
  then show ?thesis using assms by (simp add: of_char_digit_char Let_def)
qed

lemma parse_u64_loop_decimal:
  "n < 2 ^ 64 \<Longrightarrow> parse_u64_loop (to_string_nat n) 0 = Some (of_nat n)"
proof (induction n rule: decimal_digits.induct)
  case (1 n)
  show ?case
  proof (cases "n < 10")
    case True
    then show ?thesis
      using parse_u64_loop_digit [of n 0] "1.prems"
      by (simp add: to_string_nat_def decimal_digits.simps)
  next
    case False
    have "to_string_nat n = to_string_nat (n div 10) @ [digit_char (n mod 10)]"
      using False by (simp add: to_string_nat_def decimal_digits.simps [of n])
    moreover have "parse_u64_loop (to_string_nat (n div 10)) 0 = Some (of_nat (n div 10))"
      using 1 False by simp
    moreover have "n div 10 * 10 + n mod 10 = n" by simp
    ultimately show ?thesis
      using parse_u64_loop_digit [of "n mod 10" "n div 10"] "1.prems"
      by (simp add: parse_u64_loop_append del: parse_u64_loop.simps)
  qed
qed

lemma length_decimal_digits: "n < 10 ^ Suc k \<Longrightarrow> length (decimal_digits n) \<le> Suc k"
proof (induction k arbitrary: n)
  case 0
  then show ?case by (simp add: decimal_digits.simps)
next
  case (Suc k)
  show ?case
  proof (cases "n < 10")
    case True
    then show ?thesis by (simp add: decimal_digits.simps)
  next
    case False
    with Suc.IH [of "n div 10"] Suc.prems show ?thesis
      by (simp add: decimal_digits.simps [of n] less_mult_imp_div_less)
  qed
qed

lemma decimal_digits_not_Nil: "decimal_digits n \<noteq> []"
  by (subst decimal_digits.simps) simp

lemma parse_u64_to_string: "parse_u64 (to_string_u64 v) = Some v"
proof -
  have "unat v < 10 ^ Suc 19" using unat_u64_lt [of v] by simp
  then have "length (to_string_nat (unat v)) \<le> 20"
    using length_decimal_digits [of "unat v" 19] by (simp add: to_string_nat_def)
  moreover have "to_string_nat (unat v) \<noteq> []"
    by (simp add: to_string_nat_def decimal_digits_not_Nil)
  ultimately show ?thesis
    using parse_u64_loop_decimal [OF unat_u64_lt [of v]]
    by (simp add: parse_u64_def to_string_u64_def)
qed

lemma find_colon_append: "CHR '':'' \<notin> set xs \<Longrightarrow> find_colon (xs @ CHR '':'' # ys) = Some (length xs)"
proof -
  assume "CHR '':'' \<notin> set xs"
  then have "takeWhile (\<lambda>c. c \<noteq> CHR '':'') xs = xs" by (auto simp: takeWhile_eq_all_conv)
  then show ?thesis by (simp add: find_colon_def takeWhile_tail Let_def)
qed

lemma resource_kind_names:
  "k \<in> snd ` set kResourceKinds \<Longrightarrow>
     CHR '':'' \<notin> set (resource_kind_to_string k) \<and> resource_kind_to_string k \<noteq> []"
  by (auto simp: kResourceKinds_def resource_kind_to_string_def table_to_string_def)

lemma parse_ref_to_text:
  assumes "ref_kind r \<in> snd ` set kResourceKinds" "ref_id r \<noteq> 0"
  shows "parse_resource_ref (ref_to_text r) = Inr r"
proof -
  let ?k = "resource_kind_to_string (ref_kind r)"
  have k: "CHR '':'' \<notin> set ?k" "?k \<noteq> []" using resource_kind_names [OF assms(1)] by auto
  have "to_string_u64 (ref_id r) \<noteq> []"
    by (simp add: to_string_u64_def to_string_nat_def decimal_digits_not_Nil)
  moreover have "parse_resource_kind ?k = Some (ref_kind r)"
    unfolding parse_resource_kind_def resource_kind_to_string_def
    by (rule parse_enum_to_string) (use assms(1) in \<open>simp_all add: kResourceKinds_def\<close>)
  ultimately show ?thesis
    using k assms(2) find_colon_append [OF k(1), of "to_string_u64 (ref_id r)"]
    by (simp add: parse_resource_ref_def ref_to_text_def parse_u64_to_string)
qed

end
