(* ===== verification/Rnf_Evidence.thy ===== *)
theory Rnf_Evidence
  imports Rnf_Types
begin

text \<open>
  \<^verbatim>\<open>model/evidence\<close>, the record layer: the seven kinds of claim, the canonical encoding, the decoder,
  structural validation, the content address and the slot a record occupies. The encoding and the
  decoder form a byte codec whose values are exactly the records that pass validation, so the
  encoding is injective on them and no two byte strings decode to the same record.
\<close>

section \<open>Data\<close>

record evidence_limits =
  max_slots :: nat
  max_sources :: nat
  max_records_per_batch :: nat
  max_host_key :: nat
  max_reason :: nat
  max_authority :: nat
  max_encoded_record :: nat

definition default_evidence_limits :: evidence_limits where
  "default_evidence_limits =
     \<lparr>max_slots = 2 ^ 20, max_sources = 4096, max_records_per_batch = 4096, max_host_key = 128,
      max_reason = 256, max_authority = 128, max_encoded_record = 512\<rparr>"

record provenance =
  pv_source :: source_id
  pv_kind :: source_kind
  pv_sequence :: sequence_no
  pv_observed_at_ms :: timestamp_ms

record member_claim =
  mc_rack :: rack_id
  mc_device :: device_id
  mc_incarnation :: member_incarnation

record device_claim =
  dc_device :: device_id
  dc_role :: device_role
  dc_capacity :: capacity
  dc_capacity_known :: bool
  dc_availability :: availability

record port_claim =
  pc_port :: port_id
  pc_device :: device_id
  pc_index :: u16
  pc_role :: port_role
  pc_capacity :: capacity
  pc_capacity_known :: bool
  pc_admin :: admin_state
  pc_availability :: availability

record link_claim =
  lc_link :: link_id
  lc_port_a :: port_id
  lc_port_b :: port_id
  lc_kind :: link_kind
  lc_capacity :: capacity
  lc_capacity_known :: bool
  lc_availability :: availability

record attachment_claim =
  ac_attachment :: attachment_id
  ac_device :: device_id
  ac_port :: port_id
  ac_host_key :: string

record maintenance_claim =
  tc_action :: maintenance_kind
  tc_target_kind :: resource_kind
  tc_target_id :: u64
  tc_reason :: string

record obligation_claim =
  oc_obligation :: obligation_id
  oc_target_kind :: resource_kind
  oc_target_id :: u64
  oc_capacity :: capacity
  oc_holder :: principal_id
  oc_authority :: string

text \<open>
  The payload variant determines the record's \<^verbatim>\<open>kind\<close> field: every producer sets the two together, and
  \<^verbatim>\<open>std::get\<close> on a payload of another kind does not return. \<open>er_kind\<close> reads the field off the payload.
\<close>

datatype evidence_payload =
    PMember member_claim | PDevice device_claim | PPort port_claim | PLink link_claim
  | PAttachment attachment_claim | PMaintenance maintenance_claim | PObligation obligation_claim

fun payload_kind :: "evidence_payload \<Rightarrow> evidence_kind" where
  "payload_kind (PMember _) = EvidenceKind_kMember"
| "payload_kind (PDevice _) = EvidenceKind_kDevice"
| "payload_kind (PPort _) = EvidenceKind_kPort"
| "payload_kind (PLink _) = EvidenceKind_kLink"
| "payload_kind (PAttachment _) = EvidenceKind_kAttachment"
| "payload_kind (PMaintenance _) = EvidenceKind_kMaintenance"
| "payload_kind (PObligation _) = EvidenceKind_kObligation"

record evidence_record =
  er_durability :: durability
  er_generation :: topology_generation
  er_provenance :: provenance
  er_payload :: evidence_payload

definition er_kind :: "evidence_record \<Rightarrow> evidence_kind" where
  "er_kind r = payload_kind (er_payload r)"

datatype evidence_slot =
  EvidenceSlot (sl_kind: evidence_kind) (sl_subject_a: u64) (sl_subject_b: u64) (sl_source: source_id)

instantiation evidence_slot :: linorder
begin

definition less_eq_evidence_slot :: "evidence_slot \<Rightarrow> evidence_slot \<Rightarrow> bool" where
  "less_eq_evidence_slot a b \<longleftrightarrow>
     (sl_kind a, sl_subject_a a, sl_subject_b a, sl_source a) \<le>
     (sl_kind b, sl_subject_a b, sl_subject_b b, sl_source b)"

definition less_evidence_slot :: "evidence_slot \<Rightarrow> evidence_slot \<Rightarrow> bool" where
  "less_evidence_slot a b \<longleftrightarrow>
     (sl_kind a, sl_subject_a a, sl_subject_b a, sl_source a) <
     (sl_kind b, sl_subject_a b, sl_subject_b b, sl_source b)"

instance
  by standard (auto simp: less_eq_evidence_slot_def less_evidence_slot_def evidence_slot.expand)

end

definition slot_to_text :: "evidence_slot \<Rightarrow> string" where
  "slot_to_text s =
     evidence_kind_to_string (sl_kind s) @ '':'' @ to_string_u64 (sl_subject_a s) @ ''/'' @
     to_string_u64 (sl_subject_b s) @ ''@'' @ hex64 (sl_source s)"

definition slot_of :: "evidence_record \<Rightarrow> evidence_slot" where
  "slot_of r =
     (let src = pv_source (er_provenance r) in
      case er_payload r of
        PMember c \<Rightarrow> EvidenceSlot EvidenceKind_kMember (mc_device c) (mc_rack c) src
      | PDevice c \<Rightarrow> EvidenceSlot EvidenceKind_kDevice (dc_device c) 0 src
      | PPort c \<Rightarrow> EvidenceSlot EvidenceKind_kPort (pc_port c) 0 src
      | PLink c \<Rightarrow> EvidenceSlot EvidenceKind_kLink (lc_link c) 0 src
      | PAttachment c \<Rightarrow> EvidenceSlot EvidenceKind_kAttachment (ac_attachment c) 0 src
      | PMaintenance c \<Rightarrow>
          EvidenceSlot EvidenceKind_kMaintenance (ucast (rk_byte (tc_target_kind c))) (tc_target_id c) src
      | PObligation c \<Rightarrow>
          EvidenceSlot EvidenceKind_kObligation (oc_obligation c) (oc_target_id c) src)"

text \<open>The rank that decides between two records of one slot; higher is newer.\<close>

definition rank_of :: "evidence_record \<Rightarrow> u64 \<times> u64" where
  "rank_of r = (er_generation r, pv_sequence (er_provenance r))"

section \<open>Encoding\<close>

definition encode_text :: "byte_writer \<Rightarrow> string \<Rightarrow> nat \<Rightarrow> status \<times> byte_writer" where
  "encode_text w value max_len =
     (if \<not> is_valid_utf8 (string_bytes value)
      then (Status kInvalidUnicode ''text field is not well-formed UTF-8'', w)
      else if length value > max_len
      then (Status kOversizeField ''text field exceeds its configured bound'', w)
      else (ok_status, bw_text value max_len w))"

definition header_calls :: "evidence_record \<Rightarrow> writer_call list" where
  "header_calls r =
     [W_u8 (ek_byte (er_kind r)), W_u8 (du_byte (er_durability r)), W_u64 (er_generation r),
      W_u64 (pv_source (er_provenance r)), W_u8 (sk_byte (pv_kind (er_provenance r))),
      W_u64 (pv_sequence (er_provenance r)), W_u64 (pv_observed_at_ms (er_provenance r))]"

fun payload_calls :: "evidence_payload \<Rightarrow> writer_call list" where
  "payload_calls (PMember c) = [W_u64 (mc_rack c), W_u64 (mc_device c), W_u64 (mc_incarnation c)]"
| "payload_calls (PDevice c) =
     [W_u64 (dc_device c), W_u8 (dr_byte (dc_role c)), W_u64 (dc_capacity c),
      W_boolean (dc_capacity_known c), W_u8 (av_byte (dc_availability c))]"
| "payload_calls (PPort c) =
     [W_u64 (pc_port c), W_u64 (pc_device c), W_u16 (pc_index c), W_u8 (pr_byte (pc_role c)),
      W_u64 (pc_capacity c), W_boolean (pc_capacity_known c), W_u8 (as_byte (pc_admin c)),
      W_u8 (av_byte (pc_availability c))]"
| "payload_calls (PLink c) =
     [W_u64 (lc_link c), W_u64 (lc_port_a c), W_u64 (lc_port_b c), W_u8 (lk_byte (lc_kind c)),
      W_u64 (lc_capacity c), W_boolean (lc_capacity_known c), W_u8 (av_byte (lc_availability c))]"
| "payload_calls (PAttachment c) =
     [W_u64 (ac_attachment c), W_u64 (ac_device c), W_u64 (ac_port c)]"
| "payload_calls (PMaintenance c) =
     [W_u8 (mk_byte (tc_action c)), W_u8 (rk_byte (tc_target_kind c)), W_u64 (tc_target_id c)]"
| "payload_calls (PObligation c) =
     [W_u64 (oc_obligation c), W_u8 (rk_byte (oc_target_kind c)), W_u64 (oc_target_id c),
      W_u64 (oc_capacity c), W_u64 (oc_holder c)]"

text \<open>The text field that ends a claim, with its bound.\<close>

fun payload_text :: "evidence_payload \<Rightarrow> (string \<times> nat) option" where
  "payload_text (PAttachment c) = Some (ac_host_key c, max_host_key default_evidence_limits)"
| "payload_text (PMaintenance c) = Some (tc_reason c, max_reason default_evidence_limits)"
| "payload_text (PObligation c) = Some (oc_authority c, max_authority default_evidence_limits)"
| "payload_text _ = None"

definition encode_evidence :: "evidence_record \<Rightarrow> byte_writer \<Rightarrow> status \<times> byte_writer" where
  "encode_evidence r w =
     (let w = write_all (header_calls r) w;
          w = write_all (payload_calls (er_payload r)) w;
          (st, w) = (case payload_text (er_payload r) of
                       None \<Rightarrow> (ok_status, w)
                     | Some (s, m) \<Rightarrow> encode_text w s m)
      in if \<not> status_ok st then (st, w)
         else if \<not> bw_ok w
         then (Status kOversizeField ''evidence record exceeds its encoding bound'', w)
         else (ok_status, w))"

section \<open>Validation\<close>

definition validate_text :: "string \<Rightarrow> nat \<Rightarrow> string \<Rightarrow> string \<Rightarrow> status" where
  "validate_text s m oversize unicode =
     (if length s > m then Status kOversizeField oversize
      else if \<not> is_valid_utf8 (string_bytes s) then Status kInvalidUnicode unicode
      else ok_status)"

fun validate_payload :: "evidence_payload \<Rightarrow> status" where
  "validate_payload (PMember c) =
     (if \<not> id_is_set (mc_rack c) \<or> \<not> id_is_set (mc_device c)
      then Status kInvalidIdentity ''member claim needs rack and device'' else ok_status)"
| "validate_payload (PDevice c) =
     (if \<not> id_is_set (dc_device c)
      then Status kInvalidIdentity ''device claim needs a device id'' else ok_status)"
| "validate_payload (PPort c) =
     (if \<not> id_is_set (pc_port c) \<or> \<not> id_is_set (pc_device c)
      then Status kInvalidIdentity ''port claim needs port and device''
      else if (ucast (pc_index c) :: u32) > 65535
      then Status kOutOfRange ''port index is out of range'' else ok_status)"
| "validate_payload (PLink c) =
     (if \<not> id_is_set (lc_link c) \<or> \<not> id_is_set (lc_port_a c) \<or> \<not> id_is_set (lc_port_b c)
      then Status kInvalidIdentity ''link claim needs link and two ports''
      else if lc_port_a c = lc_port_b c
      then Status kInvalidArgument ''link endpoints must be distinct ports'' else ok_status)"
| "validate_payload (PAttachment c) =
     (if \<not> id_is_set (ac_attachment c) \<or> \<not> id_is_set (ac_device c) \<or> \<not> id_is_set (ac_port c)
      then Status kInvalidIdentity ''attachment claim needs attachment, device and port''
      else validate_text (ac_host_key c) (max_host_key default_evidence_limits)
        ''host key exceeds its bound'' ''host key is not well-formed UTF-8'')"
| "validate_payload (PMaintenance c) =
     (if tc_target_kind c = ResourceKind_kRack \<and> tc_target_id c \<noteq> 0
      then Status kInvalidScope ''rack-wide maintenance must not carry a resource id''
      else if tc_target_kind c \<noteq> ResourceKind_kRack \<and> tc_target_id c = 0
      then Status kInvalidScope ''maintenance target must name a rack or a resource''
      else validate_text (tc_reason c) (max_reason default_evidence_limits)
        ''maintenance reason exceeds its bound'' ''maintenance reason is not well-formed UTF-8'')"
| "validate_payload (PObligation c) =
     (if \<not> id_is_set (oc_obligation c) then Status kInvalidIdentity ''obligation claim needs an id''
      else if \<not> id_is_set (oc_holder c) then Status kInvalidIdentity ''obligation claim needs a holder''
      else if oc_target_id c = 0 \<and> oc_target_kind c \<noteq> ResourceKind_kRack
      then Status kInvalidScope ''obligation target must name a resource''
      else validate_text (oc_authority c) (max_authority default_evidence_limits)
        ''obligation authority exceeds its bound'' ''obligation authority is not well-formed UTF-8'')"

definition validate_evidence :: "evidence_record \<Rightarrow> status" where
  "validate_evidence r =
     rnf_tryv (validate_payload (er_payload r))
       (if \<not> (er_durability r = Durability_kEphemeral \<or> er_durability r = Durability_kSticky)
        then Status kOutOfRange ''unknown durability''
        else
          (let k = pv_kind (er_provenance r) in
           if \<not> (k = SourceKind_kOperator \<or> k = SourceKind_kDiscovery \<or> k = SourceKind_kImported
                  \<or> k = SourceKind_kSynthetic)
           then Status kOutOfRange ''unknown source kind''
           else if \<not> id_is_set (pv_source (er_provenance r))
           then Status kInvalidIdentity ''evidence needs a source identity''
           else
             rnf_tryv (fst (encode_evidence r (bw_new (max_encoded_record default_evidence_limits))))
               ok_status))"

definition evidence_valid :: "evidence_record \<Rightarrow> bool" where
  "evidence_valid r \<longleftrightarrow> status_ok (validate_evidence r)"

section \<open>Decoding\<close>

definition dec_header :: "u8 list \<Rightarrow> ((u8 \<times> u8 \<times> u64 \<times> u64 \<times> u8 \<times> u64 \<times> u64) \<times> u8 list) option" where
  "dec_header bs = do {
     (kind, bs) \<leftarrow> r_u8 bs; (durability, bs) \<leftarrow> r_u8 bs; (generation, bs) \<leftarrow> r_u64 bs;
     (source, bs) \<leftarrow> r_u64 bs; (source_kind, bs) \<leftarrow> r_u8 bs; (seq, bs) \<leftarrow> r_u64 bs;
     (observed, bs) \<leftarrow> r_u64 bs;
     Some ((kind, durability, generation, source, source_kind, seq, observed), bs) }"

definition dec_member :: "u8 list \<Rightarrow> (member_claim \<times> u8 list) option" where
  "dec_member bs = do {
     (rack, bs) \<leftarrow> r_u64 bs; (device, bs) \<leftarrow> r_u64 bs; (inc, bs) \<leftarrow> r_u64 bs;
     Some (\<lparr>mc_rack = rack, mc_device = device, mc_incarnation = inc\<rparr>, bs) }"

definition dec_device :: "u8 list \<Rightarrow> (device_claim \<times> u8 list) option" where
  "dec_device bs = do {
     (device, bs) \<leftarrow> r_u64 bs; (role, bs) \<leftarrow> r_u8 bs; (cap, bs) \<leftarrow> r_u64 bs;
     (known, bs) \<leftarrow> r_boolean bs; (av, bs) \<leftarrow> r_u8 bs;
     Some (\<lparr>dc_device = device, dc_role = DeviceRole role, dc_capacity = cap, dc_capacity_known = known,
            dc_availability = Availability av\<rparr>, bs) }"

definition dec_port :: "u8 list \<Rightarrow> (port_claim \<times> u8 list) option" where
  "dec_port bs = do {
     (port, bs) \<leftarrow> r_u64 bs; (device, bs) \<leftarrow> r_u64 bs; (index, bs) \<leftarrow> r_u16 bs;
     (role, bs) \<leftarrow> r_u8 bs; (cap, bs) \<leftarrow> r_u64 bs; (known, bs) \<leftarrow> r_boolean bs;
     (admin, bs) \<leftarrow> r_u8 bs; (av, bs) \<leftarrow> r_u8 bs;
     Some (\<lparr>pc_port = port, pc_device = device, pc_index = index, pc_role = PortRole role,
            pc_capacity = cap, pc_capacity_known = known, pc_admin = AdminState admin,
            pc_availability = Availability av\<rparr>, bs) }"

definition dec_link :: "u8 list \<Rightarrow> (link_claim \<times> u8 list) option" where
  "dec_link bs = do {
     (link, bs) \<leftarrow> r_u64 bs; (pa, bs) \<leftarrow> r_u64 bs; (pb, bs) \<leftarrow> r_u64 bs;
     (kind, bs) \<leftarrow> r_u8 bs; (cap, bs) \<leftarrow> r_u64 bs; (known, bs) \<leftarrow> r_boolean bs;
     (av, bs) \<leftarrow> r_u8 bs;
     Some (\<lparr>lc_link = link, lc_port_a = pa, lc_port_b = pb, lc_kind = LinkKind kind, lc_capacity = cap,
            lc_capacity_known = known, lc_availability = Availability av\<rparr>, bs) }"

definition dec_attachment_ids :: "u8 list \<Rightarrow> ((u64 \<times> u64 \<times> u64) \<times> u8 list) option" where
  "dec_attachment_ids bs = do {
     (attachment, bs) \<leftarrow> r_u64 bs; (device, bs) \<leftarrow> r_u64 bs; (port, bs) \<leftarrow> r_u64 bs;
     Some ((attachment, device, port), bs) }"

definition dec_maintenance_ids :: "u8 list \<Rightarrow> ((u8 \<times> u8 \<times> u64) \<times> u8 list) option" where
  "dec_maintenance_ids bs = do {
     (action, bs) \<leftarrow> r_u8 bs; (kind, bs) \<leftarrow> r_u8 bs; (target, bs) \<leftarrow> r_u64 bs;
     Some ((action, kind, target), bs) }"

definition dec_obligation_ids :: "u8 list \<Rightarrow> ((u64 \<times> u8 \<times> u64 \<times> u64 \<times> u64) \<times> u8 list) option" where
  "dec_obligation_ids bs = do {
     (obligation, bs) \<leftarrow> r_u64 bs; (kind, bs) \<leftarrow> r_u8 bs; (target, bs) \<leftarrow> r_u64 bs;
     (cap, bs) \<leftarrow> r_u64 bs; (holder, bs) \<leftarrow> r_u64 bs;
     Some ((obligation, kind, target, cap, holder), bs) }"

definition decode_payload :: "u8 \<Rightarrow> u8 list \<Rightarrow> (evidence_payload \<times> u8 list) result" where
  "decode_payload kind bs =
     (if kind = 1 then
        or_fail (dec_member bs) kTruncated ''member claim is truncated'' (\<lambda>(c, bs). Inr (PMember c, bs))
      else if kind = 2 then
        or_fail (dec_device bs) kTruncated ''device claim is truncated'' (\<lambda>(c, bs). Inr (PDevice c, bs))
      else if kind = 3 then
        or_fail (dec_port bs) kTruncated ''port claim is truncated'' (\<lambda>(c, bs). Inr (PPort c, bs))
      else if kind = 4 then
        or_fail (dec_link bs) kTruncated ''link claim is truncated'' (\<lambda>(c, bs). Inr (PLink c, bs))
      else if kind = 5 then
        or_fail (dec_attachment_ids bs) kTruncated ''attachment claim is truncated''
          (\<lambda>((attachment, device, port), bs).
             or_fail (r_text (max_host_key default_evidence_limits) bs) kMalformedEncoding
               ''attachment host key is truncated or not UTF-8''
               (\<lambda>(host_key, bs). Inr (PAttachment \<lparr>ac_attachment = attachment, ac_device = device,
                  ac_port = port, ac_host_key = host_key\<rparr>, bs)))
      else if kind = 6 then
        or_fail (dec_maintenance_ids bs) kTruncated ''maintenance claim is truncated''
          (\<lambda>((action, target_kind, target_id), bs).
             or_fail (r_text (max_reason default_evidence_limits) bs) kMalformedEncoding
               ''maintenance reason is truncated or not UTF-8''
               (\<lambda>(reason, bs). Inr (PMaintenance \<lparr>tc_action = MaintenanceKind action,
                  tc_target_kind = ResourceKind target_kind, tc_target_id = target_id,
                  tc_reason = reason\<rparr>, bs)))
      else if kind = 7 then
        or_fail (dec_obligation_ids bs) kTruncated ''obligation claim is truncated''
          (\<lambda>((obligation, target_kind, target_id, cap, holder), bs).
             or_fail (r_text (max_authority default_evidence_limits) bs) kMalformedEncoding
               ''obligation authority is truncated or not UTF-8''
               (\<lambda>(auth, bs). Inr (PObligation \<lparr>oc_obligation = obligation,
                  oc_target_kind = ResourceKind target_kind, oc_target_id = target_id,
                  oc_capacity = cap, oc_holder = holder, oc_authority = auth\<rparr>, bs)))
      else fail kMalformedEncoding ''unknown evidence kind'')"

definition decode_evidence :: "u8 list \<Rightarrow> (evidence_record \<times> u8 list) result" where
  "decode_evidence bs =
     or_fail (dec_header bs) kTruncated ''evidence record header is truncated''
       (\<lambda>((kind, durability, generation, source, source_kind, seq, observed), bs).
          rnf_try (decode_payload kind bs)
            (\<lambda>(payload, bs).
               let r = \<lparr>er_durability = Durability durability, er_generation = generation,
                        er_provenance = \<lparr>pv_source = source, pv_kind = SourceKind source_kind,
                          pv_sequence = seq, pv_observed_at_ms = observed\<rparr>,
                        er_payload = payload\<rparr>
               in if \<not> status_ok (validate_evidence r) then Inl (validate_evidence r)
                  else Inr (r, bs)))"

section \<open>Content address and rendering\<close>

definition evidence_digest :: "evidence_record \<Rightarrow> digest" where
  "evidence_digest r =
     (let (st, w) = encode_evidence r (bw_new (max_encoded_record default_evidence_limits)) in
      if \<not> status_ok st then
        final (update_le64 (ucast (code_value (st_code st))) (update (string_bytes ''rnf.unencodable'') (reset [])))
      else blake2s_hash (bw_buffer w))"

definition describe_capacity :: "capacity \<Rightarrow> bool \<Rightarrow> string" where
  "describe_capacity units known = (if known then to_string_u64 units else ''unknown'')"

fun describe_payload :: "evidence_payload \<Rightarrow> string" where
  "describe_payload (PMember c) =
     ''rack='' @ hex64 (mc_rack c) @ '' device='' @ hex64 (mc_device c) @
     '' incarnation='' @ to_string_u64 (mc_incarnation c)"
| "describe_payload (PDevice c) =
     ''device='' @ hex64 (dc_device c) @ '' role='' @ device_role_to_string (dc_role c) @
     '' capacity='' @ describe_capacity (dc_capacity c) (dc_capacity_known c) @
     '' availability='' @ availability_to_string (dc_availability c)"
| "describe_payload (PPort c) =
     ''port='' @ hex64 (pc_port c) @ '' device='' @ hex64 (pc_device c) @
     '' index='' @ to_string_nat (unat (pc_index c)) @
     '' capacity='' @ describe_capacity (pc_capacity c) (pc_capacity_known c) @
     '' admin='' @ admin_state_to_string (pc_admin c) @
     '' availability='' @ availability_to_string (pc_availability c)"
| "describe_payload (PLink c) =
     ''link='' @ hex64 (lc_link c) @ '' a='' @ hex64 (lc_port_a c) @ '' b='' @ hex64 (lc_port_b c) @
     '' kind='' @ link_kind_to_string (lc_kind c) @
     '' capacity='' @ describe_capacity (lc_capacity c) (lc_capacity_known c) @
     '' availability='' @ availability_to_string (lc_availability c)"
| "describe_payload (PAttachment c) =
     ''attachment='' @ hex64 (ac_attachment c) @ '' device='' @ hex64 (ac_device c) @
     '' port='' @ hex64 (ac_port c) @ '' host='' @ ac_host_key c"
| "describe_payload (PMaintenance c) =
     ''action='' @ maintenance_kind_to_string (tc_action c) @
     '' target='' @ ref_to_text (ResourceRef (tc_target_kind c) (tc_target_id c)) @
     '' reason='' @ tc_reason c"
| "describe_payload (PObligation c) =
     ''obligation='' @ hex64 (oc_obligation c) @
     '' target='' @ ref_to_text (ResourceRef (oc_target_kind c) (oc_target_id c)) @
     '' capacity='' @ to_string_u64 (oc_capacity c) @ '' holder='' @ hex64 (oc_holder c) @
     '' authority='' @ oc_authority c"

definition describe_evidence :: "evidence_record \<Rightarrow> string" where
  "describe_evidence r =
     evidence_kind_to_string (er_kind r) @ '' gen='' @ to_string_u64 (er_generation r) @
     '' src='' @ hex64 (pv_source (er_provenance r)) @
     '' seq='' @ to_string_u64 (pv_sequence (er_provenance r)) @ '' '' @
     describe_payload (er_payload r)"

section \<open>The encoding is canonical\<close>

definition text_calls :: "evidence_payload \<Rightarrow> writer_call list" where
  "text_calls p = (case payload_text p of None \<Rightarrow> [] | Some (s, m) \<Rightarrow> [W_text s m])"

definition evidence_calls :: "evidence_record \<Rightarrow> writer_call list" where
  "evidence_calls r = header_calls r @ payload_calls (er_payload r) @ text_calls (er_payload r)"

definition evidence_bytes :: "evidence_record \<Rightarrow> u8 list" where
  "evidence_bytes r = calls_bytes (evidence_calls r)"

definition payload_text_ok :: "evidence_payload \<Rightarrow> bool" where
  "payload_text_ok p = (case payload_text p of None \<Rightarrow> True | Some (s, m) \<Rightarrow> text_ok m s)"

lemma limits_simps [simp]:
  "max_host_key default_evidence_limits = 128" "max_reason default_evidence_limits = 256"
  "max_authority default_evidence_limits = 128" "max_encoded_record default_evidence_limits = 512"
  by (simp_all add: default_evidence_limits_def)

lemma write_all_append [simp]: "write_all bs (write_all as w) = write_all (as @ bs) w"
  by (simp add: write_all_def)

lemma evidence_calls_ok: "calls_ok (evidence_calls r) \<longleftrightarrow> payload_text_ok (er_payload r)"
  by (cases "er_payload r")
    (auto simp: evidence_calls_def header_calls_def text_calls_def payload_text_ok_def)

lemma length_evidence_bytes:
  "payload_text_ok (er_payload r) \<Longrightarrow> length (evidence_bytes r) \<le> 512"
  by (cases "er_payload r")
    (auto simp: evidence_bytes_def evidence_calls_def header_calls_def text_calls_def payload_text_ok_def)

lemma encode_evidence_ok:
  assumes "payload_text_ok (er_payload r)"
  shows "encode_evidence r w =
     (let w' = write_all (evidence_calls r) w in
      if bw_ok w' then (ok_status, w')
      else (Status kOversizeField ''evidence record exceeds its encoding bound'', w'))"
proof (cases "payload_text (er_payload r)")
  case None
  then show ?thesis
    by (simp add: encode_evidence_def evidence_calls_def text_calls_def Let_def)
next
  case (Some p)
  obtain s m where p: "p = (s, m)" by (cases p)
  with Some assms have "text_ok m s" by (simp add: payload_text_ok_def)
  then have "encode_text w s m = (ok_status, write_all [W_text s m] w)" for w
    by (simp add: encode_text_def write_all_def)
  with Some p show ?thesis
    by (simp add: encode_evidence_def evidence_calls_def text_calls_def Let_def)
qed

lemma encode_evidence_bad_text:
  "\<not> payload_text_ok (er_payload r) \<Longrightarrow> \<not> status_ok (fst (encode_evidence r w))"
  by (auto simp: encode_evidence_def payload_text_ok_def encode_text_def Let_def
      split: option.splits if_splits)

text \<open>What encoding into a fresh writer of a given limit does, on every branch.\<close>

lemma encode_evidence_iff:
  "status_ok (fst (encode_evidence r (bw_new L))) \<longleftrightarrow>
     payload_text_ok (er_payload r) \<and> length (evidence_bytes r) \<le> L"
  "status_ok (fst (encode_evidence r (bw_new L))) \<Longrightarrow>
     bw_buffer (snd (encode_evidence r (bw_new L))) = evidence_bytes r"
proof -
  have wf: "bw_wf (bw_new L)" by (simp add: bw_wf_def bw_new_def)
  have ok: "bw_ok (write_all (evidence_calls r) (bw_new L)) \<longleftrightarrow>
      calls_ok (evidence_calls r) \<and> length (evidence_bytes r) \<le> L"
    using write_all_spec(1) [OF wf, of "evidence_calls r"]
    by (auto simp: evidence_bytes_def bw_new_def)
  show iff: "status_ok (fst (encode_evidence r (bw_new L))) \<longleftrightarrow>
     payload_text_ok (er_payload r) \<and> length (evidence_bytes r) \<le> L"
    using encode_evidence_bad_text [of r "bw_new L"] encode_evidence_ok [of r "bw_new L"] ok
    by (cases "payload_text_ok (er_payload r)") (auto simp: Let_def evidence_calls_ok)
  assume *: "status_ok (fst (encode_evidence r (bw_new L)))"
  then have "payload_text_ok (er_payload r)" "bw_ok (write_all (evidence_calls r) (bw_new L))"
    using iff ok evidence_calls_ok by auto
  then show "bw_buffer (snd (encode_evidence r (bw_new L))) = evidence_bytes r"
    using write_all_spec(2) [OF wf, of "evidence_calls r"] encode_evidence_ok [of r "bw_new L"]
    by (simp add: Let_def evidence_bytes_def bw_new_def)
qed

lemma validate_payload_text: "status_ok (validate_payload p) \<Longrightarrow> payload_text_ok p"
  by (cases p) (auto simp: payload_text_ok_def validate_text_def split: if_splits)

lemma evidence_valid_iff:
  "evidence_valid r \<longleftrightarrow>
     status_ok (validate_payload (er_payload r)) \<and>
     er_durability r \<in> {Durability_kEphemeral, Durability_kSticky} \<and>
     pv_kind (er_provenance r) \<in> {SourceKind_kOperator, SourceKind_kDiscovery, SourceKind_kImported,
       SourceKind_kSynthetic} \<and>
     pv_source (er_provenance r) \<noteq> 0"
  using encode_evidence_iff(1) [of r 512] length_evidence_bytes [of r] validate_payload_text [of "er_payload r"]
  by (auto simp: evidence_valid_def validate_evidence_def status_ok_rnf_tryv id_is_set_def Let_def)

lemma evidence_valid_text_ok: "evidence_valid r \<Longrightarrow> payload_text_ok (er_payload r)"
  by (simp add: evidence_valid_iff validate_payload_text)

lemma evidence_digest_valid: "evidence_valid r \<Longrightarrow> evidence_digest r = blake2s_hash (evidence_bytes r)"
  using encode_evidence_iff [of r 512] length_evidence_bytes [of r] evidence_valid_text_ok [of r]
  by (simp add: evidence_digest_def case_prod_beta Let_def)

lemma length_evidence_digest [simp]: "length (evidence_digest r) = 32"
  by (simp add: evidence_digest_def case_prod_beta Let_def)

definition dec_evidence :: "u8 list \<Rightarrow> (evidence_record \<times> u8 list) option" where
  "dec_evidence bs = (case decode_evidence bs of Inl _ \<Rightarrow> None | Inr x \<Rightarrow> Some x)"

lemmas r_text_dec_enc [codec_simps] = codec.dec_enc [OF text_codec]
lemmas r_text_sound = codec.dec_sound [OF text_codec]

lemma decode_payload_bytes:
  assumes "payload_text_ok p"
  shows "decode_payload (ek_byte (payload_kind p)) (calls_bytes (payload_calls p @ text_calls p) @ t) = Inr (p, t)"
  using assms
  by (cases p)
    (simp_all add: decode_payload_def dec_member_def dec_device_def dec_port_def dec_link_def
      dec_attachment_ids_def dec_maintenance_ids_def dec_obligation_ids_def codec_simps
      text_calls_def payload_text_ok_def call_bytes_text del: call_bytes.simps(8))

lemma evidence_record_eta:
  "\<lparr>er_durability = er_durability r, er_generation = er_generation r,
    er_provenance = \<lparr>pv_source = pv_source (er_provenance r), pv_kind = pv_kind (er_provenance r),
      pv_sequence = pv_sequence (er_provenance r),
      pv_observed_at_ms = pv_observed_at_ms (er_provenance r)\<rparr>,
    er_payload = er_payload r\<rparr> = r"
  by simp

lemma decode_evidence_bytes:
  assumes "evidence_valid r"
  shows "decode_evidence (evidence_bytes r @ t) = Inr (r, t)"
proof -
  have h: "dec_header (calls_bytes (header_calls r) @ u) =
      Some ((ek_byte (er_kind r), du_byte (er_durability r), er_generation r, pv_source (er_provenance r),
        sk_byte (pv_kind (er_provenance r)), pv_sequence (er_provenance r),
        pv_observed_at_ms (er_provenance r)), u)" for u
    by (simp add: dec_header_def header_calls_def codec_simps)
  have "decode_payload (ek_byte (er_kind r))
      (calls_bytes (payload_calls (er_payload r) @ text_calls (er_payload r)) @ t) = Inr (er_payload r, t)"
    using decode_payload_bytes [OF evidence_valid_text_ok [OF assms]] by (simp add: er_kind_def)
  with assms show ?thesis
    using h [of "calls_bytes (payload_calls (er_payload r) @ text_calls (er_payload r)) @ t"]
    by (simp add: decode_evidence_def evidence_bytes_def evidence_calls_def evidence_valid_def
        evidence_record_eta Let_def)
qed

lemma dec_claims_sound:
  "dec_member bs = Some (mc, t) \<Longrightarrow> bs = calls_bytes (payload_calls (PMember mc)) @ t"
  "dec_device bs = Some (dc, t) \<Longrightarrow> bs = calls_bytes (payload_calls (PDevice dc)) @ t"
  "dec_port bs = Some (pc, t) \<Longrightarrow> bs = calls_bytes (payload_calls (PPort pc)) @ t"
  "dec_link bs = Some (lc, t) \<Longrightarrow> bs = calls_bytes (payload_calls (PLink lc)) @ t"
  by (auto simp: dec_member_def dec_device_def dec_port_def dec_link_def Option.bind_eq_Some_conv
      dest!: dec_sound_basic)

lemma dec_ids_sound:
  "dec_attachment_ids bs = Some ((a, d, p), t) \<Longrightarrow>
     bs = calls_bytes [W_u64 a, W_u64 d, W_u64 p] @ t"
  "dec_maintenance_ids bs = Some ((x, k, i), t) \<Longrightarrow>
     bs = calls_bytes [W_u8 x, W_u8 k, W_u64 i] @ t"
  "dec_obligation_ids bs = Some ((ob, k, i, c, h), t) \<Longrightarrow>
     bs = calls_bytes [W_u64 ob, W_u8 k, W_u64 i, W_u64 c, W_u64 h] @ t"
  by (auto simp: dec_attachment_ids_def dec_maintenance_ids_def dec_obligation_ids_def
      Option.bind_eq_Some_conv dest!: dec_sound_basic)

lemma dec_header_sound:
  "dec_header bs = Some ((k, d, g, s, sk, q, ts), t) \<Longrightarrow>
     bs = calls_bytes [W_u8 k, W_u8 d, W_u64 g, W_u64 s, W_u8 sk, W_u64 q, W_u64 ts] @ t"
  by (auto simp: dec_header_def Option.bind_eq_Some_conv dest!: dec_sound_basic)

lemma decode_payload_sound:
  assumes "decode_payload k bs = Inr (p, t)"
  shows "k = ek_byte (payload_kind p) \<and> bs = calls_bytes (payload_calls p @ text_calls p) @ t"
  using assms
  by (auto simp: decode_payload_def or_fail_Inr_iff text_calls_def call_bytes_text
      simp del: call_bytes.simps(8) dest!: dec_claims_sound dec_ids_sound r_text_sound [rotated]
      split: if_splits)

lemma decode_evidence_sound:
  assumes "decode_evidence bs = Inr (r, t)"
  shows "evidence_valid r \<and> bs = evidence_bytes r @ t"
proof -
  obtain k d g s sk q ts u p where
    h: "dec_header bs = Some ((k, d, g, s, sk, q, ts), u)" and
    p: "decode_payload k u = Inr (p, t)" and
    r: "r = \<lparr>er_durability = Durability d, er_generation = g,
         er_provenance = \<lparr>pv_source = s, pv_kind = SourceKind sk, pv_sequence = q,
           pv_observed_at_ms = ts\<rparr>, er_payload = p\<rparr>" and
    v: "status_ok (validate_evidence r)"
    using assms
    by (auto simp: decode_evidence_def or_fail_Inr_iff rnf_try_Inr_iff Let_def split: if_splits)
  from decode_payload_sound [OF p] dec_header_sound [OF h] v show ?thesis
    by (simp add: r evidence_bytes_def evidence_calls_def header_calls_def er_kind_def evidence_valid_def)
qed

interpretation evidencec: codec evidence_bytes dec_evidence evidence_valid
proof
  fix r t
  assume "evidence_valid r"
  then show "dec_evidence (evidence_bytes r @ t) = Some (r, t)"
    by (simp add: dec_evidence_def decode_evidence_bytes)
next
  fix bs r t
  assume "dec_evidence bs = Some (r, t)"
  then show "evidence_valid r \<and> bs = evidence_bytes r @ t"
    by (auto simp: dec_evidence_def dest: decode_evidence_sound split: sum.splits)
qed

text \<open>
  A content address determines the valid record it was computed from, unless two different
  encodings with the same hash have been found.
\<close>

lemma evidence_digest_inj:
  assumes "evidence_valid r" "evidence_valid s" "evidence_digest r = evidence_digest s"
  shows "r = s \<or> (evidence_bytes r \<noteq> evidence_bytes s \<and>
           blake2s_hash (evidence_bytes r) = blake2s_hash (evidence_bytes s))"
  using assms evidencec.enc_inj [of r s] by (auto simp: evidence_digest_valid)

end
