(* ===== verification/Rnf_Map.thy ===== *)
theory Rnf_Map
  imports Rnf_Prelude
begin

text \<open>
  \<^verbatim>\<open>std::map\<close> and \<^verbatim>\<open>std::set\<close>. The program iterates its maps in key order and hashes what it meets,
  so the model keeps the order: a map is an association list with strictly ascending keys, a set an
  ascending list. \<open>ordered_dict\<close> is the interface the evidence ledger, the composer and the grant
  registry use; its lemmas (the commutation laws, extensionality) are proved from the laws alone.
\<close>

section \<open>The dictionary interface\<close>

locale ordered_dict =
  fixes get :: "'m \<Rightarrow> 'k \<Rightarrow> 'v option"
    and put :: "'k \<Rightarrow> 'v \<Rightarrow> 'm \<Rightarrow> 'm"
    and erase :: "'k \<Rightarrow> 'm \<Rightarrow> 'm"
    and none :: 'm
    and ok :: "'m \<Rightarrow> bool"
  assumes ok_none: "ok none"
    and ok_put: "ok m \<Longrightarrow> ok (put k v m)"
    and ok_erase: "ok m \<Longrightarrow> ok (erase k m)"
    and get_none: "get none = Map.empty"
    and get_put: "ok m \<Longrightarrow> get (put k v m) = (get m)(k \<mapsto> v)"
    and get_erase: "ok m \<Longrightarrow> get (erase k m) = (get m)(k := None)"
    and ext: "ok m \<Longrightarrow> ok n \<Longrightarrow> get m = get n \<Longrightarrow> m = n"
begin

lemma put_commute:
  assumes "ok m" "k \<noteq> l"
  shows "put k v (put l w m) = put l w (put k v m)"
  using assms by (intro ext) (auto simp: ok_put get_put fun_upd_twist)

lemma put_overwrite: "ok m \<Longrightarrow> put k v (put k w m) = put k v m"
  by (rule ext) (auto simp: ok_put get_put)

lemma put_same: "ok m \<Longrightarrow> get m k = Some v \<Longrightarrow> put k v m = m"
  by (rule ext) (auto simp: ok_put get_put)

lemma erase_put: "ok m \<Longrightarrow> get m k = None \<Longrightarrow> erase k (put k v m) = m"
  by (rule ext) (auto simp: ok_put ok_erase get_put get_erase)

lemma erase_absent: "ok m \<Longrightarrow> get m k = None \<Longrightarrow> erase k m = m"
  by (rule ext) (auto simp: ok_erase get_erase)

lemma put_erase: "ok m \<Longrightarrow> put k v (erase k m) = put k v m"
  by (rule ext) (auto simp: ok_put ok_erase get_put get_erase)

end

section \<open>Sorted association lists\<close>

type_synonym ('k, 'v) omap = "('k \<times> 'v) list"

definition omap_ok :: "('k::linorder, 'v) omap \<Rightarrow> bool" where
  "omap_ok m \<longleftrightarrow> strict_sorted (map fst m)"

abbreviation omap_get :: "('k, 'v) omap \<Rightarrow> 'k \<Rightarrow> 'v option" where
  "omap_get \<equiv> map_of"

fun omap_put :: "'k::linorder \<Rightarrow> 'v \<Rightarrow> ('k, 'v) omap \<Rightarrow> ('k, 'v) omap" where
  "omap_put k v [] = [(k, v)]"
| "omap_put k v (e # m) =
     (if fst e < k then e # omap_put k v m
      else if fst e = k then (k, v) # m
      else (k, v) # e # m)"

definition omap_erase :: "'k \<Rightarrow> ('k, 'v) omap \<Rightarrow> ('k, 'v) omap" where
  "omap_erase k m = filter (\<lambda>e. fst e \<noteq> k) m"

lemma omap_ok_Nil [simp]: "omap_ok []"
  by (simp add: omap_ok_def)

lemma omap_ok_Cons: "omap_ok (e # m) \<longleftrightarrow> (\<forall>k\<in>fst ` set m. fst e < k) \<and> omap_ok m"
  by (auto simp: omap_ok_def)

lemma keys_omap_put: "fst ` set (omap_put k v m) = insert k (fst ` set m)"
  by (induction m) auto

lemma omap_ok_put: "omap_ok m \<Longrightarrow> omap_ok (omap_put k v m)"
  by (induction m) (auto simp: omap_ok_Cons keys_omap_put)

lemma omap_ok_erase: "omap_ok m \<Longrightarrow> omap_ok (omap_erase k m)"
  by (induction m) (auto simp: omap_ok_Cons omap_erase_def)

lemma omap_get_put: "omap_get (omap_put k v m) = (omap_get m)(k \<mapsto> v)"
proof (induction m)
  case Nil
  show ?case by simp
next
  case (Cons e m)
  then show ?case by (cases e) (auto simp: fun_eq_iff)
qed

lemma omap_get_erase: "omap_get (omap_erase k m) = (omap_get m)(k := None)"
  by (induction m) (auto simp: omap_erase_def fun_eq_iff)

lemma omap_ext:
  assumes "omap_ok m" "omap_ok n" "omap_get m = omap_get n"
  shows "m = n"
proof -
  have dm: "distinct (map fst m)" and dn: "distinct (map fst n)"
    using assms(1,2) by (auto simp: omap_ok_def strict_sorted_iff)
  have "set m = set n"
    using assms(3) map_of_eq_Some_iff [OF dm] map_of_eq_Some_iff [OF dn] by (auto simp: set_eq_iff)
  then have "map fst m = map fst n"
    using assms(1,2) by (intro strict_sorted_unique) (auto simp: omap_ok_def)
  moreover have "map snd m = map snd n"
  proof -
    have "map snd m = map (\<lambda>k. the (map_of m k)) (map fst m)"
      using dm by (auto simp: map_eq_conv map_of_eq_Some_iff)
    also have "\<dots> = map (\<lambda>k. the (map_of n k)) (map fst n)"
      using assms(3) \<open>map fst m = map fst n\<close> by simp
    also have "\<dots> = map snd n"
      using dn by (auto simp: map_eq_conv map_of_eq_Some_iff)
    finally show ?thesis .
  qed
  ultimately show ?thesis by (metis zip_map_fst_snd)
qed

interpretation omap: ordered_dict omap_get omap_put omap_erase "[]" omap_ok
  by unfold_locales
    (auto simp: omap_ok_put omap_ok_erase omap_get_put omap_get_erase intro: omap_ext)

lemma omap_get_SomeD: "omap_get m k = Some v \<Longrightarrow> (k, v) \<in> set m"
  by (rule map_of_SomeD)

lemma omap_get_iff: "omap_ok m \<Longrightarrow> omap_get m k = Some v \<longleftrightarrow> (k, v) \<in> set m"
  by (simp add: omap_ok_def strict_sorted_iff)

lemma length_omap_put:
  "omap_ok m \<Longrightarrow> length (omap_put k v m) = (if omap_get m k = None then Suc (length m) else length m)"
proof (induction m)
  case Nil
  show ?case by simp
next
  case (Cons e m)
  then show ?case
    by (cases e) (auto simp: omap_ok_Cons map_of_eq_None_iff)
qed

lemma length_omap_put_le: "length (omap_put k v m) \<le> Suc (length m)"
  by (induction m) auto

lemma set_omap_put: "omap_ok m \<Longrightarrow> set (omap_put k v m) = insert (k, v) {e \<in> set m. fst e \<noteq> k}"
proof -
  assume ok: "omap_ok m"
  have "(k', v') \<in> set (omap_put k v m) \<longleftrightarrow> (k', v') \<in> insert (k, v) {e \<in> set m. fst e \<noteq> k}" for k' v'
    using omap_get_iff [OF omap_ok_put [OF ok], of k v k' v'] omap_get_iff [OF ok, of k' v']
    by (auto simp: omap_get_put split: if_splits)
  then show ?thesis by (auto simp: set_eq_iff)
qed

section \<open>Sums over a map\<close>

definition omap_sum :: "('k \<Rightarrow> 'v \<Rightarrow> nat) \<Rightarrow> ('k, 'v) omap \<Rightarrow> nat" where
  "omap_sum f m = (\<Sum>(k, v)\<leftarrow>m. f k v)"

lemma omap_sum_simps [simp]:
  "omap_sum f [] = 0" "omap_sum f ((k, v) # m) = f k v + omap_sum f m"
  by (simp_all add: omap_sum_def)

lemma omap_get_None_above: "omap_ok ((k, v) # m) \<Longrightarrow> l \<le> k \<Longrightarrow> omap_get m l = None"
  by (auto simp: omap_ok_Cons map_of_eq_None_iff)

lemma omap_sum_put:
  "omap_ok m \<Longrightarrow>
   omap_sum f (omap_put k v m) + (case omap_get m k of None \<Rightarrow> 0 | Some w \<Rightarrow> f k w) = omap_sum f m + f k v"
proof (induction m)
  case Nil
  show ?case by simp
next
  case (Cons e m)
  obtain l w where e: "e = (l, w)" by (cases e)
  consider "l < k" | "l = k" | "k < l" by fastforce
  then show ?case
  proof cases
    case 1
    then have "k \<noteq> l" by auto
    with 1 Cons e show ?thesis by (simp add: omap_ok_Cons)
  next
    case 3
    then have "omap_get m k = None" using Cons.prems e omap_get_None_above [of l w m k] by simp
    moreover have "\<not> l < k" "l \<noteq> k" using 3 by auto
    ultimately show ?thesis by (simp add: e)
  qed (simp add: e)
qed

lemma omap_sum_put_new:
  "omap_ok m \<Longrightarrow> omap_get m k = None \<Longrightarrow> omap_sum f (omap_put k v m) = omap_sum f m + f k v"
  using omap_sum_put [of m f k v] by simp

lemma omap_sum_put_old:
  "omap_ok m \<Longrightarrow> omap_get m k = Some w \<Longrightarrow> omap_sum f (omap_put k v m) + f k w = omap_sum f m + f k v"
  using omap_sum_put [of m f k v] by simp

lemma omap_sum_erase:
  "omap_ok m \<Longrightarrow> omap_get m k = Some w \<Longrightarrow> omap_sum f (omap_erase k m) + f k w = omap_sum f m"
proof (induction m)
  case Nil
  then show ?case by simp
next
  case (Cons e m)
  obtain l x where e: "e = (l, x)" by (cases e)
  show ?case
  proof (cases "l = k")
    case True
    then have "omap_get m k = None" using Cons.prems(1) e omap_get_None_above [of l x m k] by simp
    then have "omap_erase k m = m"
      using Cons.prems(1) e by (intro omap.erase_absent) (auto simp: omap_ok_Cons)
    then have "filter (\<lambda>e. fst e \<noteq> k) m = m" by (simp add: omap_erase_def)
    with True e Cons.prems(2) show ?thesis by (simp add: omap_erase_def)
  next
    case False
    with Cons e show ?thesis by (simp add: omap_erase_def omap_ok_Cons)
  qed
qed

lemma omap_sum_ge: "omap_get m k = Some v \<Longrightarrow> f k v \<le> omap_sum f m"
  by (induction m) (auto split: if_splits)

lemma omap_sum_eq_0: "omap_sum f m = 0 \<longleftrightarrow> (\<forall>(k, v)\<in>set m. f k v = 0)"
  by (induction m) auto

lemma omap_sum_cong: "(\<And>k v. (k, v) \<in> set m \<Longrightarrow> f k v = g k v) \<Longrightarrow> omap_sum f m = omap_sum g m"
  by (induction m) auto

section \<open>Ordered sets\<close>

text \<open>\<^verbatim>\<open>std::set\<close>: the ascending list of its elements.\<close>

fun oset_insert :: "'a::linorder \<Rightarrow> 'a list \<Rightarrow> 'a list" where
  "oset_insert x [] = [x]"
| "oset_insert x (y # ys) =
     (if y < x then y # oset_insert x ys else if x = y then y # ys else x # y # ys)"

definition oset_erase :: "'a \<Rightarrow> 'a list \<Rightarrow> 'a list" where
  "oset_erase x ys = filter (\<lambda>y. y \<noteq> x) ys"

lemma set_oset_insert [simp]: "set (oset_insert x ys) = insert x (set ys)"
  by (induction ys) auto

lemma set_oset_erase [simp]: "set (oset_erase x ys) = set ys - {x}"
  by (auto simp: oset_erase_def)

lemma strict_sorted_oset_insert: "strict_sorted ys \<Longrightarrow> strict_sorted (oset_insert x ys)"
  by (induction ys) auto

lemma length_oset_insert:
  "strict_sorted ys \<Longrightarrow> length (oset_insert x ys) = (if x \<in> set ys then length ys else Suc (length ys))"
  by (induction ys) auto

section \<open>Sorting with duplicates removed\<close>

text \<open>
  The idiom \<^verbatim>\<open>std::sort(v); v.erase(std::unique(v), v.end())\<close>: \<open>unique_adj\<close> keeps the first of each
  run of neighbours that the predicate calls equal.
\<close>

fun unique_adj :: "('a \<Rightarrow> 'a \<Rightarrow> bool) \<Rightarrow> 'a list \<Rightarrow> 'a list" where
  "unique_adj eq [] = []"
| "unique_adj eq [x] = [x]"
| "unique_adj eq (x # y # ys) =
     (if eq x y then unique_adj eq (x # ys) else x # unique_adj eq (y # ys))"

definition sort_unique :: "'a::linorder list \<Rightarrow> 'a list" where
  "sort_unique xs = unique_adj (=) (sort xs)"

lemma set_unique_adj_sub: "set (unique_adj eq xs) \<subseteq> set xs"
  by (induction eq xs rule: unique_adj.induct) auto

lemma set_unique_adj_eq [simp]: "set (unique_adj (=) xs) = set xs"
proof (induction "(=) :: 'a \<Rightarrow> 'a \<Rightarrow> bool" xs rule: unique_adj.induct)
  case (3 x y ys)
  then show ?case by (cases "x = y") auto
qed auto

lemma unique_adj_key_strict:
  fixes f :: "'a \<Rightarrow> 'b::linorder"
  shows "sorted (map f xs) \<Longrightarrow> strict_sorted (map f (unique_adj (\<lambda>a b. f a = f b) xs))"
proof (induction "\<lambda>a b. f a = f b" xs rule: unique_adj.induct)
  case (3 x y ys)
  show ?case
  proof (cases "f x = f y")
    case True
    with 3 show ?thesis by auto
  next
    case False
    with "3.prems" have "f x < f y" by auto
    moreover have "f y \<le> f z" if "z \<in> set (unique_adj (\<lambda>a b. f a = f b) (y # ys))" for z
      using that "3.prems" set_unique_adj_sub [of "\<lambda>a b. f a = f b" "y # ys"] by auto
    ultimately show ?thesis using False 3 by fastforce
  qed
qed auto

lemma unique_adj_distinct_id: "strict_sorted (map f xs) \<Longrightarrow> unique_adj (\<lambda>a b. f a = f b) xs = xs"
  by (induction "\<lambda>a b. f a = f b" xs rule: unique_adj.induct) auto

lemma set_sort_unique [simp]: "set (sort_unique xs) = set xs"
  by (simp add: sort_unique_def)

lemma strict_sorted_sort_unique [simp]: "strict_sorted (sort_unique xs)"
  using unique_adj_key_strict [of "\<lambda>x. x" "sort xs"] by (simp add: sort_unique_def)

lemma sort_unique_cong: "set xs = set ys \<Longrightarrow> sort_unique xs = sort_unique ys"
  by (rule strict_sorted_unique) simp_all

section \<open>Binary search\<close>

text \<open>
  \<^verbatim>\<open>std::lower_bound(first, last, key, comp)\<close> halves the range until it is empty. It is kept as the
  loop it is, because the program also runs it on a container that is not sorted by the searched
  key, where it does not find what a linear scan would.
\<close>

function lower_bound_loop :: "('a \<Rightarrow> bool) \<Rightarrow> 'a list \<Rightarrow> nat \<Rightarrow> nat \<Rightarrow> nat" where
  "lower_bound_loop below xs first span =
     (if span = 0 then first
      else
        (let half = span div 2 in
         if below (xs ! (first + half))
         then lower_bound_loop below xs (first + half + 1) (span - half - 1)
         else lower_bound_loop below xs first half))"
  by pat_completeness auto
termination
  by (relation "measure (\<lambda>(_, _, _, span). span)") auto

declare lower_bound_loop.simps [simp del]

definition lower_bound :: "('a \<Rightarrow> bool) \<Rightarrow> 'a list \<Rightarrow> nat" where
  "lower_bound below xs = lower_bound_loop below xs 0 (length xs)"

text \<open>\<open>find_sorted\<close>: the idiom \<^verbatim>\<open>it == end || !(project(*it) == key) ? nullptr : &*it\<close>.\<close>

definition find_sorted :: "('a \<Rightarrow> 'k::linorder) \<Rightarrow> 'k \<Rightarrow> 'a list \<Rightarrow> 'a option" where
  "find_sorted key k xs =
     (let i = lower_bound (\<lambda>x. key x < k) xs in
      if i = length xs \<or> key (xs ! i) \<noteq> k then None else Some (xs ! i))"

lemma lower_bound_loop_range:
  "first + span \<le> length xs \<Longrightarrow>
     first \<le> lower_bound_loop below xs first span \<and>
     lower_bound_loop below xs first span \<le> first + span"
proof (induction below xs first span rule: lower_bound_loop.induct)
  case (1 below xs first span)
  show ?case
  proof (cases "span = 0")
    case True
    then show ?thesis by (simp add: lower_bound_loop.simps)
  next
    case False
    then have half: "span div 2 < span" by simp
    show ?thesis
    proof (cases "below (xs ! (first + span div 2))")
      case True
      with False half 1(1) [OF False refl True] "1.prems" show ?thesis
        by (subst (1 2) lower_bound_loop.simps) (auto simp: Let_def)
    next
      case below: False
      with False half 1(2) [OF False refl below] "1.prems" show ?thesis
        by (subst (1 2) lower_bound_loop.simps) (auto simp: Let_def)
    qed
  qed
qed

lemma lower_bound_loop_split:
  assumes "first + span \<le> length xs"
    and "\<And>i j. i \<le> j \<Longrightarrow> j < length xs \<Longrightarrow> below (xs ! j) \<Longrightarrow> below (xs ! i)"
    and "\<And>i. i < first \<Longrightarrow> below (xs ! i)"
    and "\<And>i. first + span \<le> i \<Longrightarrow> i < length xs \<Longrightarrow> \<not> below (xs ! i)"
  shows "(\<forall>i < lower_bound_loop below xs first span. below (xs ! i)) \<and>
     (\<forall>i. lower_bound_loop below xs first span \<le> i \<longrightarrow> i < length xs \<longrightarrow> \<not> below (xs ! i))"
  using assms
proof (induction below xs first span rule: lower_bound_loop.induct)
  case (1 below xs first span)
  show ?case
  proof (cases "span = 0")
    case True
    with "1.prems" show ?thesis by (simp add: lower_bound_loop.simps)
  next
    case False
    let ?h = "span div 2"
    have h: "?h < span" "first + ?h < length xs" using False "1.prems"(1) by auto
    show ?thesis
    proof (cases "below (xs ! (first + ?h))")
      case True
      have "below (xs ! i)" if "i < first + ?h + 1" for i
        using "1.prems"(2) [of i "first + ?h"] True h that by simp
      then have "(\<forall>i < lower_bound_loop below xs (first + ?h + 1) (span - ?h - 1). below (xs ! i)) \<and>
         (\<forall>i. lower_bound_loop below xs (first + ?h + 1) (span - ?h - 1) \<le> i \<longrightarrow> i < length xs
            \<longrightarrow> \<not> below (xs ! i))"
        using h "1.prems" by (intro 1(1) [OF False refl True]) auto
      with True False show ?thesis by (simp add: lower_bound_loop.simps [of below xs first span] Let_def)
    next
      case below: False
      have "\<not> below (xs ! i)" if "first + ?h \<le> i" "i < length xs" for i
        using "1.prems"(2) [of "first + ?h" i] below that by auto
      then have "(\<forall>i < lower_bound_loop below xs first ?h. below (xs ! i)) \<and>
         (\<forall>i. lower_bound_loop below xs first ?h \<le> i \<longrightarrow> i < length xs \<longrightarrow> \<not> below (xs ! i))"
        using h "1.prems" by (intro 1(2) [OF False refl below]) auto
      with below False show ?thesis by (simp add: lower_bound_loop.simps [of below xs first span] Let_def)
    qed
  qed
qed

text \<open>On a container strictly sorted by the searched key, the search is exact.\<close>

lemma find_sorted_SomeD: "find_sorted key k xs = Some x \<Longrightarrow> x \<in> set xs \<and> key x = k"
  using lower_bound_loop_range [of 0 "length xs" xs "\<lambda>x. key x < k"]
  by (auto simp: find_sorted_def lower_bound_def Let_def le_less in_set_conv_nth split: if_splits)

lemma find_sorted_iff:
  assumes "strict_sorted (map key xs)"
  shows "find_sorted key k xs = Some x \<longleftrightarrow> x \<in> set xs \<and> key x = k"
proof
  assume "find_sorted key k xs = Some x"
  then show "x \<in> set xs \<and> key x = k" by (rule find_sorted_SomeD)
next
  assume x: "x \<in> set xs \<and> key x = k"
  let ?i = "lower_bound (\<lambda>x. key x < k) xs"
  have mono: "key (xs ! i) \<le> key (xs ! j)" if "i \<le> j" "j < length xs" for i j
    using assms that by (cases "i = j") (auto simp: sorted_wrt_iff_nth_less less_imp_le)
  have split: "(\<forall>i < ?i. key (xs ! i) < k) \<and> (\<forall>i. ?i \<le> i \<longrightarrow> i < length xs \<longrightarrow> \<not> key (xs ! i) < k)"
    unfolding lower_bound_def
    using mono by (intro lower_bound_loop_split) (auto intro: le_less_trans)
  from x obtain j where j: "j < length xs" "xs ! j = x" by (auto simp: in_set_conv_nth)
  with split x have "?i \<le> j" by (metis leI less_irrefl)
  moreover have "\<not> ?i < j"
  proof
    assume "?i < j"
    then have "key (xs ! ?i) < key x" using assms j by (auto simp: sorted_wrt_iff_nth_less)
    with split x \<open>?i < j\<close> j show False by auto
  qed
  ultimately have "?i = j" by simp
  with j x show "find_sorted key k xs = Some x" by (auto simp: find_sorted_def Let_def)
qed

lemma find_sorted_None_iff:
  assumes "strict_sorted (map key xs)"
  shows "find_sorted key k xs = None \<longleftrightarrow> k \<notin> key ` set xs"
proof (cases "find_sorted key k xs")
  case None
  then show ?thesis using find_sorted_iff [OF assms, of k] by auto
next
  case (Some x)
  then show ?thesis using find_sorted_SomeD [OF Some] by auto
qed

end
