(* ===== verification/Rnf_Ledger.thy ===== *)
theory Rnf_Ledger
  imports Rnf_Evidence Rnf_Map
begin

text \<open>
  \<^verbatim>\<open>EvidenceLedger\<close> of \<^verbatim>\<open>model/evidence\<close>: the accepted evidence, keyed by slot. Shown here: an invariant of
  every operation (stored records are valid, stored under their own slot, with their own digest and
  within the bounds), what an insert does on every branch, that a stored record is only ever
  replaced by a newer one or by one of equal rank and smaller digest, and that within the
  bounds the final contents are a function of the set of records offered.
\<close>

section \<open>Preferences\<close>

text \<open>
  Keeping the preferred one of two candidates, over and over: \<open>best\<close> is what remains, whatever the
  order, when the preference is a strict order that is total on the candidates.
\<close>

definition winner :: "('a \<Rightarrow> 'a \<Rightarrow> bool) \<Rightarrow> 'a \<Rightarrow> 'a \<Rightarrow> 'a" where
  "winner beats stored incoming = (if beats incoming stored then incoming else stored)"

definition best :: "('a \<Rightarrow> 'a \<Rightarrow> bool) \<Rightarrow> 'a set \<Rightarrow> 'a \<Rightarrow> bool" where
  "best beats S r \<longleftrightarrow> r \<in> S \<and> (\<forall>s\<in>S. s = r \<or> beats r s)"

locale preference =
  fixes beats :: "'a \<Rightarrow> 'a \<Rightarrow> bool"
  assumes beats_irrefl: "\<not> beats a a"
    and beats_trans: "beats a b \<Longrightarrow> beats b c \<Longrightarrow> beats a c"
begin

lemma beats_asym: "beats a b \<Longrightarrow> \<not> beats b a"
  using beats_irrefl beats_trans by blast

lemma best_unique: "best beats S r \<Longrightarrow> best beats S s \<Longrightarrow> r = s"
  using beats_asym [of r s] unfolding best_def by metis

lemma best_singleton: "best beats {r} r"
  by (simp add: best_def)

lemma best_winner:
  assumes "best beats S a" "b = a \<or> beats a b \<or> beats b a"
  shows "best beats (insert b S) (winner beats a b)"
proof (cases "beats b a")
  case True
  then have "beats b s" if "s \<in> S" for s
    using assms(1) that beats_trans [of b a s] by (auto simp: best_def)
  with True show ?thesis by (auto simp: best_def winner_def)
next
  case False
  with assms show ?thesis by (auto simp: best_def winner_def)
qed

end

section \<open>The ledger\<close>

datatype insert_outcome =
    Outcome_kInserted | Outcome_kUpdated | Outcome_kDuplicate | Outcome_kSuperseded
  | Outcome_kConflicted | Outcome_kRefused

fun insert_outcome_to_string :: "insert_outcome \<Rightarrow> string" where
  "insert_outcome_to_string Outcome_kInserted = ''inserted''"
| "insert_outcome_to_string Outcome_kUpdated = ''updated''"
| "insert_outcome_to_string Outcome_kDuplicate = ''duplicate''"
| "insert_outcome_to_string Outcome_kSuperseded = ''superseded''"
| "insert_outcome_to_string Outcome_kConflicted = ''conflicted''"
| "insert_outcome_to_string Outcome_kRefused = ''refused''"

record insert_report =
  ir_outcome :: insert_outcome
  ir_status :: status
  ir_slot :: evidence_slot
  ir_record_digest :: digest
  ir_mutated :: bool

record slot_history =
  sh_superseded_count :: u64
  sh_conflict_count :: u64
  sh_superseded_min :: digest
  sh_conflicting_min :: digest

definition empty_slot_history :: slot_history where
  "empty_slot_history =
     \<lparr>sh_superseded_count = 0, sh_conflict_count = 0, sh_superseded_min = zero_digest,
      sh_conflicting_min = zero_digest\<rparr>"

record evidence_ledger =
  el_limits :: evidence_limits
  el_slots :: "(evidence_slot, evidence_record) omap"
  el_digests :: "(evidence_slot, digest) omap"
  el_history :: "(evidence_slot, slot_history) omap"
  el_sources :: "source_id list"
  el_conflicts :: u64
  el_superseded :: u64

definition ledger_new :: "evidence_limits \<Rightarrow> evidence_ledger" where
  "ledger_new limits =
     \<lparr>el_limits = limits, el_slots = [], el_digests = [], el_history = [], el_sources = [],
      el_conflicts = 0, el_superseded = 0\<rparr>"

text \<open>
  \<^verbatim>\<open>digests_.at(slot)\<close> throws for an absent key; the invariant below shows it is only asked for a slot
  that is stored. \<^verbatim>\<open>history_[slot]\<close> creates the entry, also on the path that replaces the record.
\<close>

definition min_digest :: "digest \<Rightarrow> digest \<Rightarrow> digest" where
  "min_digest current d = (if digest_is_zero current \<or> d < current then d else current)"

definition ledger_insert :: "evidence_record \<Rightarrow> evidence_ledger \<Rightarrow> insert_report \<times> evidence_ledger" where
  "ledger_insert r l =
     (let slot = slot_of r;
          d = evidence_digest r;
          report = (\<lambda>outcome st mutated. \<lparr>ir_outcome = outcome, ir_status = st, ir_slot = slot,
                      ir_record_digest = d, ir_mutated = mutated\<rparr>)
      in
      if \<not> status_ok (validate_evidence r) then (report Outcome_kRefused (validate_evidence r) False, l)
      else
      (case omap_get (el_slots l) slot of
         None \<Rightarrow>
           if length (el_slots l) \<ge> max_slots (el_limits l) then
             (report Outcome_kRefused
                (Status kResourceExhausted ''evidence ledger reached its slot bound'') False, l)
           else if pv_source (er_provenance r) \<notin> set (el_sources l) \<and>
                   length (el_sources l) \<ge> max_sources (el_limits l) then
             (report Outcome_kRefused
                (Status kResourceExhausted ''evidence ledger reached its source bound'') False, l)
           else
             (report Outcome_kInserted ok_status True,
              l\<lparr>el_slots := omap_put slot r (el_slots l),
                el_digests := omap_put slot d (el_digests l),
                el_sources := oset_insert (pv_source (er_provenance r)) (el_sources l)\<rparr>)
       | Some stored \<Rightarrow>
           (let stored_digest = the (omap_get (el_digests l) slot) in
            if stored_digest = d then (report Outcome_kDuplicate ok_status False, l)
            else
              (let history = (case omap_get (el_history l) slot of
                                Some h \<Rightarrow> h | None \<Rightarrow> empty_slot_history);
                   l = l\<lparr>el_history := omap_put slot history (el_history l)\<rparr>
               in
               if rank_of r < rank_of stored then
                 (let history = history\<lparr>sh_superseded_count := sh_superseded_count history + 1,
                        sh_superseded_min := min_digest (sh_superseded_min history) d\<rparr>
                  in (report Outcome_kSuperseded
                        (Status kSuperseded ''an older observation for this slot is already stored'') False,
                      l\<lparr>el_history := omap_put slot history (el_history l),
                        el_superseded := el_superseded l + 1\<rparr>))
               else if rank_of r > rank_of stored then
                 (report Outcome_kUpdated ok_status True,
                  l\<lparr>el_slots := omap_put slot r (el_slots l),
                    el_digests := omap_put slot d (el_digests l)\<rparr>)
               else
                 (let history = history\<lparr>sh_conflict_count := sh_conflict_count history + 1,
                        sh_conflicting_min := min_digest (sh_conflicting_min history) d\<rparr>;
                      l = l\<lparr>el_history := omap_put slot history (el_history l),
                            el_conflicts := el_conflicts l + 1\<rparr>;
                      st = Status kConflict
                             ''two observations share a generation and sequence but disagree''
                  in if d < stored_digest
                     then (report Outcome_kConflicted st True,
                           l\<lparr>el_slots := omap_put slot r (el_slots l),
                             el_digests := omap_put slot d (el_digests l)\<rparr>)
                     else (report Outcome_kConflicted st False, l))))))"

definition ledger_contains :: "evidence_slot \<Rightarrow> evidence_ledger \<Rightarrow> bool" where
  "ledger_contains slot l \<longleftrightarrow> omap_get (el_slots l) slot \<noteq> None"

definition ledger_find :: "evidence_slot \<Rightarrow> evidence_ledger \<Rightarrow> evidence_record option" where
  "ledger_find slot l = omap_get (el_slots l) slot"

definition ledger_digest :: "evidence_ledger \<Rightarrow> digest" where
  "ledger_digest l =
     final (fold (\<lambda>(slot, r) h. update (evidence_digest r) h) (el_slots l)
              (update (string_bytes ''rnf.ledger.v1'') (reset [])))"

definition ledger_records :: "evidence_ledger \<Rightarrow> evidence_record list" where
  "ledger_records l = map snd (el_slots l)"

definition ledger_clear :: "evidence_ledger \<Rightarrow> evidence_ledger" where
  "ledger_clear l =
     l\<lparr>el_slots := [], el_digests := [], el_history := [], el_sources := [], el_conflicts := 0,
       el_superseded := 0\<rparr>"

text \<open>Offering a sequence of records, one after the other.\<close>

definition insert_all :: "evidence_record list \<Rightarrow> evidence_ledger \<Rightarrow> evidence_ledger" where
  "insert_all rs l = fold (\<lambda>r l. snd (ledger_insert r l)) rs l"

section \<open>Invariant\<close>

definition ledger_ok :: "evidence_ledger \<Rightarrow> bool" where
  "ledger_ok l \<longleftrightarrow>
     omap_ok (el_slots l) \<and> omap_ok (el_history l) \<and>
     el_digests l = map (\<lambda>(s, r). (s, evidence_digest r)) (el_slots l) \<and>
     (\<forall>(s, r)\<in>set (el_slots l). evidence_valid r \<and> slot_of r = s) \<and>
     strict_sorted (el_sources l) \<and>
     set (el_sources l) = (\<lambda>r. pv_source (er_provenance r)) ` set (ledger_records l) \<and>
     fst ` set (el_history l) \<subseteq> fst ` set (el_slots l) \<and>
     length (el_slots l) \<le> max_slots (el_limits l) \<and>
     length (el_sources l) \<le> max_sources (el_limits l)"

lemma omap_put_map_snd:
  "map (\<lambda>(k, v). (k, f v)) (omap_put k v m) = omap_put k (f v) (map (\<lambda>(k, v). (k, f v)) m)"
  by (induction m) auto

lemma omap_get_map_snd: "omap_get (map (\<lambda>(k, v). (k, f v)) m) k = map_option f (omap_get m k)"
  by (induction m) auto

lemma slot_source: "sl_source (slot_of r) = pv_source (er_provenance r)"
  by (simp add: slot_of_def Let_def split: evidence_payload.splits)

lemma slot_kind: "sl_kind (slot_of r) = er_kind r"
  by (simp add: slot_of_def Let_def er_kind_def split: evidence_payload.splits)

lemma ledger_okD:
  assumes "ledger_ok l"
  shows "omap_ok (el_slots l)"
    and "omap_get (el_digests l) s = map_option evidence_digest (omap_get (el_slots l) s)"
    and "omap_get (el_slots l) s = Some r \<Longrightarrow> evidence_valid r \<and> slot_of r = s"
  using assms by (auto simp: ledger_ok_def omap_get_map_snd dest: omap_get_SomeD)

text \<open>The preference between records of one slot.\<close>

definition supersedes :: "evidence_record \<Rightarrow> evidence_record \<Rightarrow> bool" where
  "supersedes r s \<longleftrightarrow>
     rank_of r > rank_of s \<or> (rank_of r = rank_of s \<and> evidence_digest r < evidence_digest s)"

interpretation supersedes: preference supersedes
  by unfold_locales (auto simp: supersedes_def)

text \<open>
  The effect of an insert on the stored records: nothing for a refused record or one whose digest is
  stored, the record itself for a new slot within the bounds, and the preferred of the two for a slot
  that is taken.
\<close>

definition ledger_admits :: "evidence_record \<Rightarrow> evidence_ledger \<Rightarrow> bool" where
  "ledger_admits r l \<longleftrightarrow>
     evidence_valid r \<and>
     (omap_get (el_slots l) (slot_of r) = None \<longrightarrow>
        length (el_slots l) < max_slots (el_limits l) \<and>
        (pv_source (er_provenance r) \<in> set (el_sources l) \<or>
         length (el_sources l) < max_sources (el_limits l)))"

lemma ledger_insert_limits [simp]: "el_limits (snd (ledger_insert r l)) = el_limits l"
  by (simp add: ledger_insert_def Let_def split: option.splits)

lemma ledger_insert_slots:
  assumes "ledger_ok l"
  shows "el_slots (snd (ledger_insert r l)) =
     (if \<not> ledger_admits r l then el_slots l
      else
        (case omap_get (el_slots l) (slot_of r) of
           None \<Rightarrow> omap_put (slot_of r) r (el_slots l)
         | Some stored \<Rightarrow>
             if evidence_digest stored = evidence_digest r then el_slots l
             else omap_put (slot_of r) (winner supersedes stored r) (el_slots l)))"
proof (cases "omap_get (el_slots l) (slot_of r)")
  case None
  then show ?thesis
    by (auto simp: ledger_insert_def ledger_admits_def evidence_valid_def Let_def)
next
  case (Some stored)
  have same: "omap_put (slot_of r) stored (el_slots l) = el_slots l"
    using omap.put_same [OF ledger_okD(1) [OF assms] Some] .
  have dig: "omap_get (el_digests l) (slot_of r) = Some (evidence_digest stored)"
    using Some ledger_okD(2) [OF assms] by simp
  consider "\<not> evidence_valid r" | "evidence_valid r" "evidence_digest stored = evidence_digest r"
    | "evidence_valid r" "evidence_digest stored \<noteq> evidence_digest r" "rank_of r < rank_of stored"
    | "evidence_valid r" "evidence_digest stored \<noteq> evidence_digest r" "rank_of stored < rank_of r"
    | "evidence_valid r" "evidence_digest stored \<noteq> evidence_digest r" "rank_of r = rank_of stored"
    by fastforce
  then show ?thesis
  proof cases
    case 2
    then show ?thesis
      using Some dig same
      by (simp add: ledger_insert_def ledger_admits_def evidence_valid_def Let_def winner_def
          supersedes_def)
  next
    case 3
    then have "\<not> rank_of stored < rank_of r" "rank_of r \<noteq> rank_of stored" by auto
    with 3 show ?thesis
      using Some dig same
      by (simp add: ledger_insert_def ledger_admits_def evidence_valid_def Let_def winner_def
          supersedes_def)
  next
    case 4
    then show ?thesis
      using Some dig same
      by (simp add: ledger_insert_def ledger_admits_def evidence_valid_def Let_def winner_def
          supersedes_def less_not_sym)
  next
    case 5
    then show ?thesis
      using Some dig same
      by (simp add: ledger_insert_def ledger_admits_def evidence_valid_def Let_def winner_def
          supersedes_def)
  qed (simp add: ledger_insert_def ledger_admits_def evidence_valid_def Let_def)
qed

lemma ledger_insert_digests:
  assumes "ledger_ok l"
  shows "el_digests (snd (ledger_insert r l)) =
     map (\<lambda>(s, r). (s, evidence_digest r)) (el_slots (snd (ledger_insert r l)))"
proof -
  have d: "el_digests l = map (\<lambda>(s, r). (s, evidence_digest r)) (el_slots l)"
    using assms by (simp add: ledger_ok_def)
  show ?thesis
    by (cases "omap_get (el_slots l) (slot_of r)")
      (simp_all add: ledger_insert_def Let_def omap_put_map_snd d)
qed

lemma ledger_insert_sources:
  "el_sources (snd (ledger_insert r l)) =
     (if ledger_admits r l \<and> omap_get (el_slots l) (slot_of r) = None
      then oset_insert (pv_source (er_provenance r)) (el_sources l) else el_sources l)"
  by (cases "omap_get (el_slots l) (slot_of r)")
    (auto simp: ledger_insert_def Let_def ledger_admits_def evidence_valid_def)

lemma ledger_insert_history:
  assumes "ledger_ok l"
  shows "omap_ok (el_history (snd (ledger_insert r l)))"
    and "fst ` set (el_history (snd (ledger_insert r l))) \<subseteq>
       insert (slot_of r) (fst ` set (el_history l))"
    and "omap_get (el_slots l) (slot_of r) = None \<Longrightarrow>
       el_history (snd (ledger_insert r l)) = el_history l"
proof -
  have ok: "omap_ok (el_history l)" using assms by (simp add: ledger_ok_def)
  show "omap_ok (el_history (snd (ledger_insert r l)))"
    using ok by (simp add: ledger_insert_def Let_def omap_ok_put split: option.splits)
  show "fst ` set (el_history (snd (ledger_insert r l))) \<subseteq>
       insert (slot_of r) (fst ` set (el_history l))"
    by (cases "omap_get (el_slots l) (slot_of r)")
      (auto simp: ledger_insert_def Let_def keys_omap_put)
  show "omap_get (el_slots l) (slot_of r) = None \<Longrightarrow>
       el_history (snd (ledger_insert r l)) = el_history l"
    by (simp add: ledger_insert_def Let_def)
qed

lemma winner_cases: "winner beats a b = a \<or> winner beats a b = b"
  by (simp add: winner_def)

lemma ledger_sources_alt:
  "omap_ok (el_slots l) \<Longrightarrow>
   (\<forall>(s, r)\<in>set (el_slots l). evidence_valid r \<and> slot_of r = s) \<Longrightarrow>
     (\<lambda>r. pv_source (er_provenance r)) ` set (ledger_records l) = sl_source ` fst ` set (el_slots l)"
  by (force simp: ledger_records_def slot_source image_image intro!: image_cong)

lemma ledger_insert_entries:
  assumes "ledger_ok l"
  shows "\<forall>(s, r)\<in>set (el_slots (snd (ledger_insert x l))). evidence_valid r \<and> slot_of r = s"
proof -
  have old: "\<forall>(s, r)\<in>set (el_slots l). evidence_valid r \<and> slot_of r = s"
    and okm: "omap_ok (el_slots l)" using assms by (auto simp: ledger_ok_def)
  show ?thesis
  proof (cases "ledger_admits x l")
    case False
    then show ?thesis using old assms by (simp add: ledger_insert_slots)
  next
    case True
    then have v: "evidence_valid x" by (simp add: ledger_admits_def)
    have w: "evidence_valid (winner supersedes stored x) \<and> slot_of (winner supersedes stored x) = slot_of x"
      if "omap_get (el_slots l) (slot_of x) = Some stored" for stored
      using ledger_okD(3) [OF assms that] v winner_cases [of supersedes stored x] by metis
    show ?thesis
      using True v w old assms okm
      by (cases "omap_get (el_slots l) (slot_of x)")
        (auto simp: ledger_insert_slots set_omap_put)
  qed
qed

lemma ledger_insert_keys:
  assumes "ledger_ok l"
  shows "fst ` set (el_slots (snd (ledger_insert x l))) =
     (if ledger_admits x l then insert (slot_of x) (fst ` set (el_slots l)) else fst ` set (el_slots l))"
  using assms
  by (cases "omap_get (el_slots l) (slot_of x)")
    (auto simp: ledger_insert_slots keys_omap_put dest!: omap_get_SomeD intro: rev_image_eqI)

lemma ledger_insert_sizes:
  assumes "ledger_ok l"
  shows "length (el_slots (snd (ledger_insert x l))) \<le> max_slots (el_limits l)"
    and "length (el_sources (snd (ledger_insert x l))) \<le> max_sources (el_limits l)"
proof -
  have ok: "omap_ok (el_slots l)" "strict_sorted (el_sources l)"
    "length (el_slots l) \<le> max_slots (el_limits l)" "length (el_sources l) \<le> max_sources (el_limits l)"
    using assms by (auto simp: ledger_ok_def)
  show "length (el_slots (snd (ledger_insert x l))) \<le> max_slots (el_limits l)"
    using ok assms
    by (auto simp: ledger_insert_slots length_omap_put ledger_admits_def split: option.splits)
  show "length (el_sources (snd (ledger_insert x l))) \<le> max_sources (el_limits l)"
    using ok by (auto simp: ledger_insert_sources length_oset_insert ledger_admits_def)
qed

lemma ledger_ok_insert [inv_intros]:
  assumes "ledger_ok l"
  shows "ledger_ok (snd (ledger_insert x l))"
proof -
  let ?m = "snd (ledger_insert x l)"
  have old: "omap_ok (el_slots l)" "\<forall>(s, r)\<in>set (el_slots l). evidence_valid r \<and> slot_of r = s"
    "strict_sorted (el_sources l)"
    "set (el_sources l) = (\<lambda>r. pv_source (er_provenance r)) ` set (ledger_records l)"
    "fst ` set (el_history l) \<subseteq> fst ` set (el_slots l)"
    using assms by (auto simp: ledger_ok_def)
  have okm: "omap_ok (el_slots ?m)"
    using old(1) assms by (auto simp: ledger_insert_slots omap_ok_put split: option.splits)
  have src: "set (el_sources ?m) = sl_source ` fst ` set (el_slots ?m)"
    using old(4) ledger_sources_alt [OF old(1,2)] ledger_insert_keys [OF assms, of x]
    by (cases "omap_get (el_slots l) (slot_of x)")
      (auto simp: ledger_insert_sources slot_source dest!: omap_get_SomeD intro: rev_image_eqI)
  have "fst ` set (el_history ?m) \<subseteq> fst ` set (el_slots ?m)"
  proof (cases "ledger_admits x l")
    case True
    then show ?thesis
      using ledger_insert_history(2) [OF assms, of x] old(5) ledger_insert_keys [OF assms, of x] by auto
  next
    case False
    then have "el_history ?m = el_history l"
      using ledger_insert_history(3) [OF assms, of x]
      by (auto simp: ledger_admits_def ledger_insert_def evidence_valid_def Let_def)
    then show ?thesis using old(5) ledger_insert_keys [OF assms, of x] False by simp
  qed
  moreover have "strict_sorted (el_sources ?m)"
    using old(3) by (auto simp: ledger_insert_sources strict_sorted_oset_insert)
  moreover have "set (el_sources ?m) = (\<lambda>r. pv_source (er_provenance r)) ` set (ledger_records ?m)"
    using src ledger_sources_alt [OF okm ledger_insert_entries [OF assms]] by simp
  ultimately show ?thesis
    using okm ledger_insert_entries [OF assms, of x] ledger_insert_sizes [OF assms, of x]
      ledger_insert_digests [OF assms, of x] ledger_insert_history(1) [OF assms, of x]
    unfolding ledger_ok_def ledger_insert_limits by blast
qed

lemma ledger_ok_new [inv_intros]: "ledger_ok (ledger_new limits)"
  by (simp add: ledger_ok_def ledger_new_def ledger_records_def)

lemma ledger_ok_clear [inv_intros]: "ledger_ok l \<Longrightarrow> ledger_ok (ledger_clear l)"
  by (simp add: ledger_ok_def ledger_clear_def ledger_records_def)

section \<open>Arrival order\<close>

text \<open>The valid records of a set that compete for one slot.\<close>

definition candidates :: "evidence_record set \<Rightarrow> evidence_slot \<Rightarrow> evidence_record set" where
  "candidates S k = {r \<in> S. evidence_valid r \<and> slot_of r = k}"

text \<open>The ledger holds, for every slot, the best record among those offered.\<close>

definition ledger_best :: "evidence_record set \<Rightarrow> evidence_ledger \<Rightarrow> bool" where
  "ledger_best S l \<longleftrightarrow>
     (\<forall>k. (omap_get (el_slots l) k = None \<longrightarrow> candidates S k = {}) \<and>
          (\<forall>r. omap_get (el_slots l) k = Some r \<longrightarrow> best supersedes (candidates S k) r))"

lemma candidates_insert:
  "candidates (insert r S) k =
     (if evidence_valid r \<and> slot_of r = k then insert r (candidates S k) else candidates S k)"
  by (auto simp: candidates_def)

lemma supersedes_total:
  assumes "inj_on evidence_digest {r \<in> S. evidence_valid r}" "r \<in> S" "s \<in> S" "evidence_valid r"
    "evidence_valid s"
  shows "r = s \<or> supersedes s r \<or> supersedes r s"
proof -
  have "evidence_digest r = evidence_digest s \<Longrightarrow> r = s"
    using inj_onD [OF assms(1), of r s] assms(2-5) by simp
  moreover have "evidence_digest r < evidence_digest s \<or> evidence_digest s < evidence_digest r
      \<or> evidence_digest r = evidence_digest s"
    by auto
  moreover have "rank_of r < rank_of s \<or> rank_of s < rank_of r \<or> rank_of r = rank_of s" by auto
  ultimately show ?thesis unfolding supersedes_def by metis
qed

lemma ledger_best_insert:
  assumes l: "ledger_ok l" "ledger_best S l" and adm: "evidence_valid r \<Longrightarrow> ledger_admits r l"
    and inj: "inj_on evidence_digest {s \<in> insert r S. evidence_valid s}"
  shows "ledger_best (insert r S) (snd (ledger_insert r l))"
proof (cases "evidence_valid r")
  case False
  then have "el_slots (snd (ledger_insert r l)) = el_slots l"
    using l(1) by (simp add: ledger_admits_def ledger_insert_slots)
  moreover have cs: "candidates (insert r S) = candidates S"
    using False by (auto simp: candidates_def fun_eq_iff)
  ultimately show ?thesis using l(2) unfolding ledger_best_def cs by simp
next
  case True
  have old: "omap_get (el_slots l) k = None \<Longrightarrow> candidates S k = {}"
      "omap_get (el_slots l) k = Some s \<Longrightarrow> best supersedes (candidates S k) s" for k s
    using l(2) by (simp_all add: ledger_best_def)
  show ?thesis
  proof (cases "omap_get (el_slots l) (slot_of r)")
    case None
    with old(1) have "candidates S (slot_of r) = {}" by simp
    with None True adm old l(1) show ?thesis
      by (auto simp: ledger_best_def ledger_insert_slots omap_get_put candidates_insert
          supersedes.best_singleton)
  next
    case (Some stored)
    with old(2) have b: "best supersedes (candidates S (slot_of r)) stored" by simp
    then have st: "stored \<in> S" "evidence_valid stored" by (auto simp: best_def candidates_def)
    have tot: "r = stored \<or> supersedes stored r \<or> supersedes r stored"
      using supersedes_total [OF inj, of r stored] True st by auto
    have "best supersedes (insert r (candidates S (slot_of r))) (winner supersedes stored r)"
      by (rule supersedes.best_winner [OF b]) (use tot in auto)
    moreover have "evidence_digest stored = evidence_digest r \<Longrightarrow> stored = r"
      using inj st True by (auto simp: inj_on_def)
    moreover have "winner supersedes r r = r" by (simp add: winner_def)
    ultimately show ?thesis
      using Some True adm old l(1)
      by (auto simp: ledger_best_def ledger_insert_slots omap_get_put candidates_insert)
  qed
qed

lemma ledger_admits_within:
  assumes ok: "ledger_ok l" and sub: "fst ` set (el_slots l) \<subseteq> slot_of ` S" and fin: "finite S"
    and "r \<in> S" "evidence_valid r"
    and slots: "card (slot_of ` S) \<le> max_slots (el_limits l)"
    and sources: "card ((\<lambda>r. pv_source (er_provenance r)) ` S) \<le> max_sources (el_limits l)"
  shows "ledger_admits r l"
proof -
  have lenS: "length (el_slots l) = card (fst ` set (el_slots l))"
    using ok by (metis ledger_ok_def omap_ok_def strict_sorted_distinct length_map distinct_card set_map)
  have lenR: "length (el_sources l) = card (set (el_sources l))"
    using ok by (metis ledger_ok_def strict_sorted_distinct distinct_card)
  have src: "set (el_sources l) = sl_source ` fst ` set (el_slots l)"
    using ok ledger_sources_alt [of l] by (simp add: ledger_ok_def)
  have "length (el_slots l) < max_slots (el_limits l)"
    if none: "omap_get (el_slots l) (slot_of r) = None"
  proof -
    have "fst ` set (el_slots l) \<subset> slot_of ` S"
      using sub none \<open>r \<in> S\<close> by (force simp: map_of_eq_None_iff)
    then show ?thesis using slots lenS fin by (metis finite_imageI less_le_trans psubset_card_mono)
  qed
  moreover have "length (el_sources l) < max_sources (el_limits l)"
    if none: "pv_source (er_provenance r) \<notin> set (el_sources l)"
  proof -
    have "set (el_sources l) \<subseteq> (\<lambda>r. pv_source (er_provenance r)) ` S"
      using sub unfolding src by (force simp: slot_source)
    then have "set (el_sources l) \<subset> (\<lambda>r. pv_source (er_provenance r)) ` S"
      using none \<open>r \<in> S\<close> by auto
    then show ?thesis using sources lenR fin by (metis finite_imageI less_le_trans psubset_card_mono)
  qed
  ultimately show ?thesis using assms by (auto simp: ledger_admits_def)
qed

lemma ledger_keys_best:
  "ledger_best S l \<Longrightarrow> fst ` set (el_slots l) \<subseteq> slot_of ` S"
proof
  fix k
  assume b: "ledger_best S l" and "k \<in> fst ` set (el_slots l)"
  then obtain r where r: "omap_get (el_slots l) k = Some r"
    by (metis map_of_eq_None_iff not_None_eq)
  with b have "best supersedes (candidates S k) r" by (simp add: ledger_best_def)
  then show "k \<in> slot_of ` S" by (auto simp: best_def candidates_def)
qed

lemma insert_all_limits [simp]: "el_limits (insert_all rs l) = el_limits l"
  by (induction rs arbitrary: l) (simp_all add: insert_all_def)

lemma ledger_ok_insert_all [inv_intros]: "ledger_ok l \<Longrightarrow> ledger_ok (insert_all rs l)"
  by (induction rs arbitrary: l) (simp_all add: insert_all_def ledger_ok_insert)

lemma ledger_best_insert_all:
  assumes "ledger_ok l" "ledger_best S l" "finite S"
    and "inj_on evidence_digest {s \<in> set rs \<union> S. evidence_valid s}"
    and "card (slot_of ` (set rs \<union> S)) \<le> max_slots (el_limits l)"
    and "card ((\<lambda>r. pv_source (er_provenance r)) ` (set rs \<union> S)) \<le> max_sources (el_limits l)"
  shows "ledger_best (set rs \<union> S) (insert_all rs l)"
  using assms
proof (induction rs arbitrary: l S)
  case Nil
  then show ?case by (simp add: insert_all_def)
next
  case (Cons r rs)
  have sub: "fst ` set (el_slots l) \<subseteq> slot_of ` (set (r # rs) \<union> S)"
    using ledger_keys_best [OF Cons.prems(2)] by auto
  have "ledger_admits r l" if "evidence_valid r"
    by (rule ledger_admits_within [OF Cons.prems(1) sub]) (use that Cons.prems in auto)
  moreover have "inj_on evidence_digest {s \<in> insert r S. evidence_valid s}"
    by (rule inj_on_subset [OF Cons.prems(4)]) auto
  ultimately have "ledger_best (insert r S) (snd (ledger_insert r l))"
    using Cons.prems by (intro ledger_best_insert)
  moreover have "insert_all (r # rs) l = insert_all rs (snd (ledger_insert r l))"
    by (simp add: insert_all_def)
  moreover have "set (r # rs) \<union> S = set rs \<union> insert r S" by simp
  ultimately show ?case
    using Cons.IH [of "snd (ledger_insert r l)" "insert r S"] Cons.prems
    by (simp add: ledger_ok_insert)
qed

lemma ledger_best_slots_unique:
  assumes "ledger_ok l" "ledger_ok m" "ledger_best S l" "ledger_best S m"
  shows "el_slots l = el_slots m"
proof (rule omap_ext)
  show "omap_get (el_slots l) = omap_get (el_slots m)"
  proof
    fix k
    show "omap_get (el_slots l) k = omap_get (el_slots m) k"
    proof (cases "omap_get (el_slots l) k")
      case None
      with assms(3) have "candidates S k = {}" by (simp add: ledger_best_def)
      then have "omap_get (el_slots m) k \<noteq> Some r" for r
        using assms(4) by (auto simp: ledger_best_def best_def)
      with None show ?thesis by (metis not_None_eq)
    next
      case (Some r)
      with assms(3) have r: "best supersedes (candidates S k) r" by (simp add: ledger_best_def)
      then have "candidates S k \<noteq> {}" by (auto simp: best_def)
      with assms(4) obtain s where s: "omap_get (el_slots m) k = Some s"
        by (auto simp: ledger_best_def)
      with assms(4) have "best supersedes (candidates S k) s" by (simp add: ledger_best_def)
      with r s Some show ?thesis by (auto dest: supersedes.best_unique)
    qed
  qed
qed (use assms in \<open>auto simp: ledger_ok_def\<close>)

lemma ledger_digest_slots: "el_slots l = el_slots m \<Longrightarrow> ledger_digest l = ledger_digest m"
  by (simp add: ledger_digest_def)

lemma ledger_best_new: "ledger_best {} (ledger_new limits)"
  by (simp add: ledger_best_def ledger_new_def candidates_def)

lemma insert_all_order:
  assumes "set rs = set rs'"
    and "card (slot_of ` set rs) \<le> max_slots limits"
    and "card ((\<lambda>r. pv_source (er_provenance r)) ` set rs) \<le> max_sources limits"
    and "inj_on evidence_digest {r \<in> set rs. evidence_valid r}"
  shows "el_slots (insert_all rs (ledger_new limits)) = el_slots (insert_all rs' (ledger_new limits))"
proof -
  have "ledger_best (set qs \<union> {}) (insert_all qs (ledger_new limits))" if "set qs = set rs" for qs
    by (rule ledger_best_insert_all [OF ledger_ok_new ledger_best_new])
      (use assms that in \<open>simp_all add: ledger_new_def\<close>)
  from this [of rs] this [of rs'] assms(1) show ?thesis
    by (intro ledger_best_slots_unique ledger_ok_insert_all ledger_ok_new) auto
qed

section \<open>Replays and supersession\<close>

lemma ledger_insert_get:
  assumes "ledger_ok l" "omap_get (el_slots l) k = Some r"
  shows "\<exists>r'. omap_get (el_slots (snd (ledger_insert x l))) k = Some r' \<and> (r' = r \<or> supersedes r' r)"
proof (cases "k = slot_of x \<and> ledger_admits x l \<and> evidence_digest r \<noteq> evidence_digest x")
  case True
  then have "omap_get (el_slots (snd (ledger_insert x l))) k = Some (winner supersedes r x)"
    using assms by (simp add: ledger_insert_slots omap_get_put)
  then show ?thesis by (auto simp: winner_def)
next
  case False
  then have "omap_get (el_slots (snd (ledger_insert x l))) k = Some r"
    using assms by (auto simp: ledger_insert_slots omap_get_put split: option.splits)
  then show ?thesis by simp
qed

lemma insert_all_get:
  assumes "ledger_ok l" "omap_get (el_slots l) k = Some r"
  shows "\<exists>r'. omap_get (el_slots (insert_all xs l)) k = Some r' \<and> (r' = r \<or> supersedes r' r)"
  using assms
proof (induction xs arbitrary: l r)
  case Nil
  then show ?case by (simp add: insert_all_def)
next
  case (Cons x xs)
  from ledger_insert_get [OF Cons.prems, of x] obtain s where
    s: "omap_get (el_slots (snd (ledger_insert x l))) k = Some s" "s = r \<or> supersedes s r" by blast
  have "insert_all (x # xs) l = insert_all xs (snd (ledger_insert x l))" by (simp add: insert_all_def)
  with Cons.IH [OF ledger_ok_insert [OF Cons.prems(1)] s(1)] s(2) show ?case
    using supersedes.beats_trans by metis
qed

lemma ledger_insert_again:
  assumes ok: "ledger_ok l" and o: "ir_outcome (fst (ledger_insert r l)) \<in> {Outcome_kInserted, Outcome_kUpdated}"
  shows "fst (ledger_insert r (snd (ledger_insert r l))) =
      \<lparr>ir_outcome = Outcome_kDuplicate, ir_status = ok_status, ir_slot = slot_of r,
       ir_record_digest = evidence_digest r, ir_mutated = False\<rparr>"
    and "snd (ledger_insert r (snd (ledger_insert r l))) = snd (ledger_insert r l)"
proof -
  let ?m = "snd (ledger_insert r l)"
  have get: "omap_get (el_slots ?m) (slot_of r) = Some r"
    using o
    by (cases "omap_get (el_slots l) (slot_of r)")
      (auto simp: ledger_insert_def Let_def omap_get_put split: if_splits)
  have v: "status_ok (validate_evidence r)"
    using o by (auto simp: ledger_insert_def Let_def split: if_splits)
  have "omap_get (el_digests ?m) (slot_of r) = Some (evidence_digest r)"
    using get ledger_okD(2) [OF ledger_ok_insert [OF ok, of r], of "slot_of r"] by simp
  with get v show "fst (ledger_insert r ?m) =
      \<lparr>ir_outcome = Outcome_kDuplicate, ir_status = ok_status, ir_slot = slot_of r,
       ir_record_digest = evidence_digest r, ir_mutated = False\<rparr>"
    and "snd (ledger_insert r ?m) = ?m"
    by (simp_all add: ledger_insert_def [of r ?m] Let_def)
qed

lemma ledger_insert_mutated:
  assumes "ledger_ok l"
  shows "ir_mutated (fst (ledger_insert r l)) \<longleftrightarrow>
     ir_outcome (fst (ledger_insert r l)) \<in> {Outcome_kInserted, Outcome_kUpdated} \<or>
     (ir_outcome (fst (ledger_insert r l)) = Outcome_kConflicted \<and>
      omap_get (el_slots (snd (ledger_insert r l))) (slot_of r) = Some r)"
proof (cases "omap_get (el_slots l) (slot_of r)")
  case None
  then show ?thesis by (auto simp: ledger_insert_def Let_def)
next
  case (Some stored)
  then have "omap_get (el_digests l) (slot_of r) = Some (evidence_digest stored)"
    using ledger_okD(2) [OF assms] by simp
  with Some show ?thesis by (auto simp: ledger_insert_def Let_def omap_get_put)
qed

text \<open>
  The counters of the slot history are not a function of the set of records: an older record that
  arrives before a newer one is replaced and counted nowhere, one that arrives after it is counted.
\<close>

lemma superseded_counts:
  assumes "evidence_valid old" "evidence_valid new" "slot_of old = slot_of new"
    "rank_of old < rank_of new" "evidence_digest old \<noteq> evidence_digest new"
    "0 < max_slots limits" "0 < max_sources limits"
  shows "el_superseded (insert_all [old, new] (ledger_new limits)) = 0"
    and "el_superseded (insert_all [new, old] (ledger_new limits)) = 1"
  using assms
  by (simp_all add: insert_all_def ledger_insert_def Let_def ledger_new_def evidence_valid_def less_not_sym)

section \<open>Properties\<close>

definition sample_member :: "u64 \<Rightarrow> u64 \<Rightarrow> evidence_record" where
  "sample_member seq inc =
     \<lparr>er_durability = Durability_kSticky, er_generation = 1,
      er_provenance = \<lparr>pv_source = 9, pv_kind = SourceKind_kOperator, pv_sequence = seq,
        pv_observed_at_ms = 0\<rparr>,
      er_payload = PMember \<lparr>mc_rack = 1, mc_device = 5, mc_incarnation = inc\<rparr>\<rparr>"

lemma sample_member_facts:
  "evidence_valid (sample_member seq inc)"
  "slot_of (sample_member seq inc) = EvidenceSlot EvidenceKind_kMember 5 1 9"
  "pv_source (er_provenance (sample_member seq inc)) = 9"
  "rank_of (sample_member seq inc) = (1, seq)"
  by (simp_all add: sample_member_def evidence_valid_iff slot_of_def rank_of_def id_is_set_def)

text \<open>
  (C10) Arrival order independence. Offer the same set of records to an empty ledger in two orders,
  with repetitions or without, where the slots and the sources the records name are no more than
  \<open>max_slots\<close> and \<open>max_sources\<close>: the stored records and the ledger digest are the same, unless two of the
  valid records are a collision of BLAKE2s. Beyond the bounds the ledger refuses what arrives last, so there
  the order decides.
\<close>
theorem ledger_arrival_order:
  assumes "set rs = set rs'"
    and "card (slot_of ` set rs) \<le> max_slots limits"
    and "card ((\<lambda>r. pv_source (er_provenance r)) ` set rs) \<le> max_sources limits"
  shows "(el_slots (insert_all rs (ledger_new limits)) = el_slots (insert_all rs' (ledger_new limits)) \<and>
          ledger_digest (insert_all rs (ledger_new limits)) =
            ledger_digest (insert_all rs' (ledger_new limits))) \<or>
         (\<exists>r\<in>set rs. \<exists>s\<in>set rs. evidence_valid r \<and> evidence_valid s \<and>
            evidence_bytes r \<noteq> evidence_bytes s \<and>
            blake2s_hash (evidence_bytes r) = blake2s_hash (evidence_bytes s))"
proof (cases "inj_on evidence_digest {r \<in> set rs. evidence_valid r}")
  case True
  with insert_all_order [OF assms] show ?thesis by (auto intro: ledger_digest_slots)
next
  case False
  then obtain r s where "r \<in> set rs" "s \<in> set rs" "evidence_valid r" "evidence_valid s" "r \<noteq> s"
      "evidence_digest r = evidence_digest s"
    by (auto simp: inj_on_def)
  then show ?thesis using evidence_digest_inj [of r s] by blast
qed

theorem ledger_arrival_order_witness:
  "let rs = [sample_member 1 7, sample_member 2 8]; rs' = [sample_member 2 8, sample_member 1 7, sample_member 1 7];
       limits = default_evidence_limits in
   (el_slots (insert_all rs (ledger_new limits)) = el_slots (insert_all rs' (ledger_new limits)) \<and>
    ledger_digest (insert_all rs (ledger_new limits)) = ledger_digest (insert_all rs' (ledger_new limits))) \<or>
   (\<exists>r\<in>set rs. \<exists>s\<in>set rs. evidence_valid r \<and> evidence_valid s \<and>
      evidence_bytes r \<noteq> evidence_bytes s \<and>
      blake2s_hash (evidence_bytes r) = blake2s_hash (evidence_bytes s))"
  unfolding Let_def
  by (rule ledger_arrival_order)
    (auto simp: sample_member_facts default_evidence_limits_def)

text \<open>
  (C11) The ledger invariant: after any sequence of inserts every stored record passes validation, sits
  in its own slot, has its own digest beside it, and the numbers of slots and sources stay within the
  configured bounds; the slots are in canonical order.
\<close>
theorem ledger_invariant:
  "let l = insert_all rs (ledger_new limits) in
   omap_ok (el_slots l) \<and>
   (\<forall>k r. omap_get (el_slots l) k = Some r \<longrightarrow>
      evidence_valid r \<and> slot_of r = k \<and> omap_get (el_digests l) k = Some (evidence_digest r)) \<and>
   set (el_sources l) = (\<lambda>r. pv_source (er_provenance r)) ` set (ledger_records l) \<and>
   length (el_slots l) \<le> max_slots limits \<and> length (el_sources l) \<le> max_sources limits"
proof -
  have ok: "ledger_ok (insert_all rs (ledger_new limits))"
    by (intro ledger_ok_insert_all ledger_ok_new)
  then show ?thesis
    using ledger_okD [OF ok]
    by (simp add: Let_def) (simp add: ledger_ok_def ledger_new_def)
qed

theorem ledger_invariant_witness:
  "omap_get (el_slots (insert_all [sample_member 1 7] (ledger_new default_evidence_limits)))
     (EvidenceSlot EvidenceKind_kMember 5 1 9) = Some (sample_member 1 7) \<and>
   omap_get (el_digests (insert_all [sample_member 1 7] (ledger_new default_evidence_limits)))
     (EvidenceSlot EvidenceKind_kMember 5 1 9) = Some (evidence_digest (sample_member 1 7))"
proof -
  have "omap_get (el_slots (insert_all [sample_member 1 7] (ledger_new default_evidence_limits)))
     (EvidenceSlot EvidenceKind_kMember 5 1 9) = Some (sample_member 1 7)"
    using sample_member_facts(1) [of 1 7, unfolded evidence_valid_def]
    by (simp add: insert_all_def ledger_insert_def ledger_new_def sample_member_facts
        default_evidence_limits_def Let_def)
  then show ?thesis
    using ledger_invariant [of "[sample_member 1 7]" default_evidence_limits] by (simp add: Let_def)
qed

text \<open>
  (C12) Replays never displace newer evidence: whatever is offered after a record is stored, its slot
  stays occupied, and by a record of higher rank or of the same rank and a smaller digest if not by
  itself.
\<close>
theorem ledger_replay_safe:
  assumes "omap_get (el_slots (insert_all rs (ledger_new limits))) k = Some r"
  shows "\<exists>r'. omap_get (el_slots (insert_all (rs @ xs) (ledger_new limits))) k = Some r' \<and>
           (r' = r \<or> rank_of r < rank_of r' \<or>
            (rank_of r = rank_of r' \<and> evidence_digest r' < evidence_digest r))"
proof -
  have "insert_all (rs @ xs) (ledger_new limits) = insert_all xs (insert_all rs (ledger_new limits))"
    by (simp add: insert_all_def)
  with insert_all_get [OF ledger_ok_insert_all [OF ledger_ok_new] assms, of xs] show ?thesis
    by (auto simp: supersedes_def)
qed

theorem ledger_replay_safe_witness:
  "\<exists>r'. omap_get (el_slots (insert_all ([sample_member 2 8] @ [sample_member 1 7])
      (ledger_new default_evidence_limits))) (EvidenceSlot EvidenceKind_kMember 5 1 9) = Some r' \<and>
    (r' = sample_member 2 8 \<or> rank_of (sample_member 2 8) < rank_of r' \<or>
     (rank_of (sample_member 2 8) = rank_of r' \<and>
      evidence_digest r' < evidence_digest (sample_member 2 8)))"
proof (rule ledger_replay_safe)
  show "omap_get (el_slots (insert_all [sample_member 2 8] (ledger_new default_evidence_limits)))
     (EvidenceSlot EvidenceKind_kMember 5 1 9) = Some (sample_member 2 8)"
    using sample_member_facts(1) [of 2 8, unfolded evidence_valid_def]
    by (simp add: insert_all_def ledger_insert_def ledger_new_def sample_member_facts
        default_evidence_limits_def Let_def)
qed

text \<open>
  Idempotence: offering again a record that was just inserted or just replaced another one
  reports a duplicate, reports no mutation and leaves the ledger exactly as it was.
\<close>
theorem ledger_reinsert_duplicate:
  assumes "ledger_ok l"
    and "ir_outcome (fst (ledger_insert r l)) \<in> {Outcome_kInserted, Outcome_kUpdated}"
  shows "ledger_insert r (snd (ledger_insert r l)) =
     (\<lparr>ir_outcome = Outcome_kDuplicate, ir_status = ok_status, ir_slot = slot_of r,
       ir_record_digest = evidence_digest r, ir_mutated = False\<rparr>, snd (ledger_insert r l))"
  using ledger_insert_again [OF assms] by (simp add: prod_eq_iff)

theorem ledger_reinsert_duplicate_witness:
  "ledger_insert (sample_member 1 7) (snd (ledger_insert (sample_member 1 7) (ledger_new default_evidence_limits))) =
     (\<lparr>ir_outcome = Outcome_kDuplicate, ir_status = ok_status, ir_slot = slot_of (sample_member 1 7),
       ir_record_digest = evidence_digest (sample_member 1 7), ir_mutated = False\<rparr>,
      snd (ledger_insert (sample_member 1 7) (ledger_new default_evidence_limits)))"
proof (rule ledger_reinsert_duplicate [OF ledger_ok_new])
  show "ir_outcome (fst (ledger_insert (sample_member 1 7) (ledger_new default_evidence_limits)))
      \<in> {Outcome_kInserted, Outcome_kUpdated}"
    using sample_member_facts(1) [of 1 7, unfolded evidence_valid_def]
    by (simp add: ledger_insert_def ledger_new_def default_evidence_limits_def Let_def)
qed

end
