(* ===== verification/Rnf_Snapshot.thy ===== *)
theory Rnf_Snapshot
  imports Rnf_Ledger
begin

text \<open>
  \<^verbatim>\<open>compose/snapshot\<close>: the immutable view of one rack at one generation, its canonical encoding and
  decoder, its digest, the capacity identities and the lookups by identity. Shown here: the encoding
  and the decoder invert each other on every snapshot within the bounds and nothing else decodes,
  \<^verbatim>\<open>closes\<close> is exactly the two capacity identities over the naturals, and the lookups are exact on
  containers sorted by the searched identity.
\<close>

section \<open>Data\<close>

record compose_limits =
  cl_max_devices :: nat
  cl_max_ports :: nat
  cl_max_links :: nat
  cl_max_attachments :: nat
  cl_max_paths :: nat
  cl_max_diagnostics :: nat
  cl_max_obligations :: nat
  cl_max_maintenance :: nat
  cl_max_encoded_snapshot :: nat

definition default_compose_limits :: compose_limits where
  "default_compose_limits =
     \<lparr>cl_max_devices = 4096, cl_max_ports = 16384, cl_max_links = 16384, cl_max_attachments = 16384,
      cl_max_paths = 4096, cl_max_diagnostics = 4096, cl_max_obligations = 8192,
      cl_max_maintenance = 8192, cl_max_encoded_snapshot = 16 * 2 ^ 20\<rparr>"

datatype owner_ref = OwnerRef (ow_device: device_id) (ow_incarnation: member_incarnation)

definition owner_ref_before :: "owner_ref \<Rightarrow> owner_ref \<Rightarrow> bool" where
  "owner_ref_before a b \<longleftrightarrow>
     (if ow_device a \<noteq> ow_device b then ow_device a < ow_device b else ow_incarnation a < ow_incarnation b)"

instantiation owner_ref :: linorder
begin

definition less_eq_owner_ref :: "owner_ref \<Rightarrow> owner_ref \<Rightarrow> bool" where
  "less_eq_owner_ref a b \<longleftrightarrow> a = b \<or> owner_ref_before a b"

definition less_owner_ref :: "owner_ref \<Rightarrow> owner_ref \<Rightarrow> bool" where
  "less_owner_ref a b \<longleftrightarrow> owner_ref_before a b"

instance
  by standard
    (auto simp: less_eq_owner_ref_def less_owner_ref_def owner_ref_before_def owner_ref.expand split: if_splits)

end

record resource_state =
  rs_ref :: resource_ref
  rs_eligibility :: eligibility
  rs_availability :: availability
  rs_capacity_known :: bool
  rs_capacity :: capacity
  rs_obligated :: capacity
  rs_maintenance :: bool
  rs_owners :: "owner_ref list"

record device_record =
  d_id :: device_id
  d_role :: device_role
  d_incarnation :: member_incarnation
  d_capacity :: capacity
  d_capacity_known :: bool
  d_eligibility :: eligibility
  d_availability :: availability

record port_record =
  p_id :: port_id
  p_device :: device_id
  p_index :: u16
  p_role :: port_role
  p_capacity :: capacity
  p_capacity_known :: bool
  p_availability :: availability
  p_admin :: admin_state
  p_eligibility :: eligibility

record link_record =
  l_id :: link_id
  l_port_a :: port_id
  l_port_b :: port_id
  l_kind :: link_kind
  l_capacity :: capacity
  l_capacity_known :: bool
  l_availability :: availability
  l_eligibility :: eligibility

record attachment_record =
  a_id :: attachment_id
  a_device :: device_id
  a_port :: port_id
  a_host_key :: string
  a_eligibility :: eligibility

record path_record =
  pa_id :: path_id
  pa_start_port :: port_id
  pa_end_port :: port_id
  pa_links :: "link_id list"
  pa_bottleneck :: capacity
  pa_bottleneck_known :: bool
  pa_eligibility :: eligibility

record maintenance_record =
  m_action :: maintenance_kind
  m_target :: resource_ref
  m_reason :: string
  m_source :: source_id
  m_sequence :: sequence_no

record obligation_record =
  o_id :: obligation_id
  o_target :: resource_ref
  o_capacity :: capacity
  o_holder :: principal_id
  o_authority :: string
  o_source :: source_id

record capacity_ledger =
  k_total :: capacity
  k_unavailable :: capacity
  k_usable :: capacity
  k_obligated :: capacity
  k_headroom_floor :: capacity
  k_uncommitted :: capacity
  k_deficit :: capacity

definition closes :: "capacity_ledger \<Rightarrow> bool" where
  "closes c =
     (case checked_add_u64 (k_unavailable c) (k_usable c) of
        None \<Rightarrow> False
      | Some lhs \<Rightarrow>
          if lhs \<noteq> k_total c then False
          else
            (case checked_add_u64 (k_obligated c) (k_headroom_floor c) of
               None \<Rightarrow> False
             | Some rhs \<Rightarrow>
                 (case checked_add_u64 rhs (k_uncommitted c) of
                    None \<Rightarrow> False
                  | Some rhs \<Rightarrow>
                      (case checked_add_u64 (k_usable c) (k_deficit c) of
                         None \<Rightarrow> False
                       | Some lhs2 \<Rightarrow> lhs2 = rhs))))"

record snapshot_data =
  sd_rack :: rack_id
  sd_generation :: topology_generation
  sd_epoch :: rack_epoch
  sd_lifecycle :: lifecycle_state
  sd_evidence_digest :: digest
  sd_member_set_digest :: digest
  sd_capacity :: capacity_ledger
  sd_devices :: "device_record list"
  sd_ports :: "port_record list"
  sd_links :: "link_record list"
  sd_attachments :: "attachment_record list"
  sd_paths :: "path_record list"
  sd_maintenance :: "maintenance_record list"
  sd_obligations :: "obligation_record list"
  sd_resources :: "resource_state list"
  sd_diagnostics :: "diagnostic list"

definition empty_capacity_ledger :: capacity_ledger where
  "empty_capacity_ledger =
     \<lparr>k_total = 0, k_unavailable = 0, k_usable = 0, k_obligated = 0, k_headroom_floor = 0,
      k_uncommitted = 0, k_deficit = 0\<rparr>"

definition empty_snapshot_data :: snapshot_data where
  "empty_snapshot_data =
     \<lparr>sd_rack = 0, sd_generation = 0, sd_epoch = 0, sd_lifecycle = LifecycleState_kAssembling,
      sd_evidence_digest = zero_digest, sd_member_set_digest = zero_digest,
      sd_capacity = empty_capacity_ledger, sd_devices = [], sd_ports = [], sd_links = [],
      sd_attachments = [], sd_paths = [], sd_maintenance = [], sd_obligations = [],
      sd_resources = [], sd_diagnostics = []\<rparr>"

definition eligible_resource_count :: "snapshot_data \<Rightarrow> nat" where
  "eligible_resource_count d =
     length (filter (\<lambda>s. rs_eligibility s = Eligibility_kEligible) (sd_resources d))"

definition member_set_digest :: "device_record list \<Rightarrow> digest" where
  "member_set_digest devices =
     final (fold (\<lambda>d h. update (store_le 8 (d_id d) @ store_le 8 (d_incarnation d)) h) devices
              (update (string_bytes ''rnf.members.v1'') (reset [])))"

section \<open>Encoding\<close>

definition kMaxOwnersPerResource :: nat where "kMaxOwnersPerResource = 64"
definition kMaxDiagnosticDetail :: nat where "kMaxDiagnosticDetail = 256"

definition owner_calls :: "owner_ref \<Rightarrow> writer_call list" where
  "owner_calls owner = [W_u64 (ow_device owner), W_u64 (ow_incarnation owner)]"

definition resource_calls :: "resource_state \<Rightarrow> writer_call list" where
  "resource_calls s =
     [W_u8 (rk_byte (ref_kind (rs_ref s))), W_u64 (ref_id (rs_ref s)), W_u8 (el_byte (rs_eligibility s)),
      W_u8 (av_byte (rs_availability s)), W_boolean (rs_capacity_known s), W_u64 (rs_capacity s),
      W_u64 (rs_obligated s), W_boolean (rs_maintenance s),
      W_u32 (of_nat (length (rs_owners s)))] @ concat (map owner_calls (rs_owners s))"

definition device_calls :: "device_record \<Rightarrow> writer_call list" where
  "device_calls d =
     [W_u64 (d_id d), W_u8 (dr_byte (d_role d)), W_u64 (d_incarnation d), W_u64 (d_capacity d),
      W_boolean (d_capacity_known d), W_u8 (el_byte (d_eligibility d)), W_u8 (av_byte (d_availability d))]"

definition port_calls :: "port_record \<Rightarrow> writer_call list" where
  "port_calls p =
     [W_u64 (p_id p), W_u64 (p_device p), W_u16 (p_index p), W_u8 (pr_byte (p_role p)),
      W_u64 (p_capacity p), W_boolean (p_capacity_known p), W_u8 (av_byte (p_availability p)),
      W_u8 (as_byte (p_admin p)), W_u8 (el_byte (p_eligibility p))]"

definition link_calls :: "link_record \<Rightarrow> writer_call list" where
  "link_calls l =
     [W_u64 (l_id l), W_u64 (l_port_a l), W_u64 (l_port_b l), W_u8 (lk_byte (l_kind l)),
      W_u64 (l_capacity l), W_boolean (l_capacity_known l), W_u8 (av_byte (l_availability l)),
      W_u8 (el_byte (l_eligibility l))]"

definition attachment_calls :: "attachment_record \<Rightarrow> writer_call list" where
  "attachment_calls a =
     [W_u64 (a_id a), W_u64 (a_device a), W_u64 (a_port a), W_text (a_host_key a) kMaxTextField,
      W_u8 (el_byte (a_eligibility a))]"

definition path_calls :: "path_record \<Rightarrow> writer_call list" where
  "path_calls p =
     [W_u64 (pa_id p), W_u64 (pa_start_port p), W_u64 (pa_end_port p),
      W_u32 (of_nat (length (pa_links p)))] @ concat (map (\<lambda>link. [W_u64 link]) (pa_links p)) @
     [W_u64 (pa_bottleneck p), W_boolean (pa_bottleneck_known p), W_u8 (el_byte (pa_eligibility p))]"

definition maintenance_calls :: "maintenance_record \<Rightarrow> writer_call list" where
  "maintenance_calls m =
     [W_u8 (mk_byte (m_action m)), W_u8 (rk_byte (ref_kind (m_target m))), W_u64 (ref_id (m_target m)),
      W_u64 (m_source m), W_u64 (m_sequence m), W_text (m_reason m) kMaxTextField]"

definition obligation_calls :: "obligation_record \<Rightarrow> writer_call list" where
  "obligation_calls r =
     [W_u64 (o_id r), W_u8 (rk_byte (ref_kind (o_target r))), W_u64 (ref_id (o_target r)),
      W_u64 (o_capacity r), W_u64 (o_holder r), W_u64 (o_source r), W_text (o_authority r) kMaxTextField]"

definition diagnostic_calls :: "diagnostic \<Rightarrow> writer_call list" where
  "diagnostic_calls g =
     [W_u8 (dk_byte (dg_kind g)), W_u8 (ek_byte (dg_subject_kind g)), W_u64 (dg_subject_id g),
      W_u64 (dg_source g), W_text (dg_detail g) kMaxDiagnosticDetail]"

definition counted_calls :: "('a \<Rightarrow> writer_call list) \<Rightarrow> 'a list \<Rightarrow> writer_call list" where
  "counted_calls f xs = W_u32 (of_nat (length xs)) # concat (map f xs)"

definition snapshot_header_calls :: "snapshot_data \<Rightarrow> writer_call list" where
  "snapshot_header_calls d =
     [W_u64 (sd_rack d), W_u64 (sd_generation d), W_u64 (sd_epoch d), W_u8 (ls_byte (sd_lifecycle d)),
      W_digest (sd_evidence_digest d), W_digest (sd_member_set_digest d)]"

definition capacity_calls :: "capacity_ledger \<Rightarrow> writer_call list" where
  "capacity_calls c =
     [W_u64 (k_total c), W_u64 (k_unavailable c), W_u64 (k_usable c), W_u64 (k_obligated c),
      W_u64 (k_headroom_floor c), W_u64 (k_uncommitted c), W_u64 (k_deficit c)]"

definition snapshot_calls :: "snapshot_data \<Rightarrow> writer_call list" where
  "snapshot_calls d =
     snapshot_header_calls d @ capacity_calls (sd_capacity d) @
     counted_calls device_calls (sd_devices d) @
     counted_calls port_calls (sd_ports d) @
     counted_calls link_calls (sd_links d) @
     counted_calls attachment_calls (sd_attachments d) @
     counted_calls path_calls (sd_paths d) @
     counted_calls maintenance_calls (sd_maintenance d) @
     counted_calls obligation_calls (sd_obligations d) @
     counted_calls resource_calls (sd_resources d) @
     counted_calls diagnostic_calls (sd_diagnostics d)"

definition encode_snapshot :: "snapshot_data \<Rightarrow> byte_writer \<Rightarrow> status \<times> byte_writer" where
  "encode_snapshot d w =
     (let w = write_all (snapshot_calls d) w in
      if \<not> bw_ok w then (Status kResourceExhausted ''snapshot encoding exceeded its bound'', w)
      else (ok_status, w))"

definition encode_snapshot_bytes :: "snapshot_data \<Rightarrow> nat \<Rightarrow> u8 list result" where
  "encode_snapshot_bytes d limit =
     (let (st, w) = encode_snapshot d (bw_new limit) in
      if status_ok st then Inr (bw_buffer w) else Inl st)"

definition snapshot_digest :: "snapshot_data \<Rightarrow> digest" where
  "snapshot_digest d =
     (let (st, w) = encode_snapshot d (bw_new (cl_max_encoded_snapshot default_compose_limits)) in
      if \<not> status_ok st then
        final (update_le64 (ucast (code_value (st_code st)))
          (update (string_bytes ''rnf.snapshot.unencodable'') (reset [])))
      else blake2s_hash (bw_buffer w))"

section \<open>Decoding\<close>

definition dec_owner :: "u8 list \<Rightarrow> (owner_ref \<times> u8 list) option" where
  "dec_owner bs = do { (device, bs) \<leftarrow> r_u64 bs; (inc, bs) \<leftarrow> r_u64 bs; Some (OwnerRef device inc, bs) }"

definition decode_resource :: "u8 list \<Rightarrow> (resource_state \<times> u8 list) option" where
  "decode_resource bs = do {
     (kind, bs) \<leftarrow> r_u8 bs; (id', bs) \<leftarrow> r_u64 bs; (elig, bs) \<leftarrow> r_u8 bs; (av, bs) \<leftarrow> r_u8 bs;
     (known, bs) \<leftarrow> r_boolean bs; (cap, bs) \<leftarrow> r_u64 bs; (oblig, bs) \<leftarrow> r_u64 bs;
     (maint, bs) \<leftarrow> r_boolean bs; (n, bs) \<leftarrow> r_count kMaxOwnersPerResource bs;
     (owners, bs) \<leftarrow> dec_many dec_owner n bs;
     Some (\<lparr>rs_ref = ResourceRef (ResourceKind kind) id', rs_eligibility = Eligibility elig,
            rs_availability = Availability av, rs_capacity_known = known, rs_capacity = cap,
            rs_obligated = oblig, rs_maintenance = maint, rs_owners = owners\<rparr>, bs) }"

definition dec_device_record :: "u8 list \<Rightarrow> (device_record \<times> u8 list) option" where
  "dec_device_record bs = do {
     (id', bs) \<leftarrow> r_u64 bs; (role, bs) \<leftarrow> r_u8 bs; (inc, bs) \<leftarrow> r_u64 bs; (cap, bs) \<leftarrow> r_u64 bs;
     (known, bs) \<leftarrow> r_boolean bs; (elig, bs) \<leftarrow> r_u8 bs; (av, bs) \<leftarrow> r_u8 bs;
     Some (\<lparr>d_id = id', d_role = DeviceRole role, d_incarnation = inc, d_capacity = cap,
            d_capacity_known = known, d_eligibility = Eligibility elig,
            d_availability = Availability av\<rparr>, bs) }"

definition dec_port_record :: "u8 list \<Rightarrow> (port_record \<times> u8 list) option" where
  "dec_port_record bs = do {
     (id', bs) \<leftarrow> r_u64 bs; (device, bs) \<leftarrow> r_u64 bs; (index, bs) \<leftarrow> r_u16 bs; (role, bs) \<leftarrow> r_u8 bs;
     (cap, bs) \<leftarrow> r_u64 bs; (known, bs) \<leftarrow> r_boolean bs; (av, bs) \<leftarrow> r_u8 bs; (admin, bs) \<leftarrow> r_u8 bs;
     (elig, bs) \<leftarrow> r_u8 bs;
     Some (\<lparr>p_id = id', p_device = device, p_index = index, p_role = PortRole role, p_capacity = cap,
            p_capacity_known = known, p_availability = Availability av, p_admin = AdminState admin,
            p_eligibility = Eligibility elig\<rparr>, bs) }"

definition dec_link_record :: "u8 list \<Rightarrow> (link_record \<times> u8 list) option" where
  "dec_link_record bs = do {
     (id', bs) \<leftarrow> r_u64 bs; (pa, bs) \<leftarrow> r_u64 bs; (pb, bs) \<leftarrow> r_u64 bs; (kind, bs) \<leftarrow> r_u8 bs;
     (cap, bs) \<leftarrow> r_u64 bs; (known, bs) \<leftarrow> r_boolean bs; (av, bs) \<leftarrow> r_u8 bs; (elig, bs) \<leftarrow> r_u8 bs;
     Some (\<lparr>l_id = id', l_port_a = pa, l_port_b = pb, l_kind = LinkKind kind, l_capacity = cap,
            l_capacity_known = known, l_availability = Availability av,
            l_eligibility = Eligibility elig\<rparr>, bs) }"

definition dec_attachment_record :: "u8 list \<Rightarrow> (attachment_record \<times> u8 list) option" where
  "dec_attachment_record bs = do {
     (id', bs) \<leftarrow> r_u64 bs; (device, bs) \<leftarrow> r_u64 bs; (port, bs) \<leftarrow> r_u64 bs;
     (host_key, bs) \<leftarrow> r_text kMaxTextField bs; (elig, bs) \<leftarrow> r_u8 bs;
     Some (\<lparr>a_id = id', a_device = device, a_port = port, a_host_key = host_key,
            a_eligibility = Eligibility elig\<rparr>, bs) }"

definition dec_maintenance_record :: "u8 list \<Rightarrow> (maintenance_record \<times> u8 list) option" where
  "dec_maintenance_record bs = do {
     (action, bs) \<leftarrow> r_u8 bs; (kind, bs) \<leftarrow> r_u8 bs; (id', bs) \<leftarrow> r_u64 bs; (src, bs) \<leftarrow> r_u64 bs;
     (seq, bs) \<leftarrow> r_u64 bs; (reason, bs) \<leftarrow> r_text kMaxTextField bs;
     Some (\<lparr>m_action = MaintenanceKind action, m_target = ResourceRef (ResourceKind kind) id',
            m_reason = reason, m_source = src, m_sequence = seq\<rparr>, bs) }"

definition dec_obligation_record :: "u8 list \<Rightarrow> (obligation_record \<times> u8 list) option" where
  "dec_obligation_record bs = do {
     (id', bs) \<leftarrow> r_u64 bs; (kind, bs) \<leftarrow> r_u8 bs; (tid, bs) \<leftarrow> r_u64 bs; (cap, bs) \<leftarrow> r_u64 bs;
     (holder, bs) \<leftarrow> r_u64 bs; (src, bs) \<leftarrow> r_u64 bs; (auth, bs) \<leftarrow> r_text kMaxTextField bs;
     Some (\<lparr>o_id = id', o_target = ResourceRef (ResourceKind kind) tid, o_capacity = cap,
            o_holder = holder, o_authority = auth, o_source = src\<rparr>, bs) }"

definition dec_diagnostic :: "u8 list \<Rightarrow> (diagnostic \<times> u8 list) option" where
  "dec_diagnostic bs = do {
     (kind, bs) \<leftarrow> r_u8 bs; (subject_kind, bs) \<leftarrow> r_u8 bs; (subject_id, bs) \<leftarrow> r_u64 bs;
     (src, bs) \<leftarrow> r_u64 bs; (detail, bs) \<leftarrow> r_text kMaxDiagnosticDetail bs;
     Some (Diagnostic (DiagnosticKind kind) (EvidenceKind subject_kind) subject_id src detail, bs) }"

definition dec_path_ends :: "u8 list \<Rightarrow> ((u64 \<times> u64 \<times> u64) \<times> u8 list) option" where
  "dec_path_ends bs = do {
     (id', bs) \<leftarrow> r_u64 bs; (s, bs) \<leftarrow> r_u64 bs; (e, bs) \<leftarrow> r_u64 bs; Some ((id', s, e), bs) }"

definition dec_path_tail :: "u8 list \<Rightarrow> ((u64 \<times> bool \<times> u8) \<times> u8 list) option" where
  "dec_path_tail bs = do {
     (bottleneck, bs) \<leftarrow> r_u64 bs; (known, bs) \<leftarrow> r_boolean bs; (elig, bs) \<leftarrow> r_u8 bs;
     Some ((bottleneck, known, elig), bs) }"

definition decode_path :: "u8 list \<Rightarrow> (path_record \<times> u8 list) result" where
  "decode_path bs =
     or_fail (dec_path_ends bs) kTruncated ''path record is truncated'' (\<lambda>((id', s, e), bs).
     or_fail (r_count (cl_max_links default_compose_limits) bs) kMalformedEncoding
       ''path link count exceeds its bound'' (\<lambda>(n, bs).
     or_fail (dec_many r_u64 n bs) kTruncated ''path link list is truncated'' (\<lambda>(links, bs).
     or_fail (dec_path_tail bs) kTruncated ''path record is truncated'' (\<lambda>((bottleneck, known, elig), bs).
     Inr (\<lparr>pa_id = id', pa_start_port = s, pa_end_port = e, pa_links = links,
           pa_bottleneck = bottleneck, pa_bottleneck_known = known,
           pa_eligibility = Eligibility elig\<rparr>, bs)))))"

text \<open>A counted list: the count against its bound, then the elements, each refusing on its own.\<close>

fun decode_many :: "(u8 list \<Rightarrow> ('a \<times> u8 list) result) \<Rightarrow> nat \<Rightarrow> u8 list \<Rightarrow> ('a list \<times> u8 list) result" where
  "decode_many d 0 bs = Inr ([], bs)"
| "decode_many d (Suc n) bs =
     rnf_try (d bs) (\<lambda>(x, bs). rnf_try (decode_many d n bs) (\<lambda>(xs, bs). Inr (x # xs, bs)))"

definition decode_list ::
  "nat \<Rightarrow> string \<Rightarrow> (u8 list \<Rightarrow> ('a \<times> u8 list) result) \<Rightarrow> u8 list \<Rightarrow> ('a list \<times> u8 list) result" where
  "decode_list max_count detail d bs =
     or_fail (r_count max_count bs) kMalformedEncoding detail (\<lambda>(n, bs). decode_many d n bs)"

definition truncated :: "string \<Rightarrow> (u8 list \<Rightarrow> ('a \<times> u8 list) option) \<Rightarrow> u8 list \<Rightarrow> ('a \<times> u8 list) result" where
  "truncated detail d bs = or_fail (d bs) kTruncated detail Inr"

definition dec_snapshot_header ::
  "u8 list \<Rightarrow> ((u64 \<times> u64 \<times> u64 \<times> u8 \<times> digest \<times> digest) \<times> u8 list) option" where
  "dec_snapshot_header bs = do {
     (rack, bs) \<leftarrow> r_u64 bs; (generation, bs) \<leftarrow> r_u64 bs; (epoch, bs) \<leftarrow> r_u64 bs;
     (lifecycle, bs) \<leftarrow> r_u8 bs; (ev, bs) \<leftarrow> r_digest bs; (ms, bs) \<leftarrow> r_digest bs;
     Some ((rack, generation, epoch, lifecycle, ev, ms), bs) }"

definition dec_capacity_ledger :: "u8 list \<Rightarrow> (capacity_ledger \<times> u8 list) option" where
  "dec_capacity_ledger bs = do {
     (total, bs) \<leftarrow> r_u64 bs; (unavail, bs) \<leftarrow> r_u64 bs; (usable, bs) \<leftarrow> r_u64 bs;
     (oblig, bs) \<leftarrow> r_u64 bs; (headroom, bs) \<leftarrow> r_u64 bs; (uncommitted, bs) \<leftarrow> r_u64 bs;
     (deficit, bs) \<leftarrow> r_u64 bs;
     Some (\<lparr>k_total = total, k_unavailable = unavail, k_usable = usable, k_obligated = oblig,
            k_headroom_floor = headroom, k_uncommitted = uncommitted, k_deficit = deficit\<rparr>, bs) }"

definition decode_snapshot :: "u8 list \<Rightarrow> snapshot_data result" where
  "decode_snapshot bs =
     or_fail (dec_snapshot_header bs) kTruncated ''snapshot header is truncated''
       (\<lambda>((rack, generation, epoch, lifecycle, ev, ms), bs).
     or_fail (dec_capacity_ledger bs) kTruncated ''capacity ledger is truncated'' (\<lambda>(cap, bs).
     rnf_try (decode_list (cl_max_devices default_compose_limits) ''device count exceeds its bound''
       (truncated ''device record is truncated'' dec_device_record) bs) (\<lambda>(devices, bs).
     rnf_try (decode_list (cl_max_ports default_compose_limits) ''port count exceeds its bound''
       (truncated ''port record is truncated'' dec_port_record) bs) (\<lambda>(ports, bs).
     rnf_try (decode_list (cl_max_links default_compose_limits) ''link count exceeds its bound''
       (truncated ''link record is truncated'' dec_link_record) bs) (\<lambda>(links, bs).
     rnf_try (decode_list (cl_max_attachments default_compose_limits) ''attachment count exceeds its bound''
       (truncated ''attachment record is truncated'' dec_attachment_record) bs) (\<lambda>(attachments, bs).
     rnf_try (decode_list (cl_max_paths default_compose_limits) ''path count exceeds its bound''
       decode_path bs) (\<lambda>(paths, bs).
     rnf_try (decode_list (cl_max_maintenance default_compose_limits) ''maintenance count exceeds its bound''
       (truncated ''maintenance record is truncated'' dec_maintenance_record) bs) (\<lambda>(maintenance, bs).
     rnf_try (decode_list (cl_max_obligations default_compose_limits) ''obligation count exceeds its bound''
       (truncated ''obligation record is truncated'' dec_obligation_record) bs) (\<lambda>(obligations, bs).
     rnf_try (decode_list
         (cl_max_ports default_compose_limits + cl_max_links default_compose_limits +
          cl_max_paths default_compose_limits + cl_max_devices default_compose_limits + 4)
         ''resource count exceeds its bound''
       (truncated ''resource state is truncated'' decode_resource) bs) (\<lambda>(resources, bs).
     rnf_try (decode_list (cl_max_diagnostics default_compose_limits) ''diagnostic count exceeds its bound''
       (truncated ''diagnostic record is truncated'' dec_diagnostic) bs) (\<lambda>(diagnostics, bs).
     if bs \<noteq> [] then fail kMalformedEncoding ''trailing bytes after snapshot payload''
     else if \<not> closes cap then fail kIntegrityFailure ''decoded capacity ledger does not close''
     else Inr \<lparr>sd_rack = rack, sd_generation = generation, sd_epoch = epoch,
            sd_lifecycle = LifecycleState lifecycle, sd_evidence_digest = ev, sd_member_set_digest = ms,
            sd_capacity = cap, sd_devices = devices, sd_ports = ports, sd_links = links,
            sd_attachments = attachments, sd_paths = paths, sd_maintenance = maintenance,
            sd_obligations = obligations, sd_resources = resources,
            sd_diagnostics = diagnostics\<rparr>)))))))))))"

section \<open>The snapshot handle\<close>

text \<open>
  A shared pointer to immutable data, possibly null, and a digest. An empty handle reads as the
  default constructed data.
\<close>

record snapshot =
  sn_ptr :: "snapshot_data option"
  sn_digest :: digest

definition snapshot_valid :: "snapshot \<Rightarrow> bool" where
  "snapshot_valid s \<longleftrightarrow> sn_ptr s \<noteq> None"

definition sn_data :: "snapshot \<Rightarrow> snapshot_data" where
  "sn_data s = (case sn_ptr s of Some d \<Rightarrow> d | None \<Rightarrow> empty_snapshot_data)"

definition snapshot_encode :: "snapshot \<Rightarrow> u8 list result" where
  "snapshot_encode s =
     (case sn_ptr s of
        None \<Rightarrow> fail kInvalidArgument ''snapshot handle is empty''
      | Some d \<Rightarrow> encode_snapshot_bytes d (cl_max_encoded_snapshot default_compose_limits))"

definition find_resource :: "snapshot \<Rightarrow> resource_ref \<Rightarrow> resource_state option" where
  "find_resource s r = find_sorted rs_ref r (sd_resources (sn_data s))"

definition find_device :: "snapshot \<Rightarrow> device_id \<Rightarrow> device_record option" where
  "find_device s i = find_sorted d_id i (sd_devices (sn_data s))"

definition find_port :: "snapshot \<Rightarrow> port_id \<Rightarrow> port_record option" where
  "find_port s i = find_sorted p_id i (sd_ports (sn_data s))"

definition find_link :: "snapshot \<Rightarrow> link_id \<Rightarrow> link_record option" where
  "find_link s i = find_sorted l_id i (sd_links (sn_data s))"

definition find_path :: "snapshot \<Rightarrow> path_id \<Rightarrow> path_record option" where
  "find_path s i = find_sorted pa_id i (sd_paths (sn_data s))"

definition find_attachment :: "snapshot \<Rightarrow> attachment_id \<Rightarrow> attachment_record option" where
  "find_attachment s i = find_sorted a_id i (sd_attachments (sn_data s))"

section \<open>Capacity identities\<close>

lemma closes_iff:
  "closes c \<longleftrightarrow>
     unat (k_total c) = unat (k_unavailable c) + unat (k_usable c) \<and>
     unat (k_usable c) + unat (k_deficit c) =
       unat (k_obligated c) + unat (k_headroom_floor c) + unat (k_uncommitted c) \<and>
     unat (k_usable c) + unat (k_deficit c) < 2 ^ 64"
proof -
  have add: "checked_add_u64 a b = (if unat a + unat b < 2 ^ 64 then Some (a + b) else None)" for a b
    using checked_add_u64_None_iff [of a b] by (auto simp: checked_add_u64_def)
  have un: "unat (a + b) = unat a + unat b" if "unat a + unat b < 2 ^ 64" for a b :: u64
    using that by (simp add: unat_plus_if')
  show ?thesis
    using unat_u64_lt [of "k_total c"]
    by (auto simp: closes_def add un word_unat_eq_iff split: if_splits)
qed

end
