(* ===== verification/Rnf_Snapshot_Codec.thy ===== *)
theory Rnf_Snapshot_Codec
  imports Rnf_Snapshot
begin

text \<open>
  The snapshot encoding is canonical. Every record of a snapshot is a codec, a counted list of
  codecs is a codec, and so the whole: within the bounds the decoder returns exactly the data that
  was encoded, and whatever it accepts is the encoding of what it returns.
\<close>

section \<open>Counted lists\<close>

definition to_opt :: "'a result \<Rightarrow> 'a option" where
  "to_opt r = (case r of Inl _ \<Rightarrow> None | Inr x \<Rightarrow> Some x)"

lemma to_opt_Some_iff [simp]: "to_opt r = Some x \<longleftrightarrow> r = Inr x"
  by (cases r) (simp_all add: to_opt_def)

lemma to_opt_simps [simp]: "to_opt (Inl s) = None" "to_opt (Inr x) = Some x"
  by (simp_all add: to_opt_def)

lemma to_opt_truncated [simp]: "to_opt (truncated m d bs) = d bs"
  by (cases "d bs") (simp_all add: truncated_def)

lemma to_opt_decode_many: "to_opt (decode_many d n bs) = dec_many (\<lambda>bs. to_opt (d bs)) n bs"
proof (induction n arbitrary: bs)
  case 0
  show ?case by simp
next
  case (Suc n)
  show ?case
  proof (cases "d bs")
    case (Inr p)
    obtain x t where p: "p = (x, t)" by (cases p)
    from Suc.IH [of t, symmetric] Inr p show ?thesis
      by (cases "decode_many d n t") (simp_all add: split_beta)
  qed simp
qed

lemma counted_codec:
  assumes "codec e (\<lambda>bs. to_opt (d bs)) ok" "m < 2 ^ 32"
  shows "codec (\<lambda>xs. store_le 4 (of_nat (length xs) :: u32) @ enc_many e xs)
           (\<lambda>bs. to_opt (decode_list m msg d bs)) (\<lambda>xs. length xs \<le> m \<and> (\<forall>x\<in>set xs. ok x))"
proof
  fix xs t
  assume "length xs \<le> m \<and> (\<forall>x\<in>set xs. ok x)"
  then show "to_opt (decode_list m msg d ((store_le 4 (of_nat (length xs) :: u32) @ enc_many e xs) @ t)) =
      Some (xs, t)"
    using codec.dec_enc [OF count_codec [OF assms(2)], of "length xs" "enc_many e xs @ t"]
      codec.dec_many_enc_many [OF assms(1), of xs t]
    by (simp add: decode_list_def to_opt_decode_many [symmetric])
next
  fix bs xs t
  assume "to_opt (decode_list m msg d bs) = Some (xs, t)"
  then obtain n u where "r_count m bs = Some (n, u)" "decode_many d n u = Inr (xs, t)"
    by (auto simp: decode_list_def or_fail_Inr_iff)
  then have "n \<le> m \<and> bs = store_le 4 (of_nat n :: u32) @ u"
    "length xs = n \<and> (\<forall>x\<in>set xs. ok x) \<and> u = enc_many e xs @ t"
    using codec.dec_sound [OF count_codec [OF assms(2)]] codec.dec_many_sound [OF assms(1), of n u xs t]
    by (auto simp: to_opt_decode_many [symmetric])
  then show "(length xs \<le> m \<and> (\<forall>x\<in>set xs. ok x)) \<and>
      bs = (store_le 4 (of_nat (length xs) :: u32) @ enc_many e xs) @ t"
    by simp
qed

lemma calls_bytes_counted:
  "calls_bytes (counted_calls f xs) =
     store_le 4 (of_nat (length xs) :: u32) @ enc_many (\<lambda>x. calls_bytes (f x)) xs"
  by (simp add: counted_calls_def enc_many_def map_concat comp_def) (induction xs; simp)

lemma calls_bytes_concat: "calls_bytes (concat (map f xs)) = enc_many (\<lambda>x. calls_bytes (f x)) xs"
  by (induction xs) simp_all

section \<open>The records\<close>

abbreviation call_codec ::
  "('a \<Rightarrow> writer_call list) \<Rightarrow> (u8 list \<Rightarrow> ('a \<times> u8 list) option) \<Rightarrow> ('a \<Rightarrow> bool) \<Rightarrow> bool" where
  "call_codec calls d ok \<equiv> codec (\<lambda>x. calls_bytes (calls x)) d ok"

lemmas text_field_facts = r_text_dec_enc [of kMaxTextField] r_text_dec_enc [of kMaxDiagnosticDetail]

lemma text_bounds [simp]: "kMaxTextField < 4294967296" "kMaxDiagnosticDetail < 4294967296"
  by (simp_all add: kMaxTextField_def kMaxDiagnosticDetail_def)

lemma owner_codec: "call_codec owner_calls dec_owner (\<lambda>_. True)"
  by unfold_locales
    (auto simp: owner_calls_def dec_owner_def codec_simps Option.bind_eq_Some_conv dest!: dec_sound_basic)

lemma device_codec: "call_codec device_calls dec_device_record (\<lambda>_. True)"
  by unfold_locales
    (auto simp: device_calls_def dec_device_record_def codec_simps Option.bind_eq_Some_conv
      dest!: dec_sound_basic)

lemma port_codec: "call_codec port_calls dec_port_record (\<lambda>_. True)"
  by unfold_locales
    (auto simp: port_calls_def dec_port_record_def codec_simps Option.bind_eq_Some_conv
      dest!: dec_sound_basic)

lemma link_codec: "call_codec link_calls dec_link_record (\<lambda>_. True)"
  by unfold_locales
    (auto simp: link_calls_def dec_link_record_def codec_simps Option.bind_eq_Some_conv
      dest!: dec_sound_basic)

lemma attachment_codec:
  "call_codec attachment_calls dec_attachment_record (\<lambda>a. text_ok kMaxTextField (a_host_key a))"
  by unfold_locales
    (auto simp: attachment_calls_def dec_attachment_record_def codec_simps text_field_facts
      Option.bind_eq_Some_conv call_bytes_text simp del: call_bytes.simps(8)
      dest!: dec_sound_basic textc.dec_sound)

lemma maintenance_codec:
  "call_codec maintenance_calls dec_maintenance_record (\<lambda>m. text_ok kMaxTextField (m_reason m))"
  by unfold_locales
    (auto simp: maintenance_calls_def dec_maintenance_record_def codec_simps text_field_facts
      Option.bind_eq_Some_conv call_bytes_text simp del: call_bytes.simps(8)
      dest!: dec_sound_basic textc.dec_sound)

lemma obligation_codec:
  "call_codec obligation_calls dec_obligation_record (\<lambda>r. text_ok kMaxTextField (o_authority r))"
  by unfold_locales
    (auto simp: obligation_calls_def dec_obligation_record_def codec_simps text_field_facts
      Option.bind_eq_Some_conv call_bytes_text simp del: call_bytes.simps(8)
      dest!: dec_sound_basic textc.dec_sound)

lemma diagnostic_codec:
  "call_codec diagnostic_calls dec_diagnostic (\<lambda>g. text_ok kMaxDiagnosticDetail (dg_detail g))"
  by unfold_locales
    (auto simp: diagnostic_calls_def dec_diagnostic_def codec_simps text_field_facts
      Option.bind_eq_Some_conv call_bytes_text simp del: call_bytes.simps(8)
      dest!: dec_sound_basic r_text_sound [rotated])

lemma resource_codec:
  "call_codec resource_calls decode_resource (\<lambda>s. length (rs_owners s) \<le> kMaxOwnersPerResource)"
proof -
  have m: "kMaxOwnersPerResource < 2 ^ 32" by (simp add: kMaxOwnersPerResource_def)
  note many = codec.dec_many_enc_many [OF owner_codec] codec.dec_enc [OF count_codec [OF m]]
  note sound = codec.dec_many_sound [OF owner_codec] codec.dec_sound [OF count_codec [OF m]]
  show ?thesis
    by unfold_locales
      (auto simp: resource_calls_def decode_resource_def codec_simps many calls_bytes_concat
        Option.bind_eq_Some_conv dest!: dec_sound_basic sound)
qed

lemma path_codec:
  "call_codec path_calls (\<lambda>bs. to_opt (decode_path bs))
     (\<lambda>p. length (pa_links p) \<le> cl_max_links default_compose_limits)"
proof -
  have m: "cl_max_links default_compose_limits < 2 ^ 32" by (simp add: default_compose_limits_def)
  have links: "concat (map (call_bytes \<circ> W_u64) xs) = enc_many (store_le 8) xs" for xs
    by (induction xs) simp_all
  note many = codec.dec_many_enc_many [OF u64c.codec_axioms] codec.dec_enc [OF count_codec [OF m]]
  note sound = codec.dec_many_sound [OF u64c.codec_axioms] codec.dec_sound [OF count_codec [OF m]]
  show ?thesis
    by unfold_locales
      (auto simp: path_calls_def decode_path_def dec_path_ends_def dec_path_tail_def codec_simps many
        links Option.bind_eq_Some_conv or_fail_Inr_iff
        dest!: dec_sound_basic sound)
qed

section \<open>The whole snapshot\<close>

definition snapshot_ok :: "snapshot_data \<Rightarrow> bool" where
  "snapshot_ok d \<longleftrightarrow>
     length (sd_evidence_digest d) = 32 \<and> length (sd_member_set_digest d) = 32 \<and>
     closes (sd_capacity d) \<and>
     length (sd_devices d) \<le> cl_max_devices default_compose_limits \<and>
     length (sd_ports d) \<le> cl_max_ports default_compose_limits \<and>
     length (sd_links d) \<le> cl_max_links default_compose_limits \<and>
     length (sd_attachments d) \<le> cl_max_attachments default_compose_limits \<and>
     (\<forall>a\<in>set (sd_attachments d). text_ok kMaxTextField (a_host_key a)) \<and>
     length (sd_paths d) \<le> cl_max_paths default_compose_limits \<and>
     (\<forall>p\<in>set (sd_paths d). length (pa_links p) \<le> cl_max_links default_compose_limits) \<and>
     length (sd_maintenance d) \<le> cl_max_maintenance default_compose_limits \<and>
     (\<forall>m\<in>set (sd_maintenance d). text_ok kMaxTextField (m_reason m)) \<and>
     length (sd_obligations d) \<le> cl_max_obligations default_compose_limits \<and>
     (\<forall>r\<in>set (sd_obligations d). text_ok kMaxTextField (o_authority r)) \<and>
     length (sd_resources d) \<le> cl_max_ports default_compose_limits + cl_max_links default_compose_limits +
       cl_max_paths default_compose_limits + cl_max_devices default_compose_limits + 4 \<and>
     (\<forall>s\<in>set (sd_resources d). length (rs_owners s) \<le> kMaxOwnersPerResource) \<and>
     length (sd_diagnostics d) \<le> cl_max_diagnostics default_compose_limits \<and>
     (\<forall>g\<in>set (sd_diagnostics d). text_ok kMaxDiagnosticDetail (dg_detail g))"

definition snapshot_bytes :: "snapshot_data \<Rightarrow> u8 list" where
  "snapshot_bytes d = calls_bytes (snapshot_calls d)"

lemma list_codec:
  assumes "call_codec calls d ok" "m < 2 ^ 32"
  shows "call_codec (counted_calls calls) (\<lambda>bs. to_opt (decode_list m msg (truncated msg' d) bs))
           (\<lambda>xs. length xs \<le> m \<and> (\<forall>x\<in>set xs. ok x))"
  unfolding calls_bytes_counted by (rule counted_codec) (use assms in simp_all)

lemma header_codec:
  "codec (\<lambda>(rack, generation, epoch, lifecycle, ev, ms).
       calls_bytes [W_u64 rack, W_u64 generation, W_u64 epoch, W_u8 lifecycle, W_digest ev, W_digest ms])
     dec_snapshot_header (\<lambda>(rack, generation, epoch, lifecycle, ev, ms). length ev = 32 \<and> length ms = 32)"
  by unfold_locales
    (auto simp: dec_snapshot_header_def codec_simps Option.bind_eq_Some_conv dest!: dec_sound_basic)

lemma ledger_codec: "call_codec capacity_calls dec_capacity_ledger (\<lambda>_. True)"
  by unfold_locales
    (auto simp: capacity_calls_def dec_capacity_ledger_def codec_simps Option.bind_eq_Some_conv
      dest!: dec_sound_basic)

lemma limit_bounds:
  "cl_max_devices default_compose_limits < 2 ^ 32" "cl_max_ports default_compose_limits < 2 ^ 32"
  "cl_max_links default_compose_limits < 2 ^ 32" "cl_max_attachments default_compose_limits < 2 ^ 32"
  "cl_max_paths default_compose_limits < 2 ^ 32" "cl_max_maintenance default_compose_limits < 2 ^ 32"
  "cl_max_obligations default_compose_limits < 2 ^ 32"
  "cl_max_ports default_compose_limits + cl_max_links default_compose_limits +
     cl_max_paths default_compose_limits + cl_max_devices default_compose_limits + 4 < 2 ^ 32"
  "cl_max_diagnostics default_compose_limits < 2 ^ 32"
  by (simp_all add: default_compose_limits_def)

lemma path_list_codec:
  "call_codec (counted_calls path_calls)
     (\<lambda>bs. to_opt (decode_list (cl_max_paths default_compose_limits) msg decode_path bs))
     (\<lambda>xs. length xs \<le> cl_max_paths default_compose_limits \<and>
        (\<forall>p\<in>set xs. length (pa_links p) \<le> cl_max_links default_compose_limits))"
  unfolding calls_bytes_counted by (rule counted_codec [OF path_codec limit_bounds(5)])

lemmas section_codecs =
  header_codec ledger_codec list_codec [OF device_codec limit_bounds(1)]
  list_codec [OF port_codec limit_bounds(2)] list_codec [OF link_codec limit_bounds(3)]
  list_codec [OF attachment_codec limit_bounds(4)] path_list_codec
  list_codec [OF maintenance_codec limit_bounds(6)] list_codec [OF obligation_codec limit_bounds(7)]
  list_codec [OF resource_codec limit_bounds(8)] list_codec [OF diagnostic_codec limit_bounds(9)]

lemmas section_dec_enc = section_codecs [THEN codec.dec_enc]
lemmas section_sound = section_codecs [THEN codec.dec_sound]

lemma snapshot_bytes_split:
  "snapshot_bytes d =
     calls_bytes [W_u64 (sd_rack d), W_u64 (sd_generation d), W_u64 (sd_epoch d),
       W_u8 (ls_byte (sd_lifecycle d)), W_digest (sd_evidence_digest d), W_digest (sd_member_set_digest d)] @
     calls_bytes (capacity_calls (sd_capacity d)) @
     calls_bytes (counted_calls device_calls (sd_devices d)) @
     calls_bytes (counted_calls port_calls (sd_ports d)) @
     calls_bytes (counted_calls link_calls (sd_links d)) @
     calls_bytes (counted_calls attachment_calls (sd_attachments d)) @
     calls_bytes (counted_calls path_calls (sd_paths d)) @
     calls_bytes (counted_calls maintenance_calls (sd_maintenance d)) @
     calls_bytes (counted_calls obligation_calls (sd_obligations d)) @
     calls_bytes (counted_calls resource_calls (sd_resources d)) @
     calls_bytes (counted_calls diagnostic_calls (sd_diagnostics d)) @ []"
  by (simp add: snapshot_bytes_def snapshot_calls_def snapshot_header_calls_def)

lemma section_decode:
  "length ev = 32 \<Longrightarrow> length ms = 32 \<Longrightarrow>
     dec_snapshot_header (calls_bytes [W_u64 rack, W_u64 gen, W_u64 ep, W_u8 lc, W_digest ev, W_digest ms] @ t) =
       Some ((rack, gen, ep, lc, ev, ms), t)"
  "dec_capacity_ledger (calls_bytes (capacity_calls c) @ t) = Some (c, t)"
  using section_dec_enc(1) [of "(rack, gen, ep, lc, ev, ms)" t] section_dec_enc(2) [of c t]
  by simp_all

lemma list_decode:
  assumes "call_codec calls (\<lambda>bs. to_opt (d bs)) ok" "ok xs"
  shows "d (calls_bytes (calls xs) @ t) = Inr (xs, t)"
  using codec.dec_enc [OF assms] by simp

lemma decode_snapshot_bytes:
  assumes ok: "snapshot_ok d"
  shows "decode_snapshot (snapshot_bytes d) = Inr d"
proof -
  note lists = list_decode [OF section_codecs(3)] list_decode [OF section_codecs(4)]
    list_decode [OF section_codecs(5)] list_decode [OF section_codecs(6)]
    list_decode [OF section_codecs(7)] list_decode [OF section_codecs(8)]
    list_decode [OF section_codecs(9)] list_decode [OF section_codecs(10)]
    list_decode [OF section_codecs(11)]
  have okl: "length (sd_evidence_digest d) = 32" "length (sd_member_set_digest d) = 32"
    "closes (sd_capacity d)"
    using ok by (auto simp: snapshot_ok_def)
  have s: "\<And>t. decode_list (cl_max_devices default_compose_limits) ''device count exceeds its bound''
        (truncated ''device record is truncated'' dec_device_record)
        (calls_bytes (counted_calls device_calls (sd_devices d)) @ t) = Inr (sd_devices d, t)"
    "\<And>t. decode_list (cl_max_ports default_compose_limits) ''port count exceeds its bound''
        (truncated ''port record is truncated'' dec_port_record)
        (calls_bytes (counted_calls port_calls (sd_ports d)) @ t) = Inr (sd_ports d, t)"
    "\<And>t. decode_list (cl_max_links default_compose_limits) ''link count exceeds its bound''
        (truncated ''link record is truncated'' dec_link_record)
        (calls_bytes (counted_calls link_calls (sd_links d)) @ t) = Inr (sd_links d, t)"
    "\<And>t. decode_list (cl_max_attachments default_compose_limits) ''attachment count exceeds its bound''
        (truncated ''attachment record is truncated'' dec_attachment_record)
        (calls_bytes (counted_calls attachment_calls (sd_attachments d)) @ t) = Inr (sd_attachments d, t)"
    "\<And>t. decode_list (cl_max_paths default_compose_limits) ''path count exceeds its bound'' decode_path
        (calls_bytes (counted_calls path_calls (sd_paths d)) @ t) = Inr (sd_paths d, t)"
    "\<And>t. decode_list (cl_max_maintenance default_compose_limits) ''maintenance count exceeds its bound''
        (truncated ''maintenance record is truncated'' dec_maintenance_record)
        (calls_bytes (counted_calls maintenance_calls (sd_maintenance d)) @ t) = Inr (sd_maintenance d, t)"
    "\<And>t. decode_list (cl_max_obligations default_compose_limits) ''obligation count exceeds its bound''
        (truncated ''obligation record is truncated'' dec_obligation_record)
        (calls_bytes (counted_calls obligation_calls (sd_obligations d)) @ t) = Inr (sd_obligations d, t)"
    "\<And>t. decode_list (cl_max_ports default_compose_limits + cl_max_links default_compose_limits +
          cl_max_paths default_compose_limits + cl_max_devices default_compose_limits + 4)
        ''resource count exceeds its bound'' (truncated ''resource state is truncated'' decode_resource)
        (calls_bytes (counted_calls resource_calls (sd_resources d)) @ t) = Inr (sd_resources d, t)"
    "\<And>t. decode_list (cl_max_diagnostics default_compose_limits) ''diagnostic count exceeds its bound''
        (truncated ''diagnostic record is truncated'' dec_diagnostic)
        (calls_bytes (counted_calls diagnostic_calls (sd_diagnostics d)) @ t) = Inr (sd_diagnostics d, t)"
    by (rule lists; use ok in \<open>simp add: snapshot_ok_def\<close>)+
  show ?thesis
    unfolding snapshot_bytes_split decode_snapshot_def
    by (simp only: section_decode okl s or_fail_simps rnf_try_simps prod.case simp_thms if_False if_True
        lifecycle_state.collapse) simp
qed

lemma list_sound:
  assumes "call_codec calls (\<lambda>bs. to_opt (d bs)) ok" "d bs = Inr (xs, t)"
  shows "ok xs \<and> bs = calls_bytes (calls xs) @ t"
  using codec.dec_sound [OF assms(1)] assms(2) by simp

lemma decode_snapshot_sound:
  assumes "decode_snapshot bs = Inr d"
  shows "snapshot_ok d \<and> bs = snapshot_bytes d"
proof -
  note lists = list_sound [OF section_codecs(3)] list_sound [OF section_codecs(4)]
    list_sound [OF section_codecs(5)] list_sound [OF section_codecs(6)]
    list_sound [OF section_codecs(7)] list_sound [OF section_codecs(8)]
    list_sound [OF section_codecs(9)] list_sound [OF section_codecs(10)]
    list_sound [OF section_codecs(11)]
  show ?thesis
    using assms unfolding decode_snapshot_def
    by (auto simp: or_fail_Inr_iff rnf_try_Inr_iff snapshot_ok_def snapshot_bytes_split split: if_splits
        dest!: section_sound(1,2) lists)
qed

section \<open>Encoding into a bounded writer\<close>

lemma snapshot_calls_ok:
  assumes "snapshot_ok d"
  shows "calls_ok (snapshot_calls d)"
proof -
  have bound: "length s \<le> m \<Longrightarrow> m < 4294967296 \<Longrightarrow> length s \<le> 4294967295" for s :: string and m by simp
  show ?thesis
    using assms bound [of _ kMaxTextField] bound [of _ kMaxDiagnosticDetail]
    by (auto simp: snapshot_ok_def snapshot_calls_def snapshot_header_calls_def capacity_calls_def
        counted_calls_def device_calls_def port_calls_def link_calls_def attachment_calls_def path_calls_def
        maintenance_calls_def obligation_calls_def resource_calls_def owner_calls_def diagnostic_calls_def
        list_all_iff)
qed

lemma encode_snapshot_bytes_iff:
  "encode_snapshot_bytes d limit = Inr bs \<longleftrightarrow>
     calls_ok (snapshot_calls d) \<and> length (snapshot_bytes d) \<le> limit \<and> bs = snapshot_bytes d"
  using encode_calls_iff [of limit "snapshot_calls d" bs]
  by (auto simp: encode_snapshot_bytes_def encode_snapshot_def encode_calls_def snapshot_bytes_def Let_def
      split: if_splits)

lemma snapshot_digest_ok:
  assumes "snapshot_ok d" "length (snapshot_bytes d) \<le> cl_max_encoded_snapshot default_compose_limits"
  shows "snapshot_digest d = blake2s_hash (snapshot_bytes d)"
proof -
  have "encode_snapshot_bytes d (cl_max_encoded_snapshot default_compose_limits) = Inr (snapshot_bytes d)"
    using assms snapshot_calls_ok by (simp add: encode_snapshot_bytes_iff)
  then show ?thesis
    by (auto simp: encode_snapshot_bytes_def snapshot_digest_def Let_def split: prod.splits if_splits)
qed

lemma snapshot_bytes_inj: "snapshot_ok d \<Longrightarrow> snapshot_ok e \<Longrightarrow> snapshot_bytes d = snapshot_bytes e \<Longrightarrow> d = e"
  by (metis decode_snapshot_bytes sum.inject(2))

section \<open>Properties\<close>

definition sample_snapshot_data :: snapshot_data where
  "sample_snapshot_data = empty_snapshot_data
     \<lparr>sd_rack := 1, sd_generation := 3, sd_lifecycle := LifecycleState_kActive,
      sd_capacity := \<lparr>k_total = 10, k_unavailable = 0, k_usable = 10, k_obligated = 4,
        k_headroom_floor = 1, k_uncommitted = 5, k_deficit = 0\<rparr>,
      sd_devices := [\<lparr>d_id = 5, d_role = DeviceRole_kSwitch, d_incarnation = 7, d_capacity = 10,
        d_capacity_known = True, d_eligibility = Eligibility_kEligible,
        d_availability = Availability_kUp\<rparr>]\<rparr>"

lemma sample_snapshot_ok: "snapshot_ok sample_snapshot_data"
  by (simp add: sample_snapshot_data_def empty_snapshot_data_def snapshot_ok_def closes_iff
      zero_digest_def default_compose_limits_def)

text \<open>
  (C33) The snapshot codec is exact. A byte string decodes to a snapshot if and only if the snapshot is
  within the decoder's bounds, which include that its capacity ledger closes, and the bytes are what the
  encoder writes for it: what was encoded is read back unchanged, and no two byte strings decode to the
  same snapshot.
\<close>
theorem snapshot_codec_exact:
  "decode_snapshot bs = Inr d \<longleftrightarrow> snapshot_ok d \<and> closes (sd_capacity d) \<and> encode_snapshot_bytes d (length bs) = Inr bs"
  using decode_snapshot_sound [of bs d] decode_snapshot_bytes [of d] snapshot_calls_ok [of d]
  by (auto simp: encode_snapshot_bytes_iff snapshot_ok_def)

text \<open>
  The capacity ledger check is exact: it accepts precisely the ledgers whose total splits into
  unavailable and usable capacity, and whose usable capacity plus deficit is the obligated capacity,
  the headroom floor and the uncommitted rest, with no sum beyond 64 bits.
\<close>
theorem capacity_closes_exact:
  "closes c \<longleftrightarrow>
     unat (k_total c) = unat (k_unavailable c) + unat (k_usable c) \<and>
     unat (k_usable c) + unat (k_deficit c) =
       unat (k_obligated c) + unat (k_headroom_floor c) + unat (k_uncommitted c) \<and>
     unat (k_usable c) + unat (k_deficit c) < 2 ^ 64"
  by (rule closes_iff)

text \<open>
  A resource with more owners than the decoder's bound is encoded, but its encoding does not decode
  to the snapshot again.
\<close>

lemma snapshot_owner_bound:
  assumes "s \<in> set (sd_resources d)" "length (rs_owners s) > kMaxOwnersPerResource"
  shows "decode_snapshot (snapshot_bytes d) \<noteq> Inr d"
proof
  assume "decode_snapshot (snapshot_bytes d) = Inr d"
  then have "snapshot_ok d" using decode_snapshot_sound by blast
  with assms show False by (auto simp: snapshot_ok_def)
qed

end
