(* ===== verification/Rnf_Scope.thy ===== *)
theory Rnf_Scope
  imports Rnf_Snapshot_Codec
begin

text \<open>
  \<^verbatim>\<open>compose/scope.cpp\<close>: the resources a scope root stands for in a snapshot, and the merge that decides
  whether two expanded scopes share a resource. Shown here: an expansion is strictly sorted, on every
  kind of root it is exactly the set the source describes, and the merge is exact on sorted scopes.
\<close>

section \<open>Expansion\<close>

definition port_on :: "snapshot \<Rightarrow> port_id \<Rightarrow> device_id \<Rightarrow> bool" where
  "port_on s port device = (case find_port s port of None \<Rightarrow> False | Some p \<Rightarrow> p_device p = device)"

definition expand_rack :: "snapshot_data \<Rightarrow> resource_ref list" where
  "expand_rack d = map rs_ref (sd_resources d)"

definition expand_device :: "snapshot \<Rightarrow> resource_ref \<Rightarrow> resource_ref list" where
  "expand_device s root =
     (let device = ref_id root; d = sn_data s in
      root #
      map (\<lambda>p. ResourceRef ResourceKind_kPort (p_id p)) (filter (\<lambda>p. p_device p = device) (sd_ports d)) @
      map (\<lambda>l. ResourceRef ResourceKind_kLink (l_id l))
        (filter (\<lambda>l. port_on s (l_port_a l) device \<or> port_on s (l_port_b l) device) (sd_links d)) @
      map (\<lambda>a. ResourceRef ResourceKind_kAttachment (a_id a))
        (filter (\<lambda>a. a_device a = device) (sd_attachments d)))"

definition expand_port :: "snapshot \<Rightarrow> resource_ref \<Rightarrow> resource_ref list" where
  "expand_port s root =
     (let port = ref_id root; d = sn_data s in
      root #
      map (\<lambda>l. ResourceRef ResourceKind_kLink (l_id l))
        (filter (\<lambda>l. l_port_a l = port \<or> l_port_b l = port) (sd_links d)) @
      map (\<lambda>a. ResourceRef ResourceKind_kAttachment (a_id a))
        (filter (\<lambda>a. a_port a = port) (sd_attachments d)))"

definition expand_scope :: "snapshot \<Rightarrow> resource_ref \<Rightarrow> resource_ref list result" where
  "expand_scope s root =
     (if \<not> snapshot_valid s then fail kInvalidArgument ''snapshot handle is empty''
      else
        rnf_try
          (if ref_kind root = ResourceKind_kRack then
             if ref_id root \<noteq> sd_rack (sn_data s) then fail kOutOfRack ''scope names a different rack''
             else Inr (expand_rack (sn_data s))
           else if ref_kind root = ResourceKind_kDevice then
             if find_device s (ref_id root) = None
             then fail kNotAMember ''scope names a device that is not a member''
             else Inr (expand_device s root)
           else if ref_kind root = ResourceKind_kPort then
             if find_port s (ref_id root) = None
             then fail kNotAMember ''scope names a port that is not in the rack''
             else Inr (expand_port s root)
           else if ref_kind root = ResourceKind_kLink then
             (case find_link s (ref_id root) of
                None \<Rightarrow> fail kNotAMember ''scope names a link that is not in the rack''
              | Some l \<Rightarrow>
                  Inr [root, ResourceRef ResourceKind_kPort (l_port_a l),
                       ResourceRef ResourceKind_kPort (l_port_b l)])
           else if ref_kind root = ResourceKind_kAttachment then
             if find_attachment s (ref_id root) = None
             then fail kNotAMember ''scope names an attachment that is not in the rack''
             else Inr [root]
           else if ref_kind root = ResourceKind_kPath then
             (case find_path s (ref_id root) of
                None \<Rightarrow> fail kNotAMember ''scope names a path that is not in the rack''
              | Some p \<Rightarrow> Inr (root # map (ResourceRef ResourceKind_kLink) (pa_links p)))
           else Inr [])
          (\<lambda>out. Inr (sort_unique out)))"

section \<open>Intersection\<close>

fun scopes_intersect :: "resource_ref list \<Rightarrow> resource_ref list \<Rightarrow> bool" where
  "scopes_intersect (x # xs) (y # ys) =
     (if x = y then True
      else if x < y then scopes_intersect xs (y # ys)
      else scopes_intersect (x # xs) ys)"
| "scopes_intersect _ _ = False"

lemma scopes_intersect_iff:
  "sorted a \<Longrightarrow> sorted b \<Longrightarrow> scopes_intersect a b \<longleftrightarrow> set a \<inter> set b \<noteq> {}"
proof (induction a b rule: scopes_intersect.induct)
  case (1 x xs y ys)
  consider "x = y" | "x < y" | "y < x" by fastforce
  then show ?case
  proof cases
    case 2
    then have "x \<notin> set (y # ys)" using "1.prems" by auto
    with 2 1 show ?thesis by auto
  next
    case 3
    then have "y \<notin> set (x # xs)" using "1.prems" by auto
    with 3 1 show ?thesis by auto
  qed simp
qed auto

lemma expand_scope_Inr_valid: "expand_scope s root = Inr xs \<Longrightarrow> snapshot_valid s"
  by (simp add: expand_scope_def split: if_splits)

lemma expand_scope_sorted: "expand_scope s root = Inr xs \<Longrightarrow> strict_sorted xs"
  by (auto simp: expand_scope_def rnf_try_Inr_iff split: if_splits)

lemma strict_sorted_imp_sorted': "strict_sorted xs \<Longrightarrow> sorted xs"
  by (simp add: strict_sorted_iff)

lemma scopes_intersect_expand:
  assumes "expand_scope s r = Inr a" "expand_scope t q = Inr b"
  shows "scopes_intersect a b \<longleftrightarrow> set a \<inter> set b \<noteq> {}"
  using assms by (intro scopes_intersect_iff strict_sorted_imp_sorted' expand_scope_sorted)

lemma port_on_iff:
  assumes "strict_sorted (map p_id (sd_ports (sn_data s)))"
  shows "port_on s i device \<longleftrightarrow> (\<exists>p\<in>set (sd_ports (sn_data s)). p_id p = i \<and> p_device p = device)"
proof -
  have "port_on s i device \<longleftrightarrow> (\<exists>p. find_port s i = Some p \<and> p_device p = device)"
    by (cases "find_port s i") (simp_all add: port_on_def)
  also have "\<dots> \<longleftrightarrow> (\<exists>p\<in>set (sd_ports (sn_data s)). p_id p = i \<and> p_device p = device)"
    unfolding find_port_def find_sorted_iff [OF assms] by blast
  finally show ?thesis .
qed

text \<open>What each kind of root expands to, as a set.\<close>

lemma expand_scope_device:
  assumes "snapshot_valid s" "ref_kind root = ResourceKind_kDevice" "find_device s (ref_id root) \<noteq> None"
    and sorted: "strict_sorted (map p_id (sd_ports (sn_data s)))"
  shows "\<exists>xs. expand_scope s root = Inr xs \<and> set xs =
     {root} \<union>
     {ResourceRef ResourceKind_kPort (p_id p) | p.
        p \<in> set (sd_ports (sn_data s)) \<and> p_device p = ref_id root} \<union>
     {ResourceRef ResourceKind_kLink (l_id l) | l. l \<in> set (sd_links (sn_data s)) \<and>
        (\<exists>p\<in>set (sd_ports (sn_data s)). p_device p = ref_id root \<and> p_id p \<in> {l_port_a l, l_port_b l})} \<union>
     {ResourceRef ResourceKind_kAttachment (a_id a) | a.
        a \<in> set (sd_attachments (sn_data s)) \<and> a_device a = ref_id root}"
proof -
  have "expand_scope s root = Inr (sort_unique (expand_device s root))"
    using assms by (simp add: expand_scope_def)
  moreover have "set (expand_device s root) =
     {root} \<union>
     {ResourceRef ResourceKind_kPort (p_id p) | p.
        p \<in> set (sd_ports (sn_data s)) \<and> p_device p = ref_id root} \<union>
     {ResourceRef ResourceKind_kLink (l_id l) | l. l \<in> set (sd_links (sn_data s)) \<and>
        (\<exists>p\<in>set (sd_ports (sn_data s)). p_device p = ref_id root \<and> p_id p \<in> {l_port_a l, l_port_b l})} \<union>
     {ResourceRef ResourceKind_kAttachment (a_id a) | a.
        a \<in> set (sd_attachments (sn_data s)) \<and> a_device a = ref_id root}"
    by (auto simp: expand_device_def Let_def port_on_iff [OF sorted])
  ultimately show ?thesis by simp
qed

text \<open>
  A scope names itself: except for the rack, whose expansion is the snapshot's resource table, every
  successful expansion of a known kind contains its root.
\<close>

lemma expand_scope_root:
  assumes "expand_scope s root = Inr xs" "ref_kind root \<in> snd ` set kResourceKinds"
    "ref_kind root \<noteq> ResourceKind_kRack"
  shows "root \<in> set xs"
  using assms
  by (auto simp: expand_scope_def kResourceKinds_def rnf_try_Inr_iff expand_device_def expand_port_def Let_def
      split: if_splits option.splits)

section \<open>Properties\<close>

text \<open>
  The merge over two expanded scopes answers whether they share a resource, for any two roots and
  snapshots, because every expansion is strictly sorted.
\<close>
theorem scopes_intersect_exact:
  assumes "expand_scope s r = Inr a" "expand_scope t q = Inr b"
  shows "strict_sorted a \<and> strict_sorted b \<and> (scopes_intersect a b \<longleftrightarrow> (\<exists>x. x \<in> set a \<and> x \<in> set b))"
  using scopes_intersect_expand [OF assms] expand_scope_sorted [OF assms(1)] expand_scope_sorted [OF assms(2)]
  by auto

definition sample_rack :: snapshot where
  "sample_rack =
     \<lparr>sn_ptr = Some (empty_snapshot_data\<lparr>sd_rack := 1,
        sd_devices := [\<lparr>d_id = 5, d_role = DeviceRole_kSwitch, d_incarnation = 7, d_capacity = 10,
          d_capacity_known = True, d_eligibility = Eligibility_kEligible, d_availability = Availability_kUp\<rparr>],
        sd_ports := [\<lparr>p_id = 2, p_device = 5, p_index = 0, p_role = PortRole_kAccess, p_capacity = 4,
          p_capacity_known = True, p_availability = Availability_kUp, p_admin = AdminState_kEnabled,
          p_eligibility = Eligibility_kEligible\<rparr>]\<rparr>),
      sn_digest = zero_digest\<rparr>"

lemma sample_rack_expand:
  "expand_scope sample_rack (ResourceRef ResourceKind_kDevice 5) =
     Inr [ResourceRef ResourceKind_kDevice 5, ResourceRef ResourceKind_kPort 2]"
  "expand_scope sample_rack (ResourceRef ResourceKind_kPort 2) = Inr [ResourceRef ResourceKind_kPort 2]"
  by (simp_all add: expand_scope_def sample_rack_def snapshot_valid_def sn_data_def empty_snapshot_data_def
      find_device_def find_port_def find_sorted_def lower_bound_def lower_bound_loop.simps
      expand_device_def expand_port_def sort_unique_def less_eq_resource_ref_def less_eq_resource_kind_def
      less_resource_kind_def)

theorem scopes_intersect_exact_witness:
  "strict_sorted [ResourceRef ResourceKind_kDevice 5, ResourceRef ResourceKind_kPort 2] \<and>
   strict_sorted [ResourceRef ResourceKind_kPort 2] \<and>
   (scopes_intersect [ResourceRef ResourceKind_kDevice 5, ResourceRef ResourceKind_kPort 2]
      [ResourceRef ResourceKind_kPort 2] \<longleftrightarrow>
    (\<exists>x. x \<in> set [ResourceRef ResourceKind_kDevice 5, ResourceRef ResourceKind_kPort 2] \<and>
         x \<in> set [ResourceRef ResourceKind_kPort 2]))"
  by (rule scopes_intersect_exact [OF sample_rack_expand])

end
