(* ===== verification/Rnf_Grant.thy ===== *)
theory Rnf_Grant
  imports Rnf_Scope
begin

text \<open>
  \<^verbatim>\<open>authority/grant\<close>: grants, lease tokens, the grant encoding, the authority basis and the capacity pool
  of a scope. Shown here: the grant codec round trips, the basis is computed from an encoding of the
  epoch and of the state of every resource of the scope that can be read back, so an unchanged basis
  means unchanged resources or a hash collision, and the pool of a scope contains the rack, the root
  and every owner.
\<close>

section \<open>Data\<close>

datatype grant_mode = GrantMode (gm_byte: u8)

abbreviation GrantMode_kShared :: grant_mode where "GrantMode_kShared \<equiv> GrantMode 1"
abbreviation GrantMode_kExclusive :: grant_mode where "GrantMode_kExclusive \<equiv> GrantMode 2"

datatype grant_state = GrantState (gs_byte: u8)

abbreviation GrantState_kPending :: grant_state where "GrantState_kPending \<equiv> GrantState 1"
abbreviation GrantState_kRecovering :: grant_state where "GrantState_kRecovering \<equiv> GrantState 2"
abbreviation GrantState_kActive :: grant_state where "GrantState_kActive \<equiv> GrantState 3"
abbreviation GrantState_kSuspended :: grant_state where "GrantState_kSuspended \<equiv> GrantState 4"
abbreviation GrantState_kReleased :: grant_state where "GrantState_kReleased \<equiv> GrantState 5"
abbreviation GrantState_kExpired :: grant_state where "GrantState_kExpired \<equiv> GrantState 6"
abbreviation GrantState_kFenced :: grant_state where "GrantState_kFenced \<equiv> GrantState 7"

definition grant_mode_to_string :: "grant_mode \<Rightarrow> string" where
  "grant_mode_to_string m =
     (if m = GrantMode_kShared then ''shared''
      else if m = GrantMode_kExclusive then ''exclusive''
      else ''unknown'')"

definition grant_state_to_string :: "grant_state \<Rightarrow> string" where
  "grant_state_to_string s =
     (if s = GrantState_kPending then ''pending''
      else if s = GrantState_kRecovering then ''recovering''
      else if s = GrantState_kActive then ''active''
      else if s = GrantState_kSuspended then ''suspended''
      else if s = GrantState_kReleased then ''released''
      else if s = GrantState_kExpired then ''expired''
      else if s = GrantState_kFenced then ''fenced''
      else ''unknown'')"

definition parse_grant_mode :: "string \<Rightarrow> grant_mode option" where
  "parse_grant_mode text =
     (if text = ''shared'' then Some GrantMode_kShared
      else if text = ''exclusive'' then Some GrantMode_kExclusive
      else None)"

record lease_token =
  t_grant :: grant_id
  t_fence :: fencing_token
  t_incarnation :: controller_incarnation
  t_scope_basis :: digest

definition token_to_text :: "lease_token \<Rightarrow> string" where
  "token_to_text t =
     hex64 (t_grant t) @ ''/'' @ to_string_u64 (t_fence t) @ ''/'' @ to_string_u64 (t_incarnation t) @ ''/'' @
     digest_to_hex (t_scope_basis t)"

record grant =
  g_id :: grant_id
  g_request :: request_id
  g_principal :: principal_id
  g_scope :: resource_ref
  g_mode :: grant_mode
  g_capacity :: capacity
  g_generation :: topology_generation
  g_epoch :: rack_epoch
  g_incarnation :: controller_incarnation
  g_fence :: fencing_token
  g_issued_at_ms :: timestamp_ms
  g_expires_at_ms :: timestamp_ms
  g_state :: grant_state
  g_authority_basis :: digest
  g_capacity_pool :: "resource_ref list"
  g_reason :: string

definition grant_token :: "grant \<Rightarrow> lease_token" where
  "grant_token g =
     \<lparr>t_grant = g_id g, t_fence = g_fence g, t_incarnation = g_incarnation g,
      t_scope_basis = g_authority_basis g\<rparr>"

record grant_request =
  q_request :: request_id
  q_principal :: principal_id
  q_scope :: resource_ref
  q_mode :: grant_mode
  q_capacity :: capacity
  q_ttl_ms :: u64

section \<open>Encoding\<close>

definition kMaxPoolRefs :: nat where "kMaxPoolRefs = 64"
definition kMaxReasonText :: nat where "kMaxReasonText = 128"

definition ref_calls :: "resource_ref \<Rightarrow> writer_call list" where
  "ref_calls r = [W_u8 (rk_byte (ref_kind r)), W_u64 (ref_id r)]"

definition grant_calls :: "grant \<Rightarrow> writer_call list" where
  "grant_calls g =
     [W_u64 (g_id g), W_u64 (req_hi (g_request g)), W_u64 (req_lo (g_request g)), W_u64 (g_principal g),
      W_u8 (rk_byte (ref_kind (g_scope g))), W_u64 (ref_id (g_scope g)), W_u8 (gm_byte (g_mode g)),
      W_u64 (g_capacity g), W_u64 (g_generation g), W_u64 (g_epoch g), W_u64 (g_incarnation g),
      W_u64 (g_fence g), W_u64 (g_issued_at_ms g), W_u64 (g_expires_at_ms g), W_u8 (gs_byte (g_state g)),
      W_digest (g_authority_basis g)] @
     counted_calls ref_calls (g_capacity_pool g) @
     [W_text (g_reason g) kMaxReasonText]"

definition encode_grant :: "grant \<Rightarrow> byte_writer \<Rightarrow> status \<times> byte_writer" where
  "encode_grant g w =
     (let w = write_all (grant_calls g) w in
      if \<not> bw_ok w then (Status kOversizeField ''grant record exceeds its encoding bound'', w)
      else (ok_status, w))"

definition dec_grant_fields :: "u8 list \<Rightarrow> (grant \<times> u8 list) option" where
  "dec_grant_fields bs = do {
     (id', bs) \<leftarrow> r_u64 bs; (hi, bs) \<leftarrow> r_u64 bs; (lo, bs) \<leftarrow> r_u64 bs; (principal, bs) \<leftarrow> r_u64 bs;
     (kind, bs) \<leftarrow> r_u8 bs; (scope_id, bs) \<leftarrow> r_u64 bs; (mode, bs) \<leftarrow> r_u8 bs; (cap, bs) \<leftarrow> r_u64 bs;
     (gen, bs) \<leftarrow> r_u64 bs; (epoch, bs) \<leftarrow> r_u64 bs; (inc, bs) \<leftarrow> r_u64 bs; (fence, bs) \<leftarrow> r_u64 bs;
     (issued, bs) \<leftarrow> r_u64 bs; (expires, bs) \<leftarrow> r_u64 bs; (state, bs) \<leftarrow> r_u8 bs;
     (basis, bs) \<leftarrow> r_digest bs;
     Some (\<lparr>g_id = id', g_request = RequestId hi lo, g_principal = principal,
            g_scope = ResourceRef (ResourceKind kind) scope_id, g_mode = GrantMode mode,
            g_capacity = cap, g_generation = gen, g_epoch = epoch, g_incarnation = inc, g_fence = fence,
            g_issued_at_ms = issued, g_expires_at_ms = expires, g_state = GrantState state,
            g_authority_basis = basis, g_capacity_pool = [], g_reason = []\<rparr>, bs) }"

definition dec_ref :: "u8 list \<Rightarrow> (resource_ref \<times> u8 list) option" where
  "dec_ref bs = do { (kind, bs) \<leftarrow> r_u8 bs; (i, bs) \<leftarrow> r_u64 bs; Some (ResourceRef (ResourceKind kind) i, bs) }"

definition decode_grant :: "u8 list \<Rightarrow> (grant \<times> u8 list) result" where
  "decode_grant bs =
     or_fail (dec_grant_fields bs) kTruncated ''grant record is truncated'' (\<lambda>(g, bs).
     rnf_try (decode_list kMaxPoolRefs ''grant capacity pool exceeds its bound''
       (truncated ''grant capacity pool is truncated'' dec_ref) bs) (\<lambda>(pool, bs).
     or_fail (r_text kMaxReasonText bs) kMalformedEncoding ''grant reason is truncated or not UTF-8''
       (\<lambda>(reason, bs). Inr (g\<lparr>g_capacity_pool := pool, g_reason := reason\<rparr>, bs))))"

definition grant_digest :: "grant \<Rightarrow> digest" where
  "grant_digest g =
     (let (st, w) = encode_grant g (bw_new 4096) in
      if \<not> status_ok st then final (update (string_bytes ''rnf.grant.unencodable'') (reset []))
      else blake2s_hash (bw_buffer w))"

section \<open>Authority basis and capacity pool\<close>

definition basis_owner :: "owner_ref \<Rightarrow> blake2s \<Rightarrow> blake2s" where
  "basis_owner ow h = update_le64 (ow_incarnation ow) (update_le64 (ow_device ow) h)"

definition basis_ref :: "snapshot \<Rightarrow> resource_ref \<Rightarrow> blake2s \<Rightarrow> blake2s" where
  "basis_ref s r h =
     (let h = update_le64 (ref_id r) (update_le64 (ucast (rk_byte (ref_kind r))) h) in
      case find_resource s r of
        None \<Rightarrow> update (string_bytes ''absent'') h
      | Some st \<Rightarrow>
          (let h = update (string_bytes ''present'') h;
               h = update_le64 (if rs_capacity_known st then 1 else 0) h;
               h = update_le64 (rs_capacity st) h;
               h = update_le64 (of_nat (length (rs_owners st))) h
           in fold basis_owner (rs_owners st) h))"

definition authority_basis_digest :: "snapshot \<Rightarrow> resource_ref list \<Rightarrow> digest" where
  "authority_basis_digest s scope =
     final (fold (basis_ref s) scope
       (update_le64 (sd_epoch (sn_data s)) (update (string_bytes ''rnf.basis.v1'') (reset []))))"

definition capacity_pool_refs :: "snapshot \<Rightarrow> resource_ref \<Rightarrow> resource_ref list result" where
  "capacity_pool_refs s root =
     (if \<not> snapshot_valid s then fail kInvalidArgument ''snapshot handle is empty''
      else
        (case find_resource s root of
           None \<Rightarrow> fail kNotAMember ''scope names a resource outside this rack''
         | Some st \<Rightarrow>
             (let pool = sort_unique
                    (ResourceRef ResourceKind_kRack (sd_rack (sn_data s)) # root #
                     map (\<lambda>ow. ResourceRef ResourceKind_kDevice (ow_device ow)) (rs_owners st))
              in if length pool > kMaxPoolRefs
                 then fail kResourceExhausted ''capacity pool exceeds its bound''
                 else Inr pool)))"

section \<open>The grant codec\<close>

definition grant_ok :: "grant \<Rightarrow> bool" where
  "grant_ok g \<longleftrightarrow>
     length (g_authority_basis g) = 32 \<and> length (g_capacity_pool g) \<le> kMaxPoolRefs \<and>
     text_ok kMaxReasonText (g_reason g)"

lemma ref_codec: "call_codec ref_calls dec_ref (\<lambda>_. True)"
  by unfold_locales
    (auto simp: ref_calls_def dec_ref_def codec_simps Option.bind_eq_Some_conv dest!: dec_sound_basic)

lemma pool_codec:
  "call_codec (counted_calls ref_calls)
     (\<lambda>bs. to_opt (decode_list kMaxPoolRefs msg (truncated msg' dec_ref) bs)) (\<lambda>xs. length xs \<le> kMaxPoolRefs)"
  using list_codec [OF ref_codec, of kMaxPoolRefs msg msg'] by (simp add: kMaxPoolRefs_def)

abbreviation grant_field_calls :: "grant \<Rightarrow> writer_call list" where
  "grant_field_calls g \<equiv> take 16 (grant_calls g)"

lemma reason_codec: "codec enc_text (r_text kMaxReasonText) (text_ok kMaxReasonText)"
  by (rule text_codec) (simp add: kMaxReasonText_def)

lemma dec_grant_fields_enc:
  "length (g_authority_basis g) = 32 \<Longrightarrow>
     dec_grant_fields (calls_bytes (grant_field_calls g) @ t) =
       Some (g\<lparr>g_capacity_pool := [], g_reason := []\<rparr>, t)"
  by (simp add: dec_grant_fields_def grant_calls_def codec_simps)

lemma dec_grant_fields_sound:
  "dec_grant_fields bs = Some (g, t) \<Longrightarrow>
     length (g_authority_basis g) = 32 \<and> bs = calls_bytes (grant_field_calls g) @ t"
  by (auto simp: dec_grant_fields_def grant_calls_def Option.bind_eq_Some_conv dest!: dec_sound_basic)

lemma grant_calls_split:
  "calls_bytes (grant_calls g) =
     calls_bytes (grant_field_calls g) @ calls_bytes (counted_calls ref_calls (g_capacity_pool g)) @
     enc_text (g_reason g)"
proof -
  have *: "grant_calls g = grant_field_calls g @ counted_calls ref_calls (g_capacity_pool g) @
      [W_text (g_reason g) kMaxReasonText]"
    by (simp add: grant_calls_def)
  show ?thesis
    by (subst *) (simp only: map_append concat_append list.map concat.simps append_Nil2 call_bytes_text)
qed

lemma grant_field_calls_update: "grant_field_calls (g\<lparr>g_capacity_pool := p, g_reason := r\<rparr>) = grant_field_calls g"
  by (simp add: grant_calls_def)

interpretation grantc: codec "\<lambda>g. calls_bytes (grant_calls g)" "\<lambda>bs. to_opt (decode_grant bs)" grant_ok
proof
  fix g t
  assume ok: "grant_ok g"
  have "decode_list kMaxPoolRefs ''grant capacity pool exceeds its bound''
      (truncated ''grant capacity pool is truncated'' dec_ref)
      (calls_bytes (counted_calls ref_calls (g_capacity_pool g)) @ enc_text (g_reason g) @ t) =
      Inr (g_capacity_pool g, enc_text (g_reason g) @ t)"
    by (rule list_decode [OF pool_codec]) (use ok in \<open>simp add: grant_ok_def\<close>)
  moreover have "r_text kMaxReasonText (enc_text (g_reason g) @ t) = Some (g_reason g, t)"
    by (rule codec.dec_enc [OF reason_codec]) (use ok in \<open>simp add: grant_ok_def\<close>)
  ultimately show "to_opt (decode_grant (calls_bytes (grant_calls g) @ t)) = Some (g, t)"
    using ok dec_grant_fields_enc [of g]
    unfolding grant_calls_split decode_grant_def by (simp add: grant_ok_def)
next
  fix bs g t
  assume "to_opt (decode_grant bs) = Some (g, t)"
  then obtain h u pool v reason where
    h: "dec_grant_fields bs = Some (h, u)" and
    p: "decode_list kMaxPoolRefs ''grant capacity pool exceeds its bound''
      (truncated ''grant capacity pool is truncated'' dec_ref) u = Inr (pool, v)" and
    r: "r_text kMaxReasonText v = Some (reason, t)" and
    g: "g = h\<lparr>g_capacity_pool := pool, g_reason := reason\<rparr>"
    by (auto simp: decode_grant_def or_fail_Inr_iff rnf_try_Inr_iff)
  have "grant_field_calls g = grant_field_calls h" unfolding g by (rule grant_field_calls_update)
  then show "grant_ok g \<and> bs = calls_bytes (grant_calls g) @ t"
    using dec_grant_fields_sound [OF h] list_sound [OF pool_codec p] codec.dec_sound [OF reason_codec r] g
    unfolding grant_calls_split by (simp add: grant_ok_def)
qed

section \<open>What the basis depends on\<close>

text \<open>The part of a resource the basis reads, and the bytes it contributes.\<close>

type_synonym basis_view = "(bool \<times> capacity \<times> owner_ref list) option"

definition basis_view :: "snapshot \<Rightarrow> resource_ref \<Rightarrow> basis_view" where
  "basis_view s r =
     map_option (\<lambda>st. (rs_capacity_known st, rs_capacity st, rs_owners st)) (find_resource s r)"

fun basis_view_bytes :: "basis_view \<Rightarrow> u8 list" where
  "basis_view_bytes None = string_bytes ''absent''"
| "basis_view_bytes (Some (known, cap, owners)) =
     string_bytes ''present'' @ store_le 8 (if known then 1 else 0 :: u64) @ store_le 8 cap @
     store_le 8 (of_nat (length owners) :: u64) @ enc_many (\<lambda>ow. calls_bytes (owner_calls ow)) owners"

definition basis_entry_bytes :: "resource_ref \<times> basis_view \<Rightarrow> u8 list" where
  "basis_entry_bytes e =
     store_le 8 (ucast (rk_byte (ref_kind (fst e))) :: u64) @ store_le 8 (ref_id (fst e)) @
     basis_view_bytes (snd e)"

definition basis_bytes :: "snapshot \<Rightarrow> resource_ref list \<Rightarrow> u8 list" where
  "basis_bytes s scope =
     string_bytes ''rnf.basis.v1'' @ store_le 8 (sd_epoch (sn_data s)) @
     enc_many (\<lambda>r. basis_entry_bytes (r, basis_view s r)) scope"

definition view_ok :: "basis_view \<Rightarrow> bool" where
  "view_ok v = (case v of None \<Rightarrow> True | Some (_, _, owners) \<Rightarrow> length owners < 2 ^ 64)"

lemma update_ok: "blake_ok h \<Longrightarrow> blake_ok (update bs h)"
  by (simp add: update_eq_fold_absorb blake_ok_fold_absorb)

lemma update_update: "blake_ok h \<Longrightarrow> update ys (update xs h) = update (xs @ ys) h"
  by (simp add: update_append)

lemma fold_basis_owner:
  "blake_ok h \<Longrightarrow> fold basis_owner ows h = update (enc_many (\<lambda>ow. calls_bytes (owner_calls ow)) ows) h"
proof (induction ows arbitrary: h)
  case Nil
  then show ?case by (simp add: update.simps)
next
  case (Cons ow ows)
  have "basis_owner ow h = update (calls_bytes (owner_calls ow)) h"
    using Cons.prems by (simp add: basis_owner_def update_le64_def owner_calls_def update_update update_ok)
  then show ?case using Cons by (simp add: update_ok update_update)
qed

lemma basis_ref_update:
  "blake_ok h \<Longrightarrow> basis_ref s r h = update (basis_entry_bytes (r, basis_view s r)) h"
  by (cases "find_resource s r")
    (simp_all add: basis_ref_def basis_entry_bytes_def basis_view_def update_le64_def Let_def update_update
      update_ok fold_basis_owner)

lemma authority_basis_bytes: "authority_basis_digest s scope = blake2s_hash (basis_bytes s scope)"
proof -
  have "blake_ok h \<Longrightarrow>
      fold (basis_ref s) scope h = update (enc_many (\<lambda>r. basis_entry_bytes (r, basis_view s r)) scope) h" for h
  proof (induction scope arbitrary: h)
    case Nil
    then show ?case by (simp add: update.simps)
  next
    case (Cons r scope)
    then show ?case by (simp add: basis_ref_update update_ok update_update)
  qed
  then show ?thesis
    by (simp add: authority_basis_digest_def blake2s_hash_def basis_bytes_def update_le64_def update_update
        update_ok blake_ok_reset_unkeyed)
qed

lemma length_authority_basis [simp]: "length (authority_basis_digest s scope) = 32"
  by (simp add: authority_basis_bytes)

lemma store8_append_inj:
  "store_le 8 (a :: u64) @ x = store_le 8 b @ y \<longleftrightarrow> a = b \<and> x = y"
  using u64c.enc_append_inj [where x = a and y = b and s = x and t = y] by auto

lemma basis_view_append_inj:
  assumes "view_ok v" "view_ok w" "basis_view_bytes v @ x = basis_view_bytes w @ y"
  shows "v = w \<and> x = y"
proof (cases v)
  case None
  then show ?thesis using assms(3) by (cases w) (auto simp: string_bytes_def)
next
  case (Some a)
  obtain k c ows where a: "a = (k, c, ows)" by (cases a)
  from Some a assms(3) obtain k' c' ows' where w: "w = Some (k', c', ows')"
    by (cases w) (auto simp: string_bytes_def)
  have n: "length ows < 2 ^ 64" "length ows' < 2 ^ 64" using assms(1,2) Some a w by (auto simp: view_ok_def)
  from assms(3) have eq: "(if k then 1 else 0 :: u64) = (if k' then 1 else 0)" "c = c'"
      "(of_nat (length ows) :: u64) = of_nat (length ows')"
      "enc_many (\<lambda>ow. calls_bytes (owner_calls ow)) ows @ x = enc_many (\<lambda>ow. calls_bytes (owner_calls ow)) ows' @ y"
    by (simp_all add: Some a w store8_append_inj)
  have "unat (of_nat (length ows) :: u64) = unat (of_nat (length ows') :: u64)" using eq(3) by simp
  then have len: "length ows = length ows'" using n by (simp add: unat_of_nat)
  have "dec_many dec_owner (length ows) (enc_many (\<lambda>ow. calls_bytes (owner_calls ow)) ows @ x) = Some (ows, x)"
    by (rule codec.dec_many_enc_many [OF owner_codec]) simp
  moreover have "dec_many dec_owner (length ows') (enc_many (\<lambda>ow. calls_bytes (owner_calls ow)) ows' @ y) = Some (ows', y)"
    by (rule codec.dec_many_enc_many [OF owner_codec]) simp
  ultimately have "Some (ows, x) = Some (ows', y)" unfolding eq(4) len by simp
  then have "ows = ows' \<and> x = y" by simp
  moreover have "k = k'" using eq(1) by (simp split: if_splits)
  ultimately show ?thesis using eq(2) Some a w by simp
qed

lemma ucast_u8_u64_inj: "(ucast (a :: u8) :: u64) = ucast b \<longleftrightarrow> a = b"
proof
  assume "(ucast a :: u64) = ucast b"
  then have "bit a j \<longleftrightarrow> bit b j" if "j < 8" for j
    using that by (auto dest!: arg_cong [where f = "\<lambda>w :: u64. bit w j"] simp: bit_simps)
  then show "a = b" by (intro bit_eqI) simp
qed simp

lemma basis_entry_bytes_not_Nil [simp]: "basis_entry_bytes e \<noteq> []"
proof
  assume "basis_entry_bytes e = []"
  then have "length (basis_entry_bytes e) = 0" by simp
  then show False by (simp add: basis_entry_bytes_def)
qed

lemma basis_entries_inj:
  assumes "\<forall>r\<in>set xs. view_ok (f r)" "\<forall>r\<in>set ys. view_ok (g r)"
    and "enc_many (\<lambda>r. basis_entry_bytes (r, f r)) xs = enc_many (\<lambda>r. basis_entry_bytes (r, g r)) ys"
  shows "xs = ys \<and> (\<forall>r\<in>set xs. f r = g r)"
  using assms
proof (induction xs arbitrary: ys)
  case Nil
  then show ?case by (cases ys) auto
next
  case (Cons r xs)
  then obtain q zs where ys: "ys = q # zs" using Cons.prems(3) by (cases ys) auto
  from Cons.prems(3) have eq: "ref_kind r = ref_kind q" "ref_id r = ref_id q"
      "basis_view_bytes (f r) @ enc_many (\<lambda>r. basis_entry_bytes (r, f r)) xs =
       basis_view_bytes (g q) @ enc_many (\<lambda>r. basis_entry_bytes (r, g r)) zs"
    by (simp_all add: ys basis_entry_bytes_def store8_append_inj ucast_u8_u64_inj resource_kind.expand)
  have v: "f r = g q \<and> enc_many (\<lambda>r. basis_entry_bytes (r, f r)) xs = enc_many (\<lambda>r. basis_entry_bytes (r, g r)) zs"
    by (rule basis_view_append_inj [OF _ _ eq(3)]) (use Cons.prems ys in auto)
  have "r = q" using eq(1,2) by (simp add: resource_ref.expand)
  moreover have "xs = zs \<and> (\<forall>r\<in>set xs. f r = g r)"
    by (rule Cons.IH) (use Cons.prems(1,2) ys v in simp_all)
  ultimately show ?case using v by (simp add: ys)
qed

lemma authority_basis_inj:
  assumes "\<forall>r\<in>set xs. view_ok (basis_view s r)" "\<forall>r\<in>set ys. view_ok (basis_view t r)"
    and "basis_bytes s xs = basis_bytes t ys"
  shows "sd_epoch (sn_data s) = sd_epoch (sn_data t) \<and> xs = ys \<and> (\<forall>r\<in>set xs. basis_view s r = basis_view t r)"
proof -
  have "sd_epoch (sn_data s) = sd_epoch (sn_data t)"
    "enc_many (\<lambda>r. basis_entry_bytes (r, basis_view s r)) xs = enc_many (\<lambda>r. basis_entry_bytes (r, basis_view t r)) ys"
    using assms(3) by (simp_all add: basis_bytes_def store8_append_inj)
  with basis_entries_inj [OF assms(1,2)] show ?thesis by blast
qed

section \<open>The capacity pool\<close>

lemma capacity_pool_refs_Inr:
  "capacity_pool_refs s root = Inr pool \<longleftrightarrow>
     snapshot_valid s \<and>
     (\<exists>st. find_resource s root = Some st \<and>
        pool = sort_unique
          (ResourceRef ResourceKind_kRack (sd_rack (sn_data s)) # root #
           map (\<lambda>ow. ResourceRef ResourceKind_kDevice (ow_device ow)) (rs_owners st)) \<and>
        length pool \<le> kMaxPoolRefs)"
  by (auto simp: capacity_pool_refs_def Let_def split: option.splits)

lemma capacity_pool_facts:
  assumes "capacity_pool_refs s root = Inr pool"
  shows "strict_sorted pool" "distinct pool" "root \<in> set pool"
    "ResourceRef ResourceKind_kRack (sd_rack (sn_data s)) \<in> set pool" "length pool \<le> kMaxPoolRefs"
  using assms by (auto simp: capacity_pool_refs_Inr intro: strict_sorted_distinct)

section \<open>Properties\<close>

text \<open>
  (C32) The authority basis detects every change it is meant to fence: equal bases over two snapshots
  mean the same epoch, the same resources in scope, and for every one of them the same presence,
  capacity and owning devices with their member incarnations, or else two different inputs on which
  BLAKE2s collides.
\<close>
theorem basis_detects_change:
  assumes "authority_basis_digest s xs = authority_basis_digest t ys"
    and "\<forall>r\<in>set xs. view_ok (basis_view s r)" "\<forall>r\<in>set ys. view_ok (basis_view t r)"
  shows "(sd_epoch (sn_data s) = sd_epoch (sn_data t) \<and> xs = ys \<and>
            (\<forall>r\<in>set xs. basis_view s r = basis_view t r)) \<or>
         (basis_bytes s xs \<noteq> basis_bytes t ys \<and>
            blake2s_hash (basis_bytes s xs) = blake2s_hash (basis_bytes t ys))"
  using assms(1) authority_basis_inj [OF assms(2,3)] by (auto simp: authority_basis_bytes)

theorem basis_detects_change_witness:
  "let t = \<lparr>sn_ptr = Some ((sn_data sample_rack)\<lparr>sd_generation := 9\<rparr>), sn_digest = zero_digest\<rparr>;
       xs = [ResourceRef ResourceKind_kDevice 5] in
   (sd_epoch (sn_data sample_rack) = sd_epoch (sn_data t) \<and> xs = xs \<and>
      (\<forall>r\<in>set xs. basis_view sample_rack r = basis_view t r)) \<or>
   (basis_bytes sample_rack xs \<noteq> basis_bytes t xs \<and>
      blake2s_hash (basis_bytes sample_rack xs) = blake2s_hash (basis_bytes t xs))"
  unfolding Let_def
proof (rule basis_detects_change)
  have find: "find_resource sample_rack r = None"
    "find_resource \<lparr>sn_ptr = Some ((sn_data sample_rack)\<lparr>sd_generation := 9\<rparr>), sn_digest = zero_digest\<rparr> r = None" for r
    by (simp_all add: find_resource_def sample_rack_def sn_data_def empty_snapshot_data_def find_sorted_def
        lower_bound_def lower_bound_loop.simps)
  have ep: "sd_epoch (sn_data \<lparr>sn_ptr = Some ((sn_data sample_rack)\<lparr>sd_generation := 9\<rparr>), sn_digest = zero_digest\<rparr>) =
      sd_epoch (sn_data sample_rack)"
    by (simp add: sn_data_def)
  show "authority_basis_digest sample_rack [ResourceRef ResourceKind_kDevice 5] =
      authority_basis_digest \<lparr>sn_ptr = Some ((sn_data sample_rack)\<lparr>sd_generation := 9\<rparr>), sn_digest = zero_digest\<rparr>
        [ResourceRef ResourceKind_kDevice 5]"
    by (simp add: authority_basis_bytes basis_bytes_def basis_view_def find ep)
  show "\<forall>r\<in>set [ResourceRef ResourceKind_kDevice 5]. view_ok (basis_view sample_rack r)"
    and "\<forall>r\<in>set [ResourceRef ResourceKind_kDevice 5]. view_ok (basis_view
        \<lparr>sn_ptr = Some ((sn_data sample_rack)\<lparr>sd_generation := 9\<rparr>), sn_digest = zero_digest\<rparr> r)"
    by (simp_all add: basis_view_def find view_ok_def)
qed

definition sample_grant :: grant where
  "sample_grant =
     \<lparr>g_id = 1, g_request = RequestId 0 1, g_principal = 4, g_scope = ResourceRef ResourceKind_kPort 2,
      g_mode = GrantMode_kShared, g_capacity = 3, g_generation = 1, g_epoch = 1, g_incarnation = 1,
      g_fence = 1, g_issued_at_ms = 0, g_expires_at_ms = 60, g_state = GrantState_kActive,
      g_authority_basis = zero_digest, g_capacity_pool = [ResourceRef ResourceKind_kRack 1], g_reason = ''ok''\<rparr>"

text \<open>
  Grant round trip: a grant with a 32 byte basis, at most 64 pool references and a reason within
  its bound decodes from its encoding followed by anything, leaving exactly what followed; and every
  accepted prefix is the encoding of the grant returned.
\<close>
theorem grant_roundtrip:
  "(grant_ok g \<longrightarrow> decode_grant (calls_bytes (grant_calls g) @ t) = Inr (g, t)) \<and>
   (decode_grant bs = Inr (g, t) \<longrightarrow> grant_ok g \<and> bs = calls_bytes (grant_calls g) @ t)"
  using grantc.dec_enc [of g t] grantc.dec_sound [of bs g t] by simp

theorem grant_roundtrip_witness:
  "decode_grant (calls_bytes (grant_calls sample_grant) @ [42]) = Inr (sample_grant, [42]) \<and> grant_ok sample_grant"
proof -
  have "grant_ok sample_grant"
    by (simp add: grant_ok_def sample_grant_def zero_digest_def kMaxPoolRefs_def kMaxReasonText_def
        string_bytes_def)
  then show ?thesis
    using grant_roundtrip [of sample_grant "[42]" "calls_bytes (grant_calls sample_grant) @ [42]"] by simp
qed

end
