(* ===== verification/Rnf_Registry.thy ===== *)
theory Rnf_Registry
  imports Rnf_Grant
begin

text \<open>
  \<^verbatim>\<open>authority/registry\<close>: the grant registry. The class is a record of its members, each method a function
  from the registry to its result and the registry after it, with the error returns of the source in
  the source's order. Counters of type \<^verbatim>\<open>size_t\<close> are naturals (the bounds keep them far below the
  width), fences, timestamps and capacities are 64 bit words. A loop over \<^verbatim>\<open>grants_\<close> that changes the
  entries it visits is \<open>for_grants\<close>: it visits the keys present when it starts, in order, and sees the
  changes made by earlier rounds.
\<close>

section \<open>Data\<close>

record authority_limits =
  al_max_live_grants :: nat
  al_max_remembered_requests :: nat
  al_max_ttl_ms :: u64
  al_min_ttl_ms :: u64
  al_max_occupancy_entries :: nat

definition default_authority_limits :: authority_limits where
  "default_authority_limits =
     \<lparr>al_max_live_grants = 4096, al_max_remembered_requests = 65536,
      al_max_ttl_ms = 24 * 60 * 60 * 1000, al_min_ttl_ms = 1, al_max_occupancy_entries = 2 ^ 20\<rparr>"

record request_outcome =
  ro_code :: status_code
  ro_grant :: grant_id
  ro_fence :: fencing_token
  ro_incarnation :: controller_incarnation
  ro_request_digest :: digest
  ro_detail :: string

datatype occupant = Occupant (op_id: grant_id) (op_mode: grant_mode)

record registry =
  rg_limits :: authority_limits
  rg_grants :: "(grant_id, grant) omap"
  rg_outcomes :: "(request_id, request_outcome) omap"
  rg_occupancy :: "(resource_ref, occupant list) omap"
  rg_footprints :: "(grant_id, resource_ref list) omap"
  rg_occupancy_entries :: nat
  rg_committed :: "(resource_ref, u64) omap"
  rg_committed_total :: u64
  rg_next_fence :: fencing_token
  rg_incarnation :: controller_incarnation
  rg_live :: nat
  rg_recovering :: nat

definition registry_new :: "authority_limits \<Rightarrow> registry" where
  "registry_new limits =
     \<lparr>rg_limits = limits, rg_grants = [], rg_outcomes = [], rg_occupancy = [], rg_footprints = [],
      rg_occupancy_entries = 0, rg_committed = [], rg_committed_total = 0, rg_next_fence = 0,
      rg_incarnation = 0, rg_live = 0, rg_recovering = 0\<rparr>"

definition is_live_state :: "grant_state \<Rightarrow> bool" where
  "is_live_state s =
     (if s = GrantState_kPending \<or> s = GrantState_kRecovering \<or> s = GrantState_kActive
         \<or> s = GrantState_kSuspended then True
      else if s = GrantState_kReleased \<or> s = GrantState_kExpired \<or> s = GrantState_kFenced then False
      else False)"

definition occupant_conflicts :: "grant_mode \<Rightarrow> grant_mode \<Rightarrow> bool" where
  "occupant_conflicts requested held \<longleftrightarrow>
     requested = GrantMode_kExclusive \<or> held = GrantMode_kExclusive"

definition request_digest_of :: "grant_request \<Rightarrow> digest" where
  "request_digest_of q =
     final (fold update_le64
       [req_hi (q_request q), req_lo (q_request q), q_principal q, ucast (rk_byte (ref_kind (q_scope q))),
        ref_id (q_scope q), ucast (gm_byte (q_mode q)), q_capacity q, q_ttl_ms q]
       (update (string_bytes ''rnf.request.v1'') (reset [])))"

section \<open>The index and the capacity account\<close>

definition occupy :: "grant \<Rightarrow> resource_ref \<Rightarrow> registry \<Rightarrow> registry" where
  "occupy g ref r =
     (let occupants = (case omap_get (rg_occupancy r) ref of Some l \<Rightarrow> l | None \<Rightarrow> []);
          occupants = sort_key op_id (occupants @ [Occupant (g_id g) (g_mode g)])
      in r\<lparr>rg_occupancy := omap_put ref occupants (rg_occupancy r),
           rg_occupancy_entries := rg_occupancy_entries r + 1\<rparr>)"

definition commit :: "grant \<Rightarrow> resource_ref \<Rightarrow> registry \<Rightarrow> registry" where
  "commit g ref r =
     (let total = (case omap_get (rg_committed r) ref of Some v \<Rightarrow> v | None \<Rightarrow> 0);
          total = (case checked_add_u64 total (g_capacity g) of Some v \<Rightarrow> v | None \<Rightarrow> u64_max)
      in r\<lparr>rg_committed := omap_put ref total (rg_committed r)\<rparr>)"

definition attach :: "snapshot \<Rightarrow> grant \<Rightarrow> registry \<Rightarrow> registry" where
  "attach s g r =
     (let r = (case expand_scope s (g_scope g) of
                 Inl _ \<Rightarrow> r
               | Inr scope \<Rightarrow>
                   fold (occupy g) scope
                     (r\<lparr>rg_footprints := omap_put (g_id g) scope (rg_footprints r)\<rparr>));
          r = fold (commit g) (g_capacity_pool g) r
      in r\<lparr>rg_committed_total :=
             (case checked_add_u64 (rg_committed_total r) (g_capacity g) of
                Some v \<Rightarrow> v | None \<Rightarrow> u64_max)\<rparr>)"

definition vacate :: "grant \<Rightarrow> resource_ref \<Rightarrow> registry \<Rightarrow> registry" where
  "vacate g ref r =
     (case omap_get (rg_occupancy r) ref of
        None \<Rightarrow> r
      | Some occupants \<Rightarrow>
          (let rest = filter (\<lambda>x. op_id x \<noteq> g_id g) occupants;
               removed_count = length occupants - length rest;
               r = r\<lparr>rg_occupancy := omap_put ref rest (rg_occupancy r),
                     rg_occupancy_entries := rg_occupancy_entries r - removed_count\<rparr>
           in if rest = [] then r\<lparr>rg_occupancy := omap_erase ref (rg_occupancy r)\<rparr> else r))"

definition uncommit :: "grant \<Rightarrow> resource_ref \<Rightarrow> registry \<Rightarrow> registry" where
  "uncommit g ref r =
     (case omap_get (rg_committed r) ref of
        None \<Rightarrow> r
      | Some used \<Rightarrow>
          (case checked_sub_u64 used (g_capacity g) of
             None \<Rightarrow> r\<lparr>rg_committed := omap_erase ref (rg_committed r)\<rparr>
           | Some rest \<Rightarrow>
               if rest > 0 then r\<lparr>rg_committed := omap_put ref rest (rg_committed r)\<rparr>
               else r\<lparr>rg_committed := omap_erase ref (rg_committed r)\<rparr>))"

definition detach :: "grant \<Rightarrow> registry \<Rightarrow> registry" where
  "detach g r =
     (let r = (case omap_get (rg_footprints r) (g_id g) of
                 None \<Rightarrow> r
               | Some scope \<Rightarrow>
                   (let r = fold (vacate g) scope r
                    in r\<lparr>rg_footprints := omap_erase (g_id g) (rg_footprints r)\<rparr>));
          r = fold (uncommit g) (g_capacity_pool g) r
      in r\<lparr>rg_committed_total :=
             (case checked_sub_u64 (rg_committed_total r) (g_capacity g) of Some v \<Rightarrow> v | None \<Rightarrow> 0)\<rparr>)"

text \<open>\<open>None\<close> is the \<^verbatim>\<open>std::out_of_range\<close> of \<^verbatim>\<open>grants_.at\<close>.\<close>

definition prune :: "registry \<Rightarrow> (nat \<times> registry) option" where
  "prune r =
     (let stale = filter
            (\<lambda>i. case omap_get (rg_grants r) i of None \<Rightarrow> True | Some g \<Rightarrow> \<not> is_live_state (g_state g))
            (map fst (rg_footprints r))
      in map_option (Pair (length stale))
           (fold (\<lambda>i st. Option.bind st (\<lambda>r. map_option (\<lambda>g. detach g r) (omap_get (rg_grants r) i)))
              stale (Some r)))"

text \<open>The capacity of a resource before issued authority is taken off, or why it has none.\<close>

definition capacity_base :: "snapshot \<Rightarrow> resource_ref \<Rightarrow> capacity result" where
  "capacity_base s ref =
     (if ref_kind ref = ResourceKind_kRack then
        if ref_id ref \<noteq> sd_rack (sn_data s)
        then fail kOutOfRack ''capacity query names a different rack''
        else
          (case find_resource s ref of
             None \<Rightarrow> fail kNotFound ''rack resource is missing from the snapshot''
           | Some st \<Rightarrow>
               if rs_eligibility st \<noteq> Eligibility_kEligible
               then fail kScopeNotEligible ''the rack itself is not eligible''
               else Inr (k_uncommitted (sd_capacity (sn_data s))))
      else
        (case find_resource s ref of
           None \<Rightarrow> fail kNotAMember ''resource is not part of this rack''
         | Some st \<Rightarrow>
             if \<not> rs_capacity_known st
             then fail kUnknown ''resource capacity has not been measured''
             else if rs_eligibility st \<noteq> Eligibility_kEligible
             then fail kScopeNotEligible ''resource is not eligible''
             else
               (case checked_sub_u64 (rs_capacity st) (rs_obligated st) of
                  None \<Rightarrow> fail kCapacityExhausted
                    ''imported obligations exceed the capacity of this resource''
                | Some v \<Rightarrow> Inr v)))"

definition available :: "snapshot \<Rightarrow> resource_ref \<Rightarrow> registry \<Rightarrow> capacity result" where
  "available s ref r =
     (if \<not> snapshot_valid s then fail kInvalidArgument ''snapshot handle is empty''
      else
        rnf_try (capacity_base s ref) (\<lambda>base.
          let used = (case omap_get (rg_committed r) ref of Some v \<Rightarrow> v | None \<Rightarrow> 0) in
          case checked_sub_u64 base used of
            None \<Rightarrow> fail kCapacityExhausted
              (''issued authority already exceeds the capacity of '' @ ref_to_text ref)
          | Some v \<Rightarrow> Inr v))"

definition committed :: "resource_ref \<Rightarrow> registry \<Rightarrow> capacity" where
  "committed ref r = (case omap_get (rg_committed r) ref of Some v \<Rightarrow> v | None \<Rightarrow> 0)"

fun check_capacity :: "snapshot \<Rightarrow> resource_ref list \<Rightarrow> capacity \<Rightarrow> registry \<Rightarrow> status" where
  "check_capacity s [] requested r = ok_status"
| "check_capacity s (ref # refs) requested r =
     (case available s ref r of
        Inl failure \<Rightarrow>
          Status (st_code failure) (st_detail failure @ '' (resource '' @ ref_to_text ref @ '')'')
      | Inr free \<Rightarrow>
          if free < requested then
            Status kCapacityExhausted
              (''requested '' @ to_string_u64 requested @ '' units but only '' @ to_string_u64 free @
               '' are available in '' @ ref_to_text ref)
          else check_capacity s refs requested r)"

section \<open>Acquire\<close>

definition remember :: "grant_request \<Rightarrow> request_outcome \<Rightarrow> registry \<Rightarrow> registry" where
  "remember q outcome r =
     r\<lparr>rg_outcomes := omap_put (q_request q)
         (outcome\<lparr>ro_request_digest := request_digest_of q\<rparr>) (rg_outcomes r)\<rparr>"

definition refusal_outcome :: "status \<Rightarrow> request_outcome" where
  "refusal_outcome st =
     \<lparr>ro_code = st_code st, ro_grant = 0, ro_fence = 0, ro_incarnation = 0,
      ro_request_digest = zero_digest, ro_detail = st_detail st\<rparr>"

text \<open>A refusal that is remembered, so that a replay of the request gets the same answer.\<close>

definition refuse :: "grant_request \<Rightarrow> status \<Rightarrow> registry \<Rightarrow> grant result \<times> registry" where
  "refuse q st r = (Inl st, remember q (refusal_outcome st) r)"

text \<open>
  The loop over the eligibility of the scope: the first resource that stops it, and whether the
  refusal is remembered (an absent resource is not, an ineligible one is).
\<close>

fun eligibility_scan :: "snapshot \<Rightarrow> resource_ref list \<Rightarrow> (bool \<times> status) option" where
  "eligibility_scan s [] = None"
| "eligibility_scan s (ref # refs) =
     (case find_resource s ref of
        None \<Rightarrow> Some (False, Status kNotFound ''scope names a resource outside this rack'')
      | Some st \<Rightarrow>
          if rs_eligibility st \<noteq> Eligibility_kEligible then
            Some (True, Status kScopeNotEligible
              (''scope contains a resource that is not eligible: '' @ ref_to_text ref @ '' ('' @
               eligibility_to_string (rs_eligibility st) @ '')''))
          else eligibility_scan s refs)"

fun occupant_scan :: "registry \<Rightarrow> grant_mode \<Rightarrow> resource_ref \<Rightarrow> occupant list \<Rightarrow> status option" where
  "occupant_scan r mode ref [] = None"
| "occupant_scan r mode ref (x # xs) =
     (case omap_get (rg_grants r) (op_id x) of
        None \<Rightarrow> occupant_scan r mode ref xs
      | Some g \<Rightarrow>
          if \<not> is_live_state (g_state g) then occupant_scan r mode ref xs
          else if occupant_conflicts mode (op_mode x) then
            Some (Status kExclusiveConflict
              (''conflicts with '' @ grant_mode_to_string (op_mode x) @ '' grant '' @ hex64 (op_id x) @
               '' on '' @ ref_to_text ref))
          else occupant_scan r mode ref xs)"

fun conflict_scan :: "registry \<Rightarrow> grant_mode \<Rightarrow> resource_ref list \<Rightarrow> status option" where
  "conflict_scan r mode [] = None"
| "conflict_scan r mode (ref # refs) =
     (case (case omap_get (rg_occupancy r) ref of
              None \<Rightarrow> None
            | Some occupants \<Rightarrow> occupant_scan r mode ref occupants) of
        Some st \<Rightarrow> Some st
      | None \<Rightarrow> conflict_scan r mode refs)"

text \<open>Issuing the grant, once every check has passed.\<close>

definition issue ::
  "snapshot \<Rightarrow> grant_request \<Rightarrow> controller_incarnation \<Rightarrow> timestamp_ms \<Rightarrow> resource_ref list \<Rightarrow>
   resource_ref list \<Rightarrow> registry \<Rightarrow> grant result \<times> registry" where
  "issue s q incarnation now expanded pool r =
     (let r = r\<lparr>rg_next_fence := rg_next_fence r + 1\<rparr> in
      case checked_add_u64 now (q_ttl_ms q) of
        None \<Rightarrow> (fail kOutOfRange ''lease deadline overflowed'', r)
      | Some deadline \<Rightarrow>
          (let g = \<lparr>g_id = rg_next_fence r, g_request = q_request q, g_principal = q_principal q,
                    g_scope = q_scope q, g_mode = q_mode q, g_capacity = q_capacity q,
                    g_generation = sd_generation (sn_data s), g_epoch = sd_epoch (sn_data s),
                    g_incarnation = incarnation, g_fence = rg_next_fence r, g_issued_at_ms = now,
                    g_expires_at_ms = deadline, g_state = GrantState_kActive,
                    g_authority_basis = authority_basis_digest s expanded,
                    g_capacity_pool = pool, g_reason = []\<rparr>;
               r = attach s g r;
               r = r\<lparr>rg_grants := omap_put (g_id g) g (rg_grants r), rg_live := rg_live r + 1\<rparr>;
               r = remember q \<lparr>ro_code = kOk, ro_grant = g_id g, ro_fence = g_fence g,
                     ro_incarnation = g_incarnation g, ro_request_digest = zero_digest,
                     ro_detail = []\<rparr> r
           in (Inr g, r)))"

definition acquire_new ::
  "snapshot \<Rightarrow> grant_request \<Rightarrow> controller_incarnation \<Rightarrow> timestamp_ms \<Rightarrow> bool \<Rightarrow> registry \<Rightarrow>
   grant result \<times> registry" where
  "acquire_new s q incarnation now allow_new_authority r =
     (if \<not> id_is_set (q_principal q)
      then (fail kInvalidIdentity ''grant request needs a principal'', r)
      else if ref_id (q_scope q) = 0 \<and> ref_kind (q_scope q) \<noteq> ResourceKind_kRack
      then (fail kInvalidScope ''grant scope has no resource identity'', r)
      else if q_ttl_ms q < al_min_ttl_ms (rg_limits r) \<or> q_ttl_ms q > al_max_ttl_ms (rg_limits r)
      then (fail kOutOfRange ''requested lease lifetime is out of range'', r)
      else if \<not> allow_new_authority
      then refuse q (Status kLifecycleRefused ''the rack lifecycle does not accept new authority'') r
      else if rg_live r \<ge> al_max_live_grants (rg_limits r)
      then (fail kResourceExhausted ''live grant bound reached'', r)
      else if length (rg_outcomes r) \<ge> al_max_remembered_requests (rg_limits r)
      then (fail kResourceExhausted
              ''remembered request bound reached; restart the daemon to clear it'', r)
      else
        (case expand_scope s (q_scope q) of
           Inl st \<Rightarrow> refuse q st r
         | Inr expanded \<Rightarrow>
             if rg_occupancy_entries r + length expanded > al_max_occupancy_entries (rg_limits r)
             then (fail kResourceExhausted ''exclusivity index bound reached for this scope'', r)
             else
               (case eligibility_scan s expanded of
                  Some (remembered, st) \<Rightarrow> if remembered then refuse q st r else (Inl st, r)
                | None \<Rightarrow>
                    (case conflict_scan r (q_mode q) expanded of
                       Some st \<Rightarrow> refuse q st r
                     | None \<Rightarrow>
                         (case capacity_pool_refs s (q_scope q) of
                            Inl st \<Rightarrow> (Inl st, r)
                          | Inr pool \<Rightarrow>
                              (let st = check_capacity s pool (q_capacity q) r in
                               if \<not> status_ok st then refuse q st r
                               else issue s q incarnation now expanded pool r))))))"

definition acquire ::
  "snapshot \<Rightarrow> grant_request \<Rightarrow> controller_incarnation \<Rightarrow> timestamp_ms \<Rightarrow> bool \<Rightarrow> registry \<Rightarrow>
   grant result \<times> registry" where
  "acquire s q incarnation now allow_new_authority r =
     (if \<not> snapshot_valid s then (fail kInvalidArgument ''snapshot handle is empty'', r)
      else if \<not> request_is_set (q_request q)
      then (fail kInvalidIdentity ''grant request needs a request identity'', r)
      else
        (case omap_get (rg_outcomes r) (q_request q) of
           Some outcome \<Rightarrow>
             if ro_code outcome \<noteq> kOk then (fail (ro_code outcome) (ro_detail outcome), r)
             else
               (case omap_get (rg_grants r) (ro_grant outcome) of
                  None \<Rightarrow> (fail kIndeterminate
                    ''the remembered outcome refers to a grant that is no longer present'', r)
                | Some g \<Rightarrow> (Inr g, r))
         | None \<Rightarrow> acquire_new s q incarnation now allow_new_authority r))"

section \<open>Validation, renewal and release\<close>

fun lease_scan :: "snapshot \<Rightarrow> resource_ref list \<Rightarrow> status option" where
  "lease_scan s [] = None"
| "lease_scan s (ref # refs) =
     (case find_resource s ref of
        None \<Rightarrow> Some (Status kFencedIncarnation
          ''a resource in this grant's scope is no longer part of the rack'')
      | Some st \<Rightarrow>
          if rs_eligibility st \<noteq> Eligibility_kEligible then
            Some (Status kScopeNotEligible
              (''scope contains a resource that is not eligible: '' @ ref_to_text ref))
          else if rs_maintenance st then
            Some (Status kScopeNotEligible
              (''scope contains a resource inside a maintenance window: '' @ ref_to_text ref))
          else lease_scan s refs)"

definition lease_state_refusal :: "grant \<Rightarrow> status option" where
  "lease_state_refusal g =
     (if g_state g = GrantState_kReleased then Some (Status kRefused ''grant has been released'')
      else if g_state g = GrantState_kExpired then Some (Status kExpired ''grant has expired'')
      else if g_state g = GrantState_kFenced
      then Some (Status kFencedIncarnation (''grant was fenced: '' @ g_reason g))
      else if g_state g = GrantState_kRecovering \<or> g_state g = GrantState_kPending
      then Some (Status kIndeterminate
             ''grant was recovered from durable state and has not been revalidated'')
      else if g_state g = GrantState_kSuspended
      then Some (Status kLifecycleRefused (''grant is suspended: '' @ g_reason g))
      else None)"

definition check_lease :: "snapshot \<Rightarrow> lease_token \<Rightarrow> timestamp_ms \<Rightarrow> registry \<Rightarrow> grant result" where
  "check_lease s token now r =
     (if \<not> snapshot_valid s then fail kInvalidArgument ''snapshot handle is empty''
      else
        (case omap_get (rg_grants r) (t_grant token) of
           None \<Rightarrow> fail kNotFound ''no such grant''
         | Some g \<Rightarrow>
             if g_fence g \<noteq> t_fence token \<or> g_authority_basis g \<noteq> t_scope_basis token
             then fail kFencedIncarnation ''lease token does not match the grant record''
             else if g_incarnation g \<noteq> t_incarnation token
             then fail kFencedIncarnation
                    (''lease was issued by incarnation '' @ to_string_u64 (g_incarnation g) @
                     '', token claims '' @ to_string_u64 (t_incarnation token))
             else
               (case lease_state_refusal g of
                  Some st \<Rightarrow> Inl st
                | None \<Rightarrow>
                    if g_incarnation g \<noteq> rg_incarnation r
                    then fail kFencedIncarnation ''lease belongs to a superseded daemon incarnation''
                    else if g_expires_at_ms g \<le> now
                    then fail kExpired ''grant deadline has passed''
                    else if g_epoch g \<noteq> sd_epoch (sn_data s)
                    then fail kStaleEpoch ''rack membership epoch has changed''
                    else if g_generation g > sd_generation (sn_data s)
                    then fail kStaleGeneration ''grant names a later topology generation''
                    else if \<not> lifecycle_honours_existing_authority (sd_lifecycle (sn_data s))
                    then fail kLifecycleRefused ''the rack lifecycle does not honour leases''
                    else
                      (case expand_scope s (g_scope g) of
                         Inl st \<Rightarrow> fail kFencedIncarnation
                           (''grant scope no longer resolves in this rack: '' @ st_detail st)
                       | Inr expanded \<Rightarrow>
                           if authority_basis_digest s expanded \<noteq> g_authority_basis g
                           then fail kFencedIncarnation
                                  ''the resources this grant depends on changed since it was issued''
                           else
                             (case lease_scan s expanded of
                                Some st \<Rightarrow> Inl st
                              | None \<Rightarrow> Inr g)))))"

definition validate :: "snapshot \<Rightarrow> lease_token \<Rightarrow> timestamp_ms \<Rightarrow> registry \<Rightarrow> grant result" where
  "validate s token now r = check_lease s token now r"

definition renew ::
  "snapshot \<Rightarrow> lease_token \<Rightarrow> u64 \<Rightarrow> timestamp_ms \<Rightarrow> registry \<Rightarrow> grant result \<times> registry" where
  "renew s token ttl now r =
     (if ttl < al_min_ttl_ms (rg_limits r) \<or> ttl > al_max_ttl_ms (rg_limits r)
      then (fail kOutOfRange ''requested lease lifetime is out of range'', r)
      else
        (case check_lease s token now r of
           Inl st \<Rightarrow> (Inl st, r)
         | Inr _ \<Rightarrow>
             (case omap_get (rg_grants r) (t_grant token) of
                None \<Rightarrow> (fail kNotFound ''no such grant'', r)
              | Some g \<Rightarrow>
                  (case checked_add_u64 now ttl of
                     None \<Rightarrow> (fail kOutOfRange ''lease deadline overflowed'', r)
                   | Some deadline \<Rightarrow>
                       (let g = g\<lparr>g_expires_at_ms := deadline\<rparr>
                        in (Inr g, r\<lparr>rg_grants := omap_put (t_grant token) g (rg_grants r)\<rparr>))))))"

text \<open>
  The sequence every retirement repeats: count a recovering grant down, return its resources and
  capacity, store the new state and reason at its entry, count a live grant down.
\<close>

definition retire :: "grant_id \<Rightarrow> grant \<Rightarrow> grant_state \<Rightarrow> string \<Rightarrow> registry \<Rightarrow> registry" where
  "retire i g state reason r =
     (let r = (if g_state g = GrantState_kRecovering \<and> rg_recovering r > 0
               then r\<lparr>rg_recovering := rg_recovering r - 1\<rparr> else r);
          r = detach g r;
          r = r\<lparr>rg_grants := omap_put i (g\<lparr>g_state := state, g_reason := reason\<rparr>) (rg_grants r)\<rparr>
      in if rg_live r > 0 then r\<lparr>rg_live := rg_live r - 1\<rparr> else r)"

definition release :: "lease_token \<Rightarrow> timestamp_ms \<Rightarrow> registry \<Rightarrow> status \<times> registry" where
  "release token now r =
     (case omap_get (rg_grants r) (t_grant token) of
        None \<Rightarrow> (Status kNotFound ''no such grant'', r)
      | Some g \<Rightarrow>
          if g_fence g \<noteq> t_fence token \<or> g_authority_basis g \<noteq> t_scope_basis token
             \<or> g_incarnation g \<noteq> t_incarnation token
          then (Status kFencedIncarnation ''release token does not match the grant record'', r)
          else if \<not> is_live_state (g_state g) then (ok_status, r)
          else (ok_status, retire (t_grant token) g GrantState_kReleased ''released by holder'' r))"

section \<open>Bulk operations\<close>

definition for_grants :: "(grant_id \<Rightarrow> grant \<Rightarrow> registry \<Rightarrow> registry) \<Rightarrow> registry \<Rightarrow> registry" where
  "for_grants f r =
     fold (\<lambda>i r. case omap_get (rg_grants r) i of None \<Rightarrow> r | Some g \<Rightarrow> f i g r) (map fst (rg_grants r)) r"

definition fence_all :: "string \<Rightarrow> registry \<Rightarrow> registry" where
  "fence_all reason r =
     for_grants (\<lambda>i g r. if \<not> is_live_state (g_state g) then r
                         else retire i g GrantState_kFenced reason r) r"

definition touches_device :: "snapshot \<Rightarrow> device_id \<Rightarrow> grant \<Rightarrow> bool" where
  "touches_device s device g \<longleftrightarrow>
     (case expand_scope s (ResourceRef ResourceKind_kDevice device) of
        Inl _ \<Rightarrow> False
      | Inr device_scope \<Rightarrow>
          (case expand_scope s (g_scope g) of
             Inl _ \<Rightarrow> False
           | Inr expanded \<Rightarrow> scopes_intersect expanded device_scope)) \<or>
     (\<exists>ref\<in>set (g_capacity_pool g). ref_kind ref = ResourceKind_kDevice \<and> ref_id ref = device)"

definition fence_device :: "snapshot \<Rightarrow> device_id \<Rightarrow> string \<Rightarrow> registry \<Rightarrow> registry" where
  "fence_device s device reason r =
     for_grants (\<lambda>i g r. if \<not> is_live_state (g_state g) then r
                         else if \<not> touches_device s device g then r
                         else retire i g GrantState_kFenced reason r) r"

definition expire_due :: "timestamp_ms \<Rightarrow> registry \<Rightarrow> grant_id list \<times> registry" where
  "expire_due now r =
     fold (\<lambda>i (expired, r).
             case omap_get (rg_grants r) i of
               None \<Rightarrow> (expired, r)
             | Some g \<Rightarrow>
                 if \<not> is_live_state (g_state g) then (expired, r)
                 else if g_expires_at_ms g > now then (expired, r)
                 else (expired @ [g_id g], retire i g GrantState_kExpired ''lease deadline passed'' r))
       (map fst (rg_grants r)) ([], r)"

definition suspend_all :: "string \<Rightarrow> registry \<Rightarrow> registry" where
  "suspend_all reason r =
     for_grants (\<lambda>i g r. if g_state g \<noteq> GrantState_kActive then r
                         else r\<lparr>rg_grants := omap_put i
                                  (g\<lparr>g_state := GrantState_kSuspended, g_reason := reason\<rparr>) (rg_grants r)\<rparr>) r"

definition all_eligible :: "snapshot \<Rightarrow> resource_ref list \<Rightarrow> bool" where
  "all_eligible s refs =
     list_all (\<lambda>ref. case find_resource s ref of
                       None \<Rightarrow> False | Some st \<Rightarrow> rs_eligibility st = Eligibility_kEligible) refs"

definition resume_ok :: "snapshot \<Rightarrow> timestamp_ms \<Rightarrow> grant \<Rightarrow> bool" where
  "resume_ok s now g =
     (case expand_scope s (g_scope g) of
        Inl _ \<Rightarrow> False
      | Inr expanded \<Rightarrow>
          g_expires_at_ms g > now \<and> g_epoch g = sd_epoch (sn_data s) \<and>
          authority_basis_digest s expanded = g_authority_basis g \<and> all_eligible s expanded)"

definition resume_all :: "snapshot \<Rightarrow> timestamp_ms \<Rightarrow> registry \<Rightarrow> nat \<times> registry" where
  "resume_all s now r =
     fold (\<lambda>i (resumed, r).
             case omap_get (rg_grants r) i of
               None \<Rightarrow> (resumed, r)
             | Some g \<Rightarrow>
                 if g_state g \<noteq> GrantState_kSuspended then (resumed, r)
                 else if resume_ok s now g then
                   (resumed + 1,
                    r\<lparr>rg_grants := omap_put i (g\<lparr>g_state := GrantState_kActive, g_reason := []\<rparr>) (rg_grants r)\<rparr>)
                 else
                   (let r = detach g r;
                        r = r\<lparr>rg_grants := omap_put i (g\<lparr>g_state := GrantState_kFenced,
                              g_reason := ''suspended lease could not be revalidated''\<rparr>) (rg_grants r)\<rparr>
                    in (resumed, if rg_live r > 0 then r\<lparr>rg_live := rg_live r - 1\<rparr> else r)))
       (map fst (rg_grants r)) (0, r)"

section \<open>Recovery\<close>

definition install_recovered :: "snapshot \<Rightarrow> grant \<Rightarrow> registry \<Rightarrow> status \<times> registry" where
  "install_recovered s g r =
     (if \<not> snapshot_valid s then (Status kInvalidArgument ''snapshot handle is empty'', r)
      else if \<not> id_is_set (g_id g)
      then (Status kInvalidIdentity ''recovered grant has no identity'', r)
      else if omap_get (rg_grants r) (g_id g) \<noteq> None
      then (Status kDuplicateIdentity ''recovered grant is already installed'', r)
      else if rg_live r \<ge> al_max_live_grants (rg_limits r)
      then (Status kResourceExhausted ''live grant bound reached during recovery'', r)
      else
        (let r = r\<lparr>rg_next_fence := max (rg_next_fence r) (g_fence g)\<rparr>;
             resolved = (if g_capacity_pool g = [] then capacity_pool_refs s (g_scope g)
                         else Inr (g_capacity_pool g))
         in
         case resolved of
           Inl _ \<Rightarrow>
             (let g = g\<lparr>g_state := GrantState_kFenced,
                        g_reason := (if g_reason g = [] then ''scope no longer resolves after restart''
                                     else g_reason g)\<rparr>
              in (ok_status, r\<lparr>rg_grants := omap_put (g_id g) g (rg_grants r)\<rparr>))
         | Inr pool \<Rightarrow>
             (let g = g\<lparr>g_capacity_pool := pool, g_state := GrantState_kRecovering,
                        g_reason := (if g_reason g = []
                                     then ''recovered from durable state; awaiting revalidation''
                                     else g_reason g)\<rparr>;
                  r = attach s g r
              in (ok_status,
                  r\<lparr>rg_grants := omap_put (g_id g) g (rg_grants r), rg_live := rg_live r + 1,
                    rg_recovering := rg_recovering r + 1\<rparr>))))"

fun first_ineligible :: "snapshot \<Rightarrow> resource_ref list \<Rightarrow> resource_ref option" where
  "first_ineligible s [] = None"
| "first_ineligible s (ref # refs) =
     (case find_resource s ref of
        None \<Rightarrow> Some ref
      | Some st \<Rightarrow> if rs_eligibility st \<noteq> Eligibility_kEligible then Some ref else first_ineligible s refs)"

text \<open>Why a recovering grant cannot be re-armed, or nothing.\<close>

definition rearm_failure :: "snapshot \<Rightarrow> timestamp_ms \<Rightarrow> grant \<Rightarrow> string option" where
  "rearm_failure s now g =
     (case expand_scope s (g_scope g) of
        Inl st \<Rightarrow> Some (''scope no longer resolves: '' @ st_detail st)
      | Inr expanded \<Rightarrow>
          if g_expires_at_ms g \<le> now then Some ''lease expired while the daemon was down''
          else if g_epoch g \<noteq> sd_epoch (sn_data s)
          then Some ''rack membership epoch changed while the daemon was down''
          else if g_generation g > sd_generation (sn_data s)
          then Some ''durable grant names a generation the rack has not reached''
          else if authority_basis_digest s expanded \<noteq> g_authority_basis g
          then Some ''the resources this grant depends on changed while the daemon was down''
          else
            (case first_ineligible s expanded of
               None \<Rightarrow> None
             | Some ref \<Rightarrow> Some (''scope contains a resource that is not eligible: '' @ ref_to_text ref)))"

definition revalidate ::
  "snapshot \<Rightarrow> controller_incarnation \<Rightarrow> timestamp_ms \<Rightarrow> registry \<Rightarrow> nat \<times> registry" where
  "revalidate s incarnation now r =
     (let r = r\<lparr>rg_incarnation := incarnation\<rparr> in
      fold (\<lambda>i (rearmed, r).
              case omap_get (rg_grants r) i of
                None \<Rightarrow> (rearmed, r)
              | Some g \<Rightarrow>
                  if g_state g \<noteq> GrantState_kRecovering then (rearmed, r)
                  else
                    (let (rearmed, r) =
                       (case rearm_failure s now g of
                          None \<Rightarrow>
                            (let r = r\<lparr>rg_next_fence := rg_next_fence r + 1\<rparr>;
                                 g = g\<lparr>g_state := GrantState_kActive, g_incarnation := incarnation,
                                       g_fence := rg_next_fence r, g_issued_at_ms := now, g_reason := []\<rparr>
                             in (rearmed + 1, r\<lparr>rg_grants := omap_put i g (rg_grants r)\<rparr>))
                        | Some failure \<Rightarrow>
                            (let r = detach g r;
                                 r = r\<lparr>rg_grants := omap_put i
                                       (g\<lparr>g_state := GrantState_kFenced, g_reason := failure\<rparr>) (rg_grants r)\<rparr>
                             in (rearmed, if rg_live r > 0 then r\<lparr>rg_live := rg_live r - 1\<rparr> else r)))
                     in (rearmed,
                         if rg_recovering r > 0 then r\<lparr>rg_recovering := rg_recovering r - 1\<rparr> else r)))
        (map fst (rg_grants r)) (0, r))"

definition install_outcome :: "request_id \<Rightarrow> request_outcome \<Rightarrow> registry \<Rightarrow> registry" where
  "install_outcome q outcome r =
     (if \<not> request_is_set q then r
      else if length (rg_outcomes r) \<ge> al_max_remembered_requests (rg_limits r) \<and>
              omap_get (rg_outcomes r) q = None then r
      else r\<lparr>rg_outcomes := omap_put q outcome (rg_outcomes r)\<rparr>)"

definition apply_state :: "grant_id \<Rightarrow> grant_state \<Rightarrow> string \<Rightarrow> registry \<Rightarrow> status \<times> registry" where
  "apply_state i state reason r =
     (case omap_get (rg_grants r) i of
        None \<Rightarrow> (Status kNotFound ''no such grant'', r)
      | Some g \<Rightarrow>
          if state = GrantState_kReleased \<or> state = GrantState_kFenced \<or> state = GrantState_kExpired then
            (ok_status,
             if is_live_state (g_state g) then retire i g state reason r
             else r\<lparr>rg_grants := omap_put i (g\<lparr>g_state := state, g_reason := reason\<rparr>) (rg_grants r)\<rparr>)
          else (Status kInvalidArgument
                  ''only terminal grant states may be applied from a log record'', r))"

definition set_incarnation :: "controller_incarnation \<Rightarrow> registry \<Rightarrow> registry" where
  "set_incarnation incarnation r = r\<lparr>rg_incarnation := incarnation\<rparr>"

section \<open>Queries\<close>

definition lookup_request :: "request_id \<Rightarrow> registry \<Rightarrow> request_outcome result" where
  "lookup_request q r =
     (case omap_get (rg_outcomes r) q of
        None \<Rightarrow> fail kUnknown
          (''this daemon has no record of the request; it was either refused before '' @
           ''being durably remembered or it belongs to a store that was discarded'')
      | Some outcome \<Rightarrow> Inr outcome)"

definition registry_find :: "grant_id \<Rightarrow> registry \<Rightarrow> grant option" where
  "registry_find i r = omap_get (rg_grants r) i"

definition registry_list :: "registry \<Rightarrow> grant list" where
  "registry_list r = map snd (rg_grants r)"

definition conflicts_bruteforce :: "snapshot \<Rightarrow> grant_request \<Rightarrow> registry \<Rightarrow> grant_id list result" where
  "conflicts_bruteforce s q r =
     rnf_try (expand_scope s (q_scope q)) (\<lambda>expanded.
       Inr (sort (map (\<lambda>(i, g). g_id g)
         (filter (\<lambda>(i, g). is_live_state (g_state g) \<and> occupant_conflicts (q_mode q) (g_mode g) \<and>
            (case expand_scope s (g_scope g) of
               Inl _ \<Rightarrow> False
             | Inr other \<Rightarrow> scopes_intersect expanded other)) (rg_grants r)))))"

end
