(* ===== verification/Rnf_Registry_Inv.thy ===== *)
theory Rnf_Registry_Inv
  imports Rnf_Registry
begin

text \<open>
  The invariant of the grant registry and its preservation by every operation. The exclusivity index
  lists, for every resource, exactly the live grants whose stored footprint names it; the capacity
  account of a resource is the sum of the capacities of the live grants that draw from it; the two
  counters count; identities and fences never exceed the fence counter; and no two grants share a
  resource unless both are shared grants or both were recovered from a log. Recovery installs every
  durable grant without comparing it with the others, so two recovered grants may conflict; a grant the
  registry issued itself conflicts with nothing.
\<close>

section \<open>The invariant\<close>

abbreviation g_live :: "grant \<Rightarrow> bool" where
  "g_live g \<equiv> is_live_state (g_state g)"

definition occ_at :: "registry \<Rightarrow> resource_ref \<Rightarrow> occupant list" where
  "occ_at r ref = (case omap_get (rg_occupancy r) ref of Some l \<Rightarrow> l | None \<Rightarrow> [])"

definition charge :: "resource_ref \<Rightarrow> grant_id \<Rightarrow> grant \<Rightarrow> nat" where
  "charge ref i g = (if g_live g \<and> ref \<in> set (g_capacity_pool g) then unat (g_capacity g) else 0)"

definition ids_ok :: "registry \<Rightarrow> bool" where
  "ids_ok r \<longleftrightarrow>
     omap_ok (rg_grants r) \<and> omap_ok (rg_outcomes r) \<and>
     (\<forall>i g. omap_get (rg_grants r) i = Some g \<longrightarrow>
        g_id g = i \<and> i \<le> rg_next_fence r \<and> g_fence g \<le> rg_next_fence r \<and>
        (g_live g \<longrightarrow> distinct (g_capacity_pool g)))"

definition index_ok :: "registry \<Rightarrow> bool" where
  "index_ok r \<longleftrightarrow>
     omap_ok (rg_occupancy r) \<and> omap_ok (rg_footprints r) \<and>
     (\<forall>i fp. omap_get (rg_footprints r) i = Some fp \<longrightarrow>
        distinct fp \<and> (\<exists>g. omap_get (rg_grants r) i = Some g \<and> g_live g)) \<and>
     (\<forall>ref. distinct (map op_id (occ_at r ref))) \<and>
     (\<forall>ref x. x \<in> set (occ_at r ref) \<longleftrightarrow>
        (\<exists>fp g. omap_get (rg_footprints r) (op_id x) = Some fp \<and> ref \<in> set fp \<and>
           omap_get (rg_grants r) (op_id x) = Some g \<and> op_mode x = g_mode g)) \<and>
     rg_occupancy_entries r = omap_sum (\<lambda>i. length) (rg_footprints r)"

definition account_ok :: "registry \<Rightarrow> bool" where
  "account_ok r \<longleftrightarrow>
     omap_ok (rg_committed r) \<and>
     (\<forall>ref. unat (committed ref r) = omap_sum (charge ref) (rg_grants r))"

definition counts_ok :: "registry \<Rightarrow> bool" where
  "counts_ok r \<longleftrightarrow>
     rg_live r = omap_sum (\<lambda>i g. if g_live g then 1 else 0) (rg_grants r) \<and>
     rg_recovering r =
       omap_sum (\<lambda>i g. if g_state g = GrantState_kRecovering then 1 else 0) (rg_grants r)"

text \<open>
  A grant is issued with its own identity as its fence, and a fence changes only when a recovered grant is
  re-armed, with one above every identity given out. So a recovered grant shows: it is still recovering or
  its fence is not its identity.
\<close>

definition restored :: "grant \<Rightarrow> bool" where
  "restored g \<longleftrightarrow> g_state g = GrantState_kRecovering \<or> g_fence g \<noteq> g_id g"

definition exclusive_ok :: "registry \<Rightarrow> bool" where
  "exclusive_ok r \<longleftrightarrow>
     (\<forall>i j fp fq g h. omap_get (rg_footprints r) i = Some fp \<longrightarrow> omap_get (rg_footprints r) j = Some fq \<longrightarrow>
        omap_get (rg_grants r) i = Some g \<longrightarrow> omap_get (rg_grants r) j = Some h \<longrightarrow> i \<noteq> j \<longrightarrow>
        set fp \<inter> set fq \<noteq> {} \<longrightarrow> occupant_conflicts (g_mode g) (g_mode h) \<longrightarrow> restored g \<and> restored h)"

definition registry_ok :: "registry \<Rightarrow> bool" where
  "registry_ok r \<longleftrightarrow> ids_ok r \<and> index_ok r \<and> account_ok r \<and> counts_ok r \<and> exclusive_ok r"

text \<open>Everything but exclusivity.\<close>

definition registry_base :: "registry \<Rightarrow> bool" where
  "registry_base r \<longleftrightarrow> ids_ok r \<and> index_ok r \<and> account_ok r \<and> counts_ok r"

lemma registry_ok_base: "registry_ok r \<longleftrightarrow> registry_base r \<and> exclusive_ok r"
  by (auto simp: registry_ok_def registry_base_def)

lemma index_footprint:
  "index_ok r \<Longrightarrow> omap_get (rg_footprints r) i = Some fp \<Longrightarrow>
     distinct fp \<and> (\<exists>g. omap_get (rg_grants r) i = Some g \<and> g_live g)"
  unfolding index_ok_def by blast

lemma index_occupants:
  "index_ok r \<Longrightarrow> x \<in> set (occ_at r ref) \<longleftrightarrow>
     (\<exists>fp g. omap_get (rg_footprints r) (op_id x) = Some fp \<and> ref \<in> set fp \<and>
        omap_get (rg_grants r) (op_id x) = Some g \<and> op_mode x = g_mode g)"
  unfolding index_ok_def by blast

lemma index_distinct: "index_ok r \<Longrightarrow> distinct (map op_id (occ_at r ref))"
  unfolding index_ok_def by blast

lemma registry_ok_new: "registry_ok (registry_new limits)"
  by (simp add: registry_ok_def ids_ok_def index_ok_def account_ok_def counts_ok_def exclusive_ok_def
      registry_new_def occ_at_def committed_def)

section \<open>What the index operations change\<close>

lemma occupy_fields [simp]:
  "rg_grants (occupy g ref r) = rg_grants r" "rg_outcomes (occupy g ref r) = rg_outcomes r"
  "rg_footprints (occupy g ref r) = rg_footprints r" "rg_committed (occupy g ref r) = rg_committed r"
  "rg_committed_total (occupy g ref r) = rg_committed_total r" "rg_limits (occupy g ref r) = rg_limits r"
  "rg_next_fence (occupy g ref r) = rg_next_fence r" "rg_incarnation (occupy g ref r) = rg_incarnation r"
  "rg_live (occupy g ref r) = rg_live r" "rg_recovering (occupy g ref r) = rg_recovering r"
  "rg_occupancy_entries (occupy g ref r) = rg_occupancy_entries r + 1"
  by (simp_all add: occupy_def Let_def)

lemma vacate_fields [simp]:
  "rg_grants (vacate g ref r) = rg_grants r" "rg_outcomes (vacate g ref r) = rg_outcomes r"
  "rg_footprints (vacate g ref r) = rg_footprints r" "rg_committed (vacate g ref r) = rg_committed r"
  "rg_committed_total (vacate g ref r) = rg_committed_total r" "rg_limits (vacate g ref r) = rg_limits r"
  "rg_next_fence (vacate g ref r) = rg_next_fence r" "rg_incarnation (vacate g ref r) = rg_incarnation r"
  "rg_live (vacate g ref r) = rg_live r" "rg_recovering (vacate g ref r) = rg_recovering r"
  by (simp_all add: vacate_def Let_def split: option.splits)

lemma commit_fields [simp]:
  "rg_grants (commit g ref r) = rg_grants r" "rg_outcomes (commit g ref r) = rg_outcomes r"
  "rg_footprints (commit g ref r) = rg_footprints r" "rg_occupancy (commit g ref r) = rg_occupancy r"
  "rg_occupancy_entries (commit g ref r) = rg_occupancy_entries r"
  "rg_committed_total (commit g ref r) = rg_committed_total r" "rg_limits (commit g ref r) = rg_limits r"
  "rg_next_fence (commit g ref r) = rg_next_fence r" "rg_incarnation (commit g ref r) = rg_incarnation r"
  "rg_live (commit g ref r) = rg_live r" "rg_recovering (commit g ref r) = rg_recovering r"
  by (simp_all add: commit_def Let_def)

lemma uncommit_fields [simp]:
  "rg_grants (uncommit g ref r) = rg_grants r" "rg_outcomes (uncommit g ref r) = rg_outcomes r"
  "rg_footprints (uncommit g ref r) = rg_footprints r" "rg_occupancy (uncommit g ref r) = rg_occupancy r"
  "rg_occupancy_entries (uncommit g ref r) = rg_occupancy_entries r"
  "rg_committed_total (uncommit g ref r) = rg_committed_total r" "rg_limits (uncommit g ref r) = rg_limits r"
  "rg_next_fence (uncommit g ref r) = rg_next_fence r" "rg_incarnation (uncommit g ref r) = rg_incarnation r"
  "rg_live (uncommit g ref r) = rg_live r" "rg_recovering (uncommit g ref r) = rg_recovering r"
  by (simp_all add: uncommit_def Let_def split: option.splits)

lemma fold_field: "(\<And>x r. x \<in> set xs \<Longrightarrow> f (h x r) = f r) \<Longrightarrow> f (fold h xs r) = f r"
  by (induction xs arbitrary: r) auto

lemma fold_occupy_fields [simp]:
  "rg_grants (fold (occupy g) xs r) = rg_grants r" "rg_outcomes (fold (occupy g) xs r) = rg_outcomes r"
  "rg_footprints (fold (occupy g) xs r) = rg_footprints r"
  "rg_committed (fold (occupy g) xs r) = rg_committed r"
  "rg_committed_total (fold (occupy g) xs r) = rg_committed_total r"
  "rg_limits (fold (occupy g) xs r) = rg_limits r"
  "rg_next_fence (fold (occupy g) xs r) = rg_next_fence r"
  "rg_incarnation (fold (occupy g) xs r) = rg_incarnation r"
  "rg_live (fold (occupy g) xs r) = rg_live r" "rg_recovering (fold (occupy g) xs r) = rg_recovering r"
  "rg_occupancy_entries (fold (occupy g) xs r) = rg_occupancy_entries r + length xs"
  by (induction xs arbitrary: r) simp_all

lemma fold_vacate_fields [simp]:
  "rg_grants (fold (vacate g) xs r) = rg_grants r" "rg_outcomes (fold (vacate g) xs r) = rg_outcomes r"
  "rg_footprints (fold (vacate g) xs r) = rg_footprints r"
  "rg_committed (fold (vacate g) xs r) = rg_committed r"
  "rg_committed_total (fold (vacate g) xs r) = rg_committed_total r"
  "rg_limits (fold (vacate g) xs r) = rg_limits r"
  "rg_next_fence (fold (vacate g) xs r) = rg_next_fence r"
  "rg_incarnation (fold (vacate g) xs r) = rg_incarnation r"
  "rg_live (fold (vacate g) xs r) = rg_live r" "rg_recovering (fold (vacate g) xs r) = rg_recovering r"
  by (induction xs arbitrary: r) simp_all

lemma fold_commit_fields [simp]:
  "rg_grants (fold (commit g) xs r) = rg_grants r" "rg_outcomes (fold (commit g) xs r) = rg_outcomes r"
  "rg_footprints (fold (commit g) xs r) = rg_footprints r"
  "rg_occupancy (fold (commit g) xs r) = rg_occupancy r"
  "rg_occupancy_entries (fold (commit g) xs r) = rg_occupancy_entries r"
  "rg_committed_total (fold (commit g) xs r) = rg_committed_total r"
  "rg_limits (fold (commit g) xs r) = rg_limits r"
  "rg_next_fence (fold (commit g) xs r) = rg_next_fence r"
  "rg_incarnation (fold (commit g) xs r) = rg_incarnation r"
  "rg_live (fold (commit g) xs r) = rg_live r" "rg_recovering (fold (commit g) xs r) = rg_recovering r"
  by (induction xs arbitrary: r) simp_all

lemma fold_uncommit_fields [simp]:
  "rg_grants (fold (uncommit g) xs r) = rg_grants r" "rg_outcomes (fold (uncommit g) xs r) = rg_outcomes r"
  "rg_footprints (fold (uncommit g) xs r) = rg_footprints r"
  "rg_occupancy (fold (uncommit g) xs r) = rg_occupancy r"
  "rg_occupancy_entries (fold (uncommit g) xs r) = rg_occupancy_entries r"
  "rg_committed_total (fold (uncommit g) xs r) = rg_committed_total r"
  "rg_limits (fold (uncommit g) xs r) = rg_limits r"
  "rg_next_fence (fold (uncommit g) xs r) = rg_next_fence r"
  "rg_incarnation (fold (uncommit g) xs r) = rg_incarnation r"
  "rg_live (fold (uncommit g) xs r) = rg_live r" "rg_recovering (fold (uncommit g) xs r) = rg_recovering r"
  by (induction xs arbitrary: r) simp_all

lemma occ_at_cong: "rg_occupancy r = rg_occupancy r' \<Longrightarrow> occ_at r ref = occ_at r' ref"
  by (simp add: occ_at_def)

lemma occ_at_occupy:
  "occ_at (occupy g ref r) ref' =
     (if ref' = ref then sort_key op_id (occ_at r ref @ [Occupant (g_id g) (g_mode g)]) else occ_at r ref')"
  by (auto simp: occ_at_def occupy_def Let_def omap_get_put)

lemma occ_at_fold_occupy:
  "distinct xs \<Longrightarrow>
   occ_at (fold (occupy g) xs r) ref =
     (if ref \<in> set xs then sort_key op_id (occ_at r ref @ [Occupant (g_id g) (g_mode g)]) else occ_at r ref)"
  by (induction xs arbitrary: r) (auto simp: occ_at_occupy)

lemma omap_ok_fold_occupy: "omap_ok (rg_occupancy r) \<Longrightarrow> omap_ok (rg_occupancy (fold (occupy g) xs r))"
  by (induction xs arbitrary: r) (simp_all add: occupy_def Let_def omap_ok_put)

lemma occ_at_vacate:
  "omap_ok (rg_occupancy r) \<Longrightarrow>
   occ_at (vacate g ref r) ref' =
     (if ref' = ref then filter (\<lambda>x. op_id x \<noteq> g_id g) (occ_at r ref) else occ_at r ref')"
  by (auto simp: occ_at_def vacate_def Let_def omap_get_put omap_get_erase split: option.splits)

lemma omap_ok_vacate: "omap_ok (rg_occupancy r) \<Longrightarrow> omap_ok (rg_occupancy (vacate g ref r))"
  by (auto simp: vacate_def Let_def omap_ok_put omap_ok_erase split: option.splits)

lemma entries_vacate:
  "rg_occupancy_entries (vacate g ref r) =
     rg_occupancy_entries r - (length (occ_at r ref) - length (filter (\<lambda>x. op_id x \<noteq> g_id g) (occ_at r ref)))"
  by (auto simp: occ_at_def vacate_def Let_def split: option.splits)

lemma fold_vacate:
  "omap_ok (rg_occupancy r) \<Longrightarrow> distinct xs \<Longrightarrow>
   omap_ok (rg_occupancy (fold (vacate g) xs r)) \<and>
   occ_at (fold (vacate g) xs r) ref =
     (if ref \<in> set xs then filter (\<lambda>x. op_id x \<noteq> g_id g) (occ_at r ref) else occ_at r ref)"
  by (induction xs arbitrary: r) (auto simp: occ_at_vacate omap_ok_vacate)

lemma removed_one:
  assumes "distinct (map op_id xs)" "Occupant i m \<in> set xs"
  shows "length xs - length (filter (\<lambda>x. op_id x \<noteq> i) xs) = 1"
  using assms
proof (induction xs)
  case Nil
  then show ?case by simp
next
  case (Cons y ys)
  show ?case
  proof (cases "op_id y = i")
    case True
    then have "filter (\<lambda>x. op_id x \<noteq> i) ys = ys" using Cons.prems(1) by (intro filter_True) (auto simp: image_iff)
    with True show ?thesis by simp
  next
    case False
    with Cons.prems have "Occupant i m \<in> set ys" by auto
    with Cons.IH Cons.prems(1) have
      "length ys - length (filter (\<lambda>x. op_id x \<noteq> i) ys) = 1" by simp
    then show ?thesis using False by simp
  qed
qed

lemma entries_fold_vacate:
  assumes "omap_ok (rg_occupancy r)" "distinct xs"
    and "\<And>ref. ref \<in> set xs \<Longrightarrow> distinct (map op_id (occ_at r ref)) \<and> Occupant (g_id g) m \<in> set (occ_at r ref)"
  shows "rg_occupancy_entries (fold (vacate g) xs r) = rg_occupancy_entries r - length xs"
  using assms
proof (induction xs arbitrary: r)
  case Nil
  then show ?case by simp
next
  case (Cons ref xs)
  have one: "rg_occupancy_entries (vacate g ref r) = rg_occupancy_entries r - 1"
  proof -
    have "length (occ_at r ref) - length (filter (\<lambda>x. op_id x \<noteq> g_id g) (occ_at r ref)) = 1"
      using Cons.prems(3) [of ref] by (intro removed_one [where m = m]) auto
    then show ?thesis by (simp only: entries_vacate)
  qed
  have "occ_at (vacate g ref r) ref' = occ_at r ref'" if "ref' \<in> set xs" for ref'
    using that Cons.prems(1,2) by (auto simp: occ_at_vacate)
  with Cons.IH [of "vacate g ref r"] Cons.prems one show ?case by (simp add: omap_ok_vacate)
qed

section \<open>What the account operations change\<close>

lemma committed_commit:
  "committed ref' (commit g ref r) =
     (if ref' = ref then saturating_add_u64 (committed ref r) (g_capacity g) else committed ref' r)"
  by (auto simp: committed_def commit_def Let_def omap_get_put saturating_add_u64_def)

lemma omap_ok_commit: "omap_ok (rg_committed r) \<Longrightarrow> omap_ok (rg_committed (commit g ref r))"
  by (simp add: commit_def Let_def omap_ok_put)

lemma fold_commit:
  "omap_ok (rg_committed r) \<Longrightarrow> distinct xs \<Longrightarrow>
   omap_ok (rg_committed (fold (commit g) xs r)) \<and>
   committed ref (fold (commit g) xs r) =
     (if ref \<in> set xs then saturating_add_u64 (committed ref r) (g_capacity g) else committed ref r)"
  by (induction xs arbitrary: r) (auto simp: committed_commit omap_ok_commit)

lemma committed_uncommit:
  assumes "omap_ok (rg_committed r)" "unat (g_capacity g) \<le> unat (committed ref r)"
  shows "unat (committed ref' (uncommit g ref r)) =
     (if ref' = ref then unat (committed ref r) - unat (g_capacity g) else unat (committed ref' r))"
proof (cases "omap_get (rg_committed r) ref")
  case None
  then show ?thesis using assms by (auto simp: committed_def uncommit_def)
next
  case (Some used)
  then have le: "unat (g_capacity g) \<le> unat used" using assms by (simp add: committed_def)
  then obtain rest where rest: "checked_sub_u64 used (g_capacity g) = Some rest"
    using checked_sub_u64_None_iff [of used "g_capacity g"] by (cases "checked_sub_u64 used (g_capacity g)") auto
  then have "unat rest = unat used - unat (g_capacity g)" by (simp add: checked_sub_u64_Some_iff)
  moreover have "\<not> rest > 0 \<Longrightarrow> rest = 0" by (simp add: word_gt_0)
  ultimately show ?thesis
    using Some rest
    by (auto simp: committed_def uncommit_def omap_get_put omap_get_erase word_unat_eq_iff)
qed

lemma omap_ok_uncommit: "omap_ok (rg_committed r) \<Longrightarrow> omap_ok (rg_committed (uncommit g ref r))"
  by (auto simp: uncommit_def omap_ok_put omap_ok_erase split: option.splits)

lemma fold_uncommit:
  assumes "omap_ok (rg_committed r)" "distinct xs"
    and "\<And>ref. ref \<in> set xs \<Longrightarrow> unat (g_capacity g) \<le> unat (committed ref r)"
  shows "omap_ok (rg_committed (fold (uncommit g) xs r)) \<and>
   unat (committed ref (fold (uncommit g) xs r)) =
     (if ref \<in> set xs then unat (committed ref r) - unat (g_capacity g) else unat (committed ref r))"
  using assms
proof (induction xs arbitrary: r)
  case Nil
  then show ?case by simp
next
  case (Cons x xs)
  have x: "unat (g_capacity g) \<le> unat (committed x r)" using Cons.prems(3) by simp
  note step = committed_uncommit [OF Cons.prems(1) x]
  have "unat (g_capacity g) \<le> unat (committed ref (uncommit g x r))" if "ref \<in> set xs" for ref
    using that Cons.prems(2,3) step [of ref] by auto
  with Cons.IH [of "uncommit g x r"] Cons.prems(1,2) step show ?case
    by (auto simp: omap_ok_uncommit)
qed

section \<open>Attaching a new grant\<close>

lemma attach_fields [simp]:
  "rg_grants (attach s g r) = rg_grants r" "rg_outcomes (attach s g r) = rg_outcomes r"
  "rg_limits (attach s g r) = rg_limits r" "rg_next_fence (attach s g r) = rg_next_fence r"
  "rg_incarnation (attach s g r) = rg_incarnation r" "rg_live (attach s g r) = rg_live r"
  "rg_recovering (attach s g r) = rg_recovering r"
  by (simp_all add: attach_def Let_def split: sum.splits)

lemma attach_footprints:
  "rg_footprints (attach s g r) =
     (case expand_scope s (g_scope g) of Inl _ \<Rightarrow> rg_footprints r
      | Inr scope \<Rightarrow> omap_put (g_id g) scope (rg_footprints r))"
  by (simp add: attach_def Let_def split: sum.splits)

lemma attach_occupancy:
  "rg_occupancy (attach s g r) =
     (case expand_scope s (g_scope g) of Inl _ \<Rightarrow> rg_occupancy r
      | Inr scope \<Rightarrow> rg_occupancy (fold (occupy g) scope r))"
proof -
  have "rg_occupancy (fold (occupy g) scope (r\<lparr>rg_footprints := x\<rparr>)) = rg_occupancy (fold (occupy g) scope r)"
    for scope x
  proof (induction scope arbitrary: r)
    case Nil
    show ?case by simp
  next
    case (Cons ref scope)
    have "occupy g ref (r\<lparr>rg_footprints := x\<rparr>) = (occupy g ref r)\<lparr>rg_footprints := x\<rparr>"
      by (simp add: occupy_def Let_def)
    with Cons show ?case by simp
  qed
  then show ?thesis by (simp add: attach_def Let_def split: sum.splits)
qed

lemma attach_entries:
  "rg_occupancy_entries (attach s g r) =
     (case expand_scope s (g_scope g) of Inl _ \<Rightarrow> rg_occupancy_entries r
      | Inr scope \<Rightarrow> rg_occupancy_entries r + length scope)"
  by (simp add: attach_def Let_def split: sum.splits)

lemma committed_cong: "rg_committed r = rg_committed r' \<Longrightarrow> committed ref r = committed ref r'"
  by (simp add: committed_def)

lemma attach_committed:
  assumes "omap_ok (rg_committed r)" "distinct (g_capacity_pool g)"
  shows "omap_ok (rg_committed (attach s g r))"
    and "committed ref (attach s g r) =
      (if ref \<in> set (g_capacity_pool g) then saturating_add_u64 (committed ref r) (g_capacity g)
       else committed ref r)"
proof -
  define r1 where "r1 = (case expand_scope s (g_scope g) of Inl _ \<Rightarrow> r
      | Inr scope \<Rightarrow> fold (occupy g) scope (r\<lparr>rg_footprints := omap_put (g_id g) scope (rg_footprints r)\<rparr>))"
  have r1: "rg_committed r1 = rg_committed r" by (simp add: r1_def split: sum.splits)
  have c: "rg_committed (attach s g r) = rg_committed (fold (commit g) (g_capacity_pool g) r1)"
    by (simp add: attach_def Let_def r1_def)
  show "omap_ok (rg_committed (attach s g r))"
    using fold_commit [of r1 "g_capacity_pool g" g] assms r1 c by simp
  show "committed ref (attach s g r) =
      (if ref \<in> set (g_capacity_pool g) then saturating_add_u64 (committed ref r) (g_capacity g)
       else committed ref r)"
    using fold_commit [of r1 "g_capacity_pool g" g ref] assms r1 c committed_cong [OF c, of ref]
      committed_cong [OF r1, of ref] by simp
qed

text \<open>The conditions under which a grant may enter the registry as a live one.\<close>

definition enterable :: "grant \<Rightarrow> registry \<Rightarrow> bool" where
  "enterable g r \<longleftrightarrow>
     omap_get (rg_grants r) (g_id g) = None \<and> g_id g \<le> rg_next_fence r \<and> g_fence g \<le> rg_next_fence r \<and>
     g_live g \<and> distinct (g_capacity_pool g) \<and>
     (\<forall>ref\<in>set (g_capacity_pool g). unat (committed ref r) + unat (g_capacity g) < 2 ^ 64)"

definition admissible :: "snapshot \<Rightarrow> grant \<Rightarrow> registry \<Rightarrow> bool" where
  "admissible s g r \<longleftrightarrow>
     enterable g r \<and>
     (\<forall>scope j fq h. expand_scope s (g_scope g) = Inr scope \<longrightarrow> omap_get (rg_footprints r) j = Some fq \<longrightarrow>
        omap_get (rg_grants r) j = Some h \<longrightarrow> set scope \<inter> set fq \<noteq> {} \<longrightarrow>
        occupant_conflicts (g_mode g) (g_mode h) \<longrightarrow> restored g \<and> restored h)"

definition enter :: "snapshot \<Rightarrow> grant \<Rightarrow> registry \<Rightarrow> registry" where
  "enter s g r =
     (attach s g r)\<lparr>rg_grants := omap_put (g_id g) g (rg_grants r), rg_live := rg_live r + 1,
       rg_recovering := rg_recovering r + (if g_state g = GrantState_kRecovering then 1 else 0)\<rparr>"

lemma footprint_fresh:
  "index_ok r \<Longrightarrow> omap_get (rg_grants r) i = None \<Longrightarrow> omap_get (rg_footprints r) i = None"
  using index_footprint [of r i] by (cases "omap_get (rg_footprints r) i") auto

lemma ids_ok_enter: "ids_ok r \<Longrightarrow> enterable g r \<Longrightarrow> ids_ok (enter s g r)"
  by (auto simp: ids_ok_def enter_def enterable_def omap_ok_put omap_get_put)

lemma counts_ok_enter: "ids_ok r \<Longrightarrow> counts_ok r \<Longrightarrow> enterable g r \<Longrightarrow> counts_ok (enter s g r)"
  by (simp add: counts_ok_def ids_ok_def enter_def enterable_def omap_sum_put_new)

lemma account_ok_enter:
  assumes "ids_ok r" "account_ok r" "enterable g r"
  shows "account_ok (enter s g r)"
proof -
  have ok: "omap_ok (rg_committed r)" "distinct (g_capacity_pool g)"
    using assms by (auto simp: account_ok_def enterable_def)
  note att = attach_committed [OF ok]
  have "unat (committed ref (enter s g r)) = omap_sum (charge ref) (rg_grants (enter s g r))" for ref
  proof -
    have "committed ref (enter s g r) = committed ref (attach s g r)" by (simp add: committed_def enter_def)
    moreover have "unat (committed ref r) = omap_sum (charge ref) (rg_grants r)"
      using assms(2) by (simp add: account_ok_def)
    moreover have "omap_sum (charge ref) (rg_grants (enter s g r)) =
        omap_sum (charge ref) (rg_grants r) + charge ref (g_id g) g"
      using assms by (simp add: enter_def ids_ok_def enterable_def omap_sum_put_new)
    ultimately show ?thesis
      using att(2) [of ref] assms(3)
      by (auto simp: charge_def enterable_def unat_saturating_add_u64)
  qed
  then show ?thesis using att(1) by (simp add: account_ok_def enter_def)
qed

lemma index_ok_enter:
  assumes ids: "ids_ok r" and idx: "index_ok r" and adm: "enterable g r"
  shows "index_ok (enter s g r)"
proof -
  have fresh: "omap_get (rg_grants r) (g_id g) = None" using adm by (simp add: enterable_def)
  then have ffresh: "omap_get (rg_footprints r) (g_id g) = None" using idx footprint_fresh by blast
  have live: "g_live g" using adm by (simp add: enterable_def)
  have grants: "rg_grants (enter s g r) = omap_put (g_id g) g (rg_grants r)" by (simp add: enter_def)
  have foot: "rg_footprints (enter s g r) = rg_footprints (attach s g r)"
    and occ: "occ_at (enter s g r) ref = occ_at (attach s g r) ref"
    and ent: "rg_occupancy_entries (enter s g r) = rg_occupancy_entries (attach s g r)" for ref
    by (simp_all add: enter_def occ_at_def)
  have none: "x \<notin> set (occ_at r ref)" if "op_id x = g_id g" for x ref
    using index_occupants [OF idx, of x ref] fresh that by simp
  show ?thesis
  proof (cases "expand_scope s (g_scope g)")
    case (Inl st)
    then have "occ_at (enter s g r) ref = occ_at r ref" "rg_footprints (enter s g r) = rg_footprints r"
      "rg_occupancy_entries (enter s g r) = rg_occupancy_entries r"
      "rg_occupancy (enter s g r) = rg_occupancy r" for ref
      by (simp_all add: occ foot ent attach_footprints attach_entries attach_occupancy occ_at_def enter_def)
    with idx fresh ffresh show ?thesis
      unfolding index_ok_def grants by (auto simp: omap_get_put)
  next
    case (Inr scope)
    have dist: "distinct scope" using expand_scope_sorted [OF Inr] by (rule strict_sorted_distinct)
    have at: "occ_at (enter s g r) ref = (if ref \<in> set scope
        then sort_key op_id (occ_at r ref @ [Occupant (g_id g) (g_mode g)]) else occ_at r ref)" for ref
    proof -
      have "occ_at (attach s g r) ref = occ_at (fold (occupy g) scope r) ref"
        using Inr by (simp add: occ_at_def attach_occupancy)
      then show ?thesis using occ_at_fold_occupy [OF dist, of g r ref] by (simp add: occ)
    qed
    have fp: "rg_footprints (enter s g r) = omap_put (g_id g) scope (rg_footprints r)"
      using Inr by (simp add: foot attach_footprints)
    have okf: "omap_ok (rg_footprints r)" "omap_ok (rg_occupancy r)" using idx by (auto simp: index_ok_def)
    have n: "rg_occupancy_entries (enter s g r) = omap_sum (\<lambda>i. length) (rg_footprints (enter s g r))"
      using idx Inr omap_sum_put_new [OF okf(1) ffresh, of "\<lambda>i. length" scope]
      by (simp add: ent attach_entries fp index_ok_def)
    have d: "distinct (map op_id (occ_at (enter s g r) ref))" for ref
    proof -
      have "distinct (map op_id (occ_at r ref))" using idx by (rule index_distinct)
      moreover have "g_id g \<notin> op_id ` set (occ_at r ref)" using none [of _ ref] by auto
      ultimately have "distinct (map op_id (occ_at r ref @ [Occupant (g_id g) (g_mode g)]))" by simp
      moreover have "distinct (map op_id (sort_key op_id ys)) \<longleftrightarrow> distinct (map op_id ys)" for ys
        by (metis distinct_sort sort_key_simps set_sort mset_sort mset_map mset_eq_imp_distinct_iff)
      ultimately show ?thesis
        using \<open>distinct (map op_id (occ_at r ref))\<close> by (simp only: at split: if_splits) simp
    qed
    have mem: "x \<in> set (occ_at (enter s g r) ref) \<longleftrightarrow>
        (\<exists>fp h. omap_get (rg_footprints (enter s g r)) (op_id x) = Some fp \<and> ref \<in> set fp \<and>
           omap_get (rg_grants (enter s g r)) (op_id x) = Some h \<and> op_mode x = g_mode h)" for x ref
    proof (cases "op_id x = g_id g")
      case True
      then show ?thesis
        using none [OF True, of ref] by (cases x) (auto simp: at fp grants omap_get_put)
    next
      case False
      have "x \<in> set (occ_at r ref) \<longleftrightarrow>
        (\<exists>fp h. omap_get (rg_footprints r) (op_id x) = Some fp \<and> ref \<in> set fp \<and>
           omap_get (rg_grants r) (op_id x) = Some h \<and> op_mode x = g_mode h)"
        using idx by (rule index_occupants)
      moreover have "x \<noteq> Occupant (g_id g) (g_mode g)" using False by auto
      ultimately show ?thesis using False by (simp add: at fp grants omap_get_put)
    qed
    have live_fp: "distinct fp \<and> (\<exists>h. omap_get (rg_grants (enter s g r)) i = Some h \<and> g_live h)"
      if "omap_get (rg_footprints (enter s g r)) i = Some fp" for i fp
    proof (cases "i = g_id g")
      case True
      then show ?thesis using that live dist by (simp add: fp grants omap_get_put)
    next
      case False
      then have "omap_get (rg_footprints r) i = Some fp" using that by (simp add: fp omap_get_put)
      with idx have "distinct fp \<and> (\<exists>h. omap_get (rg_grants r) i = Some h \<and> g_live h)"
        by (rule index_footprint)
      with False show ?thesis by (simp add: grants omap_get_put)
    qed
    have okm: "omap_ok (rg_occupancy (enter s g r))" "omap_ok (rg_footprints (enter s g r))"
      using Inr okf omap_ok_fold_occupy by (simp_all add: enter_def attach_occupancy attach_footprints omap_ok_put)
    show ?thesis
      unfolding index_ok_def using okm live_fp d mem n by blast
  qed
qed

lemma exclusive_ok_enter:
  assumes "index_ok r" "exclusive_ok r" "admissible s g r"
  shows "exclusive_ok (enter s g r)"
proof -
  have fresh: "omap_get (rg_grants r) (g_id g) = None" using assms by (simp add: admissible_def enterable_def)
  have sym: "occupant_conflicts a b \<longleftrightarrow> occupant_conflicts b a" for a b
    by (auto simp: occupant_conflicts_def)
  show ?thesis
  proof (cases "expand_scope s (g_scope g)")
    case (Inl st)
    then have "rg_footprints (enter s g r) = rg_footprints r" by (simp add: enter_def attach_footprints)
    moreover have "omap_get (rg_footprints r) (g_id g) = None" using assms(1) fresh by (rule footprint_fresh)
    ultimately show ?thesis
      using assms(2) unfolding exclusive_ok_def by (auto simp: enter_def omap_get_put)
  next
    case (Inr scope)
    have fp: "rg_footprints (enter s g r) = omap_put (g_id g) scope (rg_footprints r)"
      using Inr by (simp add: enter_def attach_footprints)
    have new: "restored g \<and> restored h"
      if "omap_get (rg_footprints r) j = Some fq" "omap_get (rg_grants r) j = Some h" "set scope \<inter> set fq \<noteq> {}"
        "occupant_conflicts (g_mode g) (g_mode h)" for j fq h
      using assms(3) Inr that unfolding admissible_def by blast
    have old: "restored h \<and> restored k"
      if "omap_get (rg_footprints r) i = Some fp" "omap_get (rg_footprints r) j = Some fq"
        "omap_get (rg_grants r) i = Some h" "omap_get (rg_grants r) j = Some k" "i \<noteq> j" "set fp \<inter> set fq \<noteq> {}"
        "occupant_conflicts (g_mode h) (g_mode k)"
      for i j fp fq h k
      using assms(2) that unfolding exclusive_ok_def by blast
    show ?thesis
      unfolding exclusive_ok_def
    proof (intro allI impI)
      fix i j fa fb h k
      assume *: "omap_get (rg_footprints (enter s g r)) i = Some fa"
        "omap_get (rg_footprints (enter s g r)) j = Some fb"
        "omap_get (rg_grants (enter s g r)) i = Some h" "omap_get (rg_grants (enter s g r)) j = Some k"
        "i \<noteq> j" "set fa \<inter> set fb \<noteq> {}" "occupant_conflicts (g_mode h) (g_mode k)"
      have gr: "rg_grants (enter s g r) = omap_put (g_id g) g (rg_grants r)" by (simp add: enter_def)
      note * = * [unfolded gr fp omap_get_put]
      consider "i = g_id g" | "j = g_id g" | "i \<noteq> g_id g" "j \<noteq> g_id g" by blast
      then show "restored h \<and> restored k"
      proof cases
        case 1
        with * show ?thesis using new [of j fb k] by auto
      next
        case 2
        with * show ?thesis using new [of i fa h] sym [of "g_mode h"] by (auto simp: Int_commute)
      next
        case 3
        with * show ?thesis using old [of i fa j fb h k] by simp
      qed
    qed
  qed
qed

lemma registry_base_enter: "registry_base r \<Longrightarrow> enterable g r \<Longrightarrow> registry_base (enter s g r)"
  by (simp add: registry_base_def ids_ok_enter index_ok_enter account_ok_enter counts_ok_enter)

lemma registry_ok_enter:
  assumes "registry_ok r" "admissible s g r"
  shows "registry_ok (enter s g r)"
  using assms registry_base_enter [of r g s] exclusive_ok_enter [of r s g]
  by (simp add: registry_ok_base admissible_def registry_base_def)

section \<open>Retiring a grant\<close>

lemma detach_fields [simp]:
  "rg_grants (detach g r) = rg_grants r" "rg_outcomes (detach g r) = rg_outcomes r"
  "rg_limits (detach g r) = rg_limits r" "rg_next_fence (detach g r) = rg_next_fence r"
  "rg_incarnation (detach g r) = rg_incarnation r" "rg_live (detach g r) = rg_live r"
  "rg_recovering (detach g r) = rg_recovering r"
  by (simp_all add: detach_def Let_def split: option.splits)

lemma detach_footprints:
  "omap_ok (rg_footprints r) \<Longrightarrow> rg_footprints (detach g r) = omap_erase (g_id g) (rg_footprints r)"
  by (auto simp: detach_def Let_def omap.erase_absent split: option.splits)

lemma detach_occupancy:
  "rg_occupancy (detach g r) =
     (case omap_get (rg_footprints r) (g_id g) of None \<Rightarrow> rg_occupancy r
      | Some fp \<Rightarrow> rg_occupancy (fold (vacate g) fp r))"
  by (simp add: detach_def Let_def split: option.splits)

lemma detach_entries:
  "rg_occupancy_entries (detach g r) =
     (case omap_get (rg_footprints r) (g_id g) of None \<Rightarrow> rg_occupancy_entries r
      | Some fp \<Rightarrow> rg_occupancy_entries (fold (vacate g) fp r))"
  by (simp add: detach_def Let_def split: option.splits)

lemma detach_occ_at:
  assumes "index_ok r" "omap_get (rg_grants r) (g_id g) = Some g"
  shows "omap_ok (rg_occupancy (detach g r)) \<and>
     occ_at (detach g r) ref = filter (\<lambda>x. op_id x \<noteq> g_id g) (occ_at r ref)"
proof (cases "omap_get (rg_footprints r) (g_id g)")
  case None
  have "filter (\<lambda>x. op_id x \<noteq> g_id g) (occ_at r ref) = occ_at r ref"
    using index_occupants [OF assms(1), of _ ref] None by (intro filter_True) auto
  then show ?thesis
    using None assms(1) by (simp add: occ_at_def detach_occupancy index_ok_def)
next
  case (Some fp)
  have fp: "distinct fp" "omap_ok (rg_occupancy r)"
    using index_footprint [OF assms(1) Some] assms(1) by (auto simp: index_ok_def)
  have "filter (\<lambda>x. op_id x \<noteq> g_id g) (occ_at r ref) = occ_at r ref" if "ref \<notin> set fp"
    using index_occupants [OF assms(1), of _ ref] Some that by (intro filter_True) auto
  then have "(if ref \<in> set fp then filter (\<lambda>x. op_id x \<noteq> g_id g) (occ_at r ref) else occ_at r ref) =
      filter (\<lambda>x. op_id x \<noteq> g_id g) (occ_at r ref)" by simp
  moreover have "rg_occupancy (detach g r) = rg_occupancy (fold (vacate g) fp r)"
    using Some by (simp add: detach_occupancy)
  ultimately show ?thesis
    using fold_vacate [OF fp(2,1), of g ref] occ_at_cong [of "detach g r" "fold (vacate g) fp r" ref] by simp
qed

lemma detach_committed:
  assumes "ids_ok r" "account_ok r" "omap_get (rg_grants r) (g_id g) = Some g" "g_live g"
  shows "omap_ok (rg_committed (detach g r)) \<and>
     unat (committed ref (detach g r)) =
       (if ref \<in> set (g_capacity_pool g) then unat (committed ref r) - unat (g_capacity g)
        else unat (committed ref r))"
proof -
  define r1 where "r1 = (case omap_get (rg_footprints r) (g_id g) of None \<Rightarrow> r
      | Some fp \<Rightarrow> (fold (vacate g) fp r)\<lparr>rg_footprints := omap_erase (g_id g) (rg_footprints r)\<rparr>)"
  have r1: "rg_committed r1 = rg_committed r" by (simp add: r1_def split: option.splits)
  have c: "rg_committed (detach g r) = rg_committed (fold (uncommit g) (g_capacity_pool g) r1)"
    by (cases "omap_get (rg_footprints r) (g_id g)") (simp_all add: detach_def Let_def r1_def)
  have "distinct (g_capacity_pool g)" using assms by (auto simp: ids_ok_def)
  moreover have "omap_ok (rg_committed r1)" using assms(2) r1 by (simp add: account_ok_def)
  moreover have "unat (g_capacity g) \<le> unat (committed ref r1)" if "ref \<in> set (g_capacity_pool g)" for ref
  proof -
    have "charge ref (g_id g) g \<le> omap_sum (charge ref) (rg_grants r)"
      by (rule omap_sum_ge [OF assms(3)])
    then show ?thesis
      using assms(2,4) that committed_cong [OF r1, of ref] by (simp add: account_ok_def charge_def)
  qed
  ultimately show ?thesis
    using fold_uncommit [of r1 "g_capacity_pool g" g ref] c committed_cong [OF c, of ref]
      committed_cong [OF r1, of ref] by simp
qed

lemma retire_fields [simp]:
  "rg_grants (retire i g st reason r) = omap_put i (g\<lparr>g_state := st, g_reason := reason\<rparr>) (rg_grants r)"
  "rg_outcomes (retire i g st reason r) = rg_outcomes r"
  "rg_limits (retire i g st reason r) = rg_limits r"
  "rg_next_fence (retire i g st reason r) = rg_next_fence r"
  "rg_incarnation (retire i g st reason r) = rg_incarnation r"
  "rg_live (retire i g st reason r) = rg_live r - 1"
  "rg_recovering (retire i g st reason r) =
     (if g_state g = GrantState_kRecovering then rg_recovering r - 1 else rg_recovering r)"
  by (auto simp: retire_def Let_def)

lemma detach_recovering:
  "detach g (r\<lparr>rg_recovering := n\<rparr>) = (detach g r)\<lparr>rg_recovering := n\<rparr>"
proof -
  have v: "fold (vacate g) xs (r\<lparr>rg_recovering := n\<rparr>) = (fold (vacate g) xs r)\<lparr>rg_recovering := n\<rparr>" for xs r
  proof (induction xs arbitrary: r)
    case (Cons x xs)
    have "vacate g x (r\<lparr>rg_recovering := n\<rparr>) = (vacate g x r)\<lparr>rg_recovering := n\<rparr>"
      by (cases r) (simp add: vacate_def Let_def split: option.splits)
    with Cons show ?case by simp
  qed simp
  have u: "fold (uncommit g) xs (r\<lparr>rg_recovering := n\<rparr>) = (fold (uncommit g) xs r)\<lparr>rg_recovering := n\<rparr>" for xs r
  proof (induction xs arbitrary: r)
    case (Cons x xs)
    have "uncommit g x (r\<lparr>rg_recovering := n\<rparr>) = (uncommit g x r)\<lparr>rg_recovering := n\<rparr>"
      by (cases r) (simp add: uncommit_def Let_def split: option.splits)
    with Cons show ?case by simp
  qed simp
  have f: "(r\<lparr>rg_recovering := n\<rparr>)\<lparr>rg_footprints := x\<rparr> = (r\<lparr>rg_footprints := x\<rparr>)\<lparr>rg_recovering := n\<rparr>" for r x
    by simp
  show ?thesis
    by (cases "omap_get (rg_footprints r) (g_id g)") (simp_all add: detach_def Let_def v u f)
qed

lemma retire_index_fields:
  "rg_footprints (retire i g st reason r) = rg_footprints (detach g r)"
  "rg_occupancy (retire i g st reason r) = rg_occupancy (detach g r)"
  "rg_occupancy_entries (retire i g st reason r) = rg_occupancy_entries (detach g r)"
  "rg_committed (retire i g st reason r) = rg_committed (detach g r)"
  by (simp_all add: retire_def Let_def detach_recovering)

lemma ids_ok_retire:
  "ids_ok r \<Longrightarrow> omap_get (rg_grants r) i = Some g \<Longrightarrow> \<not> is_live_state st \<Longrightarrow> ids_ok (retire i g st reason r)"
  by (auto simp: ids_ok_def omap_ok_put omap_get_put)

lemma live_not_retired: "is_live_state GrantState_kRecovering" by (simp add: is_live_state_def)

lemma counts_ok_retire:
  assumes "ids_ok r" "counts_ok r" "omap_get (rg_grants r) i = Some g" "g_live g" "\<not> is_live_state st"
  shows "counts_ok (retire i g st reason r)"
proof -
  have ok: "omap_ok (rg_grants r)" using assms(1) by (simp add: ids_ok_def)
  have st: "st \<noteq> GrantState_kRecovering" using assms(5) live_not_retired by auto
  note sums = omap_sum_put_old [OF ok assms(3), of "\<lambda>i g. if g_live g then 1 else 0" "g\<lparr>g_state := st, g_reason := reason\<rparr>"]
    omap_sum_put_old [OF ok assms(3), of "\<lambda>i g. if g_state g = GrantState_kRecovering then 1 else 0" "g\<lparr>g_state := st, g_reason := reason\<rparr>"]
  show ?thesis using sums assms(2,4,5) st by (auto simp: counts_ok_def)
qed

lemma account_ok_retire:
  assumes "ids_ok r" "account_ok r" "omap_get (rg_grants r) i = Some g" "g_live g" "\<not> is_live_state st"
  shows "account_ok (retire i g st reason r)"
proof -
  have ok: "omap_ok (rg_grants r)" and i: "g_id g = i" using assms(1,3) by (auto simp: ids_ok_def)
  note det = detach_committed [OF assms(1,2), of g, unfolded i, OF assms(3,4)]
  have "unat (committed ref (retire i g st reason r)) =
      omap_sum (charge ref) (rg_grants (retire i g st reason r))" for ref
  proof -
    have "committed ref (retire i g st reason r) = committed ref (detach g r)"
      by (rule committed_cong) (simp add: retire_index_fields)
    moreover have "omap_sum (charge ref) (rg_grants (retire i g st reason r)) + charge ref i g =
        omap_sum (charge ref) (rg_grants r)"
      using omap_sum_put_old [OF ok assms(3), of "charge ref" "g\<lparr>g_state := st, g_reason := reason\<rparr>"] assms(5)
      by (simp add: charge_def)
    moreover have "unat (committed ref r) = omap_sum (charge ref) (rg_grants r)"
      using assms(2) by (simp add: account_ok_def)
    ultimately show ?thesis using det [of ref] assms(4) by (auto simp: charge_def split: if_splits)
  qed
  then show ?thesis using det by (simp add: account_ok_def retire_index_fields)
qed

lemma index_ok_retire:
  assumes ids: "ids_ok r" and idx: "index_ok r" and g: "omap_get (rg_grants r) i = Some g" "g_live g"
    and st: "\<not> is_live_state st"
  shows "index_ok (retire i g st reason r)"
proof -
  let ?r = "retire i g st reason r"
  have i: "g_id g = i" using ids g(1) by (auto simp: ids_ok_def)
  have okf: "omap_ok (rg_footprints r)" "omap_ok (rg_occupancy r)" using idx by (auto simp: index_ok_def)
  have fp: "rg_footprints ?r = omap_erase i (rg_footprints r)"
    using okf(1) by (simp add: retire_index_fields detach_footprints i)
  have at: "omap_ok (rg_occupancy ?r)" "occ_at ?r ref = filter (\<lambda>x. op_id x \<noteq> i) (occ_at r ref)" for ref
    using detach_occ_at [OF idx, of g ref] g(1) i occ_at_cong [of ?r "detach g r" ref]
    by (auto simp: retire_index_fields)
  have n: "rg_occupancy_entries ?r = omap_sum (\<lambda>i. length) (rg_footprints ?r)"
  proof (cases "omap_get (rg_footprints r) i")
    case None
    then show ?thesis
      using idx okf by (simp add: retire_index_fields detach_entries i detach_footprints omap.erase_absent index_ok_def)
  next
    case (Some scope)
    have "Occupant i (g_mode g) \<in> set (occ_at r ref)" if "ref \<in> set scope" for ref
      using index_occupants [OF idx, of "Occupant i (g_mode g)" ref] Some g(1) that by simp
    then have "rg_occupancy_entries (fold (vacate g) scope r) = rg_occupancy_entries r - length scope"
      using index_footprint [OF idx Some] okf(2) index_distinct [OF idx] i
      by (intro entries_fold_vacate [where m = "g_mode g"]) auto
    moreover have "omap_sum (\<lambda>i. length) (omap_erase i (rg_footprints r)) + length scope =
        omap_sum (\<lambda>i. length) (rg_footprints r)"
      by (rule omap_sum_erase [OF okf(1) Some])
    ultimately show ?thesis
      using Some idx okf by (simp add: retire_index_fields detach_entries i detach_footprints index_ok_def)
  qed
  have d: "distinct (map op_id (occ_at ?r ref))" for ref
    using index_distinct [OF idx, of ref] by (simp add: at distinct_map_filter)
  have mem: "x \<in> set (occ_at ?r ref) \<longleftrightarrow>
      (\<exists>fp h. omap_get (rg_footprints ?r) (op_id x) = Some fp \<and> ref \<in> set fp \<and>
         omap_get (rg_grants ?r) (op_id x) = Some h \<and> op_mode x = g_mode h)" for x ref
    using index_occupants [OF idx, of x ref] by (simp add: at fp omap_get_erase omap_get_put)
  have live: "distinct f \<and> (\<exists>h. omap_get (rg_grants ?r) j = Some h \<and> g_live h)"
    if "omap_get (rg_footprints ?r) j = Some f" for j f
    using that index_footprint [OF idx, of j f] by (auto simp: fp omap_get_erase omap_get_put split: if_splits)
  have okp: "omap_ok (rg_footprints ?r)" using okf(1) by (simp add: fp omap_ok_erase)
  show ?thesis
    unfolding index_ok_def using at(1) okp live d mem n by blast
qed

lemma exclusive_ok_retire:
  assumes "ids_ok r" "index_ok r" "exclusive_ok r" "omap_get (rg_grants r) i = Some g"
  shows "exclusive_ok (retire i g st reason r)"
proof -
  have i: "g_id g = i" using assms(1,4) by (auto simp: ids_ok_def)
  have okf: "omap_ok (rg_footprints r)" using assms(2) by (simp add: index_ok_def)
  have fp: "rg_footprints (retire i g st reason r) = omap_erase i (rg_footprints r)"
    using okf by (simp add: retire_index_fields detach_footprints i)
  have old: "restored h \<and> restored k"
    if "omap_get (rg_footprints r) a = Some fa" "omap_get (rg_footprints r) b = Some fb"
      "omap_get (rg_grants r) a = Some h" "omap_get (rg_grants r) b = Some k" "a \<noteq> b" "set fa \<inter> set fb \<noteq> {}"
      "occupant_conflicts (g_mode h) (g_mode k)"
    for a b fa fb h k
    using assms(3) that unfolding exclusive_ok_def by blast
  show ?thesis
    unfolding exclusive_ok_def fp retire_fields omap_get_put omap_get_erase
    by (auto split: if_splits dest: old)
qed

lemma registry_base_retire:
  assumes "registry_base r" "omap_get (rg_grants r) i = Some g" "g_live g" "\<not> is_live_state st"
  shows "registry_base (retire i g st reason r)"
  using assms by (simp add: registry_base_def ids_ok_retire index_ok_retire account_ok_retire counts_ok_retire)

lemma registry_ok_retire:
  assumes "registry_ok r" "omap_get (rg_grants r) i = Some g" "g_live g" "\<not> is_live_state st"
  shows "registry_ok (retire i g st reason r)"
  using assms registry_base_retire [OF _ assms(2-4)]
  by (simp add: registry_ok_base registry_base_def exclusive_ok_retire)

section \<open>Changes that keep a grant's claims\<close>

lemma registry_ok_touch:
  assumes ok: "registry_ok r" and g: "omap_get (rg_grants r) i = Some g"
    and same: "g_id g' = g_id g" "g_mode g' = g_mode g" "g_capacity g' = g_capacity g"
      "g_capacity_pool g' = g_capacity_pool g" "g_live g' = g_live g" "restored g \<Longrightarrow> restored g'"
    and nf: "rg_next_fence r \<le> nf" "g_fence g' \<le> nf"
    and rc: "n + (if g_state g = GrantState_kRecovering then 1 else 0) =
      rg_recovering r + (if g_state g' = GrantState_kRecovering then 1 else 0)"
  shows "registry_ok (r\<lparr>rg_grants := omap_put i g' (rg_grants r), rg_next_fence := nf, rg_recovering := n\<rparr>)"
    (is "registry_ok ?r")
proof -
  have okg: "omap_ok (rg_grants r)" using ok by (simp add: registry_ok_def ids_ok_def)
  have get: "omap_get (omap_put i g' (rg_grants r)) j = (if j = i then Some g' else omap_get (rg_grants r) j)" for j
    by (simp add: omap_get_put)
  have oldid: "g_id h = j \<and> j \<le> rg_next_fence r \<and> g_fence h \<le> rg_next_fence r \<and>
      (g_live h \<longrightarrow> distinct (g_capacity_pool h))" if "omap_get (rg_grants r) j = Some h" for j h
    using ok that by (auto simp: registry_ok_def ids_ok_def)
  have "ids_ok ?r"
  proof -
    have "g_id h = j \<and> j \<le> nf \<and> g_fence h \<le> nf \<and> (g_live h \<longrightarrow> distinct (g_capacity_pool h))"
      if "omap_get (rg_grants ?r) j = Some h" for j h
    proof (cases "j = i")
      case True
      then have "h = g'" using that by (simp add: omap_get_put)
      moreover have "i \<le> nf" using oldid [OF g] nf(1) by (blast intro: order.trans)
      ultimately show ?thesis using True oldid [OF g] nf(2) same by auto
    next
      case False
      then have "omap_get (rg_grants r) j = Some h" using that by (simp add: omap_get_put)
      from oldid [OF this] nf(1) show ?thesis by (blast intro: order.trans)
    qed
    then show ?thesis using ok okg by (simp add: ids_ok_def registry_ok_def omap_ok_put)
  qed
  moreover have "index_ok ?r"
  proof -
    have idx: "index_ok r" using ok by (simp add: registry_ok_def)
    have occ: "occ_at ?r ref = occ_at r ref" for ref by (rule occ_at_cong) simp
    have mem: "x \<in> set (occ_at ?r ref) \<longleftrightarrow> (\<exists>fp h. omap_get (rg_footprints ?r) (op_id x) = Some fp \<and>
        ref \<in> set fp \<and> omap_get (rg_grants ?r) (op_id x) = Some h \<and> op_mode x = g_mode h)" for x ref
      using index_occupants [OF idx, of x ref] g same(2) by (cases "op_id x = i") (auto simp: occ get)
    have live: "distinct f \<and> (\<exists>h. omap_get (rg_grants ?r) j = Some h \<and> g_live h)"
      if "omap_get (rg_footprints ?r) j = Some f" for j f
      using index_footprint [OF idx, of j f] that g same(5) by (auto simp: get)
    have "omap_ok (rg_occupancy ?r)" "omap_ok (rg_footprints ?r)"
      "rg_occupancy_entries ?r = omap_sum (\<lambda>i. length) (rg_footprints ?r)"
      using idx by (auto simp: index_ok_def)
    then show ?thesis
      unfolding index_ok_def using mem live index_distinct [OF idx] occ by auto
  qed
  moreover have "account_ok ?r"
  proof -
    have "omap_sum (charge ref) (omap_put i g' (rg_grants r)) = omap_sum (charge ref) (rg_grants r)" for ref
      using omap_sum_put_old [OF okg g, of "charge ref" g'] same by (simp add: charge_def split: if_splits)
    then show ?thesis
      using ok by (simp add: registry_ok_def account_ok_def committed_def)
  qed
  moreover have "counts_ok ?r"
    using omap_sum_put_old [OF okg g, of "\<lambda>i g. if g_live g then 1 else 0" g']
      omap_sum_put_old [OF okg g, of "\<lambda>i g. if g_state g = GrantState_kRecovering then 1 else 0" g']
      ok same(5) rc
    by (simp add: registry_ok_def counts_ok_def)
  moreover have "exclusive_ok ?r"
  proof -
    have old: "restored h \<and> restored k"
      if "omap_get (rg_footprints r) a = Some fa" "omap_get (rg_footprints r) b = Some fb"
        "omap_get (rg_grants r) a = Some h" "omap_get (rg_grants r) b = Some k" "a \<noteq> b" "set fa \<inter> set fb \<noteq> {}"
        "occupant_conflicts (g_mode h) (g_mode k)"
      for a b fa fb h k
      using ok that unfolding registry_ok_def exclusive_ok_def by blast
    have prev: "\<exists>h'. omap_get (rg_grants r) j = Some h' \<and> g_mode h' = g_mode h \<and> (restored h' \<longrightarrow> restored h)"
      if "omap_get (rg_grants ?r) j = Some h" for j h
      using that g same(2,6) by (auto simp: get split: if_splits)
    show ?thesis
      unfolding exclusive_ok_def
    proof (intro allI impI)
      fix a b fa fb h k
      assume *: "omap_get (rg_footprints ?r) a = Some fa" "omap_get (rg_footprints ?r) b = Some fb"
        "omap_get (rg_grants ?r) a = Some h" "omap_get (rg_grants ?r) b = Some k" "a \<noteq> b" "set fa \<inter> set fb \<noteq> {}"
        "occupant_conflicts (g_mode h) (g_mode k)"
      obtain h' k' where "omap_get (rg_grants r) a = Some h'" "g_mode h' = g_mode h" "restored h' \<longrightarrow> restored h"
        "omap_get (rg_grants r) b = Some k'" "g_mode k' = g_mode k" "restored k' \<longrightarrow> restored k"
        using prev [OF *(3)] prev [OF *(4)] by blast
      with old [of a fa b fb h' k'] * show "restored h \<and> restored k" by simp
    qed
  qed
  ultimately show ?thesis by (simp add: registry_ok_def)
qed

lemma registry_ok_put:
  assumes "registry_ok r" "omap_get (rg_grants r) i = Some g"
    and "g_id g' = g_id g" "g_mode g' = g_mode g" "g_capacity g' = g_capacity g"
      "g_capacity_pool g' = g_capacity_pool g" "g_live g' = g_live g" "g_fence g' = g_fence g"
      "g_state g' = GrantState_kRecovering \<longleftrightarrow> g_state g = GrantState_kRecovering"
  shows "registry_ok (r\<lparr>rg_grants := omap_put i g' (rg_grants r)\<rparr>)"
proof -
  have "g_fence g' \<le> rg_next_fence r" using assms(1,2,8) by (auto simp: registry_ok_def ids_ok_def)
  then have "registry_ok (r\<lparr>rg_grants := omap_put i g' (rg_grants r), rg_next_fence := rg_next_fence r,
      rg_recovering := rg_recovering r\<rparr>)"
    using assms by (intro registry_ok_touch) (auto simp: restored_def)
  then show ?thesis by simp
qed

text \<open>Members the invariant does not read.\<close>

lemma registry_ok_frame [simp]:
  "registry_ok (r\<lparr>rg_incarnation := x\<rparr>) \<longleftrightarrow> registry_ok r"
  "registry_ok (r\<lparr>rg_committed_total := y\<rparr>) \<longleftrightarrow> registry_ok r"
  by (simp_all add: registry_ok_def ids_ok_def index_ok_def account_ok_def counts_ok_def exclusive_ok_def
      occ_at_def committed_def)

lemma registry_ok_outcomes:
  "registry_ok r \<Longrightarrow> omap_ok m \<Longrightarrow> registry_ok (r\<lparr>rg_outcomes := m\<rparr>)"
  by (simp add: registry_ok_def ids_ok_def index_ok_def account_ok_def counts_ok_def exclusive_ok_def
      occ_at_def committed_def)

lemma registry_ok_outcomes_ok: "registry_ok r \<Longrightarrow> omap_ok (rg_outcomes r)"
  by (simp add: registry_ok_def ids_ok_def)

lemma registry_ok_next_fence:
  assumes "registry_ok r" "rg_next_fence r \<le> nf"
  shows "registry_ok (r\<lparr>rg_next_fence := nf\<rparr>)"
proof -
  have "g_id g = i \<and> i \<le> nf \<and> g_fence g \<le> nf \<and> (g_live g \<longrightarrow> distinct (g_capacity_pool g))"
    if "omap_get (rg_grants r) i = Some g" for i g
  proof -
    have "g_id g = i \<and> i \<le> rg_next_fence r \<and> g_fence g \<le> rg_next_fence r \<and>
        (g_live g \<longrightarrow> distinct (g_capacity_pool g))"
      using assms(1) that by (auto simp: registry_ok_def ids_ok_def)
    with assms(2) show ?thesis by (blast intro: order.trans)
  qed
  then show ?thesis
    using assms(1)
    by (simp add: registry_ok_def ids_ok_def index_ok_def account_ok_def counts_ok_def exclusive_ok_def
        occ_at_def committed_def)
qed

lemma registry_ok_remember: "registry_ok r \<Longrightarrow> registry_ok (remember q outcome r)"
  by (simp add: remember_def registry_ok_outcomes registry_ok_outcomes_ok omap_ok_put)

end
