(* ===== verification/Rnf_Registry_Ops.thy ===== *)
theory Rnf_Registry_Ops
  imports Rnf_Registry_Inv
begin

text \<open>
  What each operation of the grant registry does: the exact conditions under which a request is
  granted and a lease is honoured, the effect of every loop over the grants, and that every operation
  keeps the invariant. The operations form a labelled state machine, an interpretation of the
  interface \<open>state_machine\<close>, so the invariant holds after any sequence of operations.
\<close>

section \<open>The checks of acquire\<close>

lemma occupant_scan_None_iff:
  "occupant_scan r mode ref xs = None \<longleftrightarrow>
     (\<forall>x\<in>set xs. \<forall>g. omap_get (rg_grants r) (op_id x) = Some g \<longrightarrow> g_live g \<longrightarrow>
        \<not> occupant_conflicts mode (op_mode x))"
  by (induction xs) (auto split: option.splits)

lemma conflict_scan_None_iff:
  "conflict_scan r mode refs = None \<longleftrightarrow>
     (\<forall>ref\<in>set refs. occupant_scan r mode ref (occ_at r ref) = None)"
  by (induction refs) (auto simp: occ_at_def split: option.splits)

text \<open>
  The scan through the index finds a conflict exactly when some grant with a stored footprint meets
  the scope and conflicts in mode.
\<close>

lemma conflict_scan_exact:
  assumes idx: "index_ok r"
  shows "conflict_scan r mode scope = None \<longleftrightarrow>
     (\<forall>j fq h. omap_get (rg_footprints r) j = Some fq \<longrightarrow> omap_get (rg_grants r) j = Some h \<longrightarrow>
        set scope \<inter> set fq \<noteq> {} \<longrightarrow> \<not> occupant_conflicts mode (g_mode h))"
    (is "?scan \<longleftrightarrow> ?free")
proof
  assume ?scan
  show ?free
  proof (intro allI impI)
    fix j fq h
    assume *: "omap_get (rg_footprints r) j = Some fq" "omap_get (rg_grants r) j = Some h" "set scope \<inter> set fq \<noteq> {}"
    then obtain ref where ref: "ref \<in> set scope" "ref \<in> set fq" by blast
    have "Occupant j (g_mode h) \<in> set (occ_at r ref)"
      using index_occupants [OF idx, of "Occupant j (g_mode h)" ref] * ref by simp
    moreover have "g_live h" using index_footprint [OF idx *(1)] *(2) by simp
    ultimately show "\<not> occupant_conflicts mode (g_mode h)"
      using \<open>?scan\<close> ref(1) *(2) by (force simp: conflict_scan_None_iff occupant_scan_None_iff)
  qed
next
  assume free: ?free
  have "\<not> occupant_conflicts mode (op_mode x)" if "ref \<in> set scope" "x \<in> set (occ_at r ref)" for ref x
  proof -
    obtain fq h where "omap_get (rg_footprints r) (op_id x) = Some fq" "ref \<in> set fq"
      "omap_get (rg_grants r) (op_id x) = Some h" "op_mode x = g_mode h"
      using index_occupants [OF idx, of x ref] \<open>x \<in> set (occ_at r ref)\<close> by blast
    with free that(1) show ?thesis by fastforce
  qed
  then show ?scan by (simp add: conflict_scan_None_iff occupant_scan_None_iff)
qed

lemma available_Inr_iff:
  "available s ref r = Inr free \<longleftrightarrow>
     snapshot_valid s \<and> (\<exists>base. capacity_base s ref = Inr base \<and>
        unat base = unat (committed ref r) + unat free)"
proof -
  have sub: "checked_sub_u64 b u = Some v \<longleftrightarrow> unat b = unat u + unat v" for b u v
    by (auto simp: checked_sub_u64_Some_iff)
  show ?thesis
    by (cases "capacity_base s ref")
      (auto simp: available_def committed_def Let_def rnf_try_def sub [symmetric] split: option.splits)
qed

lemma capacity_base_error: "capacity_base s ref = Inl st \<Longrightarrow> \<not> status_ok st"
  by (auto simp: capacity_base_def split: if_splits option.splits)

lemma available_error: "available s ref r = Inl st \<Longrightarrow> \<not> status_ok st"
  using capacity_base_error [of s ref st]
  by (cases "capacity_base s ref") (auto simp: available_def Let_def split: if_splits option.splits)

lemma check_capacity_ok_iff:
  "status_ok (check_capacity s refs requested r) \<longleftrightarrow>
     (\<forall>ref\<in>set refs. \<exists>free. available s ref r = Inr free \<and> requested \<le> free)"
proof (induction refs)
  case Nil
  show ?case by simp
next
  case (Cons ref refs)
  show ?case
  proof (cases "available s ref r")
    case (Inl st)
    then show ?thesis using available_error [OF Inl] by (simp add: status_ok_def)
  next
    case (Inr free)
    with Cons show ?thesis by (auto simp: not_less)
  qed
qed

lemma eligibility_scan_None_iff: "eligibility_scan s refs = None \<longleftrightarrow> all_eligible s refs"
  by (induction refs) (auto simp: all_eligible_def split: option.splits)

lemma first_ineligible_None_iff: "first_ineligible s refs = None \<longleftrightarrow> all_eligible s refs"
  by (induction refs) (auto simp: all_eligible_def split: option.splits)

section \<open>Acquire\<close>

text \<open>The grant that \<open>issue\<close> builds, given its deadline, and the outcome it remembers.\<close>

definition issued ::
  "snapshot \<Rightarrow> grant_request \<Rightarrow> controller_incarnation \<Rightarrow> timestamp_ms \<Rightarrow> timestamp_ms \<Rightarrow>
   resource_ref list \<Rightarrow> resource_ref list \<Rightarrow> fencing_token \<Rightarrow> grant" where
  "issued s q inc now deadline expanded pool fence =
     \<lparr>g_id = fence, g_request = q_request q, g_principal = q_principal q, g_scope = q_scope q,
      g_mode = q_mode q, g_capacity = q_capacity q, g_generation = sd_generation (sn_data s),
      g_epoch = sd_epoch (sn_data s), g_incarnation = inc, g_fence = fence, g_issued_at_ms = now,
      g_expires_at_ms = deadline, g_state = GrantState_kActive,
      g_authority_basis = authority_basis_digest s expanded, g_capacity_pool = pool, g_reason = []\<rparr>"

definition granted_outcome :: "grant \<Rightarrow> request_outcome" where
  "granted_outcome g =
     \<lparr>ro_code = kOk, ro_grant = g_id g, ro_fence = g_fence g, ro_incarnation = g_incarnation g,
      ro_request_digest = zero_digest, ro_detail = []\<rparr>"

lemma issue_cases:
  "issue s q inc now expanded pool r =
     (let r1 = r\<lparr>rg_next_fence := rg_next_fence r + 1\<rparr> in
      case checked_add_u64 now (q_ttl_ms q) of
        None \<Rightarrow> (fail kOutOfRange ''lease deadline overflowed'', r1)
      | Some deadline \<Rightarrow>
          let g = issued s q inc now deadline expanded pool (rg_next_fence r + 1) in
          (Inr g, remember q (granted_outcome g) (enter s g r1)))"
proof (cases "checked_add_u64 now (q_ttl_ms q)")
  case None
  then show ?thesis by (simp add: issue_def Let_def)
next
  case (Some deadline)
  have rec: "enter s g r1 = (attach s g r1)\<lparr>rg_grants := omap_put (g_id g) g (rg_grants (attach s g r1)),
      rg_live := rg_live (attach s g r1) + 1\<rparr>" if "g_state g = GrantState_kActive" for g r1
  proof -
    have "attach s g r1 = (attach s g r1)\<lparr>rg_recovering := rg_recovering r1\<rparr>"
      using attach_fields(7) [of s g r1] by (metis registry.update_convs(12) registry.surjective registry.select_convs(12))
    then show ?thesis using that by (simp add: enter_def)
  qed
  show ?thesis
    unfolding issue_def issued_def granted_outcome_def Let_def Some option.case by (simp add: rec)
qed

text \<open>A request is granted exactly through every check of the source.\<close>

definition acquirable ::
  "snapshot \<Rightarrow> grant_request \<Rightarrow> timestamp_ms \<Rightarrow> bool \<Rightarrow> registry \<Rightarrow> resource_ref list \<Rightarrow>
   resource_ref list \<Rightarrow> timestamp_ms \<Rightarrow> bool" where
  "acquirable s q now allow r expanded pool deadline \<longleftrightarrow>
     id_is_set (q_principal q) \<and> (ref_id (q_scope q) = 0 \<longrightarrow> ref_kind (q_scope q) = ResourceKind_kRack) \<and>
     al_min_ttl_ms (rg_limits r) \<le> q_ttl_ms q \<and> q_ttl_ms q \<le> al_max_ttl_ms (rg_limits r) \<and> allow \<and>
     rg_live r < al_max_live_grants (rg_limits r) \<and>
     length (rg_outcomes r) < al_max_remembered_requests (rg_limits r) \<and>
     expand_scope s (q_scope q) = Inr expanded \<and>
     rg_occupancy_entries r + length expanded \<le> al_max_occupancy_entries (rg_limits r) \<and>
     all_eligible s expanded \<and> conflict_scan r (q_mode q) expanded = None \<and>
     capacity_pool_refs s (q_scope q) = Inr pool \<and>
     status_ok (check_capacity s pool (q_capacity q) r) \<and> unat now + unat (q_ttl_ms q) = unat deadline"

lemma acquire_new_Inr_iff:
  "acquire_new s q inc now allow r = (Inr g, r') \<longleftrightarrow>
     (\<exists>expanded pool deadline. acquirable s q now allow r expanded pool deadline \<and>
        g = issued s q inc now deadline expanded pool (rg_next_fence r + 1) \<and>
        r' = remember q (granted_outcome g) (enter s g (r\<lparr>rg_next_fence := rg_next_fence r + 1\<rparr>)))"
  (is "?lhs \<longleftrightarrow> ?rhs")
proof
  assume ?lhs
  then show ?rhs
    by (auto simp: acquire_new_def refuse_def acquirable_def issue_cases Let_def not_less not_le
        eligibility_scan_None_iff checked_add_u64_Some_iff
        split: if_splits sum.splits option.splits prod.splits)
next
  assume ?rhs
  then obtain expanded pool deadline where *: "acquirable s q now allow r expanded pool deadline"
    "g = issued s q inc now deadline expanded pool (rg_next_fence r + 1)"
    "r' = remember q (granted_outcome g) (enter s g (r\<lparr>rg_next_fence := rg_next_fence r + 1\<rparr>))" by blast
  have "checked_add_u64 now (q_ttl_ms q) = Some deadline" "eligibility_scan s expanded = None"
    using *(1) by (simp_all add: acquirable_def checked_add_u64_Some_iff eligibility_scan_None_iff)
  with * show ?lhs
    by (simp add: acquire_new_def acquirable_def issue_cases Let_def not_less not_le)
qed

lemma acquire_new_Inl:
  "acquire_new s q inc now allow r = (Inl st, r') \<Longrightarrow>
     r' = r \<or> r' = remember q (refusal_outcome st) r \<or> r' = r\<lparr>rg_next_fence := rg_next_fence r + 1\<rparr>"
  by (auto simp: acquire_new_def refuse_def issue_cases Let_def
      split: if_splits sum.splits option.splits prod.splits)

lemma issued_fields [simp]:
  "g_id (issued s q inc now d e p f) = f" "g_fence (issued s q inc now d e p f) = f"
  "g_scope (issued s q inc now d e p f) = q_scope q" "g_mode (issued s q inc now d e p f) = q_mode q"
  "g_capacity (issued s q inc now d e p f) = q_capacity q"
  "g_state (issued s q inc now d e p f) = GrantState_kActive"
  "g_capacity_pool (issued s q inc now d e p f) = p"
  "g_authority_basis (issued s q inc now d e p f) = authority_basis_digest s e"
  "g_expires_at_ms (issued s q inc now d e p f) = d" "g_incarnation (issued s q inc now d e p f) = inc"
  "g_epoch (issued s q inc now d e p f) = sd_epoch (sn_data s)"
  "g_generation (issued s q inc now d e p f) = sd_generation (sn_data s)"
  "g_request (issued s q inc now d e p f) = q_request q"
  "g_principal (issued s q inc now d e p f) = q_principal q"
  by (simp_all add: issued_def)

lemma live_states [simp]:
  "is_live_state GrantState_kActive" "is_live_state GrantState_kSuspended"
  "is_live_state GrantState_kRecovering" "is_live_state GrantState_kPending"
  "\<not> is_live_state GrantState_kReleased" "\<not> is_live_state GrantState_kExpired"
  "\<not> is_live_state GrantState_kFenced"
  by (simp_all add: is_live_state_def)

lemma fence_succ:
  assumes "n \<noteq> (u64_max :: u64)"
  shows "n < n + 1" "unat (n + 1) = unat n + 1"
proof -
  have "unat n \<noteq> unat (u64_max :: u64)" using assms by (metis word_unat_eq_iff)
  then have "unat n + 1 < 2 ^ 64" using unat_u64_lt [of n] by simp
  then show "unat (n + 1) = unat n + 1" by (simp add: unat_plus_if')
  then show "n < n + 1" by (simp add: word_less_nat_alt)
qed

lemma grant_id_bound:
  "registry_ok r \<Longrightarrow> omap_get (rg_grants r) i = Some g \<Longrightarrow>
     g_id g = i \<and> i \<le> rg_next_fence r \<and> g_fence g \<le> rg_next_fence r \<and>
     (g_live g \<longrightarrow> distinct (g_capacity_pool g))"
  unfolding registry_ok_def ids_ok_def by blast

lemma fence_fresh:
  assumes "registry_ok r" "rg_next_fence r \<noteq> u64_max"
  shows "omap_get (rg_grants r) (rg_next_fence r + 1) = None"
proof (cases "omap_get (rg_grants r) (rg_next_fence r + 1)")
  case (Some g)
  have "rg_next_fence r + 1 \<le> rg_next_fence r" using grant_id_bound [OF assms(1) Some] by blast
  then show ?thesis using fence_succ(1) [OF assms(2)] by simp
qed simp

text \<open>The capacity check leaves room in the account of every resource of the pool.\<close>

lemma check_capacity_room:
  assumes "status_ok (check_capacity s refs requested r)" "ref \<in> set refs"
  obtains base where "capacity_base s ref = Inr base" "unat (committed ref r) + unat requested \<le> unat base"
proof -
  obtain free where "available s ref r = Inr free" "requested \<le> free"
    using assms by (auto simp: check_capacity_ok_iff)
  then show ?thesis
    using that by (auto simp: available_Inr_iff word_le_nat_alt)
qed

lemma issued_admissible:
  assumes ok: "registry_ok r" and acq: "acquirable s q now allow r expanded pool deadline"
    and room: "rg_next_fence r \<noteq> u64_max"
  shows "admissible s (issued s q inc now deadline expanded pool (rg_next_fence r + 1))
           (r\<lparr>rg_next_fence := rg_next_fence r + 1\<rparr>)"
proof -
  have "distinct pool" using acq capacity_pool_facts(2) by (auto simp: acquirable_def)
  moreover have "unat (committed ref r) + unat (q_capacity q) < 2 ^ 64" if ref: "ref \<in> set pool" for ref
  proof -
    have "status_ok (check_capacity s pool (q_capacity q) r)" using acq by (simp add: acquirable_def)
    then obtain base where "capacity_base s ref = Inr base"
      "unat (committed ref r) + unat (q_capacity q) \<le> unat base"
      using ref by (rule check_capacity_room)
    then show ?thesis using unat_u64_lt [of base] by linarith
  qed
  moreover have "\<not> occupant_conflicts (q_mode q) (g_mode h)"
    if "omap_get (rg_footprints r) j = Some fq" "omap_get (rg_grants r) j = Some h" "set expanded \<inter> set fq \<noteq> {}"
    for j fq h
    using acq ok that conflict_scan_exact [of r "q_mode q" expanded]
    unfolding acquirable_def registry_ok_def by blast
  moreover have "expand_scope s (q_scope q) = Inr expanded" using acq by (simp add: acquirable_def)
  ultimately show ?thesis
    using fence_fresh [OF ok room] by (auto simp: admissible_def enterable_def committed_def)
qed

lemma registry_ok_acquire_new:
  assumes "registry_ok r" "rg_next_fence r \<noteq> u64_max"
  shows "registry_ok (snd (acquire_new s q inc now allow r))"
proof (cases "acquire_new s q inc now allow r")
  case (Pair res r')
  have nf: "registry_ok (r\<lparr>rg_next_fence := rg_next_fence r + 1\<rparr>)"
    using assms(1) fence_succ(1) [OF assms(2)] by (intro registry_ok_next_fence) simp_all
  show ?thesis
  proof (cases res)
    case (Inl st)
    then show ?thesis
      using Pair acquire_new_Inl [of s q inc now allow r st r'] assms(1) nf registry_ok_remember by auto
  next
    case (Inr g)
    then obtain expanded pool deadline where *: "acquirable s q now allow r expanded pool deadline"
      "g = issued s q inc now deadline expanded pool (rg_next_fence r + 1)"
      "r' = remember q (granted_outcome g) (enter s g (r\<lparr>rg_next_fence := rg_next_fence r + 1\<rparr>))"
      using Pair by (auto simp: acquire_new_Inr_iff)
    then show ?thesis
      using Pair registry_ok_remember registry_ok_enter [OF nf] issued_admissible [OF assms(1) *(1) assms(2)]
      by simp
  qed
qed

lemma acquire_replay:
  "omap_get (rg_outcomes r) (q_request q) = Some out \<Longrightarrow> snd (acquire s q inc now allow r) = r"
  by (simp add: acquire_def split: option.splits)

lemma acquire_new_request:
  "snapshot_valid s \<Longrightarrow> request_is_set (q_request q) \<Longrightarrow> omap_get (rg_outcomes r) (q_request q) = None \<Longrightarrow>
     acquire s q inc now allow r = acquire_new s q inc now allow r"
  by (simp add: acquire_def)

lemma acquire_granted:
  assumes "snapshot_valid s" "request_is_set (q_request q)" "omap_get (rg_outcomes r) (q_request q) = None"
    "acquirable s q now allow r expanded pool deadline"
  shows "acquire s q inc now allow r =
    (let g = issued s q inc now deadline expanded pool (rg_next_fence r + 1)
     in (Inr g, remember q (granted_outcome g) (enter s g (r\<lparr>rg_next_fence := rg_next_fence r + 1\<rparr>))))"
proof -
  let ?g = "issued s q inc now deadline expanded pool (rg_next_fence r + 1)"
  have "acquire_new s q inc now allow r =
      (Inr ?g, remember q (granted_outcome ?g) (enter s ?g (r\<lparr>rg_next_fence := rg_next_fence r + 1\<rparr>)))"
    using assms(4) acquire_new_Inr_iff [of s q inc now allow r ?g] by blast
  then show ?thesis using assms(1-3) by (simp add: acquire_new_request Let_def)
qed

lemma registry_ok_acquire:
  "registry_ok r \<Longrightarrow> rg_next_fence r \<noteq> u64_max \<Longrightarrow> registry_ok (snd (acquire s q inc now allow r))"
  by (auto simp: acquire_def registry_ok_acquire_new split: option.splits)

section \<open>The basis of an armed grant\<close>

text \<open>
  A grant that can be honoured now or after a resume is in the index with exactly the scope its basis
  was computed over. \<open>S\<close> is the set of snapshots the registry has worked against.
\<close>

definition snapshot_sized :: "snapshot \<Rightarrow> bool" where
  "snapshot_sized s \<longleftrightarrow>
     list_all (\<lambda>st. length (rs_owners st) < 2 ^ 64) (sd_resources (sn_data s))"

definition terminal_state :: "grant_state \<Rightarrow> bool" where
  "terminal_state st \<longleftrightarrow>
     st = GrantState_kReleased \<or> st = GrantState_kExpired \<or> st = GrantState_kFenced"

definition armed :: "grant \<Rightarrow> bool" where
  "armed g \<longleftrightarrow>
     \<not> terminal_state (g_state g) \<and> g_state g \<noteq> GrantState_kPending \<and> g_state g \<noteq> GrantState_kRecovering"

definition basis_ok :: "snapshot set \<Rightarrow> registry \<Rightarrow> bool" where
  "basis_ok S r \<longleftrightarrow>
     (\<forall>i g. omap_get (rg_grants r) i = Some g \<longrightarrow> armed g \<longrightarrow>
        (\<exists>s fp. omap_get (rg_footprints r) i = Some fp \<and> s \<in> S \<and>
           expand_scope s (g_scope g) = Inr fp \<and> g_authority_basis g = authority_basis_digest s fp))"

definition registry_inv :: "snapshot set \<Rightarrow> registry \<Rightarrow> bool" where
  "registry_inv S r \<longleftrightarrow> registry_ok r \<and> basis_ok S r"

lemma basis_okD:
  "basis_ok S r \<Longrightarrow> omap_get (rg_grants r) i = Some g \<Longrightarrow> armed g \<Longrightarrow>
     \<exists>s fp. omap_get (rg_footprints r) i = Some fp \<and> s \<in> S \<and>
        expand_scope s (g_scope g) = Inr fp \<and> g_authority_basis g = authority_basis_digest s fp"
  unfolding basis_ok_def by blast

lemma terminal_states [simp]:
  "terminal_state GrantState_kReleased" "terminal_state GrantState_kExpired" "terminal_state GrantState_kFenced"
  "\<not> terminal_state GrantState_kActive" "\<not> terminal_state GrantState_kSuspended"
  by (simp_all add: terminal_state_def)

lemma terminal_not_live: "terminal_state st \<Longrightarrow> \<not> is_live_state st"
  by (auto simp: terminal_state_def)

text \<open>A state byte outside the enumeration would be honoured, but no reachable grant has one.\<close>

lemma armed_live:
  assumes "registry_ok r" "basis_ok S r" "omap_get (rg_grants r) i = Some g" "armed g"
  shows "g_live g" "g_state g = GrantState_kActive \<or> g_state g = GrantState_kSuspended"
proof -
  obtain fp where "omap_get (rg_footprints r) i = Some fp" using basis_okD [OF assms(2-4)] by blast
  then show "g_live g" using assms(1,3) index_footprint [of r i fp] by (simp add: registry_ok_def)
  with assms(4) show "g_state g = GrantState_kActive \<or> g_state g = GrantState_kSuspended"
    by (auto simp: armed_def is_live_state_def split: if_splits)
qed

lemma snapshot_sized_view: "snapshot_sized s \<Longrightarrow> view_ok (basis_view s ref)"
proof (cases "find_resource s ref")
  case (Some st)
  assume "snapshot_sized s"
  moreover have "st \<in> set (sd_resources (sn_data s))"
    using Some by (auto simp: find_resource_def dest!: find_sorted_SomeD)
  ultimately show ?thesis
    using Some by (auto simp: snapshot_sized_def basis_view_def view_ok_def list_all_iff)
qed (simp add: basis_view_def view_ok_def)

lemma basis_ok_cong:
  "rg_grants r' = rg_grants r \<Longrightarrow> rg_footprints r' = rg_footprints r \<Longrightarrow> basis_ok S r' = basis_ok S r"
  by (simp add: basis_ok_def)

lemma registry_inv_new: "registry_inv S (registry_new limits)"
  by (simp add: registry_inv_def registry_ok_new) (simp add: basis_ok_def registry_new_def)

lemma basis_ok_remember [simp]: "basis_ok S (remember q x r) = basis_ok S r"
  by (rule basis_ok_cong) (simp_all add: remember_def)

lemma basis_ok_put:
  assumes "basis_ok S r" "omap_get (rg_grants r) i = Some g"
    and "g_scope g' = g_scope g" "g_authority_basis g' = g_authority_basis g" "armed g' \<Longrightarrow> armed g"
  shows "basis_ok S (r\<lparr>rg_grants := omap_put i g' (rg_grants r)\<rparr>)"
proof -
  have "\<exists>s fp. omap_get (rg_footprints r) j = Some fp \<and> s \<in> S \<and>
      expand_scope s (g_scope h) = Inr fp \<and> g_authority_basis h = authority_basis_digest s fp"
    if "omap_get (omap_put i g' (rg_grants r)) j = Some h" "armed h" for j h
  proof (cases "j = i")
    case True
    then have "h = g'" using that(1) by (simp add: omap_get_put)
    with True basis_okD [OF assms(1,2)] assms(3-5) that(2) show ?thesis by simp
  next
    case False
    then show ?thesis using basis_okD [OF assms(1), of j h] that by (simp add: omap_get_put)
  qed
  then show ?thesis by (simp add: basis_ok_def)
qed

lemma basis_ok_retire:
  assumes "registry_base r" "basis_ok S r" "omap_get (rg_grants r) i = Some g" "terminal_state st"
  shows "basis_ok S (retire i g st reason r)"
proof -
  have i: "g_id g = i" using assms(1,3) by (auto simp: registry_base_def ids_ok_def)
  have fp: "rg_footprints (retire i g st reason r) = omap_erase i (rg_footprints r)"
    using assms(1) by (simp add: retire_index_fields detach_footprints i registry_base_def index_ok_def)
  have "\<exists>s fp. omap_get (omap_erase i (rg_footprints r)) j = Some fp \<and> s \<in> S \<and>
      expand_scope s (g_scope h) = Inr fp \<and> g_authority_basis h = authority_basis_digest s fp"
    if "omap_get (omap_put i (g\<lparr>g_state := st, g_reason := reason\<rparr>) (rg_grants r)) j = Some h" "armed h" for j h
  proof (cases "j = i")
    case True
    then have "h = g\<lparr>g_state := st, g_reason := reason\<rparr>" using that(1) by (simp add: omap_get_put)
    then show ?thesis using that(2) assms(4) by (simp add: armed_def)
  next
    case False
    then show ?thesis
      using basis_okD [OF assms(2), of j h] that by (simp add: omap_get_put omap_get_erase)
  qed
  then show ?thesis by (simp add: basis_ok_def fp)
qed

lemma basis_ok_enter:
  assumes "basis_ok S r" "omap_get (rg_grants r) (g_id g) = None"
    and "armed g \<Longrightarrow> s \<in> S \<and> (\<exists>fp. expand_scope s (g_scope g) = Inr fp \<and>
           g_authority_basis g = authority_basis_digest s fp)"
  shows "basis_ok S (enter s g r)"
proof -
  have fp: "rg_footprints (enter s g r) = rg_footprints (attach s g r)" by (simp add: enter_def)
  have "\<exists>t fp. omap_get (rg_footprints (attach s g r)) j = Some fp \<and> t \<in> S \<and>
      expand_scope t (g_scope h) = Inr fp \<and> g_authority_basis h = authority_basis_digest t fp"
    if "omap_get (omap_put (g_id g) g (rg_grants r)) j = Some h" "armed h" for j h
  proof (cases "j = g_id g")
    case True
    then have "h = g" using that(1) by (simp add: omap_get_put)
    with True assms(3) that(2) show ?thesis by (auto simp: attach_footprints omap_get_put)
  next
    case False
    then show ?thesis
      using basis_okD [OF assms(1), of j h] that by (auto simp: omap_get_put attach_footprints split: sum.splits)
  qed
  then show ?thesis by (simp add: basis_ok_def enter_def)
qed

lemma registry_inv_retire:
  "registry_inv S r \<Longrightarrow> omap_get (rg_grants r) i = Some g \<Longrightarrow> g_live g \<Longrightarrow> terminal_state st \<Longrightarrow>
     registry_inv S (retire i g st reason r)"
  by (simp add: registry_inv_def registry_ok_retire basis_ok_retire terminal_not_live)
    (simp add: registry_ok_base basis_ok_retire)

lemma registry_inv_put:
  assumes "registry_inv S r" "omap_get (rg_grants r) i = Some g"
    and "g_id g' = g_id g" "g_mode g' = g_mode g" "g_capacity g' = g_capacity g"
      "g_capacity_pool g' = g_capacity_pool g" "g_live g' = g_live g" "g_fence g' = g_fence g"
      "g_state g' = GrantState_kRecovering \<longleftrightarrow> g_state g = GrantState_kRecovering"
    and "g_scope g' = g_scope g" "g_authority_basis g' = g_authority_basis g" "armed g' \<Longrightarrow> armed g"
  shows "registry_inv S (r\<lparr>rg_grants := omap_put i g' (rg_grants r)\<rparr>)"
  using assms registry_ok_put [of r i g g'] basis_ok_put [of S r i g g'] by (simp add: registry_inv_def)

lemma registry_inv_acquire:
  assumes "registry_inv S r" "rg_next_fence r \<noteq> u64_max" "s \<in> S"
  shows "registry_inv S (snd (acquire s q inc now allow r))"
proof -
  have ok: "registry_ok r" "basis_ok S r" using assms(1) by (simp_all add: registry_inv_def)
  have nf: "basis_ok S (r\<lparr>rg_next_fence := rg_next_fence r + 1\<rparr>)"
    using basis_ok_cong [of "r\<lparr>rg_next_fence := rg_next_fence r + 1\<rparr>" r] ok(2) by simp
  have "basis_ok S (snd (acquire_new s q inc now allow r))"
  proof (cases "acquire_new s q inc now allow r")
    case (Pair res r')
    show ?thesis
    proof (cases res)
      case (Inl st)
      then show ?thesis using Pair acquire_new_Inl [of s q inc now allow r st r'] ok(2) nf by auto
    next
      case (Inr g)
      then obtain expanded pool deadline where *: "acquirable s q now allow r expanded pool deadline"
        "g = issued s q inc now deadline expanded pool (rg_next_fence r + 1)"
        "r' = remember q (granted_outcome g) (enter s g (r\<lparr>rg_next_fence := rg_next_fence r + 1\<rparr>))"
        using Pair by (auto simp: acquire_new_Inr_iff)
      have "basis_ok S (enter s g (r\<lparr>rg_next_fence := rg_next_fence r + 1\<rparr>))"
        using * nf assms(3) fence_fresh [OF ok(1) assms(2)]
        by (intro basis_ok_enter) (simp_all add: acquirable_def)
      then show ?thesis using * Pair by simp
    qed
  qed
  then have "basis_ok S (snd (acquire s q inc now allow r))"
    using ok(2) by (simp add: acquire_def split: option.splits)
  then show ?thesis using registry_ok_acquire [OF ok(1) assms(2)] by (simp add: registry_inv_def)
qed

section \<open>Loops over the grants\<close>

lemma fold_grants_rel:
  assumes step: "\<And>i st g. Q st \<Longrightarrow> omap_get (rg_grants (reg st)) i = Some g \<Longrightarrow>
      Q (F i st) \<and> (\<exists>g'. omap_get (rg_grants (reg (F i st))) = (omap_get (rg_grants (reg st)))(i \<mapsto> g') \<and> R g g')"
    and "distinct ks" "Q st" "\<forall>i\<in>set ks. omap_get (rg_grants (reg st)) i \<noteq> None"
  shows "Q (fold F ks st) \<and>
    (\<forall>i. if i \<in> set ks
         then (\<exists>g g'. omap_get (rg_grants (reg st)) i = Some g \<and>
                 omap_get (rg_grants (reg (fold F ks st))) i = Some g' \<and> R g g')
         else omap_get (rg_grants (reg (fold F ks st))) i = omap_get (rg_grants (reg st)) i)"
  using assms(2-)
proof (induction ks arbitrary: st)
  case Nil
  then show ?case by simp
next
  case (Cons k ks)
  obtain g where g: "omap_get (rg_grants (reg st)) k = Some g" using Cons.prems(3) by auto
  obtain g' where g': "omap_get (rg_grants (reg (F k st))) = (omap_get (rg_grants (reg st)))(k \<mapsto> g')" "R g g'"
    and q: "Q (F k st)" using step [OF Cons.prems(2) g] by blast
  have ih: "Q (fold F ks (F k st)) \<and>
    (\<forall>i. if i \<in> set ks
         then (\<exists>g h. omap_get (rg_grants (reg (F k st))) i = Some g \<and>
                 omap_get (rg_grants (reg (fold F ks (F k st)))) i = Some h \<and> R g h)
         else omap_get (rg_grants (reg (fold F ks (F k st)))) i = omap_get (rg_grants (reg (F k st))) i)"
    by (rule Cons.IH) (use Cons.prems q g'(1) in auto)
  have "if i \<in> set (k # ks)
      then (\<exists>g h. omap_get (rg_grants (reg st)) i = Some g \<and>
              omap_get (rg_grants (reg (fold F (k # ks) st))) i = Some h \<and> R g h)
      else omap_get (rg_grants (reg (fold F (k # ks) st))) i = omap_get (rg_grants (reg st)) i" for i
  proof (cases "i = k")
    case True
    then have "i \<notin> set ks" using Cons.prems(1) by simp
    with ih have "omap_get (rg_grants (reg (fold F ks (F k st)))) i = omap_get (rg_grants (reg (F k st))) i"
      by presburger
    with True g g' show ?thesis by simp
  next
    case False
    then have "omap_get (rg_grants (reg (F k st))) i = omap_get (rg_grants (reg st)) i" using g'(1) by simp
    with False conjunct2 [OF ih, rule_format, of i] show ?thesis by (simp split: if_splits)
  qed
  moreover have "Q (fold F (k # ks) st)" using ih by simp
  ultimately show ?case by blast
qed

text \<open>The same for a loop that visits every key of the registry it starts with.\<close>

lemma all_grants_rel:
  assumes "\<And>i st g. Q st \<Longrightarrow> omap_get (rg_grants (reg st)) i = Some g \<Longrightarrow>
      Q (F i st) \<and> (\<exists>g'. omap_get (rg_grants (reg (F i st))) = (omap_get (rg_grants (reg st)))(i \<mapsto> g') \<and> R g g')"
    and "Q st" "omap_ok (rg_grants (reg st))"
  shows "Q (fold F (map fst (rg_grants (reg st))) st) \<and>
    (\<forall>i. rel_option R (omap_get (rg_grants (reg st)) i)
           (omap_get (rg_grants (reg (fold F (map fst (rg_grants (reg st))) st))) i))"
proof -
  let ?ks = "map fst (rg_grants (reg st))"
  have "distinct ?ks" using assms(3) by (simp add: omap_ok_def strict_sorted_distinct)
  moreover have mem: "i \<in> set ?ks \<longleftrightarrow> omap_get (rg_grants (reg st)) i \<noteq> None" for i
    by (simp add: map_of_eq_None_iff)
  ultimately have loop: "Q (fold F ?ks st) \<and>
    (\<forall>i. if i \<in> set ?ks
         then (\<exists>g g'. omap_get (rg_grants (reg st)) i = Some g \<and>
                 omap_get (rg_grants (reg (fold F ?ks st))) i = Some g' \<and> R g g')
         else omap_get (rg_grants (reg (fold F ?ks st))) i = omap_get (rg_grants (reg st)) i)"
    using assms(1,2) by (intro fold_grants_rel) blast+
  have "rel_option R (omap_get (rg_grants (reg st)) i) (omap_get (rg_grants (reg (fold F ?ks st))) i)" for i
    using conjunct2 [OF loop, rule_format, of i] mem [of i]
    by (cases "i \<in> set ?ks") (auto simp del: set_map)
  with loop show ?thesis by blast
qed

lemma omap_upd_same: "m k = Some v \<Longrightarrow> m(k \<mapsto> v) = m"
  by auto

lemma for_grants_map:
  assumes "registry_inv S r"
    and "\<And>i g r. registry_inv S r \<Longrightarrow> omap_get (rg_grants r) i = Some g \<Longrightarrow>
      registry_inv S (f i g r) \<and> omap_get (rg_grants (f i g r)) = (omap_get (rg_grants r))(i \<mapsto> h g)"
  shows "registry_inv S (for_grants f r)"
    and "omap_get (rg_grants (for_grants f r)) i = map_option h (omap_get (rg_grants r) i)"
proof -
  have ok: "omap_ok (rg_grants r)" using assms(1) by (simp add: registry_inv_def registry_ok_def ids_ok_def)
  have *: "registry_inv S (for_grants f r) \<and>
    (\<forall>i. rel_option (\<lambda>g g'. g' = h g) (omap_get (rg_grants r) i) (omap_get (rg_grants (for_grants f r)) i))"
    unfolding for_grants_def
    by (rule all_grants_rel [where reg = id, unfolded id_apply])
      (use assms ok in \<open>auto simp del: fun_upd_apply\<close>)
  then show "registry_inv S (for_grants f r)" by blast
  have "rel_option (\<lambda>g g'. g' = h g) (omap_get (rg_grants r) i) (omap_get (rg_grants (for_grants f r)) i)"
    using * by blast
  then show "omap_get (rg_grants (for_grants f r)) i = map_option h (omap_get (rg_grants r) i)"
    by (cases "omap_get (rg_grants r) i"; cases "omap_get (rg_grants (for_grants f r)) i") auto
qed

section \<open>Renewal, release and the bulk operations\<close>

lemma check_lease_get: "check_lease s token now r = Inr g \<Longrightarrow> omap_get (rg_grants r) (t_grant token) = Some g"
  by (auto simp: check_lease_def split: if_splits option.splits sum.splits)

lemma registry_inv_renew: "registry_inv S r \<Longrightarrow> registry_inv S (snd (renew s token ttl now r))"
  by (auto simp: renew_def Let_def armed_def dest!: check_lease_get intro!: registry_inv_put
      split: sum.splits option.splits)

lemma registry_inv_release: "registry_inv S r \<Longrightarrow> registry_inv S (snd (release token now r))"
  by (auto simp: release_def intro: registry_inv_retire split: option.splits)

definition fenced_as :: "string \<Rightarrow> grant \<Rightarrow> grant" where
  "fenced_as reason g = g\<lparr>g_state := GrantState_kFenced, g_reason := reason\<rparr>"

lemma fence_all_facts:
  assumes "registry_inv S r"
  shows "registry_inv S (fence_all reason r)"
    and "omap_get (rg_grants (fence_all reason r)) i =
      map_option (\<lambda>g. if g_live g then fenced_as reason g else g) (omap_get (rg_grants r) i)"
  unfolding fence_all_def
  by (rule for_grants_map [OF assms, where h = "\<lambda>g. if g_live g then fenced_as reason g else g"];
      auto simp: omap_get_put omap_upd_same fenced_as_def intro: registry_inv_retire simp del: fun_upd_apply)+

lemma fence_device_facts:
  assumes "registry_inv S r"
  shows "registry_inv S (fence_device s device reason r)"
    and "omap_get (rg_grants (fence_device s device reason r)) i =
      map_option (\<lambda>g. if g_live g \<and> touches_device s device g then fenced_as reason g else g)
        (omap_get (rg_grants r) i)"
  unfolding fence_device_def
  by (rule for_grants_map [OF assms,
        where h = "\<lambda>g. if g_live g \<and> touches_device s device g then fenced_as reason g else g"];
      auto simp: omap_get_put omap_upd_same fenced_as_def intro: registry_inv_retire simp del: fun_upd_apply)+

lemma suspend_all_facts:
  assumes "registry_inv S r"
  shows "registry_inv S (suspend_all reason r)"
    and "omap_get (rg_grants (suspend_all reason r)) i =
      map_option (\<lambda>g. if g_state g = GrantState_kActive
                     then g\<lparr>g_state := GrantState_kSuspended, g_reason := reason\<rparr> else g) (omap_get (rg_grants r) i)"
  unfolding suspend_all_def
  by (rule for_grants_map [OF assms, where h = "\<lambda>g. if g_state g = GrantState_kActive
                     then g\<lparr>g_state := GrantState_kSuspended, g_reason := reason\<rparr> else g"];
      auto simp: omap_get_put omap_upd_same armed_def intro!: registry_inv_put simp del: fun_upd_apply)+

definition expired_as :: "timestamp_ms \<Rightarrow> grant \<Rightarrow> grant" where
  "expired_as now g =
     (if g_live g \<and> g_expires_at_ms g \<le> now
      then g\<lparr>g_state := GrantState_kExpired, g_reason := ''lease deadline passed''\<rparr> else g)"

lemma expire_due_facts:
  assumes "registry_inv S r"
  shows "registry_inv S (snd (expire_due now r))"
    and "omap_get (rg_grants (snd (expire_due now r))) i = map_option (expired_as now) (omap_get (rg_grants r) i)"
proof -
  have ok: "omap_ok (rg_grants (snd ([] :: grant_id list, r)))"
    using assms by (simp add: registry_inv_def registry_ok_def ids_ok_def)
  define F where "F = (\<lambda>i (expired, r).
             case omap_get (rg_grants r) i of
               None \<Rightarrow> (expired, r)
             | Some g \<Rightarrow>
                 if \<not> is_live_state (g_state g) then (expired, r)
                 else if g_expires_at_ms g > now then (expired, r)
                 else (expired @ [g_id g], retire i g GrantState_kExpired ''lease deadline passed'' r))"
  have loop: "expire_due now r = fold F (map fst (rg_grants (snd ([] :: grant_id list, r)))) ([], r)"
    by (simp add: expire_due_def F_def)
  have F: "F i (e, r) = (if g_live g \<and> g_expires_at_ms g \<le> now
      then (e @ [g_id g], retire i g GrantState_kExpired ''lease deadline passed'' r) else (e, r))"
    if "omap_get (rg_grants r) i = Some g" for i e r g
    using that by (auto simp: F_def not_less)
  have step: "registry_inv S (snd (F i st)) \<and> (\<exists>g'. omap_get (rg_grants (snd (F i st))) =
      (omap_get (rg_grants (snd st)))(i \<mapsto> g') \<and> g' = expired_as now g)"
    if "registry_inv S (snd st)" "omap_get (rg_grants (snd st)) i = Some g" for i st g
    using that registry_inv_retire [of S "snd st" i g GrantState_kExpired "''lease deadline passed''"]
    by (cases st) (auto simp: F omap_get_put omap_upd_same expired_as_def simp del: fun_upd_apply)
  have *: "registry_inv S (snd (expire_due now r)) \<and>
    (\<forall>i. rel_option (\<lambda>g g'. g' = expired_as now g) (omap_get (rg_grants r) i)
       (omap_get (rg_grants (snd (expire_due now r))) i))"
    using all_grants_rel [where reg = snd and Q = "\<lambda>st. registry_inv S (snd st)" and st = "([], r)" and F = F
        and R = "\<lambda>g g'. g' = expired_as now g", OF step _ ok] assms
    by (simp add: loop)
  then show "registry_inv S (snd (expire_due now r))" by blast
  have "rel_option (\<lambda>g g'. g' = expired_as now g) (omap_get (rg_grants r) i)
      (omap_get (rg_grants (snd (expire_due now r))) i)" using * by blast
  then show "omap_get (rg_grants (snd (expire_due now r))) i = map_option (expired_as now) (omap_get (rg_grants r) i)"
    by (cases "omap_get (rg_grants r) i"; cases "omap_get (rg_grants (snd (expire_due now r))) i") auto
qed

section \<open>Resume and revalidation\<close>

definition resumed_as :: "snapshot \<Rightarrow> timestamp_ms \<Rightarrow> grant \<Rightarrow> grant" where
  "resumed_as s now g =
     (if g_state g \<noteq> GrantState_kSuspended then g
      else if resume_ok s now g then g\<lparr>g_state := GrantState_kActive, g_reason := []\<rparr>
      else fenced_as ''suspended lease could not be revalidated'' g)"

lemma retire_not_recovering:
  "g_state g \<noteq> GrantState_kRecovering \<Longrightarrow>
     (let r1 = detach g r; r2 = r1\<lparr>rg_grants := omap_put i (g\<lparr>g_state := st, g_reason := reason\<rparr>) (rg_grants r1)\<rparr>
      in if rg_live r2 > 0 then r2\<lparr>rg_live := rg_live r2 - 1\<rparr> else r2) = retire i g st reason r"
  by (simp add: retire_def Let_def)

lemma resume_all_facts:
  assumes "registry_inv S r"
  shows "registry_inv S (snd (resume_all s now r))"
    and "omap_get (rg_grants (snd (resume_all s now r))) i = map_option (resumed_as s now) (omap_get (rg_grants r) i)"
proof -
  define F where "F = (\<lambda>i (resumed :: nat, r).
      case omap_get (rg_grants r) i of
        None \<Rightarrow> (resumed, r)
      | Some g \<Rightarrow>
          if g_state g \<noteq> GrantState_kSuspended then (resumed, r)
          else if resume_ok s now g then
            (resumed + 1, r\<lparr>rg_grants := omap_put i (g\<lparr>g_state := GrantState_kActive, g_reason := []\<rparr>) (rg_grants r)\<rparr>)
          else
            (let r = detach g r;
                 r = r\<lparr>rg_grants := omap_put i (g\<lparr>g_state := GrantState_kFenced,
                       g_reason := ''suspended lease could not be revalidated''\<rparr>) (rg_grants r)\<rparr>
             in (resumed, if rg_live r > 0 then r\<lparr>rg_live := rg_live r - 1\<rparr> else r)))"
  have ok: "omap_ok (rg_grants (snd (0 :: nat, r)))"
    using assms by (simp add: registry_inv_def registry_ok_def ids_ok_def)
  have loop: "resume_all s now r = fold F (map fst (rg_grants (snd (0 :: nat, r)))) (0, r)"
    by (simp add: resume_all_def F_def)
  have F: "F i (n, r) =
      (if g_state g \<noteq> GrantState_kSuspended then (n, r)
       else if resume_ok s now g then
         (n + 1, r\<lparr>rg_grants := omap_put i (g\<lparr>g_state := GrantState_kActive, g_reason := []\<rparr>) (rg_grants r)\<rparr>)
       else (n, retire i g GrantState_kFenced ''suspended lease could not be revalidated'' r))"
    if "omap_get (rg_grants r) i = Some g" for i n r g
    using that retire_not_recovering [where g = g and r = r and i = i and st = GrantState_kFenced
        and reason = "''suspended lease could not be revalidated''"]
    by (simp add: F_def Let_def)
  have step: "registry_inv S (snd (F i st)) \<and> (\<exists>g'. omap_get (rg_grants (snd (F i st))) =
      (omap_get (rg_grants (snd st)))(i \<mapsto> g') \<and> g' = resumed_as s now g)"
    if inv: "registry_inv S (snd st)" and g: "omap_get (rg_grants (snd st)) i = Some g" for i st g
  proof -
    obtain n r where st: "st = (n, r)" by (cases st)
    note inv = inv [unfolded st snd_conv] and g = g [unfolded st snd_conv]
    consider "g_state g \<noteq> GrantState_kSuspended" | "g_state g = GrantState_kSuspended" "resume_ok s now g"
      | "g_state g = GrantState_kSuspended" "\<not> resume_ok s now g" by blast
    then show ?thesis
    proof cases
      case 1
      then show ?thesis using inv g by (simp add: st F resumed_as_def omap_upd_same del: fun_upd_apply)
    next
      case 2
      then have "registry_inv S (r\<lparr>rg_grants := omap_put i (g\<lparr>g_state := GrantState_kActive, g_reason := []\<rparr>) (rg_grants r)\<rparr>)"
        using inv g by (intro registry_inv_put [where g = g]) (auto simp: armed_def)
      then show ?thesis using 2 g by (simp add: st F resumed_as_def omap_get_put del: fun_upd_apply)
    next
      case 3
      then have "registry_inv S (retire i g GrantState_kFenced ''suspended lease could not be revalidated'' r)"
        using inv g by (intro registry_inv_retire) simp_all
      then show ?thesis using 3 g by (simp add: st F resumed_as_def fenced_as_def omap_get_put del: fun_upd_apply)
    qed
  qed
  have *: "registry_inv S (snd (resume_all s now r)) \<and>
    (\<forall>i. rel_option (\<lambda>g g'. g' = resumed_as s now g) (omap_get (rg_grants r) i)
       (omap_get (rg_grants (snd (resume_all s now r))) i))"
    using all_grants_rel [where reg = snd and Q = "\<lambda>st. registry_inv S (snd st)" and st = "(0, r)" and F = F
        and R = "\<lambda>g g'. g' = resumed_as s now g", OF step _ ok] assms
    by (simp add: loop)
  then show "registry_inv S (snd (resume_all s now r))" by blast
  have "rel_option (\<lambda>g g'. g' = resumed_as s now g) (omap_get (rg_grants r) i)
      (omap_get (rg_grants (snd (resume_all s now r))) i)" using * by blast
  then show "omap_get (rg_grants (snd (resume_all s now r))) i = map_option (resumed_as s now) (omap_get (rg_grants r) i)"
    by (cases "omap_get (rg_grants r) i"; cases "omap_get (rg_grants (snd (resume_all s now r))) i") auto
qed

text \<open>
  Re-arming puts a recovered grant back under the snapshot's authority. It is safe when the index
  already holds the scope that this snapshot gives the grant; a grant whose scope did not resolve when
  it was installed has no entry in the index.
\<close>

definition rearm_indexed :: "snapshot \<Rightarrow> timestamp_ms \<Rightarrow> registry \<Rightarrow> bool" where
  "rearm_indexed s now r \<longleftrightarrow>
     list_all (\<lambda>(i, g). g_state g = GrantState_kRecovering \<longrightarrow> rearm_failure s now g = None \<longrightarrow>
       map_option Inr (omap_get (rg_footprints r) i) = Some (expand_scope s (g_scope g))) (rg_grants r)"

definition rearmed_as :: "controller_incarnation \<Rightarrow> timestamp_ms \<Rightarrow> fencing_token \<Rightarrow> grant \<Rightarrow> grant" where
  "rearmed_as inc now fence g =
     g\<lparr>g_state := GrantState_kActive, g_incarnation := inc, g_fence := fence, g_issued_at_ms := now,
       g_reason := []\<rparr>"

definition revalidated ::
  "snapshot \<Rightarrow> controller_incarnation \<Rightarrow> timestamp_ms \<Rightarrow> fencing_token \<Rightarrow> grant \<Rightarrow> grant \<Rightarrow> bool" where
  "revalidated s inc now nf g g' \<longleftrightarrow>
     (if g_state g \<noteq> GrantState_kRecovering then g' = g
      else case rearm_failure s now g of
        Some failure \<Rightarrow> g' = fenced_as failure g
      | None \<Rightarrow> \<exists>fence. nf < fence \<and> g' = rearmed_as inc now fence g)"

lemma recovering_count:
  assumes "registry_ok r" "omap_get (rg_grants r) i = Some g" "g_state g = GrantState_kRecovering"
  shows "0 < rg_recovering r" "0 < rg_live r"
proof -
  have "(if g_state g = GrantState_kRecovering then 1 else 0 :: nat) \<le> rg_recovering r"
    "(if g_live g then 1 else 0 :: nat) \<le> rg_live r"
    using assms(1) omap_sum_ge [OF assms(2), of "\<lambda>i g. if g_state g = GrantState_kRecovering then 1 else 0"]
      omap_sum_ge [OF assms(2), of "\<lambda>i g. if g_live g then 1 else 0"]
    by (simp_all add: registry_ok_def counts_ok_def)
  then show "0 < rg_recovering r" "0 < rg_live r" using assms(3) by simp_all
qed

lemma revalidate_failure_retires:
  assumes "g_state g = GrantState_kRecovering" "0 < rg_recovering r"
  shows "(let r1 = detach g r;
              r2 = r1\<lparr>rg_grants := omap_put i (g\<lparr>g_state := GrantState_kFenced, g_reason := failure\<rparr>) (rg_grants r1)\<rparr>;
              r3 = (if rg_live r2 > 0 then r2\<lparr>rg_live := rg_live r2 - 1\<rparr> else r2)
          in if rg_recovering r3 > 0 then r3\<lparr>rg_recovering := rg_recovering r3 - 1\<rparr> else r3) =
         retire i g GrantState_kFenced failure r"
  using assms by (simp add: retire_def Let_def detach_recovering)

definition revalidate_step ::
  "snapshot \<Rightarrow> controller_incarnation \<Rightarrow> timestamp_ms \<Rightarrow> grant_id \<Rightarrow> nat \<times> registry \<Rightarrow> nat \<times> registry" where
  "revalidate_step s inc now i st =
     (case omap_get (rg_grants (snd st)) i of
        None \<Rightarrow> st
      | Some g \<Rightarrow>
          if g_state g \<noteq> GrantState_kRecovering then st
          else (case rearm_failure s now g of
            None \<Rightarrow> (fst st + 1, (snd st)\<lparr>
                rg_grants := omap_put i (rearmed_as inc now (rg_next_fence (snd st) + 1) g) (rg_grants (snd st)),
                rg_next_fence := rg_next_fence (snd st) + 1, rg_recovering := rg_recovering (snd st) - 1\<rparr>)
          | Some failure \<Rightarrow> (fst st, retire i g GrantState_kFenced failure (snd st))))"

definition revalidating ::
  "snapshot set \<Rightarrow> snapshot \<Rightarrow> controller_incarnation \<Rightarrow> timestamp_ms \<Rightarrow> fencing_token \<Rightarrow> registry \<Rightarrow> bool" where
  "revalidating S s inc now nf r \<longleftrightarrow>
     registry_inv S r \<and> rearm_indexed s now r \<and> nf \<le> rg_next_fence r \<and> rg_incarnation r = inc \<and>
     unat (rg_next_fence r) + rg_recovering r < 2 ^ 64"

lemma rearm_indexedD:
  assumes "rearm_indexed s now r" "omap_get (rg_grants r) i = Some g" "g_state g = GrantState_kRecovering"
    "rearm_failure s now g = None"
  shows "\<exists>fp. omap_get (rg_footprints r) i = Some fp \<and> expand_scope s (g_scope g) = Inr fp"
proof -
  have "map_option Inr (omap_get (rg_footprints r) i) = Some (expand_scope s (g_scope g))"
    using assms omap_get_SomeD [OF assms(2)] by (auto simp: rearm_indexed_def list_all_iff)
  then show ?thesis by auto
qed

lemma rearm_indexed_upd:
  assumes "rearm_indexed s now r" "omap_ok (rg_grants r)" "rg_grants r' = omap_put i g' (rg_grants r)"
    "g_state g' \<noteq> GrantState_kRecovering" "\<And>j. j \<noteq> i \<Longrightarrow> omap_get (rg_footprints r') j = omap_get (rg_footprints r) j"
  shows "rearm_indexed s now r'"
  using assms by (auto simp: rearm_indexed_def list_all_iff set_omap_put)

lemma rearm_failure_None:
  "rearm_failure s now g = None \<longleftrightarrow>
     (\<exists>expanded. expand_scope s (g_scope g) = Inr expanded \<and> now < g_expires_at_ms g \<and>
        g_epoch g = sd_epoch (sn_data s) \<and> g_generation g \<le> sd_generation (sn_data s) \<and>
        authority_basis_digest s expanded = g_authority_basis g \<and> all_eligible s expanded)"
  by (auto simp: rearm_failure_def first_ineligible_None_iff [symmetric] not_le not_less
      split: sum.splits if_splits option.splits)

lemma revalidate_rearm:
  assumes R: "revalidating S s inc now nf r" and g: "omap_get (rg_grants r) i = Some g"
    and st: "g_state g = GrantState_kRecovering" "rearm_failure s now g = None" "s \<in> S"
  shows "revalidating S s inc now nf (r\<lparr>rg_grants := omap_put i (rearmed_as inc now (rg_next_fence r + 1) g) (rg_grants r),
       rg_next_fence := rg_next_fence r + 1, rg_recovering := rg_recovering r - 1\<rparr>)" (is "revalidating _ _ _ _ _ ?r")
    and "nf < rg_next_fence r + 1"
proof -
  let ?g = "rearmed_as inc now (rg_next_fence r + 1) g"
  have ok: "registry_ok r" "basis_ok S r" using R by (simp_all add: revalidating_def registry_inv_def)
  note cnt = recovering_count [OF ok(1) g st(1)]
  have "rg_next_fence r \<noteq> u64_max"
  proof
    assume "rg_next_fence r = u64_max"
    moreover have "unat (u64_max :: u64) = 2 ^ 64 - 1" by simp
    ultimately show False using R cnt(1) by (simp add: revalidating_def)
  qed
  note succ = fence_succ [OF this]
  have le: "rg_next_fence r \<le> rg_next_fence r + 1" using succ(1) by simp
  show nf: "nf < rg_next_fence r + 1" using R succ(1) by (auto simp: revalidating_def)
  have "g_id g \<le> rg_next_fence r" using grant_id_bound [OF ok(1) g] by simp
  then have rest: "restored ?g" using succ(1) by (auto simp: restored_def rearmed_as_def)
  have "registry_ok ?r"
    by (rule registry_ok_touch [OF ok(1) g]) (use st(1) le cnt rest in \<open>simp_all add: rearmed_as_def\<close>)
  moreover have "basis_ok S ?r"
  proof -
    obtain fp where fp: "omap_get (rg_footprints r) i = Some fp" "expand_scope s (g_scope g) = Inr fp"
      using rearm_indexedD [OF _ g st(1,2)] R by (auto simp: revalidating_def)
    then have "authority_basis_digest s fp = g_authority_basis g" using st(2) by (simp add: rearm_failure_None)
    with fp st(3) have new: "\<exists>s fp. omap_get (rg_footprints r) i = Some fp \<and> s \<in> S \<and>
        expand_scope s (g_scope ?g) = Inr fp \<and> g_authority_basis ?g = authority_basis_digest s fp"
      by (auto simp: rearmed_as_def)
    have "\<exists>s fp. omap_get (rg_footprints r) j = Some fp \<and> s \<in> S \<and>
        expand_scope s (g_scope h) = Inr fp \<and> g_authority_basis h = authority_basis_digest s fp"
      if "omap_get (omap_put i ?g (rg_grants r)) j = Some h" "armed h" for j h
    proof (cases "j = i")
      case True
      then have "h = ?g" using that(1) by (simp add: omap_get_put)
      then show ?thesis using new True by simp
    next
      case False
      then show ?thesis using basis_okD [OF ok(2), of j h] that by (simp add: omap_get_put)
    qed
    then show ?thesis by (simp add: basis_ok_def)
  qed
  moreover have "rearm_indexed s now ?r"
    by (rule rearm_indexed_upd [where r = r and i = i and g' = ?g])
      (use R ok in \<open>auto simp: revalidating_def rearmed_as_def registry_ok_def ids_ok_def\<close>)
  moreover have "unat (rg_next_fence r + 1) + (rg_recovering r - 1) < 2 ^ 64"
    using R cnt(1) succ(2) by (simp add: revalidating_def)
  ultimately show "revalidating S s inc now nf ?r"
    using R nf by (simp add: revalidating_def registry_inv_def)
qed

lemma revalidate_step_ok:
  assumes R: "revalidating S s inc now nf (snd st)" and g: "omap_get (rg_grants (snd st)) i = Some g"
    and "s \<in> S"
  shows "revalidating S s inc now nf (snd (revalidate_step s inc now i st)) \<and>
    (\<exists>g'. omap_get (rg_grants (snd (revalidate_step s inc now i st))) = (omap_get (rg_grants (snd st)))(i \<mapsto> g') \<and>
       revalidated s inc now nf g g')"
proof -
  have ok: "registry_inv S (snd st)" "registry_ok (snd st)"
    using R by (simp_all add: revalidating_def registry_inv_def)
  consider "g_state g \<noteq> GrantState_kRecovering"
    | f where "g_state g = GrantState_kRecovering" "rearm_failure s now g = Some f"
    | "g_state g = GrantState_kRecovering" "rearm_failure s now g = None" by (cases "rearm_failure s now g") auto
  then show ?thesis
  proof cases
    case 1
    then show ?thesis using R g by (simp add: revalidate_step_def revalidated_def omap_upd_same del: fun_upd_apply)
  next
    case 2
    let ?r = "retire i g GrantState_kFenced f (snd st)"
    have "registry_inv S ?r" using ok 2 g by (intro registry_inv_retire) simp_all
    moreover have "rearm_indexed s now ?r"
    proof (rule rearm_indexed_upd [where r = "snd st" and i = i])
      show "omap_get (rg_footprints ?r) j = omap_get (rg_footprints (snd st)) j" if "j \<noteq> i" for j
        using that ok(2) grant_id_bound [OF ok(2) g]
        by (simp add: retire_index_fields detach_footprints omap_get_erase registry_ok_def index_ok_def)
    qed (use R ok in \<open>auto simp: revalidating_def registry_ok_def ids_ok_def\<close>)
    moreover have "unat (rg_next_fence (snd st)) + (rg_recovering (snd st) - 1) < 2 ^ 64"
      using R unfolding revalidating_def by linarith
    ultimately show ?thesis
      using R g 2
      by (simp add: revalidate_step_def revalidated_def revalidating_def omap_get_put fenced_as_def del: fun_upd_apply)
  next
    case 3
    then show ?thesis
      using revalidate_rearm [OF R g 3 assms(3)] g
      by (auto simp: revalidate_step_def revalidated_def omap_get_put simp del: fun_upd_apply)
  qed
qed

lemma revalidate_facts:
  assumes inv: "registry_inv S r" and idx: "rearm_indexed s now r" and "s \<in> S"
    and room: "unat (rg_next_fence r) + rg_recovering r < 2 ^ 64"
  shows "registry_inv S (snd (revalidate s inc now r))"
    and "rel_option (revalidated s inc now (rg_next_fence r)) (omap_get (rg_grants r) i)
           (omap_get (rg_grants (snd (revalidate s inc now r))) i)"
    and "rg_incarnation (snd (revalidate s inc now r)) = inc"
    and "rg_next_fence r \<le> rg_next_fence (snd (revalidate s inc now r))"
proof -
  define r0 where "r0 = r\<lparr>rg_incarnation := inc\<rparr>"
  define F where "F = (\<lambda>i (rearmed :: nat, r).
      case omap_get (rg_grants r) i of
        None \<Rightarrow> (rearmed, r)
      | Some g \<Rightarrow>
          if g_state g \<noteq> GrantState_kRecovering then (rearmed, r)
          else
            (let (rearmed, r) =
               (case rearm_failure s now g of
                  None \<Rightarrow>
                    (let r = r\<lparr>rg_next_fence := rg_next_fence r + 1\<rparr>;
                         g = g\<lparr>g_state := GrantState_kActive, g_incarnation := inc,
                               g_fence := rg_next_fence r, g_issued_at_ms := now, g_reason := []\<rparr>
                     in (rearmed + 1, r\<lparr>rg_grants := omap_put i g (rg_grants r)\<rparr>))
                | Some failure \<Rightarrow>
                    (let r = detach g r;
                         r = r\<lparr>rg_grants := omap_put i
                               (g\<lparr>g_state := GrantState_kFenced, g_reason := failure\<rparr>) (rg_grants r)\<rparr>
                     in (rearmed, if rg_live r > 0 then r\<lparr>rg_live := rg_live r - 1\<rparr> else r)))
             in (rearmed, if rg_recovering r > 0 then r\<lparr>rg_recovering := rg_recovering r - 1\<rparr> else r)))"
  have loop: "revalidate s inc now r = fold F (map fst (rg_grants (snd (0 :: nat, r0)))) (0, r0)"
    by (simp add: revalidate_def F_def r0_def)
  have F: "F i st = revalidate_step s inc now i st"
    if "registry_ok (snd st)" "omap_get (rg_grants (snd st)) i = Some g" for i st g
  proof -
    obtain n r where st: "st = (n, r)" by (cases st)
    note that = that [unfolded st snd_conv]
    show ?thesis
      using that recovering_count [OF that] revalidate_failure_retires [of g r i]
      by (cases "rearm_failure s now g")
        (simp_all add: F_def st revalidate_step_def rearmed_as_def Let_def)
  qed
  have ok: "omap_ok (rg_grants (snd (0 :: nat, r0)))"
    using inv by (simp add: registry_inv_def registry_ok_def ids_ok_def r0_def)
  have start: "revalidating S s inc now (rg_next_fence r) (snd (0 :: nat, r0))"
    using assms basis_ok_cong [of r0 r] by (simp add: revalidating_def r0_def registry_inv_def rearm_indexed_def)
  have step: "revalidating S s inc now (rg_next_fence r) (snd (F i st)) \<and>
      (\<exists>g'. omap_get (rg_grants (snd (F i st))) = (omap_get (rg_grants (snd st)))(i \<mapsto> g') \<and>
         revalidated s inc now (rg_next_fence r) g g')"
    if "revalidating S s inc now (rg_next_fence r) (snd st)" "omap_get (rg_grants (snd st)) i = Some g" for i st g
    using revalidate_step_ok [OF that assms(3)] F [OF _ that(2)] that(1)
    by (simp add: revalidating_def registry_inv_def)
  have *: "revalidating S s inc now (rg_next_fence r) (snd (revalidate s inc now r)) \<and>
    (\<forall>i. rel_option (revalidated s inc now (rg_next_fence r)) (omap_get (rg_grants r0) i)
       (omap_get (rg_grants (snd (revalidate s inc now r))) i))"
    using all_grants_rel [where reg = snd and Q = "\<lambda>st. revalidating S s inc now (rg_next_fence r) (snd st)"
        and st = "(0, r0)" and F = F and R = "revalidated s inc now (rg_next_fence r)", OF step start ok]
    by (simp add: loop)
  then show "registry_inv S (snd (revalidate s inc now r))" "rg_incarnation (snd (revalidate s inc now r)) = inc"
    "rg_next_fence r \<le> rg_next_fence (snd (revalidate s inc now r))"
    by (simp_all add: revalidating_def)
  have "rg_grants r0 = rg_grants r" by (simp add: r0_def)
  then show "rel_option (revalidated s inc now (rg_next_fence r)) (omap_get (rg_grants r) i)
      (omap_get (rg_grants (snd (revalidate s inc now r))) i)" using * by simp
qed

end
