(* ===== verification/Rnf_Registry_Machine.thy ===== *)
theory Rnf_Registry_Machine
  imports Rnf_Registry_Ops
begin

text \<open>
  The registry as a state machine: recovery, the remaining operations, one label per method that
  changes the registry, and the properties that hold after every sequence of operations. Two labels
  carry a guard the source does not check. \<open>Op_install_recovered\<close> asks that the capacity account has room
  for the grant and that it takes no resource from a conflicting grant that was itself issued by this
  registry (\<open>recovered_fits\<close>); it may conflict with any grant that was recovered too. A registry that
  recovers before it issues, as the daemon's does, meets the second half. \<open>Op_revalidate\<close> asks that the
  snapshot gives a recovering grant the scope it was indexed under (\<open>rearm_indexed\<close>), which holds of the
  snapshot it was installed with. The fence counter has 64 bits and
  the source does not check its wrap-around, so the labels that issue fences ask for room. \<open>S\<close> is any
  set that contains the snapshots new and re-armed grants were checked against.
\<close>

section \<open>Recovery and log replay\<close>

definition recovered_pool :: "snapshot \<Rightarrow> grant \<Rightarrow> resource_ref list result" where
  "recovered_pool s g =
     (if g_capacity_pool g = [] then capacity_pool_refs s (g_scope g) else Inr (g_capacity_pool g))"

definition recovered_fits :: "snapshot \<Rightarrow> grant \<Rightarrow> registry \<Rightarrow> bool" where
  "recovered_fits s g r \<longleftrightarrow>
     g_id g \<le> max (rg_next_fence r) (g_fence g) \<and> distinct (g_capacity_pool g) \<and>
     (case recovered_pool s g of Inl _ \<Rightarrow> True
      | Inr pool \<Rightarrow> list_all (\<lambda>ref. unat (committed ref r) + unat (g_capacity g) < 2 ^ 64) pool) \<and>
     (case expand_scope s (g_scope g) of Inl _ \<Rightarrow> True
      | Inr expanded \<Rightarrow> list_all (\<lambda>(j, h). occupant_conflicts (g_mode g) (g_mode h) \<longrightarrow> restored h \<or>
          (case omap_get (rg_footprints r) j of None \<Rightarrow> True | Some fq \<Rightarrow> set expanded \<inter> set fq = {})) (rg_grants r))"

lemma registry_ok_put_dead:
  assumes ok: "registry_ok r" and fresh: "omap_get (rg_grants r) i = None"
    and g: "g_id g = i" "\<not> g_live g" "i \<le> rg_next_fence r" "g_fence g \<le> rg_next_fence r"
  shows "registry_ok (r\<lparr>rg_grants := omap_put i g (rg_grants r)\<rparr>)" (is "registry_ok ?r")
proof -
  have okg: "omap_ok (rg_grants r)" and idx: "index_ok r"
    using ok by (simp_all add: registry_ok_def ids_ok_def)
  have fp: "omap_get (rg_footprints r) i = None" using idx fresh by (rule footprint_fresh)
  have occ: "occ_at ?r ref = occ_at r ref" for ref by (rule occ_at_cong) simp
  have live: "distinct f \<and> (\<exists>h. omap_get (omap_put i g (rg_grants r)) j = Some h \<and> g_live h)"
    if "omap_get (rg_footprints r) j = Some f" for j f
    using index_footprint [OF idx that] that fp by (cases "j = i") (auto simp: omap_get_put)
  have mem: "x \<in> set (occ_at r ref) \<longleftrightarrow> (\<exists>fq h. omap_get (rg_footprints r) (op_id x) = Some fq \<and>
      ref \<in> set fq \<and> omap_get (omap_put i g (rg_grants r)) (op_id x) = Some h \<and> op_mode x = g_mode h)" for x ref
    using index_occupants [OF idx, of x ref] fp by (cases "op_id x = i") (auto simp: omap_get_put)
  have "index_ok ?r"
    using idx live mem index_distinct [OF idx] unfolding index_ok_def occ by auto
  moreover have "ids_ok ?r"
    using ok g by (auto simp: registry_ok_def ids_ok_def omap_ok_put omap_get_put)
  moreover have "account_ok ?r"
    using ok g(2) omap_sum_put_new [OF okg fresh]
    by (simp add: registry_ok_def account_ok_def committed_def charge_def)
  moreover have "counts_ok ?r"
    using ok g(2) omap_sum_put_new [OF okg fresh]
    by (auto simp: registry_ok_def counts_ok_def)
  moreover have "exclusive_ok ?r"
  proof -
    have ne: "j \<noteq> i" if "omap_get (rg_footprints r) j = Some f" for j f using that fp by auto
    show ?thesis
      using ok ne unfolding registry_ok_def exclusive_ok_def by (simp add: omap_get_put)
  qed
  ultimately show ?thesis by (simp add: registry_ok_def)
qed

lemma basis_ok_put_dead:
  assumes "basis_ok S r" "\<not> armed g"
  shows "basis_ok S (r\<lparr>rg_grants := omap_put i g (rg_grants r)\<rparr>)"
proof -
  have "\<exists>s fp. omap_get (rg_footprints r) j = Some fp \<and> s \<in> S \<and>
      expand_scope s (g_scope h) = Inr fp \<and> g_authority_basis h = authority_basis_digest s fp"
    if "omap_get (omap_put i g (rg_grants r)) j = Some h" "armed h" for j h
    using basis_okD [OF assms(1), of j h] that assms(2)
    by (cases "j = i") (auto simp: omap_get_put)
  then show ?thesis by (simp add: basis_ok_def)
qed

lemma registry_inv_next_fence:
  "registry_inv S r \<Longrightarrow> rg_next_fence r \<le> nf \<Longrightarrow> registry_inv S (r\<lparr>rg_next_fence := nf\<rparr>)"
  using basis_ok_cong [of "r\<lparr>rg_next_fence := nf\<rparr>" r] by (simp add: registry_inv_def registry_ok_next_fence)

lemma registry_inv_install_recovered:
  assumes inv: "registry_inv S r" and fits: "recovered_fits s g r"
  shows "registry_inv S (snd (install_recovered s g r))"
proof -
  let ?r = "r\<lparr>rg_next_fence := max (rg_next_fence r) (g_fence g)\<rparr>"
  have inv': "registry_inv S ?r" using inv by (intro registry_inv_next_fence) simp_all
  then have ok': "registry_ok ?r" "basis_ok S ?r"
    using inv by (simp_all add: registry_inv_def registry_ok_def)
  have id: "g_id g \<le> rg_next_fence ?r" "g_fence g \<le> rg_next_fence ?r" using fits by (simp_all add: recovered_fits_def)
  show ?thesis
  proof (cases "\<not> snapshot_valid s \<or> \<not> id_is_set (g_id g) \<or> omap_get (rg_grants r) (g_id g) \<noteq> None \<or>
      rg_live r \<ge> al_max_live_grants (rg_limits r)")
    case True
    then show ?thesis using inv by (auto simp: install_recovered_def)
  next
    case False
    then have fresh: "omap_get (rg_grants ?r) (g_id g) = None" by simp
    show ?thesis
    proof (cases "recovered_pool s g")
      case (Inl st)
      let ?g = "g\<lparr>g_state := GrantState_kFenced,
                  g_reason := (if g_reason g = [] then ''scope no longer resolves after restart'' else g_reason g)\<rparr>"
      have eq: "snd (install_recovered s g r) = ?r\<lparr>rg_grants := omap_put (g_id g) ?g (rg_grants ?r)\<rparr>"
        using False Inl by (simp add: install_recovered_def recovered_pool_def Let_def)
      have "registry_ok (?r\<lparr>rg_grants := omap_put (g_id g) ?g (rg_grants ?r)\<rparr>)"
        by (rule registry_ok_put_dead [OF ok'(1) fresh]) (use id in simp_all)
      moreover have "basis_ok S (?r\<lparr>rg_grants := omap_put (g_id g) ?g (rg_grants ?r)\<rparr>)"
        by (rule basis_ok_put_dead [OF ok'(2)]) (simp add: armed_def)
      ultimately show ?thesis unfolding eq registry_inv_def by blast
    next
      case (Inr pool)
      let ?g = "g\<lparr>g_capacity_pool := pool, g_state := GrantState_kRecovering,
                  g_reason := (if g_reason g = [] then ''recovered from durable state; awaiting revalidation''
                               else g_reason g)\<rparr>"
      have eq: "snd (install_recovered s g r) = enter s ?g ?r"
        using False Inr by (simp add: install_recovered_def recovered_pool_def Let_def enter_def)
      have "distinct pool"
        using Inr fits capacity_pool_facts(2) by (auto simp: recovered_pool_def recovered_fits_def split: if_splits)
      moreover have "\<forall>ref\<in>set pool. unat (committed ref r) + unat (g_capacity g) < 2 ^ 64"
        using Inr fits by (simp add: recovered_fits_def list_all_iff)
      moreover have "restored h"
        if "expand_scope s (g_scope g) = Inr scope" "omap_get (rg_footprints r) j = Some fq"
          "omap_get (rg_grants r) j = Some h" "set scope \<inter> set fq \<noteq> {}" "occupant_conflicts (g_mode g) (g_mode h)"
        for scope j fq h
        using fits that omap_get_SomeD [OF that(3)] by (fastforce simp: recovered_fits_def list_all_iff)
      ultimately have "admissible s ?g ?r"
        using fresh id by (simp add: admissible_def enterable_def committed_def restored_def [of ?g])
      then have "registry_ok (enter s ?g ?r)" using ok'(1) by (rule registry_ok_enter [rotated])
      moreover have "basis_ok S (enter s ?g ?r)"
        by (rule basis_ok_enter [OF ok'(2)]) (use fresh in \<open>simp_all add: armed_def\<close>)
      ultimately show ?thesis unfolding eq registry_inv_def by blast
    qed
  qed
qed

lemma registry_inv_install_outcome: "registry_inv S r \<Longrightarrow> registry_inv S (install_outcome q x r)"
  using basis_ok_cong [of "r\<lparr>rg_outcomes := omap_put q x (rg_outcomes r)\<rparr>" r]
  by (simp add: install_outcome_def registry_inv_def registry_ok_outcomes registry_ok_outcomes_ok omap_ok_put)

lemma registry_inv_apply_state: "registry_inv S r \<Longrightarrow> registry_inv S (snd (apply_state i st reason r))"
  by (auto simp: apply_state_def armed_def intro: registry_inv_retire registry_inv_put split: option.splits)

lemma registry_inv_set_incarnation: "registry_inv S r \<Longrightarrow> registry_inv S (set_incarnation inc r)"
  using basis_ok_cong [of "r\<lparr>rg_incarnation := inc\<rparr>" r] by (simp add: set_incarnation_def registry_inv_def)

lemma prune_noop:
  assumes "registry_ok r"
  shows "prune r = Some (0, r)"
proof -
  have idx: "index_ok r" using assms by (simp add: registry_ok_def)
  then have okf: "omap_ok (rg_footprints r)" by (simp add: index_ok_def)
  have "\<exists>g. omap_get (rg_grants r) i = Some g \<and> g_live g" if i: "i \<in> set (map fst (rg_footprints r))" for i
  proof -
    obtain fp where "(i, fp) \<in> set (rg_footprints r)" using i by auto
    then have "omap_get (rg_footprints r) i = Some fp" using okf by (simp add: omap_get_iff)
    from index_footprint [OF idx this] show ?thesis by blast
  qed
  then have "filter (\<lambda>i. case omap_get (rg_grants r) i of None \<Rightarrow> True | Some g \<Rightarrow> \<not> g_live g)
      (map fst (rg_footprints r)) = []"
    by (fastforce simp: filter_empty_conv)
  then show ?thesis by (simp add: prune_def)
qed

section \<open>The state machine\<close>

datatype registry_op =
    Op_acquire snapshot grant_request controller_incarnation timestamp_ms bool
  | Op_renew snapshot lease_token u64 timestamp_ms
  | Op_release lease_token timestamp_ms
  | Op_fence_all string
  | Op_fence_device snapshot device_id string
  | Op_expire_due timestamp_ms
  | Op_suspend_all string
  | Op_resume_all snapshot timestamp_ms
  | Op_install_recovered snapshot grant
  | Op_revalidate snapshot controller_incarnation timestamp_ms
  | Op_install_outcome request_id request_outcome
  | Op_apply_state grant_id grant_state string
  | Op_set_incarnation controller_incarnation
  | Op_prune

fun op_guard :: "snapshot set \<Rightarrow> registry_op \<Rightarrow> registry \<Rightarrow> bool" where
  "op_guard S (Op_acquire s q inc now allow) r \<longleftrightarrow> rg_next_fence r \<noteq> u64_max \<and> s \<in> S"
| "op_guard S (Op_install_recovered s g) r \<longleftrightarrow> recovered_fits s g r"
| "op_guard S (Op_revalidate s inc now) r \<longleftrightarrow>
     rearm_indexed s now r \<and> s \<in> S \<and> unat (rg_next_fence r) + rg_recovering r < 2 ^ 64"
| "op_guard S _ r \<longleftrightarrow> True"

fun op_apply :: "registry_op \<Rightarrow> registry \<Rightarrow> registry" where
  "op_apply (Op_acquire s q inc now allow) r = snd (acquire s q inc now allow r)"
| "op_apply (Op_renew s token ttl now) r = snd (renew s token ttl now r)"
| "op_apply (Op_release token now) r = snd (release token now r)"
| "op_apply (Op_fence_all reason) r = fence_all reason r"
| "op_apply (Op_fence_device s d reason) r = fence_device s d reason r"
| "op_apply (Op_expire_due now) r = snd (expire_due now r)"
| "op_apply (Op_suspend_all reason) r = suspend_all reason r"
| "op_apply (Op_resume_all s now) r = snd (resume_all s now r)"
| "op_apply (Op_install_recovered s g) r = snd (install_recovered s g r)"
| "op_apply (Op_revalidate s inc now) r = snd (revalidate s inc now r)"
| "op_apply (Op_install_outcome q x) r = install_outcome q x r"
| "op_apply (Op_apply_state i st reason) r = snd (apply_state i st reason r)"
| "op_apply (Op_set_incarnation inc) r = set_incarnation inc r"
| "op_apply Op_prune r = (case prune r of None \<Rightarrow> r | Some (n, r') \<Rightarrow> r')"

inductive registry_step :: "snapshot set \<Rightarrow> registry \<Rightarrow> registry_op \<Rightarrow> registry \<Rightarrow> bool" for S where
  "op_guard S op r \<Longrightarrow> registry_step S r op (op_apply op r)"

inductive_simps registry_step_iff: "registry_step S r op r'"

lemma registry_inv_apply:
  assumes inv: "registry_inv S r" and guard: "op_guard S op r"
  shows "registry_inv S (op_apply op r)"
proof (cases op)
  case (Op_revalidate s inc now)
  then show ?thesis using guard revalidate_facts(1) [OF inv, of s now inc] by simp
next
  case Op_prune
  then show ?thesis using inv prune_noop [of r] by (simp add: registry_inv_def)
qed (use inv guard in \<open>simp_all add: registry_inv_acquire registry_inv_renew registry_inv_release fence_all_facts
    fence_device_facts expire_due_facts suspend_all_facts resume_all_facts registry_inv_install_recovered
    registry_inv_install_outcome registry_inv_apply_state registry_inv_set_incarnation\<close>)

interpretation registry: state_machine "\<lambda>r. \<exists>limits. r = registry_new limits" "registry_step S" "registry_inv S" for S
  by unfold_locales (auto simp: registry_inv_new registry_step_iff registry_inv_apply)

abbreviation registry_run :: "snapshot set \<Rightarrow> authority_limits \<Rightarrow> registry_op list \<Rightarrow> registry \<Rightarrow> bool" where
  "registry_run S limits ops r \<equiv> run (registry_step S) (registry_new limits) ops r"

lemma registry_run_inv: "registry_run S limits ops r \<Longrightarrow> registry_inv S r"
  by (rule registry.inv_reachable) blast

section \<open>Where a recovered grant comes from\<close>

text \<open>No operation but the installation of a durable grant adds a restored one.\<close>

definition restored_before :: "registry \<Rightarrow> registry \<Rightarrow> bool" where
  "restored_before r r' \<longleftrightarrow>
     (\<forall>i g'. omap_get (rg_grants r') i = Some g' \<longrightarrow> restored g' \<longrightarrow>
        (\<exists>g. omap_get (rg_grants r) i = Some g \<and> restored g))"

lemma restored_before_same: "rg_grants r' = rg_grants r \<Longrightarrow> restored_before r r'"
  by (simp add: restored_before_def)

lemma restored_before_put:
  "omap_get (rg_grants r) i = Some g \<Longrightarrow> rg_grants r' = omap_put i g' (rg_grants r) \<Longrightarrow>
   (restored g' \<Longrightarrow> restored g) \<Longrightarrow> restored_before r r'"
  by (auto simp: restored_before_def omap_get_put)

lemma restored_before_new:
  "rg_grants r' = omap_put i g' (rg_grants r) \<Longrightarrow> \<not> restored g' \<Longrightarrow> restored_before r r'"
  by (auto simp: restored_before_def omap_get_put)

lemma restored_before_map:
  "(\<And>i. omap_get (rg_grants r') i = map_option h (omap_get (rg_grants r) i)) \<Longrightarrow>
   (\<And>g. restored (h g) \<Longrightarrow> restored g) \<Longrightarrow> restored_before r r'"
  by (auto simp: restored_before_def)

lemma restored_changes:
  "restored (g\<lparr>g_expires_at_ms := d\<rparr>) \<longleftrightarrow> restored g"
  "st \<noteq> GrantState_kRecovering \<Longrightarrow> restored (g\<lparr>g_state := st, g_reason := reason\<rparr>) \<Longrightarrow> restored g"
  by (auto simp: restored_def)

lemma restored_before_acquire: "restored_before r (snd (acquire s q inc now allow r))"
proof -
  have "restored_before r (snd (acquire_new s q inc now allow r))"
  proof (cases "acquire_new s q inc now allow r")
    case (Pair res r')
    show ?thesis
    proof (cases res)
      case (Inl st)
      then show ?thesis
        using Pair acquire_new_Inl [of s q inc now allow r st r']
        by (auto simp: remember_def intro!: restored_before_same)
    next
      case (Inr g)
      then obtain expanded pool deadline where
        "g = issued s q inc now deadline expanded pool (rg_next_fence r + 1)"
        "r' = remember q (granted_outcome g) (enter s g (r\<lparr>rg_next_fence := rg_next_fence r + 1\<rparr>))"
        using Pair by (auto simp: acquire_new_Inr_iff)
      then show ?thesis
        using Pair by (auto intro!: restored_before_new simp: remember_def enter_def restored_def)
    qed
  qed
  then show ?thesis by (simp add: acquire_def restored_before_same split: option.splits)
qed

lemma restored_before_revalidate:
  assumes "registry_inv S r" "op_guard S (Op_revalidate s inc now) r"
  shows "restored_before r (snd (revalidate s inc now r))"
  unfolding restored_before_def
proof (intro allI impI)
  fix i g'
  assume g': "omap_get (rg_grants (snd (revalidate s inc now r))) i = Some g'" "restored g'"
  then obtain g where "omap_get (rg_grants r) i = Some g" "revalidated s inc now (rg_next_fence r) g g'"
    using revalidate_facts(2) [OF assms(1), of s now inc i] assms(2) by (auto simp: option_rel_Some2)
  with g'(2) show "\<exists>g. omap_get (rg_grants r) i = Some g \<and> restored g"
    by (auto simp: revalidated_def restored_def split: if_splits)
qed

lemma restored_before_apply:
  assumes inv: "registry_inv S r" and guard: "op_guard S op r" and op: "\<And>s g. op \<noteq> Op_install_recovered s g"
  shows "restored_before r (op_apply op r)"
proof (cases op)
  case (Op_acquire s q inc now allow)
  then show ?thesis by (simp add: restored_before_acquire)
next
  case (Op_renew s token ttl now)
  then show ?thesis
    by (auto simp: renew_def Let_def restored_changes restored_before_same intro!: restored_before_put
        split: option.splits sum.splits)
next
  case (Op_release token now)
  then show ?thesis
    by (auto simp: release_def restored_before_same intro!: restored_before_put dest: restored_changes(2) [rotated]
        split: option.splits)
next
  case (Op_fence_all reason)
  have "restored (if g_live g then fenced_as reason g else g) \<Longrightarrow> restored g" for g
    by (auto simp: fenced_as_def restored_def split: if_splits)
  then have "restored_before r (fence_all reason r)" by (rule restored_before_map [OF fence_all_facts(2) [OF inv, of reason]])
  then show ?thesis using Op_fence_all by simp
next
  case (Op_fence_device s d reason)
  have "restored (if g_live g \<and> touches_device s d g then fenced_as reason g else g) \<Longrightarrow> restored g" for g
    by (auto simp: fenced_as_def restored_def split: if_splits)
  then have "restored_before r (fence_device s d reason r)" by (rule restored_before_map [OF fence_device_facts(2) [OF inv, of s d reason]])
  then show ?thesis using Op_fence_device by simp
next
  case (Op_expire_due now)
  have "restored (expired_as now g) \<Longrightarrow> restored g" for g by (auto simp: expired_as_def restored_def split: if_splits)
  then have "restored_before r (snd (expire_due now r))" by (rule restored_before_map [OF expire_due_facts(2) [OF inv, of now]])
  then show ?thesis using Op_expire_due by simp
next
  case (Op_suspend_all reason)
  have "restored (if g_state g = GrantState_kActive then g\<lparr>g_state := GrantState_kSuspended, g_reason := reason\<rparr> else g) \<Longrightarrow>
      restored g" for g by (auto simp: restored_def split: if_splits)
  then have "restored_before r (suspend_all reason r)" by (rule restored_before_map [OF suspend_all_facts(2) [OF inv, of reason]])
  then show ?thesis using Op_suspend_all by simp
next
  case (Op_resume_all s now)
  have "restored (resumed_as s now g) \<Longrightarrow> restored g" for g
    by (auto simp: resumed_as_def fenced_as_def restored_def split: if_splits)
  then have "restored_before r (snd (resume_all s now r))" by (rule restored_before_map [OF resume_all_facts(2) [OF inv, of s now]])
  then show ?thesis using Op_resume_all by simp
next
  case (Op_revalidate s inc now)
  then show ?thesis using restored_before_revalidate [OF inv, of s inc now] guard by simp
next
  case (Op_apply_state i st reason)
  then show ?thesis
    by (auto simp: apply_state_def restored_before_same restored_def intro!: restored_before_put split: option.splits)
next
  case Op_prune
  then show ?thesis using prune_noop [of r] inv by (simp add: registry_inv_def restored_before_same)
qed (use op in \<open>simp_all add: install_outcome_def set_incarnation_def restored_before_same\<close>)

lemma install_recovered_others:
  "i \<noteq> g_id g \<Longrightarrow> omap_get (rg_grants (snd (install_recovered s g r))) i = omap_get (rg_grants r) i"
  by (auto simp: install_recovered_def Let_def omap_get_put split: sum.splits)

lemma restored_origin:
  assumes "run (registry_step S) r ops r'" "registry_inv S r" "omap_get (rg_grants r') i = Some g'" "restored g'"
  shows "(\<exists>g. omap_get (rg_grants r) i = Some g \<and> restored g) \<or> (\<exists>s h. Op_install_recovered s h \<in> set ops \<and> g_id h = i)"
  using assms
proof (induction rule: run.induct)
  case (run_cons r op t ops r')
  have t: "t = op_apply op r" "op_guard S op r" using run_cons.hyps(1) by (simp_all add: registry_step_iff)
  then have inv: "registry_inv S t" using run_cons.prems(1) by (simp add: registry_inv_apply)
  from run_cons.IH [OF inv run_cons.prems(2,3)] consider g where "omap_get (rg_grants t) i = Some g" "restored g"
    | s h where "Op_install_recovered s h \<in> set ops" "g_id h = i" by blast
  then show ?case
  proof cases
    case 1
    show ?thesis
    proof (cases "\<exists>s h. op = Op_install_recovered s h")
      case True
      then show ?thesis using 1 t(1) install_recovered_others by (metis list.set_intros(1) op_apply.simps(9))
    next
      case False
      then have "restored_before r t" using t restored_before_apply [OF run_cons.prems(1) t(2)] by blast
      with 1 show ?thesis unfolding restored_before_def by blast
    qed
  qed auto
qed auto

end
