(* ===== verification/Rnf_Registry_Props.thy ===== *)
theory Rnf_Registry_Props
  imports Rnf_Registry_Machine
begin

text \<open>
  The properties of the grant registry: exclusivity of honoured leases, the capacity account,
  idempotent requests, exact validation, release, expiry, fencing and recovery. The witnesses run the
  operations on a one-device rack.
\<close>

section \<open>A rack to run on\<close>

definition lease_resource :: "resource_ref \<Rightarrow> capacity \<Rightarrow> owner_ref list \<Rightarrow> resource_state" where
  "lease_resource ref cap owners =
     \<lparr>rs_ref = ref, rs_eligibility = Eligibility_kEligible, rs_availability = Availability_kUp,
      rs_capacity_known = True, rs_capacity = cap, rs_obligated = 0, rs_maintenance = False, rs_owners = owners\<rparr>"

text \<open>Rack 1 with device 5 (capacity 10) and its port 2 (capacity 4).\<close>

definition lease_rack :: snapshot where
  "lease_rack =
     \<lparr>sn_ptr = Some ((sn_data sample_rack)\<lparr>sd_lifecycle := LifecycleState_kActive,
        sd_capacity := empty_capacity_ledger\<lparr>k_uncommitted := 10\<rparr>,
        sd_resources :=
          [lease_resource (ResourceRef ResourceKind_kRack 1) 10 [],
           lease_resource (ResourceRef ResourceKind_kDevice 5) 10 [OwnerRef 5 7],
           lease_resource (ResourceRef ResourceKind_kPort 2) 4 [OwnerRef 5 7]]\<rparr>),
      sn_digest = zero_digest\<rparr>"

definition shared_request :: "u64 \<Rightarrow> grant_request" where
  "shared_request n =
     \<lparr>q_request = RequestId 0 n, q_principal = 3, q_scope = ResourceRef ResourceKind_kPort 2,
      q_mode = GrantMode_kShared, q_capacity = 1, q_ttl_ms = 1000\<rparr>"

definition port_scope :: "resource_ref list" where
  "port_scope = [ResourceRef ResourceKind_kPort 2]"

definition port_pool :: "resource_ref list" where
  "port_pool = [ResourceRef ResourceKind_kRack 1, ResourceRef ResourceKind_kDevice 5, ResourceRef ResourceKind_kPort 2]"

definition lease_grant :: "u64 \<Rightarrow> grant" where
  "lease_grant n = issued lease_rack (shared_request n) 0 10 1010 port_scope port_pool n"

definition lease_ops :: "registry_op list" where
  "lease_ops = [Op_acquire lease_rack (shared_request 1) 0 10 True, Op_acquire lease_rack (shared_request 2) 0 10 True]"

lemma lease_rack_find:
  "find_resource lease_rack (ResourceRef ResourceKind_kRack 1) =
     Some (lease_resource (ResourceRef ResourceKind_kRack 1) 10 [])"
  "find_resource lease_rack (ResourceRef ResourceKind_kDevice 5) =
     Some (lease_resource (ResourceRef ResourceKind_kDevice 5) 10 [OwnerRef 5 7])"
  "find_resource lease_rack (ResourceRef ResourceKind_kPort 2) =
     Some (lease_resource (ResourceRef ResourceKind_kPort 2) 4 [OwnerRef 5 7])"
  by (simp_all add: find_resource_def lease_rack_def sn_data_def lease_resource_def find_sorted_def
      lower_bound_def lower_bound_loop.simps less_eq_resource_ref_def less_eq_resource_kind_def
      less_resource_kind_def less_resource_ref_def)

lemma lease_rack_data [simp]:
  "snapshot_valid lease_rack" "sd_rack (sn_data lease_rack) = 1"
  "k_uncommitted (sd_capacity (sn_data lease_rack)) = 10"
  "sd_lifecycle (sn_data lease_rack) = LifecycleState_kActive" "snapshot_sized lease_rack"
  by (simp_all add: lease_rack_def snapshot_valid_def sn_data_def sample_rack_def snapshot_sized_def
      lease_resource_def empty_snapshot_data_def)

lemma lease_rack_expand: "expand_scope lease_rack (ResourceRef ResourceKind_kPort 2) = Inr port_scope"
  by (simp add: expand_scope_def lease_rack_def sample_rack_def snapshot_valid_def sn_data_def
      empty_snapshot_data_def find_port_def find_sorted_def lower_bound_def lower_bound_loop.simps
      expand_port_def sort_unique_def port_scope_def)

lemma lease_rack_pool: "capacity_pool_refs lease_rack (ResourceRef ResourceKind_kPort 2) = Inr port_pool"
  by (simp add: capacity_pool_refs_def lease_rack_find lease_resource_def sort_unique_def port_pool_def Let_def
      kMaxPoolRefs_def less_eq_resource_ref_def less_eq_resource_kind_def less_resource_kind_def)

lemma lease_rack_eligible: "all_eligible lease_rack port_scope"
  by (simp add: all_eligible_def port_scope_def lease_rack_find lease_resource_def)

lemma lease_rack_base:
  "capacity_base lease_rack (ResourceRef ResourceKind_kRack 1) = Inr 10"
  "capacity_base lease_rack (ResourceRef ResourceKind_kDevice 5) = Inr 10"
  "capacity_base lease_rack (ResourceRef ResourceKind_kPort 2) = Inr 4"
  by (simp_all add: capacity_base_def lease_rack_find lease_resource_def checked_sub_u64_def)

lemma length_port_scope [simp]: "length port_scope = 1"
  by (simp add: port_scope_def)

lemma lease_rack_acquirable:
  assumes "rg_limits r = default_authority_limits" "rg_live r \<le> 3" "length (rg_outcomes r) \<le> 3"
    "rg_occupancy_entries r \<le> 3" "conflict_scan r GrantMode_kShared port_scope = None"
    "\<forall>ref\<in>set port_pool. unat (committed ref r) \<le> 3"
  shows "acquirable lease_rack (shared_request n) 10 True r port_scope port_pool 1010"
proof -
  have room: "\<exists>free. available lease_rack ref r = Inr free \<and> 1 \<le> free"
    if "unat (committed ref r) \<le> 3" "capacity_base lease_rack ref = Inr base" "4 \<le> unat base" for ref base
  proof (intro exI [of _ "base - committed ref r"] conjI)
    have "unat (base - committed ref r) = unat base - unat (committed ref r)"
      using that(1,3) by (intro unat_sub) (simp add: word_le_nat_alt)
    then show "available lease_rack ref r = Inr (base - committed ref r)" "1 \<le> base - committed ref r"
      using that by (simp_all only: available_Inr_iff word_le_nat_alt) simp_all
  qed
  have "status_ok (check_capacity lease_rack port_pool 1 r)"
    unfolding check_capacity_ok_iff
    using assms(6) room [OF _ lease_rack_base(1)] room [OF _ lease_rack_base(2)] room [OF _ lease_rack_base(3)]
    by (simp add: port_pool_def)
  then show ?thesis
    using assms
    by (simp add: acquirable_def shared_request_def id_is_set_def default_authority_limits_def lease_rack_expand
        lease_rack_pool lease_rack_eligible)
qed

definition lease_reg0 :: registry where
  "lease_reg0 = registry_new default_authority_limits"

definition lease_reg1 :: registry where
  "lease_reg1 = remember (shared_request 1) (granted_outcome (lease_grant 1))
     (enter lease_rack (lease_grant 1) (lease_reg0\<lparr>rg_next_fence := 1\<rparr>))"

definition lease_reg2 :: registry where
  "lease_reg2 = remember (shared_request 2) (granted_outcome (lease_grant 2))
     (enter lease_rack (lease_grant 2) (lease_reg1\<lparr>rg_next_fence := 2\<rparr>))"

lemma shared_request_simps [simp]:
  "request_is_set (RequestId 0 1)" "request_is_set (RequestId 0 2)"
  "q_scope (shared_request n) = ResourceRef ResourceKind_kPort 2" "q_request (shared_request n) = RequestId 0 n"
  "q_mode (shared_request n) = GrantMode_kShared" "q_capacity (shared_request n) = 1"
  by (simp_all add: shared_request_def request_is_set_def)

lemma lease_reg0_simps [simp]:
  "rg_limits lease_reg0 = default_authority_limits" "rg_grants lease_reg0 = []" "rg_outcomes lease_reg0 = []"
  "rg_occupancy lease_reg0 = []" "rg_footprints lease_reg0 = []" "rg_occupancy_entries lease_reg0 = 0"
  "rg_committed lease_reg0 = []" "rg_next_fence lease_reg0 = 0" "rg_incarnation lease_reg0 = 0"
  "rg_live lease_reg0 = 0" "rg_recovering lease_reg0 = 0"
  by (simp_all add: lease_reg0_def registry_new_def)

lemma lease_acquire_1:
  "acquire lease_rack (shared_request 1) 0 10 True lease_reg0 = (Inr (lease_grant 1), lease_reg1)"
  by (subst acquire_granted [where expanded = port_scope and pool = port_pool and deadline = 1010])
    (auto simp: lease_reg1_def lease_grant_def Let_def committed_def conflict_scan_None_iff occupant_scan_None_iff occ_at_def
      intro!: lease_rack_acquirable)

lemma lease_grant_simps [simp]:
  "g_id (lease_grant n) = n" "g_scope (lease_grant n) = ResourceRef ResourceKind_kPort 2"
  "g_mode (lease_grant n) = GrantMode_kShared" "g_state (lease_grant n) = GrantState_kActive"
  "g_capacity (lease_grant n) = 1" "g_capacity_pool (lease_grant n) = port_pool" "g_fence (lease_grant n) = n"
  "g_incarnation (lease_grant n) = 0"
  by (simp_all add: lease_grant_def)

lemma lease_reg1_simps [simp]:
  "rg_limits lease_reg1 = default_authority_limits" "rg_grants lease_reg1 = [(1, lease_grant 1)]"
  "length (rg_outcomes lease_reg1) = 1" "omap_get (rg_outcomes lease_reg1) (RequestId 0 2) = None"
  "rg_occupancy lease_reg1 = [(ResourceRef ResourceKind_kPort 2, [Occupant 1 GrantMode_kShared])]"
  "rg_occupancy_entries lease_reg1 = 1" "rg_next_fence lease_reg1 = 1" "rg_incarnation lease_reg1 = 0"
  "rg_live lease_reg1 = 1" "rg_recovering lease_reg1 = 0"
  by (simp_all add: lease_reg1_def remember_def enter_def attach_entries attach_occupancy lease_rack_expand port_scope_def
      occupy_def)

lemma lease_reg1_committed: "ref \<in> set port_pool \<Longrightarrow> committed ref lease_reg1 = 1"
  using attach_committed(2) [where r = "lease_reg0\<lparr>rg_next_fence := 1\<rparr>" and g = "lease_grant 1" and s = lease_rack
      and ref = ref]
  by (simp add: lease_reg1_def remember_def enter_def committed_def port_pool_def saturating_add_u64_def checked_add_u64_def)

lemma lease_acquire_2:
  "acquire lease_rack (shared_request 2) 0 10 True lease_reg1 = (Inr (lease_grant 2), lease_reg2)"
  by (subst acquire_granted [where expanded = port_scope and pool = port_pool and deadline = 1010])
    (auto simp: lease_reg2_def lease_grant_def Let_def lease_reg1_committed occupant_conflicts_def
      conflict_scan_None_iff occupant_scan_None_iff occ_at_def intro!: lease_rack_acquirable)

lemma lease_reg2_simps [simp]:
  "rg_grants lease_reg2 = [(1, lease_grant 1), (2, lease_grant 2)]" "rg_incarnation lease_reg2 = 0"
  "rg_next_fence lease_reg2 = 2" "rg_recovering lease_reg2 = 0"
  by (simp_all add: lease_reg2_def remember_def enter_def)

lemma lease_run: "registry_run {lease_rack} default_authority_limits lease_ops lease_reg2"
proof -
  have "registry_step {lease_rack} lease_reg0 (Op_acquire lease_rack (shared_request 1) 0 10 True) lease_reg1"
    "registry_step {lease_rack} lease_reg1 (Op_acquire lease_rack (shared_request 2) 0 10 True) lease_reg2"
    by (simp_all add: registry_step_iff lease_acquire_1 lease_acquire_2)
  then show ?thesis unfolding lease_ops_def lease_reg0_def [symmetric] by (blast intro: run.intros)
qed

section \<open>Validation\<close>

definition lease_clear :: "snapshot \<Rightarrow> resource_ref \<Rightarrow> bool" where
  "lease_clear s ref =
     (case find_resource s ref of None \<Rightarrow> False
      | Some st \<Rightarrow> rs_eligibility st = Eligibility_kEligible \<and> \<not> rs_maintenance st)"

lemma lease_scan_None_iff: "lease_scan s refs = None \<longleftrightarrow> (\<forall>ref\<in>set refs. lease_clear s ref)"
  by (induction refs) (auto simp: lease_clear_def split: option.splits)

lemma lease_state_refusal_None:
  "lease_state_refusal g = None \<Longrightarrow> armed g \<and> g_state g \<noteq> GrantState_kSuspended"
  by (auto simp: lease_state_refusal_def armed_def terminal_state_def split: if_splits)

lemma lease_state_refusal_Active: "g_state g = GrantState_kActive \<Longrightarrow> lease_state_refusal g = None"
  by (simp add: lease_state_refusal_def)

definition honoured :: "snapshot \<Rightarrow> lease_token \<Rightarrow> timestamp_ms \<Rightarrow> registry \<Rightarrow> grant \<Rightarrow> bool" where
  "honoured s token now r g \<longleftrightarrow>
     snapshot_valid s \<and> omap_get (rg_grants r) (t_grant token) = Some g \<and>
     g_fence g = t_fence token \<and> g_authority_basis g = t_scope_basis token \<and>
     g_incarnation g = t_incarnation token \<and> g_incarnation g = rg_incarnation r \<and>
     lease_state_refusal g = None \<and> now < g_expires_at_ms g \<and>
     g_epoch g = sd_epoch (sn_data s) \<and> g_generation g \<le> sd_generation (sn_data s) \<and>
     lifecycle_honours_existing_authority (sd_lifecycle (sn_data s)) \<and>
     (\<exists>expanded. expand_scope s (g_scope g) = Inr expanded \<and>
        authority_basis_digest s expanded = g_authority_basis g \<and> (\<forall>ref\<in>set expanded. lease_clear s ref))"

lemma check_lease_Inr_iff: "check_lease s token now r = Inr g \<longleftrightarrow> honoured s token now r g"
  (is "?lhs \<longleftrightarrow> ?rhs")
proof
  assume ?lhs
  then show ?rhs
    by (auto simp: check_lease_def honoured_def lease_scan_None_iff not_le not_less
        split: if_splits option.splits sum.splits)
next
  assume ?rhs
  then obtain expanded where *: "expand_scope s (g_scope g) = Inr expanded"
    "authority_basis_digest s expanded = g_authority_basis g" "lease_scan s expanded = None"
    by (auto simp: honoured_def lease_scan_None_iff)
  with \<open>?rhs\<close> show ?lhs by (auto simp: check_lease_def honoured_def)
qed

lemma lease_honoured:
  "n = 1 \<or> n = 2 \<Longrightarrow> check_lease lease_rack (grant_token (lease_grant n)) 20 lease_reg2 = Inr (lease_grant n)"
  unfolding check_lease_Inr_iff honoured_def
  by (auto simp: grant_token_def lease_rack_expand lease_state_refusal_def lease_grant_def issued_def
      lifecycle_honours_existing_authority_def lease_clear_def port_scope_def lease_rack_find lease_resource_def
      shared_request_def)

section \<open>Exclusivity of honoured leases\<close>

text \<open>
  What the registry asks of BLAKE2s: over the snapshots it works against, the basis of one and the
  same scope root never collides.
\<close>

definition basis_injective :: "snapshot set \<Rightarrow> bool" where
  "basis_injective S \<longleftrightarrow>
     (\<forall>s\<in>S. \<forall>t\<in>S. \<forall>root xs ys. expand_scope s root = Inr xs \<longrightarrow> expand_scope t root = Inr ys \<longrightarrow>
        blake2s_hash (basis_bytes s xs) = blake2s_hash (basis_bytes t ys) \<longrightarrow> basis_bytes s xs = basis_bytes t ys)"

lemma lease_basis_injective: "basis_injective {lease_rack}"
  by (simp add: basis_injective_def)

lemma honoured_footprint:
  assumes inv: "registry_inv S r" and S: "s \<in> S" "\<forall>t\<in>S. snapshot_sized t" "basis_injective S"
    and h: "honoured s token now r g" and e: "expand_scope s (g_scope g) = Inr e"
  shows "omap_get (rg_footprints r) (t_grant token) = Some e"
proof -
  have g: "omap_get (rg_grants r) (t_grant token) = Some g" "armed g"
    using h lease_state_refusal_None [of g] by (auto simp: honoured_def)
  have "basis_ok S r" using inv by (simp add: registry_inv_def)
  from basis_okD [OF this g] obtain t fp where t:
    "omap_get (rg_footprints r) (t_grant token) = Some fp" "t \<in> S"
    "expand_scope t (g_scope g) = Inr fp" "g_authority_basis g = authority_basis_digest t fp" by blast
  have "authority_basis_digest s e = authority_basis_digest t fp"
    using h e t(4) by (auto simp: honoured_def)
  then have "basis_bytes s e = basis_bytes t fp"
    using S(1,3) t(2,3) e unfolding basis_injective_def authority_basis_bytes by blast
  then have "e = fp"
    using authority_basis_inj [of e s fp t] S(1,2) t(2) by (simp add: snapshot_sized_view)
  with t(1) show ?thesis by simp
qed

lemma honoured_restored:
  assumes "registry_run S limits ops r" "honoured s t now r g" "restored g"
  shows "g_fence g \<noteq> g_id g \<and> (\<exists>s' h. Op_install_recovered s' h \<in> set ops \<and> g_id h = g_id g)"
proof -
  have g: "omap_get (rg_grants r) (t_grant t) = Some g" "lease_state_refusal g = None"
    using assms(2) by (simp_all add: honoured_def)
  have "g_id g = t_grant t"
    using grant_id_bound [OF _ g(1)] registry_run_inv [OF assms(1)] by (simp add: registry_inv_def)
  moreover have "omap_get (rg_grants (registry_new limits)) i = None" for i by (simp add: registry_new_def)
  moreover have "g_state g \<noteq> GrantState_kRecovering" using g(2) by (auto simp: lease_state_refusal_def)
  ultimately show ?thesis
    using restored_origin [OF assms(1) registry_inv_new g(1) assms(3)] assms(3) by (auto simp: restored_def)
qed

text \<open>Honoured leases whose scopes meet conflict only when both were restored.\<close>

lemma honoured_conflict:
  assumes "registry_inv S r" "s \<in> S" "\<forall>t\<in>S. snapshot_sized t" "basis_injective S"
    and h: "honoured s t1 now r g1" "honoured s t2 now r g2" and ne: "t_grant t1 \<noteq> t_grant t2"
    and e: "expand_scope s (g_scope g1) = Inr e1" "expand_scope s (g_scope g2) = Inr e2" "scopes_intersect e1 e2"
    and x: "g_mode g1 = GrantMode_kExclusive \<or> g_mode g2 = GrantMode_kExclusive"
  shows "restored g1 \<and> restored g2"
proof -
  have fp: "omap_get (rg_footprints r) (t_grant t1) = Some e1" "omap_get (rg_footprints r) (t_grant t2) = Some e2"
    using honoured_footprint [OF assms(1-4)] h e by blast+
  have "set e1 \<inter> set e2 \<noteq> {}" using e(3) scopes_intersect_expand [OF e(1,2)] by blast
  moreover have "occupant_conflicts (g_mode g1) (g_mode g2)" using x by (auto simp: occupant_conflicts_def)
  ultimately show ?thesis
    using assms(1) fp h ne unfolding registry_inv_def registry_ok_def exclusive_ok_def honoured_def by blast
qed

text \<open>
  (C2) A lease the registry issued is never honoured beside a conflicting one. Take any sequence of registry
  operations in which a durable grant is installed only over grants that were recovered too (the daemon
  installs them all before it serves a command), its capacity fits the account, and a revalidation uses a
  snapshot that gives each recovering grant the scope it was indexed under. If a snapshot then honours two
  lease tokens for different grants whose scopes meet in that snapshot, then neither grant is exclusive, or
  both grants were recovered: each is the grant of an \<open>install_recovered\<close> of the sequence and was re-armed
  with a fence that is not its identity. The hypothesis on \<open>S\<close> is that BLAKE2s does not collide on the bases
  of one scope root over the snapshots in use.
\<close>
theorem honoured_leases_exclusive:
  assumes "registry_run S limits ops r" "s \<in> S" "\<forall>t\<in>S. snapshot_sized t" "basis_injective S"
    and "check_lease s t1 now r = Inr g1" "check_lease s t2 now r = Inr g2" "t_grant t1 \<noteq> t_grant t2"
    and "expand_scope s (g_scope g1) = Inr e1" "expand_scope s (g_scope g2) = Inr e2" "scopes_intersect e1 e2"
  shows "(g_mode g1 \<noteq> GrantMode_kExclusive \<and> g_mode g2 \<noteq> GrantMode_kExclusive) \<or>
     (\<forall>g\<in>{g1, g2}. g_fence g \<noteq> g_id g \<and> (\<exists>s' h. Op_install_recovered s' h \<in> set ops \<and> g_id h = g_id g))"
proof (rule disj_imp [THEN iffD2], rule impI)
  assume x: "\<not> (g_mode g1 \<noteq> GrantMode_kExclusive \<and> g_mode g2 \<noteq> GrantMode_kExclusive)"
  have inv: "registry_inv S r" using assms(1) by (rule registry_run_inv)
  have h: "honoured s t1 now r g1" "honoured s t2 now r g2" using assms(5,6) by (simp_all add: check_lease_Inr_iff)
  have "restored g1 \<and> restored g2"
    using honoured_conflict [OF inv assms(2-4) h assms(7-10)] x by blast
  then show "\<forall>g\<in>{g1, g2}. g_fence g \<noteq> g_id g \<and> (\<exists>s' h. Op_install_recovered s' h \<in> set ops \<and> g_id h = g_id g)"
    using honoured_restored [OF assms(1)] h by blast
qed

theorem honoured_leases_exclusive_witness:
  "g_mode (lease_grant 1) \<noteq> GrantMode_kExclusive \<and> g_mode (lease_grant 2) \<noteq> GrantMode_kExclusive \<and>
   check_lease lease_rack (grant_token (lease_grant 1)) 20 lease_reg2 = Inr (lease_grant 1) \<and>
   check_lease lease_rack (grant_token (lease_grant 2)) 20 lease_reg2 = Inr (lease_grant 2)"
  using honoured_leases_exclusive [OF lease_run _ _ lease_basis_injective lease_honoured [of 1] lease_honoured [of 2],
      of port_scope port_scope] lease_honoured
  by (simp add: grant_token_def lease_rack_expand port_scope_def)

text \<open>
  (C3) A lease is honoured exactly when its token names the recorded fence, basis and incarnation of an
  active grant of the current incarnation that has not expired, whose epoch is the rack's, whose
  generation the rack has reached, while the lifecycle honours leases, and whose scope still resolves
  to the same basis with every resource eligible and outside maintenance.
\<close>
theorem check_lease_exact:
  assumes "registry_run S limits ops r"
  shows "check_lease s token now r = Inr g \<longleftrightarrow>
     snapshot_valid s \<and> omap_get (rg_grants r) (t_grant token) = Some g \<and> token = grant_token g \<and>
     g_state g = GrantState_kActive \<and> g_incarnation g = rg_incarnation r \<and> now < g_expires_at_ms g \<and>
     g_epoch g = sd_epoch (sn_data s) \<and> g_generation g \<le> sd_generation (sn_data s) \<and>
     lifecycle_honours_existing_authority (sd_lifecycle (sn_data s)) \<and>
     (\<exists>expanded. expand_scope s (g_scope g) = Inr expanded \<and>
        authority_basis_digest s expanded = g_authority_basis g \<and> (\<forall>ref\<in>set expanded. lease_clear s ref))"
proof -
  have inv: "registry_ok r" "basis_ok S r" using registry_run_inv [OF assms] by (simp_all add: registry_inv_def)
  have active: "g_state g = GrantState_kActive \<longleftrightarrow> lease_state_refusal g = None"
    if g: "omap_get (rg_grants r) (t_grant token) = Some g"
    using lease_state_refusal_Active [of g] lease_state_refusal_None [of g] armed_live(2) [OF inv g] by blast
  have tok: "token = grant_token g \<longleftrightarrow> g_fence g = t_fence token \<and> g_authority_basis g = t_scope_basis token \<and>
      g_incarnation g = t_incarnation token"
    if g: "omap_get (rg_grants r) (t_grant token) = Some g"
    using grant_id_bound [OF inv(1) g] by (cases token) (auto simp: grant_token_def)
  show ?thesis
    unfolding check_lease_Inr_iff honoured_def using active tok by blast
qed

theorem check_lease_exact_witness:
  "check_lease lease_rack (grant_token (lease_grant 1)) 20 lease_reg2 = Inr (lease_grant 1) \<and>
   (20 :: u64) < g_expires_at_ms (lease_grant 1) \<and> g_state (lease_grant 1) = GrantState_kActive"
  using check_lease_exact [OF lease_run, of lease_rack "grant_token (lease_grant 1)" 20 "lease_grant 1"]
    lease_honoured [of 1] by simp

section \<open>Requests\<close>

text \<open>
  (C21) A new request is granted exactly when the principal and scope are set, the lifetime is in range
  and does not overflow, the lifecycle accepts new authority, no bound is reached, every resource of
  the scope is eligible, no live grant indexed on one of them conflicts in mode, and every pool the
  grant draws from has the requested capacity left. The grant then carries the next fence.
\<close>
theorem acquire_exact:
  assumes "registry_run S limits ops r" "snapshot_valid s" "request_is_set (q_request q)"
    "omap_get (rg_outcomes r) (q_request q) = None"
  shows "fst (acquire s q inc now allow r) = Inr g \<longleftrightarrow>
     (\<exists>expanded pool deadline.
        id_is_set (q_principal q) \<and> (ref_id (q_scope q) = 0 \<longrightarrow> ref_kind (q_scope q) = ResourceKind_kRack) \<and>
        al_min_ttl_ms (rg_limits r) \<le> q_ttl_ms q \<and> q_ttl_ms q \<le> al_max_ttl_ms (rg_limits r) \<and> allow \<and>
        rg_live r < al_max_live_grants (rg_limits r) \<and>
        length (rg_outcomes r) < al_max_remembered_requests (rg_limits r) \<and>
        expand_scope s (q_scope q) = Inr expanded \<and>
        rg_occupancy_entries r + length expanded \<le> al_max_occupancy_entries (rg_limits r) \<and>
        all_eligible s expanded \<and>
        (\<forall>i fp h. omap_get (rg_footprints r) i = Some fp \<longrightarrow> omap_get (rg_grants r) i = Some h \<longrightarrow>
           set expanded \<inter> set fp \<noteq> {} \<longrightarrow>
           q_mode q \<noteq> GrantMode_kExclusive \<and> g_mode h \<noteq> GrantMode_kExclusive) \<and>
        capacity_pool_refs s (q_scope q) = Inr pool \<and>
        (\<forall>ref\<in>set pool. \<exists>base. capacity_base s ref = Inr base \<and>
           unat (committed ref r) + unat (q_capacity q) \<le> unat base) \<and>
        unat now + unat (q_ttl_ms q) = unat deadline \<and>
        g = issued s q inc now deadline expanded pool (rg_next_fence r + 1))"
proof -
  have idx: "index_ok r" using registry_run_inv [OF assms(1)] by (simp add: registry_inv_def registry_ok_def)
  have cap: "status_ok (check_capacity s pool c r) \<longleftrightarrow> (\<forall>ref\<in>set pool. \<exists>base. capacity_base s ref = Inr base \<and>
      unat (committed ref r) + unat c \<le> unat base)" for pool c
  proof -
    have "(\<exists>free. available s ref r = Inr free \<and> c \<le> free) \<longleftrightarrow>
        (\<exists>base. capacity_base s ref = Inr base \<and> unat (committed ref r) + unat c \<le> unat base)" for ref
    proof
      assume "\<exists>base. capacity_base s ref = Inr base \<and> unat (committed ref r) + unat c \<le> unat base"
      then obtain base where b: "capacity_base s ref = Inr base" "unat (committed ref r) + unat c \<le> unat base" by blast
      have "unat (base - committed ref r) = unat base - unat (committed ref r)"
        using b(2) by (intro unat_sub) (simp add: word_le_nat_alt)
      then show "\<exists>free. available s ref r = Inr free \<and> c \<le> free"
        using b assms(2) by (intro exI [of _ "base - committed ref r"]) (simp add: available_Inr_iff word_le_nat_alt)
    qed (auto simp: available_Inr_iff word_le_nat_alt)
    then show ?thesis by (simp add: check_capacity_ok_iff)
  qed
  have "fst (acquire s q inc now allow r) = Inr g \<longleftrightarrow> (\<exists>r'. acquire_new s q inc now allow r = (Inr g, r'))"
    using assms(2-4) by (cases "acquire_new s q inc now allow r") (simp add: acquire_new_request)
  also have "\<dots> \<longleftrightarrow> (\<exists>expanded pool deadline. acquirable s q now allow r expanded pool deadline \<and>
      g = issued s q inc now deadline expanded pool (rg_next_fence r + 1))"
    by (simp add: acquire_new_Inr_iff)
  finally show ?thesis
    unfolding acquirable_def conflict_scan_exact [OF idx] cap occupant_conflicts_def by blast
qed

theorem acquire_exact_witness:
  "fst (acquire lease_rack (shared_request 1) 0 10 True lease_reg0) = Inr (lease_grant 1) \<and>
   (\<exists>pool. capacity_pool_refs lease_rack (ResourceRef ResourceKind_kPort 2) = Inr pool \<and>
      (\<forall>ref\<in>set pool. \<exists>base. capacity_base lease_rack ref = Inr base \<and>
         unat (committed ref lease_reg0) + unat (1 :: u64) \<le> unat base))"
  using acquire_exact [of "{lease_rack}" default_authority_limits "[]" lease_reg0 lease_rack "shared_request 1" 0 10 True
      "lease_grant 1"] lease_acquire_1
  by (simp add: lease_reg0_def [symmetric]) blast

text \<open>
  (C26) Requests are idempotent. Once a request has been granted, replaying its identity, with any
  body, snapshot, incarnation and time, returns the recorded grant and changes nothing.
\<close>
theorem acquire_idempotent:
  assumes "acquire s q inc now allow r = (Inr g, r')" "omap_get (rg_outcomes r) (q_request q) = None"
    and "snapshot_valid s'" "q_request q' = q_request q"
  shows "acquire s' q' inc' now' allow' r' = (Inr g, r')"
proof -
  have set: "request_is_set (q_request q)" "snapshot_valid s"
    using assms(1) by (auto simp: acquire_def split: if_splits)
  then have "acquire_new s q inc now allow r = (Inr g, r')" using assms(1,2) by (simp add: acquire_new_request)
  then obtain expanded pool deadline where
    "r' = remember q (granted_outcome g) (enter s g (r\<lparr>rg_next_fence := rg_next_fence r + 1\<rparr>))"
    by (auto simp: acquire_new_Inr_iff)
  then have "omap_get (rg_outcomes r') (q_request q) = Some (granted_outcome g\<lparr>ro_request_digest := request_digest_of q\<rparr>)"
    "omap_get (rg_grants r') (g_id g) = Some g"
    by (simp_all add: remember_def enter_def omap_get_put)
  then show ?thesis using assms(3,4) set(1) by (simp add: acquire_def granted_outcome_def)
qed

theorem acquire_idempotent_witness:
  "acquire lease_rack ((shared_request 1)\<lparr>q_mode := GrantMode_kExclusive\<rparr>) 9 99 False lease_reg1 =
     (Inr (lease_grant 1), lease_reg1)"
  by (rule acquire_idempotent [OF lease_acquire_1]) simp_all



text \<open>
  (C23) Authority never exceeds capacity: when a request is granted, the committed capacity of every
  resource the grant draws from, the new grant included, is within what the snapshot leaves after
  imported obligations.
\<close>
theorem granted_within_capacity:
  assumes "registry_run S limits ops r" "rg_next_fence r \<noteq> u64_max"
    and "acquire s q inc now allow r = (Inr g, r')" "omap_get (rg_outcomes r) (q_request q) = None"
    and "ref \<in> set (g_capacity_pool g)"
  shows "\<exists>base. capacity_base s ref = Inr base \<and> unat (committed ref r') \<le> unat base \<and>
           unat (committed ref r') = unat (committed ref r) + unat (q_capacity q)"
proof -
  have ok: "registry_ok r" using registry_run_inv [OF assms(1)] by (simp add: registry_inv_def)
  have "acquire_new s q inc now allow r = (Inr g, r')"
    using assms(3,4) by (auto simp: acquire_def split: if_splits)
  then obtain expanded pool deadline where acq: "acquirable s q now allow r expanded pool deadline"
    and g: "g = issued s q inc now deadline expanded pool (rg_next_fence r + 1)"
    and r': "r' = remember q (granted_outcome g) (enter s g (r\<lparr>rg_next_fence := rg_next_fence r + 1\<rparr>))"
    by (auto simp: acquire_new_Inr_iff)
  have pool: "distinct pool" "ref \<in> set pool" "status_ok (check_capacity s pool (q_capacity q) r)"
    using acq assms(5) g capacity_pool_facts(2) by (auto simp: acquirable_def)
  obtain base where base: "capacity_base s ref = Inr base" "unat (committed ref r) + unat (q_capacity q) \<le> unat base"
    using pool(3,2) by (rule check_capacity_room)
  have "committed ref r' = committed ref (attach s g (r\<lparr>rg_next_fence := rg_next_fence r + 1\<rparr>))"
    by (simp add: r' remember_def enter_def committed_def)
  also have "\<dots> = saturating_add_u64 (committed ref r) (q_capacity q)"
    using attach_committed(2) [where r = "r\<lparr>rg_next_fence := rg_next_fence r + 1\<rparr>" and g = g and s = s and ref = ref]
      ok pool g by (simp add: registry_ok_def account_ok_def committed_def)
  finally have "unat (committed ref r') = unat (committed ref r) + unat (q_capacity q)"
    using base(2) unat_u64_lt [of base] by (simp add: unat_saturating_add_u64)
  with base show ?thesis by auto
qed

theorem granted_within_capacity_witness:
  "\<exists>base. capacity_base lease_rack (ResourceRef ResourceKind_kPort 2) = Inr base \<and>
     unat (committed (ResourceRef ResourceKind_kPort 2) lease_reg1) \<le> unat base \<and>
     unat (committed (ResourceRef ResourceKind_kPort 2) lease_reg1) =
       unat (committed (ResourceRef ResourceKind_kPort 2) lease_reg0) + unat (q_capacity (shared_request 1))"
  by (rule granted_within_capacity [where S = "{lease_rack}" and limits = default_authority_limits and ops = "[]",
        OF _ _ lease_acquire_1]) (simp_all add: lease_reg0_def [symmetric] port_pool_def)

section \<open>Release, expiry and fencing\<close>

lemma omap_sum_put_state:
  assumes "registry_ok r" "omap_get (rg_grants r) i = Some g" "g_live g" "\<not> is_live_state st"
  shows "unat (committed ref (retire i g st reason r)) =
    unat (committed ref r) - (if ref \<in> set (g_capacity_pool g) then unat (g_capacity g) else 0)"
proof -
  have i: "g_id g = i" using grant_id_bound [OF assms(1,2)] by blast
  have "committed ref (retire i g st reason r) = committed ref (detach g r)"
    by (rule committed_cong) (simp add: retire_index_fields)
  then show ?thesis
    using detach_committed [of r g ref] assms i by (simp add: registry_ok_def)
qed

text \<open>
  Releasing a live grant with its own token succeeds, gives back exactly its capacity on exactly
  the pools it drew from, leaves it released, and a second release succeeds and changes nothing.
\<close>
theorem release_exact:
  assumes "registry_run S limits ops r" "omap_get (rg_grants r) i = Some g" "is_live_state (g_state g)"
    and "release (grant_token g) now r = (st, r')"
  shows "status_ok st \<and>
     omap_get (rg_grants r') i = Some (g\<lparr>g_state := GrantState_kReleased, g_reason := ''released by holder''\<rparr>) \<and>
     (\<forall>ref. unat (committed ref r') =
        unat (committed ref r) - (if ref \<in> set (g_capacity_pool g) then unat (g_capacity g) else 0)) \<and>
     omap_get (rg_footprints r') i = None \<and> rg_live r' + 1 = rg_live r \<and>
     release (grant_token g) now' r' = (ok_status, r')"
proof -
  have ok: "registry_ok r" using registry_run_inv [OF assms(1)] by (simp add: registry_inv_def)
  have i: "g_id g = i" using grant_id_bound [OF ok assms(2)] by blast
  have r': "st = ok_status" "r' = retire i g GrantState_kReleased ''released by holder'' r"
    using assms(2-4) i by (auto simp: release_def grant_token_def)
  have "(if g_live g then 1 else 0) \<le> omap_sum (\<lambda>i g. if g_live g then 1 else 0 :: nat) (rg_grants r)"
    using omap_sum_ge [OF assms(2), of "\<lambda>i g. if g_live g then 1 else 0"] .
  then have "0 < rg_live r" using ok assms(3) by (simp add: registry_ok_def counts_ok_def)
  then show ?thesis
    using r' i assms(2,3) ok omap_sum_put_state [OF ok assms(2,3), of GrantState_kReleased]
    by (simp add: retire_index_fields detach_footprints omap_get_put omap_get_erase registry_ok_def index_ok_def
        release_def grant_token_def)
qed

theorem release_exact_witness:
  "status_ok (fst (release (grant_token (lease_grant 1)) 20 lease_reg2)) \<and>
   rg_live (snd (release (grant_token (lease_grant 1)) 20 lease_reg2)) + 1 = rg_live lease_reg2"
  using release_exact [OF lease_run, of 1 "lease_grant 1" 20 "fst (release (grant_token (lease_grant 1)) 20 lease_reg2)"
      "snd (release (grant_token (lease_grant 1)) 20 lease_reg2)"] by simp

text \<open>
  Fencing everything leaves no authority: every live grant is fenced with the given reason, no
  grant of the rest is touched, no capacity stays committed, the exclusivity index is empty and no
  lease validates.
\<close>
theorem fence_all_exact:
  assumes "registry_run S limits ops r"
  shows "let r' = fence_all reason r in
     (\<forall>i. omap_get (rg_grants r') i =
        map_option (\<lambda>g. if is_live_state (g_state g)
          then g\<lparr>g_state := GrantState_kFenced, g_reason := reason\<rparr> else g) (omap_get (rg_grants r) i)) \<and>
     (\<forall>ref. committed ref r' = 0) \<and> (\<forall>ref. occ_at r' ref = []) \<and> rg_live r' = 0 \<and> rg_recovering r' = 0 \<and>
     (\<forall>s token now g. check_lease s token now r' \<noteq> Inr g)"
proof -
  define r' where "r' = fence_all reason r"
  note inv = registry_run_inv [OF assms]
  have get: "omap_get (rg_grants r') i =
      map_option (\<lambda>g. if g_live g then fenced_as reason g else g) (omap_get (rg_grants r) i)" for i
    unfolding r'_def by (rule fence_all_facts(2) [OF inv])
  have inv': "registry_inv S r'" unfolding r'_def by (rule fence_all_facts(1) [OF inv])
  then have ok: "ids_ok r'" "index_ok r'" "account_ok r'" "counts_ok r'" by (simp_all add: registry_inv_def registry_ok_def)
  have dead: "\<not> g_live g" if "(i, g) \<in> set (rg_grants r')" for i g
  proof -
    have "omap_get (rg_grants r') i = Some g" using that ok(1) by (simp add: omap_get_iff ids_ok_def)
    from this [unfolded get] obtain h where "(if g_live h then fenced_as reason h else h) = g" by auto
    then show ?thesis by (cases "g_live h") (auto simp: fenced_as_def)
  qed
  have rec: "g_state g \<noteq> GrantState_kRecovering" if "(i, g) \<in> set (rg_grants r')" for i g using dead [OF that] by auto
  have zero: "omap_sum (charge ref) (rg_grants r') = 0"
    "omap_sum (\<lambda>i g. if g_live g then 1 else 0 :: nat) (rg_grants r') = 0"
    "omap_sum (\<lambda>i g. if g_state g = GrantState_kRecovering then 1 else 0 :: nat) (rg_grants r') = 0" for ref
    using dead rec unfolding omap_sum_eq_0 charge_def by fastforce+
  have "omap_get (rg_footprints r') i = None" for i
  proof (rule ccontr)
    assume "omap_get (rg_footprints r') i \<noteq> None"
    then obtain fp g where "omap_get (rg_grants r') i = Some g" "g_live g" using index_footprint [OF ok(2), of i] by blast
    then show False using dead omap_get_SomeD by fast
  qed
  then have none: "x \<notin> set (occ_at r' ref)" for x ref using index_occupants [OF ok(2), of x ref] by simp
  have occ: "occ_at r' ref = []" for ref using none [of "hd (occ_at r' ref)" ref] hd_in_set by blast
  have "check_lease s token now r' \<noteq> Inr g" for s token now g
  proof
    assume "check_lease s token now r' = Inr g"
    then have "omap_get (rg_grants r') (t_grant token) = Some g" "armed g"
      using lease_state_refusal_None [of g] by (auto simp: check_lease_Inr_iff honoured_def)
    then show False using armed_live(1) [of r' S] inv' dead omap_get_SomeD by (fastforce simp: registry_inv_def)
  qed
  moreover have "committed ref r' = 0" for ref
    using ok(3) zero(1) [of ref] by (simp add: account_ok_def word_unat_eq_iff)
  ultimately show ?thesis
    using ok(4) zero get [unfolded fenced_as_def] occ by (simp add: Let_def r'_def [symmetric] counts_ok_def)
qed

theorem fence_all_exact_witness: "rg_live (fence_all ''drill'' lease_reg2) = 0"
  using fence_all_exact [OF lease_run, of "''drill''"] by (simp add: Let_def)

end
