(* ===== verification/Rnf_Registry_History.thy ===== *)
theory Rnf_Registry_History
  imports Rnf_Registry_Props
begin

text \<open>
  What happens to a grant over time: expiry reports exactly the grants it expires, a grant never
  changes what it authorises and never comes back to life, fences only grow, tokens of an earlier
  incarnation stay refused after recovery, and the exclusivity index agrees with the index-free
  reference scan.
\<close>

section \<open>Expiry\<close>

definition expire_step :: "timestamp_ms \<Rightarrow> grant_id \<Rightarrow> grant_id list \<times> registry \<Rightarrow> grant_id list \<times> registry" where
  "expire_step now = (\<lambda>i (expired, r).
     case omap_get (rg_grants r) i of
       None \<Rightarrow> (expired, r)
     | Some g \<Rightarrow>
         if \<not> is_live_state (g_state g) then (expired, r)
         else if g_expires_at_ms g > now then (expired, r)
         else (expired @ [g_id g], retire i g GrantState_kExpired ''lease deadline passed'' r))"

lemma expire_due_fold: "expire_due now r = fold (expire_step now) (map fst (rg_grants r)) ([], r)"
  by (simp add: expire_due_def expire_step_def)

lemma expire_list:
  assumes "sorted_wrt (<) (map fst m)" "\<forall>(i, g)\<in>set m. omap_get (rg_grants r) i = Some g \<and> g_id g = i"
  shows "fst (fold (expire_step now) (map fst m) (e, r)) =
    e @ map fst (filter (\<lambda>(i, g). g_live g \<and> g_expires_at_ms g \<le> now) m)"
  using assms
proof (induction m arbitrary: e r)
  case Nil
  then show ?case by simp
next
  case (Cons p m)
  obtain i g where p: "p = (i, g)" by (cases p)
  have g: "omap_get (rg_grants r) i = Some g" "g_id g = i" using Cons.prems(2) p by auto
  have "\<forall>e\<in>set m. i < fst e" using Cons.prems(1) by (simp add: p)
  then have less: "j \<noteq> i" if "(j, h) \<in> set m" for j h using that by force
  have srt: "sorted_wrt (<) (map fst m)" using Cons.prems(1) by simp
  show ?case
  proof (cases "g_live g \<and> g_expires_at_ms g \<le> now")
    case True
    let ?r = "retire i g GrantState_kExpired ''lease deadline passed'' r"
    have "\<forall>(j, h)\<in>set m. omap_get (rg_grants ?r) j = Some h \<and> g_id h = j"
    proof clarify
      fix j h
      assume "(j, h) \<in> set m"
      then show "omap_get (rg_grants ?r) j = Some h \<and> g_id h = j"
        using Cons.prems(2) less [of j h] by (auto simp: omap_get_put)
    qed
    moreover have "expire_step now i (e, r) = (e @ [i], ?r)" using True g by (simp add: expire_step_def not_less)
    ultimately show ?thesis using Cons.IH [OF srt, of ?r "e @ [i]"] True by (simp add: p)
  next
    case False
    then have "expire_step now i (e, r) = (e, r)" using g by (auto simp: expire_step_def not_less)
    moreover have "\<forall>(j, h)\<in>set m. omap_get (rg_grants r) j = Some h \<and> g_id h = j" using Cons.prems(2) by simp
    ultimately show ?thesis using Cons.IH [OF srt, of r e] False by (simp add: p)
  qed
qed

text \<open>
  Expiry is exact: it returns, in order, exactly the identities of the live grants whose deadline
  has passed, marks exactly those expired and leaves every other grant as it was.
\<close>
theorem expire_due_exact:
  assumes "registry_run S limits ops r"
  shows "fst (expire_due now r) =
       map fst (filter (\<lambda>(i, g). is_live_state (g_state g) \<and> g_expires_at_ms g \<le> now) (rg_grants r)) \<and>
     (\<forall>i. omap_get (rg_grants (snd (expire_due now r))) i =
        map_option (\<lambda>g. if is_live_state (g_state g) \<and> g_expires_at_ms g \<le> now
          then g\<lparr>g_state := GrantState_kExpired, g_reason := ''lease deadline passed''\<rparr> else g)
          (omap_get (rg_grants r) i))"
proof -
  note inv = registry_run_inv [OF assms]
  have ok: "omap_ok (rg_grants r)" using inv by (simp add: registry_inv_def registry_ok_def ids_ok_def)
  have "\<forall>(i, g)\<in>set (rg_grants r). omap_get (rg_grants r) i = Some g \<and> g_id g = i"
  proof clarify
    fix i g
    assume "(i, g) \<in> set (rg_grants r)"
    then have "omap_get (rg_grants r) i = Some g" using ok by (simp add: omap_get_iff)
    then show "omap_get (rg_grants r) i = Some g \<and> g_id g = i"
      using grant_id_bound [of r i g] inv by (simp add: registry_inv_def)
  qed
  with expire_list [of "rg_grants r" r now "[]"] ok have
    "fst (expire_due now r) = map fst (filter (\<lambda>(i, g). g_live g \<and> g_expires_at_ms g \<le> now) (rg_grants r))"
    by (simp add: expire_due_fold omap_ok_def)
  moreover have "omap_get (rg_grants (snd (expire_due now r))) i = map_option (expired_as now) (omap_get (rg_grants r) i)"
    for i by (rule expire_due_facts(2) [OF inv])
  moreover have "expired_as now = (\<lambda>g. if g_live g \<and> g_expires_at_ms g \<le> now
      then g\<lparr>g_state := GrantState_kExpired, g_reason := ''lease deadline passed''\<rparr> else g)"
    by (rule ext) (simp add: expired_as_def)
  ultimately show ?thesis by simp
qed

theorem expire_due_exact_witness: "fst (expire_due 1010 lease_reg2) = [1, 2] \<and> fst (expire_due 1009 lease_reg2) = []"
proof -
  have "g_expires_at_ms (lease_grant n) = 1010" for n by (simp add: lease_grant_def)
  then show ?thesis
    using conjunct1 [OF expire_due_exact [OF lease_run, of 1010]] conjunct1 [OF expire_due_exact [OF lease_run, of 1009]]
    by simp
qed

section \<open>The history of a grant\<close>

definition grant_stays :: "grant \<Rightarrow> grant \<Rightarrow> bool" where
  "grant_stays g g' \<longleftrightarrow>
     g_id g' = g_id g \<and> g_request g' = g_request g \<and> g_principal g' = g_principal g \<and> g_scope g' = g_scope g \<and>
     g_mode g' = g_mode g \<and> g_capacity g' = g_capacity g \<and> g_generation g' = g_generation g \<and>
     g_epoch g' = g_epoch g \<and> g_authority_basis g' = g_authority_basis g \<and>
     g_capacity_pool g' = g_capacity_pool g \<and> g_fence g \<le> g_fence g' \<and>
     (is_live_state (g_state g') \<longrightarrow> is_live_state (g_state g))"

lemma grant_stays_refl [simp]: "grant_stays g g"
  by (simp add: grant_stays_def)

lemma grant_stays_trans: "grant_stays g h \<Longrightarrow> grant_stays h k \<Longrightarrow> grant_stays g k"
  unfolding grant_stays_def by (auto intro: order.trans)

lemma grant_stays_changes [simp]:
  "g_live g \<or> \<not> is_live_state st \<Longrightarrow> grant_stays g (g\<lparr>g_state := st, g_reason := reason\<rparr>)"
  "grant_stays g (g\<lparr>g_expires_at_ms := d\<rparr>)"
  by (auto simp: grant_stays_def)

definition kept :: "registry \<Rightarrow> registry \<Rightarrow> bool" where
  "kept r r' \<longleftrightarrow>
     rg_next_fence r \<le> rg_next_fence r' \<and>
     (\<forall>i g. omap_get (rg_grants r) i = Some g \<longrightarrow> (\<exists>g'. omap_get (rg_grants r') i = Some g' \<and> grant_stays g g'))"

lemma keptI:
  "rg_next_fence r \<le> rg_next_fence r' \<Longrightarrow>
   (\<And>i g. omap_get (rg_grants r) i = Some g \<Longrightarrow> \<exists>g'. omap_get (rg_grants r') i = Some g' \<and> grant_stays g g') \<Longrightarrow> kept r r'"
  by (simp add: kept_def)

lemma kept_refl [simp]: "kept r r"
  by (simp add: kept_def)

lemma kept_trans: "kept r r' \<Longrightarrow> kept r' r'' \<Longrightarrow> kept r r''"
  unfolding kept_def by (meson grant_stays_trans order.trans)

lemma kept_put:
  "omap_get (rg_grants r) i = Some g \<Longrightarrow> rg_grants r' = omap_put i g' (rg_grants r) \<Longrightarrow>
   rg_next_fence r' = rg_next_fence r \<Longrightarrow> grant_stays g g' \<Longrightarrow> kept r r'"
  by (auto simp: kept_def omap_get_put)

lemma kept_new:
  "omap_get (rg_grants r) i = None \<Longrightarrow> rg_grants r' = omap_put i g' (rg_grants r) \<Longrightarrow>
   rg_next_fence r \<le> rg_next_fence r' \<Longrightarrow> kept r r'"
  by (auto simp: kept_def omap_get_put)

lemma kept_map:
  "(\<And>i. omap_get (rg_grants r') i = map_option h (omap_get (rg_grants r) i)) \<Longrightarrow>
   rg_next_fence r \<le> rg_next_fence r' \<Longrightarrow> (\<And>g. grant_stays g (h g)) \<Longrightarrow> kept r r'"
  by (simp add: kept_def)

lemma for_grants_next_fence:
  "(\<And>i g r. rg_next_fence (f i g r) = rg_next_fence r) \<Longrightarrow> rg_next_fence (for_grants f r) = rg_next_fence r"
  unfolding for_grants_def by (rule fold_field [where f = rg_next_fence]) (simp split: option.splits)

lemma loop_next_fence:
  "rg_next_fence (fence_all reason r) = rg_next_fence r"
  "rg_next_fence (fence_device s d reason r) = rg_next_fence r"
  "rg_next_fence (suspend_all reason r) = rg_next_fence r"
  unfolding fence_all_def fence_device_def suspend_all_def by (rule for_grants_next_fence; simp)+

lemma pair_loop_next_fence:
  "rg_next_fence (snd (expire_due now r)) = rg_next_fence r"
  "rg_next_fence (snd (resume_all s now r)) = rg_next_fence r"
proof -
  have "rg_next_fence (snd (fold (expire_step now) ks st)) = rg_next_fence (snd st)" for ks st
    by (rule fold_field [where f = "\<lambda>st. rg_next_fence (snd st)"])
      (simp add: expire_step_def split: prod.splits option.splits)
  then show "rg_next_fence (snd (expire_due now r)) = rg_next_fence r" by (simp add: expire_due_fold)
  show "rg_next_fence (snd (resume_all s now r)) = rg_next_fence r"
    unfolding resume_all_def
    by (rule trans [OF fold_field [where f = "\<lambda>st. rg_next_fence (snd st)"]])
      (auto simp: Let_def split: prod.splits option.splits)
qed

lemma kept_acquire:
  assumes "registry_ok r" "rg_next_fence r \<noteq> u64_max"
  shows "kept r (snd (acquire s q inc now allow r))"
proof -
  have le: "rg_next_fence r \<le> rg_next_fence r + 1" using fence_succ(1) [OF assms(2)] by simp
  have "kept r (snd (acquire_new s q inc now allow r))"
  proof (cases "acquire_new s q inc now allow r")
    case (Pair res r')
    show ?thesis
    proof (cases res)
      case (Inl st)
      then show ?thesis
        using Pair acquire_new_Inl [of s q inc now allow r st r'] le
        by (auto simp: remember_def intro!: keptI)
    next
      case (Inr g)
      then obtain expanded pool deadline where
        "g = issued s q inc now deadline expanded pool (rg_next_fence r + 1)"
        "r' = remember q (granted_outcome g) (enter s g (r\<lparr>rg_next_fence := rg_next_fence r + 1\<rparr>))"
        using Pair by (auto simp: acquire_new_Inr_iff)
      then show ?thesis
        using Pair le fence_fresh [OF assms] by (auto intro!: kept_new simp: remember_def enter_def)
    qed
  qed
  then show ?thesis by (simp add: acquire_def split: option.splits)
qed

lemma kept_revalidate:
  assumes "registry_inv S r" "op_guard S (Op_revalidate s inc now) r"
  shows "kept r (snd (revalidate s inc now r))"
proof (rule keptI)
  note facts = revalidate_facts [OF assms(1), of s now inc]
  show "rg_next_fence r \<le> rg_next_fence (snd (revalidate s inc now r))" using facts(4) assms(2) by simp
  fix i g
  assume g: "omap_get (rg_grants r) i = Some g"
  then obtain g' where g': "omap_get (rg_grants (snd (revalidate s inc now r))) i = Some g'"
    "revalidated s inc now (rg_next_fence r) g g'"
    using facts(2) [of i] assms(2) by (auto simp: option_rel_Some1)
  have "g_fence g \<le> rg_next_fence r" using grant_id_bound [OF _ g] assms(1) by (simp add: registry_inv_def)
  then have "grant_stays g g'"
    using g'(2) by (auto simp: revalidated_def fenced_as_def rearmed_as_def grant_stays_def split: if_splits option.splits)
  with g' show "\<exists>g'. omap_get (rg_grants (snd (revalidate s inc now r))) i = Some g' \<and> grant_stays g g'" by blast
qed

lemma kept_install_recovered: "kept r (snd (install_recovered s g r))"
proof -
  let ?r = "snd (install_recovered s g r)"
  consider "?r = r" | g' where "omap_get (rg_grants r) (g_id g) = None"
      "rg_grants ?r = omap_put (g_id g) g' (rg_grants r)" "rg_next_fence r \<le> rg_next_fence ?r"
  proof (cases "\<not> snapshot_valid s \<or> \<not> id_is_set (g_id g) \<or> omap_get (rg_grants r) (g_id g) \<noteq> None \<or>
      rg_live r \<ge> al_max_live_grants (rg_limits r)")
    case True
    then have "?r = r" by (auto simp: install_recovered_def)
    then show ?thesis using that(1) by blast
  next
    case False
    show ?thesis
      by (cases "recovered_pool s g"; rule that(2))
        (use False in \<open>simp_all add: install_recovered_def recovered_pool_def Let_def\<close>)
  qed
  then show ?thesis by cases (auto intro: kept_new)
qed

lemma kept_apply:
  assumes inv: "registry_inv S r" and guard: "op_guard S op r"
  shows "kept r (op_apply op r)"
proof -
  have ok: "registry_ok r" using inv by (simp add: registry_inv_def)
  show ?thesis
  proof (cases op)
    case (Op_acquire s q inc now allow)
    then show ?thesis using kept_acquire [OF ok] guard by simp
  next
    case (Op_renew s token ttl now)
    then show ?thesis
      by (auto simp: renew_def Let_def intro!: kept_put split: option.splits sum.splits)
  next
    case (Op_release token now)
    then show ?thesis by (auto simp: release_def intro!: kept_put split: option.splits)
  next
    case (Op_fence_all reason)
    then show ?thesis
      using kept_map [OF fence_all_facts(2) [OF inv], of reason] by (simp add: loop_next_fence fenced_as_def)
  next
    case (Op_fence_device s d reason)
    then show ?thesis
      using kept_map [OF fence_device_facts(2) [OF inv], of s d reason] by (simp add: loop_next_fence fenced_as_def)
  next
    case (Op_expire_due now)
    then show ?thesis
      using kept_map [OF expire_due_facts(2) [OF inv], of now] by (simp add: pair_loop_next_fence expired_as_def)
  next
    case (Op_suspend_all reason)
    then show ?thesis using kept_map [OF suspend_all_facts(2) [OF inv], of reason] by (simp add: loop_next_fence)
  next
    case (Op_resume_all s now)
    then show ?thesis
      using kept_map [OF resume_all_facts(2) [OF inv], of s now]
      by (simp add: pair_loop_next_fence resumed_as_def fenced_as_def)
  next
    case (Op_install_recovered s g)
    then show ?thesis by (simp add: kept_install_recovered)
  next
    case (Op_revalidate s inc now)
    then show ?thesis using kept_revalidate [OF inv, of s inc now] guard by simp
  next
    case (Op_install_outcome q x)
    then show ?thesis by (auto simp: install_outcome_def intro!: keptI)
  next
    case (Op_apply_state i st reason)
    then show ?thesis by (auto simp: apply_state_def intro!: kept_put split: option.splits)
  next
    case (Op_set_incarnation inc)
    then show ?thesis by (auto simp: set_incarnation_def intro!: keptI)
  next
    case Op_prune
    then show ?thesis using prune_noop [OF ok] by simp
  qed
qed

lemma kept_run:
  "run (registry_step S) r ops r' \<Longrightarrow> registry_inv S r \<Longrightarrow> kept r r'"
proof (induction rule: run.induct)
  case (run_nil r)
  show ?case by simp
next
  case (run_cons r op t ops r')
  then have "registry_inv S t" "kept r t" by (auto simp: registry_step_iff registry_inv_apply kept_apply)
  with run_cons.IH show ?case by (blast intro: kept_trans)
qed

text \<open>
  (C24) A grant is never forgotten, never changes what it authorises (principal, scope, mode, capacity,
  generation, epoch, basis, pools), never gets a smaller fence and never comes back to life once it
  was released, expired or fenced; and the fence counter never goes back.
\<close>
theorem grant_history:
  assumes "registry_run S limits ops r" "run (registry_step S) r later r'" "omap_get (rg_grants r) i = Some g"
  shows "(\<exists>g'. omap_get (rg_grants r') i = Some g' \<and> grant_stays g g') \<and> rg_next_fence r \<le> rg_next_fence r'"
  using kept_run [OF assms(2) registry_run_inv [OF assms(1)]] assms(3) by (simp add: kept_def)

theorem grant_history_witness:
  "(\<exists>g'. omap_get (rg_grants lease_reg2) 1 = Some g' \<and> grant_stays (lease_grant 1) g') \<and>
   rg_next_fence lease_reg1 \<le> rg_next_fence lease_reg2"
proof -
  have "registry_step {lease_rack} lease_reg0 (Op_acquire lease_rack (shared_request 1) 0 10 True) lease_reg1"
    "registry_step {lease_rack} lease_reg1 (Op_acquire lease_rack (shared_request 2) 0 10 True) lease_reg2"
    by (simp_all add: registry_step_iff lease_acquire_1 lease_acquire_2)
  then have "registry_run {lease_rack} default_authority_limits [Op_acquire lease_rack (shared_request 1) 0 10 True] lease_reg1"
    "run (registry_step {lease_rack}) lease_reg1 [Op_acquire lease_rack (shared_request 2) 0 10 True] lease_reg2"
    unfolding lease_reg0_def [symmetric] by (blast intro: run.intros)+
  then show ?thesis by (rule grant_history) simp
qed

text \<open>
  (C27) Fences are fresh: a newly issued grant has a fence above the fence of every grant the registry
  has ever held.
\<close>
theorem fence_strictly_increases:
  assumes "registry_run S limits ops r" "rg_next_fence r \<noteq> u64_max"
    and "acquire s q inc now allow r = (Inr g, r')" "omap_get (rg_outcomes r) (q_request q) = None"
    and "omap_get (rg_grants r) i = Some h"
  shows "g_fence h < g_fence g \<and> g_id h < g_id g \<and> rg_next_fence r' = g_fence g"
proof -
  have ok: "registry_ok r" using registry_run_inv [OF assms(1)] by (simp add: registry_inv_def)
  have "acquire_new s q inc now allow r = (Inr g, r')"
    using assms(3,4) by (auto simp: acquire_def split: if_splits)
  then have "g_id g = rg_next_fence r + 1" "g_fence g = rg_next_fence r + 1" "rg_next_fence r' = rg_next_fence r + 1"
    by (auto simp: acquire_new_Inr_iff remember_def enter_def)
  with fence_succ(1) [OF assms(2)] grant_id_bound [OF ok assms(5)] show ?thesis by auto
qed

theorem fence_strictly_increases_witness: "g_fence (lease_grant 1) < g_fence (lease_grant 2)"
proof -
  have "registry_step {lease_rack} lease_reg0 (Op_acquire lease_rack (shared_request 1) 0 10 True) lease_reg1"
    by (simp add: registry_step_iff lease_acquire_1)
  then have "registry_run {lease_rack} default_authority_limits [Op_acquire lease_rack (shared_request 1) 0 10 True] lease_reg1"
    unfolding lease_reg0_def [symmetric] by (blast intro: run.intros)
  from fence_strictly_increases [OF this _ lease_acquire_2, of 1 "lease_grant 1"] show ?thesis by simp
qed

section \<open>Recovery\<close>

text \<open>
  (C25) A restart fences old tokens: after revalidation under a new incarnation, the token of any grant
  that was recovered or carries another incarnation is refused whatever the snapshot and the time.
\<close>
theorem restart_fences_tokens:
  assumes "registry_run S limits ops r" "op_guard S (Op_revalidate s inc now) r"
    and "omap_get (rg_grants r) i = Some g" "g_state g = GrantState_kRecovering \<or> g_incarnation g \<noteq> inc"
  shows "check_lease s' (grant_token g) now' (snd (revalidate s inc now r)) \<noteq> Inr h"
proof
  assume "check_lease s' (grant_token g) now' (snd (revalidate s inc now r)) = Inr h"
  then have hon: "honoured s' (grant_token g) now' (snd (revalidate s inc now r)) h" by (simp add: check_lease_Inr_iff)
  note inv = registry_run_inv [OF assms(1)]
  note facts = revalidate_facts [OF inv, of s now inc]
  have g: "g_id g = i" "g_fence g \<le> rg_next_fence r"
    using grant_id_bound [OF _ assms(3)] inv by (auto simp: registry_inv_def)
  have "omap_get (rg_grants (snd (revalidate s inc now r))) i = Some h"
    using hon g(1) by (simp add: honoured_def grant_token_def)
  then have rel: "revalidated s inc now (rg_next_fence r) g h" using facts(2) [of i] assms(2,3) by simp
  have same: "g_fence h = g_fence g" "g_incarnation h = g_incarnation g" "g_incarnation h = inc"
    "lease_state_refusal h = None"
    using hon facts(3) assms(2) by (auto simp: honoured_def grant_token_def)
  show False
  proof (cases "g_state g = GrantState_kRecovering")
    case True
    then show False
      using rel same g(2)
      by (auto simp: revalidated_def rearmed_as_def fenced_as_def lease_state_refusal_def split: option.splits)
  next
    case False
    then show False using rel same assms(4) by (simp add: revalidated_def)
  qed
qed

theorem restart_fences_tokens_witness:
  "check_lease lease_rack (grant_token (lease_grant 1)) 20 (snd (revalidate lease_rack 1 20 lease_reg2)) \<noteq>
     Inr (lease_grant 1)"
  by (rule restart_fences_tokens [OF lease_run, where i = 1]) (simp_all add: rearm_indexed_def)

section \<open>The index and the reference scan\<close>

lemma sorted_filter_Nil: "sort xs = [] \<longleftrightarrow> xs = []"
  by (metis set_empty set_sort)

text \<open>
  (C28) The exclusivity index is equivalent to the index-free reference scan, for the snapshots under which
  every live grant still has the footprint it was indexed with (none where its scope does not resolve): then
  the scan through the index reports a conflict exactly when the brute-force scan over all grants finds one.
  After a recomposition that changes the expansion of a live grant's scope the two may differ, since the
  index keeps the footprint the grant was issued with.
\<close>
theorem index_matches_bruteforce:
  assumes "registry_run S limits ops r" "expand_scope s (q_scope q) = Inr expanded"
    and "list_all (\<lambda>(i, g). is_live_state (g_state g) \<longrightarrow>
           omap_get (rg_footprints r) i = to_opt (expand_scope s (g_scope g))) (rg_grants r)"
  shows "conflict_scan r (q_mode q) expanded = None \<longleftrightarrow> conflicts_bruteforce s q r = Inr []"
proof -
  have ok: "registry_ok r" using registry_run_inv [OF assms(1)] by (simp add: registry_inv_def)
  then have idx: "index_ok r" and okg: "omap_ok (rg_grants r)" by (simp_all add: registry_ok_def ids_ok_def)
  let ?hit = "\<lambda>(i, g). g_live g \<and> occupant_conflicts (q_mode q) (g_mode g) \<and>
      (case expand_scope s (g_scope g) of Inl _ \<Rightarrow> False | Inr other \<Rightarrow> scopes_intersect expanded other)"
  have "conflicts_bruteforce s q r = Inr [] \<longleftrightarrow> (\<forall>e\<in>set (rg_grants r). \<not> ?hit e)"
    using assms(2) by (simp add: conflicts_bruteforce_def sorted_filter_Nil filter_empty_conv)
  also have "\<dots> \<longleftrightarrow> (\<forall>j fq h. omap_get (rg_footprints r) j = Some fq \<longrightarrow> omap_get (rg_grants r) j = Some h \<longrightarrow>
      set expanded \<inter> set fq \<noteq> {} \<longrightarrow> \<not> occupant_conflicts (q_mode q) (g_mode h))" (is "?L \<longleftrightarrow> ?R")
  proof
    assume L: ?L
    show ?R
    proof (intro allI impI)
      fix j fq h
      assume *: "omap_get (rg_footprints r) j = Some fq" "omap_get (rg_grants r) j = Some h" "set expanded \<inter> set fq \<noteq> {}"
      have live: "g_live h" using index_footprint [OF idx *(1)] *(2) by simp
      have mem: "(j, h) \<in> set (rg_grants r)" using *(2) by (rule omap_get_SomeD)
      then have e: "expand_scope s (g_scope h) = Inr fq"
        using assms(3) live *(1) by (cases "expand_scope s (g_scope h)") (auto simp: list_all_iff)
      have "scopes_intersect expanded fq" using scopes_intersect_expand [OF assms(2) e] *(3) by blast
      with L mem live e show "\<not> occupant_conflicts (q_mode q) (g_mode h)" by fastforce
    qed
  next
    assume R: ?R
    show ?L
    proof
      fix e
      assume mem: "e \<in> set (rg_grants r)"
      obtain j h where e: "e = (j, h)" by (cases e)
      have get: "omap_get (rg_grants r) j = Some h" using mem okg e by (simp add: omap_get_iff)
      show "\<not> ?hit e"
      proof
        assume hit: "?hit e"
        then obtain other where o: "expand_scope s (g_scope h) = Inr other" "scopes_intersect expanded other"
          "g_live h" "occupant_conflicts (q_mode q) (g_mode h)" by (auto simp: e split: sum.splits)
        have "omap_get (rg_footprints r) j = Some other" using assms(3) mem e o by (auto simp: list_all_iff)
        moreover have "set expanded \<inter> set other \<noteq> {}" using scopes_intersect_expand [OF assms(2) o(1)] o(2) by blast
        ultimately show False using R get o(4) by blast
      qed
    qed
  qed
  finally show ?thesis using conflict_scan_exact [OF idx, of "q_mode q" expanded] by blast
qed

lemma lease_reg2_footprints: "omap_get (rg_footprints lease_reg2) n = (if n = 1 \<or> n = 2 then Some port_scope else None)"
  by (simp add: lease_reg2_def lease_reg1_def remember_def enter_def attach_footprints lease_rack_expand omap_get_put)

theorem index_matches_bruteforce_witness:
  "conflict_scan lease_reg2 GrantMode_kExclusive port_scope \<noteq> None \<and>
   conflicts_bruteforce lease_rack ((shared_request 3)\<lparr>q_mode := GrantMode_kExclusive\<rparr>) lease_reg2 \<noteq> Inr [] \<and>
   conflict_scan lease_reg2 GrantMode_kShared port_scope = None \<and>
   conflicts_bruteforce lease_rack (shared_request 3) lease_reg2 = Inr []"
proof -
  have fits: "list_all (\<lambda>(i, g). is_live_state (g_state g) \<longrightarrow>
      omap_get (rg_footprints lease_reg2) i = to_opt (expand_scope lease_rack (g_scope g))) (rg_grants lease_reg2)"
    by (simp add: lease_reg2_footprints lease_rack_expand)
  have brute: "conflicts_bruteforce lease_rack (shared_request 3) lease_reg2 = Inr []"
    "conflicts_bruteforce lease_rack ((shared_request 3)\<lparr>q_mode := GrantMode_kExclusive\<rparr>) lease_reg2 \<noteq> Inr []"
    by (simp_all add: conflicts_bruteforce_def lease_rack_expand occupant_conflicts_def port_scope_def scopes_intersect.simps)
  have scan: "conflict_scan lease_reg2 (q_mode q) port_scope = None \<longleftrightarrow> conflicts_bruteforce lease_rack q lease_reg2 = Inr []"
    if "q_scope q = ResourceRef ResourceKind_kPort 2" for q
    by (rule index_matches_bruteforce [OF lease_run _ fits]) (simp add: that lease_rack_expand)
  from scan [of "shared_request 3"] scan [of "(shared_request 3)\<lparr>q_mode := GrantMode_kExclusive\<rparr>"] brute
  show ?thesis by simp
qed

text \<open>
  The documented self check holds: in every reachable state \<open>prune\<close> finds no stale entry, drops
  nothing and does not throw.
\<close>
theorem prune_finds_nothing:
  assumes "registry_run S limits ops r"
  shows "prune r = Some (0, r)"
  using prune_noop registry_run_inv [OF assms] by (simp add: registry_inv_def)

theorem prune_finds_nothing_witness: "prune lease_reg2 = Some (0, lease_reg2)"
  by (rule prune_finds_nothing [OF lease_run])

end
