(* ===== verification/Rnf_Store.thy ===== *)
theory Rnf_Store
  imports Rnf_Grant
begin

text \<open>
  \<^verbatim>\<open>persist/store\<close>: the durable store. Records and their encoding, the fixed size manifest, the
  checkpoint file, the write-ahead log with its replay, and the operations of class \<^verbatim>\<open>Store\<close>. The
  directory is the contents of its files. What the operating system answers is an argument: \<open>open_io\<close>
  holds the outcome of the calls \<^verbatim>\<open>Store::open\<close> makes, \<open>append_io\<close> how far an append got, and an
  optional status whether an atomic replacement failed. One call is left out: reading the log with
  \<^verbatim>\<open>fread\<close> returns the bytes of the file, where a failed read would look to the code like the end of the log. File sizes are naturals; the counters and
  offsets stored in files are 64 bit words.
\<close>

section \<open>Records\<close>

datatype record_type = RecordType (rt_byte: u8)

abbreviation RecordType_kRackBind :: record_type where "RecordType_kRackBind \<equiv> RecordType 1"
abbreviation RecordType_kConfig :: record_type where "RecordType_kConfig \<equiv> RecordType 2"
abbreviation RecordType_kEvidence :: record_type where "RecordType_kEvidence \<equiv> RecordType 3"
abbreviation RecordType_kLifecycle :: record_type where "RecordType_kLifecycle \<equiv> RecordType 4"
abbreviation RecordType_kGeneration :: record_type where "RecordType_kGeneration \<equiv> RecordType 5"
abbreviation RecordType_kEpoch :: record_type where "RecordType_kEpoch \<equiv> RecordType 6"
abbreviation RecordType_kGrantCommit :: record_type where "RecordType_kGrantCommit \<equiv> RecordType 7"
abbreviation RecordType_kGrantState :: record_type where "RecordType_kGrantState \<equiv> RecordType 8"
abbreviation RecordType_kRequestOutcome :: record_type where "RecordType_kRequestOutcome \<equiv> RecordType 9"
abbreviation RecordType_kCleanShutdown :: record_type where "RecordType_kCleanShutdown \<equiv> RecordType 10"

record rack_bind_record =
  rb_rack :: rack_id
  rb_name :: string

record config_record =
  cf_headroom_floor :: capacity
  cf_max_paths_per_pair :: u64
  cf_max_path_hops :: u64

record lifecycle_record =
  lr_state :: lifecycle_state
  lr_generation :: topology_generation
  lr_epoch :: rack_epoch

record epoch_record =
  ep_epoch :: rack_epoch
  ep_member_set_digest :: digest

record grant_state_record =
  gr_id :: grant_id
  gr_state :: grant_state
  gr_reason :: string

record request_outcome_record =
  oc_request :: request_id
  oc_code :: status_code
  oc_grant :: grant_id
  oc_fence :: fencing_token
  oc_incarnation :: controller_incarnation
  oc_request_digest :: digest
  oc_detail :: string

text \<open>The variant \<^verbatim>\<open>StorePayload\<close>; the one-field structs are their field.\<close>

datatype store_payload =
    SP_RackBind rack_bind_record
  | SP_Config config_record
  | SP_Evidence evidence_record
  | SP_Lifecycle lifecycle_record
  | SP_Generation topology_generation
  | SP_Epoch epoch_record
  | SP_Grant grant
  | SP_GrantState grant_state_record
  | SP_RequestOutcome request_outcome_record
  | SP_Shutdown timestamp_ms

record store_record =
  sr_type :: record_type
  sr_payload :: store_payload

definition record_type_to_string :: "record_type \<Rightarrow> string" where
  "record_type_to_string t =
     (if t = RecordType_kRackBind then ''rack_bind'' else if t = RecordType_kConfig then ''config''
      else if t = RecordType_kEvidence then ''evidence'' else if t = RecordType_kLifecycle then ''lifecycle''
      else if t = RecordType_kGeneration then ''generation'' else if t = RecordType_kEpoch then ''epoch''
      else if t = RecordType_kGrantCommit then ''grant_commit''
      else if t = RecordType_kGrantState then ''grant_state''
      else if t = RecordType_kRequestOutcome then ''request_outcome''
      else if t = RecordType_kCleanShutdown then ''clean_shutdown'' else ''unknown'')"

definition kMaxNameText :: nat where "kMaxNameText = 128"
definition kMaxDetailText :: nat where "kMaxDetailText = 256"

text \<open>The enumerator whose case of the switch reads this alternative of the variant.\<close>

fun payload_type :: "store_payload \<Rightarrow> record_type" where
  "payload_type (SP_RackBind _) = RecordType_kRackBind"
| "payload_type (SP_Config _) = RecordType_kConfig"
| "payload_type (SP_Evidence _) = RecordType_kEvidence"
| "payload_type (SP_Lifecycle _) = RecordType_kLifecycle"
| "payload_type (SP_Generation _) = RecordType_kGeneration"
| "payload_type (SP_Epoch _) = RecordType_kEpoch"
| "payload_type (SP_Grant _) = RecordType_kGrantCommit"
| "payload_type (SP_GrantState _) = RecordType_kGrantState"
| "payload_type (SP_RequestOutcome _) = RecordType_kRequestOutcome"
| "payload_type (SP_Shutdown _) = RecordType_kCleanShutdown"

definition known_record_type :: "record_type \<Rightarrow> bool" where
  "known_record_type t \<longleftrightarrow> 1 \<le> rt_byte t \<and> rt_byte t \<le> 10"

fun body_calls :: "store_payload \<Rightarrow> writer_call list" where
  "body_calls (SP_RackBind b) = [W_u64 (rb_rack b), W_text (rb_name b) kMaxNameText]"
| "body_calls (SP_Config b) =
     [W_u64 (cf_headroom_floor b), W_u64 (cf_max_paths_per_pair b), W_u64 (cf_max_path_hops b)]"
| "body_calls (SP_Evidence e) = evidence_calls e"
| "body_calls (SP_Lifecycle b) = [W_u8 (ls_byte (lr_state b)), W_u64 (lr_generation b), W_u64 (lr_epoch b)]"
| "body_calls (SP_Generation g) = [W_u64 g]"
| "body_calls (SP_Epoch b) = [W_u64 (ep_epoch b), W_digest (ep_member_set_digest b)]"
| "body_calls (SP_Grant g) = grant_calls g"
| "body_calls (SP_GrantState b) =
     [W_u64 (gr_id b), W_u8 (gs_byte (gr_state b)), W_text (gr_reason b) kMaxReasonText]"
| "body_calls (SP_RequestOutcome b) =
     [W_u64 (req_hi (oc_request b)), W_u64 (req_lo (oc_request b)), W_u16 (code_value (oc_code b)),
      W_u64 (oc_grant b), W_u64 (oc_fence b), W_u64 (oc_incarnation b), W_digest (oc_request_digest b),
      W_text (oc_detail b) kMaxDetailText]"
| "body_calls (SP_Shutdown at_ms) = [W_u64 at_ms]"

text \<open>One case of the switch: the nested encoders return their own status.\<close>

definition encode_body :: "store_payload \<Rightarrow> byte_writer \<Rightarrow> status \<times> byte_writer" where
  "encode_body p w =
     (case p of
        SP_Evidence e \<Rightarrow> encode_evidence e w
      | SP_Grant g \<Rightarrow> encode_grant g w
      | _ \<Rightarrow> (ok_status, write_all (body_calls p) w))"

text \<open>\<open>None\<close> is the \<^verbatim>\<open>std::bad_variant_access\<close> of a payload that is not what the type says.\<close>

definition encode_store_record :: "store_record \<Rightarrow> byte_writer \<Rightarrow> (status \<times> byte_writer) option" where
  "encode_store_record r w =
     (let w = bw_u8 (rt_byte (sr_type r)) w in
      map_option (\<lambda>(st, w).
          if \<not> status_ok st then (st, w)
          else if \<not> bw_ok w then (Status kOversizeField ''store record exceeds its encoding bound'', w)
          else (ok_status, w))
        (if \<not> known_record_type (sr_type r) then Some (ok_status, w)
         else if payload_type (sr_payload r) \<noteq> sr_type r then None
         else Some (encode_body (sr_payload r) w)))"

definition dec_rack_bind :: "u8 list \<Rightarrow> (store_payload \<times> u8 list) option" where
  "dec_rack_bind bs = do {
     (rack, bs) \<leftarrow> r_u64 bs; (name, bs) \<leftarrow> r_text kMaxNameText bs;
     Some (SP_RackBind \<lparr>rb_rack = rack, rb_name = name\<rparr>, bs) }"

definition dec_config :: "u8 list \<Rightarrow> (store_payload \<times> u8 list) option" where
  "dec_config bs = do {
     (floor, bs) \<leftarrow> r_u64 bs; (pairs, bs) \<leftarrow> r_u64 bs; (hops, bs) \<leftarrow> r_u64 bs;
     Some (SP_Config \<lparr>cf_headroom_floor = floor, cf_max_paths_per_pair = pairs, cf_max_path_hops = hops\<rparr>, bs) }"

definition dec_lifecycle :: "u8 list \<Rightarrow> (store_payload \<times> u8 list) option" where
  "dec_lifecycle bs = do {
     (state, bs) \<leftarrow> r_u8 bs; (generation, bs) \<leftarrow> r_u64 bs; (epoch, bs) \<leftarrow> r_u64 bs;
     Some (SP_Lifecycle \<lparr>lr_state = LifecycleState state, lr_generation = generation, lr_epoch = epoch\<rparr>, bs) }"

definition dec_generation :: "u8 list \<Rightarrow> (store_payload \<times> u8 list) option" where
  "dec_generation bs = do { (generation, bs) \<leftarrow> r_u64 bs; Some (SP_Generation generation, bs) }"

definition dec_epoch :: "u8 list \<Rightarrow> (store_payload \<times> u8 list) option" where
  "dec_epoch bs = do {
     (epoch, bs) \<leftarrow> r_u64 bs; (members, bs) \<leftarrow> r_digest bs;
     Some (SP_Epoch \<lparr>ep_epoch = epoch, ep_member_set_digest = members\<rparr>, bs) }"

definition dec_grant_state :: "u8 list \<Rightarrow> (store_payload \<times> u8 list) option" where
  "dec_grant_state bs = do {
     (i, bs) \<leftarrow> r_u64 bs; (state, bs) \<leftarrow> r_u8 bs; (reason, bs) \<leftarrow> r_text kMaxReasonText bs;
     Some (SP_GrantState \<lparr>gr_id = i, gr_state = GrantState state, gr_reason = reason\<rparr>, bs) }"

definition dec_request_outcome :: "u8 list \<Rightarrow> (store_payload \<times> u8 list) option" where
  "dec_request_outcome bs = do {
     (hi, bs) \<leftarrow> r_u64 bs; (lo, bs) \<leftarrow> r_u64 bs; (code, bs) \<leftarrow> r_u16 bs; (g, bs) \<leftarrow> r_u64 bs;
     (fence, bs) \<leftarrow> r_u64 bs; (inc, bs) \<leftarrow> r_u64 bs; (dig, bs) \<leftarrow> r_digest bs;
     (detail, bs) \<leftarrow> r_text kMaxDetailText bs;
     Some (SP_RequestOutcome
       \<lparr>oc_request = RequestId hi lo, oc_code = StatusCode code, oc_grant = g, oc_fence = fence,
        oc_incarnation = inc, oc_request_digest = dig, oc_detail = detail\<rparr>, bs) }"

definition dec_shutdown :: "u8 list \<Rightarrow> (store_payload \<times> u8 list) option" where
  "dec_shutdown bs = do { (at_ms, bs) \<leftarrow> r_u64 bs; Some (SP_Shutdown at_ms, bs) }"

definition decode_body :: "u8 \<Rightarrow> u8 list \<Rightarrow> (store_payload \<times> u8 list) result" where
  "decode_body t bs =
     (if t = 1 then or_fail (dec_rack_bind bs) kTruncated ''rack bind record is truncated'' Inr
      else if t = 2 then or_fail (dec_config bs) kTruncated ''config record is truncated'' Inr
      else if t = 3 then rnf_try (decode_evidence bs) (\<lambda>(e, bs). Inr (SP_Evidence e, bs))
      else if t = 4 then or_fail (dec_lifecycle bs) kTruncated ''lifecycle record is truncated'' Inr
      else if t = 5 then or_fail (dec_generation bs) kTruncated ''generation record is truncated'' Inr
      else if t = 6 then or_fail (dec_epoch bs) kTruncated ''epoch record is truncated'' Inr
      else if t = 7 then rnf_try (decode_grant bs) (\<lambda>(g, bs). Inr (SP_Grant g, bs))
      else if t = 8 then or_fail (dec_grant_state bs) kTruncated ''grant state record is truncated'' Inr
      else if t = 9 then or_fail (dec_request_outcome bs) kTruncated ''request outcome record is truncated'' Inr
      else if t = 10 then or_fail (dec_shutdown bs) kTruncated ''clean shutdown record is truncated'' Inr
      else fail kMalformedEncoding (''unknown store record type '' @ to_string_nat (unat t)))"

definition decode_store_record :: "u8 list \<Rightarrow> (store_record \<times> u8 list) result" where
  "decode_store_record bs =
     or_fail (r_u8 bs) kTruncated ''store record header is truncated'' (\<lambda>(t, bs).
       rnf_try (decode_body t bs) (\<lambda>(p, bs). Inr (\<lparr>sr_type = RecordType t, sr_payload = p\<rparr>, bs)))"

definition store_record_digest :: "store_record \<Rightarrow> digest option" where
  "store_record_digest r =
     map_option (\<lambda>(st, w).
         if \<not> status_ok st
         then final (update_le64 (ucast (code_value (st_code st)))
                (update (string_bytes ''rnf.record.unencodable'') (reset [])))
         else blake2s_hash (bw_buffer w))
       (encode_store_record r (bw_new (2 ^ 20)))"

section \<open>The manifest\<close>

definition kStateFormatVersion :: u32 where "kStateFormatVersion = 1"
definition kMetaMagic :: "u8 list" where "kMetaMagic = string_bytes ''RNFSTOR1''"
definition kCheckpointMagic :: "u8 list" where "kCheckpointMagic = string_bytes ''RNFCHK01''"
definition kMetaSize :: nat where "kMetaSize = 256"
definition kCheckpointHeaderSize :: nat where "kCheckpointHeaderSize = 192"
definition kWalHeaderSize :: nat where "kWalHeaderSize = 8"

record meta =
  me_format_version :: u32
  me_rack :: rack_id
  me_incarnation_counter :: u64
  me_epoch :: rack_epoch
  me_generation :: topology_generation
  me_checkpoint_offset :: u64
  me_checkpoint_length :: u64
  me_snapshot_digest :: digest
  me_ledger_digest :: digest
  me_clean_shutdown :: bool
  me_clean_shutdown_at_ms :: timestamp_ms
  me_valid :: bool

definition empty_meta :: meta where
  "empty_meta =
     \<lparr>me_format_version = kStateFormatVersion, me_rack = 0, me_incarnation_counter = 0, me_epoch = 0,
      me_generation = 0, me_checkpoint_offset = 0, me_checkpoint_length = 0,
      me_snapshot_digest = zero_digest, me_ledger_digest = zero_digest, me_clean_shutdown = False,
      me_clean_shutdown_at_ms = 0, me_valid = False\<rparr>"

text \<open>Writing into a fixed buffer: \<^verbatim>\<open>store_u32\<close>, \<^verbatim>\<open>store_u64\<close> and \<^verbatim>\<open>memcpy\<close> at an offset.\<close>

definition put_at :: "nat \<Rightarrow> u8 list \<Rightarrow> u8 list \<Rightarrow> u8 list" where
  "put_at off xs buf = take off buf @ xs @ drop (off + length xs) buf"

definition get_at :: "nat \<Rightarrow> nat \<Rightarrow> u8 list \<Rightarrow> u8 list" where
  "get_at off n buf = take n (drop off buf)"

definition encode_meta :: "meta \<Rightarrow> u8 list" where
  "encode_meta m =
     (let buffer = replicate kMetaSize 0;
          buffer = put_at 0 kMetaMagic buffer;
          buffer = put_at 8 (store_le 4 (me_format_version m)) buffer;
          buffer = put_at 16 (store_le 8 (me_rack m)) buffer;
          buffer = put_at 24 (store_le 8 (me_incarnation_counter m)) buffer;
          buffer = put_at 32 (store_le 8 (me_epoch m)) buffer;
          buffer = put_at 40 (store_le 8 (me_generation m)) buffer;
          buffer = put_at 48 (store_le 8 (me_checkpoint_offset m)) buffer;
          buffer = put_at 56 (store_le 8 (me_checkpoint_length m)) buffer;
          buffer = put_at 64 (me_snapshot_digest m) buffer;
          buffer = put_at 96 (me_ledger_digest m) buffer;
          buffer = put_at 128 [if me_clean_shutdown m then 1 else 0] buffer;
          buffer = put_at 136 (store_le 8 (me_clean_shutdown_at_ms m)) buffer
      in put_at 12 (store_le 4 (crc32c buffer)) buffer)"

definition decode_meta :: "u8 list \<Rightarrow> bool \<Rightarrow> meta result" where
  "decode_meta buffer allow_unknown_format =
     (if get_at 0 8 buffer \<noteq> kMetaMagic
      then fail kCorrupt ''store manifest has a wrong magic value''
      else if crc32c (put_at 12 (store_le 4 (0 :: u32)) buffer) \<noteq> load_le 4 (get_at 12 4 buffer)
      then fail kIntegrityFailure ''store manifest failed its checksum''
      else
        (let version = load_le 4 (get_at 8 4 buffer) in
         if version \<noteq> kStateFormatVersion \<and> \<not> allow_unknown_format
         then fail kIncompatibleVersion
                (''store manifest was written by state format version '' @ to_string_nat (unat version) @
                 '', this build speaks '' @ to_string_nat (unat kStateFormatVersion))
         else
           Inr \<lparr>me_format_version = version, me_rack = load_le 8 (get_at 16 8 buffer),
                me_incarnation_counter = load_le 8 (get_at 24 8 buffer),
                me_epoch = load_le 8 (get_at 32 8 buffer), me_generation = load_le 8 (get_at 40 8 buffer),
                me_checkpoint_offset = load_le 8 (get_at 48 8 buffer),
                me_checkpoint_length = load_le 8 (get_at 56 8 buffer),
                me_snapshot_digest = get_at 64 32 buffer, me_ledger_digest = get_at 96 32 buffer,
                me_clean_shutdown = buffer ! 128 \<noteq> 0,
                me_clean_shutdown_at_ms = load_le 8 (get_at 136 8 buffer), me_valid = True\<rparr>))"

section \<open>The checkpoint\<close>

record checkpoint =
  cp_wal_offset :: u64
  cp_generation :: topology_generation
  cp_epoch :: rack_epoch
  cp_lifecycle :: lifecycle_state
  cp_member_set_digest :: digest
  cp_incarnation :: controller_incarnation
  cp_snapshot_digest :: digest
  cp_ledger_digest :: digest
  cp_ledger :: "evidence_record list"
  cp_snapshot_bytes :: "u8 list"
  cp_present :: bool

definition empty_checkpoint :: checkpoint where
  "empty_checkpoint =
     \<lparr>cp_wal_offset = 0, cp_generation = 0, cp_epoch = 0, cp_lifecycle = LifecycleState_kAssembling,
      cp_member_set_digest = zero_digest, cp_incarnation = 0, cp_snapshot_digest = zero_digest,
      cp_ledger_digest = zero_digest, cp_ledger = [], cp_snapshot_bytes = [], cp_present = False\<rparr>"

text \<open>The loop over the ledger: each record is encoded on its own and written as a blob.\<close>

fun checkpoint_entries :: "evidence_record list \<Rightarrow> byte_writer \<Rightarrow> status \<times> byte_writer" where
  "checkpoint_entries [] w = (ok_status, w)"
| "checkpoint_entries (e # es) w =
     (case encode_evidence e (bw_new 512) of
        (st, entry) \<Rightarrow>
          if \<not> status_ok st then (st, w) else checkpoint_entries es (bw_blob (bw_buffer entry) 512 w))"

definition checkpoint_header :: "checkpoint \<Rightarrow> u8 list \<Rightarrow> u8 list" where
  "checkpoint_header c body =
     (let out = replicate kCheckpointHeaderSize 0;
          out = put_at 0 kCheckpointMagic out;
          out = put_at 8 (store_le 4 kStateFormatVersion) out;
          out = put_at 12 (store_le 4 (crc32c body)) out;
          out = put_at 16 (store_le 8 (of_nat (length body) :: u64)) out;
          out = put_at 24 (cp_snapshot_digest c) out;
          out = put_at 56 (cp_ledger_digest c) out;
          out = put_at 88 (store_le 8 (cp_wal_offset c)) out;
          out = put_at 96 (store_le 8 (cp_generation c)) out;
          out = put_at 104 (store_le 8 (cp_epoch c)) out;
          out = put_at 112 (store_le 8 (cp_incarnation c)) out;
          out = put_at 124 [ls_byte (cp_lifecycle c)] out;
          out = put_at 128 (cp_member_set_digest c) out;
          out = put_at 120 (store_le 4 (0 :: u32)) out
      in put_at 120 (store_le 4 (crc32c out)) out)"

definition build_checkpoint_bytes :: "checkpoint \<Rightarrow> nat \<Rightarrow> u8 list result" where
  "build_checkpoint_bytes c limit =
     (let payload = bw_u32 (of_nat (length (cp_ledger c))) (bw_new limit) in
      case checkpoint_entries (cp_ledger c) payload of
        (st, payload) \<Rightarrow>
          if \<not> status_ok st then Inl st
          else
            (let payload = bw_blob (cp_snapshot_bytes c) limit payload in
             if \<not> bw_ok payload then fail kResourceExhausted ''checkpoint exceeds its configured bound''
             else Inr (checkpoint_header c (bw_buffer payload) @ bw_buffer payload)))"

fun decode_entries :: "nat \<Rightarrow> u8 list \<Rightarrow> (evidence_record list \<times> u8 list) result" where
  "decode_entries 0 bs = Inr ([], bs)"
| "decode_entries (Suc n) bs =
     or_fail (r_blob 512 bs) kTruncated ''checkpoint ledger entry is truncated'' (\<lambda>(entry, bs).
       rnf_try (decode_evidence entry) (\<lambda>(e, trailing).
         rnf_try (decode_entries n bs) (\<lambda>(es, bs). Inr (e # es, bs))))"

definition parse_checkpoint :: "u8 list \<Rightarrow> checkpoint result" where
  "parse_checkpoint bytes =
     (if length bytes < kCheckpointHeaderSize
      then fail kTruncated ''checkpoint is shorter than its header''
      else if get_at 0 8 bytes \<noteq> kCheckpointMagic then fail kCorrupt ''checkpoint has a wrong magic value''
      else
        (let version = load_le 4 (get_at 8 4 bytes) :: u32 in
         if version \<noteq> kStateFormatVersion
         then fail kIncompatibleVersion
                (''checkpoint was written by state format version '' @ to_string_nat (unat version))
         else
           (let header = take kCheckpointHeaderSize bytes in
            if crc32c (put_at 120 (store_le 4 (0 :: u32)) header) \<noteq> load_le 4 (get_at 120 4 header)
            then fail kIntegrityFailure ''checkpoint header failed its checksum''
            else if load_le 8 (get_at 16 8 bytes) \<noteq> (of_nat (length bytes - kCheckpointHeaderSize) :: u64)
            then fail kTruncated ''checkpoint body length does not match its header''
            else
              (let body = drop kCheckpointHeaderSize bytes in
               if crc32c body \<noteq> load_le 4 (get_at 12 4 bytes)
               then fail kIntegrityFailure ''checkpoint body failed its checksum''
               else
                 or_fail (r_count (max_slots default_evidence_limits) body) kMalformedEncoding
                   ''checkpoint ledger count exceeds its bound'' (\<lambda>(count, bs).
                 rnf_try (decode_entries count bs) (\<lambda>(ledger, bs).
                 or_fail (r_blob (length bytes) bs) kTruncated ''checkpoint snapshot payload is truncated''
                   (\<lambda>(snap, bs).
                 if bs \<noteq> [] then fail kMalformedEncoding ''trailing bytes in checkpoint payload''
                 else
                   Inr \<lparr>cp_wal_offset = load_le 8 (get_at 88 8 bytes),
                        cp_generation = load_le 8 (get_at 96 8 bytes),
                        cp_epoch = load_le 8 (get_at 104 8 bytes),
                        cp_lifecycle = LifecycleState (bytes ! 124),
                        cp_member_set_digest = get_at 128 32 bytes,
                        cp_incarnation = load_le 8 (get_at 112 8 bytes),
                        cp_snapshot_digest = get_at 24 32 bytes, cp_ledger_digest = get_at 56 32 bytes,
                        cp_ledger = ledger, cp_snapshot_bytes = snap, cp_present = True\<rparr>)))))))"

section \<open>Replay of the write-ahead log\<close>

record store_options =
  op_max_record_bytes :: nat
  op_max_checkpoint_bytes :: nat
  op_fsync_on_append :: bool
  op_allow_unknown_format :: bool
  op_allow_manifest_loss :: bool

definition default_store_options :: store_options where
  "default_store_options =
     \<lparr>op_max_record_bytes = 8 * 2 ^ 20, op_max_checkpoint_bytes = 64 * 2 ^ 20, op_fsync_on_append = True,
      op_allow_unknown_format = False, op_allow_manifest_loss = False\<rparr>"

record recovery_report =
  rr_fresh_store :: bool
  rr_truncated_tail :: bool
  rr_corrupt_record :: bool
  rr_checkpoint_used :: bool
  rr_checkpoint_rejected :: bool
  rr_clean_shutdown :: bool
  rr_manifest_rejected :: bool
  rr_manifest_missing :: bool
  rr_records_replayed :: nat
  rr_bytes_discarded :: nat
  rr_first_failure :: status_code
  rr_detail :: string

definition empty_report :: recovery_report where
  "empty_report =
     \<lparr>rr_fresh_store = False, rr_truncated_tail = False, rr_corrupt_record = False,
      rr_checkpoint_used = False, rr_checkpoint_rejected = False, rr_clean_shutdown = False,
      rr_manifest_rejected = False, rr_manifest_missing = False, rr_records_replayed = 0,
      rr_bytes_discarded = 0, rr_first_failure = kOk, rr_detail = []\<rparr>"

record replay_state =
  rp_records :: "store_record list"
  rp_cursor :: nat
  rp_max_incarnation :: u64
  rp_report :: recovery_report

definition corrupt :: "status \<Rightarrow> replay_state \<Rightarrow> replay_state" where
  "corrupt st s =
     s\<lparr>rp_report := (rp_report s)\<lparr>rr_corrupt_record := True, rr_first_failure := st_code st,
         rr_detail := st_detail st\<rparr>\<rparr>"

definition torn :: "replay_state \<Rightarrow> replay_state" where
  "torn s = s\<lparr>rp_report := (rp_report s)\<lparr>rr_truncated_tail := True\<rparr>\<rparr>"

definition accept_record :: "store_record \<Rightarrow> nat \<Rightarrow> replay_state \<Rightarrow> replay_state" where
  "accept_record r len s =
     s\<lparr>rp_records := rp_records s @ [r], rp_cursor := rp_cursor s + kWalHeaderSize + len,
       rp_max_incarnation :=
         (case sr_payload r of
            SP_Grant g \<Rightarrow>
              if sr_type r = RecordType_kGrantCommit then max (rp_max_incarnation s) (g_incarnation g)
              else rp_max_incarnation s
          | _ \<Rightarrow> rp_max_incarnation s),
       rp_report := (rp_report s)\<lparr>rr_records_replayed := rr_records_replayed (rp_report s) + 1\<rparr>\<rparr>"

function replay :: "store_options \<Rightarrow> nat \<Rightarrow> u8 list \<Rightarrow> replay_state \<Rightarrow> replay_state" where
  "replay options wal_size bs s =
     (if bs = [] then s
      else if length bs < kWalHeaderSize then torn s
      else
        (let len = unat (load_le 4 (take 4 bs) :: u32);
             expected_crc = (load_le 4 (take 4 (drop 4 bs)) :: u32);
             rest = drop kWalHeaderSize bs;
             payload = take len rest
         in
         if len > op_max_record_bytes options
         then corrupt (Status kOversizeField ''log record length exceeds the configured bound'') s
         else if length payload \<noteq> len then torn s
         else if crc32c payload \<noteq> expected_crc then
           if wal_size - (rp_cursor s + kWalHeaderSize + len) < kWalHeaderSize then torn s
           else corrupt (Status kIntegrityFailure ''log record failed its checksum'') s
         else
           (case decode_store_record payload of
              Inl st \<Rightarrow> corrupt (Status (st_code st) (status_describe st)) s
            | Inr (r, trailing) \<Rightarrow>
                if trailing \<noteq> [] then corrupt (Status kMalformedEncoding ''log record has trailing bytes'') s
                else replay options wal_size (drop len rest) (accept_record r len s))))"
  by pat_completeness auto
termination
  by (relation "measure (\<lambda>(options, wal_size, bs, s). length bs)") (auto simp: kWalHeaderSize_def)

declare replay.simps [simp del]

section \<open>The store\<close>

record store_files =
  fs_meta :: "u8 list option"
  fs_checkpoint :: "u8 list option"
  fs_previous :: "u8 list option"
  fs_wal :: "u8 list option"

record store =
  so_directory :: string
  so_files :: store_files
  so_options :: store_options
  so_wal_open :: bool
  so_log_bytes :: nat
  so_appends :: nat
  so_checkpoint :: checkpoint
  so_records :: "store_record list"
  so_report :: recovery_report
  so_incarnation_counter :: u64
  so_checkpoint_length :: u64
  so_bound_rack :: rack_id

text \<open>
  The answers of the operating system to the calls of \<^verbatim>\<open>Store::open\<close> but the reads of the log, which do not
  fail here; the value \<open>None\<close> is success.
  Reading a file first fails if it is absent or larger than the bound.
\<close>

record open_io =
  oi_create_directories :: "string option"
  oi_lock :: "status option"
  oi_read_meta :: "status option"
  oi_read_checkpoint :: "status option"
  oi_open_wal :: bool
  oi_size_wal :: bool
  oi_seek :: bool
  oi_truncate :: bool
  oi_seek_end :: bool

definition open_io_ok :: open_io where
  "open_io_ok =
     \<lparr>oi_create_directories = None, oi_lock = None, oi_read_meta = None, oi_read_checkpoint = None,
      oi_open_wal = True, oi_size_wal = True, oi_seek = True, oi_truncate = True, oi_seek_end = True\<rparr>"

definition read_whole_file :: "string \<Rightarrow> u8 list option \<Rightarrow> nat \<Rightarrow> status option \<Rightarrow> u8 list result" where
  "read_whole_file path contents max_bytes io =
     (case contents of
        None \<Rightarrow> fail kNotFound (''cannot stat '' @ path @ '': No such file or directory'')
      | Some bytes \<Rightarrow>
          if length bytes > max_bytes
          then fail kOversizeField (path @ '' is larger than the configured bound'')
          else (case io of Some st \<Rightarrow> Inl st | None \<Rightarrow> Inr bytes))"

text \<open>The manifest part of \<^verbatim>\<open>Store::open\<close>: the manifest to work with and the report, or the refusal.\<close>

definition open_manifest ::
  "string \<Rightarrow> store_options \<Rightarrow> open_io \<Rightarrow> store_files \<Rightarrow> recovery_report \<Rightarrow> (meta \<times> recovery_report) result" where
  "open_manifest dir options io files report =
     (case fs_meta files of
        None \<Rightarrow>
          Inr (empty_meta,
               if fs_wal files \<noteq> None then report\<lparr>rr_manifest_missing := True\<rparr> else report)
      | Some contents \<Rightarrow>
          (let parsed =
             (case read_whole_file (dir @ ''/rnf.meta'') (Some contents) kMetaSize (oi_read_meta io) of
                Inl st \<Rightarrow> Inl st
              | Inr bytes \<Rightarrow>
                  if length bytes \<noteq> kMetaSize
                  then fail kTruncated ''store manifest has an unexpected size''
                  else decode_meta bytes (op_allow_unknown_format options))
           in
           case parsed of
             Inr m \<Rightarrow> Inr (m, report)
           | Inl failure \<Rightarrow>
               if st_code failure = kIncompatibleVersion then Inl failure
               else if \<not> op_allow_manifest_loss options then
                 fail (st_code failure)
                   (''the store manifest at '' @ dir @ ''/rnf.meta is unreadable ('' @ st_detail failure @
                    ''); refusing to start, because the process incarnation counter cannot be recovered safely'')
               else
                 Inr (empty_meta,
                      report\<lparr>rr_manifest_rejected := True, rr_detail := status_describe failure,
                        rr_first_failure := st_code failure\<rparr>)))"

definition open_checkpoint ::
  "string \<Rightarrow> store_options \<Rightarrow> open_io \<Rightarrow> store_files \<Rightarrow> meta \<Rightarrow> recovery_report \<Rightarrow>
   checkpoint \<times> recovery_report" where
  "open_checkpoint dir options io files m report =
     (if me_valid m \<and> me_checkpoint_length m > 0 \<and>
         unat (me_checkpoint_length m) \<le> op_max_checkpoint_bytes options then
        (case read_whole_file (dir @ ''/rnf.checkpoint'') (fs_checkpoint files)
                (op_max_checkpoint_bytes options + kCheckpointHeaderSize) (oi_read_checkpoint io) of
           Inl st \<Rightarrow>
             (empty_checkpoint, report\<lparr>rr_checkpoint_rejected := True, rr_detail := status_describe st\<rparr>)
         | Inr bytes \<Rightarrow>
             (case parse_checkpoint bytes of
                Inr c \<Rightarrow> (c, report\<lparr>rr_checkpoint_used := True\<rparr>)
              | Inl st \<Rightarrow>
                  (empty_checkpoint,
                   report\<lparr>rr_checkpoint_rejected := True, rr_detail := status_describe st,
                     rr_first_failure := st_code st\<rparr>)))
      else (empty_checkpoint, report))"

text \<open>A checkpoint that points past the end of the log is dropped.\<close>

definition checkpoint_offset :: "nat \<Rightarrow> checkpoint \<times> recovery_report \<Rightarrow> nat \<times> checkpoint \<times> recovery_report" where
  "checkpoint_offset wal_size = (\<lambda>(c, report).
     let offset = (if rr_checkpoint_used report then unat (cp_wal_offset c) else 0) in
     if offset > wal_size
     then (0, empty_checkpoint,
           report\<lparr>rr_checkpoint_rejected := True, rr_detail := ''checkpoint points past the end of the log'',
             rr_checkpoint_used := False\<rparr>)
     else (offset, c, report))"

definition store_open :: "string \<Rightarrow> store_options \<Rightarrow> open_io \<Rightarrow> store_files \<Rightarrow> store result" where
  "store_open dir options io files =
     (case oi_create_directories io of
        Some message \<Rightarrow> fail kIo (''cannot create store directory '' @ dir @ '': '' @ message)
      | None \<Rightarrow>
     (case oi_lock io of
        Some st \<Rightarrow> Inl st
      | None \<Rightarrow>
     rnf_try (open_manifest dir options io files (empty_report\<lparr>rr_fresh_store := fs_wal files = None\<rparr>))
       (\<lambda>(m, report).
     let report = report\<lparr>rr_clean_shutdown := me_valid m \<and> me_clean_shutdown m\<rparr>;
         found = open_checkpoint dir options io files m report;
         wal = (case fs_wal files of Some bytes \<Rightarrow> bytes | None \<Rightarrow> [])
     in
     if \<not> oi_open_wal io then fail kIo (''cannot open the write-ahead log '' @ dir @ ''/rnf.wal'')
     else if \<not> oi_size_wal io then fail kIo ''cannot size the write-ahead log''
     else
       (case checkpoint_offset (length wal) found of
          (offset, c, report) \<Rightarrow>
            if \<not> oi_seek io then fail kIo ''cannot seek in the write-ahead log''
            else
              (let s = replay options (length wal) (drop offset wal)
                         \<lparr>rp_records = [], rp_cursor = offset, rp_max_incarnation = 0, rp_report = report\<rparr>;
                   cursor = rp_cursor s;
                   discarded = length wal - cursor;
                   report = (rp_report s)\<lparr>rr_bytes_discarded := discarded\<rparr>
               in
               if discarded > 0 \<and> \<not> oi_truncate io then fail kIo ''cannot truncate the write-ahead log''
               else if discarded > 0 \<and> \<not> oi_seek_end io then fail kIo ''cannot seek in the write-ahead log''
               else
                 Inr \<lparr>so_directory = dir, so_files = files\<lparr>fs_wal := Some (take cursor wal)\<rparr>,
                      so_options = options, so_wal_open = True, so_log_bytes = cursor, so_appends = 0,
                      so_checkpoint = (if rr_checkpoint_used report then c\<lparr>cp_present := True\<rparr> else c),
                      so_records = rp_records s, so_report = report,
                      so_incarnation_counter =
                        max (if me_valid m then me_incarnation_counter m else 0) (rp_max_incarnation s),
                      so_checkpoint_length = (if me_valid m then me_checkpoint_length m else 0),
                      so_bound_rack = (if me_valid m then me_rack m else 0)\<rparr>)))))"

text \<open>
  How far an append got: the header or the body was written short after so many bytes, the flush
  failed after everything was written, or it succeeded.
\<close>

datatype append_io =
    Append_ok
  | Append_short_header nat
  | Append_short_body nat
  | Append_sync_failed status

definition wal_frame :: "u8 list \<Rightarrow> u8 list" where
  "wal_frame payload = store_le 4 (of_nat (length payload) :: u32) @ store_le 4 (crc32c payload) @ payload"

definition wal_write :: "u8 list \<Rightarrow> store \<Rightarrow> store" where
  "wal_write bs s =
     s\<lparr>so_files := (so_files s)\<lparr>fs_wal := Some ((case fs_wal (so_files s) of Some w \<Rightarrow> w | None \<Rightarrow> []) @ bs)\<rparr>\<rparr>"

definition store_append :: "store_record \<Rightarrow> append_io \<Rightarrow> store \<Rightarrow> (status \<times> store) option" where
  "store_append r io s =
     (if \<not> so_wal_open s then Some (Status kClosed ''the write-ahead log is not open'', s)
      else
        map_option (\<lambda>(st, w).
          if \<not> status_ok st then (st, s)
          else if length (bw_buffer w) > op_max_record_bytes (so_options s)
          then (Status kOversizeField ''store record exceeds the configured bound'', s)
          else
            (let payload = bw_buffer w; framed = wal_frame payload in
             case io of
               Append_short_header n \<Rightarrow>
                 (Status kIo ''short write of the log record header'', wal_write (take (min n 7) framed) s)
             | Append_short_body n \<Rightarrow>
                 if payload = []
                 then (ok_status,
                       (wal_write framed s)\<lparr>so_log_bytes := so_log_bytes s + kWalHeaderSize, so_appends := so_appends s + 1\<rparr>)
                 else
                   (Status kIo ''short write of the log record body'',
                    wal_write (take (kWalHeaderSize + min n (length payload - 1)) framed) s)
             | Append_sync_failed failure \<Rightarrow> (failure, wal_write framed s)
             | Append_ok \<Rightarrow>
                 (ok_status,
                  (wal_write framed s)\<lparr>so_log_bytes := so_log_bytes s + kWalHeaderSize + length payload,
                    so_appends := so_appends s + 1\<rparr>)))
          (encode_store_record r (bw_new (op_max_record_bytes (so_options s)))))"

definition persist_meta :: "meta \<Rightarrow> status option \<Rightarrow> store \<Rightarrow> status \<times> store" where
  "persist_meta m io s =
     (case io of
        Some failure \<Rightarrow> (failure, s)
      | None \<Rightarrow> (ok_status, s\<lparr>so_files := (so_files s)\<lparr>fs_meta := Some (encode_meta m)\<rparr>\<rparr>))"

text \<open>
  \<open>rotated\<close> is whether the rename of the old checkpoint succeeds (its failure is only logged),
  \<open>io\<close> the replacement of the checkpoint file and \<open>meta_io\<close> that of the manifest.
\<close>

definition write_checkpoint ::
  "checkpoint \<Rightarrow> bool \<Rightarrow> status option \<Rightarrow> status option \<Rightarrow> store \<Rightarrow> status \<times> store" where
  "write_checkpoint c rotated io meta_io s =
     (case build_checkpoint_bytes c (op_max_checkpoint_bytes (so_options s)) of
        Inl st \<Rightarrow> (st, s)
      | Inr bytes \<Rightarrow>
          (let s = (if fs_checkpoint (so_files s) \<noteq> None \<and> rotated
                    then s\<lparr>so_files := (so_files s)\<lparr>fs_previous := fs_checkpoint (so_files s), fs_checkpoint := None\<rparr>\<rparr>
                    else if fs_checkpoint (so_files s) \<noteq> None
                    then s\<lparr>so_files := (so_files s)\<lparr>fs_previous := None\<rparr>\<rparr>
                    else s)
           in
           case io of
             Some failure \<Rightarrow> (failure, s)
           | None \<Rightarrow>
               (let s = s\<lparr>so_files := (so_files s)\<lparr>fs_checkpoint := Some bytes\<rparr>\<rparr>;
                    m = empty_meta\<lparr>me_rack := so_bound_rack s, me_incarnation_counter := so_incarnation_counter s,
                          me_epoch := cp_epoch c, me_generation := cp_generation c,
                          me_checkpoint_offset := cp_wal_offset c,
                          me_checkpoint_length := of_nat (length bytes),
                          me_snapshot_digest := cp_snapshot_digest c, me_ledger_digest := cp_ledger_digest c,
                          me_clean_shutdown := False\<rparr>
                in
                case persist_meta m meta_io s of
                  (st, s) \<Rightarrow>
                    if \<not> status_ok st then (st, s)
                    else (ok_status,
                          s\<lparr>so_checkpoint_length := of_nat (length bytes),
                            so_checkpoint := c\<lparr>cp_present := True\<rparr>\<rparr>))))"

text \<open>The manifest the remaining operations write.\<close>

definition current_meta :: "store \<Rightarrow> u64 \<Rightarrow> meta" where
  "current_meta s checkpoint_length =
     empty_meta\<lparr>me_rack := so_bound_rack s, me_incarnation_counter := so_incarnation_counter s,
       me_epoch := cp_epoch (so_checkpoint s), me_generation := cp_generation (so_checkpoint s),
       me_checkpoint_offset := cp_wal_offset (so_checkpoint s), me_checkpoint_length := checkpoint_length,
       me_snapshot_digest := cp_snapshot_digest (so_checkpoint s),
       me_ledger_digest := cp_ledger_digest (so_checkpoint s)\<rparr>"

definition mark_clean_shutdown :: "timestamp_ms \<Rightarrow> status option \<Rightarrow> status option \<Rightarrow> store \<Rightarrow> status \<times> store" where
  "mark_clean_shutdown at_ms sync_io meta_io s =
     (let m = (current_meta s (so_checkpoint_length s))\<lparr>me_clean_shutdown := True, me_clean_shutdown_at_ms := at_ms\<rparr> in
      case (if so_wal_open s then sync_io else None) of
        Some failure \<Rightarrow> (failure, s)
      | None \<Rightarrow>
          (case persist_meta m meta_io s of
             (st, s) \<Rightarrow>
               if \<not> status_ok st then (st, s)
               else (ok_status, s\<lparr>so_report := (so_report s)\<lparr>rr_clean_shutdown := True\<rparr>\<rparr>)))"

definition next_incarnation :: "status option \<Rightarrow> store \<Rightarrow> controller_incarnation result \<times> store" where
  "next_incarnation meta_io s =
     (if so_incarnation_counter s = u64_max
      then (fail kResourceExhausted ''the incarnation counter is exhausted'', s)
      else
        (let s = s\<lparr>so_incarnation_counter := so_incarnation_counter s + 1\<rparr>;
             m = current_meta s (if cp_present (so_checkpoint s) then so_checkpoint_length s else 0)
         in
         case persist_meta m meta_io s of
           (st, s) \<Rightarrow> if \<not> status_ok st then (Inl st, s) else (Inr (so_incarnation_counter s), s)))"

definition bind_rack :: "rack_id \<Rightarrow> status option \<Rightarrow> store \<Rightarrow> status \<times> store" where
  "bind_rack rack meta_io s =
     (let s = s\<lparr>so_bound_rack := rack\<rparr>;
          m = current_meta s (if cp_present (so_checkpoint s) then so_checkpoint_length s else 0)
      in persist_meta m meta_io s)"

end
