(* ===== verification/Rnf_Store_Props.thy ===== *)
theory Rnf_Store_Props
  imports Rnf_Store
begin

text \<open>
  The durable store: the record codec, the manifest and the checkpoint file as round trips, and
  recovery as a prefix of the accepted history. A torn append at the end of the log is dropped, a
  damaged byte stops the replay before the damaged record, and the incarnation counter grows over
  every restart.
\<close>

section \<open>The record codec\<close>

fun body_ok :: "store_payload \<Rightarrow> bool" where
  "body_ok (SP_RackBind b) \<longleftrightarrow> text_ok kMaxNameText (rb_name b)"
| "body_ok (SP_Evidence e) \<longleftrightarrow> evidence_valid e"
| "body_ok (SP_Epoch b) \<longleftrightarrow> length (ep_member_set_digest b) = 32"
| "body_ok (SP_Grant g) \<longleftrightarrow> grant_ok g"
| "body_ok (SP_GrantState b) \<longleftrightarrow> text_ok kMaxReasonText (gr_reason b)"
| "body_ok (SP_RequestOutcome b) \<longleftrightarrow>
     length (oc_request_digest b) = 32 \<and> text_ok kMaxDetailText (oc_detail b)"
| "body_ok _ \<longleftrightarrow> True"

definition record_ok :: "store_record \<Rightarrow> bool" where
  "record_ok r \<longleftrightarrow> payload_type (sr_payload r) = sr_type r \<and> body_ok (sr_payload r)"

definition record_bytes :: "store_record \<Rightarrow> u8 list" where
  "record_bytes r = rt_byte (sr_type r) # calls_bytes (body_calls (sr_payload r))"

lemma store_text_bounds [simp]:
  "kMaxNameText < 4294967296" "kMaxDetailText < 4294967296" "kMaxReasonText < 4294967296"
  by (simp_all add: kMaxNameText_def kMaxDetailText_def kMaxReasonText_def)

lemmas store_text_facts =
  r_text_dec_enc [of kMaxNameText] r_text_dec_enc [of kMaxDetailText] r_text_dec_enc [of kMaxReasonText]

lemma dec_body_enc:
  "text_ok kMaxNameText (rb_name b1) \<Longrightarrow>
     dec_rack_bind (calls_bytes (body_calls (SP_RackBind b1)) @ t) = Some (SP_RackBind b1, t)"
  "dec_config (calls_bytes (body_calls (SP_Config b2)) @ t) = Some (SP_Config b2, t)"
  "dec_lifecycle (calls_bytes (body_calls (SP_Lifecycle b3)) @ t) = Some (SP_Lifecycle b3, t)"
  "dec_generation (calls_bytes (body_calls (SP_Generation g)) @ t) = Some (SP_Generation g, t)"
  "length (ep_member_set_digest b4) = 32 \<Longrightarrow>
     dec_epoch (calls_bytes (body_calls (SP_Epoch b4)) @ t) = Some (SP_Epoch b4, t)"
  "text_ok kMaxReasonText (gr_reason b5) \<Longrightarrow>
     dec_grant_state (calls_bytes (body_calls (SP_GrantState b5)) @ t) = Some (SP_GrantState b5, t)"
  "length (oc_request_digest b6) = 32 \<Longrightarrow> text_ok kMaxDetailText (oc_detail b6) \<Longrightarrow>
     dec_request_outcome (calls_bytes (body_calls (SP_RequestOutcome b6)) @ t) = Some (SP_RequestOutcome b6, t)"
  "dec_shutdown (calls_bytes (body_calls (SP_Shutdown m)) @ t) = Some (SP_Shutdown m, t)"
  by (simp_all add: dec_rack_bind_def dec_config_def dec_lifecycle_def dec_generation_def dec_epoch_def
      dec_grant_state_def dec_request_outcome_def dec_shutdown_def codec_simps store_text_facts
      call_bytes_text del: call_bytes.simps(8))

lemma dec_body_sound:
  "dec_rack_bind bs = Some (p, t) \<Longrightarrow>
     body_ok p \<and> payload_type p = RecordType_kRackBind \<and> bs = calls_bytes (body_calls p) @ t"
  "dec_config bs = Some (p, t) \<Longrightarrow>
     body_ok p \<and> payload_type p = RecordType_kConfig \<and> bs = calls_bytes (body_calls p) @ t"
  "dec_lifecycle bs = Some (p, t) \<Longrightarrow>
     body_ok p \<and> payload_type p = RecordType_kLifecycle \<and> bs = calls_bytes (body_calls p) @ t"
  "dec_generation bs = Some (p, t) \<Longrightarrow>
     body_ok p \<and> payload_type p = RecordType_kGeneration \<and> bs = calls_bytes (body_calls p) @ t"
  "dec_epoch bs = Some (p, t) \<Longrightarrow>
     body_ok p \<and> payload_type p = RecordType_kEpoch \<and> bs = calls_bytes (body_calls p) @ t"
  "dec_grant_state bs = Some (p, t) \<Longrightarrow>
     body_ok p \<and> payload_type p = RecordType_kGrantState \<and> bs = calls_bytes (body_calls p) @ t"
  "dec_request_outcome bs = Some (p, t) \<Longrightarrow>
     body_ok p \<and> payload_type p = RecordType_kRequestOutcome \<and> bs = calls_bytes (body_calls p) @ t"
  "dec_shutdown bs = Some (p, t) \<Longrightarrow>
     body_ok p \<and> payload_type p = RecordType_kCleanShutdown \<and> bs = calls_bytes (body_calls p) @ t"
  by (auto simp: dec_rack_bind_def dec_config_def dec_lifecycle_def dec_generation_def dec_epoch_def
      dec_grant_state_def dec_request_outcome_def dec_shutdown_def Option.bind_eq_Some_conv
      call_bytes_text simp del: call_bytes.simps(8) dest!: dec_sound_basic r_text_sound [rotated])

lemma decode_body_bytes:
  assumes "body_ok p"
  shows "decode_body (rt_byte (payload_type p)) (calls_bytes (body_calls p) @ t) = Inr (p, t)"
proof (cases p)
  case (SP_Evidence e)
  with assms show ?thesis
    using decode_evidence_bytes [of e t] by (simp add: decode_body_def evidence_bytes_def)
next
  case (SP_Grant g)
  with assms show ?thesis
    using grantc.dec_enc [of g t] by (simp add: decode_body_def)
qed (use assms dec_body_enc in \<open>simp_all add: decode_body_def del: body_calls.simps list.map\<close>)

lemma decode_body_sound:
  assumes "decode_body b bs = Inr (p, t)"
  shows "body_ok p \<and> rt_byte (payload_type p) = b \<and> bs = calls_bytes (body_calls p) @ t"
  using assms grantc.dec_sound [of bs _ t]
  by (auto simp: decode_body_def or_fail_Inr_iff rnf_try_Inr_iff evidence_bytes_def [symmetric]
      simp del: body_calls.simps(1,2,4,5,6,8-) dest!: dec_body_sound dest: decode_evidence_sound
      split: if_splits)

interpretation recordc: codec record_bytes "\<lambda>bs. to_opt (decode_store_record bs)" record_ok
proof
  fix r t
  assume "record_ok r"
  then show "to_opt (decode_store_record (record_bytes r @ t)) = Some (r, t)"
    using decode_body_bytes [of "sr_payload r" t]
    by (cases r) (auto simp: record_ok_def record_bytes_def decode_store_record_def)
next
  fix bs r t
  assume "to_opt (decode_store_record bs) = Some (r, t)"
  then obtain b u p where "bs = b # u" "decode_body b u = Inr (p, t)"
    "r = \<lparr>sr_type = RecordType b, sr_payload = p\<rparr>"
    by (cases bs) (auto simp: decode_store_record_def rnf_try_Inr_iff)
  with decode_body_sound [of b u p t] show "record_ok r \<and> bs = record_bytes r @ t"
    by (cases "payload_type p") (auto simp: record_ok_def record_bytes_def)
qed

text \<open>Within its bounds a record is encoded, and the log gets exactly its canonical bytes.\<close>

lemma body_calls_ok: "body_ok p \<Longrightarrow> calls_ok (body_calls p)"
proof (cases p)
  case (SP_Grant g)
  assume "body_ok p"
  with SP_Grant show ?thesis
    by (auto simp: grant_ok_def grant_calls_def counted_calls_def ref_calls_def kMaxReasonText_def list_all_iff)
next
  case (SP_Evidence e)
  assume "body_ok p"
  with SP_Evidence show ?thesis by (simp add: evidence_calls_ok evidence_valid_text_ok)
qed (auto simp: kMaxNameText_def kMaxDetailText_def kMaxReasonText_def)

lemma encode_body_ok:
  assumes "body_ok p"
  shows "status_ok (fst (encode_body p w)) \<and> snd (encode_body p w) = write_all (body_calls p) w \<or>
         \<not> bw_ok (write_all (body_calls p) w) \<and> \<not> status_ok (fst (encode_body p w))"
proof (cases p)
  case (SP_Evidence e)
  with assms show ?thesis
    using encode_evidence_ok [of e w] evidence_valid_text_ok [of e] by (auto simp: encode_body_def Let_def)
qed (auto simp: encode_body_def encode_grant_def Let_def)

lemma write_record:
  "write_all (body_calls p) (bw_u8 b (bw_new L)) = write_all (W_u8 b # body_calls p) (bw_new L)"
  by (simp add: write_all_def)

lemma encode_store_record_exact:
  assumes "record_ok r"
  shows "\<exists>st w. encode_store_record r (bw_new L) = Some (st, w) \<and>
           (status_ok st \<longleftrightarrow> length (record_bytes r) \<le> L) \<and>
           (status_ok st \<longrightarrow> st = ok_status \<and> bw_buffer w = record_bytes r)"
proof -
  define v where "v = write_all (W_u8 (rt_byte (sr_type r)) # body_calls (sr_payload r)) (bw_new L)"
  have p: "payload_type (sr_payload r) = sr_type r" "body_ok (sr_payload r)"
    using assms by (simp_all add: record_ok_def)
  then have known: "known_record_type (sr_type r)"
    by (cases "sr_payload r") (auto simp: known_record_type_def dest: sym)
  have wf: "bw_wf (bw_new L)" by (simp add: bw_wf_def bw_new_def)
  have ok: "bw_ok v \<longleftrightarrow> length (record_bytes r) \<le> L" "bw_ok v \<Longrightarrow> bw_buffer v = record_bytes r"
    using write_all_spec [OF wf, of "W_u8 (rt_byte (sr_type r)) # body_calls (sr_payload r)"]
      body_calls_ok [OF p(2)]
    by (auto simp: v_def record_bytes_def bw_new_def)
  let ?e = "encode_body (sr_payload r) (bw_u8 (rt_byte (sr_type r)) (bw_new L))"
  have "status_ok (fst ?e) \<and> snd ?e = v \<or> \<not> bw_ok v \<and> \<not> status_ok (fst ?e)"
    unfolding v_def write_record [symmetric] by (rule encode_body_ok [OF p(2)])
  with ok p(1) known show ?thesis
    by (cases ?e) (auto simp: encode_store_record_def Let_def)
qed

section \<open>Replay\<close>

text \<open>The log that holds a sequence of records, and the replay state after accepting them.\<close>

definition log_bytes :: "store_record list \<Rightarrow> u8 list" where
  "log_bytes rs = enc_many (\<lambda>r. wal_frame (record_bytes r)) rs"

definition accept_all :: "store_record list \<Rightarrow> replay_state \<Rightarrow> replay_state" where
  "accept_all rs s = fold (\<lambda>r. accept_record r (length (record_bytes r))) rs s"

text \<open>A record that fits the configured bound and the 32 bit length of its frame.\<close>

definition loggable :: "store_options \<Rightarrow> store_record \<Rightarrow> bool" where
  "loggable opts r \<longleftrightarrow>
     record_ok r \<and> length (record_bytes r) \<le> op_max_record_bytes opts \<and> length (record_bytes r) < 2 ^ 32"

lemma accept_all_simps [simp]:
  "accept_all [] s = s"
  "accept_all (r # rs) s = accept_all rs (accept_record r (length (record_bytes r)) s)"
  by (simp_all add: accept_all_def)

lemma log_bytes_simps [simp]:
  "log_bytes [] = []" "log_bytes (r # rs) = wal_frame (record_bytes r) @ log_bytes rs"
  "log_bytes (rs @ qs) = log_bytes rs @ log_bytes qs"
  by (simp_all add: log_bytes_def enc_many_def)

lemma length_wal_frame [simp]: "length (wal_frame p) = kWalHeaderSize + length p"
  by (simp add: wal_frame_def kWalHeaderSize_def)

lemma accept_all_fields:
  "rp_records (accept_all rs s) = rp_records s @ rs"
  "rp_cursor (accept_all rs s) = rp_cursor s + length (log_bytes rs)"
  "rp_report (accept_all rs s) =
     (rp_report s)\<lparr>rr_records_replayed := rr_records_replayed (rp_report s) + length rs\<rparr>"
  by (induction rs arbitrary: s) (simp_all add: accept_record_def)

lemma store_le_Nil_iff [simp]: "store_le n v = [] \<longleftrightarrow> n = 0"
  by (simp add: store_le_def)

lemma load_u32 [simp]: "load_le 4 (store_le 4 v) = (v :: u32)"
  by (rule load_store_le) simp

lemma load_u64 [simp]: "load_le 8 (store_le 8 v) = (v :: u64)"
  by (rule load_store_le) simp

text \<open>One turn of the loop on a complete frame header.\<close>

lemma replay_header:
  "replay opts n (store_le 4 (len :: u32) @ store_le 4 (c :: u32) @ rest) s =
     (let payload = take (unat len) rest in
      if unat len > op_max_record_bytes opts
      then corrupt (Status kOversizeField ''log record length exceeds the configured bound'') s
      else if length payload \<noteq> unat len then torn s
      else if crc32c payload \<noteq> c then
        if n - (rp_cursor s + kWalHeaderSize + unat len) < kWalHeaderSize then torn s
        else corrupt (Status kIntegrityFailure ''log record failed its checksum'') s
      else
        (case decode_store_record payload of
           Inl st \<Rightarrow> corrupt (Status (st_code st) (status_describe st)) s
         | Inr (r, trailing) \<Rightarrow>
             if trailing \<noteq> [] then corrupt (Status kMalformedEncoding ''log record has trailing bytes'') s
             else replay opts n (drop (unat len) rest) (accept_record r (unat len) s)))"
proof -
  let ?bs = "store_le 4 len @ store_le 4 c @ rest"
  have "?bs \<noteq> []" "\<not> length ?bs < kWalHeaderSize" "take 4 ?bs = store_le 4 len"
    "take 4 (drop 4 ?bs) = store_le 4 c" "drop kWalHeaderSize ?bs = rest"
    by (simp_all add: kWalHeaderSize_def)
  then show ?thesis
    by (subst replay.simps) (simp only: if_False load_u32 Let_def)
qed

lemma replay_frame:
  assumes "loggable opts r"
  shows "replay opts n (wal_frame (record_bytes r) @ t) s =
     replay opts n t (accept_record r (length (record_bytes r)) s)"
proof -
  have "decode_store_record (record_bytes r) = Inr (r, [])"
    using recordc.dec_enc [of r "[]"] assms by (simp add: loggable_def)
  moreover have "unat (of_nat (length (record_bytes r)) :: u32) = length (record_bytes r)"
    using assms by (simp add: loggable_def unat_of_nat)
  ultimately show ?thesis
    using assms by (simp add: wal_frame_def replay_header loggable_def)
qed

lemma replay_log:
  "\<forall>r\<in>set rs. loggable opts r \<Longrightarrow> replay opts n (log_bytes rs @ t) s = replay opts n t (accept_all rs s)"
  by (induction rs arbitrary: s) (simp_all add: replay_frame)

lemma replay_nil [simp]: "replay opts n [] s = s"
  by (subst replay.simps) simp

text \<open>A frame cut short anywhere is a torn tail.\<close>

lemma replay_cut_frame:
  assumes "length p \<le> op_max_record_bytes opts" "length p < 2 ^ 32"
    "0 < k" "k < kWalHeaderSize + length p"
  shows "replay opts n (take k (wal_frame p)) s = torn s"
proof (cases "k < kWalHeaderSize")
  case True
  with assms show ?thesis by (subst replay.simps) (auto simp: wal_frame_def)
next
  case False
  then have k: "8 \<le> k" by (simp add: kWalHeaderSize_def)
  have "take k (wal_frame p) = store_le 4 (of_nat (length p) :: u32) @ store_le 4 (crc32c p) @ take (k - 8) p"
    using k by (simp add: wal_frame_def min_def)
  moreover have "unat (of_nat (length p) :: u32) = length p"
    using assms by (simp add: unat_of_nat)
  ultimately show ?thesis
    using assms False by (simp add: replay_header kWalHeaderSize_def Let_def)
qed

text \<open>A frame whose payload does not match its checksum stops the replay, whatever follows.\<close>

lemma replay_bad_checksum:
  assumes "crc32c p \<noteq> c" "length p < 2 ^ 32"
  shows "\<exists>r. replay opts n (store_le 4 (of_nat (length p) :: u32) @ store_le 4 c @ p @ t) s = s\<lparr>rp_report := r\<rparr>"
proof -
  have "unat (of_nat (length p) :: u32) = length p"
    using assms by (simp add: unat_of_nat)
  with assms show ?thesis by (auto simp: replay_header corrupt_def torn_def)
qed

text \<open>
  What the replay accepts of any log is the longest prefix that is the log of a sequence of records:
  \<open>recoverable opts bs rs\<close> says that \<open>rs\<close> is that sequence.
\<close>

definition recoverable :: "store_options \<Rightarrow> u8 list \<Rightarrow> store_record list \<Rightarrow> bool" where
  "recoverable opts bs rs \<longleftrightarrow>
     (\<forall>r\<in>set rs. loggable opts r) \<and>
     (\<exists>rest. bs = log_bytes rs @ rest \<and> (\<forall>r t. loggable opts r \<longrightarrow> rest \<noteq> wal_frame (record_bytes r) @ t))"

lemma frame_header_split:
  assumes "kWalHeaderSize \<le> length bs"
  obtains len c rest where "bs = store_le 4 (len :: u32) @ store_le 4 (c :: u32) @ rest"
proof -
  have "store_le 4 (load_le 4 (take 4 bs) :: u32) = take 4 bs"
    "store_le 4 (load_le 4 (take 4 (drop 4 bs)) :: u32) = take 4 (drop 4 bs)"
    by (rule store_load_le; use assms in \<open>simp add: kWalHeaderSize_def\<close>)+
  moreover have "bs = take 4 bs @ take 4 (drop 4 bs) @ drop 8 bs"
    by (metis append_take_drop_id drop_drop numeral_Bit0 numeral_code(2))
  ultimately show thesis using that by metis
qed

lemma frame_unique:
  assumes "loggable opts r"
    "store_le 4 (len :: u32) @ store_le 4 (c :: u32) @ rest = wal_frame (record_bytes r) @ t"
  shows "unat len = length (record_bytes r) \<and> c = crc32c (record_bytes r) \<and> rest = record_bytes r @ t"
proof -
  have "store_le 4 len = store_le 4 (of_nat (length (record_bytes r)) :: u32)"
    "store_le 4 c = store_le 4 (crc32c (record_bytes r))" "rest = record_bytes r @ t"
    using assms(2) by (simp_all add: wal_frame_def append_eq_append_conv)
  then have "len = of_nat (length (record_bytes r))" "c = crc32c (record_bytes r)"
    using load_u32 by metis+
  with assms(1) \<open>rest = _\<close> show ?thesis by (simp add: loggable_def unat_of_nat)
qed

lemma wal_frame_payload:
  assumes "length p = unat (len :: u32)"
  shows "wal_frame p = store_le 4 len @ store_le 4 (crc32c p) @ p"
  using assms by (simp add: wal_frame_def)

definition same_start :: "recovery_report \<Rightarrow> recovery_report \<Rightarrow> bool" where
  "same_start a b \<longleftrightarrow>
     rr_checkpoint_used a = rr_checkpoint_used b \<and> rr_checkpoint_rejected a = rr_checkpoint_rejected b"

definition halted :: "replay_state \<Rightarrow> replay_state \<Rightarrow> bool" where
  "halted s x \<longleftrightarrow> (\<exists>rep. same_start rep (rp_report s) \<and> x = s\<lparr>rp_report := rep\<rparr>)"

lemma halted_simps [simp]: "halted s s" "halted s (torn s)" "halted s (corrupt st s)"
proof -
  show "halted s s" unfolding halted_def by (rule exI [of _ "rp_report s"]) (simp add: same_start_def)
  show "halted s (torn s)" unfolding halted_def torn_def
    by (rule exI, rule conjI [OF _ refl]) (simp add: same_start_def)
  show "halted s (corrupt st s)" unfolding halted_def corrupt_def
    by (rule exI, rule conjI [OF _ refl]) (simp add: same_start_def)
qed

lemma replay_recoverable:
  "\<exists>rs rep. recoverable opts bs rs \<and> same_start rep (rp_report s) \<and>
     replay opts n bs s = (accept_all rs s)\<lparr>rp_report := rep\<rparr>"
proof (induction "length bs" arbitrary: bs s rule: less_induct)
  case less
  define stops where "stops \<longleftrightarrow> halted s (replay opts n bs s) \<and>
      (\<forall>r t. loggable opts r \<longrightarrow> bs \<noteq> wal_frame (record_bytes r) @ t)"
  have halt: ?case if "stops"
    using that unfolding stops_def halted_def
    by (elim conjE exE) (rule exI [of _ "[]"], auto simp: recoverable_def)
  show ?case
  proof (cases "kWalHeaderSize \<le> length bs")
    case False
    then have "replay opts n bs s \<in> {s, torn s}" by (subst replay.simps) simp
    moreover have "bs \<noteq> wal_frame (record_bytes r) @ t" for r t using False by auto
    ultimately have stops by (auto simp: stops_def)
    then show ?thesis by (rule halt)
  next
    case True
    then obtain len c rest where bs: "bs = store_le 4 (len :: u32) @ store_le 4 (c :: u32) @ rest"
      by (rule frame_header_split)
    define p where "p = take (unat len) rest"
    show ?thesis
    proof (cases "unat len \<le> op_max_record_bytes opts \<and> length p = unat len \<and> crc32c p = c \<and>
        (\<exists>r. decode_store_record p = Inr (r, []))")
      case True
      then obtain r where r: "decode_store_record p = Inr (r, [])" by blast
      then have rb: "record_ok r" "p = record_bytes r" using recordc.dec_sound [of p r "[]"] by simp_all
      moreover have "unat len < 2 ^ 32" using unsigned_less [of len, where ?'a = nat] by simp
      ultimately have log: "loggable opts r" using True by (auto simp: loggable_def)
      have "wal_frame p = store_le 4 len @ store_le 4 c @ p" using True by (simp add: wal_frame_payload)
      moreover have "rest = p @ drop (unat len) rest" by (simp add: p_def)
      ultimately have split: "bs = wal_frame (record_bytes r) @ drop (unat len) rest"
        using bs rb by simp
      let ?s = "accept_record r (length (record_bytes r)) s"
      have "length (drop (unat len) rest) < length bs" by (simp add: bs)
      from less.hyps [OF this, of ?s] obtain rs rep where
        rs: "recoverable opts (drop (unat len) rest) rs"
        "replay opts n (drop (unat len) rest) ?s = (accept_all rs ?s)\<lparr>rp_report := rep\<rparr>"
        "same_start rep (rp_report ?s)" by blast
      have "recoverable opts bs (r # rs)"
        using rs(1) log unfolding recoverable_def split by auto
      moreover have "replay opts n bs s = (accept_all (r # rs) s)\<lparr>rp_report := rep\<rparr>"
        using rs(2) unfolding split by (simp add: replay_frame [OF log])
      moreover have "same_start rep (rp_report s)"
        using rs(3) by (simp add: same_start_def accept_record_def)
      ultimately show ?thesis by blast
    next
      case False
      then have "halted s (replay opts n bs s)"
        unfolding bs replay_header Let_def p_def [symmetric] by (auto split: sum.splits)
      moreover have "bs \<noteq> wal_frame (record_bytes r) @ t" if "loggable opts r" for r t
      proof
        assume "bs = wal_frame (record_bytes r) @ t"
        from frame_unique [OF that this [unfolded bs]] that False recordc.dec_enc [of r "[]"]
        show False by (simp add: p_def loggable_def)
      qed
      ultimately have stops by (simp add: stops_def)
      then show ?thesis by (rule halt)
    qed
  qed
qed

lemma recoverable_Cons:
  "recoverable opts bs (r # rs) \<longleftrightarrow>
     loggable opts r \<and> (\<exists>t. bs = wal_frame (record_bytes r) @ t \<and> recoverable opts t rs)"
  by (auto simp: recoverable_def)

lemma recoverable_unique: "recoverable opts bs rs \<Longrightarrow> recoverable opts bs qs \<Longrightarrow> rs = qs"
proof (induction rs arbitrary: bs qs)
  case Nil
  then show ?case by (cases qs) (auto simp: recoverable_def)
next
  case (Cons r rs)
  then obtain q qs' where qs: "qs = q # qs'" by (cases qs) (auto simp: recoverable_def)
  obtain t u where t: "bs = wal_frame (record_bytes r) @ t" "recoverable opts t rs" "loggable opts r"
    and u: "bs = wal_frame (record_bytes q) @ u" "recoverable opts u qs'" "loggable opts q"
    using Cons.prems unfolding qs recoverable_Cons by blast
  have "record_bytes r @ t = record_bytes q @ u"
    using frame_unique [OF u(3), of "of_nat (length (record_bytes r))" "crc32c (record_bytes r)"
        "record_bytes r @ t" u] t(1) u(1) by (simp add: wal_frame_def)
  then have "r = q \<and> t = u"
    using recordc.enc_append_inj [of r q t u] t(3) u(3) by (simp add: loggable_def)
  with Cons.IH [OF t(2)] u(2) qs show ?case by simp
qed

section \<open>Opening a store\<close>

abbreviation wal_of :: "store_files \<Rightarrow> u8 list" where
  "wal_of files \<equiv> (case fs_wal files of Some bytes \<Rightarrow> bytes | None \<Rightarrow> [])"

text \<open>The part of the open before the replay: the manifest, the checkpoint and where the replay starts.\<close>

definition open_prepare ::
  "string \<Rightarrow> store_options \<Rightarrow> open_io \<Rightarrow> store_files \<Rightarrow> (meta \<times> nat \<times> checkpoint \<times> recovery_report) result" where
  "open_prepare dir options io files =
     rnf_try (open_manifest dir options io files (empty_report\<lparr>rr_fresh_store := fs_wal files = None\<rparr>))
       (\<lambda>(m, report).
         Inr (m, checkpoint_offset (length (wal_of files))
           (open_checkpoint dir options io files m (report\<lparr>rr_clean_shutdown := me_valid m \<and> me_clean_shutdown m\<rparr>))))"

definition opened ::
  "string \<Rightarrow> store_options \<Rightarrow> store_files \<Rightarrow> meta \<times> nat \<times> checkpoint \<times> recovery_report \<Rightarrow> replay_state \<Rightarrow> store" where
  "opened dir options files = (\<lambda>(m, offset, c, report) s.
     let report = (rp_report s)\<lparr>rr_bytes_discarded := length (wal_of files) - rp_cursor s\<rparr> in
     \<lparr>so_directory = dir, so_files = files\<lparr>fs_wal := Some (take (rp_cursor s) (wal_of files))\<rparr>,
      so_options = options, so_wal_open = True, so_log_bytes = rp_cursor s, so_appends = 0,
      so_checkpoint = (if rr_checkpoint_used report then c\<lparr>cp_present := True\<rparr> else c),
      so_records = rp_records s, so_report = report,
      so_incarnation_counter =
        max (if me_valid m then me_incarnation_counter m else 0) (rp_max_incarnation s),
      so_checkpoint_length = (if me_valid m then me_checkpoint_length m else 0),
      so_bound_rack = (if me_valid m then me_rack m else 0)\<rparr>)"

definition replay_start :: "nat \<Rightarrow> recovery_report \<Rightarrow> replay_state" where
  "replay_start offset report =
     \<lparr>rp_records = [], rp_cursor = offset, rp_max_incarnation = 0, rp_report = report\<rparr>"

lemma store_open_Inr_iff:
  "store_open dir options io files = Inr st \<longleftrightarrow>
     oi_create_directories io = None \<and> oi_lock io = None \<and> oi_open_wal io \<and> oi_size_wal io \<and> oi_seek io \<and>
     (\<exists>m offset c report s.
        open_prepare dir options io files = Inr (m, offset, c, report) \<and>
        s = replay options (length (wal_of files)) (drop offset (wal_of files)) (replay_start offset report) \<and>
        (rp_cursor s < length (wal_of files) \<longrightarrow> oi_truncate io \<and> oi_seek_end io) \<and>
        st = opened dir options files (m, offset, c, report) s)"
proof (cases "open_manifest dir options io files (empty_report\<lparr>rr_fresh_store := fs_wal files = None\<rparr>)")
  case (Inl e)
  then show ?thesis by (simp add: store_open_def open_prepare_def split: option.split)
next
  case (Inr p)
  obtain m report where p: "p = (m, report)" by (cases p)
  obtain offset c report' where
    co: "checkpoint_offset (length (wal_of files)) (open_checkpoint dir options io files m
      (report\<lparr>rr_clean_shutdown := me_valid m \<and> me_clean_shutdown m\<rparr>)) = (offset, c, report')"
    by (rule prod_cases3)
  have prep: "open_prepare dir options io files = Inr (m, offset, c, report')"
    using Inr p co by (simp add: open_prepare_def)
  define s where
    "s = replay options (length (wal_of files)) (drop offset (wal_of files)) (replay_start offset report')"
  have "store_open dir options io files =
      (case oi_create_directories io of
         Some message \<Rightarrow> fail kIo (''cannot create store directory '' @ dir @ '': '' @ message)
       | None \<Rightarrow>
      (case oi_lock io of
         Some st \<Rightarrow> Inl st
       | None \<Rightarrow>
      if \<not> oi_open_wal io then fail kIo (''cannot open the write-ahead log '' @ dir @ ''/rnf.wal'')
      else if \<not> oi_size_wal io then fail kIo ''cannot size the write-ahead log''
      else if \<not> oi_seek io then fail kIo ''cannot seek in the write-ahead log''
      else if length (wal_of files) - rp_cursor s > 0 \<and> \<not> oi_truncate io
      then fail kIo ''cannot truncate the write-ahead log''
      else if length (wal_of files) - rp_cursor s > 0 \<and> \<not> oi_seek_end io
      then fail kIo ''cannot seek in the write-ahead log''
      else Inr (opened dir options files (m, offset, c, report') s)))"
    unfolding store_open_def Inr p rnf_try_simps case_prod_conv Let_def co s_def replay_start_def opened_def
    by (rule refl)
  then show ?thesis
    unfolding prep s_def [symmetric] by (auto split: option.splits simp: s_def)
qed

lemma checkpoint_offset_le: "checkpoint_offset n x = (offset, c, report) \<Longrightarrow> offset \<le> n"
  by (cases x) (auto simp: checkpoint_offset_def Let_def split: if_splits)

lemma open_prepare_offset:
  assumes "open_prepare dir options io files = Inr (m, offset, c, report)"
  shows "offset \<le> length (wal_of files)"
proof -
  from assms obtain x where "checkpoint_offset (length (wal_of files)) x = (offset, c, report)"
    unfolding open_prepare_def rnf_try_Inr_iff by (elim exE conjE) (simp split: prod.splits)
  then show ?thesis by (rule checkpoint_offset_le)
qed

text \<open>A successful open and what it replayed.\<close>

lemma store_open_recovers:
  assumes "store_open dir options io files = Inr st"
  obtains m offset c report rep where
    "open_prepare dir options io files = Inr (m, offset, c, report)"
    "offset \<le> length (wal_of files)"
    "recoverable options (drop offset (wal_of files)) (so_records st)"
    "st = opened dir options files (m, offset, c, report)
            ((accept_all (so_records st) (replay_start offset report))\<lparr>rp_report := rep\<rparr>)"
    "replay options (length (wal_of files)) (drop offset (wal_of files)) (replay_start offset report) =
       (accept_all (so_records st) (replay_start offset report))\<lparr>rp_report := rep\<rparr>"
    "same_start rep report"
proof -
  from assms obtain m offset c report s where
    prep: "open_prepare dir options io files = Inr (m, offset, c, report)" and
    s: "s = replay options (length (wal_of files)) (drop offset (wal_of files)) (replay_start offset report)" and
    st: "st = opened dir options files (m, offset, c, report) s"
    unfolding store_open_Inr_iff by blast
  obtain rs rep where
    rs: "recoverable options (drop offset (wal_of files)) rs"
    "s = (accept_all rs (replay_start offset report))\<lparr>rp_report := rep\<rparr>" "same_start rep report"
    using replay_recoverable [of options _ "replay_start offset report"] unfolding s replay_start_def
    by (metis replay_state.select_convs(4))
  then have "so_records st = rs" by (simp add: st opened_def Let_def accept_all_fields replay_start_def)
  with rs show thesis
    by (intro that [OF prep open_prepare_offset [OF prep], of rep]) (simp_all add: st s [symmetric])
qed

lemma open_prepare_start:
  assumes "open_prepare dir options io files = Inr (m, offset, c, report)"
  shows "offset = (if rr_checkpoint_used report then unat (cp_wal_offset c) else 0)"
proof -
  from assms obtain x where "checkpoint_offset (length (wal_of files)) x = (offset, c, report)"
    unfolding open_prepare_def rnf_try_Inr_iff by (elim exE conjE) (simp split: prod.splits)
  then show ?thesis by (cases x) (auto simp: checkpoint_offset_def Let_def split: if_splits)
qed

text \<open>What a successful open leaves: the log is cut after the last record it recovered.\<close>

lemma opened_fields:
  assumes "recoverable options (drop offset (wal_of files)) rs" "offset \<le> length (wal_of files)"
  shows "so_records (opened dir options files (m, offset, c, report)
           ((accept_all rs (replay_start offset report))\<lparr>rp_report := rep\<rparr>)) = rs"
    and "so_files (opened dir options files (m, offset, c, report)
           ((accept_all rs (replay_start offset report))\<lparr>rp_report := rep\<rparr>)) =
         files\<lparr>fs_wal := Some (take offset (wal_of files) @ log_bytes rs)\<rparr>"
    and "so_log_bytes (opened dir options files (m, offset, c, report)
           ((accept_all rs (replay_start offset report))\<lparr>rp_report := rep\<rparr>)) = offset + length (log_bytes rs)"
proof -
  obtain rest where rest: "drop offset (wal_of files) = log_bytes rs @ rest"
    using assms(1) by (auto simp: recoverable_def)
  have "take (offset + length (log_bytes rs)) (wal_of files) =
      take offset (wal_of files) @ take (length (log_bytes rs)) (drop offset (wal_of files))"
    by (rule take_add)
  also have "\<dots> = take offset (wal_of files) @ log_bytes rs" by (simp add: rest)
  finally have cut: "take (offset + length (log_bytes rs)) (wal_of files) =
      take offset (wal_of files) @ log_bytes rs" .
  show "so_records (opened dir options files (m, offset, c, report)
      ((accept_all rs (replay_start offset report))\<lparr>rp_report := rep\<rparr>)) = rs"
    by (simp add: opened_def Let_def accept_all_fields replay_start_def)
  show "so_files (opened dir options files (m, offset, c, report)
      ((accept_all rs (replay_start offset report))\<lparr>rp_report := rep\<rparr>)) =
      files\<lparr>fs_wal := Some (take offset (wal_of files) @ log_bytes rs)\<rparr>"
    by (simp add: opened_def Let_def accept_all_fields replay_start_def cut)
  show "so_log_bytes (opened dir options files (m, offset, c, report)
      ((accept_all rs (replay_start offset report))\<lparr>rp_report := rep\<rparr>)) = offset + length (log_bytes rs)"
    by (simp add: opened_def Let_def accept_all_fields replay_start_def)
qed

lemma recoverable_log: "\<forall>r\<in>set rs. loggable opts r \<Longrightarrow> recoverable opts (log_bytes rs) rs"
  unfolding recoverable_def by (rule conjI, assumption, rule exI [of _ "[]"]) (simp add: wal_frame_def)

text \<open>Where the replay starts when the log has been replaced by a longer one.\<close>

lemma open_manifest_wal:
  assumes "open_manifest dir options io files (empty_report\<lparr>rr_fresh_store := fresh\<rparr>) = Inr (m, report)"
    "fs_meta files' = fs_meta files"
  shows "\<exists>report'. open_manifest dir options io files' (empty_report\<lparr>rr_fresh_store := fresh'\<rparr>) = Inr (m, report') \<and>
           same_start report report'"
  using assms
  by (auto simp: open_manifest_def Let_def same_start_def empty_report_def split: option.splits sum.splits if_splits)

lemma open_checkpoint_report:
  assumes "same_start r r'" "fs_checkpoint files' = fs_checkpoint files"
  shows "fst (open_checkpoint dir options io files' m r') = fst (open_checkpoint dir options io files m r) \<and>
     same_start (snd (open_checkpoint dir options io files m r)) (snd (open_checkpoint dir options io files' m r'))"
  using assms by (auto simp: open_checkpoint_def same_start_def split: sum.split)

lemma checkpoint_offset_longer:
  assumes "checkpoint_offset n (c, r) = (offset, c0, rep)" "\<not> rr_checkpoint_rejected rep" "same_start r r'"
    "offset \<le> n'"
  shows "\<exists>rep'. checkpoint_offset n' (c, r') = (offset, c0, rep') \<and> same_start rep rep'"
  using assms by (auto simp: checkpoint_offset_def same_start_def Let_def split: if_splits)

lemma open_prepare_longer:
  assumes prep: "open_prepare dir options io files = Inr (m, offset, c, report)"
    and kept: "\<not> rr_checkpoint_rejected report"
    and log: "offset \<le> length w" and meta: "fs_meta files' = fs_meta files"
    and cp: "fs_checkpoint files' = fs_checkpoint files" and w: "fs_wal files' = Some w"
  shows "\<exists>report'. open_prepare dir options io files' = Inr (m, offset, c, report') \<and> same_start report report'"
proof -
  let ?fresh = "\<lambda>f. empty_report\<lparr>rr_fresh_store := fs_wal f = None\<rparr>"
  obtain r where
    r: "open_manifest dir options io files (?fresh files) = Inr (m, r)"
      "checkpoint_offset (length (wal_of files)) (open_checkpoint dir options io files m
         (r\<lparr>rr_clean_shutdown := me_valid m \<and> me_clean_shutdown m\<rparr>)) = (offset, c, report)"
    using prep unfolding open_prepare_def rnf_try_Inr_iff by (elim exE conjE) (simp split: prod.splits)
  obtain r' where r': "open_manifest dir options io files' (?fresh files') = Inr (m, r')" "same_start r r'"
    using open_manifest_wal [OF r(1) meta] by blast
  let ?o = "open_checkpoint dir options io files m (r\<lparr>rr_clean_shutdown := me_valid m \<and> me_clean_shutdown m\<rparr>)"
  let ?o' = "open_checkpoint dir options io files' m (r'\<lparr>rr_clean_shutdown := me_valid m \<and> me_clean_shutdown m\<rparr>)"
  have "same_start (r\<lparr>rr_clean_shutdown := b\<rparr>) (r'\<lparr>rr_clean_shutdown := b\<rparr>)" for b
    using r'(2) by (simp add: same_start_def)
  then have o: "fst ?o' = fst ?o" "same_start (snd ?o) (snd ?o')"
    using open_checkpoint_report [OF _ cp] by blast+
  have "checkpoint_offset (length (wal_of files)) (fst ?o, snd ?o) = (offset, c, report)" using r(2) by simp
  from checkpoint_offset_longer [OF this kept o(2) log] obtain rep' where
    "checkpoint_offset (length w) (fst ?o, snd ?o') = (offset, c, rep')" "same_start report rep'" by blast
  then have "checkpoint_offset (length (wal_of files')) ?o' = (offset, c, rep')" using w
    by (simp add: o(1) [symmetric])
  with r'(1) \<open>same_start report rep'\<close> show ?thesis by (auto simp: open_prepare_def)
qed

end
