(* ===== verification/Rnf_Store_Recovery.thy ===== *)
theory Rnf_Store_Recovery
  imports Rnf_Store_Props
begin

text \<open>
  Crash recovery of the store. The log after a crash is the log of the acknowledged records followed
  by a part of the frame that was being written; opening it gives exactly those records back.
\<close>

section \<open>Appending\<close>

lemma store_append_effect:
  assumes "record_ok r" "store_append r io s = Some (st, s')" "op_max_record_bytes (so_options s) < 2 ^ 32"
    and "so_wal_open s" "fs_wal (so_files s) = Some w"
  shows "so_options s' = so_options s \<and> so_wal_open s' \<and>
     ((so_files s' = so_files s \<and> \<not> status_ok st) \<or>
      (loggable (so_options s) r \<and>
       (\<exists>k \<le> length (wal_frame (record_bytes r)).
          so_files s' = (so_files s)\<lparr>fs_wal := Some (w @ take k (wal_frame (record_bytes r)))\<rparr> \<and>
          (status_ok st \<longrightarrow> k = length (wal_frame (record_bytes r))))))"
proof -
  obtain est v where e: "encode_store_record r (bw_new (op_max_record_bytes (so_options s))) = Some (est, v)"
    "status_ok est \<longleftrightarrow> length (record_bytes r) \<le> op_max_record_bytes (so_options s)"
    "status_ok est \<Longrightarrow> bw_buffer v = record_bytes r"
    using encode_store_record_exact [OF assms(1)] by blast
  show ?thesis
  proof (cases "status_ok est")
    case False
    with assms e show ?thesis by (auto simp: store_append_def)
  next
    case True
    then have log: "loggable (so_options s) r" using e assms by (simp add: loggable_def)
    have buf: "bw_buffer v = record_bytes r" "length (record_bytes r) \<le> op_max_record_bytes (so_options s)"
      using e True by simp_all
    have ne: "record_bytes r \<noteq> []" by (simp add: record_bytes_def)
    show ?thesis
    proof (cases io)
      case Append_ok
      then show ?thesis using assms e(1) True log buf
        by (auto simp: store_append_def wal_write_def Let_def intro!: exI [of _ "length (wal_frame (record_bytes r))"])
    next
      case (Append_short_header k)
      then show ?thesis using assms e(1) True log buf
        by (auto simp: store_append_def wal_write_def Let_def kWalHeaderSize_def intro!: exI [of _ "min k 7"])
    next
      case (Append_short_body k)
      then show ?thesis using assms e(1) True log buf ne
        by (auto simp: store_append_def wal_write_def Let_def
            intro!: exI [of _ "kWalHeaderSize + min k (length (record_bytes r) - 1)"])
    next
      case (Append_sync_failed failure)
      then show ?thesis using assms e(1) True log buf
        by (auto simp: store_append_def wal_write_def Let_def intro!: exI [of _ "length (wal_frame (record_bytes r))"])
    qed
  qed
qed

lemma append_returns:
  assumes "loggable (so_options s) r"
  shows "\<exists>st s'. store_append r io s = Some (st, s')"
proof -
  obtain est v where "encode_store_record r (bw_new (op_max_record_bytes (so_options s))) = Some (est, v)"
    using encode_store_record_exact [of r "op_max_record_bytes (so_options s)"] assms by (auto simp: loggable_def)
  then show ?thesis by (cases "so_wal_open s") (simp_all add: store_append_def)
qed

lemma append_encoded:
  assumes "loggable (so_options s) r" "so_wal_open s"
  obtains v where "encode_store_record r (bw_new (op_max_record_bytes (so_options s))) = Some (ok_status, v)"
    "bw_buffer v = record_bytes r" "length (record_bytes r) \<le> op_max_record_bytes (so_options s)"
  using encode_store_record_exact [of r "op_max_record_bytes (so_options s)"] assms that
  by (auto simp: loggable_def)

lemma append_ok_succeeds:
  assumes "loggable (so_options s) r" "so_wal_open s"
  shows "\<exists>s'. store_append r Append_ok s = Some (ok_status, s') \<and> so_options s' = so_options s \<and> so_wal_open s' \<and>
     so_files s' = (so_files s)\<lparr>fs_wal := Some (wal_of (so_files s) @ wal_frame (record_bytes r))\<rparr>"
proof -
  obtain v where "encode_store_record r (bw_new (op_max_record_bytes (so_options s))) = Some (ok_status, v)"
    "bw_buffer v = record_bytes r" "length (record_bytes r) \<le> op_max_record_bytes (so_options s)"
    using append_encoded [OF assms] .
  then show ?thesis using assms(2) by (simp add: store_append_def wal_write_def Let_def)
qed

lemma append_short_header:
  assumes "loggable (so_options s) r" "so_wal_open s"
  shows "\<exists>s'. store_append r (Append_short_header k) s =
       Some (Status kIo ''short write of the log record header'', s') \<and> so_options s' = so_options s \<and> so_wal_open s' \<and>
     so_files s' = (so_files s)\<lparr>fs_wal := Some (wal_of (so_files s) @ take (min k 7) (wal_frame (record_bytes r)))\<rparr>"
proof -
  obtain v where "encode_store_record r (bw_new (op_max_record_bytes (so_options s))) = Some (ok_status, v)"
    "bw_buffer v = record_bytes r" "length (record_bytes r) \<le> op_max_record_bytes (so_options s)"
    using append_encoded [OF assms] .
  then show ?thesis using assms(2) by (simp add: store_append_def wal_write_def Let_def)
qed

text \<open>A run of appends that all succeed.\<close>

fun store_appends :: "store_record list \<Rightarrow> store \<Rightarrow> store option" where
  "store_appends [] s = Some s"
| "store_appends (r # rs) s =
     (case store_append r Append_ok s of
        None \<Rightarrow> None
      | Some (st, s) \<Rightarrow> if status_ok st then store_appends rs s else None)"

lemma store_appends_effect:
  assumes "store_appends rs s = Some s'" "\<forall>r\<in>set rs. record_ok r"
    "op_max_record_bytes (so_options s) < 2 ^ 32" "so_wal_open s" "fs_wal (so_files s) = Some w"
  shows "so_options s' = so_options s \<and> so_wal_open s' \<and> (\<forall>r\<in>set rs. loggable (so_options s) r) \<and>
     so_files s' = (so_files s)\<lparr>fs_wal := Some (w @ log_bytes rs)\<rparr>"
  using assms
proof (induction rs arbitrary: s w)
  case Nil
  then show ?case by simp
next
  case (Cons r rs)
  from Cons.prems obtain st s1 where
    s1: "store_append r Append_ok s = Some (st, s1)" "status_ok st" "store_appends rs s1 = Some s'"
    by (auto split: option.splits if_splits)
  have eff: "so_options s1 = so_options s" "so_wal_open s1" "loggable (so_options s) r"
    "so_files s1 = (so_files s)\<lparr>fs_wal := Some (w @ wal_frame (record_bytes r))\<rparr>"
    using store_append_effect [OF _ s1(1)] Cons.prems s1(2) by auto
  from Cons.IH [OF s1(3), of "w @ wal_frame (record_bytes r)"] Cons.prems eff show ?case by simp
qed

lemma store_appends_succeed:
  assumes "\<forall>r\<in>set rs. loggable (so_options s) r" "so_wal_open s"
  shows "\<exists>s'. store_appends rs s = Some s' \<and> so_options s' = so_options s \<and> so_wal_open s'"
  using assms
proof (induction rs arbitrary: s)
  case Nil
  then show ?case by simp
next
  case (Cons r rs)
  then obtain s1 where "store_append r Append_ok s = Some (ok_status, s1)" "so_options s1 = so_options s"
    "so_wal_open s1"
    using append_ok_succeeds [of s r] by auto
  with Cons.IH [of s1] Cons.prems show ?case by simp
qed

section \<open>Opening after a crash\<close>

lemma replay_tail:
  assumes "loggable opts r" "k \<le> length (wal_frame (record_bytes r))"
  shows "\<exists>rep. replay opts n (take k (wal_frame (record_bytes r))) s =
     (accept_all (if k = length (wal_frame (record_bytes r)) then [r] else []) s)\<lparr>rp_report := rep\<rparr>"
proof -
  consider "k = 0" | "k = length (wal_frame (record_bytes r))" | "0 < k" "k < length (wal_frame (record_bytes r))"
    using assms(2) by linarith
  then show ?thesis
  proof cases
    case 1
    then show ?thesis by (auto simp: kWalHeaderSize_def intro: exI [of _ "rp_report s"])
  next
    case 2
    then show ?thesis
      using replay_frame [OF assms(1), of n "[]" s]
      by (auto intro: exI [of _ "rp_report (accept_record r (length (record_bytes r)) s)"])
  next
    case 3
    then show ?thesis
      using replay_cut_frame [of "record_bytes r" opts k n s] assms(1)
      by (auto simp: loggable_def torn_def)
  qed
qed

lemma open_prepare_clean:
  assumes "open_prepare dir options io files = Inr (m, offset, c, report)"
  shows "\<not> rr_corrupt_record report \<and> \<not> rr_truncated_tail report"
proof -
  let ?clean = "\<lambda>r. \<not> rr_corrupt_record r \<and> \<not> rr_truncated_tail r"
  obtain r where
    r: "open_manifest dir options io files (empty_report\<lparr>rr_fresh_store := fs_wal files = None\<rparr>) = Inr (m, r)"
      "checkpoint_offset (length (wal_of files)) (open_checkpoint dir options io files m
         (r\<lparr>rr_clean_shutdown := me_valid m \<and> me_clean_shutdown m\<rparr>)) = (offset, c, report)"
    using assms unfolding open_prepare_def rnf_try_Inr_iff by (elim exE conjE) (simp split: prod.splits)
  have "?clean r"
    using r(1) by (auto simp: open_manifest_def Let_def empty_report_def split: option.splits sum.splits if_splits)
  then have "?clean (snd (open_checkpoint dir options io files m (r\<lparr>rr_clean_shutdown := b\<rparr>)))" for b
    by (simp add: open_checkpoint_def split: sum.split)
  moreover have "?clean (snd x) \<Longrightarrow> ?clean (snd (snd (checkpoint_offset n x)))" for n x
    by (cases x) (simp add: checkpoint_offset_def Let_def)
  ultimately show ?thesis using r(2) by (metis snd_conv)
qed

lemma wal_of_Some [simp]: "wal_of (f\<lparr>fs_wal := Some w\<rparr>) = w"
  by simp

text \<open>
  The log that a store opened on, grown by complete records and a partial frame: it opens again on
  the same manifest and checkpoint, and recovers what it had followed by the new records.
\<close>

lemma reopen_grown:
  assumes o: "store_open dir options io files = Inr s" and kept: "\<not> rr_checkpoint_rejected (so_report s)"
    and io: "oi_truncate io" "oi_seek_end io"
    and rs: "\<forall>r\<in>set rs. loggable options r"
    and tail: "\<And>n t. \<exists>rep. replay options n tail t = (accept_all new t)\<lparr>rp_report := rep\<rparr>"
    and w: "fs_wal (so_files s) = Some w"
  shows "\<exists>s'. store_open dir options io
           ((so_files s)\<lparr>fs_wal := Some (w @ log_bytes rs @ tail)\<rparr>) = Inr s' \<and> so_records s' = so_records s @ rs @ new"
proof -
  obtain m offset c report rep where
    prep: "open_prepare dir options io files = Inr (m, offset, c, report)" and
    le: "offset \<le> length (wal_of files)" and
    rec: "recoverable options (drop offset (wal_of files)) (so_records s)" and
    s: "s = opened dir options files (m, offset, c, report)
      ((accept_all (so_records s) (replay_start offset report))\<lparr>rp_report := rep\<rparr>)" and
    start: "same_start rep report"
    using store_open_recovers [OF o] by metis
  let ?w = "w @ log_bytes rs @ tail"
  let ?f = "(so_files s)\<lparr>fs_wal := Some ?w\<rparr>"
  have fs: "so_files s = files\<lparr>fs_wal := Some (take offset (wal_of files) @ log_bytes (so_records s))\<rparr>"
    by (subst s, rule opened_fields(2) [OF rec le])
  with w have w': "w = take offset (wal_of files) @ log_bytes (so_records s)" by simp
  have "rr_checkpoint_rejected (so_report s) = rr_checkpoint_rejected rep"
    by (subst s) (simp add: opened_def Let_def)
  with kept start have "\<not> rr_checkpoint_rejected report" by (simp add: same_start_def)
  then obtain report' where
    prep': "open_prepare dir options io ?f = Inr (m, offset, c, report')"
    using open_prepare_longer [OF prep, of ?w ?f] le by (auto simp: fs w')
  have all: "\<forall>r\<in>set (so_records s @ rs). loggable options r" using rec rs by (auto simp: recoverable_def)
  have drop: "drop offset ?w = log_bytes (so_records s @ rs) @ tail" using le by (simp add: w')
  obtain rep' where rep': "replay options (length ?w) (drop offset ?w) (replay_start offset report') =
      (accept_all new (accept_all (so_records s @ rs) (replay_start offset report')))\<lparr>rp_report := rep'\<rparr>"
    using tail [of "length ?w"] unfolding drop replay_log [OF all] by blast
  define t where "t = replay options (length ?w) (drop offset ?w) (replay_start offset report')"
  have "store_open dir options io ?f = Inr (opened dir options ?f (m, offset, c, report') t)"
    using o prep' io unfolding store_open_Inr_iff t_def by auto
  moreover have "rp_records t = so_records s @ rs @ new"
    unfolding t_def rep' by (simp add: accept_all_fields replay_start_def)
  ultimately show ?thesis by (auto simp: opened_def Let_def)
qed

lemma opened_state:
  assumes "store_open dir options io files = Inr s"
  obtains w where "so_options s = options" "so_wal_open s" "fs_wal (so_files s) = Some w"
  using assms unfolding store_open_Inr_iff by (auto simp: opened_def Let_def)

section \<open>Properties\<close>

text \<open>
  (C30) Recovery is exact on every log, damaged or not: a successful open recovers the longest
  sequence of well formed records that starts where the checkpoint (if one was used) ends, and cuts
  the log right after it.
\<close>

theorem recovery_longest_prefix:
  assumes "store_open dir options io files = Inr s"
  shows "\<exists>offset \<le> length (wal_of files).
     offset = (if rr_checkpoint_used (so_report s) then unat (cp_wal_offset (so_checkpoint s)) else 0) \<and>
     recoverable options (drop offset (wal_of files)) (so_records s) \<and>
     fs_wal (so_files s) = Some (take offset (wal_of files) @ log_bytes (so_records s)) \<and>
     so_log_bytes s = offset + length (log_bytes (so_records s))"
proof -
  obtain m offset c report rep where
    prep: "open_prepare dir options io files = Inr (m, offset, c, report)" and
    le: "offset \<le> length (wal_of files)" and
    rec: "recoverable options (drop offset (wal_of files)) (so_records s)" and
    s: "s = opened dir options files (m, offset, c, report)
      ((accept_all (so_records s) (replay_start offset report))\<lparr>rp_report := rep\<rparr>)" and
    start: "same_start rep report"
    using store_open_recovers [OF assms] by metis
  have "rr_checkpoint_used (so_report s) = rr_checkpoint_used rep" "rr_checkpoint_used rep \<Longrightarrow>
      cp_wal_offset (so_checkpoint s) = cp_wal_offset c"
    by (subst s; simp add: opened_def Let_def)+
  then have "offset = (if rr_checkpoint_used (so_report s) then unat (cp_wal_offset (so_checkpoint s)) else 0)"
    using open_prepare_start [OF prep] start by (simp add: same_start_def)
  moreover have "fs_wal (so_files s) = Some (take offset (wal_of files) @ log_bytes (so_records s))"
    "so_log_bytes s = offset + length (log_bytes (so_records s))"
    by (subst s, simp add: opened_fields [OF rec le])+
  ultimately show ?thesis using le rec by blast
qed

text \<open>The shutdown record of the samples, the options they run with, and a store without files.\<close>

definition sample_record :: "timestamp_ms \<Rightarrow> store_record" where
  "sample_record t = \<lparr>sr_type = RecordType_kCleanShutdown, sr_payload = SP_Shutdown t\<rparr>"

definition no_files :: store_files where
  "no_files = \<lparr>fs_meta = None, fs_checkpoint = None, fs_previous = None, fs_wal = None\<rparr>"

lemma sample_loggable [simp]: "loggable default_store_options (sample_record t)"
  by (simp add: loggable_def sample_record_def record_ok_def record_bytes_def default_store_options_def)

lemma sample_prepare:
  "open_prepare dir options open_io_ok (no_files\<lparr>fs_wal := Some w\<rparr>) =
     Inr (empty_meta, 0, empty_checkpoint, empty_report\<lparr>rr_manifest_missing := True\<rparr>)"
  by (simp add: open_prepare_def open_manifest_def no_files_def open_checkpoint_def empty_meta_def
      checkpoint_offset_def empty_report_def)

abbreviation sample_start :: replay_state where
  "sample_start \<equiv> replay_start 0 (empty_report\<lparr>rr_manifest_missing := True\<rparr>)"

lemma sample_open:
  "store_open dir options open_io_ok (no_files\<lparr>fs_wal := Some w\<rparr>) =
     Inr (opened dir options (no_files\<lparr>fs_wal := Some w\<rparr>)
       (empty_meta, 0, empty_checkpoint, empty_report\<lparr>rr_manifest_missing := True\<rparr>)
       (replay options (length w) w sample_start))"
  unfolding store_open_Inr_iff sample_prepare by (auto simp: open_io_ok_def)

theorem recovery_longest_prefix_witness:
  "\<exists>s. store_open ''d'' default_store_options open_io_ok
         (no_files\<lparr>fs_wal := Some (log_bytes [sample_record 7] @ [1, 2, 3])\<rparr>) = Inr s \<and>
       so_records s = [sample_record 7] \<and>
       fs_wal (so_files s) = Some (log_bytes [sample_record 7])"
proof -
  let ?w = "log_bytes [sample_record 7] @ [1, 2, 3]"
  obtain s where s: "store_open ''d'' default_store_options open_io_ok (no_files\<lparr>fs_wal := Some ?w\<rparr>) = Inr s"
    "s = opened ''d'' default_store_options (no_files\<lparr>fs_wal := Some ?w\<rparr>)
       (empty_meta, 0, empty_checkpoint, empty_report\<lparr>rr_manifest_missing := True\<rparr>)
       (replay default_store_options (length ?w) ?w sample_start)"
    using sample_open by blast
  have "replay default_store_options (length ?w) [1, 2, 3] t = torn t" for t
    by (subst replay.simps) (simp add: kWalHeaderSize_def)
  then have "replay default_store_options (length ?w) ?w sample_start = torn (accept_all [sample_record 7] sample_start)"
    using replay_log [of "[sample_record 7]" default_store_options "length ?w" "[1, 2, 3]"] by simp
  then have rec: "so_records s = [sample_record 7]" "\<not> rr_checkpoint_used (so_report s)"
    by (simp_all add: s(2) opened_def Let_def torn_def accept_all_fields replay_start_def empty_report_def
        del: accept_all_simps)
  with recovery_longest_prefix [OF s(1)] s(1) show ?thesis by auto
qed

text \<open>
  Recovery is idempotent: what an open left behind opens again with the same records, nothing is
  discarded, and neither a torn nor a corrupt record is reported, unless the first open had to reject
  the checkpoint.
\<close>

theorem recovery_idempotent:
  assumes o: "store_open dir options io files = Inr s" and kept: "\<not> rr_checkpoint_rejected (so_report s)"
  shows "\<exists>s'. store_open dir options io (so_files s) = Inr s' \<and> so_records s' = so_records s \<and>
     so_files s' = so_files s \<and> rr_bytes_discarded (so_report s') = 0 \<and>
     \<not> rr_corrupt_record (so_report s') \<and> \<not> rr_truncated_tail (so_report s')"
proof -
  obtain m offset c report rep where
    prep: "open_prepare dir options io files = Inr (m, offset, c, report)" and
    le: "offset \<le> length (wal_of files)" and
    rec: "recoverable options (drop offset (wal_of files)) (so_records s)" and
    s: "s = opened dir options files (m, offset, c, report)
      ((accept_all (so_records s) (replay_start offset report))\<lparr>rp_report := rep\<rparr>)" and
    start: "same_start rep report"
    using store_open_recovers [OF o] by metis
  let ?w = "take offset (wal_of files) @ log_bytes (so_records s)"
  have fs: "so_files s = files\<lparr>fs_wal := Some ?w\<rparr>" by (subst s, rule opened_fields(2) [OF rec le])
  have "rr_checkpoint_rejected (so_report s) = rr_checkpoint_rejected rep"
    by (subst s) (simp add: opened_def Let_def)
  with kept start have "\<not> rr_checkpoint_rejected report" by (simp add: same_start_def)
  then obtain report' where
    prep': "open_prepare dir options io (so_files s) = Inr (m, offset, c, report')"
    using open_prepare_longer [OF prep, of ?w "so_files s"] le by (auto simp: fs)
  have fresh: "\<not> rr_corrupt_record report' \<and> \<not> rr_truncated_tail report'"
    using open_prepare_clean [OF prep'] .
  have all: "\<forall>r\<in>set (so_records s). loggable options r" using rec by (simp add: recoverable_def)
  have "drop offset ?w = log_bytes (so_records s)" using le by simp
  with replay_log [OF all, of "length ?w" "[]"]
  have t: "replay options (length ?w) (drop offset ?w) (replay_start offset report') =
      accept_all (so_records s) (replay_start offset report')" by simp
  have "rp_cursor (accept_all (so_records s) (replay_start offset report')) = length ?w"
    using le by (simp add: accept_all_fields replay_start_def)
  with o prep' t have "store_open dir options io (so_files s) =
      Inr (opened dir options (so_files s) (m, offset, c, report') (accept_all (so_records s) (replay_start offset report')))"
    unfolding store_open_Inr_iff by (auto simp: fs)
  with fresh le show ?thesis
    by (auto simp: opened_def Let_def accept_all_fields replay_start_def fs)
qed

theorem recovery_idempotent_witness:
  "\<exists>s s'. store_open ''d'' default_store_options open_io_ok
         (no_files\<lparr>fs_wal := Some (log_bytes [sample_record 7])\<rparr>) = Inr s \<and>
       store_open ''d'' default_store_options open_io_ok (so_files s) = Inr s' \<and>
       so_records s' = [sample_record 7]"
proof -
  let ?w = "log_bytes [sample_record 7]"
  obtain s where s: "store_open ''d'' default_store_options open_io_ok (no_files\<lparr>fs_wal := Some ?w\<rparr>) = Inr s"
    "s = opened ''d'' default_store_options (no_files\<lparr>fs_wal := Some ?w\<rparr>)
       (empty_meta, 0, empty_checkpoint, empty_report\<lparr>rr_manifest_missing := True\<rparr>)
       (replay default_store_options (length ?w) ?w sample_start)"
    using sample_open by blast
  have "replay default_store_options (length ?w) ?w sample_start = accept_all [sample_record 7] sample_start"
    using replay_log [of "[sample_record 7]" default_store_options "length ?w" "[]"] by simp
  then have "so_records s = [sample_record 7]" "\<not> rr_checkpoint_rejected (so_report s)"
    by (simp_all add: s(2) opened_def Let_def accept_all_fields replay_start_def empty_report_def
        del: accept_all_simps)
  with recovery_idempotent [OF s(1)] s(1) show ?thesis by metis
qed

text \<open>
  (C29) A record whose append was acknowledged survives a crash. After an open that rejected no checkpoint,
  a run of successful appends of well formed records and one more append of a well formed record that is
  interrupted anywhere, the next open, with the same options and system calls that succeed, recovers what
  was there, then every acknowledged record in order, and the interrupted record either completely or not
  at all. If that append was acknowledged too, it is recovered. A record is well formed (\<open>record_ok\<close>) when
  its type is that of its payload, its texts are within their bounds and its evidence validates; the record
  bound of the options is below the 32 bits of the length field.
\<close>

theorem acknowledged_records_survive:
  assumes o: "store_open dir options io files = Inr s" and kept: "\<not> rr_checkpoint_rejected (so_report s)"
    and io: "oi_truncate io" "oi_seek_end io" and bound: "op_max_record_bytes options < 2 ^ 32"
    and rs: "\<forall>r\<in>set rs. record_ok r" "store_appends rs s = Some s1"
    and r: "record_ok r" "store_append r aio s1 = Some (st, s2)"
  shows "\<exists>s3. store_open dir options io (so_files s2) = Inr s3 \<and>
     (so_records s3 = so_records s @ rs @ [r] \<or>
      so_records s3 = so_records s @ rs \<and> \<not> status_ok st)"
proof -
  obtain w where op: "so_options s = options" "so_wal_open s" and w: "fs_wal (so_files s) = Some w"
    using opened_state [OF o] .
  have eff: "so_options s1 = options" "so_wal_open s1" "\<forall>r\<in>set rs. loggable options r"
    "so_files s1 = (so_files s)\<lparr>fs_wal := Some (w @ log_bytes rs)\<rparr>"
    using store_appends_effect [OF rs(2,1) _ op(2) w] bound op(1) by simp_all
  have last: "so_files s2 = so_files s1 \<and> \<not> status_ok st \<or>
      loggable options r \<and> (\<exists>k \<le> length (wal_frame (record_bytes r)).
        so_files s2 = (so_files s1)\<lparr>fs_wal := Some ((w @ log_bytes rs) @ take k (wal_frame (record_bytes r)))\<rparr> \<and>
        (status_ok st \<longrightarrow> k = length (wal_frame (record_bytes r))))"
    using store_append_effect [OF r, of "w @ log_bytes rs"] bound eff by (simp del: wal_of_Some)
  show ?thesis
    using last
  proof
    assume *: "so_files s2 = so_files s1 \<and> \<not> status_ok st"
    have "\<exists>rep. replay options n [] t = (accept_all [] t)\<lparr>rp_report := rep\<rparr>" for n t
      by (auto intro: exI [of _ "rp_report t"])
    from reopen_grown [OF o kept io eff(3) this w] * eff(4) show ?thesis by auto
  next
    assume "loggable options r \<and> (\<exists>k \<le> length (wal_frame (record_bytes r)).
        so_files s2 = (so_files s1)\<lparr>fs_wal := Some ((w @ log_bytes rs) @ take k (wal_frame (record_bytes r)))\<rparr> \<and>
        (status_ok st \<longrightarrow> k = length (wal_frame (record_bytes r))))"
    then obtain k where k: "loggable options r" "k \<le> length (wal_frame (record_bytes r))"
      "so_files s2 = (so_files s1)\<lparr>fs_wal := Some ((w @ log_bytes rs) @ take k (wal_frame (record_bytes r)))\<rparr>"
      "status_ok st \<longrightarrow> k = length (wal_frame (record_bytes r))" by blast
    from reopen_grown [OF o kept io eff(3) replay_tail [OF k(1,2)] w] k(3,4) eff(4) show ?thesis by (auto split: if_splits)
  qed
qed

theorem acknowledged_records_survive_witness:
  "\<exists>s s1 s2 s3 st. store_open ''d'' default_store_options open_io_ok (no_files\<lparr>fs_wal := Some []\<rparr>) = Inr s \<and>
     store_appends [sample_record 1, sample_record 2] s = Some s1 \<and>
     store_append (sample_record 3) (Append_short_body 4) s1 = Some (st, s2) \<and>
     store_open ''d'' default_store_options open_io_ok (so_files s2) = Inr s3 \<and>
     take 2 (so_records s3) = [sample_record 1, sample_record 2]"
proof -
  obtain s where s: "store_open ''d'' default_store_options open_io_ok (no_files\<lparr>fs_wal := Some []\<rparr>) = Inr s"
    "so_options s = default_store_options" "so_wal_open s" "so_records s = []"
    "\<not> rr_checkpoint_rejected (so_report s)"
    by (simp add: sample_open opened_def Let_def replay_start_def empty_report_def)
  obtain s1 where s1: "store_appends [sample_record 1, sample_record 2] s = Some s1"
    "so_options s1 = default_store_options" "so_wal_open s1"
    using store_appends_succeed [of "[sample_record 1, sample_record 2]" s] s(2,3) by auto
  obtain st s2 where s2: "store_append (sample_record 3) (Append_short_body 4) s1 = Some (st, s2)"
    using append_returns [of s1 "sample_record 3" "Append_short_body 4"] s1(2,3) by auto
  have ok: "record_ok (sample_record t)" for t using sample_loggable [of t] by (simp add: loggable_def)
  obtain s3 where "store_open ''d'' default_store_options open_io_ok (so_files s2) = Inr s3"
    "so_records s3 = [sample_record 1, sample_record 2, sample_record 3] \<or>
     so_records s3 = [sample_record 1, sample_record 2]"
    using acknowledged_records_survive [OF s(1,5) _ _ _ _ s1(1) ok s2]
    by (auto simp: open_io_ok_def default_store_options_def ok s(4))
  with s(1) s1(1) s2 show ?thesis by fastforce
qed

text \<open>
  (C34) A damaged byte is noticed. Take a log that holds, after the place where the replay starts (the offset
  of the checkpoint if one is used, the beginning otherwise), well formed records and then a record one byte
  of whose payload has changed, followed by anything: a successful open recovers exactly the records between
  that place and the damaged one, and cuts the log before the damaged one.
\<close>

theorem damaged_record_stops_recovery:
  assumes o: "store_open dir options io (files\<lparr>fs_wal := Some
      (head @ log_bytes rs @ store_le 4 (of_nat (length (p @ [a] @ q)) :: u32) @
       store_le 4 (crc32c (p @ [a] @ q)) @ (p @ [b] @ q) @ t)\<rparr>) = Inr s"
    and "length head = (if rr_checkpoint_used (so_report s) then unat (cp_wal_offset (so_checkpoint s)) else 0)"
    and "\<forall>r\<in>set rs. loggable options r" "length (p @ [a] @ q) < 2 ^ 32" "a \<noteq> b"
  shows "so_records s = rs \<and> fs_wal (so_files s) = Some (head @ log_bytes rs)"
proof -
  let ?bad = "store_le 4 (of_nat (length (p @ [b] @ q)) :: u32) @ store_le 4 (crc32c (p @ [a] @ q)) @
    (p @ [b] @ q) @ t"
  define w where "w = head @ log_bytes rs @ ?bad"
  define f where "f = files\<lparr>fs_wal := Some w\<rparr>"
  have wal: "wal_of f = w" by (simp add: f_def)
  have "store_open dir options io f = Inr s" using o by (simp add: f_def w_def)
  then obtain m offset c report rep where
    prep: "open_prepare dir options io f = Inr (m, offset, c, report)" and
    le: "offset \<le> length (wal_of f)" and
    rec: "recoverable options (drop offset (wal_of f)) (so_records s)" and
    s: "s = opened dir options f (m, offset, c, report)
      ((accept_all (so_records s) (replay_start offset report))\<lparr>rp_report := rep\<rparr>)" and
    eq: "replay options (length (wal_of f)) (drop offset (wal_of f)) (replay_start offset report) =
       (accept_all (so_records s) (replay_start offset report))\<lparr>rp_report := rep\<rparr>" and
    start: "same_start rep report"
    by (rule store_open_recovers)
  have "rr_checkpoint_used (so_report s) = rr_checkpoint_used rep" "rr_checkpoint_used rep \<Longrightarrow>
      cp_wal_offset (so_checkpoint s) = cp_wal_offset c"
    by (subst s; simp add: opened_def Let_def)+
  with assms(2) start have off: "offset = length head" using open_prepare_start [OF prep] by (simp add: same_start_def)
  have tail: "drop offset w = log_bytes rs @ ?bad"
    unfolding off w_def by (rule append_eq_conv_conj [THEN iffD1, THEN conjunct2, symmetric, OF refl])
  have "crc32c (p @ [b] @ q) \<noteq> crc32c (p @ [a] @ q)" using crc32c_detects_byte [of p b q a] assms(5) by auto
  moreover have "length (p @ [b] @ q) < 2 ^ 32" using assms(4) by simp
  ultimately obtain rep' where "replay options (length w) ?bad (accept_all rs (replay_start offset report)) =
      (accept_all rs (replay_start offset report))\<lparr>rp_report := rep'\<rparr>"
    using replay_bad_checksum by blast
  with eq replay_log [OF assms(3), of "length w" ?bad]
  have "(accept_all (so_records s) (replay_start offset report))\<lparr>rp_report := rep\<rparr> =
      (accept_all rs (replay_start offset report))\<lparr>rp_report := rep'\<rparr>"
    by (simp only: tail wal)
  then have "rp_records ((accept_all (so_records s) (replay_start offset report))\<lparr>rp_report := rep\<rparr>) =
      rp_records ((accept_all rs (replay_start offset report))\<lparr>rp_report := rep'\<rparr>)" by (rule arg_cong)
  then have "so_records s = rs" by (simp add: accept_all_fields replay_start_def)
  moreover have "fs_wal (so_files s) = Some (head @ log_bytes (so_records s))"
    by (subst s, subst opened_fields(2) [OF rec le]) (simp add: off wal w_def)
  ultimately show ?thesis by simp
qed

theorem damaged_record_stops_recovery_witness:
  "\<exists>s. store_open ''d'' default_store_options open_io_ok
         (no_files\<lparr>fs_wal := Some (log_bytes [sample_record 7] @ store_le 4 (3 :: u32) @
            store_le 4 (crc32c [1, 2, 3]) @ [1, 9, 3] @ [])\<rparr>) = Inr s \<and>
       so_records s = [sample_record 7]"
proof -
  let ?bad = "store_le 4 (3 :: u32) @ store_le 4 (crc32c [1, 2, 3]) @ [1, 9, 3] @ []"
  let ?w = "log_bytes [sample_record 7] @ ?bad"
  obtain s where s: "store_open ''d'' default_store_options open_io_ok (no_files\<lparr>fs_wal := Some ?w\<rparr>) = Inr s"
    "s = opened ''d'' default_store_options (no_files\<lparr>fs_wal := Some ?w\<rparr>)
       (empty_meta, 0, empty_checkpoint, empty_report\<lparr>rr_manifest_missing := True\<rparr>)
       (replay default_store_options (length ?w) ?w sample_start)"
    using sample_open by blast
  have "\<not> rr_checkpoint_used (rp_report (replay default_store_options (length ?w) ?w sample_start))"
    using replay_recoverable [of default_store_options ?w sample_start "length ?w"]
    by (auto simp: same_start_def replay_start_def empty_report_def)
  then have "\<not> rr_checkpoint_used (so_report s)" by (simp add: s(2) opened_def Let_def)
  with damaged_record_stops_recovery [where dir = "''d''" and options = default_store_options and
      io = open_io_ok and files = no_files and head = "[]" and rs = "[sample_record 7]" and p = "[1]" and a = 2 and
      q = "[3]" and b = 9 and t = "[]" and s = s] s(1)
  show ?thesis by simp
qed

text \<open>
  What the store does not promise. A short write leaves its bytes in the log and the file
  position after them; an append that follows is acknowledged, but the next open stops at the torn
  bytes and does not recover it.
\<close>

theorem append_after_failed_append_is_lost:
  "\<exists>s s1 s2 s3 st. store_open ''d'' default_store_options open_io_ok (no_files\<lparr>fs_wal := Some []\<rparr>) = Inr s \<and>
     store_append (sample_record 1) (Append_short_header 3) s = Some (st, s1) \<and> \<not> status_ok st \<and>
     store_append (sample_record 2) Append_ok s1 = Some (ok_status, s2) \<and>
     store_open ''d'' default_store_options open_io_ok (so_files s2) = Inr s3 \<and> so_records s3 = []"
proof -
  obtain s where s: "store_open ''d'' default_store_options open_io_ok (no_files\<lparr>fs_wal := Some []\<rparr>) = Inr s"
    "so_options s = default_store_options" "so_wal_open s" "so_files s = no_files\<lparr>fs_wal := Some []\<rparr>"
    by (simp add: sample_open opened_def Let_def replay_start_def)
  have frame: "\<exists>u. wal_frame (record_bytes (sample_record t)) = [9, 0, 0, 0] @ u" for t
  proof -
    have "store_le 4 (9 :: u32) = [9, 0, 0, 0]" by code_simp
    then show ?thesis by (simp add: wal_frame_def sample_record_def record_bytes_def)
  qed
  obtain u v where u: "wal_frame (record_bytes (sample_record 1)) = [9, 0, 0, 0] @ u"
    and v: "wal_frame (record_bytes (sample_record 2)) = [9, 0, 0, 0] @ v" using frame by metis
  obtain s1 where s1: "store_append (sample_record 1) (Append_short_header 3) s =
      Some (Status kIo ''short write of the log record header'', s1)"
    "so_options s1 = default_store_options" "so_wal_open s1" "so_files s1 = no_files\<lparr>fs_wal := Some [9, 0, 0]\<rparr>"
    using append_short_header [of s "sample_record 1" 3] s u by auto
  obtain s2 where s2: "store_append (sample_record 2) Append_ok s1 = Some (ok_status, s2)"
    "so_files s2 = no_files\<lparr>fs_wal := Some ([9, 0, 0, 9] @ [0, 0, 0] @ v)\<rparr>"
    using append_ok_succeeds [of s1 "sample_record 2"] s1 v by auto
  have "(load_le 4 [9, 0, 0, 9] :: u32) = 150994953" by code_simp
  moreover have "length ([9, 0, 0, 9] @ [0, 0, 0] @ v) \<ge> 8"
    using arg_cong [OF v, of length] by (simp add: kWalHeaderSize_def sample_record_def record_bytes_def)
  ultimately have "\<exists>e. replay default_store_options n ([9, 0, 0, 9] @ [0, 0, 0] @ v) t = corrupt e t" for n t
    by (subst replay.simps) (auto simp: kWalHeaderSize_def default_store_options_def)
  then have "\<exists>s3. store_open ''d'' default_store_options open_io_ok (so_files s2) = Inr s3 \<and> so_records s3 = []"
    unfolding s2(2) sample_open
    by (auto simp: opened_def Let_def) (metis corrupt_def replay_start_def replay_state.simps)
  with s(1) s1(1) s2(1) show ?thesis by auto
qed

end
