(* ===== verification/Rnf_Store_Files.thy ===== *)
theory Rnf_Store_Files
  imports Rnf_Store_Recovery
begin

text \<open>
  The two fixed layout files of the store. The manifest and the checkpoint are written into zeroed
  buffers at fixed offsets with a checksum over the whole, and read back field by field; both round
  trip. From the manifest follows what fencing rests on: the incarnation counter strictly increases
  over every restart.
\<close>

section \<open>Fields at fixed offsets\<close>

lemma length_put_at [simp]: "off + length xs \<le> length buf \<Longrightarrow> length (put_at off xs buf) = length buf"
  by (simp add: put_at_def)

lemma get_at_put_same:
  "off + length xs \<le> length buf \<Longrightarrow> n = length xs \<Longrightarrow> get_at off n (put_at off xs buf) = xs"
  by (simp add: put_at_def get_at_def)

lemma get_at_put_other:
  assumes "off + length xs \<le> length buf" "i + n \<le> off \<or> off + length xs \<le> i"
  shows "get_at i n (put_at off xs buf) = get_at i n buf"
  using assms(2)
proof
  assume "i + n \<le> off"
  then show ?thesis using assms(1) by (simp add: get_at_def put_at_def drop_take min_def) auto
next
  assume "off + length xs \<le> i"
  then show ?thesis using assms(1) by (simp add: get_at_def put_at_def)
qed

lemma put_at_twice: "off + length xs \<le> length buf \<Longrightarrow> length ys = length xs \<Longrightarrow>
    put_at off ys (put_at off xs buf) = put_at off ys buf"
  by (simp add: put_at_def)

lemma put_at_same: "off + length xs \<le> length buf \<Longrightarrow> get_at off (length xs) buf = xs \<Longrightarrow> put_at off xs buf = buf"
  unfolding put_at_def get_at_def by (metis add.commute append_take_drop_id drop_drop)

lemma get_at_replicate: "i + n \<le> k \<Longrightarrow> get_at i n (replicate k x) = replicate n x"
  by (simp add: get_at_def)

lemma nth_get_at: "i < length buf \<Longrightarrow> buf ! i = hd (get_at i (Suc 0) buf)"
  by (simp add: get_at_def Cons_nth_drop_Suc [symmetric])

lemma get_at_append: "i + n \<le> length xs \<Longrightarrow> get_at i n (xs @ ys) = get_at i n xs"
  by (simp add: get_at_def)

lemmas field_simps = get_at_put_same get_at_put_other get_at_replicate

lemma store_le_zero: "store_le n (0 :: 'a::len word) = replicate n 0"
  by (simp add: store_le_def map_replicate_const)

lemma length_magic [simp]: "length kMetaMagic = 8" "length kCheckpointMagic = 8"
  by (simp_all add: kMetaMagic_def kCheckpointMagic_def)

section \<open>The manifest\<close>

definition meta_ok :: "meta \<Rightarrow> bool" where
  "meta_ok m \<longleftrightarrow> length (me_snapshot_digest m) = 32 \<and> length (me_ledger_digest m) = 32"

text \<open>The manifest before its checksum is stored.\<close>

definition meta_body :: "meta \<Rightarrow> u8 list" where
  "meta_body m =
     put_at 136 (store_le 8 (me_clean_shutdown_at_ms m)) (put_at 128 [if me_clean_shutdown m then 1 else 0]
       (put_at 96 (me_ledger_digest m) (put_at 64 (me_snapshot_digest m)
       (put_at 56 (store_le 8 (me_checkpoint_length m)) (put_at 48 (store_le 8 (me_checkpoint_offset m))
       (put_at 40 (store_le 8 (me_generation m)) (put_at 32 (store_le 8 (me_epoch m))
       (put_at 24 (store_le 8 (me_incarnation_counter m)) (put_at 16 (store_le 8 (me_rack m))
       (put_at 8 (store_le 4 (me_format_version m)) (put_at 0 kMetaMagic (replicate kMetaSize 0))))))))))))"

lemma encode_meta_eq: "encode_meta m = put_at 12 (store_le 4 (crc32c (meta_body m))) (meta_body m)"
  by (simp only: encode_meta_def meta_body_def Let_def)

lemma length_meta_body: "meta_ok m \<Longrightarrow> length (meta_body m) = 256"
  by (simp add: meta_body_def meta_ok_def kMetaSize_def)

lemma length_encode_meta: "meta_ok m \<Longrightarrow> length (encode_meta m) = kMetaSize"
  by (simp add: encode_meta_eq length_meta_body kMetaSize_def)

lemma meta_body_fields:
  assumes "meta_ok m"
  shows "get_at 0 8 (meta_body m) = kMetaMagic"
    "get_at 8 4 (meta_body m) = store_le 4 (me_format_version m)"
    "get_at 16 8 (meta_body m) = store_le 8 (me_rack m)"
    "get_at 24 8 (meta_body m) = store_le 8 (me_incarnation_counter m)"
    "get_at 32 8 (meta_body m) = store_le 8 (me_epoch m)"
    "get_at 40 8 (meta_body m) = store_le 8 (me_generation m)"
    "get_at 48 8 (meta_body m) = store_le 8 (me_checkpoint_offset m)"
    "get_at 56 8 (meta_body m) = store_le 8 (me_checkpoint_length m)"
    "get_at 64 32 (meta_body m) = me_snapshot_digest m"
    "get_at 96 32 (meta_body m) = me_ledger_digest m"
    "get_at 128 (Suc 0) (meta_body m) = [if me_clean_shutdown m then 1 else 0]"
    "get_at 136 8 (meta_body m) = store_le 8 (me_clean_shutdown_at_ms m)"
  using assms by (simp_all add: meta_body_def meta_ok_def kMetaSize_def field_simps)

lemma encode_meta_fields:
  assumes "meta_ok m"
  shows "get_at 0 8 (encode_meta m) = kMetaMagic"
    "get_at 8 4 (encode_meta m) = store_le 4 (me_format_version m)"
    "get_at 16 8 (encode_meta m) = store_le 8 (me_rack m)"
    "get_at 24 8 (encode_meta m) = store_le 8 (me_incarnation_counter m)"
    "get_at 32 8 (encode_meta m) = store_le 8 (me_epoch m)"
    "get_at 40 8 (encode_meta m) = store_le 8 (me_generation m)"
    "get_at 48 8 (encode_meta m) = store_le 8 (me_checkpoint_offset m)"
    "get_at 56 8 (encode_meta m) = store_le 8 (me_checkpoint_length m)"
    "get_at 64 32 (encode_meta m) = me_snapshot_digest m"
    "get_at 96 32 (encode_meta m) = me_ledger_digest m"
    "get_at 128 (Suc 0) (encode_meta m) = [if me_clean_shutdown m then 1 else 0]"
    "get_at 136 8 (encode_meta m) = store_le 8 (me_clean_shutdown_at_ms m)"
  using length_meta_body [OF assms] meta_body_fields [OF assms]
  by (simp_all add: encode_meta_eq get_at_put_other)

lemma encode_meta_checksum:
  assumes "meta_ok m"
  shows "crc32c (put_at 12 (store_le 4 (0 :: u32)) (encode_meta m)) = load_le 4 (get_at 12 4 (encode_meta m))"
proof -
  note buf = encode_meta_eq [of m]
  have len: "length (meta_body m) = 256" "get_at 12 4 (meta_body m) = replicate 4 0"
    using assms by (simp_all add: meta_body_def meta_ok_def kMetaSize_def field_simps)
  then have "put_at 12 (store_le 4 (0 :: u32)) (encode_meta m) = meta_body m"
    using put_at_same [of 12 "replicate 4 0" "meta_body m"] by (simp add: buf put_at_twice store_le_zero)
  moreover have "get_at 12 4 (encode_meta m) = store_le 4 (crc32c (meta_body m))"
    using len by (simp add: buf field_simps)
  ultimately show ?thesis by simp
qed

lemma decode_encode_meta:
  assumes "meta_ok m"
  shows "decode_meta (encode_meta m) unknown =
     (if me_format_version m \<noteq> kStateFormatVersion \<and> \<not> unknown
      then fail kIncompatibleVersion
             (''store manifest was written by state format version '' @ to_string_nat (unat (me_format_version m)) @
              '', this build speaks '' @ to_string_nat (unat kStateFormatVersion))
      else Inr (m\<lparr>me_valid := True\<rparr>))"
  using assms encode_meta_checksum [OF assms] length_encode_meta [OF assms]
  by (simp add: decode_meta_def encode_meta_fields nth_get_at kMetaSize_def Let_def)

section \<open>Incarnations\<close>

lemma u64_less_succ: "(x :: u64) \<noteq> u64_max \<Longrightarrow> x < x + 1"
proof -
  assume *: "x \<noteq> u64_max"
  have m: "unat u64_max = 2 ^ 64 - 1" by simp
  have "unat x \<noteq> 2 ^ 64 - 1" using * m by (metis word_unat_eq_iff)
  with unat_u64_lt [of x] have "unat (x + 1) = unat x + 1" by (simp add: unat_word_ariths)
  then show ?thesis by (simp add: word_less_nat_alt)
qed

lemma parse_checkpoint_digests:
  assumes "parse_checkpoint bytes = Inr c"
  shows "length (cp_snapshot_digest c) = 32" "length (cp_ledger_digest c) = 32"
proof -
  have "cp_snapshot_digest c = get_at 24 32 bytes \<and> cp_ledger_digest c = get_at 56 32 bytes \<and>
      kCheckpointHeaderSize \<le> length bytes"
    using assms by (auto simp: parse_checkpoint_def Let_def or_fail_Inr_iff rnf_try_Inr_iff split: if_splits)
  then show "length (cp_snapshot_digest c) = 32" "length (cp_ledger_digest c) = 32"
    by (auto simp: get_at_def kCheckpointHeaderSize_def)
qed

definition checkpoint_digests_ok :: "checkpoint \<Rightarrow> bool" where
  "checkpoint_digests_ok c \<longleftrightarrow> length (cp_snapshot_digest c) = 32 \<and> length (cp_ledger_digest c) = 32"

lemma open_prepare_digests:
  assumes "open_prepare dir options io files = Inr (m, offset, c, report)"
  shows "checkpoint_digests_ok c"
proof -
  have empty: "checkpoint_digests_ok empty_checkpoint"
    by (simp add: checkpoint_digests_ok_def empty_checkpoint_def zero_digest_def)
  obtain r where
    "checkpoint_offset (length (wal_of files)) (open_checkpoint dir options io files m r) = (offset, c, report)"
    using assms unfolding open_prepare_def rnf_try_Inr_iff by (elim exE conjE) (simp split: prod.splits)
  moreover have "checkpoint_digests_ok (fst (open_checkpoint dir options io files m r))"
    using empty by (auto simp: open_checkpoint_def checkpoint_digests_ok_def parse_checkpoint_digests split: sum.split)
  moreover have "checkpoint_digests_ok (fst x) \<Longrightarrow> checkpoint_digests_ok (fst (snd (checkpoint_offset n x)))" for n x
    using empty by (cases x) (simp add: checkpoint_offset_def Let_def)
  ultimately show ?thesis by (metis fst_conv snd_conv)
qed

lemma open_digests:
  assumes "store_open dir options io files = Inr s"
  shows "checkpoint_digests_ok (so_checkpoint s)"
  using assms open_prepare_digests unfolding store_open_Inr_iff
  by (fastforce simp: opened_def Let_def checkpoint_digests_ok_def)

lemma current_meta_ok: "checkpoint_digests_ok (so_checkpoint s) \<Longrightarrow> meta_ok (current_meta s n)"
  by (simp add: current_meta_def meta_ok_def checkpoint_digests_ok_def)

text \<open>A store never opens with a smaller counter than the one its manifest holds.\<close>

lemma open_keeps_counter:
  assumes "store_open dir options io files = Inr s" "fs_meta files = Some (encode_meta m)" "meta_ok m"
    and "me_format_version m = kStateFormatVersion" "\<not> op_allow_manifest_loss options"
  shows "me_incarnation_counter m \<le> so_incarnation_counter s"
proof -
  obtain m' offset c report t where
    prep: "open_prepare dir options io files = Inr (m', offset, c, report)" and
    s: "s = opened dir options files (m', offset, c, report) t"
    using assms(1) unfolding store_open_Inr_iff by blast
  obtain r where "open_manifest dir options io files (empty_report\<lparr>rr_fresh_store := fs_wal files = None\<rparr>) = Inr (m', r)"
    using prep unfolding open_prepare_def rnf_try_Inr_iff by (elim exE conjE) (simp split: prod.splits)
  then have "m' = m\<lparr>me_valid := True\<rparr>"
    using assms(2-5) decode_encode_meta [OF assms(3)] length_encode_meta [OF assms(3)]
    by (auto simp: open_manifest_def read_whole_file_def Let_def split: option.splits if_splits)
  then show ?thesis by (simp add: s opened_def Let_def)
qed

lemma accept_max_mono: "rp_max_incarnation s \<le> rp_max_incarnation (accept_record r n s)"
  by (auto simp: accept_record_def split: store_payload.split)

lemma accept_all_mono: "rp_max_incarnation s \<le> rp_max_incarnation (accept_all rs s)"
proof (induction rs arbitrary: s)
  case (Cons r rs)
  have "rp_max_incarnation s \<le> rp_max_incarnation (accept_record r (length (record_bytes r)) s)"
    by (rule accept_max_mono)
  also have "\<dots> \<le> rp_max_incarnation (accept_all (r # rs) s)" using Cons.IH by simp
  finally show ?case .
qed simp

lemma accept_all_max:
  "\<lparr>sr_type = RecordType_kGrantCommit, sr_payload = SP_Grant g\<rparr> \<in> set rs \<Longrightarrow>
     g_incarnation g \<le> rp_max_incarnation (accept_all rs s)"
proof (induction rs arbitrary: s)
  case (Cons r rs)
  show ?case
  proof (cases "r = \<lparr>sr_type = RecordType_kGrantCommit, sr_payload = SP_Grant g\<rparr>")
    case True
    then have "g_incarnation g \<le> rp_max_incarnation (accept_record r (length (record_bytes r)) s)"
      by (simp add: accept_record_def)
    with accept_all_mono show ?thesis by (simp add: order_trans)
  next
    case False
    with Cons show ?thesis by simp
  qed
qed simp

text \<open>
  (C31) Incarnations are never reused. The number a store hands out is greater than that of every grant
  it recovered, and after any crash and restart that keeps the manifest file, whatever happened to the
  log, the next number is greater again.
\<close>

theorem incarnations_strictly_increase:
  assumes o: "store_open dir options io files = Inr s"
    and n: "next_incarnation None s = (Inr inc, s1)"
    and o2: "store_open dir options io2 files2 = Inr s2" "fs_meta files2 = fs_meta (so_files s1)"
    and n2: "next_incarnation io3 s2 = (Inr inc2, s3)"
    and loss: "\<not> op_allow_manifest_loss options"
  shows "inc < inc2 \<and>
     (\<forall>g. \<lparr>sr_type = RecordType_kGrantCommit, sr_payload = SP_Grant g\<rparr> \<in> set (so_records s) \<longrightarrow>
          g_incarnation g < inc)"
proof -
  let ?s = "s\<lparr>so_incarnation_counter := so_incarnation_counter s + 1\<rparr>"
  let ?m = "current_meta ?s (if cp_present (so_checkpoint s) then so_checkpoint_length s else 0)"
  have inc: "inc = so_incarnation_counter s + 1" "so_incarnation_counter s \<noteq> u64_max"
    "fs_meta (so_files s1) = Some (encode_meta ?m)"
    using n by (auto simp: next_incarnation_def persist_meta_def Let_def split: if_splits)
  have ok: "meta_ok ?m" using open_digests [OF o] current_meta_ok [of ?s] by simp
  have "inc \<le> so_incarnation_counter s2"
    using open_keeps_counter [OF o2(1) _ ok _ loss] o2(2) inc(1,3) by (simp add: current_meta_def empty_meta_def)
  moreover have "inc2 = so_incarnation_counter s2 + 1" "so_incarnation_counter s2 \<noteq> u64_max"
    using n2 by (auto simp: next_incarnation_def persist_meta_def Let_def split: if_splits option.splits)
  ultimately have 1: "inc < inc2" using u64_less_succ [of "so_incarnation_counter s2"] by simp
  obtain m offset c report rep where
    s: "s = opened dir options files (m, offset, c, report)
      ((accept_all (so_records s) (replay_start offset report))\<lparr>rp_report := rep\<rparr>)"
    using store_open_recovers [OF o] by metis
  have "rp_max_incarnation (accept_all (so_records s) (replay_start offset report)) \<le> so_incarnation_counter s"
    by (subst (2) s) (simp add: opened_def Let_def)
  then have "g_incarnation g < inc"
    if "\<lparr>sr_type = RecordType_kGrantCommit, sr_payload = SP_Grant g\<rparr> \<in> set (so_records s)" for g
    using accept_all_max [OF that, of "replay_start offset report"] u64_less_succ [OF inc(2)] inc(1) by simp
  with 1 show ?thesis by blast
qed

lemma open_with_manifest:
  assumes "meta_ok m" "me_format_version m = kStateFormatVersion" "me_checkpoint_length m = 0"
    and "fs_meta files = Some (encode_meta m)"
  shows "open_prepare dir options open_io_ok files =
     Inr (m\<lparr>me_valid := True\<rparr>, 0, empty_checkpoint,
       empty_report\<lparr>rr_fresh_store := fs_wal files = None, rr_clean_shutdown := me_clean_shutdown m\<rparr>)"
  using assms decode_encode_meta [OF assms(1)] length_encode_meta [OF assms(1)]
  by (simp add: open_prepare_def open_manifest_def read_whole_file_def open_io_ok_def open_checkpoint_def
      checkpoint_offset_def empty_report_def Let_def)

theorem incarnations_strictly_increase_witness:
  "\<exists>s s1 s2 s3. store_open ''d'' default_store_options open_io_ok (no_files\<lparr>fs_wal := Some []\<rparr>) = Inr s \<and>
     next_incarnation None s = (Inr 1, s1) \<and>
     store_open ''d'' default_store_options open_io_ok (so_files s1) = Inr s2 \<and>
     next_incarnation None s2 = (Inr 2, s3) \<and> (1 :: u64) < 2"
proof -
  define s where "s = opened ''d'' default_store_options (no_files\<lparr>fs_wal := Some []\<rparr>)
    (empty_meta, 0, empty_checkpoint, empty_report\<lparr>rr_manifest_missing := True\<rparr>) sample_start"
  have s: "store_open ''d'' default_store_options open_io_ok (no_files\<lparr>fs_wal := Some []\<rparr>) = Inr s"
    by (simp add: sample_open s_def)
  define m where "m = current_meta (s\<lparr>so_incarnation_counter := 1\<rparr>) 0"
  have sf: "so_incarnation_counter s = 0" "so_checkpoint s = empty_checkpoint"
    "so_files s = no_files\<lparr>fs_wal := Some []\<rparr>"
    by (simp_all add: s_def opened_def Let_def replay_start_def empty_report_def empty_meta_def)
  define s1 where "s1 = s\<lparr>so_incarnation_counter := 1,
    so_files := no_files\<lparr>fs_wal := Some [], fs_meta := Some (encode_meta m)\<rparr>\<rparr>"
  have s1: "next_incarnation None s = (Inr 1, s1)"
    by (simp add: next_incarnation_def persist_meta_def sf s1_def m_def Let_def empty_checkpoint_def)
  have "meta_ok m" "me_format_version m = kStateFormatVersion" "me_checkpoint_length m = 0"
    "me_incarnation_counter m = 1"
    by (simp_all add: m_def current_meta_def meta_ok_def sf empty_checkpoint_def zero_digest_def empty_meta_def)
  then have prep: "open_prepare ''d'' default_store_options open_io_ok (so_files s1) =
      Inr (m\<lparr>me_valid := True\<rparr>, 0, empty_checkpoint,
        empty_report\<lparr>rr_fresh_store := False, rr_clean_shutdown := me_clean_shutdown m\<rparr>)"
    using open_with_manifest [of m "so_files s1"] by (simp add: s1_def)
  have wal: "wal_of (so_files s1) = []" by (simp add: s1_def)
  obtain s2 where s2: "store_open ''d'' default_store_options open_io_ok (so_files s1) = Inr s2"
    "so_incarnation_counter s2 = 1"
    unfolding store_open_Inr_iff prep wal
    by (auto simp: open_io_ok_def opened_def Let_def replay_start_def \<open>me_incarnation_counter m = 1\<close>)
  then obtain s3 where s3: "next_incarnation None s2 = (Inr 2, s3)"
    by (auto simp: next_incarnation_def persist_meta_def Let_def)
  have "(1 :: u64) < 2"
    using incarnations_strictly_increase [OF s s1 s2(1) refl s3] by (simp add: default_store_options_def)
  with s s1 s2(1) s3 show ?thesis by blast
qed

section \<open>The checkpoint file\<close>

definition entry_calls :: "evidence_record list \<Rightarrow> writer_call list" where
  "entry_calls es = map (\<lambda>e. W_blob (evidence_bytes e) 512) es"

definition checkpoint_calls :: "checkpoint \<Rightarrow> nat \<Rightarrow> writer_call list" where
  "checkpoint_calls c limit =
     W_u32 (of_nat (length (cp_ledger c))) # entry_calls (cp_ledger c) @ [W_blob (cp_snapshot_bytes c) limit]"

definition checkpoint_ok :: "checkpoint \<Rightarrow> bool" where
  "checkpoint_ok c \<longleftrightarrow>
     length (cp_member_set_digest c) = 32 \<and> length (cp_snapshot_digest c) = 32 \<and>
     length (cp_ledger_digest c) = 32 \<and> length (cp_ledger c) \<le> max_slots default_evidence_limits \<and>
     (\<forall>e\<in>set (cp_ledger c). evidence_valid e)"

lemma checkpoint_entries_calls:
  "\<forall>e\<in>set es. evidence_valid e \<Longrightarrow> checkpoint_entries es w = (ok_status, write_all (entry_calls es) w)"
proof (induction es arbitrary: w)
  case Nil
  then show ?case by (simp add: entry_calls_def write_all_def)
next
  case (Cons e es)
  have "payload_text_ok (er_payload e)" using Cons.prems by (simp add: evidence_valid_text_ok)
  then have "status_ok (fst (encode_evidence e (bw_new 512)))"
    "bw_buffer (snd (encode_evidence e (bw_new 512))) = evidence_bytes e"
    using encode_evidence_iff [of e 512] length_evidence_bytes [of e] by auto
  with Cons show ?case
    by (cases "encode_evidence e (bw_new 512)") (simp add: entry_calls_def write_all_def)
qed

lemma build_checkpoint_iff:
  assumes "checkpoint_ok c"
  shows "build_checkpoint_bytes c limit = Inr bytes \<longleftrightarrow>
     calls_ok (checkpoint_calls c limit) \<and> length (calls_bytes (checkpoint_calls c limit)) \<le> limit \<and>
     bytes = checkpoint_header c (calls_bytes (checkpoint_calls c limit)) @ calls_bytes (checkpoint_calls c limit)"
proof -
  have "bw_blob (cp_snapshot_bytes c) limit (write_all (entry_calls (cp_ledger c))
      (bw_u32 (of_nat (length (cp_ledger c))) (bw_new limit))) = write_all (checkpoint_calls c limit) (bw_new limit)"
    by (simp add: checkpoint_calls_def write_all_def)
  moreover have "bw_wf (bw_new limit)" by (simp add: bw_wf_def bw_new_def)
  then have "bw_ok (write_all (checkpoint_calls c limit) (bw_new limit)) \<longleftrightarrow>
      calls_ok (checkpoint_calls c limit) \<and> length (calls_bytes (checkpoint_calls c limit)) \<le> limit"
    "bw_ok (write_all (checkpoint_calls c limit) (bw_new limit)) \<Longrightarrow>
      bw_buffer (write_all (checkpoint_calls c limit) (bw_new limit)) = calls_bytes (checkpoint_calls c limit)"
    using write_all_spec [of "bw_new limit" "checkpoint_calls c limit"]
    by (auto simp: bw_new_def checkpoint_calls_def)
  ultimately show ?thesis
    using assms by (auto simp: build_checkpoint_bytes_def checkpoint_entries_calls checkpoint_ok_def Let_def)
qed

lemma r_blob_enc:
  assumes "length d \<le> m" "length d \<le> 0xFFFFFFFF"
  shows "r_blob m (enc_blob d @ t) = Some (d, t)"
proof -
  have "unat (of_nat (length d) :: u32) = length d" using assms by (simp add: unat_of_nat)
  with assms show ?thesis by (simp add: r_blob_def enc_blob_def u32c.dec_enc r_raw_bytes_def)
qed

lemma decode_entries_bytes:
  "\<forall>e\<in>set es. evidence_valid e \<Longrightarrow>
     decode_entries (length es) (calls_bytes (entry_calls es) @ t) = Inr (es, t)"
proof (induction es)
  case Nil
  then show ?case by (simp add: entry_calls_def)
next
  case (Cons e es)
  have len: "length (evidence_bytes e) \<le> 512"
    using Cons.prems length_evidence_bytes [of e] evidence_valid_text_ok [of e] by simp
  let ?t = "calls_bytes (entry_calls es) @ t"
  have "r_blob 512 (enc_blob (evidence_bytes e) @ ?t) = Some (evidence_bytes e, ?t)"
    by (rule r_blob_enc) (use len in simp_all)
  moreover have "calls_bytes (entry_calls (e # es)) @ t = enc_blob (evidence_bytes e) @ ?t"
    by (simp add: entry_calls_def enc_blob_def)
  moreover have "decode_evidence (evidence_bytes e) = Inr (e, [])"
    using decode_evidence_bytes [of e "[]"] Cons.prems by simp
  ultimately show ?case using Cons by (simp del: map_append)
qed

text \<open>The checkpoint header before its checksum is stored.\<close>

definition header_body :: "checkpoint \<Rightarrow> u8 list \<Rightarrow> u8 list" where
  "header_body c body =
     put_at 120 (store_le 4 (0 :: u32)) (put_at 128 (cp_member_set_digest c)
       (put_at 124 [ls_byte (cp_lifecycle c)] (put_at 112 (store_le 8 (cp_incarnation c))
       (put_at 104 (store_le 8 (cp_epoch c)) (put_at 96 (store_le 8 (cp_generation c))
       (put_at 88 (store_le 8 (cp_wal_offset c)) (put_at 56 (cp_ledger_digest c)
       (put_at 24 (cp_snapshot_digest c) (put_at 16 (store_le 8 (of_nat (length body) :: u64))
       (put_at 12 (store_le 4 (crc32c body)) (put_at 8 (store_le 4 kStateFormatVersion)
       (put_at 0 kCheckpointMagic (replicate kCheckpointHeaderSize 0)))))))))))))"

lemma checkpoint_header_eq:
  "checkpoint_header c body = put_at 120 (store_le 4 (crc32c (header_body c body))) (header_body c body)"
  by (simp only: checkpoint_header_def header_body_def Let_def)

lemma length_header_body: "checkpoint_ok c \<Longrightarrow> length (header_body c body) = 192"
  by (simp add: header_body_def checkpoint_ok_def kCheckpointHeaderSize_def)

lemma header_body_fields:
  assumes "checkpoint_ok c"
  shows "get_at 0 8 (header_body c body) = kCheckpointMagic"
    "get_at 8 4 (header_body c body) = store_le 4 kStateFormatVersion"
    "get_at 12 4 (header_body c body) = store_le 4 (crc32c body)"
    "get_at 16 8 (header_body c body) = store_le 8 (of_nat (length body) :: u64)"
    "get_at 24 32 (header_body c body) = cp_snapshot_digest c"
    "get_at 56 32 (header_body c body) = cp_ledger_digest c"
    "get_at 88 8 (header_body c body) = store_le 8 (cp_wal_offset c)"
    "get_at 96 8 (header_body c body) = store_le 8 (cp_generation c)"
    "get_at 104 8 (header_body c body) = store_le 8 (cp_epoch c)"
    "get_at 112 8 (header_body c body) = store_le 8 (cp_incarnation c)"
    "get_at 124 (Suc 0) (header_body c body) = [ls_byte (cp_lifecycle c)]"
    "get_at 128 32 (header_body c body) = cp_member_set_digest c"
  using assms
  by (simp_all add: header_body_def checkpoint_ok_def kCheckpointHeaderSize_def get_at_put_same get_at_put_other)

lemma checkpoint_header_fields:
  assumes "checkpoint_ok c"
  shows "length (checkpoint_header c body) = kCheckpointHeaderSize"
    "get_at 0 8 (checkpoint_header c body) = kCheckpointMagic"
    "get_at 8 4 (checkpoint_header c body) = store_le 4 kStateFormatVersion"
    "get_at 12 4 (checkpoint_header c body) = store_le 4 (crc32c body)"
    "get_at 16 8 (checkpoint_header c body) = store_le 8 (of_nat (length body) :: u64)"
    "get_at 24 32 (checkpoint_header c body) = cp_snapshot_digest c"
    "get_at 56 32 (checkpoint_header c body) = cp_ledger_digest c"
    "get_at 88 8 (checkpoint_header c body) = store_le 8 (cp_wal_offset c)"
    "get_at 96 8 (checkpoint_header c body) = store_le 8 (cp_generation c)"
    "get_at 104 8 (checkpoint_header c body) = store_le 8 (cp_epoch c)"
    "get_at 112 8 (checkpoint_header c body) = store_le 8 (cp_incarnation c)"
    "get_at 124 (Suc 0) (checkpoint_header c body) = [ls_byte (cp_lifecycle c)]"
    "get_at 128 32 (checkpoint_header c body) = cp_member_set_digest c"
  using length_header_body [OF assms, of body] header_body_fields [OF assms, of body]
  by (simp_all add: checkpoint_header_eq get_at_put_other kCheckpointHeaderSize_def)

lemma checkpoint_header_checksum:
  assumes "checkpoint_ok c"
  shows "crc32c (put_at 120 (store_le 4 (0 :: u32)) (checkpoint_header c body)) =
     load_le 4 (get_at 120 4 (checkpoint_header c body))"
proof -
  have len: "length (header_body c body) = 192" by (rule length_header_body [OF assms])
  have "get_at 120 4 (header_body c body) = store_le 4 (0 :: u32)"
    using assms by (simp add: header_body_def checkpoint_ok_def kCheckpointHeaderSize_def get_at_put_same)
  then have "put_at 120 (store_le 4 (0 :: u32)) (checkpoint_header c body) = header_body c body"
    using len put_at_same [of 120 "store_le 4 (0 :: u32)" "header_body c body"]
    by (simp add: checkpoint_header_eq put_at_twice)
  moreover have "get_at 120 4 (checkpoint_header c body) = store_le 4 (crc32c (header_body c body))"
    using len by (simp add: checkpoint_header_eq get_at_put_same)
  ultimately show ?thesis by simp
qed

lemma checkpoint_body_parse:
  assumes "checkpoint_ok c" "calls_ok (checkpoint_calls c limit)"
    "length (calls_bytes (checkpoint_calls c limit)) \<le> n"
  shows "\<exists>u. r_count (max_slots default_evidence_limits) (calls_bytes (checkpoint_calls c limit)) =
       Some (length (cp_ledger c), u) \<and> decode_entries (length (cp_ledger c)) u = Inr (cp_ledger c, enc_blob (cp_snapshot_bytes c)) \<and>
     r_blob n (enc_blob (cp_snapshot_bytes c)) = Some (cp_snapshot_bytes c, [])"
proof -
  let ?u = "calls_bytes (entry_calls (cp_ledger c)) @ enc_blob (cp_snapshot_bytes c)"
  have m: "max_slots default_evidence_limits < 2 ^ 32" by (simp add: default_evidence_limits_def)
  have split: "calls_bytes (checkpoint_calls c limit) = store_le 4 (of_nat (length (cp_ledger c)) :: u32) @ ?u"
    by (simp add: checkpoint_calls_def enc_blob_def)
  have "r_count (max_slots default_evidence_limits) (calls_bytes (checkpoint_calls c limit)) =
      Some (length (cp_ledger c), ?u)"
    unfolding split by (rule codec.dec_enc [OF count_codec [OF m]]) (use assms(1) in \<open>simp add: checkpoint_ok_def\<close>)
  moreover have "decode_entries (length (cp_ledger c)) ?u = Inr (cp_ledger c, enc_blob (cp_snapshot_bytes c))"
    by (rule decode_entries_bytes) (use assms(1) in \<open>simp add: checkpoint_ok_def\<close>)
  moreover have "length (cp_snapshot_bytes c) \<le> n"
    using assms(3) by (simp add: split enc_blob_def)
  then have "r_blob n (enc_blob (cp_snapshot_bytes c) @ []) = Some (cp_snapshot_bytes c, [])"
    by (rule r_blob_enc) (use assms(2) in \<open>simp add: checkpoint_calls_def\<close>)
  ultimately show ?thesis by simp
qed

text \<open>
  (C35) A checkpoint reads back as it was written: whatever is built from a checkpoint whose ledger
  entries are valid and whose digests are complete parses to the same checkpoint, marked present.
\<close>

theorem checkpoint_roundtrip:
  assumes "checkpoint_ok c" "build_checkpoint_bytes c limit = Inr bytes"
  shows "parse_checkpoint bytes = Inr (c\<lparr>cp_present := True\<rparr>)"
proof -
  let ?b = "calls_bytes (checkpoint_calls c limit)"
  let ?h = "checkpoint_header c ?b"
  have b: "calls_ok (checkpoint_calls c limit)" "bytes = ?h @ ?b"
    using assms(2) unfolding build_checkpoint_iff [OF assms(1)] by simp_all
  note f = checkpoint_header_fields [OF assms(1), of ?b]
  have len: "length ?h = 192" using f(1) by (simp add: kCheckpointHeaderSize_def)
  have at: "get_at i k bytes = get_at i k ?h" if "i + k \<le> 192" for i k
    using that len by (simp add: b(2) get_at_append)
  have nth: "bytes ! 124 = ls_byte (cp_lifecycle c)"
    using nth_get_at [of 124 bytes] at [of 124 "Suc 0"] f(12) len by (simp add: b(2))
  have cut: "take kCheckpointHeaderSize bytes = ?h" "drop kCheckpointHeaderSize bytes = ?b"
    "length bytes - kCheckpointHeaderSize = length ?b" "\<not> length bytes < kCheckpointHeaderSize"
    using len by (simp_all add: b(2) kCheckpointHeaderSize_def)
  have fields: "get_at 0 8 bytes = kCheckpointMagic" "get_at 8 4 bytes = store_le 4 kStateFormatVersion"
    "get_at 12 4 bytes = store_le 4 (crc32c ?b)" "get_at 16 8 bytes = store_le 8 (of_nat (length ?b) :: u64)"
    "get_at 24 32 bytes = cp_snapshot_digest c" "get_at 56 32 bytes = cp_ledger_digest c"
    "get_at 88 8 bytes = store_le 8 (cp_wal_offset c)" "get_at 96 8 bytes = store_le 8 (cp_generation c)"
    "get_at 104 8 bytes = store_le 8 (cp_epoch c)" "get_at 112 8 bytes = store_le 8 (cp_incarnation c)"
    "get_at 128 32 bytes = cp_member_set_digest c"
    by (simp_all add: at f)
  obtain u where u: "r_count (max_slots default_evidence_limits) ?b = Some (length (cp_ledger c), u)"
    "decode_entries (length (cp_ledger c)) u = Inr (cp_ledger c, enc_blob (cp_snapshot_bytes c))"
    "r_blob (length bytes) (enc_blob (cp_snapshot_bytes c)) = Some (cp_snapshot_bytes c, [])"
    using checkpoint_body_parse [OF assms(1) b(1), of "length bytes"] by (auto simp: b(2))
  show ?thesis
    unfolding parse_checkpoint_def Let_def cut fields checkpoint_header_checksum [OF assms(1)] nth
    by (simp add: u cut(4))
qed

definition sample_checkpoint :: checkpoint where
  "sample_checkpoint = empty_checkpoint\<lparr>cp_wal_offset := 42, cp_snapshot_bytes := [1, 2, 3]\<rparr>"

theorem checkpoint_roundtrip_witness:
  "\<exists>bytes. build_checkpoint_bytes sample_checkpoint 1000 = Inr bytes \<and>
     parse_checkpoint bytes = Inr (sample_checkpoint\<lparr>cp_present := True\<rparr>)"
proof -
  have ok: "checkpoint_ok sample_checkpoint"
    by (simp add: checkpoint_ok_def sample_checkpoint_def empty_checkpoint_def zero_digest_def)
  moreover obtain bytes where "build_checkpoint_bytes sample_checkpoint 1000 = Inr bytes"
    using build_checkpoint_iff [OF ok, of 1000]
    by (simp add: checkpoint_calls_def entry_calls_def sample_checkpoint_def empty_checkpoint_def)
  ultimately show ?thesis using checkpoint_roundtrip by blast
qed

end
