(* ===== verification/Rnf_Compose.thy ===== *)
theory Rnf_Compose
  imports Rnf_Snapshot_Codec
begin

text \<open>
  \<^verbatim>\<open>compose/composer\<close>: the pure function from accepted evidence to a snapshot. The one long C++ function
  is split at its section comments; each section is a definition over the tables the earlier sections
  built. The local maps are ordered maps, iterated in key order as \<^verbatim>\<open>std::map\<close> does, and the diagnostic
  collector is threaded through every loop. A default constructed \<^verbatim>\<open>Selection\<close> or \<^verbatim>\<open>MemberInfo\<close>, whose
  \<^verbatim>\<open>present\<close> flag is unset, is an absent key.
\<close>

section \<open>Inputs and outputs\<close>

record rack_config =
  rc_rack :: rack_id
  rc_name :: string
  rc_headroom_floor :: capacity
  rc_max_paths_per_pair :: nat
  rc_max_path_hops :: nat
  rc_strict_generation :: bool

record compose_input =
  ci_generation :: topology_generation
  ci_epoch :: rack_epoch
  ci_lifecycle :: lifecycle_state
  ci_limits :: compose_limits

record compose_stats =
  cs_slots_considered :: nat
  cs_slots_applied :: nat
  cs_slots_stale :: nat
  cs_slots_out_of_rack :: nat
  cs_member_devices :: nat
  cs_paths_enumerated :: nat
  cs_diagnostics :: nat

definition empty_compose_stats :: compose_stats where
  "empty_compose_stats =
     \<lparr>cs_slots_considered = 0, cs_slots_applied = 0, cs_slots_stale = 0, cs_slots_out_of_rack = 0,
      cs_member_devices = 0, cs_paths_enumerated = 0, cs_diagnostics = 0\<rparr>"

section \<open>Helpers\<close>

datatype applicability = Applicability_kApply | Applicability_kStale | Applicability_kFuture

definition applicability_of :: "evidence_record \<Rightarrow> topology_generation \<Rightarrow> applicability" where
  "applicability_of r target =
     (if er_generation r > target then Applicability_kFuture
      else if er_durability r = Durability_kEphemeral \<and> er_generation r \<noteq> target then Applicability_kStale
      else Applicability_kApply)"

record diagnostics =
  dx_limit :: nat
  dx_dropped :: nat
  dx_items :: "diagnostic list"

definition diag_note ::
  "diagnostic_kind \<Rightarrow> evidence_kind \<Rightarrow> u64 \<Rightarrow> source_id \<Rightarrow> string \<Rightarrow> diagnostics \<Rightarrow> diagnostics" where
  "diag_note kind subject_kind subject_id src detail g =
     (if length (dx_items g) \<ge> dx_limit g then g\<lparr>dx_dropped := dx_dropped g + 1\<rparr>
      else g\<lparr>dx_items := dx_items g @ [Diagnostic kind subject_kind subject_id src detail]\<rparr>)"

text \<open>
  A limit of zero makes the program pop from an empty vector, which C++ leaves undefined; here the
  list stays empty.
\<close>

definition diag_finish :: "diagnostics \<Rightarrow> diagnostic list" where
  "diag_finish g =
     (let truncation = Diagnostic DiagnosticKind_kIncompleteTopology EvidenceKind_kMember 0 0
            ''diagnostic list truncated at its configured bound'';
          items = sort_unique (dx_items g)
      in if dx_dropped g > 0
         then sort ((if length items \<ge> dx_limit g then butlast items else items) @ [truncation])
         else items)"

record 'a selection =
  se_conflicted :: bool
  se_generation :: topology_generation
  se_sequence :: sequence_no
  se_digest :: digest
  se_source :: source_id
  se_value :: 'a

definition strictly_newer :: "'a selection \<Rightarrow> 'a selection \<Rightarrow> bool" where
  "strictly_newer candidate incumbent =
     (if se_generation candidate \<noteq> se_generation incumbent
      then se_generation candidate > se_generation incumbent
      else se_sequence candidate > se_sequence incumbent)"

definition same_rank :: "'a selection \<Rightarrow> 'a selection \<Rightarrow> bool" where
  "same_rank a b \<longleftrightarrow> se_generation a = se_generation b \<and> se_sequence a = se_sequence b"

definition offer :: "'a selection option \<Rightarrow> 'a selection \<Rightarrow> 'a selection" where
  "offer slot candidate =
     (case slot of
        None \<Rightarrow> candidate
      | Some s \<Rightarrow>
          if strictly_newer candidate s then candidate\<lparr>se_conflicted := se_conflicted s\<rparr>
          else if same_rank candidate s then
            if se_digest candidate \<noteq> se_digest s then
              if se_digest candidate < se_digest s then candidate\<lparr>se_conflicted := True\<rparr>
              else s\<lparr>se_conflicted := True\<rparr>
            else s
          else s)"

definition candidate_of :: "evidence_record \<Rightarrow> 'a \<Rightarrow> 'a selection" where
  "candidate_of r v =
     \<lparr>se_conflicted = False, se_generation = er_generation r, se_sequence = pv_sequence (er_provenance r),
      se_digest = evidence_digest r, se_source = pv_source (er_provenance r), se_value = v\<rparr>"

definition pack_ref :: "resource_kind \<Rightarrow> u64 \<Rightarrow> u64" where
  "pack_ref kind i = push_bit 56 (ucast (rk_byte kind)) OR (i AND 0x00FFFFFFFFFFFFFF)"

definition path_identity :: "link_id list \<Rightarrow> path_id" where
  "path_identity links =
     (let d = final (fold (\<lambda>link h. update (store_le 8 link) h) links
                 (update (string_bytes ''rnf.path.v1'') (reset [])));
          v = load_le 8 d :: u64
      in if v = 0 then 1 else v)"

definition is_usable :: "availability \<Rightarrow> bool" where
  "is_usable a \<longleftrightarrow> a = Availability_kUp \<or> a = Availability_kDegraded"

definition min_capacity :: "capacity \<Rightarrow> capacity \<Rightarrow> capacity" where
  "min_capacity a b = (if a \<le> b then a else b)"

record member_info =
  mi_indeterminate :: bool
  mi_incarnation :: member_incarnation
  mi_source :: source_id

record maintenance_entry =
  mx_excluded :: bool
  mx_action :: maintenance_kind
  mx_reason :: string
  mx_source :: source_id
  mx_sequence :: sequence_no

definition empty_maintenance_entry :: maintenance_entry where
  "empty_maintenance_entry =
     \<lparr>mx_excluded = False, mx_action = MaintenanceKind_kDrain, mx_reason = [], mx_source = 0,
      mx_sequence = 0\<rparr>"

record path_candidate =
  pc_links :: "link_id list"
  pc_start :: port_id
  pc_end :: port_id

section \<open>Selecting the evidence\<close>

record compose_tables =
  ct_members :: "(device_id, member_info) omap"
  ct_devices :: "(device_id, device_claim selection) omap"
  ct_ports :: "(port_id, port_claim selection) omap"
  ct_links :: "(link_id, link_claim selection) omap"
  ct_attachments :: "(attachment_id, attachment_claim selection) omap"
  ct_maintenance :: "(u64, resource_ref \<times> maintenance_entry) omap"
  ct_obligations :: "(obligation_id, resource_ref \<times> obligation_claim selection) omap"
  ct_stats :: compose_stats
  ct_diag :: diagnostics

definition empty_tables :: "nat \<Rightarrow> compose_tables" where
  "empty_tables limit =
     \<lparr>ct_members = [], ct_devices = [], ct_ports = [], ct_links = [], ct_attachments = [],
      ct_maintenance = [], ct_obligations = [], ct_stats = empty_compose_stats,
      ct_diag = \<lparr>dx_limit = limit, dx_dropped = 0, dx_items = []\<rparr>\<rparr>"

definition gather_member :: "rack_id \<Rightarrow> evidence_record \<Rightarrow> member_claim \<Rightarrow> compose_tables \<Rightarrow> compose_tables" where
  "gather_member rack r claim t =
     (if mc_rack claim \<noteq> rack then
        t\<lparr>ct_stats := (ct_stats t)\<lparr>cs_slots_out_of_rack := cs_slots_out_of_rack (ct_stats t) + 1\<rparr>,
          ct_diag := diag_note DiagnosticKind_kOutOfRack EvidenceKind_kMember (mc_device claim)
            (pv_source (er_provenance r)) ''membership claim names a different rack'' (ct_diag t)\<rparr>
      else
        (case omap_get (ct_members t) (mc_device claim) of
           None \<Rightarrow>
             t\<lparr>ct_members := omap_put (mc_device claim)
                 \<lparr>mi_indeterminate = False, mi_incarnation = mc_incarnation claim,
                  mi_source = pv_source (er_provenance r)\<rparr> (ct_members t)\<rparr>
         | Some info \<Rightarrow>
             if mi_incarnation info \<noteq> mc_incarnation claim then
               t\<lparr>ct_members := omap_put (mc_device claim)
                   (info\<lparr>mi_indeterminate := True,
                      mi_incarnation := max (mi_incarnation info) (mc_incarnation claim)\<rparr>) (ct_members t),
                 ct_diag := diag_note DiagnosticKind_kConflictingEvidence EvidenceKind_kMember (mc_device claim)
                   (pv_source (er_provenance r)) ''membership incarnation disagrees with another source''
                   (ct_diag t)\<rparr>
             else t))"

definition gather_maintenance :: "evidence_record \<Rightarrow> maintenance_claim \<Rightarrow> compose_tables \<Rightarrow> compose_tables" where
  "gather_maintenance r claim t =
     (let target = ResourceRef (tc_target_kind claim) (tc_target_id claim);
          key = pack_ref (tc_target_kind claim) (tc_target_id claim);
          entry = (case omap_get (ct_maintenance t) key of Some (_, e) \<Rightarrow> e | None \<Rightarrow> empty_maintenance_entry);
          entry = (if tc_action claim \<noteq> MaintenanceKind_kClear \<and>
                      (\<not> mx_excluded entry \<or> pv_sequence (er_provenance r) \<ge> mx_sequence entry)
                   then \<lparr>mx_excluded = True, mx_action = tc_action claim, mx_reason = tc_reason claim,
                         mx_source = pv_source (er_provenance r), mx_sequence = pv_sequence (er_provenance r)\<rparr>
                   else entry)
      in t\<lparr>ct_maintenance := omap_put key (target, entry) (ct_maintenance t)\<rparr>)"

text \<open>The target of an obligation is overwritten before the claim is offered.\<close>

definition gather_obligation :: "evidence_record \<Rightarrow> obligation_claim \<Rightarrow> compose_tables \<Rightarrow> compose_tables" where
  "gather_obligation r claim t =
     t\<lparr>ct_obligations := omap_put (oc_obligation claim)
         (ResourceRef (oc_target_kind claim) (oc_target_id claim),
          offer (map_option snd (omap_get (ct_obligations t) (oc_obligation claim))) (candidate_of r claim))
         (ct_obligations t)\<rparr>"

definition gather_claim :: "rack_id \<Rightarrow> evidence_record \<Rightarrow> compose_tables \<Rightarrow> compose_tables" where
  "gather_claim rack r t =
     (case er_payload r of
        PMember claim \<Rightarrow> gather_member rack r claim t
      | PDevice claim \<Rightarrow>
          t\<lparr>ct_devices := omap_put (dc_device claim)
              (offer (omap_get (ct_devices t) (dc_device claim)) (candidate_of r claim)) (ct_devices t)\<rparr>
      | PPort claim \<Rightarrow>
          t\<lparr>ct_ports := omap_put (pc_port claim)
              (offer (omap_get (ct_ports t) (pc_port claim)) (candidate_of r claim)) (ct_ports t)\<rparr>
      | PLink claim \<Rightarrow>
          t\<lparr>ct_links := omap_put (lc_link claim)
              (offer (omap_get (ct_links t) (lc_link claim)) (candidate_of r claim)) (ct_links t)\<rparr>
      | PAttachment claim \<Rightarrow>
          t\<lparr>ct_attachments := omap_put (ac_attachment claim)
              (offer (omap_get (ct_attachments t) (ac_attachment claim)) (candidate_of r claim))
              (ct_attachments t)\<rparr>
      | PMaintenance claim \<Rightarrow> gather_maintenance r claim t
      | PObligation claim \<Rightarrow> gather_obligation r claim t)"

definition gather_record ::
  "rack_config \<Rightarrow> compose_input \<Rightarrow> evidence_slot \<times> evidence_record \<Rightarrow> compose_tables \<Rightarrow> compose_tables" where
  "gather_record config request = (\<lambda>(slot, r) t.
     let st = (ct_stats t)\<lparr>cs_slots_considered := cs_slots_considered (ct_stats t) + 1\<rparr>;
         stale = (\<lambda>detail. t\<lparr>ct_stats := st\<lparr>cs_slots_stale := cs_slots_stale st + 1\<rparr>,
           ct_diag := diag_note DiagnosticKind_kStaleEvidence (er_kind r) (sl_subject_a slot)
             (pv_source (er_provenance r)) detail (ct_diag t)\<rparr>)
     in
     case applicability_of r (ci_generation request) of
       Applicability_kFuture \<Rightarrow> stale ''observation names a later generation than the one being composed''
     | Applicability_kStale \<Rightarrow> stale ''ephemeral observation does not apply to this generation''
     | Applicability_kApply \<Rightarrow>
         gather_claim (rc_rack config) r (t\<lparr>ct_stats := st\<lparr>cs_slots_applied := cs_slots_applied st + 1\<rparr>\<rparr>))"

definition gather :: "rack_config \<Rightarrow> compose_input \<Rightarrow> evidence_ledger \<Rightarrow> compose_tables" where
  "gather config request l =
     fold (gather_record config request) (el_slots l)
       (empty_tables (cl_max_diagnostics (ci_limits request)))"

section \<open>Maintenance exclusions\<close>

definition rack_excluded :: "compose_tables \<Rightarrow> bool" where
  "rack_excluded t =
     (case omap_get (ct_maintenance t) (pack_ref ResourceKind_kRack 0) of
        None \<Rightarrow> False | Some (_, e) \<Rightarrow> mx_excluded e)"

definition exclusion_of :: "compose_tables \<Rightarrow> resource_kind \<Rightarrow> u64 \<Rightarrow> bool" where
  "exclusion_of t kind i \<longleftrightarrow>
     rack_excluded t \<or>
     (case omap_get (ct_maintenance t) (pack_ref kind i) of None \<Rightarrow> False | Some (_, e) \<Rightarrow> mx_excluded e)"

text \<open>\<^verbatim>\<open>device_excluded[id]\<close> is false for a device that is not a member.\<close>

definition device_excluded :: "compose_tables \<Rightarrow> device_id \<Rightarrow> bool" where
  "device_excluded t d \<longleftrightarrow> omap_get (ct_members t) d \<noteq> None \<and> exclusion_of t ResourceKind_kDevice d"

section \<open>Devices\<close>

definition device_step ::
  "compose_tables \<Rightarrow> device_id \<times> device_claim selection \<Rightarrow> device_record list \<times> diagnostics \<Rightarrow>
   device_record list \<times> diagnostics" where
  "device_step t = (\<lambda>(device, s) (out, g).
     case omap_get (ct_members t) device of
       None \<Rightarrow>
         (out, diag_note DiagnosticKind_kUnknownMember EvidenceKind_kDevice device (se_source s)
                 ''device observation has no matching membership claim'' g)
     | Some member \<Rightarrow>
         (let g = (if se_conflicted s
                   then diag_note DiagnosticKind_kConflictingEvidence EvidenceKind_kDevice device (se_source s)
                          ''sources disagree about this device at the same generation'' g else g);
              g = (if mi_indeterminate member
                   then diag_note DiagnosticKind_kConflictingEvidence EvidenceKind_kDevice device (se_source s)
                          ''membership incarnation is indeterminate'' g else g);
              claim = se_value s;
              g = (if \<not> dc_capacity_known claim
                   then diag_note DiagnosticKind_kUnknownCapacity EvidenceKind_kDevice device (se_source s)
                          ''device capacity was not measured'' g else g);
              excluded = device_excluded t device;
              g = (if excluded
                   then diag_note DiagnosticKind_kMaintenanceExclusion EvidenceKind_kDevice device (se_source s)
                          ''device is inside a drain or maintenance window'' g else g);
              conflicted = se_conflicted s \<or> mi_indeterminate member;
              elig = (if conflicted \<or> excluded \<or> \<not> dc_capacity_known claim \<or> \<not> is_usable (dc_availability claim)
                      then if conflicted then Eligibility_kIncomplete else Eligibility_kIneligible
                      else Eligibility_kEligible)
          in (out @ [\<lparr>d_id = device, d_role = dc_role claim, d_incarnation = mi_incarnation member,
                      d_capacity = dc_capacity claim, d_capacity_known = dc_capacity_known claim,
                      d_eligibility = elig, d_availability = dc_availability claim\<rparr>], g)))"

definition unobserved_step ::
  "compose_tables \<Rightarrow> device_id \<times> member_info \<Rightarrow> device_record list \<times> diagnostics \<Rightarrow>
   device_record list \<times> diagnostics" where
  "unobserved_step t = (\<lambda>(device, info) (out, g).
     if omap_get (ct_devices t) device \<noteq> None then (out, g)
     else
       (out @ [\<lparr>d_id = device, d_role = DeviceRole_kUnknown, d_incarnation = mi_incarnation info,
                d_capacity = 0, d_capacity_known = False, d_eligibility = Eligibility_kIncomplete,
                d_availability = Availability_kUnknown\<rparr>],
        diag_note DiagnosticKind_kIncompleteTopology EvidenceKind_kDevice device (mi_source info)
          ''member device has no device observation'' g))"

definition compose_devices :: "compose_tables \<Rightarrow> device_record list \<times> diagnostics" where
  "compose_devices t =
     (case fold (unobserved_step t) (ct_members t) (fold (device_step t) (ct_devices t) ([], ct_diag t)) of
        (out, g) \<Rightarrow> (unique_adj (\<lambda>a b. d_id a = d_id b) (sort_key d_id out), g))"

section \<open>Ports\<close>

text \<open>\<^verbatim>\<open>duplicate_port_keys\<close>, a counter nothing reads, is left out.\<close>

definition port_step ::
  "compose_tables \<Rightarrow> device_record list \<Rightarrow> port_id \<times> port_claim selection \<Rightarrow>
   port_record list \<times> (u64 \<times> u16, port_id) omap \<times> diagnostics \<Rightarrow>
   port_record list \<times> (u64 \<times> u16, port_id) omap \<times> diagnostics" where
  "port_step t devices = (\<lambda>(port, s) (out, keys, g).
     let claim = se_value s in
     if omap_get (ct_members t) (pc_device claim) = None then
       (out, keys, diag_note DiagnosticKind_kOutOfRack EvidenceKind_kPort port (se_source s)
                     ''port belongs to a device that is not a member of this rack'' g)
     else
       (let g = (if se_conflicted s
                 then diag_note DiagnosticKind_kConflictingEvidence EvidenceKind_kPort port (se_source s)
                        ''sources disagree about this port at the same generation'' g else g);
            key = (pc_device claim, pc_index claim);
            taken = (case omap_get keys key of Some other \<Rightarrow> other \<noteq> port | None \<Rightarrow> False);
            g = (if taken
                 then diag_note DiagnosticKind_kConflictingEvidence EvidenceKind_kPort port (se_source s)
                        ''two port identities claim the same device/index pair'' g else g);
            keys = (if taken then keys else omap_put key port keys);
            excluded = device_excluded t (pc_device claim) \<or> exclusion_of t ResourceKind_kPort port;
            g = (if excluded
                 then diag_note DiagnosticKind_kMaintenanceExclusion EvidenceKind_kPort port (se_source s)
                        ''port is inside a drain or maintenance window'' g else g);
            g = (if \<not> pc_capacity_known claim
                 then diag_note DiagnosticKind_kUnknownCapacity EvidenceKind_kPort port (se_source s)
                        ''port capacity was not measured'' g else g);
            owner_usable =
              (case find_sorted d_id (pc_device claim) devices of
                 None \<Rightarrow> False | Some owner \<Rightarrow> d_eligibility owner = Eligibility_kEligible);
            elig = (if se_conflicted s then Eligibility_kIncomplete
                    else if excluded \<or> \<not> owner_usable then Eligibility_kIneligible
                    else if \<not> pc_capacity_known claim \<or> \<not> is_usable (pc_availability claim) \<or>
                            pc_admin claim \<noteq> AdminState_kEnabled
                    then Eligibility_kIneligible
                    else Eligibility_kEligible)
        in (out @ [\<lparr>p_id = port, p_device = pc_device claim, p_index = pc_index claim, p_role = pc_role claim,
                    p_capacity = pc_capacity claim, p_capacity_known = pc_capacity_known claim,
                    p_availability = pc_availability claim, p_admin = pc_admin claim,
                    p_eligibility = elig\<rparr>], keys, g)))"

definition compose_ports ::
  "compose_tables \<Rightarrow> device_record list \<Rightarrow> diagnostics \<Rightarrow> port_record list \<times> diagnostics" where
  "compose_ports t devices g =
     (case fold (port_step t devices) (ct_ports t) ([], [], g) of (out, keys, g) \<Rightarrow> (sort_key p_id out, g))"

section \<open>Links\<close>

definition link_step ::
  "compose_tables \<Rightarrow> port_record list \<Rightarrow> link_id \<times> link_claim selection \<Rightarrow>
   link_record list \<times> diagnostics \<Rightarrow> link_record list \<times> diagnostics" where
  "link_step t ports = (\<lambda>(link, s) (out, g).
     let claim = se_value s;
         r = \<lparr>l_id = link, l_port_a = lc_port_a claim, l_port_b = lc_port_b claim, l_kind = lc_kind claim,
              l_capacity = lc_capacity claim, l_capacity_known = lc_capacity_known claim,
              l_availability = lc_availability claim, l_eligibility = Eligibility_kUnknown\<rparr>
     in
     case (find_sorted p_id (l_port_a r) ports, find_sorted p_id (l_port_b r) ports) of
       (Some a, Some b) \<Rightarrow>
         (let g = (if se_conflicted s
                   then diag_note DiagnosticKind_kConflictingEvidence EvidenceKind_kLink link (se_source s)
                          ''sources disagree about this link at the same generation'' g else g);
              excluded = device_excluded t (p_device a) \<or> device_excluded t (p_device b) \<or>
                exclusion_of t ResourceKind_kPort (p_id a) \<or> exclusion_of t ResourceKind_kPort (p_id b) \<or>
                exclusion_of t ResourceKind_kLink link;
              g = (if excluded
                   then diag_note DiagnosticKind_kMaintenanceExclusion EvidenceKind_kLink link (se_source s)
                          ''link touches a resource inside a drain or maintenance window'' g else g);
              r = r\<lparr>l_availability := combine_availability
                      (combine_availability (l_availability r) (p_availability a)) (p_availability b)\<rparr>;
              g = (if \<not> l_capacity_known r
                   then diag_note DiagnosticKind_kUnknownCapacity EvidenceKind_kLink link (se_source s)
                          ''link capacity was not measured'' g else g);
              r = (if p_capacity_known a \<and> p_capacity_known b
                   then r\<lparr>l_capacity := min_capacity (min_capacity (l_capacity r) (p_capacity a)) (p_capacity b)\<rparr>
                   else r\<lparr>l_capacity_known := False\<rparr>);
              elig = (if se_conflicted s then Eligibility_kIncomplete
                      else if excluded then Eligibility_kIneligible
                      else if \<not> l_capacity_known r \<or> \<not> is_usable (l_availability r) \<or>
                              p_eligibility a \<noteq> Eligibility_kEligible \<or> p_eligibility b \<noteq> Eligibility_kEligible
                      then Eligibility_kIneligible
                      else Eligibility_kEligible)
          in (out @ [r\<lparr>l_eligibility := elig\<rparr>], g))
     | _ \<Rightarrow>
         (out @ [r\<lparr>l_eligibility := Eligibility_kIncomplete\<rparr>],
          diag_note DiagnosticKind_kIncompleteTopology EvidenceKind_kLink link (se_source s)
            ''link endpoint is not a known port in this rack'' g))"

definition compose_links ::
  "compose_tables \<Rightarrow> port_record list \<Rightarrow> diagnostics \<Rightarrow> link_record list \<times> diagnostics" where
  "compose_links t ports g =
     (case fold (link_step t ports) (ct_links t) ([], g) of (out, g) \<Rightarrow> (sort_key l_id out, g))"

section \<open>Attachments\<close>

definition attachment_step ::
  "device_record list \<Rightarrow> port_record list \<Rightarrow> attachment_id \<times> attachment_claim selection \<Rightarrow>
   attachment_record list \<times> diagnostics \<Rightarrow> attachment_record list \<times> diagnostics" where
  "attachment_step devices ports = (\<lambda>(attachment, s) (out, g).
     let claim = se_value s;
         emit = (\<lambda>elig g. (out @ [\<lparr>a_id = attachment, a_device = ac_device claim, a_port = ac_port claim,
                                  a_host_key = ac_host_key claim, a_eligibility = elig\<rparr>], g))
     in
     case find_sorted d_id (ac_device claim) devices of
       None \<Rightarrow>
         emit Eligibility_kIncomplete
           (diag_note DiagnosticKind_kOutOfRack EvidenceKind_kAttachment attachment (se_source s)
              ''attachment names a device that is not a member of this rack'' g)
     | Some device \<Rightarrow>
         (case find_sorted p_id (ac_port claim) ports of
            None \<Rightarrow>
              emit Eligibility_kIncomplete
                (diag_note DiagnosticKind_kUnresolvedReference EvidenceKind_kAttachment attachment (se_source s)
                   ''attachment names a port that is not known'' g)
          | Some port \<Rightarrow>
              if p_device port \<noteq> ac_device claim then
                emit Eligibility_kIncomplete
                  (diag_note DiagnosticKind_kConflictingEvidence EvidenceKind_kAttachment attachment (se_source s)
                     ''attachment device does not own the named port'' g)
              else if se_conflicted s then
                emit Eligibility_kIncomplete
                  (diag_note DiagnosticKind_kConflictingEvidence EvidenceKind_kAttachment attachment (se_source s)
                     ''sources disagree about this attachment at the same generation'' g)
              else if d_eligibility device \<noteq> Eligibility_kEligible \<or> p_eligibility port \<noteq> Eligibility_kEligible
              then emit Eligibility_kIneligible g
              else emit Eligibility_kEligible g))"

definition compose_attachments ::
  "compose_tables \<Rightarrow> device_record list \<Rightarrow> port_record list \<Rightarrow> diagnostics \<Rightarrow>
   attachment_record list \<times> diagnostics" where
  "compose_attachments t devices ports g =
     (case fold (attachment_step devices ports) (ct_attachments t) ([], g) of
        (out, g) \<Rightarrow> (sort_key a_id out, g))"

section \<open>Maintenance and obligations\<close>

definition compose_maintenance :: "compose_tables \<Rightarrow> maintenance_record list" where
  "compose_maintenance t =
     sort_key (\<lambda>m. (m_target m, m_source m))
       (map (\<lambda>(key, target, e). \<lparr>m_action = mx_action e, m_target = target, m_reason = mx_reason e,
               m_source = mx_source e, m_sequence = mx_sequence e\<rparr>)
         (filter (\<lambda>(key, target, e). mx_excluded e) (ct_maintenance t)))"

definition target_in_rack ::
  "rack_config \<Rightarrow> compose_tables \<Rightarrow> port_record list \<Rightarrow> link_record list \<Rightarrow> resource_ref \<Rightarrow> bool" where
  "target_in_rack config t ports links target \<longleftrightarrow>
     (ref_kind target = ResourceKind_kRack \<and> ref_id target = rc_rack config) \<or>
     (ref_kind target = ResourceKind_kRack \<and> ref_id target = 0) \<or>
     (ref_kind target = ResourceKind_kDevice \<and> omap_get (ct_members t) (ref_id target) \<noteq> None) \<or>
     (ref_kind target = ResourceKind_kPort \<and> find_sorted p_id (ref_id target) ports \<noteq> None) \<or>
     (ref_kind target = ResourceKind_kLink \<and> find_sorted l_id (ref_id target) links \<noteq> None) \<or>
     (ref_kind target = ResourceKind_kAttachment \<and> omap_get (ct_attachments t) (ref_id target) \<noteq> None)"

record obligation_state =
  ob_records :: "obligation_record list"
  ob_buckets :: "(resource_ref, capacity) omap"
  ob_out_of_rack :: nat
  ob_diag :: diagnostics

fun obligation_loop ::
  "(resource_ref \<Rightarrow> bool) \<Rightarrow> (obligation_id \<times> resource_ref \<times> obligation_claim selection) list \<Rightarrow>
   obligation_state \<Rightarrow> obligation_state result" where
  "obligation_loop inside [] s = Inr s"
| "obligation_loop inside ((i, target, sel) # rest) s =
     (if \<not> inside target then
        obligation_loop inside rest
          (s\<lparr>ob_out_of_rack := ob_out_of_rack s + 1,
             ob_diag := diag_note DiagnosticKind_kOutOfRack EvidenceKind_kObligation (ref_id target) (se_source sel)
               ''imported obligation names a resource outside this rack'' (ob_diag s)\<rparr>)
      else
        (let claim = se_value sel;
             r = \<lparr>o_id = i, o_target = target, o_capacity = oc_capacity claim, o_holder = oc_holder claim,
                  o_authority = oc_authority claim, o_source = se_source sel\<rparr>;
             bucket = (case omap_get (ob_buckets s) target of Some c \<Rightarrow> c | None \<Rightarrow> 0)
         in
         case checked_add_u64 bucket (o_capacity r) of
           None \<Rightarrow> fail kOutOfRange ''obligation capacity overflowed''
         | Some units \<Rightarrow>
             obligation_loop inside rest
               (s\<lparr>ob_records := ob_records s @ [r], ob_buckets := omap_put target units (ob_buckets s)\<rparr>)))"

section \<open>The capacity ledger\<close>

fun device_sums :: "device_record list \<Rightarrow> capacity \<Rightarrow> capacity \<Rightarrow> (capacity \<times> capacity) result" where
  "device_sums [] tot unavailable = Inr (tot, unavailable)"
| "device_sums (d # ds) tot unavailable =
     (if \<not> d_capacity_known d then device_sums ds tot unavailable
      else
        (case checked_add_u64 tot (d_capacity d) of
           None \<Rightarrow> fail kOutOfRange ''device capacity sum overflowed''
         | Some tot \<Rightarrow>
             if d_eligibility d \<noteq> Eligibility_kEligible \<or> \<not> is_usable (d_availability d) then
               (case checked_add_u64 unavailable (d_capacity d) of
                  None \<Rightarrow> fail kOutOfRange ''unavailable capacity sum overflowed''
                | Some unavailable \<Rightarrow> device_sums ds tot unavailable)
             else device_sums ds tot unavailable))"

fun obligated_sum :: "(resource_ref \<times> capacity) list \<Rightarrow> capacity \<Rightarrow> capacity result" where
  "obligated_sum [] acc = Inr acc"
| "obligated_sum ((target, amount) # rest) acc =
     (case checked_add_u64 acc amount of
        None \<Rightarrow> fail kOutOfRange ''obligation sum overflowed''
      | Some units \<Rightarrow> obligated_sum rest units)"

definition compose_capacity ::
  "rack_config \<Rightarrow> device_record list \<Rightarrow> (resource_ref, capacity) omap \<Rightarrow> diagnostics \<Rightarrow>
   (capacity_ledger \<times> diagnostics) result" where
  "compose_capacity config devices buckets g =
     rnf_try (device_sums devices 0 0) (\<lambda>(tot, unavailable).
     or_fail (checked_sub_u64 tot unavailable) kIntegrityFailure ''capacity accounting underflowed'' (\<lambda>usable.
     rnf_try (obligated_sum buckets 0) (\<lambda>obligated.
     or_fail (checked_add_u64 obligated (rc_headroom_floor config)) kOutOfRange
       ''headroom plus obligations overflowed'' (\<lambda>claimed.
     let over = claimed > usable;
         c = \<lparr>k_total = tot, k_unavailable = unavailable, k_usable = usable, k_obligated = obligated,
              k_headroom_floor = rc_headroom_floor config,
              k_uncommitted = (if over then 0 else usable - claimed),
              k_deficit = (if over then claimed - usable else 0)\<rparr>;
         g = (if over
              then diag_note DiagnosticKind_kCapacityOvercommit EvidenceKind_kMember 0 0
                     ''obligations and reserved headroom exceed usable rack capacity'' g else g)
     in if \<not> closes c then fail kIntegrityFailure ''composed capacity ledger does not close''
        else Inr (c, g)))))"

section \<open>Paths\<close>

type_synonym adjacency = "(port_id, (link_id \<times> port_id) list) omap"

definition emplace :: "port_id \<Rightarrow> link_id \<times> port_id \<Rightarrow> adjacency \<Rightarrow> adjacency" where
  "emplace port e adj =
     omap_put port ((case omap_get adj port of Some es \<Rightarrow> es | None \<Rightarrow> []) @ [e]) adj"

definition adjacency_of :: "link_record list \<Rightarrow> adjacency" where
  "adjacency_of links =
     map (\<lambda>(port, es). (port, sort es))
       (fold (\<lambda>l adj.
          if l_eligibility l \<noteq> Eligibility_kEligible then adj
          else emplace (l_port_b l) (l_id l, l_port_a l) (emplace (l_port_a l) (l_id l, l_port_b l) adj))
        links [])"

definition access_ports :: "attachment_record list \<Rightarrow> port_id list" where
  "access_ports as =
     fold (\<lambda>a s. if a_eligibility a = Eligibility_kEligible then oset_insert (a_port a) s else s) as []"

definition exit_ports :: "port_record list \<Rightarrow> port_id list" where
  "exit_ports ports =
     fold (\<lambda>p s. if p_role p = PortRole_kUplink \<or> p_role p = PortRole_kFabric \<or> p_role p = PortRole_kPeer
                then oset_insert (p_id p) s else s) ports []"

definition max_expansions :: nat where "max_expansions = 2 ^ 18"

text \<open>
  The state of the search from one access port. \<open>df_frames\<close> holds the innermost frame first, a frame
  being a port and the number of neighbours already tried.
\<close>

record dfs_state =
  df_stack :: "link_id list"
  df_visited :: "port_id list"
  df_found :: "(port_id, nat) omap"
  df_frames :: "(port_id \<times> nat) list"
  df_candidates :: "path_candidate list"
  df_expansions :: nat
  df_truncated :: bool

record dfs_env =
  de_adjacency :: adjacency
  de_exits :: "port_id list"
  de_max_path_hops :: nat
  de_max_paths_per_pair :: nat
  de_max_paths :: nat

definition neighbours_of :: "dfs_env \<Rightarrow> port_id \<Rightarrow> (link_id \<times> port_id) list" where
  "neighbours_of env port = (case omap_get (de_adjacency env) port of Some es \<Rightarrow> es | None \<Rightarrow> [])"

text \<open>The body of the loop on one neighbour that has not been visited.\<close>

definition dfs_visit ::
  "dfs_env \<Rightarrow> port_id \<Rightarrow> link_id \<Rightarrow> port_id \<Rightarrow> dfs_state \<Rightarrow> dfs_state result" where
  "dfs_visit env start link port s =
     (if length (df_stack s) \<ge> de_max_path_hops env then Inr (s\<lparr>df_truncated := True\<rparr>)
      else
        (let candidate = \<lparr>pc_links = df_stack s @ [link], pc_start = start, pc_end = port\<rparr> in
         if port \<in> set (de_exits env) then
           (let count = (case omap_get (df_found s) port of Some n \<Rightarrow> n | None \<Rightarrow> 0);
                s = (if count < de_max_paths_per_pair env
                     then s\<lparr>df_found := omap_put port (count + 1) (df_found s),
                            df_candidates := df_candidates s @ [candidate]\<rparr>
                     else s\<lparr>df_found := omap_put port count (df_found s), df_truncated := True\<rparr>)
            in if length (df_candidates s) > de_max_paths env
               then fail kResourceExhausted ''path count exceeds the compose bound''
               else Inr s)
         else
           Inr (s\<lparr>df_visited := oset_insert port (df_visited s), df_stack := df_stack s @ [link],
                  df_frames := (port, 0) # df_frames s\<rparr>)))"

definition dfs_step :: "dfs_env \<Rightarrow> port_id \<Rightarrow> dfs_state \<Rightarrow> dfs_state result" where
  "dfs_step env start s =
     (case df_frames s of
        [] \<Rightarrow> Inr s
      | (port, next_neighbour) # frames \<Rightarrow>
          (let neighbours = neighbours_of env port in
           if next_neighbour \<ge> length neighbours then
             Inr (s\<lparr>df_visited := oset_erase port (df_visited s), df_frames := frames,
                    df_stack := butlast (df_stack s)\<rparr>)
           else
             (case neighbours ! next_neighbour of
                (link, next_port) \<Rightarrow>
                  (let s = s\<lparr>df_frames := (port, next_neighbour + 1) # frames\<rparr> in
                   if next_port \<in> set (df_visited s) then Inr s
                   else dfs_visit env start link next_port s))))"

lemma dfs_step_expansions: "dfs_step env start s = Inr s' \<Longrightarrow> df_expansions s' = df_expansions s"
  by (auto simp: dfs_step_def dfs_visit_def Let_def split: list.splits prod.splits if_splits)

function dfs_loop :: "dfs_env \<Rightarrow> port_id \<Rightarrow> dfs_state \<Rightarrow> dfs_state result" where
  "dfs_loop env start s =
     (if df_frames s = [] then Inr s
      else
        (let s = s\<lparr>df_expansions := df_expansions s + 1\<rparr> in
         if df_expansions s > max_expansions then Inr (s\<lparr>df_truncated := True\<rparr>)
         else
           (case dfs_step env start s of
              Inl st \<Rightarrow> Inl st
            | Inr s \<Rightarrow> dfs_loop env start s)))"
  by pat_completeness auto
termination
  by (relation "measure (\<lambda>(env, start, s). max_expansions - df_expansions s)")
    (auto dest: dfs_step_expansions)

declare dfs_loop.simps [simp del]

fun search_paths ::
  "dfs_env \<Rightarrow> port_id list \<Rightarrow> path_candidate list \<Rightarrow> nat \<Rightarrow> (path_candidate list \<times> bool) result" where
  "search_paths env [] found expansions = Inr (found, False)"
| "search_paths env (start # rest) found expansions =
     rnf_try (dfs_loop env start
         \<lparr>df_stack = [], df_visited = [start], df_found = [], df_frames = [(start, 0)],
          df_candidates = found, df_expansions = expansions, df_truncated = False\<rparr>)
       (\<lambda>s. if df_truncated s then Inr (df_candidates s, True)
            else search_paths env rest (df_candidates s) (df_expansions s))"

definition candidate_key :: "path_candidate \<Rightarrow> port_id \<times> port_id \<times> link_id list" where
  "candidate_key c = (pc_start c, pc_end c, pc_links c)"

definition compose_candidates ::
  "rack_config \<Rightarrow> compose_limits \<Rightarrow> port_record list \<Rightarrow> link_record list \<Rightarrow> attachment_record list \<Rightarrow>
   diagnostics \<Rightarrow> (path_candidate list \<times> diagnostics) result" where
  "compose_candidates config limits ports links attachments g =
     rnf_try (search_paths
         \<lparr>de_adjacency = adjacency_of links, de_exits = exit_ports ports,
          de_max_path_hops = rc_max_path_hops config, de_max_paths_per_pair = rc_max_paths_per_pair config,
          de_max_paths = cl_max_paths limits\<rparr> (access_ports attachments) [] 0)
       (\<lambda>(found, cut).
         let found = unique_adj (\<lambda>a b. pc_links a = pc_links b) (sort_key candidate_key found);
             over = length found > cl_max_paths limits;
             found = (if over then take (cl_max_paths limits) found else found)
         in Inr (found,
              if cut \<or> over
              then diag_note DiagnosticKind_kIncompleteTopology EvidenceKind_kLink 0 0
                     ''path enumeration was truncated at a configured bound'' g
              else g))"

fun bottleneck_scan :: "link_record list \<Rightarrow> link_id list \<Rightarrow> bool \<Rightarrow> capacity \<Rightarrow> bool \<times> capacity" where
  "bottleneck_scan links [] first b = (True, b)"
| "bottleneck_scan links (i # rest) first b =
     (case find_sorted l_id i links of
        None \<Rightarrow> (False, b)
      | Some l \<Rightarrow>
          if l_eligibility l \<noteq> Eligibility_kEligible \<or> \<not> l_capacity_known l then (False, b)
          else bottleneck_scan links rest False (if first then l_capacity l else min_capacity b (l_capacity l)))"

definition path_step ::
  "link_record list \<Rightarrow> path_candidate \<Rightarrow> path_record list \<times> diagnostics \<Rightarrow> path_record list \<times> diagnostics" where
  "path_step links c = (\<lambda>(out, g).
     case bottleneck_scan links (pc_links c) True 0 of
       (known, bottleneck) \<Rightarrow>
         (let i = path_identity (pc_links c) in
          (out @ [\<lparr>pa_id = i, pa_start_port = pc_start c, pa_end_port = pc_end c, pa_links = pc_links c,
                   pa_bottleneck = bottleneck, pa_bottleneck_known = known,
                   pa_eligibility = (if known then Eligibility_kEligible else Eligibility_kIncomplete)\<rparr>],
           if known then g
           else diag_note DiagnosticKind_kUnknownCapacity EvidenceKind_kLink i 0
                  ''path contains a link whose capacity is not known'' g)))"

definition compose_paths ::
  "link_record list \<Rightarrow> path_candidate list \<Rightarrow> diagnostics \<Rightarrow> path_record list \<times> diagnostics" where
  "compose_paths links found g =
     (case fold (path_step links) found ([], g) of
        (out, g) \<Rightarrow> (sort_key (\<lambda>p. (pa_start_port p, pa_end_port p, pa_links p)) out, g))"

section \<open>Resource states\<close>

definition resource_of ::
  "resource_ref \<Rightarrow> eligibility \<Rightarrow> availability \<Rightarrow> bool \<Rightarrow> capacity \<Rightarrow> capacity \<Rightarrow> bool \<Rightarrow> owner_ref list \<Rightarrow>
   resource_state" where
  "resource_of ref elig avail known cap oblig excluded owners =
     \<lparr>rs_ref = ref, rs_eligibility = elig, rs_availability = avail, rs_capacity_known = known,
      rs_capacity = cap, rs_obligated = oblig, rs_maintenance = excluded, rs_owners = sort_unique owners\<rparr>"

definition bucket_of :: "(resource_ref, capacity) omap \<Rightarrow> resource_kind \<Rightarrow> u64 \<Rightarrow> capacity" where
  "bucket_of buckets kind i = (case omap_get buckets (ResourceRef kind i) of Some c \<Rightarrow> c | None \<Rightarrow> 0)"

definition owner_of :: "device_record \<Rightarrow> owner_ref" where
  "owner_of d = OwnerRef (d_id d) (d_incarnation d)"

definition device_owner :: "device_record list \<Rightarrow> device_id \<Rightarrow> owner_ref list" where
  "device_owner devices i = (case find_sorted d_id i devices of Some d \<Rightarrow> [owner_of d] | None \<Rightarrow> [])"

definition port_owner :: "device_record list \<Rightarrow> port_record list \<Rightarrow> port_id \<Rightarrow> owner_ref list" where
  "port_owner devices ports i =
     (case find_sorted p_id i ports of Some p \<Rightarrow> device_owner devices (p_device p) | None \<Rightarrow> [])"

definition link_owners :: "device_record list \<Rightarrow> port_record list \<Rightarrow> link_record \<Rightarrow> owner_ref list" where
  "link_owners devices ports l =
     port_owner devices ports (l_port_a l) @ port_owner devices ports (l_port_b l)"

definition port_excluded :: "compose_tables \<Rightarrow> port_record list \<Rightarrow> port_id \<Rightarrow> bool" where
  "port_excluded t ports i =
     (case find_sorted p_id i ports of Some p \<Rightarrow> device_excluded t (p_device p) | None \<Rightarrow> False)"

definition attachment_capacity ::
  "device_record list \<Rightarrow> port_record list \<Rightarrow> attachment_record \<Rightarrow> bool \<times> capacity" where
  "attachment_capacity devices ports a =
     (case find_sorted p_id (a_port a) ports of
        None \<Rightarrow> (False, 0)
      | Some p \<Rightarrow>
          if \<not> p_capacity_known p then (False, 0)
          else
            (True,
             case find_sorted d_id (a_device a) devices of
               Some d \<Rightarrow> if d_capacity_known d then min_capacity (p_capacity p) (d_capacity d) else p_capacity p
             | None \<Rightarrow> p_capacity p))"

definition path_owners ::
  "device_record list \<Rightarrow> port_record list \<Rightarrow> link_record list \<Rightarrow> path_record \<Rightarrow> owner_ref list" where
  "path_owners devices ports links p =
     concat (map (\<lambda>i. case find_sorted l_id i links of
                        Some l \<Rightarrow> link_owners devices ports l | None \<Rightarrow> []) (pa_links p))"

definition compose_resources ::
  "rack_config \<Rightarrow> compose_tables \<Rightarrow> (resource_ref, capacity) omap \<Rightarrow> snapshot_data \<Rightarrow> resource_state list" where
  "compose_resources config t buckets d =
     (let devices = sd_devices d; ports = sd_ports d; links = sd_links d;
          rack = resource_of (ResourceRef ResourceKind_kRack (rc_rack config))
            (if rack_excluded t then Eligibility_kIneligible else Eligibility_kEligible)
            Availability_kUp True (k_total (sd_capacity d)) (bucket_of buckets ResourceKind_kRack 0)
            (rack_excluded t) (map owner_of devices);
          of_device = (\<lambda>x. resource_of (ResourceRef ResourceKind_kDevice (d_id x)) (d_eligibility x)
            (d_availability x) (d_capacity_known x) (d_capacity x)
            (bucket_of buckets ResourceKind_kDevice (d_id x)) (device_excluded t (d_id x)) [owner_of x]);
          of_port = (\<lambda>x. resource_of (ResourceRef ResourceKind_kPort (p_id x)) (p_eligibility x)
            (p_availability x) (p_capacity_known x) (p_capacity x)
            (bucket_of buckets ResourceKind_kPort (p_id x))
            (device_excluded t (p_device x) \<or> exclusion_of t ResourceKind_kPort (p_id x))
            (device_owner devices (p_device x)));
          of_link = (\<lambda>x. resource_of (ResourceRef ResourceKind_kLink (l_id x)) (l_eligibility x)
            (l_availability x) (l_capacity_known x) (l_capacity x)
            (bucket_of buckets ResourceKind_kLink (l_id x))
            (port_excluded t ports (l_port_a x) \<or> port_excluded t ports (l_port_b x) \<or>
             exclusion_of t ResourceKind_kLink (l_id x))
            (link_owners devices ports x));
          of_attachment = (\<lambda>x. resource_of (ResourceRef ResourceKind_kAttachment (a_id x)) (a_eligibility x)
            Availability_kUp (fst (attachment_capacity devices ports x)) (snd (attachment_capacity devices ports x))
            (bucket_of buckets ResourceKind_kAttachment (a_id x)) (device_excluded t (a_device x))
            (device_owner devices (a_device x)));
          of_path = (\<lambda>x. resource_of (ResourceRef ResourceKind_kPath (pa_id x)) (pa_eligibility x)
            Availability_kUp (pa_bottleneck_known x) (pa_bottleneck x)
            (bucket_of buckets ResourceKind_kPath (pa_id x)) False (path_owners devices ports links x))
      in unique_adj (\<lambda>a b. rs_ref a = rs_ref b) (sort_key rs_ref
           (rack # map of_device devices @ map of_port ports @ map of_link links @
            map of_attachment (sd_attachments d) @ map of_path (sd_paths d))))"

section \<open>Composition\<close>

definition bound_check :: "nat \<Rightarrow> nat \<Rightarrow> string \<Rightarrow> 'a result \<Rightarrow> 'a result" where
  "bound_check n limit detail k = (if n > limit then fail kResourceExhausted detail else k)"

text \<open>The rest of the function once no bound can be exceeded: paths, resources, diagnostics and digest.\<close>

definition compose_finish ::
  "rack_config \<Rightarrow> compose_input \<Rightarrow> evidence_ledger \<Rightarrow> compose_tables \<Rightarrow> device_record list \<Rightarrow> port_record list \<Rightarrow>
   link_record list \<Rightarrow> attachment_record list \<Rightarrow> obligation_state \<Rightarrow> capacity_ledger \<Rightarrow> path_candidate list \<Rightarrow>
   diagnostics \<Rightarrow> snapshot \<times> compose_stats" where
  "compose_finish config request l t devices ports links attachments ob cap found g =
     (case compose_paths links found g of (paths, g) \<Rightarrow>
        (let d = empty_snapshot_data\<lparr>sd_rack := rc_rack config, sd_generation := ci_generation request,
               sd_epoch := ci_epoch request, sd_lifecycle := ci_lifecycle request,
               sd_evidence_digest := ledger_digest l, sd_capacity := cap, sd_devices := devices,
               sd_ports := ports, sd_links := links, sd_attachments := attachments, sd_paths := paths,
               sd_maintenance := compose_maintenance t, sd_obligations := sort_key o_id (ob_records ob)\<rparr>;
             d = d\<lparr>sd_resources := compose_resources config t (ob_buckets ob) d,
                   sd_diagnostics := diag_finish g, sd_member_set_digest := member_set_digest devices\<rparr>;
             st = (ct_stats t)\<lparr>cs_slots_out_of_rack := cs_slots_out_of_rack (ct_stats t) + ob_out_of_rack ob,
               cs_member_devices := length devices, cs_paths_enumerated := length paths,
               cs_diagnostics := length (sd_diagnostics d)\<rparr>
         in (\<lparr>sn_ptr = Some d, sn_digest = snapshot_digest d\<rparr>, st)))"

definition compose :: "evidence_ledger \<Rightarrow> rack_config \<Rightarrow> compose_input \<Rightarrow> (snapshot \<times> compose_stats) result" where
  "compose l config request =
     (if rc_rack config = 0 then fail kInvalidIdentity ''rack configuration has no rack identity''
      else
        (let t = gather config request l; limits = ci_limits request in
         bound_check (length (ct_members t)) (cl_max_devices limits) ''member count exceeds the compose bound''
        (case compose_devices t of (devices, g) \<Rightarrow>
         bound_check (length devices) (cl_max_devices limits) ''device count exceeds the compose bound''
        (case compose_ports t devices g of (ports, g) \<Rightarrow>
         bound_check (length ports) (cl_max_ports limits) ''port count exceeds the compose bound''
        (case compose_links t ports g of (links, g) \<Rightarrow>
         bound_check (length links) (cl_max_links limits) ''link count exceeds the compose bound''
        (case compose_attachments t devices ports g of (attachments, g) \<Rightarrow>
         bound_check (length attachments) (cl_max_attachments limits) ''attachment count exceeds the compose bound''
        (bound_check (length (compose_maintenance t)) (cl_max_maintenance limits)
           ''maintenance record count exceeds the compose bound''
        (rnf_try (obligation_loop (target_in_rack config t ports links) (ct_obligations t)
            \<lparr>ob_records = [], ob_buckets = [], ob_out_of_rack = 0, ob_diag = g\<rparr>) (\<lambda>ob.
         bound_check (length (ob_records ob)) (cl_max_obligations limits)
           ''obligation count exceeds the compose bound''
        (rnf_try (compose_capacity config devices (ob_buckets ob) (ob_diag ob)) (\<lambda>(cap, g).
         rnf_try (compose_candidates config limits ports links attachments g) (\<lambda>(found, g).
         Inr (compose_finish config request l t devices ports links attachments ob cap found g)))))))))))))"

end
