(* ===== verification/Rnf_Compose_Props.thy ===== *)
theory Rnf_Compose_Props
  imports Rnf_Compose
begin

text \<open>
  What a composed snapshot is. Its records are strictly sorted by identity, its paths by start, end and
  links; its capacity ledger is the sum over its devices and obligations; a resource that it calls
  eligible rests on eligible resources that no directive drains; its paths are simple walks over
  eligible links. Composition is a function of the evidence, whatever the order it arrived in.
\<close>

section \<open>Emitting loops\<close>

text \<open>
  The loops over the selected claims share a contract: visiting a key appends at most one record,
  carrying that key and related to the visited entry. Such a loop over a map with ascending keys
  yields records with ascending keys, each related to an entry.
\<close>

locale emitter =
  fixes step :: "'k::linorder \<times> 'v \<Rightarrow> 'r list \<times> 's \<Rightarrow> 'r list \<times> 's"
    and key :: "'r \<Rightarrow> 'k"
    and good :: "'k \<times> 'v \<Rightarrow> 'r \<Rightarrow> bool"
  assumes emits: "\<exists>ys s'. step e (out, s) = (out @ ys, s') \<and>
      (ys = [] \<or> (\<exists>y. ys = [y] \<and> key y = fst e \<and> good e y))"
begin

lemma fold_emits:
  "\<exists>ys s'. fold step es (out, s) = (out @ ys, s') \<and> (\<forall>y\<in>set ys. \<exists>e\<in>set es. key y = fst e \<and> good e y) \<and>
     (strict_sorted (map fst es) \<longrightarrow> strict_sorted (map key ys))"
proof (induction es arbitrary: out s)
  case Nil
  show ?case by simp
next
  case (Cons e es)
  obtain ys s' where ys: "step e (out, s) = (out @ ys, s')"
    "ys = [] \<or> (\<exists>y. ys = [y] \<and> key y = fst e \<and> good e y)"
    using emits by blast
  obtain zs s'' where zs: "fold step es (out @ ys, s') = ((out @ ys) @ zs, s'')"
    "\<forall>y\<in>set zs. \<exists>e\<in>set es. key y = fst e \<and> good e y"
    "strict_sorted (map fst es) \<longrightarrow> strict_sorted (map key zs)"
    using Cons.IH by blast
  have "fold step (e # es) (out, s) = (out @ ys @ zs, s'')" using ys(1) zs(1) by simp
  moreover have "strict_sorted (map key (ys @ zs))" if "strict_sorted (map fst (e # es))"
    using that ys(2) zs(2,3) by (fastforce simp: sorted_wrt_append)
  ultimately show ?case using ys(2) zs(2)
    by (intro exI [of _ "ys @ zs"] exI [of _ s'']) auto
qed

lemma fold_emits_fst:
  assumes "fold step es ([], s) = (ys, s')" "strict_sorted (map fst es)"
  shows "strict_sorted (map key ys) \<and> (\<forall>y\<in>set ys. \<exists>e\<in>set es. key y = fst e \<and> good e y)"
  using fold_emits [of es "[]" s] assms by auto

end

section \<open>The four loops\<close>

definition device_good :: "compose_tables \<Rightarrow> device_id \<times> device_claim selection \<Rightarrow> device_record \<Rightarrow> bool" where
  "device_good t = (\<lambda>(i, s) y.
     \<exists>m. omap_get (ct_members t) i = Some m \<and> d_incarnation y = mi_incarnation m \<and>
       d_capacity y = dc_capacity (se_value s) \<and> d_capacity_known y = dc_capacity_known (se_value s) \<and>
       d_availability y = dc_availability (se_value s) \<and>
       (d_eligibility y = Eligibility_kEligible \<longleftrightarrow>
          \<not> se_conflicted s \<and> \<not> mi_indeterminate m \<and> \<not> device_excluded t i \<and> d_capacity_known y \<and>
          is_usable (d_availability y)))"

definition port_good ::
  "compose_tables \<Rightarrow> device_record list \<Rightarrow> port_id \<times> port_claim selection \<Rightarrow> port_record \<Rightarrow> bool" where
  "port_good t devices = (\<lambda>(i, s) y.
     omap_get (ct_members t) (p_device y) \<noteq> None \<and> p_device y = pc_device (se_value s) \<and>
     p_capacity y = pc_capacity (se_value s) \<and> p_role y = pc_role (se_value s) \<and>
     (p_eligibility y = Eligibility_kEligible \<longleftrightarrow>
        \<not> se_conflicted s \<and> \<not> device_excluded t (p_device y) \<and> \<not> exclusion_of t ResourceKind_kPort i \<and>
        (\<exists>d. find_sorted d_id (p_device y) devices = Some d \<and> d_eligibility d = Eligibility_kEligible) \<and>
        p_capacity_known y \<and> is_usable (p_availability y) \<and> p_admin y = AdminState_kEnabled))"

definition link_good ::
  "compose_tables \<Rightarrow> port_record list \<Rightarrow> link_id \<times> link_claim selection \<Rightarrow> link_record \<Rightarrow> bool" where
  "link_good t ports = (\<lambda>(i, s) y.
     l_port_a y = lc_port_a (se_value s) \<and> l_port_b y = lc_port_b (se_value s) \<and>
     (l_eligibility y = Eligibility_kEligible \<longleftrightarrow>
        (\<exists>a b. find_sorted p_id (l_port_a y) ports = Some a \<and> find_sorted p_id (l_port_b y) ports = Some b \<and>
           \<not> se_conflicted s \<and> \<not> device_excluded t (p_device a) \<and> \<not> device_excluded t (p_device b) \<and>
           \<not> exclusion_of t ResourceKind_kPort (p_id a) \<and> \<not> exclusion_of t ResourceKind_kPort (p_id b) \<and>
           \<not> exclusion_of t ResourceKind_kLink i \<and> p_eligibility a = Eligibility_kEligible \<and>
           p_eligibility b = Eligibility_kEligible \<and> l_capacity_known y \<and> is_usable (l_availability y))) \<and>
     (\<forall>a b. find_sorted p_id (l_port_a y) ports = Some a \<longrightarrow> find_sorted p_id (l_port_b y) ports = Some b \<longrightarrow>
        l_capacity_known y \<longrightarrow>
        p_capacity_known a \<and> p_capacity_known b \<and>
        l_capacity y = min (min (lc_capacity (se_value s)) (p_capacity a)) (p_capacity b)))"

definition attachment_good ::
  "device_record list \<Rightarrow> port_record list \<Rightarrow> attachment_id \<times> attachment_claim selection \<Rightarrow>
   attachment_record \<Rightarrow> bool" where
  "attachment_good devices ports = (\<lambda>(i, s) y.
     a_device y = ac_device (se_value s) \<and> a_port y = ac_port (se_value s) \<and>
     (a_eligibility y = Eligibility_kEligible \<longleftrightarrow>
        (\<exists>d p. find_sorted d_id (a_device y) devices = Some d \<and> find_sorted p_id (a_port y) ports = Some p \<and>
           p_device p = a_device y \<and> \<not> se_conflicted s \<and> d_eligibility d = Eligibility_kEligible \<and>
           p_eligibility p = Eligibility_kEligible)))"

lemma min_capacity_min: "min_capacity a b = min a b"
  by (simp add: min_capacity_def min_def)

interpretation device_loop: emitter "device_step t" d_id "device_good t" for t
proof
  fix e :: "device_id \<times> device_claim selection" and out :: "device_record list" and s :: diagnostics
  obtain i sel where e: "e = (i, sel)" by (cases e)
  show "\<exists>ys s'. device_step t e (out, s) = (out @ ys, s') \<and>
      (ys = [] \<or> (\<exists>y. ys = [y] \<and> d_id y = fst e \<and> device_good t e y))"
    by (cases "omap_get (ct_members t) i") (auto simp: e device_step_def device_good_def Let_def)
qed

interpretation port_loop: emitter "port_step t devices" p_id "port_good t devices" for t devices
proof
  fix e :: "port_id \<times> port_claim selection" and out :: "port_record list"
    and s :: "(u64 \<times> u16, port_id) omap \<times> diagnostics"
  obtain i sel where e: "e = (i, sel)" by (cases e)
  obtain keys g where s: "s = (keys, g)" by (cases s)
  show "\<exists>ys s'. port_step t devices e (out, s) = (out @ ys, s') \<and>
      (ys = [] \<or> (\<exists>y. ys = [y] \<and> p_id y = fst e \<and> port_good t devices e y))"
    by (cases "find_sorted d_id (pc_device (se_value sel)) devices")
      (auto simp: e s port_step_def port_good_def Let_def)
qed

interpretation link_loop: emitter "link_step t ports" l_id "link_good t ports" for t ports
proof
  fix e :: "link_id \<times> link_claim selection" and out :: "link_record list" and s :: diagnostics
  obtain i sel where e: "e = (i, sel)" by (cases e)
  show "\<exists>ys s'. link_step t ports e (out, s) = (out @ ys, s') \<and>
      (ys = [] \<or> (\<exists>y. ys = [y] \<and> l_id y = fst e \<and> link_good t ports e y))"
    by (cases "find_sorted p_id (lc_port_a (se_value sel)) ports";
        cases "find_sorted p_id (lc_port_b (se_value sel)) ports")
      (auto simp: e link_step_def link_good_def Let_def min_capacity_min)
qed

interpretation attachment_loop: emitter "attachment_step devices ports" a_id "attachment_good devices ports"
  for devices ports
proof
  fix e :: "attachment_id \<times> attachment_claim selection" and out :: "attachment_record list" and s :: diagnostics
  obtain i sel where e: "e = (i, sel)" by (cases e)
  show "\<exists>ys s'. attachment_step devices ports e (out, s) = (out @ ys, s') \<and>
      (ys = [] \<or> (\<exists>y. ys = [y] \<and> a_id y = fst e \<and> attachment_good devices ports e y))"
    by (cases "find_sorted d_id (ac_device (se_value sel)) devices";
        cases "find_sorted p_id (ac_port (se_value sel)) ports")
      (auto simp: e attachment_step_def attachment_good_def Let_def)
qed

section \<open>The tables\<close>

definition tables_ok :: "compose_tables \<Rightarrow> bool" where
  "tables_ok t \<longleftrightarrow>
     omap_ok (ct_members t) \<and> omap_ok (ct_devices t) \<and> omap_ok (ct_ports t) \<and> omap_ok (ct_links t) \<and>
     omap_ok (ct_attachments t) \<and> omap_ok (ct_maintenance t) \<and> omap_ok (ct_obligations t)"

lemma tables_ok_gather_claim: "tables_ok t \<Longrightarrow> tables_ok (gather_claim rack r t)"
  by (cases "er_payload r")
    (auto simp: tables_ok_def gather_claim_def gather_member_def gather_maintenance_def gather_obligation_def
      omap_ok_put Let_def split: option.split)

lemma tables_ok_gather_record: "tables_ok t \<Longrightarrow> tables_ok (gather_record config request e t)"
proof -
  assume t: "tables_ok t"
  have stats: "tables_ok (t\<lparr>ct_stats := st\<rparr>) \<longleftrightarrow> tables_ok t" "tables_ok (t\<lparr>ct_stats := st, ct_diag := g\<rparr>) \<longleftrightarrow> tables_ok t"
    for t st g by (simp_all add: tables_ok_def)
  obtain slot r where "e = (slot, r)" by (cases e)
  with t show ?thesis
    by (cases "applicability_of r (ci_generation request)")
      (simp_all add: gather_record_def Let_def stats tables_ok_gather_claim)
qed

lemma tables_ok_gather: "tables_ok (gather config request l)"
proof -
  have "tables_ok (fold (gather_record config request) es t)" if "tables_ok t" for es t
    using that by (induction es arbitrary: t) (simp_all add: tables_ok_gather_record)
  moreover have "tables_ok (empty_tables n)" for n by (simp add: tables_ok_def empty_tables_def)
  ultimately show ?thesis by (simp add: gather_def)
qed

lemma tables_okD:
  assumes "tables_ok t"
  shows "strict_sorted (map fst (ct_members t))" "strict_sorted (map fst (ct_devices t))"
    "strict_sorted (map fst (ct_ports t))" "strict_sorted (map fst (ct_links t))"
    "strict_sorted (map fst (ct_attachments t))" "strict_sorted (map fst (ct_obligations t))"
  using assms by (simp_all add: tables_ok_def omap_ok_def)

section \<open>The containers\<close>

lemma unique_adj_keys: "f ` set (unique_adj (\<lambda>a b. f a = f b) xs) = f ` set xs"
  by (induction "\<lambda>a b. f a = f b" xs rule: unique_adj.induct) auto

lemma sort_key_strict: "strict_sorted (map f xs) \<Longrightarrow> sort_key f xs = xs"
proof -
  assume "strict_sorted (map f xs)"
  then have "sorted (map f xs)" by (simp add: strict_sorted_iff)
  then show ?thesis by (rule sort_key_id_if_sorted)
qed

definition unobserved_good :: "compose_tables \<Rightarrow> device_id \<times> member_info \<Rightarrow> device_record \<Rightarrow> bool" where
  "unobserved_good t = (\<lambda>(i, info) y.
     omap_get (ct_devices t) i = None \<and> d_incarnation y = mi_incarnation info \<and>
     d_eligibility y = Eligibility_kIncomplete \<and> \<not> d_capacity_known y)"

interpretation unobserved_loop: emitter "unobserved_step t" d_id "unobserved_good t" for t
proof
  fix e :: "device_id \<times> member_info" and out :: "device_record list" and s :: diagnostics
  obtain i info where e: "e = (i, info)" by (cases e)
  show "\<exists>ys s'. unobserved_step t e (out, s) = (out @ ys, s') \<and>
      (ys = [] \<or> (\<exists>y. ys = [y] \<and> d_id y = fst e \<and> unobserved_good t e y))"
    by (auto simp: e unobserved_step_def unobserved_good_def)
qed

lemma device_step_ids:
  "d_id ` set (fst (fold (device_step t) es (out, g))) =
     d_id ` set out \<union> {i \<in> fst ` set es. omap_get (ct_members t) i \<noteq> None}"
proof (induction es arbitrary: out g)
  case (Cons e es)
  obtain i s where e: "e = (i, s)" by (cases e)
  show ?case
  proof (cases "omap_get (ct_members t) i")
    case None
    then show ?thesis using Cons by (simp add: e device_step_def) auto
  next
    case (Some m)
    then obtain y g' where "device_step t e (out, g) = (out @ [y], g')" "d_id y = i"
      by (auto simp: e device_step_def Let_def)
    then show ?thesis using Cons Some by (auto simp: e)
  qed
qed simp

lemma unobserved_step_ids:
  "d_id ` set (fst (fold (unobserved_step t) es (out, g))) =
     d_id ` set out \<union> {i \<in> fst ` set es. omap_get (ct_devices t) i = None}"
proof (induction es arbitrary: out g)
  case (Cons e es)
  obtain i s where e: "e = (i, s)" by (cases e)
  show ?case using Cons by (cases "omap_get (ct_devices t) i") (auto simp: e unobserved_step_def)
qed simp

definition device_sound :: "compose_tables \<Rightarrow> device_record \<Rightarrow> bool" where
  "device_sound t y \<longleftrightarrow>
     (\<exists>m. omap_get (ct_members t) (d_id y) = Some m \<and> d_incarnation y = mi_incarnation m \<and>
        (d_eligibility y = Eligibility_kEligible \<longrightarrow>
           \<not> mi_indeterminate m \<and> \<not> device_excluded t (d_id y) \<and> d_capacity_known y \<and>
           is_usable (d_availability y)))"

lemma compose_devices_facts:
  assumes "tables_ok t" "compose_devices t = (devices, g)"
  shows "strict_sorted (map d_id devices)" "d_id ` set devices = fst ` set (ct_members t)"
    "\<forall>y\<in>set devices. device_sound t y"
proof -
  obtain out1 g1 where 1: "fold (device_step t) (ct_devices t) ([], ct_diag t) = (out1, g1)" by fastforce
  obtain out2 g2 where 2: "fold (unobserved_step t) (ct_members t) (out1, g1) = (out2, g2)" by fastforce
  have devices: "devices = unique_adj (\<lambda>a b. d_id a = d_id b) (sort_key d_id out2)"
    using assms(2) by (simp add: compose_devices_def 1 2)
  show "strict_sorted (map d_id devices)" unfolding devices by (rule unique_adj_key_strict) simp
  have "d_id ` set out2 = {i \<in> fst ` set (ct_devices t). i \<in> fst ` set (ct_members t)} \<union>
      {i \<in> fst ` set (ct_members t). i \<notin> fst ` set (ct_devices t)}"
    using device_step_ids [of t "ct_devices t" "[]" "ct_diag t"] unobserved_step_ids [of t "ct_members t" out1 g1]
    by (simp add: 1 2 map_of_eq_None_iff)
  then have "d_id ` set out2 = fst ` set (ct_members t)" by blast
  then show "d_id ` set devices = fst ` set (ct_members t)"
    unfolding devices unique_adj_keys by simp
  obtain ys where ys: "out2 = out1 @ ys" "\<forall>y\<in>set ys. \<exists>e\<in>set (ct_members t). d_id y = fst e \<and> unobserved_good t e y"
    using unobserved_loop.fold_emits [of t "ct_members t" out1 g1] 2 by auto
  have out1: "\<forall>y\<in>set out1. \<exists>e\<in>set (ct_devices t). d_id y = fst e \<and> device_good t e y"
    using device_loop.fold_emits [of t "ct_devices t" "[]" "ct_diag t"] 1 by auto
  have "device_sound t y" if "y \<in> set out2" for y
  proof (cases "y \<in> set out1")
    case True
    with out1 show ?thesis by (fastforce simp: device_good_def device_sound_def)
  next
    case False
    with that ys obtain e where "e \<in> set (ct_members t)" "d_id y = fst e" "unobserved_good t e y" by auto
    moreover have "omap_get (ct_members t) (fst e) = Some (snd e)"
      using \<open>e \<in> set (ct_members t)\<close> assms(1) omap_get_iff [of "ct_members t"] by (simp add: tables_ok_def)
    ultimately show ?thesis by (auto simp: unobserved_good_def device_sound_def split: prod.splits)
  qed
  then show "\<forall>y\<in>set devices. device_sound t y"
    using set_unique_adj_sub [of "\<lambda>a b. d_id a = d_id b" "sort_key d_id out2"] by (auto simp: devices)
qed

lemma compose_ports_facts:
  assumes "tables_ok t" "compose_ports t devices g = (ports, g')"
  shows "strict_sorted (map p_id ports)" "\<forall>y\<in>set ports. \<exists>s. (p_id y, s) \<in> set (ct_ports t) \<and> port_good t devices (p_id y, s) y"
proof -
  obtain out keys where "fold (port_step t devices) (ct_ports t) ([], [], g) = (out, keys, g')"
    "ports = sort_key p_id out"
    using assms(2) by (auto simp: compose_ports_def split: prod.splits)
  with port_loop.fold_emits_fst [of t devices "ct_ports t" "([], g)" out "(keys, g')"] tables_okD(3) [OF assms(1)]
  show "strict_sorted (map p_id ports)" "\<forall>y\<in>set ports. \<exists>s. (p_id y, s) \<in> set (ct_ports t) \<and> port_good t devices (p_id y, s) y"
    by (fastforce simp: sort_key_strict)+
qed

lemma compose_links_facts:
  assumes "tables_ok t" "compose_links t ports g = (links, g')"
  shows "strict_sorted (map l_id links)" "\<forall>y\<in>set links. \<exists>s. (l_id y, s) \<in> set (ct_links t) \<and> link_good t ports (l_id y, s) y"
proof -
  obtain out where "fold (link_step t ports) (ct_links t) ([], g) = (out, g')" "links = sort_key l_id out"
    using assms(2) by (auto simp: compose_links_def split: prod.splits)
  with link_loop.fold_emits_fst [of t ports "ct_links t" g out g'] tables_okD(4) [OF assms(1)]
  show "strict_sorted (map l_id links)" "\<forall>y\<in>set links. \<exists>s. (l_id y, s) \<in> set (ct_links t) \<and> link_good t ports (l_id y, s) y"
    by (fastforce simp: sort_key_strict)+
qed

lemma compose_attachments_facts:
  assumes "tables_ok t" "compose_attachments t devices ports g = (attachments, g')"
  shows "strict_sorted (map a_id attachments)"
    "\<forall>y\<in>set attachments. \<exists>s. attachment_good devices ports (a_id y, s) y"
proof -
  obtain out where "fold (attachment_step devices ports) (ct_attachments t) ([], g) = (out, g')"
    "attachments = sort_key a_id out"
    using assms(2) by (auto simp: compose_attachments_def split: prod.splits)
  with attachment_loop.fold_emits_fst [of devices ports "ct_attachments t" g out g'] tables_okD(5) [OF assms(1)]
  show "strict_sorted (map a_id attachments)" "\<forall>y\<in>set attachments. \<exists>s. attachment_good devices ports (a_id y, s) y"
    by (fastforce simp: sort_key_strict)+
qed

section \<open>A successful composition\<close>

lemma bound_check_Inr: "bound_check n m d k = Inr x \<longleftrightarrow> n \<le> m \<and> k = Inr x"
  by (auto simp: bound_check_def)

text \<open>The stages of a composition that returned, from the tables to the data of the snapshot.\<close>

definition composed ::
  "rack_config \<Rightarrow> compose_input \<Rightarrow> evidence_ledger \<Rightarrow> snapshot_data \<Rightarrow> (resource_ref, capacity) omap \<Rightarrow> bool" where
  "composed config request l d buckets \<longleftrightarrow>
     (let t = gather config request l; limits = ci_limits request in
      rc_rack config \<noteq> 0 \<and>
      (\<exists>g1 g2 g3 g4 g5 g6 g7 ob found.
         compose_devices t = (sd_devices d, g1) \<and> length (sd_devices d) \<le> cl_max_devices limits \<and>
         compose_ports t (sd_devices d) g1 = (sd_ports d, g2) \<and> length (sd_ports d) \<le> cl_max_ports limits \<and>
         compose_links t (sd_ports d) g2 = (sd_links d, g3) \<and> length (sd_links d) \<le> cl_max_links limits \<and>
         compose_attachments t (sd_devices d) (sd_ports d) g3 = (sd_attachments d, g4) \<and>
         length (sd_attachments d) \<le> cl_max_attachments limits \<and>
         sd_maintenance d = compose_maintenance t \<and> length (sd_maintenance d) \<le> cl_max_maintenance limits \<and>
         obligation_loop (target_in_rack config t (sd_ports d) (sd_links d)) (ct_obligations t)
           \<lparr>ob_records = [], ob_buckets = [], ob_out_of_rack = 0, ob_diag = g4\<rparr> = Inr ob \<and>
         ob_buckets ob = buckets \<and> sd_obligations d = sort_key o_id (ob_records ob) \<and>
         length (sd_obligations d) \<le> cl_max_obligations limits \<and>
         compose_capacity config (sd_devices d) buckets (ob_diag ob) = Inr (sd_capacity d, g5) \<and>
         compose_candidates config limits (sd_ports d) (sd_links d) (sd_attachments d) g5 = Inr (found, g6) \<and>
         compose_paths (sd_links d) found g6 = (sd_paths d, g7) \<and>
         sd_resources d = compose_resources config t buckets d \<and> sd_diagnostics d = diag_finish g7) \<and>
      sd_rack d = rc_rack config \<and> sd_generation d = ci_generation request \<and> sd_epoch d = ci_epoch request \<and>
      sd_lifecycle d = ci_lifecycle request \<and> sd_evidence_digest d = ledger_digest l \<and>
      sd_member_set_digest d = member_set_digest (sd_devices d))"

lemma compose_resources_cong:
  "sd_devices d = sd_devices e \<Longrightarrow> sd_ports d = sd_ports e \<Longrightarrow> sd_links d = sd_links e \<Longrightarrow>
   sd_attachments d = sd_attachments e \<Longrightarrow> sd_paths d = sd_paths e \<Longrightarrow> sd_capacity d = sd_capacity e \<Longrightarrow>
   compose_resources config t buckets d = compose_resources config t buckets e"
  by (simp add: compose_resources_def)

lemma compose_Inr:
  assumes "compose l config request = Inr (s, st)"
  obtains d buckets where "sn_ptr s = Some d" "sn_digest s = snapshot_digest d" "composed config request l d buckets"
proof -
  define t where "t = gather config request l"
  obtain devices g1 where 1: "compose_devices t = (devices, g1)" by fastforce
  obtain ports g2 where 2: "compose_ports t devices g1 = (ports, g2)" by fastforce
  obtain links g3 where 3: "compose_links t ports g2 = (links, g3)" by fastforce
  obtain attachments g4 where 4: "compose_attachments t devices ports g3 = (attachments, g4)" by fastforce
  obtain ob cap g5 found g6 where
    lens: "length devices \<le> cl_max_devices (ci_limits request)" "length ports \<le> cl_max_ports (ci_limits request)"
      "length links \<le> cl_max_links (ci_limits request)" "length attachments \<le> cl_max_attachments (ci_limits request)"
      "length (compose_maintenance t) \<le> cl_max_maintenance (ci_limits request)"
      "length (ob_records ob) \<le> cl_max_obligations (ci_limits request)" and
    rack: "rc_rack config \<noteq> 0" and
    ob: "obligation_loop (target_in_rack config t ports links) (ct_obligations t)
      \<lparr>ob_records = [], ob_buckets = [], ob_out_of_rack = 0, ob_diag = g4\<rparr> = Inr ob" and
    cap: "compose_capacity config devices (ob_buckets ob) (ob_diag ob) = Inr (cap, g5)" and
    found: "compose_candidates config (ci_limits request) ports links attachments g5 = Inr (found, g6)" and
    out: "compose_finish config request l t devices ports links attachments ob cap found g6 = (s, st)"
    using assms unfolding compose_def t_def [symmetric] Let_def 1 2 3 4 case_prod_conv
    by (auto simp: rnf_try_Inr_iff bound_check_Inr split: if_split_asm)
  obtain paths g7 where 7: "compose_paths links found g6 = (paths, g7)" by fastforce
  define d0 where "d0 = empty_snapshot_data\<lparr>sd_rack := rc_rack config, sd_generation := ci_generation request,
              sd_epoch := ci_epoch request, sd_lifecycle := ci_lifecycle request,
              sd_evidence_digest := ledger_digest l, sd_capacity := cap, sd_devices := devices,
              sd_ports := ports, sd_links := links, sd_attachments := attachments, sd_paths := paths,
              sd_maintenance := compose_maintenance t, sd_obligations := sort_key o_id (ob_records ob)\<rparr>"
  define d where "d = d0\<lparr>sd_resources := compose_resources config t (ob_buckets ob) d0,
                  sd_diagnostics := diag_finish g7, sd_member_set_digest := member_set_digest devices\<rparr>"
  have s: "sn_ptr s = Some d" "sn_digest s = snapshot_digest d"
    using out unfolding compose_finish_def 7 case_prod_conv Let_def d0_def [symmetric] d_def [symmetric] by auto
  have "compose_resources config t (ob_buckets ob) d0 = compose_resources config t (ob_buckets ob) d"
    by (rule compose_resources_cong) (simp_all add: d_def)
  then have "composed config request l d (ob_buckets ob)"
    unfolding composed_def Let_def t_def [symmetric]
    using lens rack ob cap found 1 2 3 4 7 by (simp add: d_def d0_def)
  with s show thesis by (rule that)
qed

end
