(* ===== verification/Rnf_Compose_Paths.thy ===== *)
theory Rnf_Compose_Paths
  imports Rnf_Compose_Props
begin

text \<open>
  The path search of \<^verbatim>\<open>compose/composer.cpp\<close>. The iterative depth first search over an explicit stack of
  frames is shown to implement a recursive enumeration of simple walks, which in turn is characterised
  by a relation on the links alone. The paths of a composed snapshot are then exactly the simple walks
  over eligible links from an access port to its first exit, unless a bound cut the search short, in
  which case they are some of them and the snapshot says so.
\<close>

section \<open>Walks\<close>

text \<open>One eligible link between two ports, in either direction, and sequences of hops over such links.\<close>

definition hop :: "link_record list \<Rightarrow> port_id \<Rightarrow> link_id \<Rightarrow> port_id \<Rightarrow> bool" where
  "hop links p i q \<longleftrightarrow>
     (\<exists>l\<in>set links. l_eligibility l = Eligibility_kEligible \<and> l_id l = i \<and>
        (l_port_a l = p \<and> l_port_b l = q \<or> l_port_b l = p \<and> l_port_a l = q))"

fun walk :: "link_record list \<Rightarrow> port_id \<Rightarrow> (link_id \<times> port_id) list \<Rightarrow> bool" where
  "walk links p [] \<longleftrightarrow> True"
| "walk links p ((i, q) # hops) \<longleftrightarrow> hop links p i q \<and> walk links q hops"

text \<open>A simple walk that meets an exit at its end and nowhere before.\<close>

definition route :: "link_record list \<Rightarrow> port_id list \<Rightarrow> port_id \<Rightarrow> (link_id \<times> port_id) list \<Rightarrow> bool" where
  "route links exits start hops \<longleftrightarrow>
     hops \<noteq> [] \<and> walk links start hops \<and> distinct (start # map snd hops) \<and>
     (\<forall>q\<in>set (map snd (butlast hops)). q \<notin> set exits) \<and> snd (last hops) \<in> set exits"

section \<open>The adjacency table\<close>

definition edges_at :: "adjacency \<Rightarrow> port_id \<Rightarrow> (link_id \<times> port_id) list" where
  "edges_at adj p = (case omap_get adj p of Some es \<Rightarrow> es | None \<Rightarrow> [])"

lemma edges_at_emplace: "edges_at (emplace p e adj) k = edges_at adj k @ (if k = p then [e] else [])"
  by (simp add: edges_at_def emplace_def omap_get_put)

lemma edges_at_map: "edges_at (map (\<lambda>(p, es). (p, sort es)) adj) k = sort (edges_at adj k)"
proof -
  have "map_of (map (\<lambda>(p, es). (p, sort es)) adj) k = map_option sort (map_of adj k)"
    by (induction adj) auto
  then show ?thesis by (simp add: edges_at_def split: option.split)
qed

lemma set_edges_at_fold:
  "set (edges_at (fold (\<lambda>l adj.
          if l_eligibility l \<noteq> Eligibility_kEligible then adj
          else emplace (l_port_b l) (l_id l, l_port_a l) (emplace (l_port_a l) (l_id l, l_port_b l) adj)) links adj) p) =
     set (edges_at adj p) \<union> {(i, q). hop links p i q}"
proof (induction links arbitrary: adj)
  case Nil
  show ?case by (simp add: hop_def)
next
  case (Cons l links)
  have "hop (l # links) p i q \<longleftrightarrow> hop links p i q \<or> hop [l] p i q" for i q by (auto simp: hop_def)
  then show ?case
    unfolding fold.simps comp_def Cons by (auto simp: edges_at_emplace hop_def)
qed

lemma set_neighbours_of:
  "de_adjacency env = adjacency_of links \<Longrightarrow> set (neighbours_of env p) = {(i, q). hop links p i q}"
  using set_edges_at_fold [of links "[]" p]
  by (simp add: neighbours_of_def edges_at_def [symmetric] adjacency_of_def edges_at_map) (simp add: edges_at_def)

section \<open>The recursive enumeration\<close>

text \<open>
  All continuations of a partial walk at \<open>port\<close> by at most \<open>n\<close> further hops, where \<open>visited\<close> holds the
  ports of the partial walk and \<open>stack\<close> its links.
\<close>

fun continuations ::
  "dfs_env \<Rightarrow> port_id \<Rightarrow> nat \<Rightarrow> port_id set \<Rightarrow> link_id list \<Rightarrow> (link_id \<times> port_id) list \<Rightarrow> path_candidate list" where
  "continuations env start n visited stack [] = []"
| "continuations env start 0 visited stack es = []"
| "continuations env start (Suc n) visited stack ((link, port) # es) =
     (if port \<in> visited then []
      else if port \<in> set (de_exits env) then [\<lparr>pc_links = stack @ [link], pc_start = start, pc_end = port\<rparr>]
      else continuations env start n (insert port visited) (stack @ [link]) (neighbours_of env port)) @
     continuations env start (Suc n) visited stack es"

text \<open>What the frames of a search still have to enumerate, innermost frame first.\<close>

fun pending :: "dfs_env \<Rightarrow> port_id \<Rightarrow> link_id list \<Rightarrow> (port_id \<times> nat) list \<Rightarrow> path_candidate list" where
  "pending env start stack [] = []"
| "pending env start stack ((port, k) # frames) =
     continuations env start (de_max_path_hops env - length stack) (set (map fst ((port, k) # frames))) stack
       (drop k (neighbours_of env port)) @
     pending env start (butlast stack) frames"

definition frames_ok :: "dfs_state \<Rightarrow> bool" where
  "frames_ok s \<longleftrightarrow>
     distinct (map fst (df_frames s)) \<and> set (df_visited s) = set (map fst (df_frames s)) \<and>
     length (df_stack s) = length (df_frames s) - 1"

lemma fst_mem: "(a, b) \<in> set xs \<Longrightarrow> a \<in> fst ` set xs"
  by force

lemma continuations_0 [simp]: "continuations env start 0 visited stack es = []"
  by (cases es) simp_all

lemma continuations_skip:
  "port \<in> visited \<Longrightarrow> continuations env start n visited stack ((link, port) # es) = continuations env start n visited stack es"
  by (cases n; cases es) simp_all

lemma dfs_step_simps:
  assumes "df_frames s = (port, k) # frames"
  shows "length (neighbours_of env port) \<le> k \<Longrightarrow> dfs_step env start s =
      Inr (s\<lparr>df_visited := oset_erase port (df_visited s), df_frames := frames, df_stack := butlast (df_stack s)\<rparr>)"
    "k < length (neighbours_of env port) \<Longrightarrow> neighbours_of env port ! k = (link, q) \<Longrightarrow> q \<in> set (df_visited s) \<Longrightarrow>
       dfs_step env start s = Inr (s\<lparr>df_frames := (port, Suc k) # frames\<rparr>)"
    "k < length (neighbours_of env port) \<Longrightarrow> neighbours_of env port ! k = (link, q) \<Longrightarrow> q \<notin> set (df_visited s) \<Longrightarrow>
       dfs_step env start s = dfs_visit env start link q (s\<lparr>df_frames := (port, Suc k) # frames\<rparr>)"
  using assms by (simp_all add: dfs_step_def)

text \<open>
  The search relation: a step only moves results from what is pending to the candidates found, and it
  loses none of them unless it raises the truncation flag.
\<close>

definition search_keeps :: "dfs_env \<Rightarrow> port_id \<Rightarrow> dfs_state \<Rightarrow> dfs_state \<Rightarrow> bool" where
  "search_keeps env start s s' \<longleftrightarrow>
     (df_truncated s \<longrightarrow> df_truncated s') \<and> set (df_candidates s) \<subseteq> set (df_candidates s') \<and>
     set (df_candidates s' @ pending env start (df_stack s') (df_frames s')) \<subseteq>
       set (df_candidates s @ pending env start (df_stack s) (df_frames s)) \<and>
     (\<not> df_truncated s' \<longrightarrow>
        set (df_candidates s @ pending env start (df_stack s) (df_frames s)) \<subseteq>
          set (df_candidates s' @ pending env start (df_stack s') (df_frames s')))"

lemma search_keeps_refl: "search_keeps env start s s"
  by (simp add: search_keeps_def)

lemma search_keeps_trans:
  "search_keeps env start s t \<Longrightarrow> search_keeps env start t u \<Longrightarrow> search_keeps env start s u"
  unfolding search_keeps_def by blast

lemma dfs_visit_keeps:
  assumes "dfs_visit env start link q (s\<lparr>df_frames := (port, Suc k) # frames\<rparr>) = Inr s'"
    and "frames_ok s" "df_frames s = (port, k) # frames" "q \<notin> set (df_visited s)"
    and "k < length (neighbours_of env port)" "neighbours_of env port ! k = (link, q)"
  shows "frames_ok s' \<and> search_keeps env start s s'"
proof -
  have drop: "drop k (neighbours_of env port) = (link, q) # drop (Suc k) (neighbours_of env port)"
    using assms(5,6) by (metis Cons_nth_drop_Suc)
  have fresh: "q \<noteq> port" "q \<notin> fst ` set frames"
    using assms(2,3,4) by (auto simp: frames_ok_def)
  consider (cut) "length (df_stack s) \<ge> de_max_path_hops env"
    | n where "de_max_path_hops env - length (df_stack s) = Suc n" "length (df_stack s) < de_max_path_hops env"
    by (metis Suc_diff_Suc leI)
  then show ?thesis
  proof cases
    case cut
    then have s': "s' = s\<lparr>df_frames := (port, Suc k) # frames, df_truncated := True\<rparr>"
      using assms(1) by (simp add: dfs_visit_def)
    show ?thesis unfolding s' using cut assms(2,3) by (simp add: search_keeps_def frames_ok_def)
  next
    case 2
    then have n: "de_max_path_hops env - Suc (length (df_stack s)) = n" by simp
    show ?thesis
    proof (cases "q \<in> set (de_exits env)")
      case True
      then show ?thesis using assms(1-3) 2 fresh
        by (auto simp: dfs_visit_def search_keeps_def frames_ok_def drop Let_def fst_mem split: if_splits)
    next
      case False
      then show ?thesis using assms(1-3) 2 n fresh
        by (auto simp: dfs_visit_def search_keeps_def frames_ok_def drop insert_commute fst_mem)
    qed
  qed
qed

lemma dfs_step_keeps:
  assumes "dfs_step env start s = Inr s'" "frames_ok s"
  shows "frames_ok s' \<and> search_keeps env start s s'"
proof (cases "df_frames s")
  case Nil
  with assms show ?thesis by (simp add: dfs_step_def search_keeps_refl)
next
  case (Cons f frames)
  obtain port k where f: "f = (port, k)" by (cases f)
  note frames = Cons [unfolded f]
  show ?thesis
  proof (cases "length (neighbours_of env port) \<le> k")
    case True
    then have "s' = s\<lparr>df_visited := oset_erase port (df_visited s), df_frames := frames, df_stack := butlast (df_stack s)\<rparr>"
      using assms(1) dfs_step_simps(1) [OF frames] by simp
    then show ?thesis using assms(2) frames True by (auto simp: frames_ok_def search_keeps_def)
  next
    case False
    then have k: "k < length (neighbours_of env port)" by simp
    obtain link q where nth: "neighbours_of env port ! k = (link, q)" by fastforce
    show ?thesis
    proof (cases "q \<in> set (df_visited s)")
      case True
      then have "s' = s\<lparr>df_frames := (port, Suc k) # frames\<rparr>"
        using assms(1) dfs_step_simps(2) [OF frames k nth True] by simp
      moreover have "q \<in> set (map fst ((port, k) # frames))"
        using True assms(2) frames by (simp add: frames_ok_def)
      moreover have "drop k (neighbours_of env port) = (link, q) # drop (Suc k) (neighbours_of env port)"
        using k nth by (metis Cons_nth_drop_Suc)
      ultimately show ?thesis using assms(2) frames
        by (auto simp: frames_ok_def search_keeps_def continuations_skip)
    next
      case False
      then show ?thesis
        using assms dfs_step_simps(3) [OF frames k nth False, of start]
          dfs_visit_keeps [OF _ assms(2) frames False k nth, of start s'] by simp
    qed
  qed
qed

lemma frames_ok_expansions [simp]: "frames_ok (s\<lparr>df_expansions := n\<rparr>) = frames_ok s"
  "frames_ok (s\<lparr>df_truncated := b\<rparr>) = frames_ok s"
  by (simp_all add: frames_ok_def)

lemma search_keeps_expansions:
  "search_keeps env start s (s\<lparr>df_expansions := n\<rparr>)" "search_keeps env start s (s\<lparr>df_expansions := n, df_truncated := True\<rparr>)"
  by (simp_all add: search_keeps_def)

text \<open>The loop stops with its frames exhausted or the truncation flag raised, within its budget.\<close>

lemma dfs_loop_keeps:
  "dfs_loop env start s = Inr s' \<Longrightarrow> frames_ok s \<Longrightarrow>
   search_keeps env start s s' \<and> (df_frames s' = [] \<or> df_truncated s') \<and>
   df_expansions s' \<le> Suc (max (df_expansions s) max_expansions)"
proof (induction env start s arbitrary: s' rule: dfs_loop.induct)
  case (1 env start s)
  let ?t = "s\<lparr>df_expansions := df_expansions s + 1\<rparr>"
  show ?case
  proof (cases "df_frames s = []")
    case True
    with 1(2) show ?thesis by (simp add: dfs_loop.simps search_keeps_refl)
  next
    case False
    show ?thesis
    proof (cases "df_expansions ?t > max_expansions")
      case True
      with 1(2) False have s': "s' = s\<lparr>df_expansions := df_expansions s + 1, df_truncated := True\<rparr>"
        by (simp add: dfs_loop.simps)
      show ?thesis unfolding s' using search_keeps_expansions(2) True by simp
    next
      case less: False
      then obtain u where u: "dfs_step env start ?t = Inr u" "dfs_loop env start u = Inr s'"
        using 1(2) False by (auto simp: dfs_loop.simps [of _ _ s] split: sum.splits)
      have "frames_ok ?t" using 1(3) by simp
      note step = dfs_step_keeps [OF u(1) this]
      have "search_keeps env start u s' \<and> (df_frames s' = [] \<or> df_truncated s') \<and>
          df_expansions s' \<le> Suc (max (df_expansions u) max_expansions)"
        by (rule 1(1) [OF False refl less u(1) u(2)]) (simp add: step)
      moreover have "df_expansions u = df_expansions s + 1"
        using dfs_step_expansions [OF u(1)] by simp
      ultimately show ?thesis
        using less step search_keeps_expansions(1) [of env start s "df_expansions s + 1"]
        by (fastforce intro: search_keeps_trans)
    qed
  qed
qed

section \<open>The enumeration is the relation\<close>

lemma route_Cons:
  "route links exits p ((i, q) # hops) \<longleftrightarrow>
     hop links p i q \<and> p \<noteq> q \<and>
     (if hops = [] then q \<in> set exits
      else q \<notin> set exits \<and> p \<notin> snd ` set hops \<and> route links exits q hops)"
  by (auto simp: route_def)

text \<open>The candidates a list of neighbours leads to, as hops.\<close>

lemma continuations_iff:
  assumes "de_adjacency env = adjacency_of links"
  shows "c \<in> set (continuations env start n visited stack es) \<longleftrightarrow>
     (\<exists>i q hops. (i, q) \<in> set es \<and> length hops < n \<and> q \<notin> visited \<and> visited \<inter> snd ` set hops = {} \<and>
        (if hops = [] then q \<in> set (de_exits env) else q \<notin> set (de_exits env) \<and> route links (de_exits env) q hops) \<and>
        c = \<lparr>pc_links = stack @ i # map fst hops, pc_start = start, pc_end = snd (last ((i, q) # hops))\<rparr>)"
    (is "_ \<longleftrightarrow> (\<exists>i q hops. (i, q) \<in> set es \<and> ?to n visited stack i q hops)")
  using assms
proof (induction env start n visited stack es rule: continuations.induct)
  case (3 env start n visited stack link port es)
  define to where "to = (\<lambda>n visited stack i q hops.
    length hops < n \<and> q \<notin> visited \<and> visited \<inter> snd ` set hops = {} \<and>
        (if hops = [] then q \<in> set (de_exits env) else q \<notin> set (de_exits env) \<and> route links (de_exits env) q hops) \<and>
        c = \<lparr>pc_links = stack @ i # map fst hops, pc_start = start, pc_end = snd (last ((i, q) # hops))\<rparr>)"
  have nbrs: "set (neighbours_of env port) = {(i, q). hop links port i q}"
    by (rule set_neighbours_of [OF 3(3)])
  have down: "c \<in> set (continuations env start n (insert port visited) (stack @ [link]) (neighbours_of env port)) \<longleftrightarrow>
      (\<exists>i q hops. hop links port i q \<and> to n (insert port visited) (stack @ [link]) i q hops)"
    if "port \<notin> visited" "port \<notin> set (de_exits env)"
    using 3(1) [OF that 3(3)] by (simp add: nbrs to_def)
  have rest: "c \<in> set (continuations env start (Suc n) visited stack es) \<longleftrightarrow>
      (\<exists>i q hops. (i, q) \<in> set es \<and> to (Suc n) visited stack i q hops)"
    using 3(2,3) by (simp add: to_def)
  have nil: "to (Suc n) visited stack link port [] \<longleftrightarrow> port \<notin> visited \<and> port \<in> set (de_exits env) \<and>
      c = \<lparr>pc_links = stack @ [link], pc_start = start, pc_end = port\<rparr>"
    by (auto simp: to_def)
  have cons: "to (Suc n) visited stack link port ((i, q) # hops) \<longleftrightarrow>
      port \<notin> visited \<and> port \<notin> set (de_exits env) \<and> hop links port i q \<and>
      to n (insert port visited) (stack @ [link]) i q hops" for i q hops
    by (auto simp: to_def route_Cons)
  have split: "(\<exists>hops. to (Suc n) visited stack link port hops) \<longleftrightarrow>
      to (Suc n) visited stack link port [] \<or> (\<exists>i q hops. to (Suc n) visited stack link port ((i, q) # hops))"
    by (metis list.exhaust prod.exhaust)
  have "c \<in> set (continuations env start (Suc n) visited stack ((link, port) # es)) \<longleftrightarrow>
      (\<exists>hops. to (Suc n) visited stack link port hops) \<or>
      c \<in> set (continuations env start (Suc n) visited stack es)"
    unfolding split nil cons using down by auto
  then have "c \<in> set (continuations env start (Suc n) visited stack ((link, port) # es)) \<longleftrightarrow>
      (\<exists>i q hops. (i, q) \<in> set ((link, port) # es) \<and> to (Suc n) visited stack i q hops)"
    unfolding rest set_simps insert_iff prod.inject by blast
  then show ?case unfolding to_def .
qed simp_all

section \<open>The search from every access port\<close>

definition route_candidate :: "port_id \<Rightarrow> (link_id \<times> port_id) list \<Rightarrow> path_candidate" where
  "route_candidate start hops = \<lparr>pc_links = map fst hops, pc_start = start, pc_end = snd (last hops)\<rparr>"

definition routes :: "link_record list \<Rightarrow> port_id list \<Rightarrow> nat \<Rightarrow> port_id set \<Rightarrow> path_candidate set" where
  "routes links exits n starts =
     {route_candidate start hops | start hops. start \<in> starts \<and> route links exits start hops \<and> length hops \<le> n}"

lemma routes_insert: "routes links exits n (insert p ps) = routes links exits n {p} \<union> routes links exits n ps"
  by (auto simp: routes_def)

lemma routes_start:
  assumes "de_adjacency env = adjacency_of links"
  shows "set (continuations env start (de_max_path_hops env) {start} [] (neighbours_of env start)) =
    routes links (de_exits env) (de_max_path_hops env) {start}"
proof (intro set_eqI)
  fix c
  let ?n = "de_max_path_hops env"
  have "c \<in> routes links (de_exits env) ?n {start} \<longleftrightarrow>
      (\<exists>i q hops. c = route_candidate start ((i, q) # hops) \<and> route links (de_exits env) start ((i, q) # hops) \<and>
        length ((i, q) # hops) \<le> ?n)" (is "?lhs \<longleftrightarrow> ?rhs")
  proof
    assume ?lhs
    then obtain hops where h: "c = route_candidate start hops" "route links (de_exits env) start hops" "length hops \<le> ?n"
      by (auto simp: routes_def)
    moreover obtain i q rest where "hops = (i, q) # rest"
      using h(2) by (cases hops) (auto simp: route_def)
    ultimately show ?rhs by blast
  next
    assume ?rhs
    then show ?lhs unfolding routes_def by blast
  qed
  also have "\<dots> \<longleftrightarrow> c \<in> set (continuations env start ?n {start} [] (neighbours_of env start))"
    unfolding continuations_iff [OF assms] set_neighbours_of [OF assms] route_Cons route_candidate_def
    by (auto simp: Suc_le_eq)
  finally show "c \<in> set (continuations env start ?n {start} [] (neighbours_of env start)) \<longleftrightarrow>
    c \<in> routes links (de_exits env) ?n {start}" ..
qed

lemma search_paths_routes:
  assumes "de_adjacency env = adjacency_of links"
  shows "search_paths env starts found expansions = Inr (found', stopped) \<Longrightarrow>
     set found \<subseteq> set found' \<and> set found' \<subseteq> set found \<union> routes links (de_exits env) (de_max_path_hops env) (set starts) \<and>
     (\<not> stopped \<longrightarrow> routes links (de_exits env) (de_max_path_hops env) (set starts) \<subseteq> set found')"
proof (induction starts arbitrary: found expansions)
  case Nil
  then show ?case by (simp add: routes_def)
next
  case (Cons start rest)
  define s0 where "s0 = \<lparr>df_stack = [], df_visited = [start], df_found = [], df_frames = [(start, 0)],
          df_candidates = found, df_expansions = expansions, df_truncated = False\<rparr>"
  obtain s where loop: "dfs_loop env start s0 = Inr s" and
    next_start: "(if df_truncated s then Inr (df_candidates s, True)
            else search_paths env rest (df_candidates s) (df_expansions s)) = Inr (found', stopped)"
    using Cons.prems by (auto simp: s0_def [symmetric] rnf_try_Inr_iff)
  let ?R = "routes links (de_exits env) (de_max_path_hops env)"
  have "frames_ok s0" by (simp add: frames_ok_def s0_def)
  moreover have "set (pending env start (df_stack s0) (df_frames s0)) = ?R {start}"
    using routes_start [OF assms, of start] by (simp add: s0_def)
  ultimately have s: "set found \<subseteq> set (df_candidates s)" "set (df_candidates s) \<subseteq> set found \<union> ?R {start}"
    "\<not> df_truncated s \<Longrightarrow> ?R {start} \<subseteq> set (df_candidates s)"
    using dfs_loop_keeps [OF loop] by (auto simp: search_keeps_def s0_def)
  show ?case
  proof (cases "df_truncated s")
    case True
    with s next_start show ?thesis by (auto simp: routes_insert [of _ _ _ start "set rest"])
  next
    case False
    with next_start have "search_paths env rest (df_candidates s) (df_expansions s) = Inr (found', stopped)" by simp
    from Cons.IH [OF this] s(1,2) s(3) [OF False] show ?thesis by (auto simp: routes_insert [of _ _ _ start "set rest"])
  qed
qed

section \<open>From candidates to paths\<close>

lemma unique_adj_strict:
  fixes key :: "'a \<Rightarrow> 'b::linorder"
  shows "\<forall>a b. key a = key b \<longrightarrow> eq a b \<Longrightarrow> sorted (map key xs) \<Longrightarrow> strict_sorted (map key (unique_adj eq xs))"
proof (induction eq xs rule: unique_adj.induct)
  case (3 eq x y ys)
  show ?case
  proof (cases "eq x y")
    case True
    with 3 show ?thesis by auto
  next
    case False
    then have "key x \<noteq> key y" using "3.prems"(1) by blast
    with "3.prems"(2) have "key x < key y" by (simp add: order.strict_iff_order)
    moreover have "key y \<le> key z" if "z \<in> set (unique_adj eq (y # ys))" for z
      using that "3.prems" set_unique_adj_sub [of eq "y # ys"] by auto
    ultimately show ?thesis using False 3 by fastforce
  qed
qed auto

text \<open>The two diagnostics that say something was left out.\<close>

definition path_truncation :: diagnostic where
  "path_truncation = Diagnostic DiagnosticKind_kIncompleteTopology EvidenceKind_kLink 0 0
     ''path enumeration was truncated at a configured bound''"

definition list_truncation :: diagnostic where
  "list_truncation = Diagnostic DiagnosticKind_kIncompleteTopology EvidenceKind_kMember 0 0
     ''diagnostic list truncated at its configured bound''"

definition reports :: "diagnostics \<Rightarrow> diagnostic \<Rightarrow> bool" where
  "reports g x \<longleftrightarrow> dx_dropped g > 0 \<or> x \<in> set (dx_items g)"

lemma reports_note:
  "reports (diag_note k e i src t g) (Diagnostic k e i src t)" "reports g x \<Longrightarrow> reports (diag_note k e i src t g) x"
  by (auto simp: reports_def diag_note_def)

lemma reports_finish: "reports g x \<Longrightarrow> x \<in> set (diag_finish g) \<or> list_truncation \<in> set (diag_finish g)"
  by (auto simp: reports_def diag_finish_def list_truncation_def Let_def)

lemma set_access_ports: "set (access_ports as) = {a_port a | a. a \<in> set as \<and> a_eligibility a = Eligibility_kEligible}"
proof -
  have "set (fold (\<lambda>a s. if a_eligibility a = Eligibility_kEligible then oset_insert (a_port a) s else s) as s) =
      set s \<union> {a_port a | a. a \<in> set as \<and> a_eligibility a = Eligibility_kEligible}" for s
    by (induction as arbitrary: s) auto
  then show ?thesis by (simp add: access_ports_def)
qed

lemma compose_candidates_facts:
  assumes "compose_candidates config limits ports links attachments g = Inr (found, g')"
  shows "set found \<subseteq> routes links (exit_ports ports) (rc_max_path_hops config) (set (access_ports attachments))"
    "strict_sorted (map candidate_key found)" "length found \<le> cl_max_paths limits"
    "reports g' path_truncation \<or>
       pc_links ` routes links (exit_ports ports) (rc_max_path_hops config) (set (access_ports attachments)) \<subseteq>
       pc_links ` set found"
proof -
  define env where "env = \<lparr>de_adjacency = adjacency_of links, de_exits = exit_ports ports,
          de_max_path_hops = rc_max_path_hops config, de_max_paths_per_pair = rc_max_paths_per_pair config,
          de_max_paths = cl_max_paths limits\<rparr>"
  obtain all stopped where search: "search_paths env (access_ports attachments) [] 0 = Inr (all, stopped)"
    using assms by (auto simp: compose_candidates_def env_def [symmetric] rnf_try_Inr_iff)
  let ?R = "routes links (exit_ports ports) (rc_max_path_hops config) (set (access_ports attachments))"
  define kept where "kept = unique_adj (\<lambda>a b. pc_links a = pc_links b) (sort_key candidate_key all)"
  define over where "over \<longleftrightarrow> length kept > cl_max_paths limits"
  have found: "found = (if over then take (cl_max_paths limits) kept else kept)"
    and g': "g' = (if stopped \<or> over then diag_note DiagnosticKind_kIncompleteTopology EvidenceKind_kLink 0 0
                     ''path enumeration was truncated at a configured bound'' g else g)"
    using assms by (auto simp: compose_candidates_def env_def [symmetric] search kept_def over_def Let_def)
  have all: "set all \<subseteq> ?R" "\<not> stopped \<Longrightarrow> ?R \<subseteq> set all"
    using search_paths_routes [OF _ search, of links] by (auto simp: env_def)
  have kept: "set kept \<subseteq> set all" "pc_links ` set kept = pc_links ` set all"
    using set_unique_adj_sub [of _ "sort_key candidate_key all"] unique_adj_keys [of pc_links "sort_key candidate_key all"]
    by (auto simp: kept_def)
  have "strict_sorted (map candidate_key kept)" unfolding kept_def
    by (rule unique_adj_strict) (simp_all add: candidate_key_def [abs_def])
  then show "strict_sorted (map candidate_key found)"
    by (simp add: found take_map [symmetric] sorted_wrt_take)
  show "set found \<subseteq> ?R" using kept(1) all(1) by (auto simp: found dest: in_set_takeD)
  show "length found \<le> cl_max_paths limits" by (auto simp: found over_def)
  show "reports g' path_truncation \<or> pc_links ` ?R \<subseteq> pc_links ` set found"
  proof (cases "stopped \<or> over")
    case True
    then show ?thesis by (simp add: g' path_truncation_def reports_note(1))
  next
    case False
    with all(2) kept(2) show ?thesis by (auto simp: found)
  qed
qed

definition capacity_over :: "link_record list \<Rightarrow> link_id list \<Rightarrow> capacity set" where
  "capacity_over links ids = {l_capacity l | l. l \<in> set links \<and> l_id l \<in> set ids}"

lemma bottleneck_scan_Min:
  assumes "strict_sorted (map l_id links)"
  shows "\<forall>i\<in>set ids. \<exists>l\<in>set links. l_id l = i \<and> l_eligibility l = Eligibility_kEligible \<and> l_capacity_known l \<Longrightarrow>
    \<not> first \<or> ids \<noteq> [] \<Longrightarrow>
    bottleneck_scan links ids first b = (True, Min ((if first then {} else {b}) \<union> capacity_over links ids))"
proof (induction ids arbitrary: first b)
  case Nil
  then show ?case by (simp add: capacity_over_def)
next
  case (Cons i ids)
  then obtain l where l: "l \<in> set links" "l_id l = i" "l_eligibility l = Eligibility_kEligible" "l_capacity_known l" by auto
  then have find: "find_sorted l_id i links = Some l" using find_sorted_iff [OF assms] by simp
  have unique: "l' = l" if "l' \<in> set links" "l_id l' = i" for l'
    using that find find_sorted_iff [OF assms, of i l'] by simp
  have fin: "finite (capacity_over links xs)" for xs
  proof (rule finite_subset)
    show "capacity_over links xs \<subseteq> l_capacity ` set links" by (auto simp: capacity_over_def)
  qed simp
  have over: "capacity_over links (i # ids) = insert (l_capacity l) (capacity_over links ids)"
    unfolding capacity_over_def using l(1,2) by (auto dest: unique)
  have Min3: "Min (insert (min b c) S) = Min (insert b (insert c S))" if "finite S" for b c :: capacity and S
    using that by (cases "S = {}") (simp_all add: min.assoc)
  have rest: "bottleneck_scan links ids False b' = (True, Min (insert b' (capacity_over links ids)))" for b'
    using Cons.IH [of False b'] Cons.prems(1) by simp
  show ?case
    using find l(3,4) by (cases first) (simp_all add: rest over min_capacity_min Min3 [OF fin] insert_commute del: Min_insert)
qed

lemma compose_paths_map:
  assumes "compose_paths links found g = (paths, g')"
  shows "paths = sort_key (\<lambda>p. (pa_start_port p, pa_end_port p, pa_links p))
    (map (\<lambda>c. let (known, b) = bottleneck_scan links (pc_links c) True 0 in
       \<lparr>pa_id = path_identity (pc_links c), pa_start_port = pc_start c, pa_end_port = pc_end c,
        pa_links = pc_links c, pa_bottleneck = b, pa_bottleneck_known = known,
        pa_eligibility = (if known then Eligibility_kEligible else Eligibility_kIncomplete)\<rparr>) found) \<and>
    (reports g x \<longrightarrow> reports g' x)"
proof -
  let ?f = "\<lambda>c. let (known, b) = bottleneck_scan links (pc_links c) True 0 in
       \<lparr>pa_id = path_identity (pc_links c), pa_start_port = pc_start c, pa_end_port = pc_end c,
        pa_links = pc_links c, pa_bottleneck = b, pa_bottleneck_known = known,
        pa_eligibility = (if known then Eligibility_kEligible else Eligibility_kIncomplete)\<rparr>"
  have "\<exists>g'. fold (path_step links) found (out, g) = (out @ map ?f found, g') \<and> (reports g x \<longrightarrow> reports g' x)" for out
  proof (induction found arbitrary: out g)
    case (Cons c found)
    obtain known b where scan: "bottleneck_scan links (pc_links c) True 0 = (known, b)" by fastforce
    obtain g1 where g1: "path_step links c (out, g) = (out @ [?f c], g1)" "reports g x \<longrightarrow> reports g1 x"
      by (auto simp: path_step_def scan Let_def reports_note(2))
    with Cons [of "out @ [?f c]" g1] show ?case by auto
  qed simp
  from this [of "[]"] assms show ?thesis by (auto simp: compose_paths_def)
qed

section \<open>The paths of a composed snapshot\<close>

lemma composed_links:
  assumes "composed config request l d buckets"
  shows "strict_sorted (map l_id (sd_links d))"
    "\<forall>y\<in>set (sd_links d). l_eligibility y = Eligibility_kEligible \<longrightarrow> l_capacity_known y"
proof -
  let ?t = "gather config request l"
  obtain g g' where links: "compose_links ?t (sd_ports d) g = (sd_links d, g')"
    using assms by (auto simp: composed_def Let_def)
  show "strict_sorted (map l_id (sd_links d))" by (rule compose_links_facts(1) [OF tables_ok_gather links])
  show "\<forall>y\<in>set (sd_links d). l_eligibility y = Eligibility_kEligible \<longrightarrow> l_capacity_known y"
    using compose_links_facts(2) [OF tables_ok_gather links] by (fastforce simp: link_good_def)
qed

lemma walk_links: "walk links p hops \<Longrightarrow> i \<in> fst ` set hops \<Longrightarrow>
    \<exists>l\<in>set links. l_id l = i \<and> l_eligibility l = Eligibility_kEligible"
  by (induction links p hops rule: walk.induct) (auto simp: hop_def)

lemma composed_paths:
  assumes "composed config request l d buckets"
  shows "strict_sorted (map (\<lambda>p. (pa_start_port p, pa_end_port p, pa_links p)) (sd_paths d))"
    "length (sd_paths d) \<le> cl_max_paths (ci_limits request)"
    "p \<in> set (sd_paths d) \<Longrightarrow> \<exists>hops. pa_links p = map fst hops \<and> pa_end_port p = snd (last hops) \<and>
       route (sd_links d) (exit_ports (sd_ports d)) (pa_start_port p) hops \<and> length hops \<le> rc_max_path_hops config \<and>
       pa_start_port p \<in> set (access_ports (sd_attachments d)) \<and>
       pa_id p = path_identity (pa_links p) \<and> pa_bottleneck_known p \<and> pa_eligibility p = Eligibility_kEligible \<and>
       pa_bottleneck p = Min (capacity_over (sd_links d) (pa_links p))"
    "path_truncation \<notin> set (sd_diagnostics d) \<Longrightarrow> list_truncation \<notin> set (sd_diagnostics d) \<Longrightarrow>
       start \<in> set (access_ports (sd_attachments d)) \<Longrightarrow>
       route (sd_links d) (exit_ports (sd_ports d)) start hops \<Longrightarrow> length hops \<le> rc_max_path_hops config \<Longrightarrow>
       \<exists>p\<in>set (sd_paths d). pa_links p = map fst hops"
proof -
  obtain g5 g6 g7 found where
    cand: "compose_candidates config (ci_limits request) (sd_ports d) (sd_links d) (sd_attachments d) g5 = Inr (found, g6)"
    and paths: "compose_paths (sd_links d) found g6 = (sd_paths d, g7)" and diag: "sd_diagnostics d = diag_finish g7"
    using assms by (auto simp: composed_def Let_def)
  note facts = compose_candidates_facts [OF cand]
  note links = composed_links [OF assms]
  let ?f = "\<lambda>c. let (known, b) = bottleneck_scan (sd_links d) (pc_links c) True 0 in
       \<lparr>pa_id = path_identity (pc_links c), pa_start_port = pc_start c, pa_end_port = pc_end c,
        pa_links = pc_links c, pa_bottleneck = b, pa_bottleneck_known = known,
        pa_eligibility = (if known then Eligibility_kEligible else Eligibility_kIncomplete)\<rparr>"
  have key: "map (\<lambda>p. (pa_start_port p, pa_end_port p, pa_links p)) (map ?f found) = map candidate_key found"
    by (simp add: candidate_key_def [abs_def] Let_def case_prod_beta)
  then have d: "sd_paths d = map ?f found"
    using compose_paths_map [OF paths] facts(2) by (simp only: sort_key_strict)
  show "strict_sorted (map (\<lambda>p. (pa_start_port p, pa_end_port p, pa_links p)) (sd_paths d))"
    unfolding d key by (rule facts(2))
  show "length (sd_paths d) \<le> cl_max_paths (ci_limits request)" using facts(3) by (simp add: d)
  show "\<exists>hops. pa_links p = map fst hops \<and> pa_end_port p = snd (last hops) \<and>
       route (sd_links d) (exit_ports (sd_ports d)) (pa_start_port p) hops \<and> length hops \<le> rc_max_path_hops config \<and>
       pa_start_port p \<in> set (access_ports (sd_attachments d)) \<and>
       pa_id p = path_identity (pa_links p) \<and> pa_bottleneck_known p \<and> pa_eligibility p = Eligibility_kEligible \<and>
       pa_bottleneck p = Min (capacity_over (sd_links d) (pa_links p))" if p: "p \<in> set (sd_paths d)"
  proof -
    obtain c where c: "c \<in> set found" "p = ?f c" using p unfolding d by auto
    obtain start hops where h: "c = route_candidate start hops" "start \<in> set (access_ports (sd_attachments d))"
      "route (sd_links d) (exit_ports (sd_ports d)) start hops" "length hops \<le> rc_max_path_hops config"
      using facts(1) c(1) by (auto simp: routes_def)
    have "\<forall>i\<in>set (map fst hops). \<exists>l\<in>set (sd_links d). l_id l = i \<and> l_eligibility l = Eligibility_kEligible \<and> l_capacity_known l"
      using h(3) walk_links [of "sd_links d" start hops] links(2) by (fastforce simp: route_def)
    then have "bottleneck_scan (sd_links d) (map fst hops) True 0 = (True, Min (capacity_over (sd_links d) (map fst hops)))"
      using bottleneck_scan_Min [OF links(1), of "map fst hops" True 0] h(3) by (simp add: route_def)
    then show ?thesis using h by (intro exI [of _ hops]) (simp add: c(2) route_candidate_def)
  qed
  show "\<exists>p\<in>set (sd_paths d). pa_links p = map fst hops"
    if quiet: "path_truncation \<notin> set (sd_diagnostics d)" "list_truncation \<notin> set (sd_diagnostics d)"
      and h: "start \<in> set (access_ports (sd_attachments d))" "route (sd_links d) (exit_ports (sd_ports d)) start hops"
      "length hops \<le> rc_max_path_hops config"
  proof -
    have "\<not> reports g6 path_truncation"
      using quiet reports_finish [of g7 path_truncation] compose_paths_map [OF paths, of path_truncation] diag by auto
    with facts(4) have "pc_links ` routes (sd_links d) (exit_ports (sd_ports d)) (rc_max_path_hops config)
        (set (access_ports (sd_attachments d))) \<subseteq> pc_links ` set found" by simp
    moreover have "route_candidate start hops \<in> routes (sd_links d) (exit_ports (sd_ports d)) (rc_max_path_hops config)
        (set (access_ports (sd_attachments d)))" using h by (auto simp: routes_def)
    ultimately have "pc_links (route_candidate start hops) \<in> pc_links ` set found" by blast
    then obtain c where "c \<in> set found" "pc_links c = map fst hops" by (auto simp: route_candidate_def)
    moreover have "?f c \<in> set (sd_paths d)" unfolding d set_map using \<open>c \<in> set found\<close> by (rule imageI)
    moreover have "pa_links (?f c) = pc_links c" by (simp add: Let_def case_prod_beta)
    ultimately show ?thesis by (intro bexI [of _ "?f c"]) simp_all
  qed
qed

end
