(* ===== verification/Rnf_Compose_Snapshot.thy ===== *)
theory Rnf_Compose_Snapshot
  imports Rnf_Compose_Paths
begin

text \<open>
  The capacity ledger, the obligations and the resource states of a composed snapshot, the errors a
  composition can end in, and the properties of \<^verbatim>\<open>compose\<close> as a whole, with a small rack on which they
  are exercised.
\<close>

section \<open>Capacity\<close>

definition known_sum :: "(device_record \<Rightarrow> bool) \<Rightarrow> device_record list \<Rightarrow> nat" where
  "known_sum P ds = (\<Sum>d\<leftarrow>filter (\<lambda>d. d_capacity_known d \<and> P d) ds. unat (d_capacity d))"

definition counted_out :: "device_record \<Rightarrow> bool" where
  "counted_out d \<longleftrightarrow> d_eligibility d \<noteq> Eligibility_kEligible \<or> \<not> is_usable (d_availability d)"

lemma known_sum_simps [simp]:
  "known_sum P [] = 0"
  "known_sum P (d # ds) = (if d_capacity_known d \<and> P d then unat (d_capacity d) else 0) + known_sum P ds"
  by (simp_all add: known_sum_def)

lemma known_sum_split: "known_sum (\<lambda>_. True) ds = known_sum P ds + known_sum (\<lambda>d. \<not> P d) ds"
  by (induction ds) auto

lemma device_sums_Inr:
  "device_sums ds a b = Inr (tot, out) \<Longrightarrow>
   unat tot = unat a + known_sum (\<lambda>_. True) ds \<and> unat out = unat b + known_sum counted_out ds"
  by (induction ds a b rule: device_sums.induct)
    (auto simp: counted_out_def checked_iffs split: if_splits option.splits)

lemma device_sums_Inl: "device_sums ds a b = Inl e \<Longrightarrow> st_code e = kOutOfRange"
  by (induction ds a b rule: device_sums.induct) (auto split: if_splits option.splits)

lemma obligated_sum_Inr: "obligated_sum m acc = Inr x \<Longrightarrow> unat x = unat acc + omap_sum (\<lambda>_ c. unat c) m"
  by (induction m acc rule: obligated_sum.induct) (auto simp: checked_iffs split: option.splits)

lemma obligated_sum_Inl: "obligated_sum m acc = Inl e \<Longrightarrow> st_code e = kOutOfRange"
  by (induction m acc rule: obligated_sum.induct) (auto split: option.splits)

text \<open>The two internal consistency checks of the capacity section never fail.\<close>

lemma compose_capacity_cases:
  obtains (fails) e where "compose_capacity config devices buckets g = Inl e" "st_code e = kOutOfRange"
  | (ok) c g' where "compose_capacity config devices buckets g = Inr (c, g')" "closes c"
    "unat (k_total c) = known_sum (\<lambda>_. True) devices" "unat (k_unavailable c) = known_sum counted_out devices"
    "unat (k_usable c) = known_sum (\<lambda>d. \<not> counted_out d) devices"
    "unat (k_obligated c) = omap_sum (\<lambda>_ c. unat c) buckets" "k_headroom_floor c = rc_headroom_floor config"
    "unat (k_uncommitted c) = unat (k_usable c) - (unat (k_obligated c) + unat (k_headroom_floor c))"
    "unat (k_deficit c) = (unat (k_obligated c) + unat (k_headroom_floor c)) - unat (k_usable c)"
proof (cases "device_sums devices 0 0")
  case (Inl e)
  then have "compose_capacity config devices buckets g = Inl e" by (simp add: compose_capacity_def)
  then show thesis by (rule fails [OF _ device_sums_Inl [OF Inl]])
next
  case (Inr p)
  obtain tot out where p: "device_sums devices 0 0 = Inr (tot, out)" using Inr by (cases p) simp
  note sums = device_sums_Inr [OF p, simplified]
  have split: "known_sum (\<lambda>_. True) devices = known_sum counted_out devices + known_sum (\<lambda>d. \<not> counted_out d) devices"
    by (rule known_sum_split)
  then have "checked_sub_u64 tot out \<noteq> None" using sums by (simp add: checked_iffs)
  then obtain usable where usable: "checked_sub_u64 tot out = Some usable" "unat tot = unat out + unat usable"
    by (auto simp: checked_sub_u64_Some_iff)
  show thesis
  proof (cases "obligated_sum buckets 0")
    case (Inl e)
    then have "compose_capacity config devices buckets g = Inl e" by (simp add: compose_capacity_def p usable)
    then show thesis by (rule fails [OF _ obligated_sum_Inl [OF Inl]])
  next
    case (Inr obligated)
    note ob = obligated_sum_Inr [OF Inr, simplified]
    show thesis
    proof (cases "checked_add_u64 obligated (rc_headroom_floor config)")
      case None
      then show thesis by (intro fails [of "Status kOutOfRange ''headroom plus obligations overflowed''"])
          (simp_all add: compose_capacity_def p usable Inr)
    next
      case (Some claimed)
      then have claimed: "unat claimed = unat obligated + unat (rc_headroom_floor config)"
        by (simp add: checked_iffs)
      define c where "c = \<lparr>k_total = tot, k_unavailable = out, k_usable = usable, k_obligated = obligated,
              k_headroom_floor = rc_headroom_floor config,
              k_uncommitted = (if claimed > usable then 0 else usable - claimed),
              k_deficit = (if claimed > usable then claimed - usable else 0)\<rparr>"
      have diff: "unat (k_uncommitted c) = unat usable - unat claimed" "unat (k_deficit c) = unat claimed - unat usable"
        by (auto simp: c_def unat_sub word_le_nat_alt word_less_nat_alt)
      have closes: "closes c"
        unfolding closes_iff diff using usable(2) claimed unat_u64_lt [of claimed] unat_u64_lt [of usable]
        by (simp add: c_def) arith
      obtain g' where "compose_capacity config devices buckets g = Inr (c, g')"
        using closes by (simp add: compose_capacity_def p usable(1) Inr Some c_def [symmetric] Let_def)
      then show thesis
        by (rule ok) (use closes sums ob diff claimed usable(2) split in \<open>simp_all add: c_def\<close>)
    qed
  qed
qed

section \<open>Obligations\<close>

lemma obligation_loop_Inr:
  "obligation_loop inside es s = Inr s' \<Longrightarrow> omap_ok (ob_buckets s) \<Longrightarrow>
   \<exists>rs. ob_records s' = ob_records s @ rs \<and> omap_ok (ob_buckets s') \<and>
     omap_sum (\<lambda>_ c. unat c) (ob_buckets s') = omap_sum (\<lambda>_ c. unat c) (ob_buckets s) + (\<Sum>r\<leftarrow>rs. unat (o_capacity r)) \<and>
     (\<forall>r\<in>set rs. inside (o_target r) \<and> o_id r \<in> fst ` set es) \<and>
     (strict_sorted (map fst es) \<longrightarrow> strict_sorted (map o_id rs))"
proof (induction es arbitrary: s)
  case Nil
  then show ?case by simp
next
  case (Cons e rest)
  obtain i target sel where e: "e = (i, target, sel)" by (cases e)
  note prems = Cons.prems [unfolded e]
  show ?case
  proof (cases "inside target")
    case False
    then show ?thesis using Cons.IH prems by (fastforce simp: e)
  next
    case True
    define r where "r = \<lparr>o_id = i, o_target = target, o_capacity = oc_capacity (se_value sel), o_holder = oc_holder (se_value sel),
                  o_authority = oc_authority (se_value sel), o_source = se_source sel\<rparr>"
    define bucket where "bucket = (case omap_get (ob_buckets s) target of Some c \<Rightarrow> c | None \<Rightarrow> 0)"
    obtain units where units: "checked_add_u64 bucket (o_capacity r) = Some units"
      using prems(1) True by (cases "checked_add_u64 bucket (o_capacity r)") (auto simp: r_def bucket_def)
    define t where "t = s\<lparr>ob_records := ob_records s @ [r], ob_buckets := omap_put target units (ob_buckets s)\<rparr>"
    have loop: "obligation_loop inside rest t = Inr s'"
      using prems(1) True units by (simp add: r_def bucket_def t_def Let_def)
    have "omap_ok (ob_buckets t)" using prems(2) by (simp add: t_def omap_ok_put)
    from Cons.IH [OF loop this]
    obtain rs where rs: "ob_records s' = ob_records t @ rs" "omap_ok (ob_buckets s')"
      "omap_sum (\<lambda>_ c. unat c) (ob_buckets s') = omap_sum (\<lambda>_ c. unat c) (ob_buckets t) + (\<Sum>r\<leftarrow>rs. unat (o_capacity r))"
      "\<forall>r\<in>set rs. inside (o_target r) \<and> o_id r \<in> fst ` set rest"
      "strict_sorted (map fst rest) \<longrightarrow> strict_sorted (map o_id rs)"
      by (auto simp: t_def)
    have "omap_sum (\<lambda>_ c. unat c) (ob_buckets t) = omap_sum (\<lambda>_ c. unat c) (ob_buckets s) + unat (o_capacity r)"
      using omap_sum_put [OF prems(2), of "\<lambda>_ c. unat c" target units] units
      by (auto simp: t_def checked_iffs bucket_def split: option.splits)
    moreover have "\<forall>x\<in>set rs. i < o_id x" if "strict_sorted (map fst (e # rest))"
      using that rs(4) by (fastforce simp: e)
    ultimately show ?thesis using rs True
      by (intro exI [of _ "r # rs"]) (auto simp: e t_def r_def)
  qed
qed

lemma obligation_loop_Inl: "obligation_loop inside es s = Inl e \<Longrightarrow> st_code e = kOutOfRange"
  by (induction inside es s rule: obligation_loop.induct) (auto simp: Let_def split: if_splits option.splits)

section \<open>Resource states\<close>

definition ref_of_rack :: "rack_config \<Rightarrow> snapshot_data \<Rightarrow> resource_ref set" where
  "ref_of_rack config d =
     {ResourceRef ResourceKind_kRack (rc_rack config)} \<union>
     (\<lambda>x. ResourceRef ResourceKind_kDevice (d_id x)) ` set (sd_devices d) \<union>
     (\<lambda>x. ResourceRef ResourceKind_kPort (p_id x)) ` set (sd_ports d) \<union>
     (\<lambda>x. ResourceRef ResourceKind_kLink (l_id x)) ` set (sd_links d) \<union>
     (\<lambda>x. ResourceRef ResourceKind_kAttachment (a_id x)) ` set (sd_attachments d) \<union>
     (\<lambda>x. ResourceRef ResourceKind_kPath (pa_id x)) ` set (sd_paths d)"

lemma rs_ref_resource_of [simp]: "rs_ref (resource_of ref e a k c b x os) = ref"
  by (simp add: resource_of_def)

lemma set_unique_sortD: "x \<in> set (unique_adj eq (sort_key f xs)) \<Longrightarrow> x \<in> set xs"
  using set_unique_adj_sub [of eq "sort_key f xs"] by auto

lemma compose_resources_refs:
  "strict_sorted (map rs_ref (compose_resources config t buckets d))"
  "rs_ref ` set (compose_resources config t buckets d) = ref_of_rack config d"
proof -
  show "strict_sorted (map rs_ref (compose_resources config t buckets d))"
    unfolding compose_resources_def Let_def by (rule unique_adj_key_strict [OF sorted_sort_key])
  show "rs_ref ` set (compose_resources config t buckets d) = ref_of_rack config d"
    unfolding compose_resources_def Let_def unique_adj_keys set_sort
    by (simp add: ref_of_rack_def image_image image_Un Un_assoc)
qed

text \<open>What each kind of record must know about its maintenance window for its resource to be sound.\<close>

lemma compose_resources_maintenance:
  assumes "r \<in> set (compose_resources config t buckets d)" "rs_eligibility r = Eligibility_kEligible"
    and "\<And>x. x \<in> set (sd_devices d) \<Longrightarrow> d_eligibility x = Eligibility_kEligible \<Longrightarrow> \<not> device_excluded t (d_id x)"
    and "\<And>x. x \<in> set (sd_ports d) \<Longrightarrow> p_eligibility x = Eligibility_kEligible \<Longrightarrow>
      \<not> device_excluded t (p_device x) \<and> \<not> exclusion_of t ResourceKind_kPort (p_id x)"
    and "\<And>x. x \<in> set (sd_links d) \<Longrightarrow> l_eligibility x = Eligibility_kEligible \<Longrightarrow>
      \<not> port_excluded t (sd_ports d) (l_port_a x) \<and> \<not> port_excluded t (sd_ports d) (l_port_b x) \<and>
      \<not> exclusion_of t ResourceKind_kLink (l_id x)"
    and "\<And>x. x \<in> set (sd_attachments d) \<Longrightarrow> a_eligibility x = Eligibility_kEligible \<Longrightarrow> \<not> device_excluded t (a_device x)"
  shows "\<not> rs_maintenance r"
proof -
  have "r \<in> set (compose_resources config t buckets d) \<Longrightarrow> ?thesis"
    unfolding compose_resources_def Let_def
    by (drule set_unique_sortD) (use assms(2-) in \<open>auto simp: resource_of_def split: if_splits\<close>)
  with assms(1) show ?thesis by blast
qed

section \<open>Eligibility\<close>

lemma composed_devices:
  assumes "composed config request l d buckets"
  shows "strict_sorted (map d_id (sd_devices d))"
    "d_id ` set (sd_devices d) = fst ` set (ct_members (gather config request l))"
    "\<And>x. x \<in> set (sd_devices d) \<Longrightarrow> device_sound (gather config request l) x"
proof -
  obtain g where "compose_devices (gather config request l) = (sd_devices d, g)"
    using assms by (auto simp: composed_def Let_def)
  from compose_devices_facts [OF tables_ok_gather this]
  show "strict_sorted (map d_id (sd_devices d))"
    "d_id ` set (sd_devices d) = fst ` set (ct_members (gather config request l))"
    "\<And>x. x \<in> set (sd_devices d) \<Longrightarrow> device_sound (gather config request l) x" by auto
qed

lemma composed_ports:
  assumes "composed config request l d buckets"
  shows "strict_sorted (map p_id (sd_ports d))"
    "\<And>x. x \<in> set (sd_ports d) \<Longrightarrow> \<exists>s. port_good (gather config request l) (sd_devices d) (p_id x, s) x"
proof -
  obtain g g' where "compose_ports (gather config request l) (sd_devices d) g = (sd_ports d, g')"
    using assms by (auto simp: composed_def Let_def)
  from compose_ports_facts [OF tables_ok_gather this]
  show "strict_sorted (map p_id (sd_ports d))"
    "\<And>x. x \<in> set (sd_ports d) \<Longrightarrow> \<exists>s. port_good (gather config request l) (sd_devices d) (p_id x, s) x" by auto
qed

lemma composed_link_good:
  assumes "composed config request l d buckets" "x \<in> set (sd_links d)"
  shows "\<exists>s. link_good (gather config request l) (sd_ports d) (l_id x, s) x"
proof -
  obtain g g' where "compose_links (gather config request l) (sd_ports d) g = (sd_links d, g')"
    using assms by (auto simp: composed_def Let_def)
  from compose_links_facts(2) [OF tables_ok_gather this] assms(2) show ?thesis by blast
qed

lemma composed_attachments:
  assumes "composed config request l d buckets"
  shows "strict_sorted (map a_id (sd_attachments d))"
    "\<And>x. x \<in> set (sd_attachments d) \<Longrightarrow> \<exists>s. attachment_good (sd_devices d) (sd_ports d) (a_id x, s) x"
proof -
  obtain g g' where
    "compose_attachments (gather config request l) (sd_devices d) (sd_ports d) g = (sd_attachments d, g')"
    using assms by (auto simp: composed_def Let_def)
  from compose_attachments_facts [OF tables_ok_gather this]
  show "strict_sorted (map a_id (sd_attachments d))"
    "\<And>x. x \<in> set (sd_attachments d) \<Longrightarrow> \<exists>s. attachment_good (sd_devices d) (sd_ports d) (a_id x, s) x" by auto
qed

lemma eligible_device:
  assumes "composed config request l d buckets" "x \<in> set (sd_devices d)" "d_eligibility x = Eligibility_kEligible"
  shows "d_capacity_known x" "is_usable (d_availability x)" "\<not> device_excluded (gather config request l) (d_id x)"
  using composed_devices(3) [OF assms(1,2)] assms(3) by (auto simp: device_sound_def)

lemma eligible_port:
  assumes "composed config request l d buckets" "x \<in> set (sd_ports d)" "p_eligibility x = Eligibility_kEligible"
  shows "\<exists>y\<in>set (sd_devices d). d_id y = p_device x \<and> d_eligibility y = Eligibility_kEligible"
    "p_capacity_known x" "is_usable (p_availability x)" "p_admin x = AdminState_kEnabled"
    "\<not> device_excluded (gather config request l) (p_device x)"
    "\<not> exclusion_of (gather config request l) ResourceKind_kPort (p_id x)"
  using composed_ports(2) [OF assms(1,2)] assms(3) find_sorted_SomeD [of d_id "p_device x" "sd_devices d"]
  by (auto simp: port_good_def)

lemma eligible_link:
  assumes "composed config request l d buckets" "x \<in> set (sd_links d)" "l_eligibility x = Eligibility_kEligible"
  obtains a b where "find_sorted p_id (l_port_a x) (sd_ports d) = Some a" "find_sorted p_id (l_port_b x) (sd_ports d) = Some b"
    "a \<in> set (sd_ports d)" "b \<in> set (sd_ports d)" "p_id a = l_port_a x" "p_id b = l_port_b x"
    "p_eligibility a = Eligibility_kEligible" "p_eligibility b = Eligibility_kEligible"
    "l_capacity x \<le> p_capacity a" "l_capacity x \<le> p_capacity b" "l_capacity_known x" "is_usable (l_availability x)"
    "\<not> exclusion_of (gather config request l) ResourceKind_kLink (l_id x)"
proof -
  obtain s where good: "link_good (gather config request l) (sd_ports d) (l_id x, s) x"
    using composed_link_good [OF assms(1,2)] by blast
  from good assms(3) obtain a b where ab: "find_sorted p_id (l_port_a x) (sd_ports d) = Some a"
    "find_sorted p_id (l_port_b x) (sd_ports d) = Some b"
    "p_eligibility a = Eligibility_kEligible" "p_eligibility b = Eligibility_kEligible"
    "l_capacity_known x" "is_usable (l_availability x)"
    "\<not> exclusion_of (gather config request l) ResourceKind_kLink (l_id x)"
    unfolding link_good_def prod.case by blast
  from good ab(1,2,5) have "l_capacity x = min (min (lc_capacity (se_value s)) (p_capacity a)) (p_capacity b)"
    unfolding link_good_def prod.case by blast
  then have cap: "l_capacity x \<le> p_capacity a" "l_capacity x \<le> p_capacity b" by (auto simp: min_le_iff_disj)
  show thesis
    using find_sorted_SomeD [OF ab(1)] find_sorted_SomeD [OF ab(2)]
    by (intro that [OF ab(1,2) _ _ _ _ ab(3,4) cap ab(5-7)]) simp_all
qed

lemma eligible_attachment:
  assumes "composed config request l d buckets" "x \<in> set (sd_attachments d)" "a_eligibility x = Eligibility_kEligible"
  obtains y p where "y \<in> set (sd_devices d)" "p \<in> set (sd_ports d)" "d_id y = a_device x" "p_id p = a_port x"
    "p_device p = a_device x" "d_eligibility y = Eligibility_kEligible" "p_eligibility p = Eligibility_kEligible"
proof -
  obtain s where "attachment_good (sd_devices d) (sd_ports d) (a_id x, s) x"
    using composed_attachments(2) [OF assms(1,2)] by blast
  with assms(3) show thesis
    using find_sorted_SomeD [of p_id _ "sd_ports d"] find_sorted_SomeD [of d_id _ "sd_devices d"]
    by (fastforce simp: attachment_good_def intro: that)
qed

lemma eligible_resource:
  assumes "composed config request l d buckets" "r \<in> set (sd_resources d)" "rs_eligibility r = Eligibility_kEligible"
  shows "\<not> rs_maintenance r"
proof (rule compose_resources_maintenance)
  show "r \<in> set (compose_resources config (gather config request l) buckets d)"
    using assms by (auto simp: composed_def Let_def)
next
  fix x
  assume x: "x \<in> set (sd_links d)" "l_eligibility x = Eligibility_kEligible"
  obtain a b where ab: "find_sorted p_id (l_port_a x) (sd_ports d) = Some a" "find_sorted p_id (l_port_b x) (sd_ports d) = Some b"
    "a \<in> set (sd_ports d)" "b \<in> set (sd_ports d)" "p_eligibility a = Eligibility_kEligible" "p_eligibility b = Eligibility_kEligible"
    "\<not> exclusion_of (gather config request l) ResourceKind_kLink (l_id x)"
    by (rule eligible_link [OF assms(1) x])
  with eligible_port(5) [OF assms(1)]
  show "\<not> port_excluded (gather config request l) (sd_ports d) (l_port_a x) \<and>
      \<not> port_excluded (gather config request l) (sd_ports d) (l_port_b x) \<and>
      \<not> exclusion_of (gather config request l) ResourceKind_kLink (l_id x)"
    by (simp add: port_excluded_def)
next
  fix x
  assume x: "x \<in> set (sd_attachments d)" "a_eligibility x = Eligibility_kEligible"
  show "\<not> device_excluded (gather config request l) (a_device x)"
    by (rule eligible_attachment [OF assms(1) x]) (use eligible_device(3) [OF assms(1)] in metis)
qed (use assms(3) eligible_device(3) [OF assms(1)] eligible_port(5,6) [OF assms(1)] in auto)

section \<open>Errors\<close>

lemma dfs_loop_Inl: "dfs_loop env start s = Inl e \<Longrightarrow> st_code e = kResourceExhausted"
proof (induction env start s rule: dfs_loop.induct)
  case (1 env start s)
  have "st_code e = kResourceExhausted" if "dfs_step env start t = Inl e" for t
    using that by (auto simp: dfs_step_def dfs_visit_def Let_def split: list.splits prod.splits if_splits)
  with 1 show ?case by (auto simp: dfs_loop.simps [of env start s] Let_def split: if_splits sum.splits)
qed

lemma search_paths_Inl: "search_paths env starts found n = Inl e \<Longrightarrow> st_code e = kResourceExhausted"
  by (induction env starts found n rule: search_paths.induct)
    (auto simp: rnf_try_def dest: dfs_loop_Inl split: sum.splits if_splits)

lemma compose_candidates_Inl:
  "compose_candidates config limits ports links attachments g = Inl e \<Longrightarrow> st_code e = kResourceExhausted"
  by (auto simp: compose_candidates_def rnf_try_def Let_def split: sum.splits prod.splits dest: search_paths_Inl)

lemma compose_capacity_Inl: "compose_capacity config devices buckets g = Inl e \<Longrightarrow> st_code e = kOutOfRange"
  by (cases config devices buckets g rule: compose_capacity_cases) simp_all

lemma bound_check_Inl: "bound_check n m s k = Inl e \<Longrightarrow> st_code e = kResourceExhausted \<or> k = Inl e"
  by (auto simp: bound_check_def split: if_splits)

lemma rnf_try_Inl: "rnf_try r k = Inl e \<Longrightarrow> r = Inl e \<or> (\<exists>x. r = Inr x \<and> k x = Inl e)"
  by (cases r) auto

section \<open>Diagnostics\<close>

lemma length_unique_adj: "length (unique_adj eq xs) \<le> length xs"
  by (induction eq xs rule: unique_adj.induct) auto

lemma compose_resources_length:
  "length (compose_resources config t buckets d) \<le>
     1 + length (sd_devices d) + length (sd_ports d) + length (sd_links d) + length (sd_attachments d) + length (sd_paths d)"
  unfolding compose_resources_def Let_def by (rule order.trans [OF length_unique_adj]) simp

lemma length_diag_finish:
  assumes "length (dx_items g) \<le> dx_limit g"
  shows "length (diag_finish g) \<le> max 1 (dx_limit g)"
proof -
  have "length (sort_unique (dx_items g)) \<le> dx_limit g"
    using length_unique_adj [of "(=)" "sort (dx_items g)"] assms by (simp add: sort_unique_def)
  then show ?thesis by (auto simp: diag_finish_def Let_def)
qed

lemma sorted_diag_finish: "sorted (diag_finish g)"
  using strict_sorted_sort_unique [of "dx_items g"] by (auto simp: diag_finish_def Let_def strict_sorted_iff)

text \<open>Every section keeps the collector within its bound.\<close>

definition diag_ok :: "nat \<Rightarrow> diagnostics \<Rightarrow> bool" where
  "diag_ok n g \<longleftrightarrow> dx_limit g = n \<and> length (dx_items g) \<le> n"

lemma diag_ok_note [simp, intro]: "diag_ok n g \<Longrightarrow> diag_ok n (diag_note k e i src s g)"
  by (auto simp: diag_ok_def diag_note_def)

lemma fold_keeps: "(\<And>e a. P a \<Longrightarrow> P (f e a)) \<Longrightarrow> P a \<Longrightarrow> P (fold f es a)"
  by (induction es arbitrary: a) auto

lemma diag_ok_gather: "diag_ok (cl_max_diagnostics (ci_limits request)) (ct_diag (gather config request l))"
proof -
  let ?n = "cl_max_diagnostics (ci_limits request)"
  have claim: "diag_ok ?n (ct_diag t) \<Longrightarrow> diag_ok ?n (ct_diag (gather_claim rack r t))" for rack r t
    by (cases "er_payload r") (auto simp: gather_claim_def gather_member_def gather_maintenance_def
        gather_obligation_def Let_def split: option.split)
  have "diag_ok ?n (ct_diag t) \<Longrightarrow> diag_ok ?n (ct_diag (gather_record config request e t))" for e t
    by (cases e; cases "applicability_of (snd e) (ci_generation request)")
      (simp_all add: gather_record_def Let_def claim)
  then show ?thesis unfolding gather_def
    by (rule fold_keeps [where P = "\<lambda>t. diag_ok ?n (ct_diag t)"]) (simp_all add: empty_tables_def diag_ok_def)
qed

lemma diag_ok_devices: "diag_ok n (ct_diag t) \<Longrightarrow> diag_ok n (snd (compose_devices t))"
proof -
  assume "diag_ok n (ct_diag t)"
  then have "diag_ok n (snd (fold (device_step t) (ct_devices t) ([], ct_diag t)))"
    by (intro fold_keeps [where P = "\<lambda>a. diag_ok n (snd a)"])
      (auto simp: device_step_def Let_def split: prod.splits option.splits)
  then have "diag_ok n (snd (fold (unobserved_step t) (ct_members t) (fold (device_step t) (ct_devices t) ([], ct_diag t))))"
    by (rule fold_keeps [where P = "\<lambda>a. diag_ok n (snd a)", rotated])
      (auto simp: unobserved_step_def split: prod.splits)
  then show ?thesis by (auto simp: compose_devices_def split: prod.splits)
qed

lemma diag_ok_ports: "diag_ok n g \<Longrightarrow> diag_ok n (snd (compose_ports t devices g))"
proof -
  assume g: "diag_ok n g"
  have "diag_ok n (snd (snd (port_step t devices e a)))" if "diag_ok n (snd (snd a))" for e a
  proof -
    obtain i s out keys h where "e = (i, s)" "a = (out, keys, h)" by (cases e, cases a) auto
    with that show ?thesis by (simp add: port_step_def Let_def)
  qed
  then have "diag_ok n (snd (snd (fold (port_step t devices) (ct_ports t) ([], [], g))))"
    by (intro fold_keeps [where P = "\<lambda>a. diag_ok n (snd (snd a))"]) (simp_all add: g)
  then show ?thesis by (auto simp: compose_ports_def split: prod.splits)
qed

lemma diag_ok_links: "diag_ok n g \<Longrightarrow> diag_ok n (snd (compose_links t ports g))"
proof -
  assume g: "diag_ok n g"
  have "diag_ok n (snd (link_step t ports e a))" if "diag_ok n (snd a)" for e a
  proof -
    obtain i s out h where "e = (i, s)" "a = (out, h)" by (cases e, cases a) auto
    with that show ?thesis by (simp add: link_step_def Let_def split: option.split)
  qed
  then have "diag_ok n (snd (fold (link_step t ports) (ct_links t) ([], g)))"
    by (intro fold_keeps [where P = "\<lambda>a. diag_ok n (snd a)"]) (simp_all add: g)
  then show ?thesis by (auto simp: compose_links_def split: prod.splits)
qed

lemma diag_ok_attachments: "diag_ok n g \<Longrightarrow> diag_ok n (snd (compose_attachments t devices ports g))"
proof -
  assume g: "diag_ok n g"
  have "diag_ok n (snd (attachment_step devices ports e a))" if "diag_ok n (snd a)" for e a
  proof -
    obtain i s out h where "e = (i, s)" "a = (out, h)" by (cases e, cases a) auto
    with that show ?thesis by (simp add: attachment_step_def Let_def split: option.split)
  qed
  then have "diag_ok n (snd (fold (attachment_step devices ports) (ct_attachments t) ([], g)))"
    by (intro fold_keeps [where P = "\<lambda>a. diag_ok n (snd a)"]) (simp_all add: g)
  then show ?thesis by (auto simp: compose_attachments_def split: prod.splits)
qed

lemma diag_ok_obligations: "obligation_loop inside es s = Inr s' \<Longrightarrow> diag_ok n (ob_diag s) \<Longrightarrow> diag_ok n (ob_diag s')"
  by (induction inside es s rule: obligation_loop.induct) (auto simp: Let_def split: if_splits option.splits)

lemma diag_ok_capacity: "compose_capacity config devices buckets g = Inr (c, g') \<Longrightarrow> diag_ok n g \<Longrightarrow> diag_ok n g'"
  by (auto simp: compose_capacity_def rnf_try_Inr_iff or_fail_Inr_iff Let_def split: if_splits)

lemma diag_ok_candidates:
  "compose_candidates config limits ports links attachments g = Inr (found, g') \<Longrightarrow> diag_ok n g \<Longrightarrow> diag_ok n g'"
  by (auto simp: compose_candidates_def rnf_try_Inr_iff Let_def split: if_splits)

lemma diag_ok_paths: "compose_paths links found g = (paths, g') \<Longrightarrow> diag_ok n g \<Longrightarrow> diag_ok n g'"
proof -
  assume g: "diag_ok n g" and paths: "compose_paths links found g = (paths, g')"
  have "diag_ok n (snd (path_step links c a))" if "diag_ok n (snd a)" for c a
    using that by (cases a) (simp add: path_step_def Let_def split: prod.split)
  then have "diag_ok n (snd (fold (path_step links) found ([], g)))"
    by (intro fold_keeps [where P = "\<lambda>a. diag_ok n (snd a)"]) (simp_all add: g)
  with paths show ?thesis by (auto simp: compose_paths_def split: prod.splits)
qed

lemma composed_diagnostics:
  assumes "composed config request l d buckets"
  shows "length (sd_diagnostics d) \<le> max 1 (cl_max_diagnostics (ci_limits request))" "sorted (sd_diagnostics d)"
proof -
  let ?t = "gather config request l" and ?n = "cl_max_diagnostics (ci_limits request)"
  obtain g1 g2 g3 g4 g5 g6 g7 ob found where
    1: "compose_devices ?t = (sd_devices d, g1)" and 2: "compose_ports ?t (sd_devices d) g1 = (sd_ports d, g2)" and
    3: "compose_links ?t (sd_ports d) g2 = (sd_links d, g3)" and
    4: "compose_attachments ?t (sd_devices d) (sd_ports d) g3 = (sd_attachments d, g4)" and
    ob: "obligation_loop (target_in_rack config ?t (sd_ports d) (sd_links d)) (ct_obligations ?t)
           \<lparr>ob_records = [], ob_buckets = [], ob_out_of_rack = 0, ob_diag = g4\<rparr> = Inr ob" and
    5: "compose_capacity config (sd_devices d) buckets (ob_diag ob) = Inr (sd_capacity d, g5)" and
    6: "compose_candidates config (ci_limits request) (sd_ports d) (sd_links d) (sd_attachments d) g5 = Inr (found, g6)" and
    7: "compose_paths (sd_links d) found g6 = (sd_paths d, g7)" and d: "sd_diagnostics d = diag_finish g7"
    using assms unfolding composed_def Let_def by blast
  have "diag_ok ?n g1" using diag_ok_devices [OF diag_ok_gather, of request config l] by (simp add: 1)
  then have "diag_ok ?n g2" using diag_ok_ports [of ?n g1 ?t "sd_devices d"] by (simp add: 2)
  then have "diag_ok ?n g3" using diag_ok_links [of ?n g2 ?t "sd_ports d"] by (simp add: 3)
  then have "diag_ok ?n g4" using diag_ok_attachments [of ?n g3 ?t "sd_devices d" "sd_ports d"] by (simp add: 4)
  then have "diag_ok ?n (ob_diag ob)" using diag_ok_obligations [OF ob] by simp
  then have "diag_ok ?n g7" by (intro diag_ok_paths [OF 7] diag_ok_candidates [OF 6] diag_ok_capacity [OF 5])
  then show "length (sd_diagnostics d) \<le> max 1 ?n" "sorted (sd_diagnostics d)"
    using length_diag_finish [of g7] sorted_diag_finish by (simp_all add: d diag_ok_def)
qed

section \<open>A composition that returned\<close>

lemma compose_composed:
  assumes "compose l config request = Inr (s, st)"
  obtains buckets where "composed config request l (sn_data s) buckets" "sn_digest s = snapshot_digest (sn_data s)"
    "sn_ptr s \<noteq> None"
proof (rule compose_Inr [OF assms])
  fix d buckets
  assume d: "sn_ptr s = Some d" "sn_digest s = snapshot_digest d" "composed config request l d buckets"
  then have "sn_data s = d" by (simp add: sn_data_def)
  with d show thesis by (intro that [of buckets]) simp_all
qed

lemma composed_obligations:
  assumes "composed config request l d buckets"
  shows "strict_sorted (map o_id (sd_obligations d))"
    "omap_sum (\<lambda>_ c. unat c) buckets = (\<Sum>r\<leftarrow>sd_obligations d. unat (o_capacity r))"
proof -
  let ?t = "gather config request l"
  obtain ob g4 where
    ob: "obligation_loop (target_in_rack config ?t (sd_ports d) (sd_links d)) (ct_obligations ?t)
           \<lparr>ob_records = [], ob_buckets = [], ob_out_of_rack = 0, ob_diag = g4\<rparr> = Inr ob" and
    d: "ob_buckets ob = buckets" "sd_obligations d = sort_key o_id (ob_records ob)"
    using assms unfolding composed_def Let_def by blast
  from obligation_loop_Inr [OF ob] have "strict_sorted (map o_id (ob_records ob))"
    "omap_sum (\<lambda>_ c. unat c) (ob_buckets ob) = (\<Sum>r\<leftarrow>ob_records ob. unat (o_capacity r))"
    using tables_okD(6) [OF tables_ok_gather, of config request l] by auto
  with d show "strict_sorted (map o_id (sd_obligations d))"
    "omap_sum (\<lambda>_ c. unat c) buckets = (\<Sum>r\<leftarrow>sd_obligations d. unat (o_capacity r))"
    by (simp_all add: sort_key_strict)
qed

lemma composed_capacity:
  assumes "composed config request l d buckets"
  shows "closes (sd_capacity d)"
    "unat (k_total (sd_capacity d)) = known_sum (\<lambda>_. True) (sd_devices d)"
    "unat (k_unavailable (sd_capacity d)) = known_sum (\<lambda>x. d_eligibility x \<noteq> Eligibility_kEligible) (sd_devices d)"
    "unat (k_usable (sd_capacity d)) = known_sum (\<lambda>x. d_eligibility x = Eligibility_kEligible) (sd_devices d)"
    "unat (k_obligated (sd_capacity d)) = (\<Sum>r\<leftarrow>sd_obligations d. unat (o_capacity r))"
    "k_headroom_floor (sd_capacity d) = rc_headroom_floor config"
    "unat (k_uncommitted (sd_capacity d)) = unat (k_usable (sd_capacity d)) -
       (unat (k_obligated (sd_capacity d)) + unat (k_headroom_floor (sd_capacity d)))"
    "unat (k_deficit (sd_capacity d)) = (unat (k_obligated (sd_capacity d)) + unat (k_headroom_floor (sd_capacity d))) -
       unat (k_usable (sd_capacity d))"
proof -
  obtain g g' where cap: "compose_capacity config (sd_devices d) buckets g = Inr (sd_capacity d, g')"
    using assms unfolding composed_def Let_def by blast
  have out: "known_sum counted_out (sd_devices d) = known_sum (\<lambda>x. d_eligibility x \<noteq> Eligibility_kEligible) (sd_devices d)"
    "known_sum (\<lambda>x. \<not> counted_out x) (sd_devices d) = known_sum (\<lambda>x. d_eligibility x = Eligibility_kEligible) (sd_devices d)"
    unfolding known_sum_def
    using eligible_device(2) [OF assms] by (intro arg_cong [where f = sum_list] map_cong filter_cong; auto simp: counted_out_def)+
  show "closes (sd_capacity d)"
    "unat (k_total (sd_capacity d)) = known_sum (\<lambda>_. True) (sd_devices d)"
    "unat (k_unavailable (sd_capacity d)) = known_sum (\<lambda>x. d_eligibility x \<noteq> Eligibility_kEligible) (sd_devices d)"
    "unat (k_usable (sd_capacity d)) = known_sum (\<lambda>x. d_eligibility x = Eligibility_kEligible) (sd_devices d)"
    "unat (k_obligated (sd_capacity d)) = (\<Sum>r\<leftarrow>sd_obligations d. unat (o_capacity r))"
    "k_headroom_floor (sd_capacity d) = rc_headroom_floor config"
    "unat (k_uncommitted (sd_capacity d)) = unat (k_usable (sd_capacity d)) -
       (unat (k_obligated (sd_capacity d)) + unat (k_headroom_floor (sd_capacity d)))"
    "unat (k_deficit (sd_capacity d)) = (unat (k_obligated (sd_capacity d)) + unat (k_headroom_floor (sd_capacity d))) -
       unat (k_usable (sd_capacity d))"
    using cap composed_obligations(2) [OF assms] out
    by (cases config "sd_devices d" buckets g rule: compose_capacity_cases; simp)+
qed

end
