(* ===== verification/Rnf_Compose_Select.thy ===== *)
theory Rnf_Compose_Select
  imports Rnf_Compose_Props
begin

text \<open>
  Which claim the composer keeps for an identity that several sources describe. The four claim tables
  are filled the same way; the locale states that contract once, and each table interprets it.
\<close>

section \<open>The contract of a claim table\<close>

definition applies :: "compose_input \<Rightarrow> evidence_record \<Rightarrow> bool" where
  "applies request r \<longleftrightarrow> applicability_of r (ci_generation request) = Applicability_kApply"

text \<open>The applicable records of a ledger that make a claim of one kind about one identity.\<close>

definition claimants ::
  "(evidence_payload \<Rightarrow> ('k \<times> 'v) option) \<Rightarrow> compose_input \<Rightarrow> evidence_record set \<Rightarrow> 'k \<Rightarrow> evidence_record set" where
  "claimants claim request R k =
     {r \<in> R. applies request r \<and> (\<exists>v. claim (er_payload r) = Some (k, v))}"

text \<open>A selection carries the claim of a record that no other claimant supersedes.\<close>

definition selects ::
  "(evidence_payload \<Rightarrow> ('k \<times> 'v) option) \<Rightarrow> compose_input \<Rightarrow> evidence_record set \<Rightarrow> 'k \<Rightarrow>
   'v selection option \<Rightarrow> bool" where
  "selects claim request R k sel \<longleftrightarrow>
     (case sel of
        None \<Rightarrow> claimants claim request R k = {}
      | Some s \<Rightarrow>
          (\<exists>r\<in>claimants claim request R k.
             claim (er_payload r) = Some (k, se_value s) \<and>
             s\<lparr>se_conflicted := False\<rparr> = candidate_of r (se_value s) \<and>
             (\<forall>q\<in>claimants claim request R k. \<not> supersedes q r)))"

lemma offer_newest:
  assumes "s\<lparr>se_conflicted := False\<rparr> = candidate_of r v"
  shows "(offer (Some s) (candidate_of q w))\<lparr>se_conflicted := False\<rparr> =
    (if supersedes q r then candidate_of q w else candidate_of r v)"
proof -
  have s: "se_generation s = er_generation r" "se_sequence s = pv_sequence (er_provenance r)"
    "se_digest s = evidence_digest r"
    using assms by (cases s; simp add: candidate_of_def)+
  show ?thesis
    using assms by (auto simp: offer_def strictly_newer_def same_rank_def supersedes_def rank_of_def candidate_of_def s)
qed

lemma supersedes_negative: "\<not> supersedes a b \<Longrightarrow> \<not> supersedes b c \<Longrightarrow> \<not> supersedes a c"
  by (auto simp: supersedes_def)

lemma claimants_insert:
  "claimants claim request (insert r R) k =
     (if applies request r \<and> (\<exists>v. claim (er_payload r) = Some (k, v)) then insert r (claimants claim request R k)
      else claimants claim request R k)"
  by (auto simp: claimants_def)

lemma selects_offer:
  assumes "selects claim request R k sel" "applies request r" "claim (er_payload r) = Some (k, v)"
  shows "selects claim request (insert r R) k (Some (offer sel (candidate_of r v)))"
proof (cases sel)
  case None
  with assms show ?thesis
    by (simp add: selects_def offer_def claimants_insert) (simp add: candidate_of_def supersedes_def)
next
  case (Some s)
  then obtain q where q: "q \<in> claimants claim request R k" "claim (er_payload q) = Some (k, se_value s)"
    "s\<lparr>se_conflicted := False\<rparr> = candidate_of q (se_value s)" "\<forall>x\<in>claimants claim request R k. \<not> supersedes x q"
    using assms(1) by (auto simp: selects_def)
  note new = offer_newest [OF q(3), of r v]
  have val: "se_value (offer (Some s) (candidate_of r v)) = (if supersedes r q then v else se_value s)"
    using arg_cong [OF new, of se_value] by (simp add: candidate_of_def)
  show ?thesis
  proof (cases "supersedes r q")
    case True
    then have "\<forall>x\<in>claimants claim request R k. \<not> supersedes x r"
      using q(4) supersedes.beats_trans by blast
    with True assms(2,3) new val show ?thesis
      by (auto simp: selects_def Some claimants_insert supersedes.beats_irrefl)
  next
    case False
    with q assms(2,3) new val show ?thesis by (auto simp: selects_def Some claimants_insert)
  qed
qed

locale claim_table =
  fixes table :: "compose_tables \<Rightarrow> ('k::linorder, 'v selection) omap"
    and claim :: "evidence_payload \<Rightarrow> ('k \<times> 'v) option"
  assumes table_empty: "table (empty_tables n) = []"
    and table_stats: "table (t\<lparr>ct_stats := st\<rparr>) = table t" "table (t\<lparr>ct_stats := st, ct_diag := g\<rparr>) = table t"
    and table_claim: "table (gather_claim rack r t) =
      (case claim (er_payload r) of
         None \<Rightarrow> table t
       | Some (k, v) \<Rightarrow> omap_put k (offer (omap_get (table t) k) (candidate_of r v)) (table t))"
begin

lemma table_record:
  "table (gather_record config request (slot, r) t) =
     (if applies request r then
        (case claim (er_payload r) of
           None \<Rightarrow> table t
         | Some (k, v) \<Rightarrow> omap_put k (offer (omap_get (table t) k) (candidate_of r v)) (table t))
      else table t)"
  by (cases "applicability_of r (ci_generation request)")
    (simp_all add: gather_record_def applies_def Let_def table_claim table_stats split: option.split)

lemma selects_record:
  assumes "\<And>k. selects claim request R k (omap_get (table t) k)"
  shows "selects claim request (insert r R) k (omap_get (table (gather_record config request (slot, r) t)) k)"
proof (cases "applies request r \<and> (\<exists>v. claim (er_payload r) = Some (k, v))")
  case True
  then show ?thesis using selects_offer [OF assms] by (auto simp: table_record omap_get_put)
next
  case False
  then have "omap_get (table (gather_record config request (slot, r) t)) k = omap_get (table t) k"
    by (auto simp: table_record omap_get_put split: option.split)
  with False assms [of k] show ?thesis by (auto simp: selects_def claimants_insert split: option.splits)
qed

lemma selects_gather:
  "selects claim request (set (ledger_records l)) k (omap_get (table (gather config request l)) k)"
proof -
  have "selects claim request (R \<union> snd ` set es) k (omap_get (table (fold (gather_record config request) es t)) k)"
    if "\<And>k. selects claim request R k (omap_get (table t) k)" for es R t k
    using that
  proof (induction es arbitrary: R t)
    case (Cons e es)
    obtain slot r where e: "e = (slot, r)" by (cases e)
    have "selects claim request (insert r R) k (omap_get (table (gather_record config request e t)) k)" for k
      unfolding e by (rule selects_record) (rule Cons.prems)
    from Cons.IH [OF this] show ?case by (simp add: e)
  qed simp
  from this [of "{}" "empty_tables (cl_max_diagnostics (ci_limits request))" "el_slots l"] show ?thesis
    by (simp add: gather_def table_empty ledger_records_def selects_def claimants_def)
qed

end

section \<open>The four tables\<close>

fun device_payload :: "evidence_payload \<Rightarrow> (device_id \<times> device_claim) option" where
  "device_payload (PDevice c) = Some (dc_device c, c)" | "device_payload _ = None"

fun port_payload :: "evidence_payload \<Rightarrow> (port_id \<times> port_claim) option" where
  "port_payload (PPort c) = Some (pc_port c, c)" | "port_payload _ = None"

fun link_payload :: "evidence_payload \<Rightarrow> (link_id \<times> link_claim) option" where
  "link_payload (PLink c) = Some (lc_link c, c)" | "link_payload _ = None"

fun attachment_payload :: "evidence_payload \<Rightarrow> (attachment_id \<times> attachment_claim) option" where
  "attachment_payload (PAttachment c) = Some (ac_attachment c, c)" | "attachment_payload _ = None"

lemmas gather_defs = gather_claim_def gather_member_def gather_maintenance_def gather_obligation_def empty_tables_def Let_def

interpretation device_table: claim_table ct_devices device_payload
  by unfold_locales (auto simp: gather_defs split: evidence_payload.split option.split)

interpretation port_table: claim_table ct_ports port_payload
  by unfold_locales (auto simp: gather_defs split: evidence_payload.split option.split)

interpretation link_table: claim_table ct_links link_payload
  by unfold_locales (auto simp: gather_defs split: evidence_payload.split option.split)

interpretation attachment_table: claim_table ct_attachments attachment_payload
  by unfold_locales (auto simp: gather_defs split: evidence_payload.split option.split)

end
