(* ===== verification/Rnf_Compose_Claims.thy ===== *)
theory Rnf_Compose_Claims
  imports Rnf_Compose_Snapshot Rnf_Compose_Select
begin

text \<open>
  The properties of the composer, each exercised on a small rack: one switch with an access port and
  an uplink joined by one link, one attached host and one imported obligation.
\<close>

section \<open>A small rack\<close>

definition sample_record :: "evidence_payload \<Rightarrow> evidence_record" where
  "sample_record p =
     \<lparr>er_durability = Durability_kSticky, er_generation = 1,
      er_provenance = \<lparr>pv_source = 9, pv_kind = SourceKind_kOperator, pv_sequence = 1, pv_observed_at_ms = 0\<rparr>,
      er_payload = p\<rparr>"

definition sample_port :: "u64 \<Rightarrow> u16 \<Rightarrow> port_role \<Rightarrow> evidence_payload" where
  "sample_port i index role = PPort \<lparr>pc_port = i, pc_device = 5, pc_index = index, pc_role = role,
     pc_capacity = 40, pc_capacity_known = True, pc_admin = AdminState_kEnabled, pc_availability = Availability_kUp\<rparr>"

definition sample_ledger :: evidence_ledger where
  "sample_ledger = (ledger_new default_evidence_limits)\<lparr>el_slots :=
     map (\<lambda>p. (slot_of (sample_record p), sample_record p))
      [PMember \<lparr>mc_rack = 1, mc_device = 5, mc_incarnation = 7\<rparr>,
       PDevice \<lparr>dc_device = 5, dc_role = DeviceRole_kSwitch, dc_capacity = 100, dc_capacity_known = True,
         dc_availability = Availability_kUp\<rparr>,
       sample_port 20 0 PortRole_kAccess, sample_port 21 1 PortRole_kUplink,
       PLink \<lparr>lc_link = 30, lc_port_a = 20, lc_port_b = 21, lc_kind = LinkKind_kPhysical, lc_capacity = 25,
         lc_capacity_known = True, lc_availability = Availability_kUp\<rparr>,
       PAttachment \<lparr>ac_attachment = 40, ac_device = 5, ac_port = 20, ac_host_key = ''host''\<rparr>,
       PObligation \<lparr>oc_obligation = 50, oc_target_kind = ResourceKind_kDevice, oc_target_id = 5,
         oc_capacity = 10, oc_holder = 3, oc_authority = ''import''\<rparr>]\<rparr>"

definition sample_config :: rack_config where
  "sample_config = \<lparr>rc_rack = 1, rc_name = ''rack'', rc_headroom_floor = 5, rc_max_paths_per_pair = 8,
     rc_max_path_hops = 4, rc_strict_generation = False\<rparr>"

definition sample_request :: compose_input where
  "sample_request = \<lparr>ci_generation = 1, ci_epoch = 1, ci_lifecycle = LifecycleState_kActive,
     ci_limits = default_compose_limits\<rparr>"

definition sample_selection :: "'a \<Rightarrow> digest \<Rightarrow> 'a selection" where
  "sample_selection v h = \<lparr>se_conflicted = False, se_generation = 1, se_sequence = 1, se_digest = h, se_source = 9, se_value = v\<rparr>"

definition sample_tables ::
  "digest \<Rightarrow> digest \<Rightarrow> digest \<Rightarrow> digest \<Rightarrow> digest \<Rightarrow> digest \<Rightarrow> compose_stats \<Rightarrow> compose_tables" where
  "sample_tables h1 h2 h3 h4 h5 h6 st =
    \<lparr>ct_members = [(5, \<lparr>mi_indeterminate = False, mi_incarnation = 7, mi_source = 9\<rparr>)],
     ct_devices = [(5, sample_selection \<lparr>dc_device = 5, dc_role = DeviceRole_kSwitch, dc_capacity = 100,
       dc_capacity_known = True, dc_availability = Availability_kUp\<rparr> h1)],
     ct_ports = [(20, sample_selection \<lparr>pc_port = 20, pc_device = 5, pc_index = 0, pc_role = PortRole_kAccess,
         pc_capacity = 40, pc_capacity_known = True, pc_admin = AdminState_kEnabled, pc_availability = Availability_kUp\<rparr> h2),
       (21, sample_selection \<lparr>pc_port = 21, pc_device = 5, pc_index = 1, pc_role = PortRole_kUplink,
         pc_capacity = 40, pc_capacity_known = True, pc_admin = AdminState_kEnabled, pc_availability = Availability_kUp\<rparr> h3)],
     ct_links = [(30, sample_selection \<lparr>lc_link = 30, lc_port_a = 20, lc_port_b = 21, lc_kind = LinkKind_kPhysical,
         lc_capacity = 25, lc_capacity_known = True, lc_availability = Availability_kUp\<rparr> h4)],
     ct_attachments = [(40, sample_selection \<lparr>ac_attachment = 40, ac_device = 5, ac_port = 20, ac_host_key = ''host''\<rparr> h5)],
     ct_maintenance = [],
     ct_obligations = [(50, ResourceRef ResourceKind_kDevice 5, sample_selection \<lparr>oc_obligation = 50,
         oc_target_kind = ResourceKind_kDevice, oc_target_id = 5, oc_capacity = 10, oc_holder = 3,
         oc_authority = ''import''\<rparr> h6)],
     ct_stats = st, ct_diag = \<lparr>dx_limit = 4096, dx_dropped = 0, dx_items = []\<rparr>\<rparr>"

lemma sample_gather:
  "\<exists>h1 h2 h3 h4 h5 h6 st. gather sample_config sample_request sample_ledger = sample_tables h1 h2 h3 h4 h5 h6 st"
  unfolding gather_def sample_ledger_def sample_config_def sample_request_def default_compose_limits_def
  by (simp add: gather_record_def sample_record_def sample_port_def applicability_of_def gather_claim_def
      gather_member_def gather_obligation_def offer_def candidate_of_def empty_tables_def Let_def
      sample_selection_def sample_tables_def)

definition sample_device :: device_record where
  "sample_device = \<lparr>d_id = 5, d_role = DeviceRole_kSwitch, d_incarnation = 7, d_capacity = 100, d_capacity_known = True,
     d_eligibility = Eligibility_kEligible, d_availability = Availability_kUp\<rparr>"

definition sample_port_record :: "u64 \<Rightarrow> u16 \<Rightarrow> port_role \<Rightarrow> port_record" where
  "sample_port_record i index role = \<lparr>p_id = i, p_device = 5, p_index = index, p_role = role, p_capacity = 40,
     p_capacity_known = True, p_availability = Availability_kUp, p_admin = AdminState_kEnabled,
     p_eligibility = Eligibility_kEligible\<rparr>"

definition sample_link :: link_record where
  "sample_link = \<lparr>l_id = 30, l_port_a = 20, l_port_b = 21, l_kind = LinkKind_kPhysical, l_capacity = 25,
     l_capacity_known = True, l_availability = Availability_kUp, l_eligibility = Eligibility_kEligible\<rparr>"

definition sample_attachment :: attachment_record where
  "sample_attachment = \<lparr>a_id = 40, a_device = 5, a_port = 20, a_host_key = ''host'', a_eligibility = Eligibility_kEligible\<rparr>"

lemmas sample_records = sample_device_def sample_port_record_def sample_link_def sample_attachment_def

lemma sample_find:
  "find_sorted d_id 5 [sample_device] = Some sample_device"
  "find_sorted p_id 20 [sample_port_record 20 0 PortRole_kAccess, sample_port_record 21 1 PortRole_kUplink] =
     Some (sample_port_record 20 0 PortRole_kAccess)"
  "find_sorted p_id 21 [sample_port_record 20 0 PortRole_kAccess, sample_port_record 21 1 PortRole_kUplink] =
     Some (sample_port_record 21 1 PortRole_kUplink)"
  "find_sorted l_id 30 [sample_link] = Some sample_link"
  by (subst find_sorted_iff; simp add: sample_records)+

lemma sample_sections:
  fixes g :: diagnostics
  defines "t \<equiv> gather sample_config sample_request sample_ledger"
    and "ports \<equiv> [sample_port_record 20 0 PortRole_kAccess, sample_port_record 21 1 PortRole_kUplink]"
  shows "compose_devices t = ([sample_device], ct_diag t)"
    "compose_ports t [sample_device] g = (ports, g)"
    "compose_links t ports g = ([sample_link], g)"
    "compose_attachments t [sample_device] ports g = ([sample_attachment], g)"
    "compose_maintenance t = []"
proof -
  obtain h1 h2 h3 h4 h5 h6 st where t: "t = sample_tables h1 h2 h3 h4 h5 h6 st"
    unfolding t_def using sample_gather by blast
  note ev = t sample_tables_def ports_def sample_selection_def device_excluded_def exclusion_of_def rack_excluded_def is_usable_def Let_def
  show "compose_devices t = ([sample_device], ct_diag t)"
    by (simp add: ev compose_devices_def device_step_def unobserved_step_def sample_device_def)
  show "compose_ports t [sample_device] g = (ports, g)"
    by (simp add: ev compose_ports_def port_step_def sample_find) (simp add: sample_records)
  show "compose_links t ports g = ([sample_link], g)"
    by (simp add: ev compose_links_def link_step_def sample_find)
      (simp add: sample_records min_capacity_def combine_availability_def)
  show "compose_attachments t [sample_device] ports g = ([sample_attachment], g)"
    by (simp add: ev compose_attachments_def attachment_step_def sample_find) (simp add: sample_records)
  show "compose_maintenance t = []" by (simp add: ev compose_maintenance_def)
qed

lemma sample_obligations:
  fixes g :: diagnostics
  defines "t \<equiv> gather sample_config sample_request sample_ledger"
  shows "obligation_loop (target_in_rack sample_config t ports links) (ct_obligations t)
      \<lparr>ob_records = [], ob_buckets = [], ob_out_of_rack = 0, ob_diag = g\<rparr> =
    Inr \<lparr>ob_records = [\<lparr>o_id = 50, o_target = ResourceRef ResourceKind_kDevice 5, o_capacity = 10, o_holder = 3,
        o_authority = ''import'', o_source = 9\<rparr>],
      ob_buckets = [(ResourceRef ResourceKind_kDevice 5, 10)], ob_out_of_rack = 0, ob_diag = g\<rparr>"
proof -
  obtain h1 h2 h3 h4 h5 h6 st where t: "t = sample_tables h1 h2 h3 h4 h5 h6 st"
    unfolding t_def using sample_gather by blast
  show ?thesis
    by (simp add: t sample_tables_def sample_selection_def target_in_rack_def checked_add_u64_def Let_def)
qed

lemma sample_capacity:
  "compose_capacity sample_config [sample_device] [(ResourceRef ResourceKind_kDevice 5, 10)] g =
     Inr (\<lparr>k_total = 100, k_unavailable = 0, k_usable = 100, k_obligated = 10, k_headroom_floor = 5,
       k_uncommitted = 85, k_deficit = 0\<rparr>, g)"
  by (simp add: compose_capacity_def sample_device_def sample_config_def is_usable_def checked_add_u64_def
      checked_sub_u64_def closes_def Let_def)

lemma sample_adjacency: "adjacency_of [sample_link] = [(20, [(30, 21)]), (21, [(30, 20)])]"
  by (simp add: adjacency_of_def emplace_def sample_link_def)

lemma sample_candidates:
  "compose_candidates sample_config (ci_limits sample_request)
     [sample_port_record 20 0 PortRole_kAccess, sample_port_record 21 1 PortRole_kUplink] [sample_link]
     [sample_attachment] g = Inr ([\<lparr>pc_links = [30], pc_start = 20, pc_end = 21\<rparr>], g)"
  by (simp add: compose_candidates_def sample_adjacency sample_config_def sample_request_def default_compose_limits_def
      access_ports_def exit_ports_def sample_port_record_def sample_attachment_def dfs_loop.simps dfs_step_def
      dfs_visit_def neighbours_of_def oset_erase_def max_expansions_def)

lemma sample_paths:
  "compose_paths [sample_link] [\<lparr>pc_links = [30], pc_start = 20, pc_end = 21\<rparr>] g =
     ([\<lparr>pa_id = path_identity [30], pa_start_port = 20, pa_end_port = 21, pa_links = [30], pa_bottleneck = 25,
        pa_bottleneck_known = True, pa_eligibility = Eligibility_kEligible\<rparr>], g)"
  by (simp add: compose_paths_def path_step_def sample_find Let_def) (simp add: sample_link_def)

definition sample_path :: path_record where
  "sample_path = \<lparr>pa_id = path_identity [30], pa_start_port = 20, pa_end_port = 21, pa_links = [30],
     pa_bottleneck = 25, pa_bottleneck_known = True, pa_eligibility = Eligibility_kEligible\<rparr>"

lemma sample_compose:
  obtains s st where "compose sample_ledger sample_config sample_request = Inr (s, st)"
    "sd_devices (sn_data s) = [sample_device]" "sd_links (sn_data s) = [sample_link]"
    "sd_ports (sn_data s) = [sample_port_record 20 0 PortRole_kAccess, sample_port_record 21 1 PortRole_kUplink]"
    "sd_attachments (sn_data s) = [sample_attachment]" "sd_paths (sn_data s) = [sample_path]"
    "sd_diagnostics (sn_data s) = []"
proof -
  obtain h1 h2 h3 h4 h5 h6 st where t: "gather sample_config sample_request sample_ledger = sample_tables h1 h2 h3 h4 h5 h6 st"
    using sample_gather by blast
  let ?ports = "[sample_port_record 20 0 PortRole_kAccess, sample_port_record 21 1 PortRole_kUplink]"
  define g where "g = ct_diag (sample_tables h1 h2 h3 h4 h5 h6 st)"
  define ob where "ob = \<lparr>ob_records = [\<lparr>o_id = 50, o_target = ResourceRef ResourceKind_kDevice 5, o_capacity = 10, o_holder = 3,
        o_authority = ''import'', o_source = 9\<rparr>],
      ob_buckets = [(ResourceRef ResourceKind_kDevice 5, 10)], ob_out_of_rack = 0, ob_diag = g\<rparr>"
  define cap where "cap = \<lparr>k_total = 100, k_unavailable = 0, k_usable = 100, k_obligated = 10, k_headroom_floor = 5,
       k_uncommitted = 85, k_deficit = 0\<rparr>"
  have limits: "cl_max_devices (ci_limits sample_request) = 4096" "cl_max_ports (ci_limits sample_request) = 16384"
    "cl_max_links (ci_limits sample_request) = 16384" "cl_max_attachments (ci_limits sample_request) = 16384"
    "cl_max_maintenance (ci_limits sample_request) = 8192" "cl_max_obligations (ci_limits sample_request) = 8192"
    "rc_rack sample_config \<noteq> 0" "length (ct_members (sample_tables h1 h2 h3 h4 h5 h6 st)) = 1"
    by (simp_all add: sample_request_def default_compose_limits_def sample_config_def sample_tables_def)
  have loop: "obligation_loop (target_in_rack sample_config (sample_tables h1 h2 h3 h4 h5 h6 st) ?ports [sample_link])
      (ct_obligations (sample_tables h1 h2 h3 h4 h5 h6 st))
      \<lparr>ob_records = [], ob_buckets = [], ob_out_of_rack = 0, ob_diag = g\<rparr> = Inr ob"
    using sample_obligations [of ?ports "[sample_link]" g] by (simp add: t ob_def)
  have ob: "length (ob_records ob) = 1" "ob_diag ob = g" "ob_buckets ob = [(ResourceRef ResourceKind_kDevice 5, 10)]"
    by (simp_all add: ob_def)
  note sections = sample_sections [unfolded t, folded g_def]
  have c: "compose sample_ledger sample_config sample_request =
      Inr (compose_finish sample_config sample_request sample_ledger (sample_tables h1 h2 h3 h4 h5 h6 st) [sample_device]
        ?ports [sample_link] [sample_attachment] ob cap [\<lparr>pc_links = [30], pc_start = 20, pc_end = 21\<rparr>] g)"
    by (simp add: compose_def t limits sections bound_check_def loop ob sample_capacity cap_def sample_candidates)
  have g: "diag_finish g = []" by (simp add: g_def sample_tables_def diag_finish_def sort_unique_def)
  obtain s st' where f: "compose_finish sample_config sample_request sample_ledger (sample_tables h1 h2 h3 h4 h5 h6 st) [sample_device]
        ?ports [sample_link] [sample_attachment] ob cap [\<lparr>pc_links = [30], pc_start = 20, pc_end = 21\<rparr>] g = (s, st')"
    by fastforce
  have "sd_devices (sn_data s) = [sample_device]" "sd_links (sn_data s) = [sample_link]"
    "sd_ports (sn_data s) = ?ports" "sd_attachments (sn_data s) = [sample_attachment]"
    "sd_paths (sn_data s) = [sample_path]" "sd_diagnostics (sn_data s) = []"
    using f by (auto simp: compose_finish_def sample_paths Let_def sn_data_def g sample_path_def)
  with c f show thesis by (intro that) auto
qed

section \<open>Maintenance directives\<close>

text \<open>
  A target is drained while the ledger holds a directive of some source for it that applies and is not a
  clear; the ledger keeps the newest directive of each source.
\<close>

definition drains :: "compose_input \<Rightarrow> resource_ref \<Rightarrow> evidence_record \<Rightarrow> bool" where
  "drains request target r \<longleftrightarrow>
     applies request r \<and>
     (case er_payload r of
        PMaintenance claim \<Rightarrow>
          tc_action claim \<noteq> MaintenanceKind_kClear \<and> ResourceRef (tc_target_kind claim) (tc_target_id claim) = target
      | _ \<Rightarrow> False)"

definition drained :: "compose_input \<Rightarrow> evidence_ledger \<Rightarrow> resource_ref \<Rightarrow> bool" where
  "drained request l target \<longleftrightarrow> list_ex (drains request target) (ledger_records l)"

definition key_excluded :: "u64 \<Rightarrow> compose_tables \<Rightarrow> bool" where
  "key_excluded key t \<longleftrightarrow>
     (case omap_get (ct_maintenance t) key of None \<Rightarrow> False | Some (_, e) \<Rightarrow> mx_excluded e)"

lemma key_excluded_claim: "key_excluded key t \<Longrightarrow> key_excluded key (gather_claim rack r t)"
  by (cases "er_payload r")
    (auto simp: key_excluded_def gather_claim_def gather_member_def gather_maintenance_def gather_obligation_def
      omap_get_put Let_def split: option.split)

lemma key_excluded_frame [simp]:
  "key_excluded key (t\<lparr>ct_stats := st\<rparr>) = key_excluded key t" "key_excluded key (t\<lparr>ct_diag := g\<rparr>) = key_excluded key t"
  by (simp_all add: key_excluded_def)

lemma key_excluded_record: "key_excluded key t \<Longrightarrow> key_excluded key (gather_record config request e t)"
  by (cases e; cases "applicability_of (snd e) (ci_generation request)")
    (simp_all add: gather_record_def Let_def key_excluded_claim)

lemma key_excluded_drain:
  assumes "drains request (ResourceRef kind i) r"
  shows "key_excluded (pack_ref kind i) (gather_record config request (slot, r) t)"
proof -
  obtain claim where claim: "er_payload r = PMaintenance claim" "tc_action claim \<noteq> MaintenanceKind_kClear"
    "tc_target_kind claim = kind" "tc_target_id claim = i"
    using assms by (auto simp: drains_def split: evidence_payload.splits)
  have "key_excluded (pack_ref kind i) (gather_claim rack r t)" for rack t
    using claim by (auto simp: key_excluded_def gather_claim_def gather_maintenance_def omap_get_put Let_def)
  then show ?thesis using assms by (simp add: gather_record_def drains_def applies_def Let_def)
qed

lemma drained_excluded:
  assumes "drained request l (ResourceRef kind i)"
  shows "key_excluded (pack_ref kind i) (gather config request l)"
proof -
  have keeps: "key_excluded key t \<Longrightarrow> key_excluded key (fold (gather_record config request) es t)" for key es t
    by (rule fold_keeps) (auto intro: key_excluded_record)
  obtain slot r where r: "(slot, r) \<in> set (el_slots l)" "drains request (ResourceRef kind i) r"
    using assms by (auto simp: drained_def list_ex_iff ledger_records_def)
  obtain before after where "el_slots l = before @ (slot, r) # after" using split_list [OF r(1)] by blast
  then show ?thesis by (simp add: gather_def keeps key_excluded_drain [OF r(2)])
qed

lemma not_excluded_not_drained:
  "\<not> exclusion_of (gather config request l) kind i \<Longrightarrow>
     \<not> drained request l (ResourceRef kind i) \<and> \<not> drained request l (ResourceRef ResourceKind_kRack 0)"
  using drained_excluded [of request l kind i config] drained_excluded [of request l ResourceKind_kRack 0 config]
  by (auto simp: exclusion_of_def rack_excluded_def key_excluded_def)

lemma eligible_device_not_drained:
  assumes c: "composed config request l d buckets" and x: "x \<in> set (sd_devices d)" "d_eligibility x = Eligibility_kEligible"
  shows "\<not> drained request l (ResourceRef ResourceKind_kDevice (d_id x))"
    "\<not> drained request l (ResourceRef ResourceKind_kRack 0)"
proof -
  let ?t = "gather config request l"
  have "d_id x \<in> fst ` set (ct_members ?t)" using composed_devices(2) [OF c] x(1) by blast
  then have "omap_get (ct_members ?t) (d_id x) \<noteq> None"
    using tables_ok_gather [of config request l] by (auto simp: tables_ok_def omap_get_iff [symmetric])
  then have "\<not> exclusion_of ?t ResourceKind_kDevice (d_id x)"
    using eligible_device(3) [OF c x] by (simp add: device_excluded_def)
  then show "\<not> drained request l (ResourceRef ResourceKind_kDevice (d_id x))"
    "\<not> drained request l (ResourceRef ResourceKind_kRack 0)"
    using not_excluded_not_drained by blast+
qed

section \<open>Properties\<close>

text \<open>
  (C13) What a composed snapshot is. Devices, ports, links, attachments, obligations and resources are
  strictly sorted by their identities, paths strictly by start port, end port and links, maintenance
  records by target and source, and the diagnostics are sorted. Devices, ports, links, attachments, paths,
  maintenance records and obligations are within their configured bounds, diagnostics within the larger of
  one and theirs, and the resources are no more than one for the rack and one for each device, port, link,
  attachment and path. The devices are exactly the members, the resources are exactly the rack and the
  listed records, the capacity ledger closes, and the digest is that of the data.
\<close>
theorem compose_wellformed:
  assumes "compose l config request = Inr (s, st)"
  shows "let d = sn_data s; limits = ci_limits request in
    sd_rack d = rc_rack config \<and> sd_generation d = ci_generation request \<and> sn_digest s = snapshot_digest d \<and>
    strict_sorted (map d_id (sd_devices d)) \<and> strict_sorted (map p_id (sd_ports d)) \<and>
    strict_sorted (map l_id (sd_links d)) \<and> strict_sorted (map a_id (sd_attachments d)) \<and>
    strict_sorted (map o_id (sd_obligations d)) \<and> strict_sorted (map rs_ref (sd_resources d)) \<and>
    strict_sorted (map (\<lambda>p. (pa_start_port p, pa_end_port p, pa_links p)) (sd_paths d)) \<and>
    sorted (sd_diagnostics d) \<and> sorted (map (\<lambda>m. (m_target m, m_source m)) (sd_maintenance d)) \<and>
    d_id ` set (sd_devices d) = fst ` set (ct_members (gather config request l)) \<and>
    rs_ref ` set (sd_resources d) = ref_of_rack config d \<and> closes (sd_capacity d) \<and>
    length (sd_devices d) \<le> cl_max_devices limits \<and> length (sd_ports d) \<le> cl_max_ports limits \<and>
    length (sd_links d) \<le> cl_max_links limits \<and> length (sd_attachments d) \<le> cl_max_attachments limits \<and>
    length (sd_paths d) \<le> cl_max_paths limits \<and> length (sd_maintenance d) \<le> cl_max_maintenance limits \<and>
    length (sd_obligations d) \<le> cl_max_obligations limits \<and>
    length (sd_diagnostics d) \<le> max 1 (cl_max_diagnostics limits) \<and>
    length (sd_resources d) \<le> 1 + length (sd_devices d) + length (sd_ports d) + length (sd_links d) +
      length (sd_attachments d) + length (sd_paths d)"
proof (rule compose_composed [OF assms])
  fix buckets
  assume c: "composed config request l (sn_data s) buckets" and digest: "sn_digest s = snapshot_digest (sn_data s)"
  have lengths: "sd_rack (sn_data s) = rc_rack config \<and> sd_generation (sn_data s) = ci_generation request \<and>
      length (sd_devices (sn_data s)) \<le> cl_max_devices (ci_limits request) \<and>
      length (sd_ports (sn_data s)) \<le> cl_max_ports (ci_limits request) \<and>
      length (sd_links (sn_data s)) \<le> cl_max_links (ci_limits request) \<and>
      length (sd_attachments (sn_data s)) \<le> cl_max_attachments (ci_limits request) \<and>
      length (sd_maintenance (sn_data s)) \<le> cl_max_maintenance (ci_limits request) \<and>
      length (sd_obligations (sn_data s)) \<le> cl_max_obligations (ci_limits request) \<and>
      sd_resources (sn_data s) = compose_resources config (gather config request l) buckets (sn_data s)"
    using c unfolding composed_def Let_def by blast
  moreover have "sd_maintenance (sn_data s) = compose_maintenance (gather config request l)"
    using c unfolding composed_def Let_def by blast
  then have "sorted (map (\<lambda>m. (m_target m, m_source m)) (sd_maintenance (sn_data s)))"
    by (simp add: compose_maintenance_def)
  ultimately show ?thesis
    using compose_resources_length [of config "gather config request l" buckets "sn_data s"]
      digest composed_devices(1,2) [OF c] composed_ports(1) [OF c] composed_links(1) [OF c]
      composed_attachments(1) [OF c] composed_obligations(1) [OF c] composed_paths(1,2) [OF c]
      composed_diagnostics [OF c] composed_capacity(1) [OF c]
      compose_resources_refs [of config "gather config request l" buckets "sn_data s"]
    by (simp add: Let_def)
qed

theorem compose_wellformed_witness:
  "\<exists>s st. compose sample_ledger sample_config sample_request = Inr (s, st) \<and> sd_rack (sn_data s) = 1 \<and>
     strict_sorted (map rs_ref (sd_resources (sn_data s))) \<and> closes (sd_capacity (sn_data s)) \<and>
     rs_ref ` set (sd_resources (sn_data s)) = ref_of_rack sample_config (sn_data s)"
proof (rule sample_compose)
  fix s st
  assume c: "compose sample_ledger sample_config sample_request = Inr (s, st)"
  from compose_wellformed [OF c] c show ?thesis by (auto simp: Let_def sample_config_def)
qed

text \<open>
  (C14) Eligibility is sound. A device the snapshot calls eligible has a measured capacity, is usable, and
  the ledger holds no applicable drain or maintenance directive for it or for the rack; an eligible port is
  measured, usable, enabled and not drained, and sits on an eligible device of the rack; an eligible link is
  measured, usable and not drained, joins two eligible ports and offers no more capacity than either; an
  eligible attachment sits on an eligible port of its own eligible device. No eligible resource carries the
  composer's maintenance flag. A directive that names an attachment or a path has no effect on it.
\<close>
theorem compose_eligibility_sound:
  assumes "compose l config request = Inr (s, st)"
  shows "let d = sn_data s in
    (\<forall>x\<in>set (sd_devices d). d_eligibility x = Eligibility_kEligible \<longrightarrow>
       d_capacity_known x \<and> is_usable (d_availability x) \<and>
       \<not> drained request l (ResourceRef ResourceKind_kDevice (d_id x)) \<and>
       \<not> drained request l (ResourceRef ResourceKind_kRack 0)) \<and>
    (\<forall>x\<in>set (sd_ports d). p_eligibility x = Eligibility_kEligible \<longrightarrow>
       p_capacity_known x \<and> is_usable (p_availability x) \<and> p_admin x = AdminState_kEnabled \<and>
       \<not> drained request l (ResourceRef ResourceKind_kPort (p_id x)) \<and>
       (\<exists>y\<in>set (sd_devices d). d_id y = p_device x \<and> d_eligibility y = Eligibility_kEligible)) \<and>
    (\<forall>x\<in>set (sd_links d). l_eligibility x = Eligibility_kEligible \<longrightarrow>
       l_capacity_known x \<and> is_usable (l_availability x) \<and>
       \<not> drained request l (ResourceRef ResourceKind_kLink (l_id x)) \<and>
       (\<exists>a\<in>set (sd_ports d). \<exists>b\<in>set (sd_ports d). p_id a = l_port_a x \<and> p_id b = l_port_b x \<and>
          p_eligibility a = Eligibility_kEligible \<and> p_eligibility b = Eligibility_kEligible \<and>
          l_capacity x \<le> p_capacity a \<and> l_capacity x \<le> p_capacity b)) \<and>
    (\<forall>x\<in>set (sd_attachments d). a_eligibility x = Eligibility_kEligible \<longrightarrow>
       (\<exists>y\<in>set (sd_devices d). \<exists>p\<in>set (sd_ports d). d_id y = a_device x \<and> p_id p = a_port x \<and>
          p_device p = a_device x \<and> d_eligibility y = Eligibility_kEligible \<and>
          p_eligibility p = Eligibility_kEligible)) \<and>
    (\<forall>r\<in>set (sd_resources d). rs_eligibility r = Eligibility_kEligible \<longrightarrow> \<not> rs_maintenance r)"
proof (rule compose_composed [OF assms])
  fix buckets
  assume c: "composed config request l (sn_data s) buckets"
  show ?thesis unfolding Let_def
  proof (intro conjI ballI impI)
    fix x
    assume x: "x \<in> set (sd_links (sn_data s))" "l_eligibility x = Eligibility_kEligible"
    show "l_capacity_known x" "is_usable (l_availability x)"
      "\<exists>a\<in>set (sd_ports (sn_data s)). \<exists>b\<in>set (sd_ports (sn_data s)). p_id a = l_port_a x \<and> p_id b = l_port_b x \<and>
          p_eligibility a = Eligibility_kEligible \<and> p_eligibility b = Eligibility_kEligible \<and>
          l_capacity x \<le> p_capacity a \<and> l_capacity x \<le> p_capacity b"
      by (rule eligible_link [OF c x], assumption) (rule eligible_link [OF c x], assumption, rule eligible_link [OF c x], blast)
    show "\<not> drained request l (ResourceRef ResourceKind_kLink (l_id x))"
      by (rule eligible_link [OF c x]) (use not_excluded_not_drained in blast)
  next
    fix x
    assume x: "x \<in> set (sd_attachments (sn_data s))" "a_eligibility x = Eligibility_kEligible"
    show "\<exists>y\<in>set (sd_devices (sn_data s)). \<exists>p\<in>set (sd_ports (sn_data s)). d_id y = a_device x \<and> p_id p = a_port x \<and>
          p_device p = a_device x \<and> d_eligibility y = Eligibility_kEligible \<and> p_eligibility p = Eligibility_kEligible"
      by (rule eligible_attachment [OF c x]) blast
  next
    fix x
    assume x: "x \<in> set (sd_devices (sn_data s))" "d_eligibility x = Eligibility_kEligible"
    show "d_capacity_known x" "is_usable (d_availability x)" by (rule eligible_device [OF c x])+
    show "\<not> drained request l (ResourceRef ResourceKind_kDevice (d_id x))"
      "\<not> drained request l (ResourceRef ResourceKind_kRack 0)" by (rule eligible_device_not_drained [OF c x])+
  next
    fix x
    assume x: "x \<in> set (sd_ports (sn_data s))" "p_eligibility x = Eligibility_kEligible"
    show "p_capacity_known x" "is_usable (p_availability x)" "p_admin x = AdminState_kEnabled"
      "\<exists>y\<in>set (sd_devices (sn_data s)). d_id y = p_device x \<and> d_eligibility y = Eligibility_kEligible"
      by (rule eligible_port [OF c x])+
    show "\<not> drained request l (ResourceRef ResourceKind_kPort (p_id x))"
      using not_excluded_not_drained [OF eligible_port(6) [OF c x]] by blast
  next
    fix r
    assume "r \<in> set (sd_resources (sn_data s))" "rs_eligibility r = Eligibility_kEligible"
    then show "\<not> rs_maintenance r" by (rule eligible_resource [OF c])
  qed
qed

theorem compose_eligibility_sound_witness:
  "\<exists>s st. compose sample_ledger sample_config sample_request = Inr (s, st) \<and> sample_link \<in> set (sd_links (sn_data s)) \<and>
     (\<exists>a\<in>set (sd_ports (sn_data s)). \<exists>b\<in>set (sd_ports (sn_data s)). p_id a = 20 \<and> p_id b = 21 \<and>
        p_eligibility a = Eligibility_kEligible \<and> p_eligibility b = Eligibility_kEligible \<and>
        l_capacity sample_link \<le> p_capacity a \<and> l_capacity sample_link \<le> p_capacity b)"
proof (rule sample_compose)
  fix s st
  assume c: "compose sample_ledger sample_config sample_request = Inr (s, st)"
    and links: "sd_links (sn_data s) = [sample_link]"
  have "l_eligibility sample_link = Eligibility_kEligible" "l_port_a sample_link = 20" "l_port_b sample_link = 21"
    by (simp_all add: sample_link_def)
  with compose_eligibility_sound [OF c] links c show ?thesis by (auto simp: Let_def)
qed

text \<open>
  (C17) The capacity ledger is exact over the naturals: the total is the sum of all measured device
  capacities, the usable part that of the eligible devices, the unavailable part the rest, the obligated
  part the sum of the listed obligations, and what is uncommitted or missing is the difference to the
  obligations plus the configured headroom.
\<close>
theorem compose_capacity_exact:
  assumes "compose l config request = Inr (s, st)"
  shows "let d = sn_data s; c = sd_capacity d in
    unat (k_total c) = known_sum (\<lambda>_. True) (sd_devices d) \<and>
    unat (k_usable c) = known_sum (\<lambda>x. d_eligibility x = Eligibility_kEligible) (sd_devices d) \<and>
    unat (k_unavailable c) = known_sum (\<lambda>x. d_eligibility x \<noteq> Eligibility_kEligible) (sd_devices d) \<and>
    unat (k_obligated c) = (\<Sum>r\<leftarrow>sd_obligations d. unat (o_capacity r)) \<and>
    k_headroom_floor c = rc_headroom_floor config \<and>
    unat (k_uncommitted c) = unat (k_usable c) - (unat (k_obligated c) + unat (k_headroom_floor c)) \<and>
    unat (k_deficit c) = (unat (k_obligated c) + unat (k_headroom_floor c)) - unat (k_usable c)"
  by (rule compose_composed [OF assms]) (simp only: Let_def composed_capacity simp_thms)

theorem compose_capacity_exact_witness:
  "\<exists>s st. compose sample_ledger sample_config sample_request = Inr (s, st) \<and>
     unat (k_total (sd_capacity (sn_data s))) = 100 \<and> unat (k_usable (sd_capacity (sn_data s))) = 100"
proof (rule sample_compose)
  fix s st
  assume c: "compose sample_ledger sample_config sample_request = Inr (s, st)"
    and devices: "sd_devices (sn_data s) = [sample_device]"
  from compose_capacity_exact [OF c] c show ?thesis
    by (auto simp: Let_def devices sample_device_def)
qed

text \<open>
  (C15) Every path is real. It is a simple walk over eligible links of the snapshot, from a port that an
  eligible attachment uses to an exit port, meeting no other exit on the way and within the configured
  number of hops; its identity is the hash of its links, and its bottleneck is always known and is the
  smallest capacity among its links.
\<close>
theorem compose_paths_sound:
  assumes "compose l config request = Inr (s, st)" "p \<in> set (sd_paths (sn_data s))"
  shows "\<exists>hops. pa_links p = map fst hops \<and> pa_end_port p = snd (last hops) \<and>
    route (sd_links (sn_data s)) (exit_ports (sd_ports (sn_data s))) (pa_start_port p) hops \<and>
    length hops \<le> rc_max_path_hops config \<and>
    pa_start_port p \<in> set (access_ports (sd_attachments (sn_data s))) \<and>
    pa_id p = path_identity (pa_links p) \<and> pa_bottleneck_known p \<and> pa_eligibility p = Eligibility_kEligible \<and>
    pa_bottleneck p = Min (capacity_over (sd_links (sn_data s)) (pa_links p))"
  by (rule compose_composed [OF assms(1)]) (rule composed_paths(3) [OF _ assms(2)])

theorem compose_paths_sound_witness:
  "\<exists>s st. compose sample_ledger sample_config sample_request = Inr (s, st) \<and>
     (\<exists>hops. [30] = map fst hops \<and> route [sample_link] (exit_ports (sd_ports (sn_data s))) 20 hops)"
proof (rule sample_compose)
  fix s st
  assume c: "compose sample_ledger sample_config sample_request = Inr (s, st)"
    and facts: "sd_paths (sn_data s) = [sample_path]" "sd_links (sn_data s) = [sample_link]"
  have "sample_path \<in> set (sd_paths (sn_data s))" by (simp add: facts)
  from compose_paths_sound [OF c this] obtain hops where
    "pa_links sample_path = map fst hops" "route (sd_links (sn_data s)) (exit_ports (sd_ports (sn_data s))) (pa_start_port sample_path) hops"
    by blast
  with c show ?thesis
    by (intro exI [of _ s] exI [of _ st] exI [of _ hops] conjI) (simp_all add: facts sample_path_def)
qed



text \<open>
  (C19) Composition fails only for a reason the caller can act on: the configuration has no rack
  identity, a configured bound is exceeded, or a capacity sum does not fit 64 bits. The two internal
  integrity checks on the capacity ledger are never the outcome, whatever the evidence.
\<close>
theorem compose_errors:
  assumes "compose l config request = Inl e"
  shows "if rc_rack config = 0 then st_code e = kInvalidIdentity
    else st_code e = kResourceExhausted \<or> st_code e = kOutOfRange"
proof (cases "rc_rack config = 0")
  case True
  with assms show ?thesis by (auto simp: compose_def)
next
  case False
  with assms show ?thesis
    by (auto simp: compose_def Let_def split: prod.splits
        dest!: bound_check_Inl rnf_try_Inl obligation_loop_Inl compose_capacity_Inl compose_candidates_Inl)
qed

theorem compose_errors_witness:
  "\<exists>e. compose sample_ledger sample_config (sample_request\<lparr>ci_limits := default_compose_limits\<lparr>cl_max_devices := 0\<rparr>\<rparr>) =
     Inl e \<and> (st_code e = kResourceExhausted \<or> st_code e = kOutOfRange)"
proof -
  let ?r = "sample_request\<lparr>ci_limits := default_compose_limits\<lparr>cl_max_devices := 0\<rparr>\<rparr>"
  have "gather sample_config ?r sample_ledger = gather sample_config sample_request sample_ledger"
    by (simp add: gather_def gather_record_def [abs_def] sample_request_def default_compose_limits_def)
  then have "ct_members (gather sample_config ?r sample_ledger) \<noteq> []"
    using sample_gather by (auto simp: sample_tables_def)
  moreover have "rc_rack sample_config \<noteq> 0" by (simp add: sample_config_def)
  ultimately have "compose sample_ledger sample_config ?r = fail kResourceExhausted ''member count exceeds the compose bound''"
    by (simp add: compose_def bound_check_def Let_def)
  with compose_errors [of sample_ledger sample_config ?r] show ?thesis by (auto simp: sample_config_def)
qed

text \<open>
  (C20) The path search stops. From any start of a search the loop over the frames ends, either with no
  frame left or with the truncation flag raised, after at most the fixed budget of expansions plus the
  one that notices the budget is spent; a search that ends without the flag has found every route.
\<close>
theorem dfs_loop_terminates:
  assumes "dfs_loop env start \<lparr>df_stack = [], df_visited = [start], df_found = [], df_frames = [(start, 0)],
      df_candidates = found, df_expansions = n, df_truncated = False\<rparr> = Inr s"
    and "n \<le> max_expansions" "de_adjacency env = adjacency_of links"
  shows "(df_frames s = [] \<or> df_truncated s) \<and> df_expansions s \<le> max_expansions + 1 \<and>
    (\<not> df_truncated s \<longrightarrow>
       set (df_candidates s) = set found \<union> routes links (de_exits env) (de_max_path_hops env) {start})"
proof -
  let ?s = "\<lparr>df_stack = [], df_visited = [start], df_found = [], df_frames = [(start, 0)],
      df_candidates = found, df_expansions = n, df_truncated = False\<rparr>"
  have "frames_ok ?s" by (simp add: frames_ok_def)
  from dfs_loop_keeps [OF assms(1) this] routes_start [OF assms(3), of start] assms(2) show ?thesis
    by (auto simp: search_keeps_def)
qed

theorem dfs_loop_terminates_witness:
  "\<exists>s. dfs_loop \<lparr>de_adjacency = adjacency_of [sample_link], de_exits = [21], de_max_path_hops = 4,
        de_max_paths_per_pair = 8, de_max_paths = 10\<rparr> 20
      \<lparr>df_stack = [], df_visited = [20], df_found = [], df_frames = [(20, 0)], df_candidates = [],
       df_expansions = 0, df_truncated = False\<rparr> = Inr s \<and>
     (df_frames s = [] \<or> df_truncated s) \<and> df_expansions s \<le> max_expansions + 1"
proof -
  let ?env = "\<lparr>de_adjacency = adjacency_of [sample_link], de_exits = [21], de_max_path_hops = 4,
        de_max_paths_per_pair = 8, de_max_paths = 10\<rparr>"
  obtain s where s: "dfs_loop ?env 20 \<lparr>df_stack = [], df_visited = [20], df_found = [], df_frames = [(20, 0)],
      df_candidates = [], df_expansions = 0, df_truncated = False\<rparr> = Inr s"
    by (simp add: sample_adjacency dfs_loop.simps dfs_step_def dfs_visit_def neighbours_of_def oset_erase_def max_expansions_def)
  from dfs_loop_terminates [OF s, of "[sample_link]"] s show ?thesis by simp
qed

text \<open>
  The newest evidence wins. For every device, port, link and attachment, what the composer works
  with is the claim of an applicable record about it that no other applicable record supersedes: none has
  a later generation, or the same generation and a later sequence number, or the same of both and a
  smaller digest; and an identity is absent exactly when no applicable record claims it.
\<close>
theorem gather_selects_newest:
  "let t = gather config request l; R = set (ledger_records l) in
   selects device_payload request R device (omap_get (ct_devices t) device) \<and>
   selects port_payload request R port (omap_get (ct_ports t) port) \<and>
   selects link_payload request R link (omap_get (ct_links t) link) \<and>
   selects attachment_payload request R attachment (omap_get (ct_attachments t) attachment)"
  unfolding Let_def
  using device_table.selects_gather port_table.selects_gather link_table.selects_gather attachment_table.selects_gather
  by blast

text \<open>
  (C18) Composition does not depend on arrival order. Offer the same set of records to two empty ledgers
  in any order and with any repetitions, where the slots and the sources the records name are no more than
  \<open>max_slots\<close> and \<open>max_sources\<close>: composing either gives the same result, snapshot, digest and error alike,
  unless BLAKE2s collides on two of the records. Beyond the bounds the ledger refuses what arrives last.
\<close>
theorem compose_order_independent:
  assumes "set rs = set rs'"
    and "card (slot_of ` set rs) \<le> max_slots limits"
    and "card ((\<lambda>r. pv_source (er_provenance r)) ` set rs) \<le> max_sources limits"
  shows "compose (insert_all rs (ledger_new limits)) config request =
       compose (insert_all rs' (ledger_new limits)) config request \<or>
     (\<exists>r\<in>set rs. \<exists>s\<in>set rs. evidence_valid r \<and> evidence_valid s \<and> evidence_bytes r \<noteq> evidence_bytes s \<and>
        blake2s_hash (evidence_bytes r) = blake2s_hash (evidence_bytes s))"
proof (cases "inj_on evidence_digest {r \<in> set rs. evidence_valid r}")
  case True
  have compose_cong: "compose l config request = compose m config request" if "el_slots l = el_slots m" for l m
    using that ledger_digest_slots [OF that] by (simp add: compose_def gather_def compose_finish_def)
  show ?thesis using insert_all_order [OF assms True] by (blast intro: compose_cong)
next
  case False
  then obtain r s where "r \<in> set rs" "s \<in> set rs" "evidence_valid r" "evidence_valid s" "r \<noteq> s"
      "evidence_digest r = evidence_digest s"
    by (auto simp: inj_on_def)
  then show ?thesis using evidence_digest_inj [of r s] by blast
qed

theorem compose_order_independent_witness:
  "let rs = [sample_member 1 7, sample_member 2 8]; rs' = [sample_member 2 8, sample_member 1 7, sample_member 1 7];
       limits = default_evidence_limits in
   compose (insert_all rs (ledger_new limits)) sample_config sample_request =
     compose (insert_all rs' (ledger_new limits)) sample_config sample_request \<or>
   (\<exists>r\<in>set rs. \<exists>s\<in>set rs. evidence_valid r \<and> evidence_valid s \<and> evidence_bytes r \<noteq> evidence_bytes s \<and>
      blake2s_hash (evidence_bytes r) = blake2s_hash (evidence_bytes s))"
  unfolding Let_def
  by (rule compose_order_independent) (auto simp: sample_member_facts default_evidence_limits_def)

end
