(* ===== verification/Rnf_Frame.thy ===== *)
theory Rnf_Frame
  imports Rnf_Snapshot_Codec
begin

text \<open>
  \<^verbatim>\<open>net/frame\<close>: the length prefixed frame of the daemon protocol, its header checks, and the way the
  server takes frames off a byte stream: header, payload, checksum. The property is that a stream of
  encoded frames is read back as exactly those frames, and that nothing but an encoded frame is accepted.
\<close>

section \<open>Message types\<close>

datatype message_type = MessageType (mt_value: u16)

abbreviation MessageType_kHello :: message_type where "MessageType_kHello \<equiv> MessageType 1"
abbreviation MessageType_kHelloAck :: message_type where "MessageType_kHelloAck \<equiv> MessageType 2"
abbreviation MessageType_kSubmitEvidence :: message_type where "MessageType_kSubmitEvidence \<equiv> MessageType 16"
abbreviation MessageType_kEvidenceAck :: message_type where "MessageType_kEvidenceAck \<equiv> MessageType 17"
abbreviation MessageType_kCompose :: message_type where "MessageType_kCompose \<equiv> MessageType 32"
abbreviation MessageType_kComposeAck :: message_type where "MessageType_kComposeAck \<equiv> MessageType 33"
abbreviation MessageType_kAcquire :: message_type where "MessageType_kAcquire \<equiv> MessageType 48"
abbreviation MessageType_kAcquireAck :: message_type where "MessageType_kAcquireAck \<equiv> MessageType 49"
abbreviation MessageType_kRenew :: message_type where "MessageType_kRenew \<equiv> MessageType 50"
abbreviation MessageType_kRenewAck :: message_type where "MessageType_kRenewAck \<equiv> MessageType 51"
abbreviation MessageType_kRelease :: message_type where "MessageType_kRelease \<equiv> MessageType 52"
abbreviation MessageType_kReleaseAck :: message_type where "MessageType_kReleaseAck \<equiv> MessageType 53"
abbreviation MessageType_kValidate :: message_type where "MessageType_kValidate \<equiv> MessageType 54"
abbreviation MessageType_kValidateAck :: message_type where "MessageType_kValidateAck \<equiv> MessageType 55"
abbreviation MessageType_kLookup :: message_type where "MessageType_kLookup \<equiv> MessageType 56"
abbreviation MessageType_kLookupAck :: message_type where "MessageType_kLookupAck \<equiv> MessageType 57"
abbreviation MessageType_kQueryState :: message_type where "MessageType_kQueryState \<equiv> MessageType 64"
abbreviation MessageType_kStateAck :: message_type where "MessageType_kStateAck \<equiv> MessageType 65"
abbreviation MessageType_kQueryResources :: message_type where "MessageType_kQueryResources \<equiv> MessageType 66"
abbreviation MessageType_kResourcesAck :: message_type where "MessageType_kResourcesAck \<equiv> MessageType 67"
abbreviation MessageType_kQueryPaths :: message_type where "MessageType_kQueryPaths \<equiv> MessageType 68"
abbreviation MessageType_kPathsAck :: message_type where "MessageType_kPathsAck \<equiv> MessageType 69"
abbreviation MessageType_kQueryGrants :: message_type where "MessageType_kQueryGrants \<equiv> MessageType 70"
abbreviation MessageType_kGrantsAck :: message_type where "MessageType_kGrantsAck \<equiv> MessageType 71"
abbreviation MessageType_kLifecycle :: message_type where "MessageType_kLifecycle \<equiv> MessageType 80"
abbreviation MessageType_kLifecycleAck :: message_type where "MessageType_kLifecycleAck \<equiv> MessageType 81"
abbreviation MessageType_kCheckpoint :: message_type where "MessageType_kCheckpoint \<equiv> MessageType 82"
abbreviation MessageType_kCheckpointAck :: message_type where "MessageType_kCheckpointAck \<equiv> MessageType 83"
abbreviation MessageType_kStats :: message_type where "MessageType_kStats \<equiv> MessageType 84"
abbreviation MessageType_kStatsAck :: message_type where "MessageType_kStatsAck \<equiv> MessageType 85"
abbreviation MessageType_kShutdown :: message_type where "MessageType_kShutdown \<equiv> MessageType 86"
abbreviation MessageType_kShutdownAck :: message_type where "MessageType_kShutdownAck \<equiv> MessageType 87"
abbreviation MessageType_kError :: message_type where "MessageType_kError \<equiv> MessageType 32512"

definition message_type_names :: "(message_type \<times> string) list" where
  "message_type_names =
     [(MessageType_kHello, ''hello''), (MessageType_kHelloAck, ''hello_ack''),
      (MessageType_kSubmitEvidence, ''submit_evidence''), (MessageType_kEvidenceAck, ''evidence_ack''),
      (MessageType_kCompose, ''compose''), (MessageType_kComposeAck, ''compose_ack''),
      (MessageType_kAcquire, ''acquire''), (MessageType_kAcquireAck, ''acquire_ack''),
      (MessageType_kRenew, ''renew''), (MessageType_kRenewAck, ''renew_ack''),
      (MessageType_kRelease, ''release''), (MessageType_kReleaseAck, ''release_ack''),
      (MessageType_kValidate, ''validate''), (MessageType_kValidateAck, ''validate_ack''),
      (MessageType_kLookup, ''lookup''), (MessageType_kLookupAck, ''lookup_ack''),
      (MessageType_kQueryState, ''query_state''), (MessageType_kStateAck, ''state_ack''),
      (MessageType_kQueryResources, ''query_resources''), (MessageType_kResourcesAck, ''resources_ack''),
      (MessageType_kQueryPaths, ''query_paths''), (MessageType_kPathsAck, ''paths_ack''),
      (MessageType_kQueryGrants, ''query_grants''), (MessageType_kGrantsAck, ''grants_ack''),
      (MessageType_kLifecycle, ''lifecycle''), (MessageType_kLifecycleAck, ''lifecycle_ack''),
      (MessageType_kCheckpoint, ''checkpoint''), (MessageType_kCheckpointAck, ''checkpoint_ack''),
      (MessageType_kStats, ''stats''), (MessageType_kStatsAck, ''stats_ack''),
      (MessageType_kShutdown, ''shutdown''), (MessageType_kShutdownAck, ''shutdown_ack''),
      (MessageType_kError, ''error'')]"

definition message_type_to_string :: "message_type \<Rightarrow> string" where
  "message_type_to_string t = (case map_of message_type_names t of Some s \<Rightarrow> s | None \<Rightarrow> ''unknown'')"

definition is_known_message_type :: "u16 \<Rightarrow> bool" where
  "is_known_message_type t \<longleftrightarrow> MessageType t \<in> set (map fst message_type_names)"

section \<open>Frames\<close>

definition kFrameMagic :: u32 where "kFrameMagic = 0x31464E52"
definition kFrameHeaderSize :: nat where "kFrameHeaderSize = 24"
definition kHardMaxFramePayload :: u32 where "kHardMaxFramePayload = push_bit 20 8"
definition kDefaultMaxFramePayload :: u32 where "kDefaultMaxFramePayload = push_bit 20 1"
definition kProtocolVersion :: u16 where "kProtocolVersion = 1"

record frame_header =
  fh_magic :: u32
  fh_version :: u16
  fh_type :: u16
  fh_length :: u32
  fh_crc :: u32
  fh_correlation :: u64

text \<open>
  The six stores fill the first 24 bytes of the output, so they are their concatenation. The length and
  checksum fields of the header argument are not read.
\<close>

definition encode_frame :: "frame_header \<Rightarrow> u8 list \<Rightarrow> u32 \<Rightarrow> u8 list result" where
  "encode_frame h payload max_payload =
     (if length payload > unat max_payload
      then fail kOversizeField ''frame payload exceeds the negotiated bound''
      else if length payload > unat kHardMaxFramePayload
      then fail kOversizeField ''frame payload exceeds the hard bound''
      else Inr (store_le 4 (fh_magic h) @ store_le 2 (fh_version h) @ store_le 2 (fh_type h) @
                store_le 4 (of_nat (length payload) :: u32) @ store_le 4 (crc32c payload) @
                store_le 8 (fh_correlation h) @ payload))"

definition load_frame_header :: "u8 list \<Rightarrow> frame_header" where
  "load_frame_header bs =
     \<lparr>fh_magic = load_le 4 (take 4 bs), fh_version = load_le 2 (take 2 (drop 4 bs)),
      fh_type = load_le 2 (take 2 (drop 6 bs)), fh_length = load_le 4 (take 4 (drop 8 bs)),
      fh_crc = load_le 4 (take 4 (drop 12 bs)), fh_correlation = load_le 8 (take 8 (drop 16 bs))\<rparr>"

text \<open>
  The out parameter: a default header when the input is too short, else the fields as they stand in the
  bytes, whatever the verdict on them.
\<close>

definition default_frame_header :: frame_header where
  "default_frame_header =
     \<lparr>fh_magic = kFrameMagic, fh_version = 0, fh_type = 0, fh_length = 0, fh_crc = 0, fh_correlation = 0\<rparr>"

definition decode_frame_header :: "u8 list \<Rightarrow> u32 \<Rightarrow> u16 \<Rightarrow> status \<times> frame_header" where
  "decode_frame_header bs max_payload expected_version =
     (if length bs < kFrameHeaderSize
      then (Status kTruncated ''frame header is incomplete'', default_frame_header)
      else
        (let h = load_frame_header bs in
         (if fh_magic h \<noteq> kFrameMagic then Status kMalformedEncoding ''frame magic does not match''
          else if fh_version h \<noteq> expected_version
          then Status kIncompatibleVersion
                 (''frame declares protocol version '' @ to_string_u64 (ucast (fh_version h)))
          else if fh_length h > max_payload \<or> fh_length h > kHardMaxFramePayload
          then Status kOversizeField
                 (''frame declares '' @ to_string_u64 (ucast (fh_length h)) @
                  '' payload bytes, above the negotiated bound'')
          else if \<not> is_known_message_type (fh_type h)
          then Status kUnsupported
                 (''frame declares unknown message type '' @ to_string_u64 (ucast (fh_type h)))
          else ok_status, h)))"

section \<open>Reading a stream\<close>

text \<open>
  One turn of the connection loop of \<^verbatim>\<open>DaemonServer::handle_connection\<close> up to the dispatch, on the bytes
  the peer has sent: the stream ends, a frame is refused with the error that is sent back, if any, or a
  frame is delivered with the bytes that follow it. An exact receive fails when the peer has closed
  before enough bytes came.
\<close>

datatype frame_event =
    Frame_closed
  | Frame_rejected "(u64 \<times> status) option"
  | Frame_delivered frame_header "u8 list" "u8 list"

definition receive_frame :: "u32 \<Rightarrow> u8 list \<Rightarrow> frame_event" where
  "receive_frame max_payload stream =
     (if length stream < kFrameHeaderSize then Frame_closed
      else
        (case decode_frame_header (take kFrameHeaderSize stream) max_payload kProtocolVersion of (st, h) \<Rightarrow>
         if \<not> status_ok st then Frame_rejected (Some (fh_correlation h, st))
         else
           (let rest = drop kFrameHeaderSize stream; n = unat (fh_length h) in
            if length rest < n then Frame_rejected None
            else if crc32c (take n rest) \<noteq> fh_crc h
            then Frame_rejected (Some (fh_correlation h, Status kIntegrityFailure ''frame payload failed its checksum''))
            else Frame_delivered h (take n rest) (drop n rest))))"

lemma load_frame_header_append:
  "load_frame_header (store_le 4 a @ store_le 2 b @ store_le 2 c @ store_le 4 d @ store_le 4 e @ store_le 8 f @ t) =
     \<lparr>fh_magic = a, fh_version = b, fh_type = c, fh_length = d, fh_crc = e, fh_correlation = f\<rparr>"
  by (simp add: load_frame_header_def load_store_le)

lemma hard_max: "unat kHardMaxFramePayload = 8388608"
  by (simp add: kHardMaxFramePayload_def)

section \<open>What is delivered\<close>

definition frame_bytes :: "frame_header \<Rightarrow> u8 list" where
  "frame_bytes h = store_le 4 (fh_magic h) @ store_le 2 (fh_version h) @ store_le 2 (fh_type h) @
     store_le 4 (fh_length h) @ store_le 4 (fh_crc h) @ store_le 8 (fh_correlation h)"

lemma length_frame_bytes [simp]: "length (frame_bytes h) = kFrameHeaderSize"
  by (simp add: frame_bytes_def kFrameHeaderSize_def)

lemma load_frame_bytes [simp]: "load_frame_header (frame_bytes h) = h"
  using load_frame_header_append [where t = "[]"] by (simp add: frame_bytes_def)

lemma frame_bytes_load:
  assumes "length bs = kFrameHeaderSize"
  shows "frame_bytes (load_frame_header bs) = bs"
proof -
  have "bs = take 4 bs @ take 2 (drop 4 bs) @ take 2 (drop 6 bs) @ take 4 (drop 8 bs) @ take 4 (drop 12 bs) @ drop 16 bs"
    using append_take_drop_id [of 2 "drop 4 bs"] append_take_drop_id [of 2 "drop 6 bs"]
      append_take_drop_id [of 4 "drop 8 bs"] append_take_drop_id [of 4 "drop 12 bs"] append_take_drop_id [of 4 bs]
    by (simp only: drop_drop) simp
  moreover have "drop 16 bs = take 8 (drop 16 bs)" using assms by (simp add: kFrameHeaderSize_def)
  ultimately show ?thesis
    using assms by (simp add: frame_bytes_def load_frame_header_def store_load_le kFrameHeaderSize_def)
qed

lemma receive_frame_delivered:
  "receive_frame max_payload stream = Frame_delivered h payload rest \<longleftrightarrow>
     stream = frame_bytes h @ payload @ rest \<and> fh_magic h = kFrameMagic \<and> fh_version h = kProtocolVersion \<and>
     is_known_message_type (fh_type h) \<and> fh_length h \<le> max_payload \<and> fh_length h \<le> kHardMaxFramePayload \<and>
     unat (fh_length h) = length payload \<and> fh_crc h = crc32c payload"
  (is "?lhs \<longleftrightarrow> ?rhs")
proof
  assume ?lhs
  then have len: "kFrameHeaderSize \<le> length stream"
    and h: "h = load_frame_header (take kFrameHeaderSize stream)"
    and facts: "fh_magic h = kFrameMagic" "fh_version h = kProtocolVersion" "is_known_message_type (fh_type h)"
      "fh_length h \<le> max_payload" "fh_length h \<le> kHardMaxFramePayload" "fh_crc h = crc32c payload"
      "payload = take (unat (fh_length h)) (drop kFrameHeaderSize stream)"
      "rest = drop (unat (fh_length h)) (drop kFrameHeaderSize stream)"
      "unat (fh_length h) \<le> length (drop kFrameHeaderSize stream)"
    by (auto simp: receive_frame_def decode_frame_header_def Let_def not_less split: if_splits)
  have "frame_bytes h = take kFrameHeaderSize stream"
    unfolding h by (rule frame_bytes_load) (use len in simp)
  moreover have "payload @ rest = drop kFrameHeaderSize stream"
    using append_take_drop_id [of "unat (fh_length h)" "drop kFrameHeaderSize stream"] facts(7,8) by metis
  ultimately have "stream = frame_bytes h @ payload @ rest" by (metis append_take_drop_id)
  moreover have "length payload = unat (fh_length h)" using facts(9) by (subst facts(7)) simp
  ultimately show ?rhs using facts(1-6) by simp
next
  assume ?rhs
  then show ?lhs
    by (auto simp: receive_frame_def decode_frame_header_def Let_def)
qed

lemma encode_frame_Inr:
  "encode_frame h payload max_payload = Inr f \<longleftrightarrow>
     length payload \<le> unat max_payload \<and> length payload \<le> unat kHardMaxFramePayload \<and>
     f = frame_bytes (h\<lparr>fh_length := of_nat (length payload), fh_crc := crc32c payload\<rparr>) @ payload"
  by (auto simp: encode_frame_def frame_bytes_def)

text \<open>
  (C39) Frames are exact. What the server takes off the stream is a frame with given header, payload and
  following bytes exactly when the stream starts with what \<^verbatim>\<open>encode_frame\<close> writes for them under the
  server's bound, the header names the protocol version and a known message type, and its length and
  checksum fields are those of the payload; anything else is refused or waits for more bytes.
\<close>
theorem frame_exact:
  "receive_frame max_payload stream = Frame_delivered h payload rest \<longleftrightarrow>
     (\<exists>f. encode_frame h payload max_payload = Inr f \<and> stream = f @ rest) \<and>
     fh_magic h = kFrameMagic \<and> fh_version h = kProtocolVersion \<and> is_known_message_type (fh_type h) \<and>
     fh_length h = of_nat (length payload) \<and> fh_crc h = crc32c payload"
proof -
  have upd: "h\<lparr>fh_length := of_nat (length payload), fh_crc := crc32c payload\<rparr> = h"
    if "fh_length h = of_nat (length payload)" "fh_crc h = crc32c payload" using that by simp
  have len: "unat (fh_length h) = length payload \<longleftrightarrow> fh_length h = of_nat (length payload)"
    if "length payload \<le> unat kHardMaxFramePayload"
    using that by (auto simp: hard_max unat_of_nat word_unat_eq_iff)
  have le: "(of_nat (length payload) :: u32) \<le> m \<longleftrightarrow> length payload \<le> unat m"
    if "length payload \<le> unat kHardMaxFramePayload" for m
    using that by (simp add: hard_max word_le_nat_alt unat_of_nat)
  show ?thesis
  proof
    assume "receive_frame max_payload stream = Frame_delivered h payload rest"
    note facts = this [unfolded receive_frame_delivered]
    then have hard: "length payload \<le> unat kHardMaxFramePayload" by (simp add: word_le_nat_alt)
    with facts have "frame_bytes (h\<lparr>fh_length := of_nat (length payload), fh_crc := crc32c payload\<rparr>) = frame_bytes h"
      using len [OF hard] upd by metis
    with hard facts len show "(\<exists>f. encode_frame h payload max_payload = Inr f \<and> stream = f @ rest) \<and>
     fh_magic h = kFrameMagic \<and> fh_version h = kProtocolVersion \<and> is_known_message_type (fh_type h) \<and>
     fh_length h = of_nat (length payload) \<and> fh_crc h = crc32c payload"
      by (auto simp: encode_frame_Inr word_le_nat_alt)
  next
    assume *: "(\<exists>f. encode_frame h payload max_payload = Inr f \<and> stream = f @ rest) \<and>
     fh_magic h = kFrameMagic \<and> fh_version h = kProtocolVersion \<and> is_known_message_type (fh_type h) \<and>
     fh_length h = of_nat (length payload) \<and> fh_crc h = crc32c payload"
    then have hard: "length payload \<le> unat kHardMaxFramePayload" by (auto simp: encode_frame_Inr)
    from * have "frame_bytes (h\<lparr>fh_length := of_nat (length payload), fh_crc := crc32c payload\<rparr>) = frame_bytes h"
      using upd by metis
    with * show "receive_frame max_payload stream = Frame_delivered h payload rest"
      unfolding receive_frame_delivered using len [OF hard] le [OF hard]
      by (auto simp: encode_frame_Inr)
  qed
qed

end
