(* ===== verification/Rnf_Protocol.thy ===== *)
theory Rnf_Protocol
  imports Rnf_Frame Rnf_Grant
begin

text \<open>
  \<^verbatim>\<open>net/protocol\<close>: the bodies of the daemon's messages, their encoders and decoders. An encoder is the
  sequence of writer calls it makes, with a check wherever the source propagates the status of a nested
  encoder. A decoder reads the fields in order, refuses the values the source refuses and, for a whole
  body, requires the reader to be at its end. Enumerations are read with an unchecked cast, so their
  values are bytes here as they are there.
\<close>

section \<open>Limits and helpers\<close>

record protocol_limits =
  pl_max_evidence_records :: nat
  pl_max_resources :: nat
  pl_max_paths :: nat
  pl_max_grants :: nat
  pl_max_diagnostics :: nat
  pl_max_detail_text :: nat

definition kLimits :: protocol_limits where
  "kLimits = \<lparr>pl_max_evidence_records = 4096, pl_max_resources = 65536, pl_max_paths = 8192,
     pl_max_grants = 8192, pl_max_diagnostics = 512, pl_max_detail_text = 512\<rparr>"

abbreviation max_detail :: nat where "max_detail \<equiv> pl_max_detail_text kLimits"

definition finish :: "byte_writer \<Rightarrow> status \<times> byte_writer" where
  "finish w = (if \<not> bw_ok w then Status kOversizeField ''message exceeds its encoding bound'' else ok_status, w)"

definition trailing :: "'a \<Rightarrow> u8 list \<Rightarrow> 'a result" where
  "trailing message bs =
     (if bs \<noteq> [] then fail kMalformedEncoding ''message has trailing bytes'' else Inr message)"

definition read_fields :: "string \<Rightarrow> 'a option \<Rightarrow> ('a \<Rightarrow> 'b result) \<Rightarrow> 'b result" where
  "read_fields what parsed k = or_fail parsed kTruncated (what @ '' is truncated'') k"

definition decode_counted ::
  "nat \<Rightarrow> string \<Rightarrow> (u8 list \<Rightarrow> ('a \<times> u8 list) result) \<Rightarrow> u8 list \<Rightarrow> ('a list \<times> u8 list) result" where
  "decode_counted max_count detail d bs =
     or_fail (r_count max_count bs) kOversizeField detail (\<lambda>(n, bs). decode_many d n bs)"

text \<open>\<^verbatim>\<open>RNF_TRYV\<close> on a nested encoder, and a loop of such calls.\<close>

definition encode_then ::
  "status \<times> byte_writer \<Rightarrow> (byte_writer \<Rightarrow> status \<times> byte_writer) \<Rightarrow> status \<times> byte_writer" where
  "encode_then r k = (case r of (st, w) \<Rightarrow> if status_ok st then k w else (st, w))"

fun encode_each ::
  "('a \<Rightarrow> byte_writer \<Rightarrow> status \<times> byte_writer) \<Rightarrow> 'a list \<Rightarrow> (byte_writer \<Rightarrow> status \<times> byte_writer) \<Rightarrow>
   byte_writer \<Rightarrow> status \<times> byte_writer" where
  "encode_each e [] k w = k w"
| "encode_each e (x # xs) k w = encode_then (e x w) (encode_each e xs k)"

definition put_ref :: "resource_ref \<Rightarrow> writer_call list" where
  "put_ref r = [W_u8 (rk_byte (ref_kind r)), W_u64 (ref_id r)]"

definition get_ref :: "u8 list \<Rightarrow> (resource_ref \<times> u8 list) option" where
  "get_ref bs = do {
     (kind, bs) \<leftarrow> r_u8 bs; (i, bs) \<leftarrow> r_u64 bs;
     if 1 \<le> kind \<and> kind \<le> 6 then Some (ResourceRef (ResourceKind kind) i, bs) else None }"

section \<open>Hello\<close>

record hello_request =
  hq_protocol_version :: u16
  hq_client_id :: u32

definition hello_request_calls :: "hello_request \<Rightarrow> writer_call list" where
  "hello_request_calls m = [W_u16 (hq_protocol_version m), W_u32 (hq_client_id m)]"

definition encode_hello_request :: "hello_request \<Rightarrow> byte_writer \<Rightarrow> status \<times> byte_writer" where
  "encode_hello_request m w = finish (write_all (hello_request_calls m) w)"

definition fields_hello_request :: "u8 list \<Rightarrow> (hello_request \<times> u8 list) option" where
  "fields_hello_request bs = do {
     (version, bs) \<leftarrow> r_u16 bs; (client, bs) \<leftarrow> r_u32 bs;
     Some (\<lparr>hq_protocol_version = version, hq_client_id = client\<rparr>, bs) }"

definition decode_hello_request :: "u8 list \<Rightarrow> hello_request result" where
  "decode_hello_request bs = read_fields ''hello request'' (fields_hello_request bs) (\<lambda>(m, bs). trailing m bs)"

record hello_response =
  hr_protocol_version :: u16
  hr_accepted :: bool
  hr_rack :: rack_id
  hr_epoch :: rack_epoch
  hr_generation :: topology_generation
  hr_incarnation :: controller_incarnation
  hr_lifecycle :: lifecycle_state
  hr_snapshot_digest :: digest
  hr_detail :: string

definition hello_response_calls :: "hello_response \<Rightarrow> writer_call list" where
  "hello_response_calls m =
     [W_u16 (hr_protocol_version m), W_boolean (hr_accepted m), W_u64 (hr_rack m), W_u64 (hr_epoch m),
      W_u64 (hr_generation m), W_u64 (hr_incarnation m), W_u8 (ls_byte (hr_lifecycle m)),
      W_digest (hr_snapshot_digest m), W_text (hr_detail m) max_detail]"

definition encode_hello_response :: "hello_response \<Rightarrow> byte_writer \<Rightarrow> status \<times> byte_writer" where
  "encode_hello_response m w = finish (write_all (hello_response_calls m) w)"

definition fields_hello_response :: "u8 list \<Rightarrow> (hello_response \<times> u8 list) option" where
  "fields_hello_response bs = do {
     (version, bs) \<leftarrow> r_u16 bs; (accepted, bs) \<leftarrow> r_boolean bs; (rack, bs) \<leftarrow> r_u64 bs; (epoch, bs) \<leftarrow> r_u64 bs;
     (generation, bs) \<leftarrow> r_u64 bs; (incarnation, bs) \<leftarrow> r_u64 bs; (lifecycle, bs) \<leftarrow> r_u8 bs;
     (d, bs) \<leftarrow> r_digest bs; (detail, bs) \<leftarrow> r_text max_detail bs;
     Some (\<lparr>hr_protocol_version = version, hr_accepted = accepted, hr_rack = rack, hr_epoch = epoch,
            hr_generation = generation, hr_incarnation = incarnation, hr_lifecycle = LifecycleState lifecycle,
            hr_snapshot_digest = d, hr_detail = detail\<rparr>, bs) }"

definition decode_hello_response :: "u8 list \<Rightarrow> hello_response result" where
  "decode_hello_response bs = read_fields ''hello response'' (fields_hello_response bs) (\<lambda>(m, bs). trailing m bs)"

section \<open>Evidence\<close>

record submit_evidence_request =
  sv_records :: "evidence_record list"

definition encode_submit_evidence :: "submit_evidence_request \<Rightarrow> byte_writer \<Rightarrow> status \<times> byte_writer" where
  "encode_submit_evidence m w =
     encode_each encode_evidence (sv_records m) finish
       (write_all [W_u32 (of_nat (length (sv_records m)))] w)"

definition decode_submit_evidence :: "u8 list \<Rightarrow> submit_evidence_request result" where
  "decode_submit_evidence bs =
     rnf_try (decode_counted (pl_max_evidence_records kLimits) ''evidence batch exceeds its bound'' decode_evidence bs)
       (\<lambda>(records, bs). trailing \<lparr>sv_records = records\<rparr> bs)"

text \<open>The outcome of an entry is the byte of an \<^verbatim>\<open>InsertOutcome\<close>.\<close>

record evidence_ack_entry =
  ae_outcome :: u8
  ae_code :: status_code
  ae_digest :: digest
  ae_detail :: string

fun outcome_byte :: "insert_outcome \<Rightarrow> u8" where
  "outcome_byte Outcome_kInserted = 1"
| "outcome_byte Outcome_kUpdated = 2"
| "outcome_byte Outcome_kDuplicate = 3"
| "outcome_byte Outcome_kSuperseded = 4"
| "outcome_byte Outcome_kConflicted = 5"
| "outcome_byte Outcome_kRefused = 6"

record evidence_ack_response =
  ar_entries :: "evidence_ack_entry list"

definition evidence_ack_entry_calls :: "evidence_ack_entry \<Rightarrow> writer_call list" where
  "evidence_ack_entry_calls e =
     [W_u8 (ae_outcome e), W_u16 (code_value (ae_code e)), W_digest (ae_digest e), W_text (ae_detail e) max_detail]"

definition encode_evidence_ack :: "evidence_ack_response \<Rightarrow> byte_writer \<Rightarrow> status \<times> byte_writer" where
  "encode_evidence_ack m w = finish (write_all (counted_calls evidence_ack_entry_calls (ar_entries m)) w)"

definition fields_evidence_ack_entry :: "u8 list \<Rightarrow> (evidence_ack_entry \<times> u8 list) option" where
  "fields_evidence_ack_entry bs = do {
     (outcome, bs) \<leftarrow> r_u8 bs; (code, bs) \<leftarrow> r_u16 bs; (d, bs) \<leftarrow> r_digest bs; (detail, bs) \<leftarrow> r_text max_detail bs;
     Some (\<lparr>ae_outcome = outcome, ae_code = StatusCode code, ae_digest = d, ae_detail = detail\<rparr>, bs) }"

definition decode_evidence_ack :: "u8 list \<Rightarrow> evidence_ack_response result" where
  "decode_evidence_ack bs =
     rnf_try (decode_counted (pl_max_evidence_records kLimits) ''evidence acknowledgement exceeds its bound''
         (\<lambda>bs. read_fields ''evidence acknowledgement'' (fields_evidence_ack_entry bs) Inr) bs)
       (\<lambda>(entries, bs). trailing \<lparr>ar_entries = entries\<rparr> bs)"

section \<open>Compose\<close>

record compose_command =
  cc_generation :: topology_generation

definition compose_command_calls :: "compose_command \<Rightarrow> writer_call list" where
  "compose_command_calls m = [W_u64 (cc_generation m)]"

definition encode_compose_command :: "compose_command \<Rightarrow> byte_writer \<Rightarrow> status \<times> byte_writer" where
  "encode_compose_command m w = finish (write_all (compose_command_calls m) w)"

definition fields_compose_command :: "u8 list \<Rightarrow> (compose_command \<times> u8 list) option" where
  "fields_compose_command bs = do { (generation, bs) \<leftarrow> r_u64 bs; Some (\<lparr>cc_generation = generation\<rparr>, bs) }"

definition decode_compose_command :: "u8 list \<Rightarrow> compose_command result" where
  "decode_compose_command bs = read_fields ''compose request'' (fields_compose_command bs) (\<lambda>(m, bs). trailing m bs)"

record compose_response =
  cz_code :: status_code
  cz_generation :: topology_generation
  cz_epoch :: rack_epoch
  cz_incarnation :: controller_incarnation
  cz_digest :: digest
  cz_diagnostics :: u32
  cz_detail :: string

definition compose_response_calls :: "compose_response \<Rightarrow> writer_call list" where
  "compose_response_calls m =
     [W_u16 (code_value (cz_code m)), W_u64 (cz_generation m), W_u64 (cz_epoch m), W_u64 (cz_incarnation m),
      W_digest (cz_digest m), W_u32 (cz_diagnostics m), W_text (cz_detail m) max_detail]"

definition encode_compose_response :: "compose_response \<Rightarrow> byte_writer \<Rightarrow> status \<times> byte_writer" where
  "encode_compose_response m w = finish (write_all (compose_response_calls m) w)"

definition fields_compose_response :: "u8 list \<Rightarrow> (compose_response \<times> u8 list) option" where
  "fields_compose_response bs = do {
     (code, bs) \<leftarrow> r_u16 bs; (generation, bs) \<leftarrow> r_u64 bs; (epoch, bs) \<leftarrow> r_u64 bs; (incarnation, bs) \<leftarrow> r_u64 bs;
     (d, bs) \<leftarrow> r_digest bs; (diagnostics, bs) \<leftarrow> r_u32 bs; (detail, bs) \<leftarrow> r_text max_detail bs;
     Some (\<lparr>cz_code = StatusCode code, cz_generation = generation, cz_epoch = epoch, cz_incarnation = incarnation,
            cz_digest = d, cz_diagnostics = diagnostics, cz_detail = detail\<rparr>, bs) }"

definition decode_compose_response :: "u8 list \<Rightarrow> compose_response result" where
  "decode_compose_response bs = read_fields ''compose response'' (fields_compose_response bs) (\<lambda>(m, bs). trailing m bs)"

section \<open>Grants\<close>

record acquire_request =
  aq_request :: request_id
  aq_principal :: principal_id
  aq_scope :: resource_ref
  aq_mode :: grant_mode
  aq_capacity :: capacity
  aq_ttl_ms :: u64

definition acquire_request_calls :: "acquire_request \<Rightarrow> writer_call list" where
  "acquire_request_calls m =
     [W_u64 (req_hi (aq_request m)), W_u64 (req_lo (aq_request m)), W_u64 (aq_principal m)] @ put_ref (aq_scope m) @
     [W_u8 (gm_byte (aq_mode m)), W_u64 (aq_capacity m), W_u64 (aq_ttl_ms m)]"

definition encode_acquire_request :: "acquire_request \<Rightarrow> byte_writer \<Rightarrow> status \<times> byte_writer" where
  "encode_acquire_request m w = finish (write_all (acquire_request_calls m) w)"

definition fields_acquire_request :: "u8 list \<Rightarrow> (acquire_request \<times> u8 list) option" where
  "fields_acquire_request bs = do {
     (hi, bs) \<leftarrow> r_u64 bs; (lo, bs) \<leftarrow> r_u64 bs; (principal, bs) \<leftarrow> r_u64 bs; (scope, bs) \<leftarrow> get_ref bs;
     (mode, bs) \<leftarrow> r_u8 bs; (cap, bs) \<leftarrow> r_u64 bs; (ttl, bs) \<leftarrow> r_u64 bs;
     Some (\<lparr>aq_request = RequestId hi lo, aq_principal = principal, aq_scope = scope, aq_mode = GrantMode mode,
            aq_capacity = cap, aq_ttl_ms = ttl\<rparr>, bs) }"

definition decode_acquire_request :: "u8 list \<Rightarrow> acquire_request result" where
  "decode_acquire_request bs =
     read_fields ''acquire request'' (fields_acquire_request bs) (\<lambda>(m, bs).
       if aq_mode m \<noteq> GrantMode_kShared \<and> aq_mode m \<noteq> GrantMode_kExclusive
       then fail kOutOfRange ''acquire request has an unknown grant mode''
       else trailing m bs)"

record grant_summary =
  gy_id :: grant_id
  gy_request :: request_id
  gy_principal :: principal_id
  gy_scope :: resource_ref
  gy_mode :: grant_mode
  gy_capacity :: capacity
  gy_generation :: topology_generation
  gy_epoch :: rack_epoch
  gy_incarnation :: controller_incarnation
  gy_fence :: fencing_token
  gy_issued_at_ms :: timestamp_ms
  gy_expires_at_ms :: timestamp_ms
  gy_state :: grant_state
  gy_basis :: digest
  gy_reason :: string

definition empty_grant_summary :: grant_summary where
  "empty_grant_summary =
     \<lparr>gy_id = 0, gy_request = RequestId 0 0, gy_principal = 0, gy_scope = ResourceRef ResourceKind_kRack 0,
      gy_mode = GrantMode_kShared, gy_capacity = 0, gy_generation = 0, gy_epoch = 0, gy_incarnation = 0,
      gy_fence = 0, gy_issued_at_ms = 0, gy_expires_at_ms = 0, gy_state = GrantState_kPending,
      gy_basis = zero_digest, gy_reason = []\<rparr>"

definition summary_from :: "grant \<Rightarrow> grant_summary" where
  "summary_from g =
     \<lparr>gy_id = g_id g, gy_request = g_request g, gy_principal = g_principal g, gy_scope = g_scope g,
      gy_mode = g_mode g, gy_capacity = g_capacity g, gy_generation = g_generation g, gy_epoch = g_epoch g,
      gy_incarnation = g_incarnation g, gy_fence = g_fence g, gy_issued_at_ms = g_issued_at_ms g,
      gy_expires_at_ms = g_expires_at_ms g, gy_state = g_state g, gy_basis = g_authority_basis g,
      gy_reason = g_reason g\<rparr>"

definition grant_summary_calls :: "grant_summary \<Rightarrow> writer_call list" where
  "grant_summary_calls m =
     [W_u64 (gy_id m), W_u64 (req_hi (gy_request m)), W_u64 (req_lo (gy_request m)), W_u64 (gy_principal m)] @
     put_ref (gy_scope m) @
     [W_u8 (gm_byte (gy_mode m)), W_u64 (gy_capacity m), W_u64 (gy_generation m), W_u64 (gy_epoch m),
      W_u64 (gy_incarnation m), W_u64 (gy_fence m), W_u64 (gy_issued_at_ms m), W_u64 (gy_expires_at_ms m),
      W_u8 (gs_byte (gy_state m)), W_digest (gy_basis m), W_text (gy_reason m) max_detail]"

definition encode_grant_summary :: "grant_summary \<Rightarrow> byte_writer \<Rightarrow> status \<times> byte_writer" where
  "encode_grant_summary m w = finish (write_all (grant_summary_calls m) w)"

definition fields_grant_summary :: "u8 list \<Rightarrow> (grant_summary \<times> u8 list) option" where
  "fields_grant_summary bs = do {
     (i, bs) \<leftarrow> r_u64 bs; (hi, bs) \<leftarrow> r_u64 bs; (lo, bs) \<leftarrow> r_u64 bs; (principal, bs) \<leftarrow> r_u64 bs;
     (scope, bs) \<leftarrow> get_ref bs; (mode, bs) \<leftarrow> r_u8 bs; (cap, bs) \<leftarrow> r_u64 bs; (generation, bs) \<leftarrow> r_u64 bs;
     (epoch, bs) \<leftarrow> r_u64 bs; (incarnation, bs) \<leftarrow> r_u64 bs; (fence, bs) \<leftarrow> r_u64 bs; (issued, bs) \<leftarrow> r_u64 bs;
     (expires, bs) \<leftarrow> r_u64 bs; (state, bs) \<leftarrow> r_u8 bs; (basis, bs) \<leftarrow> r_digest bs;
     (reason, bs) \<leftarrow> r_text max_detail bs;
     Some (\<lparr>gy_id = i, gy_request = RequestId hi lo, gy_principal = principal, gy_scope = scope,
            gy_mode = GrantMode mode, gy_capacity = cap, gy_generation = generation, gy_epoch = epoch,
            gy_incarnation = incarnation, gy_fence = fence, gy_issued_at_ms = issued, gy_expires_at_ms = expires,
            gy_state = GrantState state, gy_basis = basis, gy_reason = reason\<rparr>, bs) }"

definition decode_grant_summary :: "u8 list \<Rightarrow> (grant_summary \<times> u8 list) result" where
  "decode_grant_summary bs = read_fields ''grant summary'' (fields_grant_summary bs) Inr"

record grant_response =
  gn_code :: status_code
  gn_grant :: grant_summary
  gn_detail :: string

definition encode_grant_response :: "grant_response \<Rightarrow> byte_writer \<Rightarrow> status \<times> byte_writer" where
  "encode_grant_response m w =
     (let w = write_all [W_u16 (code_value (gn_code m)), W_boolean (gy_id (gn_grant m) \<noteq> 0)] w;
          tail = (\<lambda>w. finish (write_all [W_text (gn_detail m) max_detail] w))
      in if gy_id (gn_grant m) \<noteq> 0 then encode_then (encode_grant_summary (gn_grant m) w) tail else tail w)"

definition decode_grant_response :: "u8 list \<Rightarrow> grant_response result" where
  "decode_grant_response bs =
     read_fields ''grant response'' (do { (code, bs) \<leftarrow> r_u16 bs; (present, bs) \<leftarrow> r_boolean bs; Some (code, present, bs) })
       (\<lambda>(code, present, bs).
     rnf_try (if present then decode_grant_summary bs else Inr (empty_grant_summary, bs)) (\<lambda>(summary, bs).
     read_fields ''grant response'' (r_text max_detail bs) (\<lambda>(detail, bs).
     trailing \<lparr>gn_code = StatusCode code, gn_grant = summary, gn_detail = detail\<rparr> bs)))"

record token_message =
  tm_token :: lease_token

definition token_message_calls :: "token_message \<Rightarrow> writer_call list" where
  "token_message_calls m =
     [W_u64 (t_grant (tm_token m)), W_u64 (t_fence (tm_token m)), W_u64 (t_incarnation (tm_token m)),
      W_digest (t_scope_basis (tm_token m))]"

definition encode_token_message :: "token_message \<Rightarrow> byte_writer \<Rightarrow> status \<times> byte_writer" where
  "encode_token_message m w = finish (write_all (token_message_calls m) w)"

definition fields_token_message :: "u8 list \<Rightarrow> (token_message \<times> u8 list) option" where
  "fields_token_message bs = do {
     (g, bs) \<leftarrow> r_u64 bs; (fence, bs) \<leftarrow> r_u64 bs; (incarnation, bs) \<leftarrow> r_u64 bs; (basis, bs) \<leftarrow> r_digest bs;
     Some (\<lparr>tm_token = \<lparr>t_grant = g, t_fence = fence, t_incarnation = incarnation, t_scope_basis = basis\<rparr>\<rparr>, bs) }"

text \<open>The nested form, with \<^verbatim>\<open>require_end\<close> false, and the whole body.\<close>

definition decode_token_prefix :: "u8 list \<Rightarrow> (token_message \<times> u8 list) result" where
  "decode_token_prefix bs = read_fields ''lease token'' (fields_token_message bs) Inr"

definition decode_token_message :: "u8 list \<Rightarrow> token_message result" where
  "decode_token_message bs = rnf_try (decode_token_prefix bs) (\<lambda>(m, bs). trailing m bs)"

record renew_request =
  rn_token :: lease_token
  rn_ttl_ms :: u64

definition encode_renew_request :: "renew_request \<Rightarrow> byte_writer \<Rightarrow> status \<times> byte_writer" where
  "encode_renew_request m w =
     encode_then (encode_token_message \<lparr>tm_token = rn_token m\<rparr> w)
       (\<lambda>w. finish (write_all [W_u64 (rn_ttl_ms m)] w))"

definition decode_renew_request :: "u8 list \<Rightarrow> renew_request result" where
  "decode_renew_request bs =
     rnf_try (decode_token_prefix bs) (\<lambda>(m, bs).
     read_fields ''renew request'' (r_u64 bs) (\<lambda>(ttl, bs).
     trailing \<lparr>rn_token = tm_token m, rn_ttl_ms = ttl\<rparr> bs))"

record lookup_request =
  lu_request :: request_id

definition lookup_request_calls :: "lookup_request \<Rightarrow> writer_call list" where
  "lookup_request_calls m = [W_u64 (req_hi (lu_request m)), W_u64 (req_lo (lu_request m))]"

definition encode_lookup_request :: "lookup_request \<Rightarrow> byte_writer \<Rightarrow> status \<times> byte_writer" where
  "encode_lookup_request m w = finish (write_all (lookup_request_calls m) w)"

definition fields_lookup_request :: "u8 list \<Rightarrow> (lookup_request \<times> u8 list) option" where
  "fields_lookup_request bs = do {
     (hi, bs) \<leftarrow> r_u64 bs; (lo, bs) \<leftarrow> r_u64 bs; Some (\<lparr>lu_request = RequestId hi lo\<rparr>, bs) }"

definition decode_lookup_request :: "u8 list \<Rightarrow> lookup_request result" where
  "decode_lookup_request bs = read_fields ''lookup request'' (fields_lookup_request bs) (\<lambda>(m, bs). trailing m bs)"

record lookup_response =
  lv_code :: status_code
  lv_outcome_code :: status_code
  lv_grant :: grant_id
  lv_fence :: fencing_token
  lv_incarnation :: controller_incarnation
  lv_detail :: string
  lv_remembered :: bool

definition lookup_response_calls :: "lookup_response \<Rightarrow> writer_call list" where
  "lookup_response_calls m =
     [W_u16 (code_value (lv_code m)), W_boolean (lv_remembered m), W_u16 (code_value (lv_outcome_code m)),
      W_u64 (lv_grant m), W_u64 (lv_fence m), W_u64 (lv_incarnation m), W_text (lv_detail m) max_detail]"

definition encode_lookup_response :: "lookup_response \<Rightarrow> byte_writer \<Rightarrow> status \<times> byte_writer" where
  "encode_lookup_response m w = finish (write_all (lookup_response_calls m) w)"

definition fields_lookup_response :: "u8 list \<Rightarrow> (lookup_response \<times> u8 list) option" where
  "fields_lookup_response bs = do {
     (code, bs) \<leftarrow> r_u16 bs; (remembered, bs) \<leftarrow> r_boolean bs; (outcome, bs) \<leftarrow> r_u16 bs; (g, bs) \<leftarrow> r_u64 bs;
     (fence, bs) \<leftarrow> r_u64 bs; (incarnation, bs) \<leftarrow> r_u64 bs; (detail, bs) \<leftarrow> r_text max_detail bs;
     Some (\<lparr>lv_code = StatusCode code, lv_outcome_code = StatusCode outcome, lv_grant = g, lv_fence = fence,
            lv_incarnation = incarnation, lv_detail = detail, lv_remembered = remembered\<rparr>, bs) }"

definition decode_lookup_response :: "u8 list \<Rightarrow> lookup_response result" where
  "decode_lookup_response bs = read_fields ''lookup response'' (fields_lookup_response bs) (\<lambda>(m, bs). trailing m bs)"

section \<open>Inspection\<close>

record diagnostic_entry =
  dn_kind :: diagnostic_kind
  dn_subject_kind :: evidence_kind
  dn_subject_id :: u64
  dn_source :: source_id
  dn_detail :: string

definition diagnostic_entry_calls :: "diagnostic_entry \<Rightarrow> writer_call list" where
  "diagnostic_entry_calls m =
     [W_u8 (dk_byte (dn_kind m)), W_u8 (ek_byte (dn_subject_kind m)), W_u64 (dn_subject_id m), W_u64 (dn_source m),
      W_text (dn_detail m) max_detail]"

definition encode_diagnostic_entry :: "diagnostic_entry \<Rightarrow> byte_writer \<Rightarrow> status \<times> byte_writer" where
  "encode_diagnostic_entry m w = finish (write_all (diagnostic_entry_calls m) w)"

definition fields_diagnostic_entry :: "u8 list \<Rightarrow> (diagnostic_entry \<times> u8 list) option" where
  "fields_diagnostic_entry bs = do {
     (kind, bs) \<leftarrow> r_u8 bs; (subject_kind, bs) \<leftarrow> r_u8 bs; (subject_id, bs) \<leftarrow> r_u64 bs; (src, bs) \<leftarrow> r_u64 bs;
     (detail, bs) \<leftarrow> r_text max_detail bs;
     Some (\<lparr>dn_kind = DiagnosticKind kind, dn_subject_kind = EvidenceKind subject_kind, dn_subject_id = subject_id,
            dn_source = src, dn_detail = detail\<rparr>, bs) }"

definition decode_diagnostic_entry :: "u8 list \<Rightarrow> (diagnostic_entry \<times> u8 list) result" where
  "decode_diagnostic_entry bs = read_fields ''diagnostic entry'' (fields_diagnostic_entry bs) Inr"

record capacity_message =
  cm_total :: capacity
  cm_unavailable :: capacity
  cm_usable :: capacity
  cm_obligated :: capacity
  cm_headroom_floor :: capacity
  cm_uncommitted :: capacity
  cm_deficit :: capacity
  cm_committed_grants :: capacity

definition capacity_message_closes :: "capacity_message \<Rightarrow> bool" where
  "capacity_message_closes m =
     (case checked_add_u64 (cm_unavailable m) (cm_usable m) of
        None \<Rightarrow> False
      | Some lhs \<Rightarrow>
          if lhs \<noteq> cm_total m then False
          else
            (case checked_add_u64 (cm_obligated m) (cm_headroom_floor m) of
               None \<Rightarrow> False
             | Some rhs \<Rightarrow>
                 (case checked_add_u64 rhs (cm_uncommitted m) of
                    None \<Rightarrow> False
                  | Some rhs \<Rightarrow> checked_add_u64 (cm_usable m) (cm_deficit m) = Some rhs)))"

definition capacity_message_calls :: "capacity_message \<Rightarrow> writer_call list" where
  "capacity_message_calls m =
     [W_u64 (cm_total m), W_u64 (cm_unavailable m), W_u64 (cm_usable m), W_u64 (cm_obligated m),
      W_u64 (cm_headroom_floor m), W_u64 (cm_uncommitted m), W_u64 (cm_deficit m), W_u64 (cm_committed_grants m)]"

definition encode_capacity_message :: "capacity_message \<Rightarrow> byte_writer \<Rightarrow> status \<times> byte_writer" where
  "encode_capacity_message m w = finish (write_all (capacity_message_calls m) w)"

definition fields_capacity_message :: "u8 list \<Rightarrow> (capacity_message \<times> u8 list) option" where
  "fields_capacity_message bs = do {
     (tot, bs) \<leftarrow> r_u64 bs; (unavailable, bs) \<leftarrow> r_u64 bs; (usable, bs) \<leftarrow> r_u64 bs; (obligated, bs) \<leftarrow> r_u64 bs;
     (headroom, bs) \<leftarrow> r_u64 bs; (uncommitted, bs) \<leftarrow> r_u64 bs; (deficit, bs) \<leftarrow> r_u64 bs; (grants, bs) \<leftarrow> r_u64 bs;
     Some (\<lparr>cm_total = tot, cm_unavailable = unavailable, cm_usable = usable, cm_obligated = obligated,
            cm_headroom_floor = headroom, cm_uncommitted = uncommitted, cm_deficit = deficit,
            cm_committed_grants = grants\<rparr>, bs) }"

definition decode_capacity_message :: "u8 list \<Rightarrow> (capacity_message \<times> u8 list) result" where
  "decode_capacity_message bs = read_fields ''capacity message'' (fields_capacity_message bs) Inr"

record state_response =
  sr_code :: status_code
  sr_rack :: rack_id
  sr_generation :: topology_generation
  sr_epoch :: rack_epoch
  sr_incarnation :: controller_incarnation
  sr_lifecycle :: lifecycle_state
  sr_snapshot_digest :: digest
  sr_evidence_digest :: digest
  sr_member_set_digest :: digest
  sr_capacity :: capacity_message
  sr_devices :: u32
  sr_ports :: u32
  sr_links :: u32
  sr_attachments :: u32
  sr_paths :: u32
  sr_live_grants :: u32
  sr_recovering_grants :: u32
  sr_clean_shutdown :: bool
  sr_recovered_from_dirty_shutdown :: bool
  sr_total_diagnostics :: u32
  sr_diagnostics :: "diagnostic_entry list"
  sr_detail :: string

definition state_head_calls :: "state_response \<Rightarrow> writer_call list" where
  "state_head_calls m =
     [W_u16 (code_value (sr_code m)), W_u64 (sr_rack m), W_u64 (sr_generation m), W_u64 (sr_epoch m),
      W_u64 (sr_incarnation m), W_u8 (ls_byte (sr_lifecycle m)), W_digest (sr_snapshot_digest m),
      W_digest (sr_evidence_digest m), W_digest (sr_member_set_digest m)]"

definition state_counter_calls :: "state_response \<Rightarrow> writer_call list" where
  "state_counter_calls m =
     [W_u32 (sr_devices m), W_u32 (sr_ports m), W_u32 (sr_links m), W_u32 (sr_attachments m), W_u32 (sr_paths m),
      W_u32 (sr_live_grants m), W_u32 (sr_recovering_grants m), W_boolean (sr_clean_shutdown m),
      W_boolean (sr_recovered_from_dirty_shutdown m), W_u32 (sr_total_diagnostics m)]"

definition encode_state_response :: "state_response \<Rightarrow> byte_writer \<Rightarrow> status \<times> byte_writer" where
  "encode_state_response m w =
     encode_then (encode_capacity_message (sr_capacity m) (write_all (state_head_calls m) w)) (\<lambda>w.
       encode_each encode_diagnostic_entry (sr_diagnostics m)
         (\<lambda>w. finish (write_all [W_text (sr_detail m) max_detail] w))
         (write_all (state_counter_calls m @ [W_u32 (of_nat (length (sr_diagnostics m)))]) w))"

type_synonym state_head =
  "status_code \<times> rack_id \<times> topology_generation \<times> rack_epoch \<times> controller_incarnation \<times> lifecycle_state \<times>
   digest \<times> digest \<times> digest"

definition fields_state_head :: "u8 list \<Rightarrow> (state_head \<times> u8 list) option" where
  "fields_state_head bs = do {
     (code, bs) \<leftarrow> r_u16 bs; (rack, bs) \<leftarrow> r_u64 bs; (generation, bs) \<leftarrow> r_u64 bs; (epoch, bs) \<leftarrow> r_u64 bs;
     (incarnation, bs) \<leftarrow> r_u64 bs; (lifecycle, bs) \<leftarrow> r_u8 bs; (s, bs) \<leftarrow> r_digest bs; (e, bs) \<leftarrow> r_digest bs;
     (m, bs) \<leftarrow> r_digest bs;
     Some ((StatusCode code, rack, generation, epoch, incarnation, LifecycleState lifecycle, s, e, m), bs) }"

type_synonym state_counters = "u32 \<times> u32 \<times> u32 \<times> u32 \<times> u32 \<times> u32 \<times> u32 \<times> bool \<times> bool \<times> u32"

definition fields_state_counters :: "u8 list \<Rightarrow> (state_counters \<times> u8 list) option" where
  "fields_state_counters bs = do {
     (devices, bs) \<leftarrow> r_u32 bs; (ports, bs) \<leftarrow> r_u32 bs; (links, bs) \<leftarrow> r_u32 bs; (attachments, bs) \<leftarrow> r_u32 bs;
     (paths, bs) \<leftarrow> r_u32 bs; (live, bs) \<leftarrow> r_u32 bs; (recovering, bs) \<leftarrow> r_u32 bs; (clean, bs) \<leftarrow> r_boolean bs;
     (dirty, bs) \<leftarrow> r_boolean bs; (n, bs) \<leftarrow> r_u32 bs;
     Some ((devices, ports, links, attachments, paths, live, recovering, clean, dirty, n), bs) }"

definition decode_state_response :: "u8 list \<Rightarrow> state_response result" where
  "decode_state_response bs =
     read_fields ''state response'' (fields_state_head bs)
       (\<lambda>((code, rack, generation, epoch, incarnation, lifecycle, s, e, ms), bs).
     rnf_try (decode_capacity_message bs) (\<lambda>(cap, bs).
     read_fields ''state response'' (fields_state_counters bs)
       (\<lambda>((devices, ports, links, attachments, paths, live, recovering, clean, dirty, n), bs).
     rnf_try (decode_counted (pl_max_diagnostics kLimits) ''diagnostic list exceeds its bound''
       decode_diagnostic_entry bs) (\<lambda>(entries, bs).
     read_fields ''state response'' (r_text max_detail bs) (\<lambda>(detail, bs).
     trailing \<lparr>sr_code = code, sr_rack = rack, sr_generation = generation, sr_epoch = epoch,
       sr_incarnation = incarnation, sr_lifecycle = lifecycle, sr_snapshot_digest = s, sr_evidence_digest = e,
       sr_member_set_digest = ms, sr_capacity = cap, sr_devices = devices, sr_ports = ports, sr_links = links,
       sr_attachments = attachments, sr_paths = paths, sr_live_grants = live, sr_recovering_grants = recovering,
       sr_clean_shutdown = clean, sr_recovered_from_dirty_shutdown = dirty, sr_total_diagnostics = n,
       sr_diagnostics = entries, sr_detail = detail\<rparr> bs)))))"

record resource_query =
  rq_limit :: u32
  rq_kind_filter :: u8

definition resource_query_calls :: "resource_query \<Rightarrow> writer_call list" where
  "resource_query_calls m = [W_u32 (rq_limit m), W_u8 (rq_kind_filter m)]"

definition encode_resource_query :: "resource_query \<Rightarrow> byte_writer \<Rightarrow> status \<times> byte_writer" where
  "encode_resource_query m w = finish (write_all (resource_query_calls m) w)"

definition fields_resource_query :: "u8 list \<Rightarrow> (resource_query \<times> u8 list) option" where
  "fields_resource_query bs = do {
     (limit, bs) \<leftarrow> r_u32 bs; (kind, bs) \<leftarrow> r_u8 bs; Some (\<lparr>rq_limit = limit, rq_kind_filter = kind\<rparr>, bs) }"

definition decode_resource_query :: "u8 list \<Rightarrow> resource_query result" where
  "decode_resource_query bs = read_fields ''resource query'' (fields_resource_query bs) (\<lambda>(m, bs). trailing m bs)"

record resource_entry =
  re_ref :: resource_ref
  re_eligibility :: eligibility
  re_availability :: availability
  re_capacity_known :: bool
  re_capacity :: capacity
  re_obligated :: capacity
  re_committed :: capacity
  re_available :: capacity
  re_available_known :: bool
  re_available_code :: status_code
  re_maintenance :: bool

definition resource_entry_calls :: "resource_entry \<Rightarrow> writer_call list" where
  "resource_entry_calls m = put_ref (re_ref m) @
     [W_u8 (el_byte (re_eligibility m)), W_u8 (av_byte (re_availability m)), W_boolean (re_capacity_known m),
      W_u64 (re_capacity m), W_u64 (re_obligated m), W_u64 (re_committed m), W_u64 (re_available m),
      W_boolean (re_available_known m), W_u16 (code_value (re_available_code m)), W_boolean (re_maintenance m)]"

definition encode_resource_entry :: "resource_entry \<Rightarrow> byte_writer \<Rightarrow> status \<times> byte_writer" where
  "encode_resource_entry m w = finish (write_all (resource_entry_calls m) w)"

definition fields_resource_entry :: "u8 list \<Rightarrow> (resource_entry \<times> u8 list) option" where
  "fields_resource_entry bs = do {
     (ref, bs) \<leftarrow> get_ref bs; (elig, bs) \<leftarrow> r_u8 bs; (avail, bs) \<leftarrow> r_u8 bs; (known, bs) \<leftarrow> r_boolean bs;
     (cap, bs) \<leftarrow> r_u64 bs; (obligated, bs) \<leftarrow> r_u64 bs; (committed, bs) \<leftarrow> r_u64 bs; (available, bs) \<leftarrow> r_u64 bs;
     (available_known, bs) \<leftarrow> r_boolean bs; (code, bs) \<leftarrow> r_u16 bs; (maintenance, bs) \<leftarrow> r_boolean bs;
     Some (\<lparr>re_ref = ref, re_eligibility = Eligibility elig, re_availability = Availability avail,
            re_capacity_known = known, re_capacity = cap, re_obligated = obligated, re_committed = committed,
            re_available = available, re_available_known = available_known, re_available_code = StatusCode code,
            re_maintenance = maintenance\<rparr>, bs) }"

definition decode_resource_entry :: "u8 list \<Rightarrow> (resource_entry \<times> u8 list) result" where
  "decode_resource_entry bs = read_fields ''resource entry'' (fields_resource_entry bs) Inr"

text \<open>The three list responses share a shape: a code, the truncation flag, the entries and a detail text.\<close>

record 'a list_response =
  lq_code :: status_code
  lq_entries :: "'a list"
  lq_truncated :: bool
  lq_detail :: string

definition encode_list_response ::
  "('a \<Rightarrow> byte_writer \<Rightarrow> status \<times> byte_writer) \<Rightarrow> 'a list_response \<Rightarrow> byte_writer \<Rightarrow> status \<times> byte_writer" where
  "encode_list_response e m w =
     encode_each e (lq_entries m) (\<lambda>w. finish (write_all [W_text (lq_detail m) max_detail] w))
       (write_all [W_u16 (code_value (lq_code m)), W_boolean (lq_truncated m),
          W_u32 (of_nat (length (lq_entries m)))] w)"

definition decode_list_response ::
  "nat \<Rightarrow> string \<Rightarrow> string \<Rightarrow> (u8 list \<Rightarrow> ('a \<times> u8 list) result) \<Rightarrow> u8 list \<Rightarrow> 'a list_response result" where
  "decode_list_response max_count what over d bs =
     read_fields what (do { (code, bs) \<leftarrow> r_u16 bs; (cut, bs) \<leftarrow> r_boolean bs; Some (code, cut, bs) })
       (\<lambda>(code, cut, bs).
     rnf_try (decode_counted max_count over d bs) (\<lambda>(entries, bs).
     read_fields what (r_text max_detail bs) (\<lambda>(detail, bs).
     trailing \<lparr>lq_code = StatusCode code, lq_entries = entries, lq_truncated = cut, lq_detail = detail\<rparr> bs)))"

type_synonym resources_response = "resource_entry list_response"

definition encode_resources_response :: "resources_response \<Rightarrow> byte_writer \<Rightarrow> status \<times> byte_writer" where
  "encode_resources_response = encode_list_response encode_resource_entry"

definition decode_resources_response :: "u8 list \<Rightarrow> resources_response result" where
  "decode_resources_response = decode_list_response (pl_max_resources kLimits) ''resources response''
     ''resource list exceeds its bound'' decode_resource_entry"

record path_entry =
  pt_id :: path_id
  pt_start_port :: port_id
  pt_end_port :: port_id
  pt_hops :: u32
  pt_bottleneck :: capacity
  pt_bottleneck_known :: bool
  pt_eligibility :: eligibility

definition path_entry_calls :: "path_entry \<Rightarrow> writer_call list" where
  "path_entry_calls m =
     [W_u64 (pt_id m), W_u64 (pt_start_port m), W_u64 (pt_end_port m), W_u32 (pt_hops m), W_u64 (pt_bottleneck m),
      W_boolean (pt_bottleneck_known m), W_u8 (el_byte (pt_eligibility m))]"

definition encode_path_entry :: "path_entry \<Rightarrow> byte_writer \<Rightarrow> status \<times> byte_writer" where
  "encode_path_entry m w = finish (write_all (path_entry_calls m) w)"

definition fields_path_entry :: "u8 list \<Rightarrow> (path_entry \<times> u8 list) option" where
  "fields_path_entry bs = do {
     (i, bs) \<leftarrow> r_u64 bs; (s, bs) \<leftarrow> r_u64 bs; (e, bs) \<leftarrow> r_u64 bs; (hops, bs) \<leftarrow> r_u32 bs; (b, bs) \<leftarrow> r_u64 bs;
     (known, bs) \<leftarrow> r_boolean bs; (elig, bs) \<leftarrow> r_u8 bs;
     Some (\<lparr>pt_id = i, pt_start_port = s, pt_end_port = e, pt_hops = hops, pt_bottleneck = b,
            pt_bottleneck_known = known, pt_eligibility = Eligibility elig\<rparr>, bs) }"

definition decode_path_entry :: "u8 list \<Rightarrow> (path_entry \<times> u8 list) result" where
  "decode_path_entry bs = read_fields ''path entry'' (fields_path_entry bs) Inr"

type_synonym paths_response = "path_entry list_response"

definition encode_paths_response :: "paths_response \<Rightarrow> byte_writer \<Rightarrow> status \<times> byte_writer" where
  "encode_paths_response = encode_list_response encode_path_entry"

definition decode_paths_response :: "u8 list \<Rightarrow> paths_response result" where
  "decode_paths_response = decode_list_response (pl_max_paths kLimits) ''paths response''
     ''path list exceeds its bound'' decode_path_entry"

type_synonym grants_response = "grant_summary list_response"

definition encode_grants_response :: "grants_response \<Rightarrow> byte_writer \<Rightarrow> status \<times> byte_writer" where
  "encode_grants_response = encode_list_response encode_grant_summary"

definition decode_grants_response :: "u8 list \<Rightarrow> grants_response result" where
  "decode_grants_response = decode_list_response (pl_max_grants kLimits) ''grants response''
     ''grant list exceeds its bound'' decode_grant_summary"

section \<open>Control\<close>

record lifecycle_request =
  ly_target :: lifecycle_state

definition lifecycle_request_calls :: "lifecycle_request \<Rightarrow> writer_call list" where
  "lifecycle_request_calls m = [W_u8 (ls_byte (ly_target m))]"

definition encode_lifecycle_request :: "lifecycle_request \<Rightarrow> byte_writer \<Rightarrow> status \<times> byte_writer" where
  "encode_lifecycle_request m w = finish (write_all (lifecycle_request_calls m) w)"

definition decode_lifecycle_request :: "u8 list \<Rightarrow> lifecycle_request result" where
  "decode_lifecycle_request bs =
     read_fields ''lifecycle request'' (r_u8 bs) (\<lambda>(target, bs).
       if target < 1 \<or> target > 7 then fail kOutOfRange ''lifecycle request names an unknown state''
       else trailing \<lparr>ly_target = LifecycleState target\<rparr> bs)"

record lifecycle_response =
  lz_code :: status_code
  lz_lifecycle :: lifecycle_state
  lz_detail :: string

definition lifecycle_response_calls :: "lifecycle_response \<Rightarrow> writer_call list" where
  "lifecycle_response_calls m =
     [W_u16 (code_value (lz_code m)), W_u8 (ls_byte (lz_lifecycle m)), W_text (lz_detail m) max_detail]"

definition encode_lifecycle_response :: "lifecycle_response \<Rightarrow> byte_writer \<Rightarrow> status \<times> byte_writer" where
  "encode_lifecycle_response m w = finish (write_all (lifecycle_response_calls m) w)"

definition fields_lifecycle_response :: "u8 list \<Rightarrow> (lifecycle_response \<times> u8 list) option" where
  "fields_lifecycle_response bs = do {
     (code, bs) \<leftarrow> r_u16 bs; (lifecycle, bs) \<leftarrow> r_u8 bs; (detail, bs) \<leftarrow> r_text max_detail bs;
     Some (\<lparr>lz_code = StatusCode code, lz_lifecycle = LifecycleState lifecycle, lz_detail = detail\<rparr>, bs) }"

definition decode_lifecycle_response :: "u8 list \<Rightarrow> lifecycle_response result" where
  "decode_lifecycle_response bs =
     read_fields ''lifecycle response'' (fields_lifecycle_response bs) (\<lambda>(m, bs). trailing m bs)"

record stats_response =
  sx_code :: status_code
  sx_uptime_ms :: u64
  sx_evidence_records :: u64
  sx_evidence_sources :: u64
  sx_evidence_conflicts :: u64
  sx_evidence_superseded :: u64
  sx_log_records :: u64
  sx_log_bytes :: u64
  sx_checkpoints :: u64
  sx_requests_served :: u64
  sx_connections_accepted :: u64
  sx_connections_rejected :: u64
  sx_frames_rejected :: u64
  sx_bytes_sent :: u64
  sx_bytes_received :: u64
  sx_composes :: u64
  sx_grants_issued :: u64
  sx_grants_refused :: u64
  sx_grants_fenced :: u64
  sx_detail :: string

definition stats_response_calls :: "stats_response \<Rightarrow> writer_call list" where
  "stats_response_calls m =
     [W_u16 (code_value (sx_code m)), W_u64 (sx_uptime_ms m), W_u64 (sx_evidence_records m),
      W_u64 (sx_evidence_sources m), W_u64 (sx_evidence_conflicts m), W_u64 (sx_evidence_superseded m),
      W_u64 (sx_log_records m), W_u64 (sx_log_bytes m), W_u64 (sx_checkpoints m), W_u64 (sx_requests_served m),
      W_u64 (sx_connections_accepted m), W_u64 (sx_connections_rejected m), W_u64 (sx_frames_rejected m),
      W_u64 (sx_bytes_sent m), W_u64 (sx_bytes_received m), W_u64 (sx_composes m), W_u64 (sx_grants_issued m),
      W_u64 (sx_grants_refused m), W_u64 (sx_grants_fenced m), W_text (sx_detail m) max_detail]"

definition encode_stats_response :: "stats_response \<Rightarrow> byte_writer \<Rightarrow> status \<times> byte_writer" where
  "encode_stats_response m w = finish (write_all (stats_response_calls m) w)"

definition fields_stats_response :: "u8 list \<Rightarrow> (stats_response \<times> u8 list) option" where
  "fields_stats_response bs = do {
     (code, bs) \<leftarrow> r_u16 bs; (uptime, bs) \<leftarrow> r_u64 bs; (records, bs) \<leftarrow> r_u64 bs; (sources, bs) \<leftarrow> r_u64 bs;
     (conflicts, bs) \<leftarrow> r_u64 bs; (superseded, bs) \<leftarrow> r_u64 bs; (log_records, bs) \<leftarrow> r_u64 bs;
     (log_bytes, bs) \<leftarrow> r_u64 bs; (checkpoints, bs) \<leftarrow> r_u64 bs; (served, bs) \<leftarrow> r_u64 bs;
     (accepted, bs) \<leftarrow> r_u64 bs; (rejected, bs) \<leftarrow> r_u64 bs; (frames, bs) \<leftarrow> r_u64 bs; (sent, bs) \<leftarrow> r_u64 bs;
     (received, bs) \<leftarrow> r_u64 bs; (composes, bs) \<leftarrow> r_u64 bs; (issued, bs) \<leftarrow> r_u64 bs; (refused, bs) \<leftarrow> r_u64 bs;
     (fenced, bs) \<leftarrow> r_u64 bs; (detail, bs) \<leftarrow> r_text max_detail bs;
     Some (\<lparr>sx_code = StatusCode code, sx_uptime_ms = uptime, sx_evidence_records = records,
            sx_evidence_sources = sources, sx_evidence_conflicts = conflicts, sx_evidence_superseded = superseded,
            sx_log_records = log_records, sx_log_bytes = log_bytes, sx_checkpoints = checkpoints,
            sx_requests_served = served, sx_connections_accepted = accepted, sx_connections_rejected = rejected,
            sx_frames_rejected = frames, sx_bytes_sent = sent, sx_bytes_received = received, sx_composes = composes,
            sx_grants_issued = issued, sx_grants_refused = refused, sx_grants_fenced = fenced,
            sx_detail = detail\<rparr>, bs) }"

definition decode_stats_response :: "u8 list \<Rightarrow> stats_response result" where
  "decode_stats_response bs = read_fields ''stats response'' (fields_stats_response bs) (\<lambda>(m, bs). trailing m bs)"

record ack_response =
  ak_code :: status_code
  ak_detail :: string

definition ack_response_calls :: "ack_response \<Rightarrow> writer_call list" where
  "ack_response_calls m = [W_u16 (code_value (ak_code m)), W_text (ak_detail m) max_detail]"

definition encode_ack_response :: "ack_response \<Rightarrow> byte_writer \<Rightarrow> status \<times> byte_writer" where
  "encode_ack_response m w = finish (write_all (ack_response_calls m) w)"

definition fields_ack_response :: "u8 list \<Rightarrow> (ack_response \<times> u8 list) option" where
  "fields_ack_response bs = do {
     (code, bs) \<leftarrow> r_u16 bs; (detail, bs) \<leftarrow> r_text max_detail bs;
     Some (\<lparr>ak_code = StatusCode code, ak_detail = detail\<rparr>, bs) }"

definition decode_ack_response :: "u8 list \<Rightarrow> ack_response result" where
  "decode_ack_response bs = read_fields ''acknowledgement'' (fields_ack_response bs) (\<lambda>(m, bs). trailing m bs)"

end
