(* ===== verification/Rnf_Daemon.thy ===== *)
theory Rnf_Daemon
  imports Rnf_Protocol Rnf_Registry Rnf_Store Rnf_Compose
begin

text \<open>
  \<^verbatim>\<open>runtime/daemon\<close>: the daemon core, the state machine the network layer drives. The state is the class's
  fields; a command is a function from its request, the time it reads and the core to its result and the
  new core, with every early return in place. The mutex makes each command one atomic step. What the
  operating system answers to the appends and checkpoint writes to come is the additional field \<open>da_os\<close>;
  answers that are not listed are successes. The steady clock only feeds the uptime of \<^verbatim>\<open>stats\<close> and is an
  argument there.
\<close>

section \<open>State\<close>

record daemon_config =
  dc_rack :: rack_config
  dc_store_directory :: string
  dc_bind_host :: string
  dc_port :: u16
  dc_max_connections :: nat
  dc_max_frame_payload :: u32
  dc_default_ttl_ms :: u64
  dc_auto_compose :: bool
  dc_checkpoint_every_records :: u64
  dc_evidence_limits :: evidence_limits
  dc_compose_limits :: compose_limits
  dc_authority_limits :: authority_limits
  dc_max_records_per_batch :: nat
  dc_fsync_on_append :: bool

record daemon_stats =
  ds_uptime_ms :: u64
  ds_evidence_records :: u64
  ds_evidence_sources :: u64
  ds_evidence_conflicts :: u64
  ds_evidence_superseded :: u64
  ds_log_records :: u64
  ds_log_bytes :: u64
  ds_checkpoints :: u64
  ds_requests_served :: u64
  ds_connections_accepted :: u64
  ds_connections_rejected :: u64
  ds_frames_rejected :: u64
  ds_bytes_sent :: u64
  ds_bytes_received :: u64
  ds_composes :: u64
  ds_grants_issued :: u64
  ds_grants_refused :: u64
  ds_grants_fenced :: u64

definition empty_daemon_stats :: daemon_stats where
  "empty_daemon_stats =
     \<lparr>ds_uptime_ms = 0, ds_evidence_records = 0, ds_evidence_sources = 0, ds_evidence_conflicts = 0,
      ds_evidence_superseded = 0, ds_log_records = 0, ds_log_bytes = 0, ds_checkpoints = 0,
      ds_requests_served = 0, ds_connections_accepted = 0, ds_connections_rejected = 0,
      ds_frames_rejected = 0, ds_bytes_sent = 0, ds_bytes_received = 0, ds_composes = 0,
      ds_grants_issued = 0, ds_grants_refused = 0, ds_grants_fenced = 0\<rparr>"

text \<open>One answer to a checkpoint: whether the old file could be renamed, the replacement, the manifest.\<close>

record checkpoint_io =
  ck_rotated :: bool
  ck_replace :: "status option"
  ck_meta :: "status option"

record os_answers =
  os_appends :: "append_io list"
  os_checkpoints :: "checkpoint_io list"

record daemon_core =
  da_config :: daemon_config
  da_ledger :: evidence_ledger
  da_grants :: registry
  da_store :: "store option"
  da_snapshot :: snapshot
  da_lifecycle :: lifecycle_state
  da_generation :: topology_generation
  da_epoch :: rack_epoch
  da_member_set_digest :: digest
  da_incarnation :: controller_incarnation
  da_stats :: daemon_stats
  da_dirty_recovery :: bool
  da_membership_initialized :: bool
  da_started :: bool
  da_stopped :: bool
  da_os :: os_answers

definition empty_handle :: snapshot where
  "empty_handle = \<lparr>sn_ptr = None, sn_digest = zero_digest\<rparr>"

definition daemon_new :: "daemon_config \<Rightarrow> os_answers \<Rightarrow> daemon_core" where
  "daemon_new config os =
     \<lparr>da_config = config, da_ledger = ledger_new (dc_evidence_limits config),
      da_grants = registry_new (dc_authority_limits config), da_store = None, da_snapshot = empty_handle,
      da_lifecycle = LifecycleState_kAssembling, da_generation = 0, da_epoch = 0,
      da_member_set_digest = zero_digest, da_incarnation = 0, da_stats = empty_daemon_stats,
      da_dirty_recovery = False, da_membership_initialized = False, da_started = False, da_stopped = False,
      da_os = os\<rparr>"

text \<open>\<^verbatim>\<open>RNF_TRYV\<close> on an operation of the core.\<close>

definition then_ok :: "status \<times> daemon_core \<Rightarrow> (daemon_core \<Rightarrow> status \<times> daemon_core) \<Rightarrow> status \<times> daemon_core" where
  "then_ok r k = (case r of (st, d) \<Rightarrow> if status_ok st then k d else (st, d))"

definition then_answer ::
  "status \<times> daemon_core \<Rightarrow> (daemon_core \<Rightarrow> 'a result \<times> daemon_core) \<Rightarrow> 'a result \<times> daemon_core" where
  "then_answer r k = (case r of (st, d) \<Rightarrow> if status_ok st then k d else (Inl st, d))"

definition kMaxStateDiagnostics :: nat where
  "kMaxStateDiagnostics = 256"

definition accepts_compose :: "lifecycle_state \<Rightarrow> bool" where
  "accepts_compose s \<longleftrightarrow> s \<noteq> LifecycleState_kRetired"

section \<open>Durability helpers\<close>

text \<open>The records the daemon writes carry the payload of their type.\<close>

definition typed_record :: "store_payload \<Rightarrow> store_record" where
  "typed_record p = \<lparr>sr_type = payload_type p, sr_payload = p\<rparr>"

definition next_append :: "os_answers \<Rightarrow> append_io \<times> os_answers" where
  "next_append os =
     (case os_appends os of [] \<Rightarrow> (Append_ok, os) | io # rest \<Rightarrow> (io, os\<lparr>os_appends := rest\<rparr>))"

definition next_checkpoint :: "os_answers \<Rightarrow> checkpoint_io \<times> os_answers" where
  "next_checkpoint os =
     (case os_checkpoints os of
        [] \<Rightarrow> (\<lparr>ck_rotated = True, ck_replace = None, ck_meta = None\<rparr>, os)
      | io # rest \<Rightarrow> (io, os\<lparr>os_checkpoints := rest\<rparr>))"

text \<open>
  The store's \<open>None\<close>, an exception for a payload that is not of its record's type, is not reached by a
  typed record (\<open>append_typed_record\<close>); the branch leaves the core as it is.
\<close>

definition append_locked :: "store_payload \<Rightarrow> daemon_core \<Rightarrow> status \<times> daemon_core" where
  "append_locked p d =
     (case da_store d of
        None \<Rightarrow> (ok_status, d)
      | Some s \<Rightarrow>
          (case next_append (da_os d) of (io, os) \<Rightarrow>
             (case store_append (typed_record p) io s of
                None \<Rightarrow> (ok_status, d)
              | Some (st, s) \<Rightarrow>
                  (let d = d\<lparr>da_store := Some s, da_os := os\<rparr> in
                   if \<not> status_ok st then (st, d)
                   else (ok_status,
                         d\<lparr>da_stats := (da_stats d)\<lparr>ds_log_records := ds_log_records (da_stats d) + 1,
                             ds_log_bytes := of_nat (so_log_bytes s)\<rparr>\<rparr>)))))"

definition checkpoint_of :: "daemon_core \<Rightarrow> store \<Rightarrow> u8 list \<Rightarrow> checkpoint" where
  "checkpoint_of d s encoded =
     empty_checkpoint\<lparr>cp_wal_offset := of_nat (so_log_bytes s),
       cp_generation := sd_generation (sn_data (da_snapshot d)), cp_epoch := sd_epoch (sn_data (da_snapshot d)),
       cp_lifecycle := da_lifecycle d, cp_member_set_digest := da_member_set_digest d,
       cp_incarnation := da_incarnation d, cp_snapshot_digest := sn_digest (da_snapshot d),
       cp_ledger_digest := ledger_digest (da_ledger d), cp_snapshot_bytes := encoded,
       cp_ledger := ledger_records (da_ledger d)\<rparr>"

definition checkpoint_write :: "checkpoint \<Rightarrow> store \<Rightarrow> daemon_core \<Rightarrow> status \<times> daemon_core" where
  "checkpoint_write c s d =
     (case next_checkpoint (da_os d) of (io, os) \<Rightarrow>
        (case write_checkpoint c (ck_rotated io) (ck_replace io) (ck_meta io) s of (st, s) \<Rightarrow>
           (let d = d\<lparr>da_store := Some s, da_os := os\<rparr> in
            if \<not> status_ok st then (st, d)
            else (ok_status, d\<lparr>da_stats := (da_stats d)\<lparr>ds_checkpoints := ds_checkpoints (da_stats d) + 1\<rparr>\<rparr>))))"

definition maybe_checkpoint_locked :: "daemon_core \<Rightarrow> status \<times> daemon_core" where
  "maybe_checkpoint_locked d =
     (case da_store d of
        None \<Rightarrow> (ok_status, d)
      | Some s \<Rightarrow>
          if dc_checkpoint_every_records (da_config d) = 0 then (ok_status, d)
          else if so_appends s < unat (dc_checkpoint_every_records (da_config d)) then (ok_status, d)
          else if \<not> snapshot_valid (da_snapshot d) then (ok_status, d)
          else
            (case snapshot_encode (da_snapshot d) of
               Inl st \<Rightarrow> (st, d)
             | Inr encoded \<Rightarrow> checkpoint_write (checkpoint_of d s encoded) s d))"

section \<open>Recovery and composition\<close>

definition apply_recovered_record :: "store_payload \<Rightarrow> daemon_core \<Rightarrow> status \<times> daemon_core" where
  "apply_recovered_record p d =
     (case p of
        SP_RackBind b \<Rightarrow>
          if id_is_set (rb_rack b) \<and> rb_rack b \<noteq> rc_rack (dc_rack (da_config d))
          then (Status kOutOfRack
                  (''the store belongs to rack '' @ hex64 (rb_rack b) @ '' but this daemon is configured for '' @
                   hex64 (rc_rack (dc_rack (da_config d)))), d)
          else (ok_status, d)
      | SP_Config b \<Rightarrow>
          (ok_status,
           d\<lparr>da_config := (da_config d)\<lparr>dc_rack := (dc_rack (da_config d))
               \<lparr>rc_headroom_floor := cf_headroom_floor b,
                rc_max_paths_per_pair := unat (cf_max_paths_per_pair b),
                rc_max_path_hops := unat (cf_max_path_hops b)\<rparr>\<rparr>\<rparr>)
      | SP_Evidence e \<Rightarrow> (ok_status, d\<lparr>da_ledger := snd (ledger_insert e (da_ledger d))\<rparr>)
      | SP_Lifecycle b \<Rightarrow>
          (ok_status,
           d\<lparr>da_lifecycle := lr_state b,
             da_generation := (if lr_generation b > da_generation d then lr_generation b else da_generation d),
             da_epoch := (if lr_epoch b > da_epoch d then lr_epoch b else da_epoch d)\<rparr>)
      | SP_Generation g \<Rightarrow> (ok_status, d\<lparr>da_generation := g\<rparr>)
      | SP_Epoch b \<Rightarrow>
          (ok_status,
           d\<lparr>da_epoch := ep_epoch b, da_member_set_digest := ep_member_set_digest b,
             da_membership_initialized := True\<rparr>)
      | SP_Shutdown _ \<Rightarrow> (ok_status, d)
      | SP_Grant _ \<Rightarrow> (ok_status, d)
      | SP_GrantState _ \<Rightarrow> (ok_status, d)
      | SP_RequestOutcome _ \<Rightarrow> (ok_status, d))"

definition compose_request :: "topology_generation \<Rightarrow> daemon_core \<Rightarrow> compose_input" where
  "compose_request target d =
     \<lparr>ci_generation = target, ci_epoch = da_epoch d, ci_lifecycle = da_lifecycle d,
      ci_limits = dc_compose_limits (da_config d)\<rparr>"

text \<open>The end of \<^verbatim>\<open>compose_locked\<close>: the composed snapshot becomes the current one.\<close>

definition adopt_snapshot :: "snapshot \<Rightarrow> daemon_core \<Rightarrow> daemon_core" where
  "adopt_snapshot s d =
     d\<lparr>da_snapshot := s, da_generation := sd_generation (sn_data s),
       da_stats := (da_stats d)\<lparr>ds_composes := ds_composes (da_stats d) + 1\<rparr>\<rparr>"

definition compose_adopt :: "topology_generation \<Rightarrow> daemon_core \<Rightarrow> status \<times> daemon_core" where
  "compose_adopt target d =
     (case compose (da_ledger d) (dc_rack (da_config d)) (compose_request target d) of
        Inl st \<Rightarrow> (st, d)
      | Inr (s, _) \<Rightarrow> (ok_status, adopt_snapshot s d))"

definition compose_locked :: "topology_generation \<Rightarrow> daemon_core \<Rightarrow> status \<times> daemon_core" where
  "compose_locked target d =
     (if \<not> accepts_compose (da_lifecycle d)
      then (Status kLifecycleRefused ''a retired rack does not compose new state'', d)
      else
        (case compose (da_ledger d) (dc_rack (da_config d)) (compose_request target d) of
           Inl st \<Rightarrow> (st, d)
         | Inr (s, _) \<Rightarrow>
             (let members = sd_member_set_digest (sn_data s) in
              if \<not> da_membership_initialized d
              then (ok_status,
                    adopt_snapshot s (d\<lparr>da_membership_initialized := True, da_member_set_digest := members\<rparr>))
              else if members \<noteq> da_member_set_digest d then
                if da_epoch d = u64_max
                then (Status kResourceExhausted ''the rack epoch counter is exhausted'', d)
                else
                  (let d = d\<lparr>da_epoch := da_epoch d + 1, da_member_set_digest := members\<rparr> in
                   then_ok (append_locked (SP_Epoch \<lparr>ep_epoch = da_epoch d, ep_member_set_digest = members\<rparr>) d)
                     (compose_adopt target))
              else (ok_status, adopt_snapshot s d))))"

definition ensure_snapshot_locked :: "daemon_core \<Rightarrow> status \<times> daemon_core" where
  "ensure_snapshot_locked d =
     (if snapshot_valid (da_snapshot d) then (ok_status, d) else compose_locked (da_generation d) d)"

text \<open>The loop of \<^verbatim>\<open>start\<close> over the recovered records; grants and their states are set aside.\<close>

fun recover_records ::
  "store_record list \<Rightarrow> grant list \<Rightarrow> grant_state_record list \<Rightarrow> daemon_core \<Rightarrow>
   status \<times> grant list \<times> grant_state_record list \<times> daemon_core" where
  "recover_records [] gs sts d = (ok_status, gs, sts, d)"
| "recover_records (r # rs) gs sts d =
     (case sr_payload r of
        SP_Grant g \<Rightarrow> recover_records rs (gs @ [g]) sts d
      | SP_GrantState b \<Rightarrow> recover_records rs gs (sts @ [b]) d
      | SP_RequestOutcome b \<Rightarrow>
          recover_records rs gs sts
            (d\<lparr>da_grants := install_outcome (oc_request b)
                \<lparr>ro_code = oc_code b, ro_grant = oc_grant b, ro_fence = oc_fence b,
                 ro_incarnation = oc_incarnation b, ro_request_digest = oc_request_digest b,
                 ro_detail = oc_detail b\<rparr> (da_grants d)\<rparr>)
      | p \<Rightarrow>
          (case apply_recovered_record p d of (st, d) \<Rightarrow>
             if \<not> status_ok st then (st, gs, sts, d) else recover_records rs gs sts d))"

text \<open>The ledger and counters of a checkpoint.\<close>

definition recover_checkpoint :: "checkpoint \<Rightarrow> daemon_core \<Rightarrow> daemon_core" where
  "recover_checkpoint c d =
     (if \<not> cp_present c then d
      else
        d\<lparr>da_ledger := insert_all (cp_ledger c) (da_ledger d), da_generation := cp_generation c,
          da_epoch := cp_epoch c, da_lifecycle := cp_lifecycle c,
          da_member_set_digest := cp_member_set_digest c, da_membership_initialized := True\<rparr>)"

text \<open>What the operating system answers while the daemon starts, and the files it finds.\<close>

record start_io =
  si_files :: store_files
  si_open :: open_io
  si_incarnation :: "status option"
  si_bind :: "status option"

definition daemon_open :: "start_io \<Rightarrow> daemon_core \<Rightarrow> status \<times> grant list \<times> grant_state_record list \<times> daemon_core" where
  "daemon_open io d =
     (case store_open (dc_store_directory (da_config d))
             (default_store_options\<lparr>op_fsync_on_append := dc_fsync_on_append (da_config d)\<rparr>)
             (si_open io) (si_files io) of
        Inl st \<Rightarrow> (st, [], [], d)
      | Inr s \<Rightarrow>
          (let d = d\<lparr>da_store := Some s\<rparr>; bound = so_bound_rack s in
           if id_is_set bound \<and> bound \<noteq> rc_rack (dc_rack (da_config d))
           then (Status kOutOfRack
                   (''the store at '' @ dc_store_directory (da_config d) @ '' belongs to rack '' @ hex64 bound),
                 [], [], d)
           else
             (let d = d\<lparr>da_dirty_recovery := \<not> rr_fresh_store (so_report s) \<and> \<not> rr_clean_shutdown (so_report s)\<rparr>;
                  d = recover_checkpoint (so_checkpoint s) d
              in
              case recover_records (so_records s) [] [] d of (st, gs, sts, d) \<Rightarrow>
                if \<not> status_ok st then (st, gs, sts, d)
                else
                  (case next_incarnation (si_incarnation io) s of
                     (Inl st, s) \<Rightarrow> (st, gs, sts, d\<lparr>da_store := Some s\<rparr>)
                   | (Inr inc, s) \<Rightarrow>
                       (let d = d\<lparr>da_incarnation := inc\<rparr> in
                        case bind_rack (rc_rack (dc_rack (da_config d))) (si_bind io) s of (st, s) \<Rightarrow>
                          (let d = d\<lparr>da_store := Some s\<rparr> in
                           if \<not> status_ok st then (st, gs, sts, d)
                           else (ok_status, gs, sts,
                                 d\<lparr>da_stats := (da_stats d)\<lparr>ds_log_bytes := of_nat (so_log_bytes s),
                                     ds_log_records := of_nat (rr_records_replayed (so_report s))\<rparr>\<rparr>)))))))"

text \<open>The two loops over what was recovered, and the re-arming.\<close>

definition restore_grants ::
  "grant list \<Rightarrow> grant_state_record list \<Rightarrow> timestamp_ms \<Rightarrow> daemon_core \<Rightarrow> daemon_core" where
  "restore_grants gs sts now d =
     (let r = fold (\<lambda>g r. snd (install_recovered (da_snapshot d) g r)) gs (da_grants d);
          r = fold (\<lambda>b r. snd (apply_state (gr_id b) (gr_state b) (gr_reason b) r)) sts r
      in d\<lparr>da_grants := snd (revalidate (da_snapshot d) (da_incarnation d) now r)\<rparr>)"

definition start_lifecycle :: "daemon_core \<Rightarrow> lifecycle_state" where
  "start_lifecycle d =
     (if da_dirty_recovery d \<and> da_store d \<noteq> None then LifecycleState_kRecovering
      else if da_lifecycle d = LifecycleState_kRecovering then LifecycleState_kAssembling
      else da_lifecycle d)"

text \<open>Everything \<^verbatim>\<open>start\<close> does before it installs the recovered grants.\<close>

definition daemon_prepare ::
  "start_io \<Rightarrow> daemon_core \<Rightarrow> status \<times> grant list \<times> grant_state_record list \<times> daemon_core" where
  "daemon_prepare io d =
     (let d = d\<lparr>da_started := True\<rparr> in
      case (if dc_store_directory (da_config d) \<noteq> [] then daemon_open io d
            else (ok_status, [], [], d\<lparr>da_incarnation := 1\<rparr>)) of (st, gs, sts, d) \<Rightarrow>
        if \<not> status_ok st then (st, gs, sts, d)
        else
          (let d = d\<lparr>da_grants := set_incarnation (da_incarnation d) (da_grants d)\<rparr>;
               d = d\<lparr>da_lifecycle := start_lifecycle d\<rparr>
           in case compose_locked (da_generation d) d of (st, d) \<Rightarrow> (st, gs, sts, d)))"

definition daemon_start :: "start_io \<Rightarrow> timestamp_ms \<Rightarrow> daemon_core \<Rightarrow> status \<times> daemon_core" where
  "daemon_start io now d =
     (if da_started d then (ok_status, d)
      else
        (case daemon_prepare io d of (st, gs, sts, d) \<Rightarrow>
           if \<not> status_ok st then (st, d) else (ok_status, restore_grants gs sts now d)))"

definition daemon_stop ::
  "timestamp_ms \<Rightarrow> status option \<Rightarrow> status option \<Rightarrow> daemon_core \<Rightarrow> status \<times> daemon_core" where
  "daemon_stop now sync_io meta_io d =
     (if da_stopped d then (ok_status, d)
      else
        (let d = d\<lparr>da_stopped := True, da_grants := fence_all ''daemon stopped'' (da_grants d),
               da_stats := (da_stats d)\<lparr>ds_grants_fenced := ds_grants_fenced (da_stats d) + 1\<rparr>\<rparr>
         in
         case da_store d of
           None \<Rightarrow> (ok_status, d)
         | Some s \<Rightarrow>
             (case mark_clean_shutdown now sync_io meta_io s of (st, s) \<Rightarrow> (st, d\<lparr>da_store := Some s\<rparr>))))"

section \<open>Commands\<close>

text \<open>The append status is ignored: an expiry that could not be logged is still an expiry.\<close>

definition expire_due_locked :: "timestamp_ms \<Rightarrow> daemon_core \<Rightarrow> nat \<times> daemon_core" where
  "expire_due_locked now d =
     (case expire_due now (da_grants d) of (expired, r) \<Rightarrow>
        (length expired,
         fold (\<lambda>i d. snd (append_locked
             (SP_GrantState \<lparr>gr_id = i, gr_state = GrantState_kExpired,
                gr_reason = (case registry_find i (da_grants d) of Some g \<Rightarrow> g_reason g | None \<Rightarrow> ''expired'')\<rparr>) d))
           expired (d\<lparr>da_grants := r\<rparr>)))"

definition daemon_hello :: "hello_request \<Rightarrow> daemon_core \<Rightarrow> hello_response result" where
  "daemon_hello q d =
     (let response = \<lparr>hr_protocol_version = kProtocolVersion, hr_accepted = False, hr_rack = 0, hr_epoch = 0,
            hr_generation = 0, hr_incarnation = 0, hr_lifecycle = LifecycleState_kAssembling,
            hr_snapshot_digest = zero_digest, hr_detail = []\<rparr>
      in
      if hq_protocol_version q \<noteq> kProtocolVersion
      then Inr (response\<lparr>hr_detail := ''protocol version '' @ to_string_nat (unat (hq_protocol_version q)) @
             '' is not supported; this daemon speaks '' @ to_string_nat (unat kProtocolVersion)\<rparr>)
      else Inr (response\<lparr>hr_accepted := True, hr_rack := rc_rack (dc_rack (da_config d)), hr_epoch := da_epoch d,
             hr_generation := da_generation d, hr_incarnation := da_incarnation d, hr_lifecycle := da_lifecycle d,
             hr_snapshot_digest :=
               (if snapshot_valid (da_snapshot d) then sn_digest (da_snapshot d) else zero_digest),
             hr_detail := rc_name (dc_rack (da_config d))\<rparr>))"

definition ack_entry :: "evidence_record \<Rightarrow> insert_outcome \<Rightarrow> status_code \<Rightarrow> string \<Rightarrow> evidence_ack_entry" where
  "ack_entry r outcome code detail =
     \<lparr>ae_outcome = outcome_byte outcome, ae_code = code, ae_digest = evidence_digest r, ae_detail = detail\<rparr>"

text \<open>The rack a membership claim names, when it is another one.\<close>

definition foreign_rack :: "rack_id \<Rightarrow> evidence_record \<Rightarrow> rack_id option" where
  "foreign_rack rack r =
     (case er_payload r of PMember claim \<Rightarrow> if mc_rack claim \<noteq> rack then Some (mc_rack claim) else None | _ \<Rightarrow> None)"

text \<open>One turn of the loop over the batch.\<close>

definition submit_record :: "evidence_record \<Rightarrow> daemon_core \<Rightarrow> evidence_ack_entry \<times> daemon_core" where
  "submit_record r d =
     (let valid = validate_evidence r; rack = rc_rack (dc_rack (da_config d)) in
      if \<not> status_ok valid then (ack_entry r Outcome_kRefused (st_code valid) (st_detail valid), d)
      else
        (case foreign_rack rack r of
           Some other \<Rightarrow>
             (ack_entry r Outcome_kRefused kOutOfRack
                (''membership claim names rack '' @ hex64 other @ '', this daemon is authoritative for '' @ hex64 rack), d)
         | None \<Rightarrow>
             (case append_locked (SP_Evidence r) d of (appended, d) \<Rightarrow>
                if \<not> status_ok appended
                then (ack_entry r Outcome_kRefused (st_code appended)
                        (''the record could not be committed durably: '' @ st_detail appended), d)
                else
                  (case ledger_insert r (da_ledger d) of (report, l) \<Rightarrow>
                     (ack_entry r (ir_outcome report) (st_code (ir_status report)) (st_detail (ir_status report)),
                      d\<lparr>da_ledger := l\<rparr>)))))"

fun submit_records :: "evidence_record list \<Rightarrow> daemon_core \<Rightarrow> evidence_ack_entry list \<times> daemon_core" where
  "submit_records [] d = ([], d)"
| "submit_records (r # rs) d =
     (case submit_record r d of (e, d) \<Rightarrow> (case submit_records rs d of (es, d) \<Rightarrow> (e # es, d)))"

definition daemon_submit_evidence ::
  "submit_evidence_request \<Rightarrow> timestamp_ms \<Rightarrow> daemon_core \<Rightarrow> evidence_ack_response result \<times> daemon_core" where
  "daemon_submit_evidence q now d =
     (if da_lifecycle d = LifecycleState_kRetired
      then (fail kLifecycleRefused ''a retired rack accepts no new evidence'', d)
      else if length (sv_records q) > dc_max_records_per_batch (da_config d)
      then (fail kOversizeField ''evidence batch exceeds the configured daemon bound'', d)
      else
        (case submit_records (sv_records q) (snd (expire_due_locked now d)) of (es, d) \<Rightarrow>
           (let d = (if dc_auto_compose (da_config d) then snd (compose_locked (da_generation d) d) else d)
            in (Inr \<lparr>ar_entries = es\<rparr>, snd (maybe_checkpoint_locked d)))))"

definition daemon_compose ::
  "compose_command \<Rightarrow> daemon_core \<Rightarrow> compose_response result \<times> daemon_core" where
  "daemon_compose q d =
     (if da_lifecycle d = LifecycleState_kRetired
      then (fail kLifecycleRefused ''a retired rack does not compose'', d)
      else if cc_generation q < da_generation d
      then (fail kStaleGeneration
              (''requested generation '' @ to_string_u64 (cc_generation q) @
               '' is older than the current generation '' @ to_string_u64 (da_generation d)), d)
      else
        then_answer
          (if cc_generation q > da_generation d
           then then_ok (append_locked (SP_Generation (cc_generation q)) d)
                  (\<lambda>d. (ok_status, d\<lparr>da_generation := cc_generation q\<rparr>))
           else (ok_status, d))
          (\<lambda>d. case compose_locked (da_generation d) d of (composed, d) \<Rightarrow>
             if \<not> status_ok composed
             then (Inr \<lparr>cz_code = st_code composed, cz_generation = da_generation d, cz_epoch = da_epoch d,
                     cz_incarnation = da_incarnation d, cz_digest = zero_digest, cz_diagnostics = 0,
                     cz_detail = st_detail composed\<rparr>, d)
             else
               (let d = snd (maybe_checkpoint_locked d); s = da_snapshot d in
                (Inr \<lparr>cz_code = kOk, cz_generation = sd_generation (sn_data s), cz_epoch = sd_epoch (sn_data s),
                   cz_incarnation = da_incarnation d, cz_digest = sn_digest s,
                   cz_diagnostics = of_nat (length (sd_diagnostics (sn_data s))), cz_detail = []\<rparr>, d))))"

definition grant_to_response :: "grant \<Rightarrow> status_code \<Rightarrow> grant_response result" where
  "grant_to_response g code = Inr \<lparr>gn_code = code, gn_grant = summary_from g, gn_detail = g_reason g\<rparr>"

text \<open>The answer to a command the registry refused.\<close>

definition refusal_response :: "status \<Rightarrow> grant_response" where
  "refusal_response st = \<lparr>gn_code = st_code st, gn_grant = empty_grant_summary, gn_detail = st_detail st\<rparr>"

definition grant_request_of :: "acquire_request \<Rightarrow> daemon_core \<Rightarrow> grant_request" where
  "grant_request_of q d =
     \<lparr>q_request = aq_request q, q_principal = aq_principal q, q_scope = aq_scope q, q_mode = aq_mode q,
      q_capacity = aq_capacity q,
      q_ttl_ms = (if aq_ttl_ms q = 0 then dc_default_ttl_ms (da_config d) else aq_ttl_ms q)\<rparr>"

definition note_refused :: "daemon_core \<Rightarrow> daemon_core" where
  "note_refused d = d\<lparr>da_stats := (da_stats d)\<lparr>ds_grants_refused := ds_grants_refused (da_stats d) + 1\<rparr>\<rparr>"

definition outcome_record_of :: "request_id \<Rightarrow> grant \<Rightarrow> request_outcome_record" where
  "outcome_record_of q g =
     \<lparr>oc_request = q, oc_code = kOk, oc_grant = g_id g, oc_fence = g_fence g, oc_incarnation = g_incarnation g,
      oc_request_digest = grant_digest g, oc_detail = ''grant committed''\<rparr>"

definition take_back :: "grant \<Rightarrow> timestamp_ms \<Rightarrow> daemon_core \<Rightarrow> daemon_core" where
  "take_back g now d = d\<lparr>da_grants := snd (release (grant_token g) now (da_grants d))\<rparr>"

text \<open>The two durable records of a grant, and the answer.\<close>

definition commit_grant ::
  "request_id \<Rightarrow> grant \<Rightarrow> timestamp_ms \<Rightarrow> daemon_core \<Rightarrow> grant_response result \<times> daemon_core" where
  "commit_grant q g now d =
     (case append_locked (SP_Grant g) d of (appended, d) \<Rightarrow>
        if \<not> status_ok appended then (Inl appended, note_refused (take_back g now d))
        else
          (case append_locked (SP_RequestOutcome (outcome_record_of q g)) d of (remembered, d) \<Rightarrow>
             if \<not> status_ok remembered then (Inl remembered, take_back g now d)
             else
               (grant_to_response g kOk,
                snd (maybe_checkpoint_locked
                  (d\<lparr>da_stats := (da_stats d)\<lparr>ds_grants_issued := ds_grants_issued (da_stats d) + 1\<rparr>\<rparr>)))))"

definition daemon_acquire ::
  "acquire_request \<Rightarrow> timestamp_ms \<Rightarrow> daemon_core \<Rightarrow> grant_response result \<times> daemon_core" where
  "daemon_acquire q now d =
     then_answer (ensure_snapshot_locked (snd (expire_due_locked now d))) (\<lambda>d.
       case acquire (da_snapshot d) (grant_request_of q d) (da_incarnation d) now
              (lifecycle_accepts_new_authority (da_lifecycle d)) (da_grants d) of
         (Inl st, r) \<Rightarrow> (Inr (refusal_response st), note_refused (d\<lparr>da_grants := r\<rparr>))
       | (Inr g, r) \<Rightarrow> commit_grant (aq_request q) g now (d\<lparr>da_grants := r\<rparr>))"

definition daemon_renew ::
  "renew_request \<Rightarrow> timestamp_ms \<Rightarrow> daemon_core \<Rightarrow> grant_response result \<times> daemon_core" where
  "daemon_renew q now d =
     then_answer (ensure_snapshot_locked d) (\<lambda>d.
       case renew (da_snapshot d) (rn_token q)
              (if rn_ttl_ms q = 0 then dc_default_ttl_ms (da_config d) else rn_ttl_ms q) now (da_grants d) of
         (Inl st, r) \<Rightarrow> (Inr (refusal_response st), d\<lparr>da_grants := r\<rparr>)
       | (Inr g, r) \<Rightarrow>
           then_answer (append_locked (SP_Grant g) (d\<lparr>da_grants := r\<rparr>))
             (\<lambda>d. (grant_to_response g kOk, snd (maybe_checkpoint_locked d))))"

definition daemon_release ::
  "token_message \<Rightarrow> timestamp_ms \<Rightarrow> daemon_core \<Rightarrow> ack_response result \<times> daemon_core" where
  "daemon_release q now d =
     (case release (tm_token q) now (da_grants d) of (released, r) \<Rightarrow>
        (let d = d\<lparr>da_grants := r\<rparr> in
         if \<not> status_ok released then (Inr \<lparr>ak_code = st_code released, ak_detail = st_detail released\<rparr>, d)
         else
           then_answer (append_locked
               (SP_GrantState \<lparr>gr_id = t_grant (tm_token q), gr_state = GrantState_kReleased,
                  gr_reason = (case registry_find (t_grant (tm_token q)) r of
                     Some g \<Rightarrow> g_reason g | None \<Rightarrow> ''released'')\<rparr>) d)
             (\<lambda>d. (Inr \<lparr>ak_code = kOk, ak_detail = []\<rparr>, snd (maybe_checkpoint_locked d)))))"

definition daemon_validate ::
  "token_message \<Rightarrow> timestamp_ms \<Rightarrow> daemon_core \<Rightarrow> grant_response result \<times> daemon_core" where
  "daemon_validate q now d =
     then_answer (ensure_snapshot_locked d) (\<lambda>d.
       case validate (da_snapshot d) (tm_token q) now (da_grants d) of
         Inl st \<Rightarrow> (Inr (refusal_response st), d)
       | Inr g \<Rightarrow> (grant_to_response g kOk, d))"

definition daemon_lookup :: "lookup_request \<Rightarrow> daemon_core \<Rightarrow> lookup_response result" where
  "daemon_lookup q d =
     (case lookup_request (lu_request q) (da_grants d) of
        Inl st \<Rightarrow>
          Inr \<lparr>lv_code = kUnknown, lv_outcome_code = kOk, lv_grant = 0, lv_fence = 0, lv_incarnation = 0,
             lv_detail = st_detail st, lv_remembered = False\<rparr>
      | Inr x \<Rightarrow>
          Inr \<lparr>lv_code = kOk, lv_outcome_code = ro_code x, lv_grant = ro_grant x, lv_fence = ro_fence x,
             lv_incarnation = ro_incarnation x, lv_detail = ro_detail x, lv_remembered = True\<rparr>)"

definition diagnostic_entry_of :: "diagnostic \<Rightarrow> diagnostic_entry" where
  "diagnostic_entry_of g =
     \<lparr>dn_kind = dg_kind g, dn_subject_kind = dg_subject_kind g, dn_subject_id = dg_subject_id g, dn_source = dg_source g,
      dn_detail = dg_detail g\<rparr>"

definition daemon_query_state :: "daemon_core \<Rightarrow> state_response result \<times> daemon_core" where
  "daemon_query_state d =
     then_answer (ensure_snapshot_locked d) (\<lambda>d.
       let s = da_snapshot d; data = sn_data s; cap = sd_capacity data in
       (Inr \<lparr>sr_code = kOk, sr_rack = rc_rack (dc_rack (da_config d)), sr_generation = sd_generation data,
          sr_epoch = sd_epoch data, sr_incarnation = da_incarnation d, sr_lifecycle = da_lifecycle d,
          sr_snapshot_digest = sn_digest s, sr_evidence_digest = sd_evidence_digest data,
          sr_member_set_digest = sd_member_set_digest data,
          sr_capacity = \<lparr>cm_total = k_total cap, cm_unavailable = k_unavailable cap, cm_usable = k_usable cap,
            cm_obligated = k_obligated cap, cm_headroom_floor = k_headroom_floor cap,
            cm_uncommitted = k_uncommitted cap, cm_deficit = k_deficit cap,
            cm_committed_grants = rg_committed_total (da_grants d)\<rparr>,
          sr_devices = of_nat (length (sd_devices data)), sr_ports = of_nat (length (sd_ports data)),
          sr_links = of_nat (length (sd_links data)), sr_attachments = of_nat (length (sd_attachments data)),
          sr_paths = of_nat (length (sd_paths data)), sr_live_grants = of_nat (rg_live (da_grants d)),
          sr_recovering_grants = of_nat (rg_recovering (da_grants d)),
          sr_clean_shutdown = (case da_store d of None \<Rightarrow> False | Some st \<Rightarrow> rr_clean_shutdown (so_report st)),
          sr_recovered_from_dirty_shutdown = (case da_store d of None \<Rightarrow> False | Some st \<Rightarrow> da_dirty_recovery d),
          sr_total_diagnostics = of_nat (length (sd_diagnostics data)),
          sr_diagnostics =
            map diagnostic_entry_of (take (min (length (sd_diagnostics data)) kMaxStateDiagnostics) (sd_diagnostics data)),
          sr_detail = []\<rparr>, d))"

definition resource_entry_of :: "daemon_core \<Rightarrow> resource_state \<Rightarrow> resource_entry" where
  "resource_entry_of d st =
     (let free = available (da_snapshot d) (rs_ref st) (da_grants d) in
      \<lparr>re_ref = rs_ref st, re_eligibility = rs_eligibility st, re_availability = rs_availability st,
       re_capacity_known = rs_capacity_known st, re_capacity = rs_capacity st, re_obligated = rs_obligated st,
       re_committed = committed (rs_ref st) (da_grants d),
       re_available = (case free of Inr v \<Rightarrow> v | Inl _ \<Rightarrow> 0),
       re_available_known = (case free of Inr _ \<Rightarrow> True | Inl _ \<Rightarrow> False),
       re_available_code = (case free of Inr _ \<Rightarrow> kOk | Inl e \<Rightarrow> st_code e),
       re_maintenance = rs_maintenance st\<rparr>)"

fun resource_loop ::
  "daemon_core \<Rightarrow> u8 \<Rightarrow> nat \<Rightarrow> resource_state list \<Rightarrow> resource_entry list \<Rightarrow> resource_entry list \<times> bool" where
  "resource_loop d kind_filter limit [] out = (out, False)"
| "resource_loop d kind_filter limit (st # sts) out =
     (if kind_filter \<noteq> 0 \<and> rk_byte (ref_kind (rs_ref st)) \<noteq> kind_filter
      then resource_loop d kind_filter limit sts out
      else if length out \<ge> limit then (out, True)
      else resource_loop d kind_filter limit sts (out @ [resource_entry_of d st]))"

definition daemon_query_resources ::
  "resource_query \<Rightarrow> daemon_core \<Rightarrow> resources_response result \<times> daemon_core" where
  "daemon_query_resources q d =
     then_answer (ensure_snapshot_locked d) (\<lambda>d.
       case resource_loop d (rq_kind_filter q) (if rq_limit q = 0 then 256 else unat (rq_limit q))
              (sd_resources (sn_data (da_snapshot d))) [] of (entries, over) \<Rightarrow>
         (Inr \<lparr>lq_code = kOk, lq_entries = entries, lq_truncated = over, lq_detail = []\<rparr>, d))"

definition path_entry_of :: "path_record \<Rightarrow> path_entry" where
  "path_entry_of p =
     \<lparr>pt_id = pa_id p, pt_start_port = pa_start_port p, pt_end_port = pa_end_port p,
      pt_hops = of_nat (length (pa_links p)), pt_bottleneck = pa_bottleneck p,
      pt_bottleneck_known = pa_bottleneck_known p, pt_eligibility = pa_eligibility p\<rparr>"

definition daemon_query_paths :: "daemon_core \<Rightarrow> paths_response result \<times> daemon_core" where
  "daemon_query_paths d =
     then_answer (ensure_snapshot_locked d) (\<lambda>d.
       (Inr \<lparr>lq_code = kOk, lq_entries = map path_entry_of (sd_paths (sn_data (da_snapshot d))),
          lq_truncated = False, lq_detail = []\<rparr>, d))"

definition daemon_query_grants :: "daemon_core \<Rightarrow> grants_response result" where
  "daemon_query_grants d =
     Inr \<lparr>lq_code = kOk, lq_entries = map summary_from (registry_list (da_grants d)),
       lq_truncated = False, lq_detail = []\<rparr>"

text \<open>The branch of a transition into a state in which the rack composes and resumes its leases.\<close>

definition enter_active ::
  "lifecycle_state \<Rightarrow> timestamp_ms \<Rightarrow> daemon_core \<Rightarrow> status \<times> daemon_core" where
  "enter_active previous now d =
     then_ok (compose_locked (da_generation d) d) (\<lambda>d.
       let r = (if previous = LifecycleState_kRecovering
                then snd (revalidate (da_snapshot d) (da_incarnation d) now (da_grants d)) else da_grants d)
       in (ok_status, d\<lparr>da_grants := snd (resume_all (da_snapshot d) now r)\<rparr>))"

definition lifecycle_refusal :: "lifecycle_state \<Rightarrow> lifecycle_state \<Rightarrow> string" where
  "lifecycle_refusal src target =
     ''the rack cannot move from '' @ lifecycle_state_to_string src @ '' to '' @ lifecycle_state_to_string target"

text \<open>The state a transition leaves before its record is logged.\<close>

definition transition_effects ::
  "lifecycle_state \<Rightarrow> timestamp_ms \<Rightarrow> daemon_core \<Rightarrow> status \<times> daemon_core" where
  "transition_effects target now d =
     (let previous = da_lifecycle d;
          d = d\<lparr>da_lifecycle := target\<rparr>;
          d = (if target = LifecycleState_kMaintenance
               then d\<lparr>da_grants := suspend_all ''the rack entered a maintenance window'' (da_grants d)\<rparr> else d);
          d = (if target = LifecycleState_kRetired
               then d\<lparr>da_grants := fence_all ''the rack was retired'' (da_grants d)\<rparr> else d)
      in if target = LifecycleState_kActive \<or> target = LifecycleState_kDegraded
         then enter_active previous now d else (ok_status, d))"

text \<open>The status, the text of the out parameter \<^verbatim>\<open>detail\<close>, and the core.\<close>

definition transition_lifecycle_locked ::
  "lifecycle_state \<Rightarrow> timestamp_ms \<Rightarrow> daemon_core \<Rightarrow> status \<times> string \<times> daemon_core" where
  "transition_lifecycle_locked target now d =
     (let previous = da_lifecycle d in
      if \<not> lifecycle_transition_allowed previous target
      then (Status kInvalidLifecycleTransition (lifecycle_refusal previous target), lifecycle_refusal previous target, d)
      else
        (case then_ok (transition_effects target now d) (\<lambda>d.
                append_locked (SP_Lifecycle \<lparr>lr_state = target, lr_generation = da_generation d, lr_epoch = da_epoch d\<rparr>) d)
         of (st, d) \<Rightarrow>
           if \<not> status_ok st then (st, [], d)
           else (ok_status,
                 ''the rack moved from '' @ lifecycle_state_to_string previous @ '' to '' @
                   lifecycle_state_to_string target,
                 snd (maybe_checkpoint_locked d))))"

definition daemon_set_lifecycle ::
  "lifecycle_request \<Rightarrow> timestamp_ms \<Rightarrow> daemon_core \<Rightarrow> lifecycle_response result \<times> daemon_core" where
  "daemon_set_lifecycle q now d =
     (case transition_lifecycle_locked (ly_target q) now d of (st, detail, d) \<Rightarrow>
        (Inr \<lparr>lz_code = (if status_ok st then kOk else st_code st), lz_lifecycle = da_lifecycle d,
           lz_detail = detail\<rparr>, d))"

text \<open>The command is only reached with a store, and composing keeps it: the branch without one is dead.\<close>

definition daemon_checkpoint :: "daemon_core \<Rightarrow> ack_response result \<times> daemon_core" where
  "daemon_checkpoint d =
     (let refused = (\<lambda>st d. (Inr \<lparr>ak_code = st_code st, ak_detail = st_detail st\<rparr>, d)) in
      if da_store d = None
      then (Inr \<lparr>ak_code = kUnsupported, ak_detail = ''this daemon has no durable store''\<rparr>, d)
      else
        (case ensure_snapshot_locked d of (ready, d) \<Rightarrow>
           if \<not> status_ok ready then refused ready d
           else
             (case (da_store d, snapshot_encode (da_snapshot d)) of
                (_, Inl st) \<Rightarrow> refused st d
              | (None, Inr _) \<Rightarrow> refused (Status kUnsupported []) d
              | (Some s, Inr encoded) \<Rightarrow>
                  (let c = checkpoint_of d s encoded in
                   case checkpoint_write c s d of (written, d) \<Rightarrow>
                     if \<not> status_ok written then refused written d
                     else (Inr \<lparr>ak_code = kOk,
                             ak_detail = ''checkpoint written at log offset '' @ to_string_u64 (cp_wal_offset c)\<rparr>, d)))))"

text \<open>The counters of the socket layer are process wide and read, not kept, by the core.\<close>

record socket_counters =
  sk_bytes_sent :: u64
  sk_bytes_received :: u64
  sk_frames_sent :: u64
  sk_frames_received :: u64
  sk_frames_rejected :: u64

definition daemon_stats_command :: "u64 \<Rightarrow> socket_counters \<Rightarrow> daemon_core \<Rightarrow> stats_response result" where
  "daemon_stats_command uptime counters d =
     (let st = da_stats d in
      Inr \<lparr>sx_code = kOk, sx_uptime_ms = uptime, sx_evidence_records = of_nat (length (el_slots (da_ledger d))),
        sx_evidence_sources = of_nat (length (el_sources (da_ledger d))),
        sx_evidence_conflicts = el_conflicts (da_ledger d), sx_evidence_superseded = el_superseded (da_ledger d),
        sx_log_records = ds_log_records st, sx_log_bytes = ds_log_bytes st, sx_checkpoints = ds_checkpoints st,
        sx_requests_served = ds_requests_served st, sx_connections_accepted = ds_connections_accepted st,
        sx_connections_rejected = ds_connections_rejected st, sx_frames_rejected = sk_frames_rejected counters,
        sx_bytes_sent = sk_bytes_sent counters, sx_bytes_received = sk_bytes_received counters,
        sx_composes = ds_composes st, sx_grants_issued = ds_grants_issued st,
        sx_grants_refused = ds_grants_refused st, sx_grants_fenced = ds_grants_fenced st, sx_detail = []\<rparr>)"

definition note_connection_accepted :: "daemon_core \<Rightarrow> daemon_core" where
  "note_connection_accepted d =
     d\<lparr>da_stats := (da_stats d)\<lparr>ds_connections_accepted := ds_connections_accepted (da_stats d) + 1\<rparr>\<rparr>"

definition note_connection_rejected :: "daemon_core \<Rightarrow> daemon_core" where
  "note_connection_rejected d =
     d\<lparr>da_stats := (da_stats d)\<lparr>ds_connections_rejected := ds_connections_rejected (da_stats d) + 1\<rparr>\<rparr>"

definition note_frame_rejected :: "daemon_core \<Rightarrow> daemon_core" where
  "note_frame_rejected d =
     d\<lparr>da_stats := (da_stats d)\<lparr>ds_frames_rejected := ds_frames_rejected (da_stats d) + 1\<rparr>\<rparr>"

definition note_request_served :: "daemon_core \<Rightarrow> daemon_core" where
  "note_request_served d =
     d\<lparr>da_stats := (da_stats d)\<lparr>ds_requests_served := ds_requests_served (da_stats d) + 1\<rparr>\<rparr>"

end
