(* ===== verification/Rnf_Daemon_Props.thy ===== *)
theory Rnf_Daemon_Props
  imports Rnf_Daemon Rnf_Registry_History Rnf_Store_Files Rnf_Compose_Claims
begin

text \<open>
  What the commands of the daemon core leave alone, what they keep of the registry and what they promise
  about generation, epoch and lifecycle.
\<close>

section \<open>Steps that only touch the store\<close>

definition quiet :: "daemon_core \<Rightarrow> daemon_core \<Rightarrow> bool" where
  "quiet d d' \<longleftrightarrow>
     (\<exists>s st os. d' = d\<lparr>da_store := s, da_stats := st, da_os := os\<rparr> \<and> (s = None \<longleftrightarrow> da_store d = None))"

lemma quietD:
  assumes "quiet d d'"
  shows "da_config d' = da_config d" "da_ledger d' = da_ledger d" "da_grants d' = da_grants d"
    "da_snapshot d' = da_snapshot d" "da_lifecycle d' = da_lifecycle d" "da_generation d' = da_generation d"
    "da_epoch d' = da_epoch d" "da_member_set_digest d' = da_member_set_digest d"
    "da_incarnation d' = da_incarnation d" "da_dirty_recovery d' = da_dirty_recovery d"
    "da_membership_initialized d' = da_membership_initialized d" "da_started d' = da_started d"
    "da_stopped d' = da_stopped d" "da_store d' = None \<longleftrightarrow> da_store d = None"
  using assms by (auto simp: quiet_def)

lemma quietI:
  assumes "da_config d' = da_config d" "da_ledger d' = da_ledger d" "da_grants d' = da_grants d"
    "da_snapshot d' = da_snapshot d" "da_lifecycle d' = da_lifecycle d" "da_generation d' = da_generation d"
    "da_epoch d' = da_epoch d" "da_member_set_digest d' = da_member_set_digest d"
    "da_incarnation d' = da_incarnation d" "da_dirty_recovery d' = da_dirty_recovery d"
    "da_membership_initialized d' = da_membership_initialized d" "da_started d' = da_started d"
    "da_stopped d' = da_stopped d" "da_store d' = None \<longleftrightarrow> da_store d = None"
  shows "quiet d (d' :: daemon_core)"
proof -
  have "d' = d\<lparr>da_store := da_store d', da_stats := da_stats d', da_os := da_os d'\<rparr>"
    by (rule daemon_core.equality) (simp_all add: assms)
  with assms(14) show ?thesis unfolding quiet_def by metis
qed

lemma quiet_refl [simp]: "quiet d d"
  by (simp add: quietI)

lemma quiet_trans: "quiet d d' \<Longrightarrow> quiet d' d'' \<Longrightarrow> quiet d d''"
  by (rule quietI) (simp_all add: quietD)

lemma append_typed_record: "store_append (typed_record p) io s \<noteq> None"
proof -
  have "known_record_type (payload_type p)" by (cases p) (simp_all add: known_record_type_def)
  then show ?thesis by (simp add: store_append_def typed_record_def encode_store_record_def Let_def)
qed

lemma append_quiet: "quiet d (snd (append_locked p d))"
  by (auto simp: append_locked_def Let_def intro!: quietI split: option.splits prod.splits)

lemma checkpoint_write_quiet: "da_store d = Some s \<Longrightarrow> quiet d (snd (checkpoint_write c s d))"
  by (auto simp: checkpoint_write_def Let_def intro!: quietI split: prod.splits)

lemma maybe_checkpoint_quiet: "quiet d (snd (maybe_checkpoint_locked d))"
  by (auto simp: maybe_checkpoint_locked_def checkpoint_write_quiet split: option.splits sum.splits)

lemma expire_due_quiet:
  "quiet (d\<lparr>da_grants := snd (expire_due now (da_grants d))\<rparr>) (snd (expire_due_locked now d))"
proof -
  have "quiet d (fold (\<lambda>i d. snd (append_locked (f i d) d)) xs d)" for f and xs :: "grant_id list" and d
    by (induction xs arbitrary: d) (auto intro: quiet_trans append_quiet)
  then show ?thesis by (auto simp: expire_due_locked_def split: prod.splits)
qed

section \<open>Composition inside the daemon\<close>

text \<open>The epoch is only stamped on the result, so composing again under the next epoch cannot fail.\<close>

definition stamp_epoch :: "rack_epoch \<Rightarrow> snapshot \<Rightarrow> snapshot" where
  "stamp_epoch e s =
     (let data = (sn_data s)\<lparr>sd_epoch := e\<rparr> in \<lparr>sn_ptr = Some data, sn_digest = snapshot_digest data\<rparr>)"

lemma gather_epoch: "gather config (request\<lparr>ci_epoch := e\<rparr>) l = gather config request l"
  unfolding gather_def gather_record_def by simp

lemma compose_finish_epoch:
  "compose_finish config (request\<lparr>ci_epoch := e\<rparr>) l t devices ports links attachments ob cap found g =
     (case compose_finish config request l t devices ports links attachments ob cap found g of
        (s, st) \<Rightarrow> (stamp_epoch e s, st))"
  by (cases "compose_paths links found g")
    (simp add: compose_finish_def Let_def stamp_epoch_def sn_data_def compose_resources_def
      empty_snapshot_data_def)

lemma compose_epoch:
  "compose l config (request\<lparr>ci_epoch := e\<rparr>) =
     (case compose l config request of Inl st \<Rightarrow> Inl st | Inr (s, x) \<Rightarrow> Inr (stamp_epoch e s, x))"
  unfolding compose_def gather_epoch compose_finish_epoch
  by (auto simp: Let_def bound_check_def rnf_try_def split: prod.splits sum.splits)

lemma compose_Inl_not_ok:
  assumes "compose l config request = Inl e"
  shows "\<not> status_ok e"
proof -
  have "st_code e \<in> {kInvalidIdentity, kResourceExhausted, kOutOfRange}"
    using assms
    by (auto simp: compose_def Let_def split: prod.splits if_splits
        dest!: bound_check_Inl rnf_try_Inl obligation_loop_Inl compose_capacity_Inl compose_candidates_Inl)
  then show ?thesis by (auto simp: status_ok_def)
qed

definition next_epoch :: "daemon_core \<Rightarrow> rack_epoch \<Rightarrow> bool" where
  "next_epoch d e \<longleftrightarrow> e = da_epoch d \<or> da_epoch d \<noteq> u64_max \<and> e = da_epoch d + 1"

lemma next_epoch_le: "next_epoch d e \<Longrightarrow> da_epoch d \<le> e"
  using u64_less_succ [of "da_epoch d"] by (auto simp: next_epoch_def)

text \<open>
  The three outcomes of a composition: nothing happened, the epoch advanced in memory but could not be
  logged, or the composed snapshot was adopted. In the last case the epoch is the old one if the member
  set is the one the daemon knows, and the next one otherwise.
\<close>

lemma compose_locked_cases:
  assumes "compose_locked target d = (st, d')"
  obtains (refused) "\<not> status_ok st" "d' = d"
  | (not_logged) m where "\<not> status_ok st" "da_epoch d \<noteq> u64_max"
      "quiet (d\<lparr>da_epoch := da_epoch d + 1, da_member_set_digest := m\<rparr>) d'"
  | (adopted) s e x where "st = ok_status" "da_lifecycle d \<noteq> LifecycleState_kRetired" "next_epoch d e"
      "e = da_epoch d \<longleftrightarrow> (da_membership_initialized d \<longrightarrow> sd_member_set_digest (sn_data s) = da_member_set_digest d)"
      "compose (da_ledger d) (dc_rack (da_config d)) ((compose_request target d)\<lparr>ci_epoch := e\<rparr>) = Inr (s, x)"
      "quiet (d\<lparr>da_snapshot := s, da_generation := target, da_epoch := e,
         da_member_set_digest := sd_member_set_digest (sn_data s), da_membership_initialized := True\<rparr>) d'"
proof (cases "compose (da_ledger d) (dc_rack (da_config d)) (compose_request target d)")
  case (Inl failure)
  then have "\<not> status_ok failure" using compose_Inl_not_ok by blast
  with Inl assms refused show thesis by (auto simp: compose_locked_def split: if_splits)
next
  case (Inr p)
  obtain s x where sx: "p = (s, x)" by fastforce
  note c = Inr [unfolded sx]
  have gen: "sd_generation (sn_data s) = target" using compose_composed [OF c] by (fastforce simp: composed_def compose_request_def)
  show thesis
  proof (cases "da_lifecycle d = LifecycleState_kRetired")
    case True
    with assms refused show thesis by (auto simp: compose_locked_def accepts_compose_def)
  next
    case active: False
    have same: "(compose_request target d)\<lparr>ci_epoch := da_epoch d\<rparr> = compose_request target d"
      by (simp add: compose_request_def)
    show thesis
    proof (cases "da_membership_initialized d \<longrightarrow> sd_member_set_digest (sn_data s) = da_member_set_digest d")
      case True
      then have "st = ok_status" and "quiet (d\<lparr>da_snapshot := s, da_generation := target, da_epoch := da_epoch d,
          da_member_set_digest := sd_member_set_digest (sn_data s), da_membership_initialized := True\<rparr>) d'"
        using assms active c gen
        by (auto simp: compose_locked_def accepts_compose_def Let_def adopt_snapshot_def intro!: quietI split: if_splits)
      with adopted [of "da_epoch d" s x] True active c same show thesis by (simp add: next_epoch_def)
    next
      case False
      show thesis
      proof (cases "da_epoch d = u64_max")
        case True
        with False refused assms active c show thesis
          by (auto simp: compose_locked_def accepts_compose_def Let_def)
      next
        case room: False
        let ?m = "sd_member_set_digest (sn_data s)"
        let ?d = "d\<lparr>da_epoch := da_epoch d + 1, da_member_set_digest := ?m\<rparr>"
        obtain ast d1 where app: "append_locked (SP_Epoch \<lparr>ep_epoch = da_epoch d + 1, ep_member_set_digest = ?m\<rparr>) ?d = (ast, d1)"
          by fastforce
        then have q: "quiet ?d d1" using append_quiet [of ?d] by (metis snd_conv)
        have run: "(st, d') = then_ok (ast, d1) (compose_adopt target)"
          using assms active c False room app by (simp add: compose_locked_def accepts_compose_def Let_def)
        show thesis
        proof (cases "status_ok ast")
          case False
          with run not_logged [of ?m] room q show thesis by (simp add: then_ok_def)
        next
          case True
          let ?s = "stamp_epoch (da_epoch d + 1) s"
          have req: "compose_request target d1 = (compose_request target d)\<lparr>ci_epoch := da_epoch d + 1\<rparr>"
            using quietD [OF q] by (simp add: compose_request_def)
          have again: "compose (da_ledger d) (dc_rack (da_config d)) ((compose_request target d)\<lparr>ci_epoch := da_epoch d + 1\<rparr>) =
              Inr (?s, x)" by (simp add: compose_epoch c)
          have s: "sd_generation (sn_data ?s) = target" "sd_member_set_digest (sn_data ?s) = ?m"
            using gen by (simp_all add: stamp_epoch_def sn_data_def Let_def)
          have "compose (da_ledger d1) (dc_rack (da_config d1)) (compose_request target d1) = Inr (?s, x)"
            using again quietD [OF q] by (simp add: req)
          with run True have "st = ok_status" "d' = adopt_snapshot ?s d1"
            by (simp_all add: then_ok_def compose_adopt_def)
          moreover have "quiet (d\<lparr>da_snapshot := ?s, da_generation := target, da_epoch := da_epoch d + 1,
              da_member_set_digest := ?m, da_membership_initialized := True\<rparr>) (adopt_snapshot ?s d1)"
            using False by (intro quietI) (simp_all add: adopt_snapshot_def quietD [OF q] s)
          ultimately show thesis
            using adopted [of "da_epoch d + 1" ?s x] again active room False s u64_less_succ [OF room]
            by (auto simp: next_epoch_def)
        qed
      qed
    qed
  qed
qed

section \<open>The commands as steps\<close>

text \<open>One label per command that can change the core.\<close>

datatype daemon_op =
    Do_submit submit_evidence_request timestamp_ms
  | Do_compose compose_command
  | Do_acquire acquire_request timestamp_ms
  | Do_renew renew_request timestamp_ms
  | Do_release token_message timestamp_ms
  | Do_validate token_message timestamp_ms
  | Do_query_state
  | Do_query_resources resource_query
  | Do_query_paths
  | Do_lifecycle lifecycle_request timestamp_ms
  | Do_checkpoint
  | Do_expire timestamp_ms
  | Do_stop timestamp_ms "status option" "status option"

fun daemon_apply :: "daemon_op \<Rightarrow> daemon_core \<Rightarrow> daemon_core" where
  "daemon_apply (Do_submit q now) d = snd (daemon_submit_evidence q now d)"
| "daemon_apply (Do_compose q) d = snd (daemon_compose q d)"
| "daemon_apply (Do_acquire q now) d = snd (daemon_acquire q now d)"
| "daemon_apply (Do_renew q now) d = snd (daemon_renew q now d)"
| "daemon_apply (Do_release q now) d = snd (daemon_release q now d)"
| "daemon_apply (Do_validate q now) d = snd (daemon_validate q now d)"
| "daemon_apply Do_query_state d = snd (daemon_query_state d)"
| "daemon_apply (Do_query_resources q) d = snd (daemon_query_resources q d)"
| "daemon_apply Do_query_paths d = snd (daemon_query_paths d)"
| "daemon_apply (Do_lifecycle q now) d = snd (daemon_set_lifecycle q now d)"
| "daemon_apply Do_checkpoint d = snd (daemon_checkpoint d)"
| "daemon_apply (Do_expire now) d = snd (expire_due_locked now d)"
| "daemon_apply (Do_stop now sync_io meta_io) d = snd (daemon_stop now sync_io meta_io d)"

text \<open>The current snapshot is of this rack, and not ahead of the core's epoch and generation.\<close>

definition snapshot_fits :: "daemon_core \<Rightarrow> bool" where
  "snapshot_fits d \<longleftrightarrow>
     snapshot_valid (da_snapshot d) \<longrightarrow>
       sd_rack (sn_data (da_snapshot d)) = rc_rack (dc_rack (da_config d)) \<and>
       sd_epoch (sn_data (da_snapshot d)) \<le> da_epoch d \<and>
       sd_generation (sn_data (da_snapshot d)) \<le> da_generation d"

text \<open>What every command keeps, whatever the disk answers.\<close>

definition advance :: "daemon_core \<Rightarrow> daemon_core \<Rightarrow> bool" where
  "advance d d' \<longleftrightarrow>
     da_config d' = da_config d \<and> da_incarnation d' = da_incarnation d \<and>
     da_generation d \<le> da_generation d' \<and> da_epoch d \<le> da_epoch d' \<and>
     (da_lifecycle d = LifecycleState_kRetired \<longrightarrow> da_lifecycle d' = LifecycleState_kRetired) \<and>
     (da_store d' = None \<longleftrightarrow> da_store d = None) \<and>
     (snapshot_valid (da_snapshot d) \<longrightarrow> snapshot_valid (da_snapshot d')) \<and>
     (rg_incarnation (da_grants d) = da_incarnation d \<longrightarrow> rg_incarnation (da_grants d') = da_incarnation d') \<and>
     (ledger_ok (da_ledger d) \<longrightarrow> ledger_ok (da_ledger d')) \<and>
     (snapshot_fits d \<longrightarrow> snapshot_fits d')"

lemma advance_refl [simp]: "advance d d"
  by (simp add: advance_def)

lemma advance_trans: "advance d d' \<Longrightarrow> advance d' d'' \<Longrightarrow> advance d d''"
  unfolding advance_def by (metis order_trans)

lemma quiet_advance: "quiet d d' \<Longrightarrow> advance d d'"
  by (simp add: advance_def snapshot_fits_def quietD)

lemma advance_stats [simp]: "advance d (d\<lparr>da_stats := st\<rparr>)"
  by (simp add: advance_def snapshot_fits_def)

lemma advance_grants:
  "rg_incarnation r = rg_incarnation (da_grants d) \<or> rg_incarnation r = da_incarnation d \<Longrightarrow>
     advance d (d\<lparr>da_grants := r\<rparr>)"
  by (auto simp: advance_def snapshot_fits_def)

lemma compose_valid: "compose l config request = Inr (s, x) \<Longrightarrow> snapshot_valid s"
  by (auto elim: compose_composed simp: snapshot_valid_def)

lemma compose_stamps:
  assumes "compose l config request = Inr (s, x)"
  shows "sd_rack (sn_data s) = rc_rack config" "sd_generation (sn_data s) = ci_generation request"
    "sd_epoch (sn_data s) = ci_epoch request" "sd_lifecycle (sn_data s) = ci_lifecycle request"
proof -
  obtain buckets where c: "composed config request l (sn_data s) buckets" using compose_composed [OF assms] by blast
  show "sd_rack (sn_data s) = rc_rack config" "sd_generation (sn_data s) = ci_generation request"
    "sd_epoch (sn_data s) = ci_epoch request" "sd_lifecycle (sn_data s) = ci_lifecycle request"
    using c unfolding composed_def Let_def by blast+
qed

lemma compose_locked_advance: "advance d (snd (compose_locked (da_generation d) d))"
proof -
  obtain st d' where c: "compose_locked (da_generation d) d = (st, d')" by fastforce
  then show ?thesis
  proof (cases rule: compose_locked_cases)
    case refused
    then show ?thesis by (simp add: c)
  next
    case (not_logged m)
    have "advance d (d\<lparr>da_epoch := da_epoch d + 1, da_member_set_digest := m\<rparr>)"
      using u64_less_succ [OF not_logged(2)] by (auto simp: advance_def snapshot_fits_def less_imp_le)
    then show ?thesis using quiet_advance [OF not_logged(3)] c by (auto intro: advance_trans)
  next
    case (adopted s e x)
    have "advance d (d\<lparr>da_snapshot := s, da_generation := da_generation d, da_epoch := e,
         da_member_set_digest := sd_member_set_digest (sn_data s), da_membership_initialized := True\<rparr>)"
      using next_epoch_le [OF adopted(3)] compose_valid [OF adopted(5)] compose_stamps [OF adopted(5)]
      by (simp add: advance_def snapshot_fits_def compose_request_def)
    then show ?thesis using quiet_advance [OF adopted(6)] c by (auto intro: advance_trans)
  qed
qed

lemma ensure_snapshot_advance: "advance d (snd (ensure_snapshot_locked d))"
  by (simp add: ensure_snapshot_locked_def compose_locked_advance)

lemma append_advance: "advance d (snd (append_locked p d))"
  by (rule quiet_advance [OF append_quiet])

lemma maybe_checkpoint_advance: "advance d (snd (maybe_checkpoint_locked d))"
  by (rule quiet_advance [OF maybe_checkpoint_quiet])

lemma then_answer_advance:
  assumes "advance d (snd p)" "\<And>d'. snd p = d' \<Longrightarrow> advance d' (snd (k d'))"
  shows "advance d (snd (then_answer p k))"
  using assms by (auto simp: then_answer_def intro: advance_trans split: prod.splits)

lemma then_ok_advance:
  assumes "advance d (snd p)" "\<And>d'. snd p = d' \<Longrightarrow> advance d' (snd (k d'))"
  shows "advance d (snd (then_ok p k))"
  using assms by (auto simp: then_ok_def intro: advance_trans split: prod.splits)

lemma for_grants_incarnation:
  "(\<And>i g r. rg_incarnation (f i g r) = rg_incarnation r) \<Longrightarrow> rg_incarnation (for_grants f r) = rg_incarnation r"
  unfolding for_grants_def by (rule fold_field) (simp split: option.splits)

lemma registry_incarnation [simp]:
  "rg_incarnation (snd (acquire s q inc now allow r)) = rg_incarnation r"
  "rg_incarnation (snd (renew s token ttl now r)) = rg_incarnation r"
  "rg_incarnation (snd (release token now r)) = rg_incarnation r"
  "rg_incarnation (fence_all reason r) = rg_incarnation r"
  "rg_incarnation (suspend_all reason r) = rg_incarnation r"
  "rg_incarnation (snd (expire_due now r)) = rg_incarnation r"
  "rg_incarnation (snd (resume_all s now r)) = rg_incarnation r"
  "rg_incarnation (snd (revalidate s inc now r)) = inc"
proof -
  have issue: "rg_incarnation (snd (issue s q inc now e p r)) = rg_incarnation r" for e p r
    by (simp add: issue_def Let_def remember_def split: option.splits)
  have "rg_incarnation (snd (acquire_new s q inc now allow r)) = rg_incarnation r"
    by (simp add: acquire_new_def issue refuse_def remember_def Let_def split: sum.splits option.splits)
  then show "rg_incarnation (snd (acquire s q inc now allow r)) = rg_incarnation r"
    by (simp add: acquire_def split: option.splits)
  show "rg_incarnation (snd (renew s token ttl now r)) = rg_incarnation r"
    by (simp add: renew_def Let_def split: sum.splits option.splits)
  show "rg_incarnation (snd (release token now r)) = rg_incarnation r"
    by (simp add: release_def split: option.splits)
  show "rg_incarnation (fence_all reason r) = rg_incarnation r" "rg_incarnation (suspend_all reason r) = rg_incarnation r"
    unfolding fence_all_def suspend_all_def by (rule for_grants_incarnation, simp)+
  show "rg_incarnation (snd (expire_due now r)) = rg_incarnation r"
    unfolding expire_due_def
    by (rule trans [OF fold_field [where f = "\<lambda>p. rg_incarnation (snd p)"]]) (auto split: option.splits)
  show "rg_incarnation (snd (resume_all s now r)) = rg_incarnation r"
    unfolding resume_all_def
    by (rule trans [OF fold_field [where f = "\<lambda>p. rg_incarnation (snd p)"]]) (auto simp: Let_def split: option.splits)
  show "rg_incarnation (snd (revalidate s inc now r)) = inc"
    unfolding revalidate_def Let_def
    by (rule trans [OF fold_field [where f = "\<lambda>p. rg_incarnation (snd p)"]]) (auto split: option.splits prod.splits)
qed

section \<open>What each command keeps\<close>

lemma compose_locked_same:
  "da_grants (snd (compose_locked target d)) = da_grants d" "da_ledger (snd (compose_locked target d)) = da_ledger d"
  "da_lifecycle (snd (compose_locked target d)) = da_lifecycle d"
  "da_config (snd (compose_locked target d)) = da_config d"
  "da_incarnation (snd (compose_locked target d)) = da_incarnation d"
  "da_started (snd (compose_locked target d)) = da_started d"
  "da_stopped (snd (compose_locked target d)) = da_stopped d"
  "da_dirty_recovery (snd (compose_locked target d)) = da_dirty_recovery d"
proof -
  obtain st d' where c: "compose_locked target d = (st, d')" by fastforce
  then have "da_grants d' = da_grants d \<and> da_ledger d' = da_ledger d \<and> da_lifecycle d' = da_lifecycle d \<and>
    da_config d' = da_config d \<and> da_incarnation d' = da_incarnation d \<and> da_started d' = da_started d \<and>
    da_stopped d' = da_stopped d \<and> da_dirty_recovery d' = da_dirty_recovery d"
  proof (cases rule: compose_locked_cases)
    case (not_logged m)
    show ?thesis using quietD [OF not_logged(3)] by simp
  next
    case (adopted s e x)
    show ?thesis using quietD [OF adopted(6)] by simp
  qed simp
  then show "da_grants (snd (compose_locked target d)) = da_grants d" "da_ledger (snd (compose_locked target d)) = da_ledger d"
    "da_lifecycle (snd (compose_locked target d)) = da_lifecycle d"
    "da_config (snd (compose_locked target d)) = da_config d"
    "da_incarnation (snd (compose_locked target d)) = da_incarnation d"
    "da_started (snd (compose_locked target d)) = da_started d"
    "da_stopped (snd (compose_locked target d)) = da_stopped d"
    "da_dirty_recovery (snd (compose_locked target d)) = da_dirty_recovery d" by (simp_all add: c)
qed

lemma ensure_snapshot_same:
  "da_grants (snd (ensure_snapshot_locked d)) = da_grants d" "da_lifecycle (snd (ensure_snapshot_locked d)) = da_lifecycle d"
  "da_config (snd (ensure_snapshot_locked d)) = da_config d"
  "da_incarnation (snd (ensure_snapshot_locked d)) = da_incarnation d"
  "da_ledger (snd (ensure_snapshot_locked d)) = da_ledger d"
  by (simp_all add: ensure_snapshot_locked_def compose_locked_same)

lemma submit_record_quiet:
  obtains l where "quiet (d\<lparr>da_ledger := l\<rparr>) (snd (submit_record r d))" "l = da_ledger d \<or> l = snd (ledger_insert r (da_ledger d))"
proof (cases "\<not> status_ok (validate_evidence r) \<or> foreign_rack (rc_rack (dc_rack (da_config d))) r \<noteq> None \<or>
    \<not> status_ok (fst (append_locked (SP_Evidence r) d))")
  case True
  then have "quiet d (snd (submit_record r d))"
    using append_quiet [of d "SP_Evidence r"]
    by (auto simp: submit_record_def Let_def split: option.splits prod.splits)
  then show thesis using that [of "da_ledger d"] by simp
next
  case False
  obtain st d1 where a: "append_locked (SP_Evidence r) d = (st, d1)" by fastforce
  then have q: "quiet d d1" using append_quiet [of d "SP_Evidence r"] by simp
  have "snd (submit_record r d) = d1\<lparr>da_ledger := snd (ledger_insert r (da_ledger d))\<rparr>"
    using False quietD(2) [OF q] by (auto simp: submit_record_def Let_def a split: prod.splits)
  moreover have "quiet (d\<lparr>da_ledger := l\<rparr>) (d1\<lparr>da_ledger := l\<rparr>)" for l
    by (intro quietI) (simp_all add: quietD [OF q])
  ultimately show thesis using that by metis
qed

lemma submit_records_quiet:
  "\<exists>l. quiet (d\<lparr>da_ledger := l\<rparr>) (snd (submit_records rs d)) \<and> (ledger_ok (da_ledger d) \<longrightarrow> ledger_ok l)"
proof (induction rs arbitrary: d)
  case Nil
  show ?case by (rule exI [of _ "da_ledger d"]) simp
next
  case (Cons r rs)
  obtain l where l: "quiet (d\<lparr>da_ledger := l\<rparr>) (snd (submit_record r d))"
    "l = da_ledger d \<or> l = snd (ledger_insert r (da_ledger d))" by (rule submit_record_quiet)
  let ?d = "snd (submit_record r d)"
  obtain m where m: "quiet (?d\<lparr>da_ledger := m\<rparr>) (snd (submit_records rs ?d))" "ledger_ok (da_ledger ?d) \<longrightarrow> ledger_ok m"
    using Cons.IH [of ?d] by blast
  have "snd (submit_records (r # rs) d) = snd (submit_records rs ?d)" by (simp split: prod.splits)
  moreover have "quiet (d\<lparr>da_ledger := m\<rparr>) (?d\<lparr>da_ledger := m\<rparr>)"
    by (intro quietI) (use quietD [OF l(1)] in simp_all)
  moreover have "ledger_ok (da_ledger d) \<longrightarrow> ledger_ok (da_ledger ?d)"
    using l(2) quietD(2) [OF l(1)] by (auto simp: ledger_ok_insert)
  ultimately show ?case using m quiet_trans [of "d\<lparr>da_ledger := m\<rparr>"] by (intro exI [of _ m]) simp
qed

lemma submit_records_advance: "advance d (snd (submit_records rs d))"
proof -
  obtain l where "quiet (d\<lparr>da_ledger := l\<rparr>) (snd (submit_records rs d))" "ledger_ok (da_ledger d) \<longrightarrow> ledger_ok l"
    using submit_records_quiet [of d rs] by blast
  moreover from this(2) have "advance d (d\<lparr>da_ledger := l\<rparr>)" by (simp add: advance_def snapshot_fits_def)
  ultimately show ?thesis by (auto intro: advance_trans quiet_advance)
qed

lemma submit_records_grants: "da_grants (snd (submit_records rs d)) = da_grants d"
  using submit_records_quiet [of d rs] by (auto dest: quietD(3))

lemma expire_due_advance: "advance d (snd (expire_due_locked now d))"
proof -
  have "advance d (d\<lparr>da_grants := snd (expire_due now (da_grants d))\<rparr>)" by (rule advance_grants) simp
  then show ?thesis using quiet_advance [OF expire_due_quiet] by (rule advance_trans)
qed

section \<open>Commands as sequences of registry operations\<close>

definition settled :: "registry \<Rightarrow> bool" where
  "settled r \<longleftrightarrow> (\<forall>i g. omap_get (rg_grants r) i = Some g \<longrightarrow> g_state g \<noteq> GrantState_kRecovering)"

lemma settledD: "settled r \<Longrightarrow> omap_get (rg_grants r) i = Some g \<Longrightarrow> g_state g \<noteq> GrantState_kRecovering"
  unfolding settled_def by blast

lemma settled_put:
  "settled r \<Longrightarrow> rg_grants r' = omap_put i g (rg_grants r) \<Longrightarrow> g_state g \<noteq> GrantState_kRecovering \<Longrightarrow> settled r'"
  by (auto simp: settled_def omap_get_put)

lemma settled_map:
  assumes "settled r" "\<And>i. omap_get (rg_grants r') i = map_option h (omap_get (rg_grants r) i)"
    "\<And>g. g_state g \<noteq> GrantState_kRecovering \<Longrightarrow> g_state (h g) \<noteq> GrantState_kRecovering"
  shows "settled r'"
  unfolding settled_def
proof (intro allI impI)
  fix i g
  assume "omap_get (rg_grants r') i = Some g"
  then obtain g0 where "omap_get (rg_grants r) i = Some g0" "g = h g0" using assms(2) [of i] by auto
  with settledD [OF assms(1)] assms(3) show "g_state g \<noteq> GrantState_kRecovering" by blast
qed

lemma settled_cong: "settled r \<Longrightarrow> rg_grants r' = rg_grants r \<Longrightarrow> settled r'"
  by (simp add: settled_def)

text \<open>Nothing is left to re-arm in a settled registry.\<close>

lemma settled_guard:
  assumes "registry_inv S r" "settled r" "s \<in> S"
  shows "op_guard S (Op_revalidate s inc now) r"
proof -
  have ok: "omap_ok (rg_grants r)" using assms(1) by (simp add: registry_inv_def registry_ok_def ids_ok_def)
  have none: "g_state g \<noteq> GrantState_kRecovering" if "(i, g) \<in> set (rg_grants r)" for i g
    using that ok settledD [OF assms(2)] by (simp add: omap_get_iff)
  have "rg_recovering r = 0"
    using assms(1) none by (auto simp: registry_inv_def registry_ok_def counts_ok_def omap_sum_def)
  then show ?thesis
    using none assms(3) unat_u64_lt [of "rg_next_fence r"] by (fastforce simp: rearm_indexed_def list_all_iff)
qed

lemma settled_acquire:
  assumes "settled r"
  shows "settled (snd (acquire s q inc now allow r))"
proof -
  have "settled (snd (acquire_new s q inc now allow r))"
  proof (cases "acquire_new s q inc now allow r")
    case (Pair res r')
    show ?thesis
    proof (cases res)
      case (Inl st)
      then show ?thesis
        using Pair acquire_new_Inl [of s q inc now allow r st r'] assms
        by (auto simp: remember_def intro: settled_cong)
    next
      case (Inr g)
      then obtain expanded pool deadline where
        "g = issued s q inc now deadline expanded pool (rg_next_fence r + 1)"
        "r' = remember q (granted_outcome g) (enter s g (r\<lparr>rg_next_fence := rg_next_fence r + 1\<rparr>))"
        using Pair by (auto simp: acquire_new_Inr_iff)
      then show ?thesis using Pair by (auto intro!: settled_put [OF assms] simp: remember_def enter_def)
    qed
  qed
  then show ?thesis using assms by (simp add: acquire_def split: option.splits)
qed

lemma settled_revalidate:
  assumes "registry_inv S r" "op_guard S (Op_revalidate s inc now) r"
  shows "settled (snd (revalidate s inc now r))"
  unfolding settled_def
proof (intro allI impI)
  fix i g'
  assume g': "omap_get (rg_grants (snd (revalidate s inc now r))) i = Some g'"
  then obtain g where "revalidated s inc now (rg_next_fence r) g g'"
    using revalidate_facts(2) [OF assms(1), of s now inc i] assms(2) by (auto simp: option_rel_Some2)
  then show "g_state g' \<noteq> GrantState_kRecovering"
    by (auto simp: revalidated_def fenced_as_def rearmed_as_def split: if_splits option.splits)
qed

lemma settled_apply:
  assumes inv: "registry_inv S r" and guard: "op_guard S op r" and calm: "settled r"
    and op: "\<And>s g. op \<noteq> Op_install_recovered s g"
  shows "settled (op_apply op r)"
proof (cases op)
  case (Op_acquire s q inc now allow)
  then show ?thesis using settled_acquire [OF calm] by simp
next
  case (Op_renew s token ttl now)
  then show ?thesis
    using calm by (auto simp: renew_def Let_def dest: settledD [OF calm] intro!: settled_put [OF calm] split: option.splits sum.splits)
next
  case (Op_release token now)
  then show ?thesis using calm by (auto simp: release_def intro!: settled_put [OF calm] split: option.splits)
next
  case (Op_fence_all reason)
  then show ?thesis using settled_map [OF calm fence_all_facts(2) [OF inv], of reason] by (simp add: fenced_as_def)
next
  case (Op_fence_device s d reason)
  then show ?thesis using settled_map [OF calm fence_device_facts(2) [OF inv], of s d reason] by (simp add: fenced_as_def)
next
  case (Op_expire_due now)
  then show ?thesis using settled_map [OF calm expire_due_facts(2) [OF inv], of now] by (simp add: expired_as_def)
next
  case (Op_suspend_all reason)
  then show ?thesis using settled_map [OF calm suspend_all_facts(2) [OF inv], of reason] by simp
next
  case (Op_resume_all s now)
  then show ?thesis
    using settled_map [OF calm resume_all_facts(2) [OF inv], of s now] by (simp add: resumed_as_def fenced_as_def)
next
  case (Op_revalidate s inc now)
  then show ?thesis using settled_revalidate [OF inv, of s inc now] guard by simp
next
  case (Op_install_outcome q x)
  then show ?thesis using calm by (simp add: install_outcome_def settled_def)
next
  case (Op_apply_state i st reason)
  then show ?thesis
    using calm by (auto simp: apply_state_def intro!: settled_put [OF calm] split: option.splits)
next
  case (Op_set_incarnation inc)
  then show ?thesis using calm by (simp add: set_incarnation_def settled_def)
next
  case Op_prune
  then show ?thesis using calm prune_noop [of r] inv by (simp add: registry_inv_def)
qed (use op in blast)

definition worked :: "snapshot set \<Rightarrow> registry \<Rightarrow> registry \<Rightarrow> bool" where
  "worked S r r' \<longleftrightarrow> (\<exists>ops. run (registry_step S) r ops r' \<and> (\<forall>s g. Op_install_recovered s g \<notin> set ops))"

lemma worked_refl [simp]: "worked S r r"
  unfolding worked_def by (rule exI [of _ "[]"]) simp

lemma worked_trans: "worked S r r' \<Longrightarrow> worked S r' r'' \<Longrightarrow> worked S r r''"
  unfolding worked_def by (metis Un_iff run_append set_append)

lemma worked_op: "op_guard S op r \<Longrightarrow> (\<And>s g. op \<noteq> Op_install_recovered s g) \<Longrightarrow> worked S r (op_apply op r)"
  unfolding worked_def by (rule exI [of _ "[op]"]) (auto intro!: run.intros registry_step.intros)

lemma worked_keeps:
  assumes "worked S r r'" "registry_inv S r" "settled r"
  shows "registry_inv S r' \<and> settled r'"
proof -
  obtain ops where ops: "run (registry_step S) r ops r'" "\<forall>s g. Op_install_recovered s g \<notin> set ops"
    using assms(1) by (auto simp: worked_def)
  then show ?thesis
    using assms(2,3)
  proof (induction rule: run.induct)
    case (run_cons s l t ls u)
    then have "registry_inv S t" "settled t"
      using registry_inv_apply [of S s l] settled_apply [of S s l] by (auto simp: registry_step_iff)
    with run_cons show ?case by simp
  qed simp
qed

lemmas worked_ops =
  worked_op [of S "Op_renew s token ttl now" r for S s token ttl now r, simplified]
  worked_op [of S "Op_release token now" r for S token now r, simplified]
  worked_op [of S "Op_fence_all reason" r for S reason r, simplified]
  worked_op [of S "Op_expire_due now" r for S now r, simplified]
  worked_op [of S "Op_suspend_all reason" r for S reason r, simplified]
  worked_op [of S "Op_resume_all s now" r for S s now r, simplified]

section \<open>Every command\<close>

text \<open>
  What a command does to the core: the common part, and the registry operations it amounts to when
  its snapshot is one of \<open>S\<close> and the fence counter has room.
\<close>

definition ready :: "snapshot set \<Rightarrow> daemon_core \<Rightarrow> bool" where
  "ready S d \<longleftrightarrow> registry_inv S (da_grants d) \<and> settled (da_grants d) \<and> rg_next_fence (da_grants d) \<noteq> u64_max"

definition performs :: "snapshot set \<Rightarrow> daemon_core \<Rightarrow> daemon_core \<Rightarrow> bool" where
  "performs S d d' \<longleftrightarrow> advance d d' \<and> (ready S d \<longrightarrow> da_snapshot d' \<in> S \<longrightarrow> worked S (da_grants d) (da_grants d'))"

lemma performsI:
  "advance d d' \<Longrightarrow> (ready S d \<Longrightarrow> da_snapshot d' \<in> S \<Longrightarrow> worked S (da_grants d) (da_grants d')) \<Longrightarrow> performs S d d'"
  by (simp add: performs_def)

lemma performs_same: "advance d d' \<Longrightarrow> da_grants d' = da_grants d \<Longrightarrow> performs S d d'"
  by (simp add: performs_def)

lemma then_answer_snd: "snd (then_answer p k) = (if status_ok (fst p) then snd (k (snd p)) else snd p)"
  by (simp add: then_answer_def split: prod.splits)

lemma then_ok_snd: "snd (then_ok p k) = (if status_ok (fst p) then snd (k (snd p)) else snd p)"
  by (simp add: then_ok_def split: prod.splits)

lemma performs_expire: "performs S d (snd (expire_due_locked now d))"
  using quietD(3) [OF expire_due_quiet, of now d]
  by (intro performsI expire_due_advance) (simp add: worked_ops)

lemma performs_submit: "performs S d (snd (daemon_submit_evidence q now d))"
proof (cases "da_lifecycle d = LifecycleState_kRetired \<or> length (sv_records q) > dc_max_records_per_batch (da_config d)")
  case True
  then show ?thesis by (auto simp: daemon_submit_evidence_def performs_same)
next
  case False
  let ?e = "snd (expire_due_locked now d)"
  let ?s = "snd (submit_records (sv_records q) ?e)"
  let ?c = "if dc_auto_compose (da_config ?s) then snd (compose_locked (da_generation ?s) ?s) else ?s"
  have eq: "snd (daemon_submit_evidence q now d) = snd (maybe_checkpoint_locked ?c)"
    using False by (simp add: daemon_submit_evidence_def Let_def split: prod.splits)
  have "advance d ?s" using expire_due_advance submit_records_advance by (rule advance_trans)
  moreover have "advance ?s ?c" by (simp add: compose_locked_advance)
  ultimately have "advance d (snd (maybe_checkpoint_locked ?c))"
    using maybe_checkpoint_advance advance_trans by blast
  moreover have "da_grants (snd (maybe_checkpoint_locked ?c)) = snd (expire_due now (da_grants d))"
    using quietD(3) [OF maybe_checkpoint_quiet, of ?c] quietD(3) [OF expire_due_quiet, of now d]
    by (simp add: compose_locked_same submit_records_grants)
  ultimately show ?thesis unfolding eq by (intro performsI) (simp_all add: worked_ops)
qed

lemma performs_compose: "performs S d (snd (daemon_compose q d))"
proof -
  define p where "p = (if cc_generation q > da_generation d
           then then_ok (append_locked (SP_Generation (cc_generation q)) d) (\<lambda>d. (ok_status, d\<lparr>da_generation := cc_generation q\<rparr>))
           else (ok_status, d))"
  have qa: "quiet d (snd (append_locked (SP_Generation (cc_generation q)) d))" by (rule append_quiet)
  have "advance d (d'\<lparr>da_generation := cc_generation q\<rparr>)" if "quiet d d'" "da_generation d < cc_generation q" for d'
    using quiet_advance [OF that(1)] quietD(4,6) [OF that(1)] that(2) by (auto simp: advance_def snapshot_fits_def)
  with qa quiet_advance [OF qa] have p: "advance d (snd p)" "da_grants (snd p) = da_grants d"
    by (auto simp: p_def then_ok_snd quietD(3))
  let ?c = "snd (compose_locked (da_generation (snd p)) (snd p))"
  have c: "advance (snd p) ?c" "da_grants ?c = da_grants d"
    using p(2) by (simp_all add: compose_locked_advance compose_locked_same)
  have m: "advance ?c (snd (maybe_checkpoint_locked ?c))" "da_grants (snd (maybe_checkpoint_locked ?c)) = da_grants ?c"
    using maybe_checkpoint_advance quietD(3) [OF maybe_checkpoint_quiet] by blast+
  have "snd (daemon_compose q d) \<in> {d, snd p, ?c, snd (maybe_checkpoint_locked ?c)}"
    by (auto simp: daemon_compose_def p_def [symmetric] then_answer_snd Let_def split: prod.splits)
  then show ?thesis using p c m by (auto intro!: performs_same intro: advance_trans)
qed

lemma take_back_advance: "advance d (take_back g now d)"
  unfolding take_back_def by (rule advance_grants) simp

lemma performs_commit:
  "advance d (snd (commit_grant q g now d))"
  "da_snapshot (snd (commit_grant q g now d)) = da_snapshot d"
  "da_grants (snd (commit_grant q g now d)) \<in> {da_grants d, snd (release (grant_token g) now (da_grants d))}"
proof -
  let ?a = "append_locked (SP_Grant g) d"
  let ?b = "append_locked (SP_RequestOutcome (outcome_record_of q g)) (snd ?a)"
  let ?i = "(snd ?b)\<lparr>da_stats := (da_stats (snd ?b))\<lparr>ds_grants_issued := ds_grants_issued (da_stats (snd ?b)) + 1\<rparr>\<rparr>"
  have q: "quiet d (snd ?a)" "quiet d (snd ?b)" using append_quiet quiet_trans by blast+
  have "quiet (snd ?b) ?i" by (rule quietI) simp_all
  with q(2) have "quiet d ?i" by (rule quiet_trans)
  then have i: "quiet d (snd (maybe_checkpoint_locked ?i))" using maybe_checkpoint_quiet by (rule quiet_trans)
  have eq: "snd (commit_grant q g now d) =
      (if \<not> status_ok (fst ?a) then note_refused (take_back g now (snd ?a))
       else if \<not> status_ok (fst ?b) then take_back g now (snd ?b) else snd (maybe_checkpoint_locked ?i))"
    by (simp add: commit_grant_def split: prod.splits)
  have undone: "advance d (take_back g now (snd ?a))" "advance d (take_back g now (snd ?b))"
    using q quiet_advance take_back_advance advance_trans by blast+
  then have "advance d (note_refused (take_back g now (snd ?a)))"
    unfolding note_refused_def using advance_stats advance_trans by blast
  with undone show "advance d (snd (commit_grant q g now d))" using quiet_advance [OF i] by (simp add: eq)
  show "da_snapshot (snd (commit_grant q g now d)) = da_snapshot d"
    using quietD(4) [OF q(1)] quietD(4) [OF q(2)] quietD(4) [OF i] by (simp add: eq note_refused_def take_back_def)
  show "da_grants (snd (commit_grant q g now d)) \<in> {da_grants d, snd (release (grant_token g) now (da_grants d))}"
    using quietD(3) [OF q(1)] quietD(3) [OF q(2)] quietD(3) [OF i] by (simp add: eq note_refused_def take_back_def)
qed

text \<open>The state in which an acquire asks the registry, and what it makes of the answer.\<close>

definition acquire_core :: "timestamp_ms \<Rightarrow> daemon_core \<Rightarrow> daemon_core" where
  "acquire_core now d = snd (ensure_snapshot_locked (snd (expire_due_locked now d)))"

definition acquire_answer :: "acquire_request \<Rightarrow> timestamp_ms \<Rightarrow> daemon_core \<Rightarrow> grant result \<times> registry" where
  "acquire_answer q now e = acquire (da_snapshot e) (grant_request_of q e) (da_incarnation e) now
     (lifecycle_accepts_new_authority (da_lifecycle e)) (da_grants e)"

lemma acquire_core_facts:
  "advance d (acquire_core now d)" "da_grants (acquire_core now d) = snd (expire_due now (da_grants d))"
  using expire_due_advance [of d now] ensure_snapshot_advance [of "snd (expire_due_locked now d)"] advance_trans
    quietD(3) [OF expire_due_quiet, of now d] ensure_snapshot_same(1) [of "snd (expire_due_locked now d)"]
  by (auto simp: acquire_core_def)

lemma daemon_acquire_cases:
  obtains (not_ready) "daemon_acquire q now d = (Inl (fst (ensure_snapshot_locked (snd (expire_due_locked now d)))), acquire_core now d)"
    "\<not> status_ok (fst (ensure_snapshot_locked (snd (expire_due_locked now d))))"
  | (refused) st r where "acquire_answer q now (acquire_core now d) = (Inl st, r)"
      "daemon_acquire q now d = (Inr (refusal_response st), note_refused ((acquire_core now d)\<lparr>da_grants := r\<rparr>))"
  | (granted) g r where "acquire_answer q now (acquire_core now d) = (Inr g, r)"
      "daemon_acquire q now d = commit_grant (aq_request q) g now ((acquire_core now d)\<lparr>da_grants := r\<rparr>)"
proof -
  obtain st e where e: "ensure_snapshot_locked (snd (expire_due_locked now d)) = (st, e)" by fastforce
  then have core: "acquire_core now d = e" by (simp add: acquire_core_def)
  obtain res r where a: "acquire_answer q now e = (res, r)" by fastforce
  show thesis
  proof (cases "status_ok st")
    case True
    then have d: "daemon_acquire q now d =
        (case acquire_answer q now e of (Inl st, r) \<Rightarrow> (Inr (refusal_response st), note_refused (e\<lparr>da_grants := r\<rparr>))
         | (Inr g, r) \<Rightarrow> commit_grant (aq_request q) g now (e\<lparr>da_grants := r\<rparr>))"
      by (simp add: daemon_acquire_def then_answer_def e acquire_answer_def)
    show thesis by (cases res) (use refused granted a core d in \<open>simp_all\<close>)
  next
    case False
    then show thesis using not_ready by (simp add: daemon_acquire_def then_answer_def e core)
  qed
qed

lemma acquire_worked:
  assumes "ready S d" "da_snapshot (acquire_core now d) \<in> S" "acquire_answer q now (acquire_core now d) = (res, r)"
  shows "worked S (da_grants d) r"
proof -
  let ?e = "acquire_core now d"
  have "worked S (da_grants ?e) (snd (acquire_answer q now ?e))"
    using worked_op [of S "Op_acquire (da_snapshot ?e) (grant_request_of q ?e) (da_incarnation ?e) now
        (lifecycle_accepts_new_authority (da_lifecycle ?e))" "da_grants ?e"] assms(1,2)
    by (simp add: acquire_answer_def ready_def acquire_core_facts(2) pair_loop_next_fence)
  moreover have "worked S (da_grants d) (da_grants ?e)" by (simp add: acquire_core_facts(2) worked_ops)
  ultimately show ?thesis using worked_trans assms(3) by auto
qed

lemma acquire_answer_advance:
  assumes "acquire_answer q now (acquire_core now d) = (res, r)"
  shows "advance d ((acquire_core now d)\<lparr>da_grants := r\<rparr>)"
proof -
  have "r = snd (acquire_answer q now (acquire_core now d))" using assms by simp
  then have "rg_incarnation r = rg_incarnation (da_grants (acquire_core now d))" by (simp add: acquire_answer_def)
  then show ?thesis using advance_trans [OF acquire_core_facts(1) advance_grants] by simp
qed

lemma performs_acquire: "performs S d (snd (daemon_acquire q now d))"
proof (cases rule: daemon_acquire_cases [of q now d])
  case not_ready
  then show ?thesis using acquire_core_facts [where d = d and now = now] by (intro performsI) (simp_all add: worked_ops)
next
  case (refused st r)
  have "advance d (note_refused ((acquire_core now d)\<lparr>da_grants := r\<rparr>))"
    unfolding note_refused_def using acquire_answer_advance [OF refused(1)] advance_stats by (rule advance_trans)
  then show ?thesis using acquire_worked [OF _ _ refused(1)] refused(2) by (intro performsI) (simp_all add: note_refused_def)
next
  case (granted g r)
  let ?r = "(acquire_core now d)\<lparr>da_grants := r\<rparr>"
  note c = performs_commit [where d = ?r and q = "aq_request q" and g = g and now = now]
  show ?thesis
  proof (rule performsI)
    show "advance d (snd (daemon_acquire q now d))"
      using acquire_answer_advance [OF granted(1)] c(1) granted(2) by (metis advance_trans)
    assume "ready S d" "da_snapshot (snd (daemon_acquire q now d)) \<in> S"
    then have "worked S (da_grants d) r" using acquire_worked [OF _ _ granted(1)] c(2) granted(2) by simp
    moreover have "worked S r (da_grants (snd (daemon_acquire q now d)))" using c(3) granted(2) by (auto simp: worked_ops)
    ultimately show "worked S (da_grants d) (da_grants (snd (daemon_acquire q now d)))" by (rule worked_trans)
  qed
qed

lemma performs_renew: "performs S d (snd (daemon_renew q now d))"
proof -
  obtain st e where e: "ensure_snapshot_locked d = (st, e)" by fastforce
  then have adv: "advance d e" and g: "da_grants e = da_grants d"
    using ensure_snapshot_advance [of d] ensure_snapshot_same(1) [of d] by simp_all
  let ?ttl = "if rn_ttl_ms q = 0 then dc_default_ttl_ms (da_config e) else rn_ttl_ms q"
  obtain res r where r: "renew (da_snapshot e) (rn_token q) ?ttl now (da_grants e) = (res, r)" by fastforce
  let ?r = "e\<lparr>da_grants := r\<rparr>"
  have r2: "r = snd (renew (da_snapshot e) (rn_token q) ?ttl now (da_grants e))" by (simp add: r)
  have w: "worked S (da_grants d) r" unfolding r2 g by (rule worked_ops)
  have "advance e ?r" by (rule advance_grants) (unfold r2, simp)
  with adv have adv': "advance d ?r" by (rule advance_trans)
  let ?a = "snd (append_locked (SP_Grant (projr res)) ?r)"
  have a: "advance d ?a" "da_grants ?a = r" using advance_trans [OF adv' append_advance] quietD(3) [OF append_quiet] by simp_all
  have m: "advance d (snd (maybe_checkpoint_locked ?a))" "da_grants (snd (maybe_checkpoint_locked ?a)) = r"
    using advance_trans [OF a(1) maybe_checkpoint_advance] quietD(3) [OF maybe_checkpoint_quiet] a(2) by simp_all
  have "snd (daemon_renew q now d) \<in> {e, ?r, ?a, snd (maybe_checkpoint_locked ?a)}"
    using r by (cases res) (auto simp: daemon_renew_def e then_answer_snd)
  then show ?thesis using adv adv' a m g w by (auto intro!: performsI)
qed

lemma performs_release: "performs S d (snd (daemon_release q now d))"
proof -
  obtain st r where r: "release (tm_token q) now (da_grants d) = (st, r)" by fastforce
  let ?r = "d\<lparr>da_grants := r\<rparr>"
  have r2: "r = snd (release (tm_token q) now (da_grants d))" by (simp add: r)
  have w: "worked S (da_grants d) r" unfolding r2 by (rule worked_ops)
  have adv: "advance d ?r" by (rule advance_grants) (unfold r2, simp)
  have a: "advance d (snd (append_locked p ?r))" "da_grants (snd (append_locked p ?r)) = r" for p
    using advance_trans [OF adv append_advance] quietD(3) [OF append_quiet] by simp_all
  have m: "advance d (snd (maybe_checkpoint_locked (snd (append_locked p ?r))))"
    "da_grants (snd (maybe_checkpoint_locked (snd (append_locked p ?r)))) = r" for p
    using advance_trans [OF a(1) maybe_checkpoint_advance] quietD(3) [OF maybe_checkpoint_quiet] a(2) by simp_all
  have "\<exists>p. snd (daemon_release q now d) \<in>
      {?r, snd (append_locked p ?r), snd (maybe_checkpoint_locked (snd (append_locked p ?r)))}"
    by (auto simp: daemon_release_def r then_answer_snd Let_def)
  then show ?thesis using adv a m w by (auto intro!: performsI)
qed

text \<open>The commands that only look, once there is a snapshot to look at.\<close>

lemma performs_ensure: "performs S d (snd (ensure_snapshot_locked d))"
  by (rule performs_same) (simp_all add: ensure_snapshot_advance ensure_snapshot_same)

lemma query_core:
  "snd (daemon_validate q now d) = snd (ensure_snapshot_locked d)"
  "snd (daemon_query_state d) = snd (ensure_snapshot_locked d)"
  "snd (daemon_query_resources rq d) = snd (ensure_snapshot_locked d)"
  "snd (daemon_query_paths d) = snd (ensure_snapshot_locked d)"
  by (simp_all add: daemon_validate_def daemon_query_state_def daemon_query_resources_def daemon_query_paths_def
      then_answer_snd Let_def split: sum.splits prod.splits)

lemma performs_quiet:
  assumes "performs S d d'" "quiet d' d''"
  shows "performs S d d''"
  using assms(1) advance_trans [OF _ quiet_advance [OF assms(2)]] quietD(3,4) [OF assms(2)]
  by (auto simp: performs_def)

lemma performs_checkpoint: "performs S d (snd (daemon_checkpoint d))"
proof -
  obtain st e where e: "ensure_snapshot_locked d = (st, e)" by fastforce
  then have adv: "advance d e" "da_grants e = da_grants d"
    using ensure_snapshot_advance [of d] ensure_snapshot_same(1) [of d] by simp_all
  have "snd (daemon_checkpoint d) = d \<or> snd (daemon_checkpoint d) = e \<or>
      (\<exists>c s. da_store e = Some s \<and> snd (daemon_checkpoint d) = snd (checkpoint_write c s e))"
    by (auto simp: daemon_checkpoint_def e Let_def split: option.splits sum.splits prod.splits) (metis snd_conv)+
  moreover have "performs S d (snd (checkpoint_write c s e))" if "da_store e = Some s" for c s
    using performs_quiet [OF performs_same [OF adv] checkpoint_write_quiet [OF that]] .
  ultimately show ?thesis using performs_same [OF adv] performs_same [of d d] by auto
qed

lemma performs_stop: "performs S d (snd (daemon_stop now sync_io meta_io d))"
proof (cases "da_stopped d")
  case False
  have "advance d (snd (daemon_stop now sync_io meta_io d))"
    using False by (auto simp: daemon_stop_def advance_def snapshot_fits_def Let_def split: option.splits prod.splits)
  moreover have "da_grants (snd (daemon_stop now sync_io meta_io d)) = fence_all ''daemon stopped'' (da_grants d)"
    using False by (auto simp: daemon_stop_def Let_def split: option.splits prod.splits)
  ultimately show ?thesis by (intro performsI) (simp_all add: worked_ops)
qed (simp add: daemon_stop_def performs_same)

lemma transition_retired:
  "lifecycle_transition_allowed LifecycleState_kRetired target \<Longrightarrow> target = LifecycleState_kRetired"
  by (auto simp: lifecycle_transition_allowed_def split: if_splits)

lemma performs_enter_active:
  assumes "da_lifecycle d \<noteq> LifecycleState_kRetired"
  shows "performs S d (snd (enter_active previous now d))"
proof -
  obtain st c where c: "compose_locked (da_generation d) d = (st, c)" by fastforce
  then have adv: "advance d c" and same: "da_grants c = da_grants d"
    using compose_locked_advance [of d] compose_locked_same(1) [of "da_generation d" d] by simp_all
  define r where "r = (if previous = LifecycleState_kRecovering
      then snd (revalidate (da_snapshot c) (da_incarnation c) now (da_grants c)) else da_grants c)"
  let ?f = "c\<lparr>da_grants := snd (resume_all (da_snapshot c) now r)\<rparr>"
  have "rg_incarnation r = rg_incarnation (da_grants c) \<or> rg_incarnation r = da_incarnation c" by (simp add: r_def)
  then have "advance c ?f" by (intro advance_grants) simp
  with adv have adv': "advance d ?f" by (rule advance_trans)
  have "worked S (da_grants d) (snd (resume_all (da_snapshot c) now r))" if "ready S d" "da_snapshot c \<in> S"
  proof -
    have "worked S (da_grants c) r"
      using that same settled_guard [of S "da_grants c" "da_snapshot c" "da_incarnation c" now]
        worked_op [of S "Op_revalidate (da_snapshot c) (da_incarnation c) now" "da_grants c"]
      by (simp add: r_def ready_def)
    then show ?thesis using worked_trans worked_ops(6) same by metis
  qed
  moreover have "snd (enter_active previous now d) = (if status_ok st then ?f else c)"
    by (simp add: enter_active_def c then_ok_snd r_def Let_def)
  ultimately show ?thesis using adv adv' same by (intro performsI) (simp_all split: if_splits)
qed

lemma performs_transition:
  assumes "lifecycle_transition_allowed (da_lifecycle d) target"
  shows "performs S d (snd (transition_effects target now d))"
proof (cases "target = LifecycleState_kActive \<or> target = LifecycleState_kDegraded")
  case True
  let ?d = "d\<lparr>da_lifecycle := target\<rparr>"
  have eff: "snd (transition_effects target now d) = snd (enter_active (da_lifecycle d) now ?d)"
    using True by (auto simp: transition_effects_def Let_def)
  have live: "da_lifecycle d \<noteq> LifecycleState_kRetired" using assms True transition_retired [of target] by auto
  have "performs S ?d (snd (enter_active (da_lifecycle d) now ?d))"
    using True by (intro performs_enter_active) auto
  moreover have "advance d ?d" using live by (simp add: advance_def snapshot_fits_def)
  ultimately show ?thesis unfolding eff by (auto simp: performs_def ready_def intro: advance_trans)
next
  case False
  have adv: "advance d (d\<lparr>da_lifecycle := target, da_grants := r\<rparr>)" if "rg_incarnation r = rg_incarnation (da_grants d)" for r
    using that assms transition_retired [of target] by (auto simp: advance_def snapshot_fits_def)
  define r where "r = (if target = LifecycleState_kMaintenance
      then suspend_all ''the rack entered a maintenance window'' (da_grants d)
      else if target = LifecycleState_kRetired then fence_all ''the rack was retired'' (da_grants d) else da_grants d)"
  have "snd (transition_effects target now d) = d\<lparr>da_lifecycle := target, da_grants := r\<rparr>"
    using False by (simp add: transition_effects_def Let_def r_def)
  then show ?thesis using adv [of r] by (intro performsI) (simp_all add: r_def worked_ops)
qed

lemma performs_lifecycle: "performs S d (snd (daemon_set_lifecycle q now d))"
proof (cases "lifecycle_transition_allowed (da_lifecycle d) (ly_target q)")
  case True
  obtain tst t where t: "transition_effects (ly_target q) now d = (tst, t)" by fastforce
  let ?p = "SP_Lifecycle \<lparr>lr_state = ly_target q, lr_generation = da_generation t, lr_epoch = da_epoch t\<rparr>"
  obtain ast a where a: "append_locked ?p t = (ast, a)" by fastforce
  have "snd (daemon_set_lifecycle q now d) \<in> {t, a, snd (maybe_checkpoint_locked a)}"
    using True by (simp add: daemon_set_lifecycle_def transition_lifecycle_locked_def then_ok_def Let_def t a)
  moreover have "quiet t a" using append_quiet [of t ?p] by (simp add: a)
  moreover from this have "quiet t (snd (maybe_checkpoint_locked a))" using maybe_checkpoint_quiet by (rule quiet_trans)
  moreover have "performs S d t" using performs_transition [OF True, of S now] by (simp add: t)
  ultimately show ?thesis using performs_quiet [of S d t] by auto
qed (simp add: daemon_set_lifecycle_def transition_lifecycle_locked_def Let_def performs_same)

lemma performs_apply: "performs S d (daemon_apply op d)"
  by (cases op) (simp_all add: performs_submit performs_compose performs_acquire performs_renew performs_release
      query_core performs_ensure performs_lifecycle performs_checkpoint performs_expire performs_stop)

end
