(* ===== verification/Rnf_Daemon_Sample.thy ===== *)
theory Rnf_Daemon_Sample
  imports Rnf_Daemon_Props
begin

text \<open>
  A small run of the daemon: it starts without a store on a rack nobody has described yet, is moved to
  active and leases the rack itself, shared, to two principals. The run shows that the commands reach the
  states the theorems of the daemon are about.
\<close>

definition bare_config :: daemon_config where
  "bare_config = \<lparr>dc_rack = \<lparr>rc_rack = 1, rc_name = ''rack'', rc_headroom_floor = 0, rc_max_paths_per_pair = 8,
       rc_max_path_hops = 4, rc_strict_generation = False\<rparr>,
     dc_store_directory = [], dc_bind_host = ''127.0.0.1'', dc_port = 0, dc_max_connections = 32,
     dc_max_frame_payload = kDefaultMaxFramePayload, dc_default_ttl_ms = 60000, dc_auto_compose = False,
     dc_checkpoint_every_records = 4096, dc_evidence_limits = default_evidence_limits,
     dc_compose_limits = default_compose_limits, dc_authority_limits = default_authority_limits,
     dc_max_records_per_batch = 4096, dc_fsync_on_append = True\<rparr>"

definition bare_resource :: resource_state where
  "bare_resource = resource_of (ResourceRef ResourceKind_kRack 1) Eligibility_kEligible Availability_kUp True 0 0 False []"

definition bare_data :: "lifecycle_state \<Rightarrow> snapshot_data" where
  "bare_data state = empty_snapshot_data\<lparr>sd_rack := 1, sd_lifecycle := state,
     sd_evidence_digest := ledger_digest (ledger_new default_evidence_limits),
     sd_member_set_digest := member_set_digest [],
     sd_capacity := \<lparr>k_total = 0, k_unavailable = 0, k_usable = 0, k_obligated = 0, k_headroom_floor = 0,
       k_uncommitted = 0, k_deficit = 0\<rparr>,
     sd_resources := [bare_resource]\<rparr>"

definition bare_rack :: "lifecycle_state \<Rightarrow> snapshot" where
  "bare_rack state = \<lparr>sn_ptr = Some (bare_data state), sn_digest = snapshot_digest (bare_data state)\<rparr>"

lemma bare_compose:
  "\<exists>st. compose (ledger_new default_evidence_limits) (dc_rack bare_config)
     \<lparr>ci_generation = 0, ci_epoch = 0, ci_lifecycle = state, ci_limits = default_compose_limits\<rparr> =
   Inr (bare_rack state, st)"
  by (simp add: compose_def bare_config_def gather_def ledger_new_def empty_tables_def default_compose_limits_def
      bound_check_def compose_devices_def compose_ports_def compose_links_def compose_attachments_def
      compose_maintenance_def compose_capacity_def checked_sub_u64_def checked_add_u64_def closes_def
      compose_candidates_def adjacency_of_def access_ports_def exit_ports_def compose_finish_def compose_paths_def
      compose_resources_def diag_finish_def sort_unique_def bare_rack_def bare_data_def bare_resource_def Let_def empty_snapshot_data_def bucket_of_def
      rack_excluded_def)

lemma bare_rack_simps [simp]:
  "snapshot_valid (bare_rack state)" "sd_rack (sn_data (bare_rack state)) = 1"
  "sd_generation (sn_data (bare_rack state)) = 0" "sd_epoch (sn_data (bare_rack state)) = 0"
  "sd_lifecycle (sn_data (bare_rack state)) = state"
  "sd_member_set_digest (sn_data (bare_rack state)) = member_set_digest []"
  "sd_resources (sn_data (bare_rack state)) = [bare_resource]"
  "k_uncommitted (sd_capacity (sn_data (bare_rack state))) = 0" "snapshot_sized (bare_rack state)"
  by (simp_all add: bare_rack_def bare_data_def snapshot_valid_def sn_data_def empty_snapshot_data_def
      snapshot_sized_def bare_resource_def resource_of_def sort_unique_def)

section \<open>Start and activation\<close>

definition calm :: os_answers where "calm = \<lparr>os_appends = [], os_checkpoints = []\<rparr>"

definition bare_daemon :: "lifecycle_state \<Rightarrow> registry \<Rightarrow> daemon_stats \<Rightarrow> daemon_core" where
  "bare_daemon state r st =
     \<lparr>da_config = bare_config, da_ledger = ledger_new default_evidence_limits, da_grants = r, da_store = None,
      da_snapshot = bare_rack state, da_lifecycle = state, da_generation = 0, da_epoch = 0,
      da_member_set_digest = member_set_digest [], da_incarnation = 1, da_stats = st, da_dirty_recovery = False,
      da_membership_initialized = True, da_started = True, da_stopped = False, da_os = calm\<rparr>"

definition bare_reg :: registry where
  "bare_reg = set_incarnation 1 (registry_new default_authority_limits)"

lemma bare_config_simps [simp]:
  "dc_store_directory bare_config = []" "dc_evidence_limits bare_config = default_evidence_limits"
  "dc_authority_limits bare_config = default_authority_limits" "dc_compose_limits bare_config = default_compose_limits"
  "dc_default_ttl_ms bare_config = 60000" "rc_rack (dc_rack bare_config) = 1"
  by (simp_all add: bare_config_def)

lemma bare_boot:
  obtains st where "daemon_start io now (daemon_new bare_config calm) =
    (ok_status, bare_daemon LifecycleState_kAssembling bare_reg st)"
    "daemon_prepare io (daemon_new bare_config calm) =
    (ok_status, [], [], bare_daemon LifecycleState_kAssembling bare_reg st)"
proof -
  obtain x where c: "compose (ledger_new default_evidence_limits) (dc_rack bare_config)
     \<lparr>ci_generation = 0, ci_epoch = 0, ci_lifecycle = LifecycleState_kAssembling, ci_limits = default_compose_limits\<rparr> =
     Inr (bare_rack LifecycleState_kAssembling, x)" using bare_compose by blast
  have p: "daemon_prepare io (daemon_new bare_config calm) =
    (ok_status, [], [], bare_daemon LifecycleState_kAssembling bare_reg (empty_daemon_stats\<lparr>ds_composes := 1\<rparr>))"
    by (simp add: daemon_prepare_def daemon_new_def Let_def start_lifecycle_def compose_locked_def accepts_compose_def
        compose_request_def c adopt_snapshot_def bare_daemon_def bare_reg_def) (simp add: empty_daemon_stats_def)
  have "restore_grants [] [] now (bare_daemon LifecycleState_kAssembling bare_reg st) =
      bare_daemon LifecycleState_kAssembling bare_reg st" for st
    by (simp add: restore_grants_def bare_daemon_def bare_reg_def registry_new_def set_incarnation_def revalidate_def Let_def)
  then show thesis using that p by (simp add: daemon_start_def daemon_new_def [of bare_config] )
qed

lemma bare_activate:
  obtains st' where "daemon_apply (Do_lifecycle \<lparr>ly_target = LifecycleState_kActive\<rparr> now)
      (bare_daemon LifecycleState_kAssembling bare_reg st) = bare_daemon LifecycleState_kActive bare_reg st'"
proof -
  obtain x where c: "compose (ledger_new default_evidence_limits) (dc_rack bare_config)
     \<lparr>ci_generation = 0, ci_epoch = 0, ci_lifecycle = LifecycleState_kActive, ci_limits = default_compose_limits\<rparr> =
     Inr (bare_rack LifecycleState_kActive, x)" using bare_compose by blast
  have "daemon_apply (Do_lifecycle \<lparr>ly_target = LifecycleState_kActive\<rparr> now)
      (bare_daemon LifecycleState_kAssembling bare_reg st) =
      bare_daemon LifecycleState_kActive bare_reg (st\<lparr>ds_composes := ds_composes st + 1\<rparr>)"
    by (simp add: daemon_set_lifecycle_def transition_lifecycle_locked_def lifecycle_transition_allowed_def
        transition_effects_def enter_active_def compose_locked_def accepts_compose_def compose_request_def c then_ok_def
        adopt_snapshot_def append_locked_def maybe_checkpoint_locked_def resume_all_def bare_reg_def registry_new_def
        set_incarnation_def bare_daemon_def Let_def)
  with that show thesis by blast
qed

section \<open>Two shared leases\<close>

definition rack_ref :: resource_ref where "rack_ref = ResourceRef ResourceKind_kRack 1"

definition bare_acquire :: "u64 \<Rightarrow> acquire_request" where
  "bare_acquire n = \<lparr>aq_request = RequestId 0 n, aq_principal = n, aq_scope = rack_ref, aq_mode = GrantMode_kShared,
     aq_capacity = 0, aq_ttl_ms = 1000\<rparr>"

definition bare_request :: "u64 \<Rightarrow> grant_request" where
  "bare_request n = \<lparr>q_request = RequestId 0 n, q_principal = n, q_scope = rack_ref, q_mode = GrantMode_kShared,
     q_capacity = 0, q_ttl_ms = 1000\<rparr>"

definition bare_grant :: "u64 \<Rightarrow> grant" where
  "bare_grant n = issued (bare_rack LifecycleState_kActive) (bare_request n) 1 10 1010 [rack_ref] [rack_ref] n"

lemma bare_find: "find_resource (bare_rack state) rack_ref = Some bare_resource"
  by (simp add: find_resource_def bare_rack_def bare_data_def sn_data_def find_sorted_def lower_bound_def
      lower_bound_loop.simps bare_resource_def resource_of_def rack_ref_def snapshot_valid_def)

lemma bare_expand: "expand_scope (bare_rack state) rack_ref = Inr [rack_ref]"
  by (simp add: expand_scope_def rack_ref_def expand_rack_def sort_unique_def) (simp add: bare_resource_def resource_of_def)

lemma bare_pool: "capacity_pool_refs (bare_rack state) rack_ref = Inr [rack_ref]"
  unfolding capacity_pool_refs_def bare_find
  by (simp add: rack_ref_def bare_resource_def resource_of_def sort_unique_def kMaxPoolRefs_def Let_def)

lemma bare_base: "capacity_base (bare_rack state) rack_ref = Inr 0"
  unfolding capacity_base_def bare_find by (simp add: rack_ref_def bare_resource_def resource_of_def)

lemma bare_acquirable:
  assumes "rg_limits r = default_authority_limits" "rg_live r \<le> 3" "length (rg_outcomes r) \<le> 3"
    "rg_occupancy_entries r \<le> 3" "conflict_scan r GrantMode_kShared [rack_ref] = None" "committed rack_ref r = 0" "n \<noteq> 0"
  shows "acquirable (bare_rack state) (bare_request n) 10 True r [rack_ref] [rack_ref] 1010"
proof -
  have "available (bare_rack state) rack_ref r = Inr 0" using assms(6) by (simp add: available_Inr_iff bare_base)
  moreover have "all_eligible (bare_rack state) [rack_ref]"
    by (simp add: all_eligible_def bare_find bare_resource_def resource_of_def)
  ultimately show ?thesis
    using assms by (simp add: acquirable_def bare_request_def id_is_set_def default_authority_limits_def bare_expand bare_pool
        check_capacity_ok_iff) (simp add: rack_ref_def)
qed

definition bare_reg1 :: registry where
  "bare_reg1 = remember (bare_request 1) (granted_outcome (bare_grant 1))
     (enter (bare_rack LifecycleState_kActive) (bare_grant 1) (bare_reg\<lparr>rg_next_fence := 1\<rparr>))"

definition bare_reg2 :: registry where
  "bare_reg2 = remember (bare_request 2) (granted_outcome (bare_grant 2))
     (enter (bare_rack LifecycleState_kActive) (bare_grant 2) (bare_reg1\<lparr>rg_next_fence := 2\<rparr>))"

lemma bare_request_simps [simp]:
  "request_is_set (RequestId 0 1)" "request_is_set (RequestId 0 2)"
  "q_scope (bare_request n) = rack_ref" "q_request (bare_request n) = RequestId 0 n"
  "q_mode (bare_request n) = GrantMode_kShared" "q_capacity (bare_request n) = 0"
  by (simp_all add: bare_request_def request_is_set_def)

lemma bare_grant_simps [simp]:
  "g_id (bare_grant n) = n" "g_scope (bare_grant n) = rack_ref" "g_mode (bare_grant n) = GrantMode_kShared"
  "g_state (bare_grant n) = GrantState_kActive" "g_capacity (bare_grant n) = 0" "g_capacity_pool (bare_grant n) = [rack_ref]"
  "g_fence (bare_grant n) = n" "g_incarnation (bare_grant n) = 1" "g_expires_at_ms (bare_grant n) = 1010"
  "g_reason (bare_grant n) = []" "g_epoch (bare_grant n) = 0" "g_generation (bare_grant n) = 0"
  "g_authority_basis (bare_grant n) = authority_basis_digest (bare_rack LifecycleState_kActive) [rack_ref]"
  by (simp_all add: bare_grant_def issued_def)

lemma bare_reg_simps [simp]:
  "rg_limits bare_reg = default_authority_limits" "rg_grants bare_reg = []" "rg_outcomes bare_reg = []"
  "rg_occupancy bare_reg = []" "rg_footprints bare_reg = []" "rg_occupancy_entries bare_reg = 0"
  "rg_committed bare_reg = []" "rg_next_fence bare_reg = 0" "rg_incarnation bare_reg = 1"
  "rg_live bare_reg = 0" "rg_recovering bare_reg = 0"
  by (simp_all add: bare_reg_def registry_new_def set_incarnation_def)

lemma bare_reg1_simps [simp]:
  "rg_limits bare_reg1 = default_authority_limits" "rg_grants bare_reg1 = [(1, bare_grant 1)]"
  "length (rg_outcomes bare_reg1) = 1" "omap_get (rg_outcomes bare_reg1) (RequestId 0 2) = None"
  "rg_occupancy bare_reg1 = [(rack_ref, [Occupant 1 GrantMode_kShared])]"
  "rg_occupancy_entries bare_reg1 = 1" "rg_next_fence bare_reg1 = 1" "rg_incarnation bare_reg1 = 1"
  "rg_live bare_reg1 = 1" "rg_recovering bare_reg1 = 0"
  by (simp_all add: bare_reg1_def remember_def enter_def attach_entries attach_occupancy bare_expand occupy_def)

lemma bare_reg1_committed: "committed rack_ref bare_reg1 = 0"
  using attach_committed(2) [where r = "bare_reg\<lparr>rg_next_fence := 1\<rparr>" and g = "bare_grant 1"
      and s = "bare_rack LifecycleState_kActive" and ref = rack_ref]
  by (simp add: bare_reg1_def remember_def enter_def committed_def saturating_add_u64_def checked_add_u64_def)

lemma bare_reg2_simps [simp]:
  "rg_grants bare_reg2 = [(1, bare_grant 1), (2, bare_grant 2)]" "rg_incarnation bare_reg2 = 1"
  "rg_next_fence bare_reg2 = 2" "rg_recovering bare_reg2 = 0"
  by (simp_all add: bare_reg2_def remember_def enter_def)

lemma bare_acquires:
  "acquire (bare_rack LifecycleState_kActive) (bare_request 1) 1 10 True bare_reg = (Inr (bare_grant 1), bare_reg1)"
  "acquire (bare_rack LifecycleState_kActive) (bare_request 2) 1 10 True bare_reg1 = (Inr (bare_grant 2), bare_reg2)"
  by (subst acquire_granted [where expanded = "[rack_ref]" and pool = "[rack_ref]" and deadline = 1010];
    auto simp: bare_reg1_def bare_grant_def Let_def committed_def conflict_scan_None_iff occupant_scan_None_iff occ_at_def
      intro!: bare_acquirable)
    (subst acquire_granted [where expanded = "[rack_ref]" and pool = "[rack_ref]" and deadline = 1010];
    auto simp: bare_reg2_def bare_grant_def Let_def bare_reg1_committed occupant_conflicts_def conflict_scan_None_iff
      occupant_scan_None_iff occ_at_def intro!: bare_acquirable)

lemma bare_expire:
  "expire_due 10 bare_reg = ([], bare_reg)" "expire_due 10 bare_reg1 = ([], bare_reg1)"
  by (simp_all add: expire_due_def)

lemma bare_lease:
  assumes "expire_due 10 r = ([], r)"
    "acquire (bare_rack LifecycleState_kActive) (bare_request n) 1 10 True r = (Inr (bare_grant n), r')"
  obtains st' where "daemon_acquire (bare_acquire n) 10 (bare_daemon LifecycleState_kActive r st) =
    (grant_to_response (bare_grant n) kOk, bare_daemon LifecycleState_kActive r' st')"
proof -
  have q: "grant_request_of (bare_acquire n) (bare_daemon LifecycleState_kActive r st) = bare_request n"
    by (simp add: grant_request_of_def bare_acquire_def bare_request_def)
  have "daemon_acquire (bare_acquire n) 10 (bare_daemon LifecycleState_kActive r st) =
      commit_grant (RequestId 0 n) (bare_grant n) 10 (bare_daemon LifecycleState_kActive r' st)"
    using assms q
    by (simp add: daemon_acquire_def expire_due_locked_def ensure_snapshot_locked_def then_answer_def bare_daemon_def
        lifecycle_accepts_new_authority_def) (simp add: bare_acquire_def)
  also have "\<dots> = (grant_to_response (bare_grant n) kOk,
      bare_daemon LifecycleState_kActive r' (st\<lparr>ds_grants_issued := ds_grants_issued st + 1\<rparr>))"
    by (simp add: commit_grant_def append_locked_def maybe_checkpoint_locked_def bare_daemon_def)
  finally show thesis by (rule that)
qed

lemma bare_validate:
  assumes "n = 1 \<or> n = 2"
  shows "daemon_validate \<lparr>tm_token = grant_token (bare_grant n)\<rparr> 20 (bare_daemon LifecycleState_kActive bare_reg2 st) =
    (grant_to_response (bare_grant n) kOk, bare_daemon LifecycleState_kActive bare_reg2 st)"
proof -
  have "check_lease (bare_rack LifecycleState_kActive) (grant_token (bare_grant n)) 20 bare_reg2 = Inr (bare_grant n)"
    unfolding check_lease_Inr_iff honoured_def using assms
    by (auto simp: grant_token_def bare_expand lease_state_refusal_def lifecycle_honours_existing_authority_def
        lease_clear_def bare_find bare_resource_def resource_of_def)
  then show ?thesis
    by (simp add: daemon_validate_def ensure_snapshot_locked_def then_answer_def validate_def bare_daemon_def)
qed

section \<open>The run\<close>

definition bare_racks :: "snapshot set" where
  "bare_racks = {bare_rack LifecycleState_kAssembling, bare_rack LifecycleState_kActive}"

lemma bare_sections:
  "sd_devices (sn_data (bare_rack a)) = []" "sd_ports (sn_data (bare_rack a)) = []" "sd_links (sn_data (bare_rack a)) = []"
  "sd_attachments (sn_data (bare_rack a)) = []" "sd_paths (sn_data (bare_rack a)) = []"
  by (simp_all add: bare_rack_def bare_data_def sn_data_def empty_snapshot_data_def)

lemma bare_same:
  "expand_scope (bare_rack a) root = expand_scope (bare_rack b) root"
  "basis_bytes (bare_rack a) refs = basis_bytes (bare_rack b) refs"
  by (simp_all only: expand_scope_def expand_rack_def expand_device_def expand_port_def port_on_def basis_bytes_def
      basis_view_def find_device_def find_port_def find_link_def find_attachment_def find_path_def find_resource_def
      bare_rack_simps bare_sections Let_def)

lemma bare_racks_fit: "\<forall>t\<in>bare_racks. snapshot_sized t" "basis_injective bare_racks"
proof -
  show "\<forall>t\<in>bare_racks. snapshot_sized t" by (simp add: bare_racks_def)
  show "basis_injective bare_racks"
    unfolding basis_injective_def
  proof (intro ballI allI impI)
    fix s t root xs ys
    assume m: "s \<in> bare_racks" "t \<in> bare_racks" and e: "expand_scope s root = Inr xs" "expand_scope t root = Inr ys"
    obtain a b where ab: "s = bare_rack a" "t = bare_rack b" using m by (auto simp: bare_racks_def)
    have "xs = ys" using e bare_same(1) [of a root b] by (simp add: ab)
    then show "basis_bytes s xs = basis_bytes t ys" using bare_same(2) [of a xs b] by (simp add: ab)
  qed
qed

end
