(* ===== verification/Rnf_Recovery.thy ===== *)
theory Rnf_Recovery
  imports Rnf_Registry_Machine
begin

text \<open>
  The registry during a restart. The daemon replays the grants of its log in two passes: every committed
  grant is installed as a recovering one, and only then are the terminal states applied that the log
  also holds. Nothing compares the installed grants with each other: a lease and its successor over the
  same resources may both be live in between, and both stay live when the end of the first is not in the
  log (a grant a restart fenced is fenced in memory only). Until the re-arming every live grant is a
  recovering one, so the registry's invariant, which speaks of issued grants, holds throughout.
\<close>

section \<open>Dead entries\<close>

lemma omap_sum_put_zero:
  assumes "omap_ok m" "f i g = 0" "\<And>g0. omap_get m i = Some g0 \<Longrightarrow> f i g0 = 0"
  shows "omap_sum f (omap_put i g m) = omap_sum f m"
proof (cases "omap_get m i")
  case None
  then show ?thesis using omap_sum_put_new [OF assms(1)] assms(2) by simp
next
  case (Some g0)
  then show ?thesis using omap_sum_put_old [OF assms(1) Some, of f g] assms(2,3) by simp
qed

lemma registry_base_put_dead:
  assumes ok: "registry_base r" and dead: "\<And>g0. omap_get (rg_grants r) i = Some g0 \<Longrightarrow> \<not> g_live g0"
    and g: "g_id g = i" "\<not> g_live g" "i \<le> rg_next_fence r" "g_fence g \<le> rg_next_fence r"
  shows "registry_base (r\<lparr>rg_grants := omap_put i g (rg_grants r)\<rparr>)" (is "registry_base ?r")
proof -
  have okg: "omap_ok (rg_grants r)" and idx: "index_ok r"
    using ok by (simp_all add: registry_base_def ids_ok_def)
  have fp: "omap_get (rg_footprints r) i = None"
    using index_footprint [OF idx, of i] dead by (cases "omap_get (rg_footprints r) i") auto
  have occ: "occ_at ?r ref = occ_at r ref" for ref by (rule occ_at_cong) simp
  have live: "distinct f \<and> (\<exists>h. omap_get (omap_put i g (rg_grants r)) j = Some h \<and> g_live h)"
    if "omap_get (rg_footprints r) j = Some f" for j f
    using index_footprint [OF idx that] that fp by (cases "j = i") (auto simp: omap_get_put)
  have mem: "x \<in> set (occ_at r ref) \<longleftrightarrow> (\<exists>fq h. omap_get (rg_footprints r) (op_id x) = Some fq \<and>
      ref \<in> set fq \<and> omap_get (omap_put i g (rg_grants r)) (op_id x) = Some h \<and> op_mode x = g_mode h)" for x ref
    using index_occupants [OF idx, of x ref] fp by (cases "op_id x = i") (auto simp: omap_get_put)
  have "index_ok ?r" using idx live mem index_distinct [OF idx] unfolding index_ok_def occ by auto
  moreover have "ids_ok ?r" using ok g by (auto simp: registry_base_def ids_ok_def omap_ok_put omap_get_put)
  moreover have "account_ok ?r"
    using ok g(2) dead omap_sum_put_zero [OF okg]
    by (simp add: registry_base_def account_ok_def committed_def charge_def)
  moreover have "counts_ok ?r"
  proof -
    have calm: "\<not> g_live h \<Longrightarrow> g_state h \<noteq> GrantState_kRecovering" for h by auto
    have "omap_sum (\<lambda>i g. if g_live g then 1 else 0 :: nat) (omap_put i g (rg_grants r)) =
        omap_sum (\<lambda>i g. if g_live g then 1 else 0) (rg_grants r)"
      by (rule omap_sum_put_zero [OF okg]) (use g(2) dead in simp_all)
    moreover have "omap_sum (\<lambda>i g. if g_state g = GrantState_kRecovering then 1 else 0 :: nat) (omap_put i g (rg_grants r)) =
        omap_sum (\<lambda>i g. if g_state g = GrantState_kRecovering then 1 else 0) (rg_grants r)"
      by (rule omap_sum_put_zero [OF okg]) (use calm [OF g(2)] calm [OF dead] in simp_all)
    ultimately show ?thesis using ok by (simp add: registry_base_def counts_ok_def)
  qed
  ultimately show ?thesis by (simp add: registry_base_def)
qed

section \<open>The invariant of the replay\<close>

definition all_recovering :: "registry \<Rightarrow> bool" where
  "all_recovering r \<longleftrightarrow>
     (\<forall>i g. omap_get (rg_grants r) i = Some g \<longrightarrow> g_live g \<longrightarrow> g_state g = GrantState_kRecovering)"

lemma all_recovering_put:
  assumes "all_recovering r" "rg_grants r' = omap_put i g (rg_grants r)" "g_live g \<Longrightarrow> g_state g = GrantState_kRecovering"
  shows "all_recovering r'"
  unfolding all_recovering_def
proof (intro allI impI)
  fix j h
  assume "omap_get (rg_grants r') j = Some h" "g_live h"
  then show "g_state h = GrantState_kRecovering"
    using assms unfolding all_recovering_def by (cases "j = i") (simp_all add: omap_get_put)
qed

lemma all_recovering_cong: "rg_grants r' = rg_grants r \<Longrightarrow> all_recovering r' = all_recovering r"
  unfolding all_recovering_def by metis

definition recovering_inv :: "snapshot set \<Rightarrow> snapshot \<Rightarrow> registry \<Rightarrow> bool" where
  "recovering_inv S s r \<longleftrightarrow>
     registry_base r \<and> basis_ok S r \<and>
     all_recovering r \<and>
     (\<forall>i g e. omap_get (rg_grants r) i = Some g \<longrightarrow> g_state g = GrantState_kRecovering \<longrightarrow>
        expand_scope s (g_scope g) = Inr e \<longrightarrow> omap_get (rg_footprints r) i = Some e)"

text \<open>What a durable grant must satisfy to be installed; a refused one needs nothing.\<close>

definition installable :: "snapshot \<Rightarrow> grant \<Rightarrow> registry \<Rightarrow> bool" where
  "installable s g r \<longleftrightarrow>
     omap_get (rg_grants r) (g_id g) = None \<longrightarrow>
       g_id g \<le> max (rg_next_fence r) (g_fence g) \<and> distinct (g_capacity_pool g) \<and>
       (case recovered_pool s g of Inl _ \<Rightarrow> True
        | Inr pool \<Rightarrow> list_all (\<lambda>ref. unat (committed ref r) + unat (g_capacity g) < 2 ^ 64) pool)"

fun installs_fit :: "snapshot \<Rightarrow> grant list \<Rightarrow> registry \<Rightarrow> bool" where
  "installs_fit s [] r \<longleftrightarrow> True"
| "installs_fit s (g # gs) r \<longleftrightarrow> installable s g r \<and> installs_fit s gs (snd (install_recovered s g r))"

lemma recovering_invD:
  assumes "recovering_inv S s r"
  shows "registry_base r" "basis_ok S r"
    "omap_get (rg_grants r) i = Some g \<Longrightarrow> g_state g = GrantState_kRecovering \<Longrightarrow> expand_scope s (g_scope g) = Inr e \<Longrightarrow>
       omap_get (rg_footprints r) i = Some e"
    "all_recovering r"
  using assms unfolding recovering_inv_def by blast+

lemma recovering_inv_next_fence:
  assumes "recovering_inv S s r" "rg_next_fence r \<le> nf"
  shows "recovering_inv S s (r\<lparr>rg_next_fence := nf\<rparr>)"
proof -
  have "i \<le> nf \<and> g_fence g \<le> nf" if "omap_get (rg_grants r) i = Some g" for i g
  proof -
    have "ids_ok r" using assms(1) by (simp add: recovering_inv_def registry_base_def)
    then have "i \<le> rg_next_fence r \<and> g_fence g \<le> rg_next_fence r" using that unfolding ids_ok_def by blast
    with assms(2) show ?thesis by (blast intro: order.trans)
  qed
  moreover have "basis_ok S (r\<lparr>rg_next_fence := nf\<rparr>)"
    using basis_ok_cong [of "r\<lparr>rg_next_fence := nf\<rparr>" r S] assms(1) by (simp add: recovering_inv_def)
  moreover have "all_recovering (r\<lparr>rg_next_fence := nf\<rparr>)"
    using all_recovering_cong [of "r\<lparr>rg_next_fence := nf\<rparr>" r] recovering_invD(4) [OF assms(1)] by simp
  ultimately show ?thesis
    using assms(1)
    by (simp add: recovering_inv_def registry_base_def ids_ok_def index_ok_def account_ok_def counts_ok_def
        occ_at_def committed_def)
qed

lemma recovering_inv_install:
  assumes inv: "recovering_inv S s r" and fits: "installable s g r"
  shows "recovering_inv S s (snd (install_recovered s g r))"
proof (cases "\<not> snapshot_valid s \<or> \<not> id_is_set (g_id g) \<or> omap_get (rg_grants r) (g_id g) \<noteq> None \<or>
    rg_live r \<ge> al_max_live_grants (rg_limits r)")
  case True
  then show ?thesis using inv by (auto simp: install_recovered_def)
next
  case False
  let ?r = "r\<lparr>rg_next_fence := max (rg_next_fence r) (g_fence g)\<rparr>"
  have inv': "recovering_inv S s ?r" using inv by (intro recovering_inv_next_fence) simp_all
  have fresh: "omap_get (rg_grants ?r) (g_id g) = None" using False by simp
  have id: "g_id g \<le> rg_next_fence ?r" "g_fence g \<le> rg_next_fence ?r"
    using fits False by (simp_all add: installable_def)
  show ?thesis
  proof (cases "recovered_pool s g")
    case (Inl st)
    let ?g = "g\<lparr>g_state := GrantState_kFenced,
                g_reason := (if g_reason g = [] then ''scope no longer resolves after restart'' else g_reason g)\<rparr>"
    have eq: "snd (install_recovered s g r) = ?r\<lparr>rg_grants := omap_put (g_id g) ?g (rg_grants ?r)\<rparr>"
      using False Inl by (simp add: install_recovered_def recovered_pool_def Let_def)
    have "registry_base (?r\<lparr>rg_grants := omap_put (g_id g) ?g (rg_grants ?r)\<rparr>)"
      by (rule registry_base_put_dead [OF recovering_invD(1) [OF inv']]) (use fresh id in simp_all)
    moreover have "basis_ok S (?r\<lparr>rg_grants := omap_put (g_id g) ?g (rg_grants ?r)\<rparr>)"
      by (rule basis_ok_put_dead [OF recovering_invD(2) [OF inv']]) (simp add: armed_def)
    moreover have "all_recovering (?r\<lparr>rg_grants := omap_put (g_id g) ?g (rg_grants ?r)\<rparr>)"
      by (rule all_recovering_put [OF recovering_invD(4) [OF inv']], simp) simp
    ultimately show ?thesis
      using recovering_invD(3) [OF inv] unfolding eq recovering_inv_def by (auto simp: omap_get_put split: if_splits)
  next
    case (Inr pool)
    let ?g = "g\<lparr>g_capacity_pool := pool, g_state := GrantState_kRecovering,
                g_reason := (if g_reason g = [] then ''recovered from durable state; awaiting revalidation''
                             else g_reason g)\<rparr>"
    have eq: "snd (install_recovered s g r) = enter s ?g ?r"
      using False Inr by (simp add: install_recovered_def recovered_pool_def Let_def enter_def)
    have "distinct pool"
      using Inr fits False capacity_pool_facts(2) by (auto simp: recovered_pool_def installable_def split: if_splits)
    moreover have "\<forall>ref\<in>set pool. unat (committed ref r) + unat (g_capacity g) < 2 ^ 64"
      using Inr fits False by (simp add: installable_def list_all_iff)
    ultimately have "enterable ?g ?r" using fresh id by (simp add: enterable_def committed_def)
    then have "registry_base (enter s ?g ?r)" using recovering_invD(1) [OF inv'] by (rule registry_base_enter [rotated])
    moreover have "basis_ok S (enter s ?g ?r)"
      by (rule basis_ok_enter [OF recovering_invD(2) [OF inv']]) (use fresh in \<open>simp_all add: armed_def\<close>)
    moreover have "omap_get (rg_footprints (enter s ?g ?r)) i = Some e"
      if h: "omap_get (rg_grants (enter s ?g ?r)) i = Some h" "g_state h = GrantState_kRecovering"
        "expand_scope s (g_scope h) = Inr e" for i h e
    proof (cases "i = g_id g")
      case True
      then have "h = ?g" using h(1) by (simp add: enter_def omap_get_put)
      then show ?thesis using h(3) True by (simp add: enter_def attach_footprints omap_get_put)
    next
      case False
      then have "omap_get (rg_footprints r) i = Some e"
        using h recovering_invD(3) [OF inv, of i h e] by (simp add: enter_def omap_get_put)
      then show ?thesis using False by (simp add: enter_def attach_footprints omap_get_put split: sum.splits)
    qed
    moreover have "all_recovering (enter s ?g ?r)"
      by (rule all_recovering_put [OF recovering_invD(4) [OF inv']], simp add: enter_def) simp
    ultimately show ?thesis unfolding eq recovering_inv_def by blast
  qed
qed

lemma recovering_inv_apply_state:
  assumes inv: "recovering_inv S s r"
  shows "recovering_inv S s (snd (apply_state i st reason r))"
proof (cases "omap_get (rg_grants r) i")
  case None
  then show ?thesis using inv by (simp add: apply_state_def)
next
  case (Some g)
  have base: "registry_base r" by (rule recovering_invD(1) [OF inv])
  have id: "g_id g = i" "i \<le> rg_next_fence r" "g_fence g \<le> rg_next_fence r"
    using base Some by (auto simp: registry_base_def ids_ok_def)
  show ?thesis
  proof (cases "terminal_state st")
    case False
    then show ?thesis using inv Some by (auto simp: apply_state_def terminal_state_def)
  next
    case terminal: True
    then have dead: "\<not> is_live_state st" and st: "st \<noteq> GrantState_kRecovering" by (auto simp: terminal_state_def)
    show ?thesis
    proof (cases "g_live g")
      case True
      then have eq: "snd (apply_state i st reason r) = retire i g st reason r"
        using Some terminal by (auto simp: apply_state_def terminal_state_def)
      have fp: "rg_footprints (retire i g st reason r) = omap_erase i (rg_footprints r)"
        using base id(1) by (simp add: retire_index_fields detach_footprints registry_base_def index_ok_def)
      have "registry_base (retire i g st reason r)" using base Some True dead by (rule registry_base_retire)
      moreover have "basis_ok S (retire i g st reason r)"
        using base recovering_invD(2) [OF inv] Some terminal by (rule basis_ok_retire)
      moreover have "all_recovering (retire i g st reason r)"
        by (rule all_recovering_put [OF recovering_invD(4) [OF inv] retire_fields(1)]) (use dead in simp)
      ultimately show ?thesis
        using recovering_invD(3) [OF inv] st unfolding eq recovering_inv_def fp
        by (auto simp: omap_get_put omap_get_erase split: if_splits)
    next
      case False
      let ?g = "g\<lparr>g_state := st, g_reason := reason\<rparr>"
      have eq: "snd (apply_state i st reason r) = r\<lparr>rg_grants := omap_put i ?g (rg_grants r)\<rparr>"
        using Some terminal False by (auto simp: apply_state_def terminal_state_def)
      have "registry_base (r\<lparr>rg_grants := omap_put i ?g (rg_grants r)\<rparr>)"
        by (rule registry_base_put_dead [OF base]) (use Some False id dead in simp_all)
      moreover have "basis_ok S (r\<lparr>rg_grants := omap_put i ?g (rg_grants r)\<rparr>)"
        by (rule basis_ok_put_dead [OF recovering_invD(2) [OF inv]]) (use terminal in \<open>simp add: armed_def\<close>)
      moreover have "all_recovering (r\<lparr>rg_grants := omap_put i ?g (rg_grants r)\<rparr>)"
        by (rule all_recovering_put [OF recovering_invD(4) [OF inv]], simp) (use dead in simp)
      ultimately show ?thesis
        using recovering_invD(3) [OF inv] st unfolding eq recovering_inv_def by (auto simp: omap_get_put split: if_splits)
    qed
  qed
qed

lemma recovering_inv_installs:
  "recovering_inv S s r \<Longrightarrow> installs_fit s gs r \<Longrightarrow>
     recovering_inv S s (fold (\<lambda>g r. snd (install_recovered s g r)) gs r)"
  by (induction gs arbitrary: r) (simp_all add: recovering_inv_install)

lemma recovering_inv_states:
  "recovering_inv S s r \<Longrightarrow>
     recovering_inv S s (fold (\<lambda>b r. snd (apply_state (f b) (st b) (reason b) r)) bs r)"
  by (induction bs arbitrary: r) (simp_all add: recovering_inv_apply_state)

text \<open>After the replay the registry is in order and can be re-armed.\<close>

lemma recovering_inv_exclusive:
  assumes "recovering_inv S s r"
  shows "exclusive_ok r"
proof -
  have "restored g" if "omap_get (rg_footprints r) i = Some fp" "omap_get (rg_grants r) i = Some g" for i fp g
    using index_footprint [OF _ that(1)] that(2) recovering_invD(1,4) [OF assms]
    unfolding registry_base_def restored_def all_recovering_def by fastforce
  then show ?thesis unfolding exclusive_ok_def by blast
qed

lemma recovering_inv_end:
  assumes "recovering_inv S s r"
  shows "registry_inv S r" "rearm_indexed s now r"
proof -
  show "registry_inv S r"
    using assms recovering_inv_exclusive [OF assms] by (simp add: registry_inv_def registry_ok_base recovering_inv_def)
  have ok: "omap_ok (rg_grants r)" using assms(1) by (simp add: recovering_inv_def registry_base_def ids_ok_def)
  have "map_option Inr (omap_get (rg_footprints r) i) = Some (expand_scope s (g_scope g))"
    if g: "(i, g) \<in> set (rg_grants r)" "g_state g = GrantState_kRecovering" "rearm_failure s now g = None" for i g
  proof -
    obtain e where e: "expand_scope s (g_scope g) = Inr e" using g(3) by (auto simp: rearm_failure_None)
    have "omap_get (rg_grants r) i = Some g" using g(1) ok by (simp add: omap_get_iff)
    from recovering_invD(3) [OF assms this g(2) e] e show ?thesis by simp
  qed
  then show "rearm_indexed s now r" by (auto simp: rearm_indexed_def list_all_iff)
qed

end
