(* ===== verification/Rnf_Daemon_Claims.thy ===== *)
theory Rnf_Daemon_Claims
  imports Rnf_Daemon_Sample Rnf_Recovery
begin

text \<open>
  The daemon as a state machine: what holds after a start and after every sequence of commands, and the
  guarantees the core gives its clients.
\<close>

section \<open>Starting\<close>

text \<open>The registry a start has replayed, before anything is re-armed.\<close>

definition replayed :: "grant list \<Rightarrow> grant_state_record list \<Rightarrow> daemon_core \<Rightarrow> registry" where
  "replayed gs sts d =
     fold (\<lambda>b r. snd (apply_state (gr_id b) (gr_state b) (gr_reason b) r)) sts
       (fold (\<lambda>g r. snd (install_recovered (da_snapshot d) g r)) gs (da_grants d))"

text \<open>
  What a start asks of the log it finds: no grant has an identity above its fence and the fences before it or
  draws twice from a pool, no capacity sum overflows while the grants are installed, and the fence counter
  has room to re-arm them. The grants may conflict with each other.
\<close>

definition log_fits :: "grant list \<Rightarrow> grant_state_record list \<Rightarrow> daemon_core \<Rightarrow> bool" where
  "log_fits gs sts d \<longleftrightarrow>
     installs_fit (da_snapshot d) gs (da_grants d) \<and>
     unat (rg_next_fence (replayed gs sts d)) + rg_recovering (replayed gs sts d) < 2 ^ 64"

definition start_fits :: "start_io \<Rightarrow> daemon_core \<Rightarrow> bool" where
  "start_fits io d = (case daemon_prepare io d of (st, gs, sts, d') \<Rightarrow> log_fits gs sts d')"

lemma restore_grants_eq:
  "restore_grants gs sts now d = d\<lparr>da_grants := snd (revalidate (da_snapshot d) (da_incarnation d) now (replayed gs sts d))\<rparr>"
  by (simp add: restore_grants_def replayed_def Let_def)

text \<open>A registry no grant has entered yet.\<close>

definition vacant :: "snapshot set \<Rightarrow> registry \<Rightarrow> bool" where
  "vacant S r \<longleftrightarrow> registry_inv S r \<and> rg_grants r = []"

lemma vacant_recovering: "vacant S r \<Longrightarrow> recovering_inv S s r"
  by (simp add: vacant_def recovering_inv_def registry_inv_def registry_ok_base all_recovering_def)

lemma vacant_install_outcome: "vacant S r \<Longrightarrow> vacant S (install_outcome q x r)"
  using registry_inv_install_outcome [of S r q x] by (simp add: vacant_def install_outcome_def)

lemma vacant_set_incarnation: "vacant S r \<Longrightarrow> vacant S (set_incarnation inc r)"
  using registry_inv_set_incarnation [of S r inc] by (simp add: vacant_def set_incarnation_def)

lemma vacant_new: "vacant S (registry_new limits)"
  using registry_inv_new [of S limits] by (simp add: vacant_def registry_new_def)

lemma apply_recovered_keeps:
  "da_grants (snd (apply_recovered_record p d)) = da_grants d"
  "da_snapshot (snd (apply_recovered_record p d)) = da_snapshot d"
  "da_store (snd (apply_recovered_record p d)) = da_store d"
  "ledger_ok (da_ledger d) \<Longrightarrow> ledger_ok (da_ledger (snd (apply_recovered_record p d)))"
  by (simp_all add: apply_recovered_record_def ledger_ok_insert split: store_payload.splits)

lemma recover_records_keeps:
  assumes "recover_records rs gs sts d = (st, gs', sts', d')"
  shows "(vacant S (da_grants d) \<longrightarrow> vacant S (da_grants d')) \<and> da_snapshot d' = da_snapshot d \<and>
    (ledger_ok (da_ledger d) \<longrightarrow> ledger_ok (da_ledger d'))"
  using assms
proof (induction rs arbitrary: gs sts d)
  case (Cons r rs)
  show ?case
  proof (cases "(\<exists>g. sr_payload r = SP_Grant g) \<or> (\<exists>b. sr_payload r = SP_GrantState b) \<or>
      (\<exists>b. sr_payload r = SP_RequestOutcome b)")
    case True
    then show ?thesis using Cons vacant_install_outcome by fastforce
  next
    case False
    obtain ast e where e: "apply_recovered_record (sr_payload r) d = (ast, e)" by fastforce
    have "recover_records (r # rs) gs sts d = (if \<not> status_ok ast then (ast, gs, sts, e) else recover_records rs gs sts e)"
      using False e by (cases "sr_payload r") auto
    then show ?thesis
      using Cons apply_recovered_keeps [where p = "sr_payload r" and d = d] e by (auto split: if_splits)
  qed
qed simp

lemma daemon_open_keeps:
  assumes "daemon_open io d = (st, gs, sts, d')"
  shows "(vacant S (da_grants d) \<longrightarrow> vacant S (da_grants d')) \<and> da_snapshot d' = da_snapshot d \<and>
    (ledger_ok (da_ledger d) \<longrightarrow> ledger_ok (da_ledger d'))"
proof (cases "store_open (dc_store_directory (da_config d))
    (default_store_options\<lparr>op_fsync_on_append := dc_fsync_on_append (da_config d)\<rparr>) (si_open io) (si_files io)")
  case (Inl e)
  then show ?thesis using assms by (simp add: daemon_open_def)
next
  case (Inr s)
  define d1 where "d1 = recover_checkpoint (so_checkpoint s) (d\<lparr>da_store := Some s,
      da_dirty_recovery := \<not> rr_fresh_store (so_report s) \<and> \<not> rr_clean_shutdown (so_report s)\<rparr>)"
  have d1: "da_grants d1 = da_grants d" "da_snapshot d1 = da_snapshot d" "ledger_ok (da_ledger d) \<longrightarrow> ledger_ok (da_ledger d1)"
    by (simp_all add: d1_def recover_checkpoint_def ledger_ok_insert_all)
  obtain rst rgs rsts d2 where r: "recover_records (so_records s) [] [] d1 = (rst, rgs, rsts, d2)" by (metis prod_cases4)
  note k = recover_records_keeps [OF r, of S]
  have "(da_grants d' = da_grants d \<or> da_grants d' = da_grants d2) \<and> da_snapshot d' = da_snapshot d \<and>
      (da_ledger d' = da_ledger d \<or> da_ledger d' = da_ledger d2)"
    using assms Inr k d1
    by (auto simp: daemon_open_def Let_def r d1_def [symmetric] split: if_splits prod.splits sum.splits)
  then show ?thesis using k d1 by auto
qed

text \<open>A successful preparation has composed under the lifecycle it starts in.\<close>

lemma daemon_prepare_facts:
  assumes "daemon_prepare io d = (st, gs, sts, d')" "status_ok st" "vacant S (da_grants d)" "ledger_ok (da_ledger d)"
    "\<not> snapshot_valid (da_snapshot d)"
  shows "vacant S (da_grants d')" "ledger_ok (da_ledger d')" "snapshot_valid (da_snapshot d')" "snapshot_fits d'"
    "rg_incarnation (da_grants d') = da_incarnation d'"
    "sd_lifecycle (sn_data (da_snapshot d')) = da_lifecycle d'"
    "da_dirty_recovery d' \<and> da_store d' \<noteq> None \<longrightarrow> da_lifecycle d' = LifecycleState_kRecovering"
    "da_lifecycle d' \<noteq> LifecycleState_kRetired"
proof -
  let ?d = "d\<lparr>da_started := True\<rparr>"
  obtain ost ogs osts e where op: "(if dc_store_directory (da_config ?d) \<noteq> [] then daemon_open io ?d
      else (ok_status, [], [], ?d\<lparr>da_incarnation := 1\<rparr>)) = (ost, ogs, osts, e)" by (metis prod_cases4)
  have e: "vacant S (da_grants e)" "da_snapshot e = da_snapshot d" "ledger_ok (da_ledger e)"
    using op daemon_open_keeps [of io ?d ost ogs osts e S] assms(3,4) by (auto split: if_splits)
  define f where "f = e\<lparr>da_grants := set_incarnation (da_incarnation e) (da_grants e)\<rparr>"
  define g where "g = f\<lparr>da_lifecycle := start_lifecycle f\<rparr>"
  have gen: "da_generation f = da_generation g" by (simp add: g_def)
  have prep: "compose_locked (da_generation g) g = (st, d')"
    unfolding gen [symmetric] using assms(1,2) op by (auto simp: daemon_prepare_def f_def [symmetric] g_def [symmetric] Let_def split: if_splits prod.splits)
  have vac: "vacant S (da_grants g)" using e(1) vacant_set_incarnation by (simp add: g_def f_def)
  from prep assms(2) obtain s ep x where ad: "da_lifecycle g \<noteq> LifecycleState_kRetired"
    "compose (da_ledger g) (dc_rack (da_config g)) ((compose_request (da_generation g) g)\<lparr>ci_epoch := ep\<rparr>) = Inr (s, x)"
    "quiet (g\<lparr>da_snapshot := s, da_generation := da_generation g, da_epoch := ep,
         da_member_set_digest := sd_member_set_digest (sn_data s), da_membership_initialized := True\<rparr>) d'"
    by (cases rule: compose_locked_cases) auto
  note q = quietD [OF ad(3)]
  note stamps = compose_stamps [OF ad(2)]
  show "vacant S (da_grants d')" using vac q by simp
  show "ledger_ok (da_ledger d')" using e(3) q by (simp add: g_def f_def)
  show "snapshot_valid (da_snapshot d')" using compose_valid [OF ad(2)] q by simp
  show "snapshot_fits d'" using stamps q by (simp add: snapshot_fits_def compose_request_def)
  show "rg_incarnation (da_grants d') = da_incarnation d'" using q by (simp add: g_def f_def set_incarnation_def)
  show "sd_lifecycle (sn_data (da_snapshot d')) = da_lifecycle d'" using stamps q by (simp add: compose_request_def)
  show "da_dirty_recovery d' \<and> da_store d' \<noteq> None \<longrightarrow> da_lifecycle d' = LifecycleState_kRecovering"
    using q by (simp add: g_def start_lifecycle_def)
  show "da_lifecycle d' \<noteq> LifecycleState_kRetired" using ad(1) q by simp
qed

section \<open>The state machine\<close>

definition daemon_inv :: "snapshot set \<Rightarrow> daemon_core \<Rightarrow> bool" where
  "daemon_inv S d \<longleftrightarrow>
     registry_inv S (da_grants d) \<and> settled (da_grants d) \<and> ledger_ok (da_ledger d) \<and>
     snapshot_valid (da_snapshot d) \<and> da_snapshot d \<in> S \<and> snapshot_fits d \<and>
     rg_incarnation (da_grants d) = da_incarnation d"

definition booted :: "snapshot set \<Rightarrow> daemon_core \<Rightarrow> bool" where
  "booted S d \<longleftrightarrow>
     (\<exists>config os io now. start_fits io (daemon_new config os) \<and>
        daemon_start io now (daemon_new config os) = (ok_status, d) \<and> da_snapshot d \<in> S)"

text \<open>
  A command of a running daemon. \<open>S\<close> contains every snapshot it composes, and the fence counter, whose
  wrap-around the source does not check, has room for one more lease.
\<close>

inductive daemon_step :: "snapshot set \<Rightarrow> daemon_core \<Rightarrow> daemon_op \<Rightarrow> daemon_core \<Rightarrow> bool" for S where
  "rg_next_fence (da_grants d) \<noteq> u64_max \<Longrightarrow> da_snapshot (daemon_apply op d) \<in> S \<Longrightarrow>
     daemon_step S d op (daemon_apply op d)"

inductive_simps daemon_step_iff: "daemon_step S d op d'"

lemma new_not_started: "\<not> da_started (daemon_new config os)"
  by (simp add: daemon_new_def)

lemma daemon_start_Inr:
  assumes "daemon_start io now (daemon_new config os) = (ok_status, d)"
  obtains st gs sts d1 where "daemon_prepare io (daemon_new config os) = (st, gs, sts, d1)" "status_ok st"
    "d = restore_grants gs sts now d1"
proof -
  obtain st gs sts d1 where p: "daemon_prepare io (daemon_new config os) = (st, gs, sts, d1)" by (metis prod_cases4)
  have "status_ok st" "d = restore_grants gs sts now d1"
    using assms by (auto simp: daemon_start_def p new_not_started split: if_splits)
  with p that show thesis by blast
qed

lemma start_inv:
  assumes "daemon_prepare io (daemon_new config os) = (st, gs, sts, d)" "status_ok st"
    "log_fits gs sts d" "da_snapshot d \<in> S"
  shows "daemon_inv S (restore_grants gs sts now d)"
proof -
  let ?r = "replayed gs sts d"
  have new: "vacant S (da_grants (daemon_new config os))" "ledger_ok (da_ledger (daemon_new config os))"
    "\<not> snapshot_valid (da_snapshot (daemon_new config os))"
    by (simp_all add: daemon_new_def vacant_new ledger_ok_new empty_handle_def snapshot_valid_def)
  note prep = daemon_prepare_facts [OF assms(1,2) new]
  have "recovering_inv S (da_snapshot d) ?r"
    unfolding replayed_def using assms(3)
    by (intro recovering_inv_states recovering_inv_installs vacant_recovering prep(1)) (simp add: log_fits_def)
  note ends = recovering_inv_end [OF this]
  have guard: "op_guard S (Op_revalidate (da_snapshot d) (da_incarnation d) now) ?r"
    using ends(2) assms(3,4) by (simp add: log_fits_def)
  note inv = ends(1)
  show ?thesis
    using registry_inv_apply [OF inv guard] settled_revalidate [OF inv guard] prep(2-4) assms(4)
    by (simp add: daemon_inv_def restore_grants_eq snapshot_fits_def)
qed

lemma restore_grants_snapshot: "da_snapshot (restore_grants gs sts now d) = da_snapshot d"
  by (simp add: restore_grants_eq)

lemma booted_inv: "booted S d \<Longrightarrow> daemon_inv S d"
  unfolding booted_def
  by (elim exE conjE daemon_start_Inr) (auto simp: start_fits_def intro: start_inv simp: restore_grants_snapshot)

lemma step_inv:
  assumes "daemon_inv S d" "daemon_step S d op d'"
  shows "daemon_inv S d'"
proof -
  have d': "d' = daemon_apply op d" "rg_next_fence (da_grants d) \<noteq> u64_max" "da_snapshot d' \<in> S"
    using assms(2) by (auto simp: daemon_step_iff)
  have p: "advance d d'" "worked S (da_grants d) (da_grants d')"
    using performs_apply [of S d op] d' assms(1) by (auto simp: performs_def ready_def daemon_inv_def)
  have "registry_inv S (da_grants d') \<and> settled (da_grants d')"
    using worked_keeps [OF p(2)] assms(1) by (simp add: daemon_inv_def)
  then show ?thesis using p(1) d'(3) assms(1) by (simp add: daemon_inv_def advance_def)
qed

interpretation daemon: state_machine "booted S" "daemon_step S" "daemon_inv S" for S
  by unfold_locales (auto intro: booted_inv step_inv)

text \<open>The sample run is a run of the machine.\<close>

lemma bare_run:
  obtains st sm st' where "booted bare_racks (bare_daemon LifecycleState_kAssembling bare_reg st)"
    "run (daemon_step bare_racks) (bare_daemon LifecycleState_kAssembling bare_reg st)
      [Do_lifecycle \<lparr>ly_target = LifecycleState_kActive\<rparr> 5, Do_acquire (bare_acquire 1) 10]
      (bare_daemon LifecycleState_kActive bare_reg1 sm)"
    "run (daemon_step bare_racks) (bare_daemon LifecycleState_kAssembling bare_reg st)
      [Do_lifecycle \<lparr>ly_target = LifecycleState_kActive\<rparr> 5, Do_acquire (bare_acquire 1) 10, Do_acquire (bare_acquire 2) 10]
      (bare_daemon LifecycleState_kActive bare_reg2 st')"
proof -
  fix io :: start_io
  obtain st0 where b: "daemon_start io 1 (daemon_new bare_config calm) = (ok_status, bare_daemon LifecycleState_kAssembling bare_reg st0)"
    "daemon_prepare io (daemon_new bare_config calm) = (ok_status, [], [], bare_daemon LifecycleState_kAssembling bare_reg st0)"
    by (rule bare_boot)
  have "start_fits io (daemon_new bare_config calm)"
    by (simp add: start_fits_def b log_fits_def replayed_def) (simp add: bare_daemon_def)
  then have boot: "booted bare_racks (bare_daemon LifecycleState_kAssembling bare_reg st0)"
    unfolding booted_def using b(1) by (force simp: bare_daemon_def bare_racks_def)
  obtain st1 where s1: "daemon_apply (Do_lifecycle \<lparr>ly_target = LifecycleState_kActive\<rparr> 5)
      (bare_daemon LifecycleState_kAssembling bare_reg st0) = bare_daemon LifecycleState_kActive bare_reg st1" by (rule bare_activate)
  obtain st2 where s2: "daemon_acquire (bare_acquire 1) 10 (bare_daemon LifecycleState_kActive bare_reg st1) =
      (grant_to_response (bare_grant 1) kOk, bare_daemon LifecycleState_kActive bare_reg1 st2)"
    by (rule bare_lease [OF bare_expire(1) bare_acquires(1)])
  obtain st3 where s3: "daemon_acquire (bare_acquire 2) 10 (bare_daemon LifecycleState_kActive bare_reg1 st2) =
      (grant_to_response (bare_grant 2) kOk, bare_daemon LifecycleState_kActive bare_reg2 st3)"
    by (rule bare_lease [OF bare_expire(2) bare_acquires(2)])
  have "daemon_step bare_racks (bare_daemon LifecycleState_kAssembling bare_reg st0)
      (Do_lifecycle \<lparr>ly_target = LifecycleState_kActive\<rparr> 5) (bare_daemon LifecycleState_kActive bare_reg st1)"
    "daemon_step bare_racks (bare_daemon LifecycleState_kActive bare_reg st1) (Do_acquire (bare_acquire 1) 10)
      (bare_daemon LifecycleState_kActive bare_reg1 st2)"
    "daemon_step bare_racks (bare_daemon LifecycleState_kActive bare_reg1 st2) (Do_acquire (bare_acquire 2) 10)
      (bare_daemon LifecycleState_kActive bare_reg2 st3)"
    unfolding daemon_step_iff s1 by (simp_all add: s2 s3) (simp_all add: bare_daemon_def bare_racks_def)
  with boot show thesis by (intro that) (blast intro: run.intros)+
qed

section \<open>Leases\<close>

lemma check_lease_Inl: "check_lease s token now r = Inl st \<Longrightarrow> st_code st \<noteq> kOk"
proof -
  have scan: "lease_scan s refs = Some st \<Longrightarrow> st_code st \<noteq> kOk" for refs
    by (induction refs) (auto split: option.splits if_splits)
  assume "check_lease s token now r = Inl st"
  then show ?thesis
    by (auto simp: check_lease_def lease_state_refusal_def dest: scan split: if_splits option.splits sum.splits)
qed

text \<open>Every restored grant of a running daemon was there when it had started.\<close>

lemma restored_step:
  assumes "daemon_inv S d" "daemon_step S d op d'" "omap_get (rg_grants (da_grants d')) i = Some g'" "restored g'"
  shows "\<exists>g. omap_get (rg_grants (da_grants d)) i = Some g \<and> restored g"
proof -
  have d': "d' = daemon_apply op d" "rg_next_fence (da_grants d) \<noteq> u64_max" "da_snapshot d' \<in> S"
    using assms(2) by (auto simp: daemon_step_iff)
  have "worked S (da_grants d) (da_grants d')"
    using performs_apply [of S d op] d' assms(1) by (auto simp: performs_def ready_def daemon_inv_def)
  then obtain ops where "run (registry_step S) (da_grants d) ops (da_grants d')" "\<forall>s g. Op_install_recovered s g \<notin> set ops"
    by (auto simp: worked_def)
  then show ?thesis using restored_origin [of S _ ops, OF _ _ assms(3,4)] assms(1) by (auto simp: daemon_inv_def)
qed

lemma restored_from_start:
  assumes "booted S d0" "run (daemon_step S) d0 ops d" "omap_get (rg_grants (da_grants d)) i = Some g" "restored g"
  shows "omap_get (rg_grants (da_grants d0)) i \<noteq> None"
proof -
  have "run (daemon_step S) d0 ops d \<Longrightarrow> daemon_inv S d0 \<Longrightarrow> omap_get (rg_grants (da_grants d)) i = Some g \<Longrightarrow>
      \<exists>h. omap_get (rg_grants (da_grants d0)) i = Some h \<and> restored h"
  proof (induction rule: run.induct)
    case (run_nil d)
    then show ?case using assms(4) by blast
  next
    case (run_cons d op t ops d')
    then show ?case using step_inv restored_step by blast
  qed
  then show ?thesis using assms booted_inv by fastforce
qed

text \<open>The daemon answers a validation with the grant exactly when the registry honours the token.\<close>

lemma daemon_validate_ok:
  assumes "daemon_inv S d"
  shows "fst (daemon_validate q now d) = grant_to_response g kOk \<longleftrightarrow>
    (\<exists>h. honoured (da_snapshot d) (tm_token q) now (da_grants d) h \<and> summary_from h = summary_from g \<and> g_reason h = g_reason g)"
proof -
  have "ensure_snapshot_locked d = (ok_status, d)" using assms by (simp add: ensure_snapshot_locked_def daemon_inv_def)
  then have v: "daemon_validate q now d = (case check_lease (da_snapshot d) (tm_token q) now (da_grants d) of
      Inl st \<Rightarrow> (Inr (refusal_response st), d) | Inr g \<Rightarrow> (grant_to_response g kOk, d))"
    by (simp add: daemon_validate_def then_answer_def validate_def)
  show ?thesis
  proof (cases "check_lease (da_snapshot d) (tm_token q) now (da_grants d)")
    case (Inl st)
    then have "st_code st \<noteq> kOk" by (rule check_lease_Inl)
    moreover have "\<not> honoured (da_snapshot d) (tm_token q) now (da_grants d) h" for h
      using Inl check_lease_Inr_iff [of "da_snapshot d" "tm_token q" now "da_grants d" h] by simp
    ultimately show ?thesis by (simp add: v Inl grant_to_response_def refusal_response_def)
  next
    case (Inr h)
    have "honoured (da_snapshot d) (tm_token q) now (da_grants d) k \<longleftrightarrow> k = h" for k
      using Inr check_lease_Inr_iff [of "da_snapshot d" "tm_token q" now "da_grants d" k] by auto
    then show ?thesis by (simp add: v Inr grant_to_response_def)
  qed
qed

lemma summary_from_fields:
  "summary_from h = summary_from g \<Longrightarrow> g_scope h = g_scope g \<and> g_mode h = g_mode g \<and> g_id h = g_id g"
  by (simp add: summary_from_def)

text \<open>
  (C1) A daemon never confirms a lease it issued beside a conflicting one. Whatever commands a started daemon
  has served, in whatever order and with whatever answers of the disk, if it answers two validations at the
  same time with leases for different grants whose scopes meet in its snapshot, then neither lease is
  exclusive, or both grants were already in the registry when the daemon had started: both were recovered
  from its log. A daemon that starts on an empty log, or without a store, never confirms two conflicting
  leases. The log may hold conflicting grants, which the start does not compare with each other; what is
  asked of it (\<open>log_fits\<close>) is that the capacities of its grants add up without overflow, that no identity is
  above the fences seen and that the fence counter has room. The daemon's own composition, expiry,
  suspension, re-arming and roll back of a lease it could not log are all among the commands.
\<close>
theorem daemon_leases_exclusive:
  assumes "booted S d0" "run (daemon_step S) d0 ops d" "\<forall>t\<in>S. snapshot_sized t" "basis_injective S"
    and "fst (daemon_validate q1 now d) = grant_to_response g1 kOk"
    and "fst (daemon_validate q2 now d) = grant_to_response g2 kOk"
    and "t_grant (tm_token q1) \<noteq> t_grant (tm_token q2)"
    and "expand_scope (da_snapshot d) (g_scope g1) = Inr e1" "expand_scope (da_snapshot d) (g_scope g2) = Inr e2"
    and "scopes_intersect e1 e2"
  shows "(g_mode g1 \<noteq> GrantMode_kExclusive \<and> g_mode g2 \<noteq> GrantMode_kExclusive) \<or>
     (omap_get (rg_grants (da_grants d0)) (t_grant (tm_token q1)) \<noteq> None \<and>
      omap_get (rg_grants (da_grants d0)) (t_grant (tm_token q2)) \<noteq> None)"
proof (rule disj_imp [THEN iffD2], rule impI)
  assume x: "\<not> (g_mode g1 \<noteq> GrantMode_kExclusive \<and> g_mode g2 \<noteq> GrantMode_kExclusive)"
  have inv: "daemon_inv S d" using assms(1,2) by (rule daemon.inv_reachable)
  obtain h1 h2 where h: "honoured (da_snapshot d) (tm_token q1) now (da_grants d) h1"
      "honoured (da_snapshot d) (tm_token q2) now (da_grants d) h2"
    and s: "summary_from h1 = summary_from g1" "summary_from h2 = summary_from g2"
    using assms(5,6) daemon_validate_ok [OF inv] by blast
  have r: "registry_inv S (da_grants d)" "da_snapshot d \<in> S" using inv by (simp_all add: daemon_inv_def)
  note f = summary_from_fields [OF s(1)] summary_from_fields [OF s(2)]
  have "restored h1 \<and> restored h2"
    using honoured_conflict [OF r assms(3,4) h assms(7), of e1 e2] assms(8-10) x f by auto
  then show "omap_get (rg_grants (da_grants d0)) (t_grant (tm_token q1)) \<noteq> None \<and>
      omap_get (rg_grants (da_grants d0)) (t_grant (tm_token q2)) \<noteq> None"
    using h restored_from_start [OF assms(1,2)] unfolding honoured_def by blast
qed

theorem daemon_leases_exclusive_witness:
  "\<exists>d. fst (daemon_validate \<lparr>tm_token = grant_token (bare_grant 1)\<rparr> 20 d) = grant_to_response (bare_grant 1) kOk \<and>
     fst (daemon_validate \<lparr>tm_token = grant_token (bare_grant 2)\<rparr> 20 d) = grant_to_response (bare_grant 2) kOk \<and>
     g_mode (bare_grant 1) \<noteq> GrantMode_kExclusive \<and> g_mode (bare_grant 2) \<noteq> GrantMode_kExclusive"
proof -
  obtain st st' where b: "booted bare_racks (bare_daemon LifecycleState_kAssembling bare_reg st)"
    "run (daemon_step bare_racks) (bare_daemon LifecycleState_kAssembling bare_reg st)
      [Do_lifecycle \<lparr>ly_target = LifecycleState_kActive\<rparr> 5, Do_acquire (bare_acquire 1) 10, Do_acquire (bare_acquire 2) 10]
      (bare_daemon LifecycleState_kActive bare_reg2 st')" by (metis bare_run)
  let ?d = "bare_daemon LifecycleState_kActive bare_reg2 st'"
  have e: "expand_scope (da_snapshot ?d) (g_scope (bare_grant n)) = Inr [rack_ref]" for n
    by (simp add: bare_daemon_def bare_expand)
  have v: "fst (daemon_validate \<lparr>tm_token = grant_token (bare_grant 1)\<rparr> 20 ?d) = grant_to_response (bare_grant 1) kOk"
    "fst (daemon_validate \<lparr>tm_token = grant_token (bare_grant 2)\<rparr> 20 ?d) = grant_to_response (bare_grant 2) kOk"
    by (simp_all add: bare_validate)
  have none: "omap_get (rg_grants (da_grants (bare_daemon LifecycleState_kAssembling bare_reg st))) i = None" for i
    by (simp add: bare_daemon_def)
  have "g_mode (bare_grant 1) \<noteq> GrantMode_kExclusive \<and> g_mode (bare_grant 2) \<noteq> GrantMode_kExclusive"
    using daemon_leases_exclusive [OF b bare_racks_fit v _ e e] none by (simp add: grant_token_def)
  with v show ?thesis by blast
qed

end
