(* ===== verification/Rnf_Daemon_Guarantees.thy ===== *)
theory Rnf_Daemon_Guarantees
  imports Rnf_Daemon_Claims Rnf_Store_Files
begin

text \<open>
  What the daemon guarantees across its commands: counters that never go back, a dirty start that
  honours nothing until an operator moves the rack, and leases that are logged before they are answered.
\<close>

section \<open>Counters\<close>

lemma run_advance: "run (daemon_step S) d ops d' \<Longrightarrow> advance d d'"
proof (induction rule: run.induct)
  case (run_cons s l t ls u)
  then have "advance s t" using performs_apply [of S s l] by (auto simp: daemon_step_iff performs_def)
  then show ?case using run_cons.IH by (rule advance_trans)
qed simp

text \<open>
  (C36) The daemon's identity and counters. Along every run of commands of a started daemon the
  configuration and the incarnation stay what they were, the topology generation and the rack epoch never
  decrease, a store is neither gained nor lost, a retired rack stays retired, and the current snapshot is
  one of the configured rack that is never ahead of the epoch and generation the daemon reports.
\<close>
theorem daemon_monotone:
  assumes "booted S d0" "run (daemon_step S) d0 ops d" "run (daemon_step S) d ops' d'"
  shows "da_config d' = da_config d \<and> da_incarnation d' = da_incarnation d \<and>
    da_generation d \<le> da_generation d' \<and> da_epoch d \<le> da_epoch d' \<and> (da_store d' = None \<longleftrightarrow> da_store d = None) \<and>
    (da_lifecycle d = LifecycleState_kRetired \<longrightarrow> da_lifecycle d' = LifecycleState_kRetired) \<and>
    snapshot_valid (da_snapshot d') \<and> sd_rack (sn_data (da_snapshot d')) = rc_rack (dc_rack (da_config d')) \<and>
    sd_epoch (sn_data (da_snapshot d')) \<le> da_epoch d' \<and> sd_generation (sn_data (da_snapshot d')) \<le> da_generation d'"
proof -
  have "daemon_inv S d" using assms(1,2) by (rule daemon.inv_reachable)
  moreover have "advance d d'" using assms(3) by (rule run_advance)
  ultimately show ?thesis by (simp add: advance_def daemon_inv_def snapshot_fits_def)
qed

theorem daemon_monotone_witness:
  "\<exists>st st'. da_epoch (bare_daemon LifecycleState_kAssembling bare_reg st) \<le>
     da_epoch (bare_daemon LifecycleState_kActive bare_reg2 st')"
  using bare_run daemon_monotone [OF _ run.run_nil] by metis

section \<open>The lifecycle stamp\<close>

text \<open>A command that is not a lifecycle command keeps the lifecycle, and a snapshot it composes carries it.\<close>

definition steady :: "daemon_core \<Rightarrow> daemon_core \<Rightarrow> bool" where
  "steady d d' \<longleftrightarrow>
     da_lifecycle d' = da_lifecycle d \<and>
     (da_snapshot d' = da_snapshot d \<or> sd_lifecycle (sn_data (da_snapshot d')) = da_lifecycle d)"

lemma steady_refl [simp]: "steady d d"
  by (simp add: steady_def)

lemma steady_trans: "steady d d' \<Longrightarrow> steady d' d'' \<Longrightarrow> steady d d''"
  by (auto simp: steady_def)

lemma steady_quiet: "quiet d d' \<Longrightarrow> steady d d'"
  by (simp add: steady_def quietD)

lemma steady_same: "da_lifecycle d' = da_lifecycle d \<Longrightarrow> da_snapshot d' = da_snapshot d \<Longrightarrow> steady d d'"
  by (simp add: steady_def)

lemma steady_compose: "steady d (snd (compose_locked target d))"
proof -
  obtain st d' where c: "compose_locked target d = (st, d')" by fastforce
  then show ?thesis
  proof (cases rule: compose_locked_cases)
    case (not_logged m)
    then show ?thesis using quietD [OF not_logged(3)] by (simp add: c steady_def)
  next
    case (adopted s e x)
    then show ?thesis
      using quietD [OF adopted(6)] compose_stamps(4) [OF adopted(5)] by (simp add: c steady_def compose_request_def)
  qed (simp add: c)
qed

lemma steady_ensure: "steady d (snd (ensure_snapshot_locked d))"
  by (simp add: ensure_snapshot_locked_def steady_compose)

lemma steady_append: "steady d (snd (append_locked p d))"
  by (rule steady_quiet [OF append_quiet])

lemma steady_checkpoint: "steady d (snd (maybe_checkpoint_locked d))"
  by (rule steady_quiet [OF maybe_checkpoint_quiet])

lemma steady_expire: "steady d (snd (expire_due_locked now d))"
  using quietD [OF expire_due_quiet, of now d] by (intro steady_same) simp_all

lemma steady_submits: "steady d (snd (submit_records rs d))"
  using submit_records_quiet [of d rs] by (auto simp: steady_def quietD)

lemma steady_then_answer:
  "steady d (snd p) \<Longrightarrow> (\<And>e. steady e (snd (k e))) \<Longrightarrow> steady d (snd (then_answer p k))"
  by (auto simp: then_answer_snd intro: steady_trans)

lemma steady_grants: "steady d d' \<Longrightarrow> steady d (d'\<lparr>da_grants := r\<rparr>)"
  by (simp add: steady_def)

lemma steady_commit: "steady d (snd (commit_grant q g now d))"
proof -
  obtain ast d1 where a: "append_locked (SP_Grant g) d = (ast, d1)" by fastforce
  obtain bst d2 where b: "append_locked (SP_RequestOutcome (outcome_record_of q g)) d1 = (bst, d2)" by fastforce
  have d1: "steady d d1" using steady_append [of d "SP_Grant g"] by (simp add: a)
  then have d2: "steady d d2" using steady_append [of d1] b steady_trans by (metis snd_conv)
  then have "steady d (d2\<lparr>da_stats := st\<rparr>)" for st by (simp add: steady_def)
  from steady_trans [OF this steady_checkpoint] d1 d2 show ?thesis
    by (simp add: commit_grant_def a b) (simp add: steady_def take_back_def note_refused_def)
qed

lemma steady_acquire: "steady d (snd (daemon_acquire q now d))"
proof -
  have core: "steady d (acquire_core now d)"
    unfolding acquire_core_def by (rule steady_trans [OF steady_expire steady_ensure])
  show ?thesis
  proof (cases rule: daemon_acquire_cases [of q now d])
    case (granted g r)
    then show ?thesis using steady_trans [OF steady_grants [OF core] steady_commit] by simp
  qed (use core in \<open>simp_all add: steady_def note_refused_def\<close>)
qed

lemma steady_submit: "steady d (snd (daemon_submit_evidence q now d))"
proof -
  obtain acks e where e: "submit_records (sv_records q) (snd (expire_due_locked now d)) = (acks, e)" by fastforce
  have "steady d e" using steady_trans [OF steady_expire steady_submits, of d "sv_records q" now] by (simp add: e)
  then show ?thesis
    using steady_trans [OF _ steady_checkpoint] steady_trans [OF _ steady_compose]
    by (simp add: daemon_submit_evidence_def Let_def e)
qed

lemma steady_command_compose: "steady d (snd (daemon_compose q d))"
proof -
  have gen: "steady d (d'\<lparr>da_generation := x\<rparr>)" if "steady d d'" for d' x using that by (simp add: steady_def)
  define p where "p = (if cc_generation q > da_generation d
           then then_ok (append_locked (SP_Generation (cc_generation q)) d) (\<lambda>d. (ok_status, d\<lparr>da_generation := cc_generation q\<rparr>))
           else (ok_status, d))"
  have p: "steady d (snd p)" using steady_append [of d] by (simp add: p_def then_ok_snd gen)
  let ?c = "snd (compose_locked (da_generation (snd p)) (snd p))"
  have c: "steady d ?c" using p steady_compose by (rule steady_trans)
  have "snd (daemon_compose q d) \<in> {d, snd p, ?c, snd (maybe_checkpoint_locked ?c)}"
    by (auto simp: daemon_compose_def p_def [symmetric] then_answer_snd Let_def split: prod.splits)
  then show ?thesis using p c steady_trans [OF c steady_checkpoint] by auto
qed

lemma steady_apply:
  assumes "\<And>q now. op \<noteq> Do_lifecycle q now"
  shows "steady d (daemon_apply op d)"
proof (cases op)
  case (Do_renew q now)
  have "steady e (snd (maybe_checkpoint_locked e))" for e by (rule steady_checkpoint)
  then show ?thesis
    unfolding Do_renew daemon_apply.simps daemon_renew_def
    by (intro steady_then_answer steady_ensure)
      (auto split: sum.splits prod.splits intro!: steady_then_answer steady_grants
        intro: steady_trans [OF _ steady_append, OF steady_grants, OF steady_refl])
next
  case (Do_release q now)
  then show ?thesis
    by (auto simp: daemon_release_def Let_def split: prod.splits intro!: steady_then_answer steady_checkpoint steady_grants
        intro: steady_trans [OF _ steady_append, OF steady_grants, OF steady_refl])
next
  case Do_checkpoint
  obtain st e where e: "ensure_snapshot_locked d = (st, e)" by fastforce
  then have "steady d e" using steady_ensure [of d] by simp
  moreover have "steady d (snd (checkpoint_write c s e))" if "da_store e = Some s" for c s
    using steady_trans [OF \<open>steady d e\<close> steady_quiet [OF checkpoint_write_quiet [OF that]]] .
  moreover have "snd (daemon_checkpoint d) = d \<or> snd (daemon_checkpoint d) = e \<or>
      (\<exists>c s. da_store e = Some s \<and> snd (daemon_checkpoint d) = snd (checkpoint_write c s e))"
    by (auto simp: daemon_checkpoint_def e Let_def split: option.splits sum.splits prod.splits) (metis snd_conv)+
  ultimately show ?thesis using Do_checkpoint by auto
next
  case (Do_stop now sync_io meta_io)
  then show ?thesis by (auto simp: daemon_stop_def Let_def steady_def split: option.splits prod.splits)
qed (use assms in \<open>simp_all add: steady_submit steady_command_compose steady_acquire query_core steady_ensure steady_expire\<close>)

section \<open>Dirty starts\<close>

lemma not_honouring_refuses:
  assumes "snapshot_valid (da_snapshot d)" "\<not> lifecycle_honours_existing_authority (sd_lifecycle (sn_data (da_snapshot d)))"
  shows "fst (daemon_validate q now d) \<noteq> grant_to_response g kOk" "fst (daemon_renew p now d) \<noteq> grant_to_response g kOk"
proof -
  have e: "ensure_snapshot_locked d = (ok_status, d)" using assms(1) by (simp add: ensure_snapshot_locked_def)
  have "\<not> honoured (da_snapshot d) token now (da_grants d) h" for token h using assms(2) by (simp add: honoured_def)
  then have "\<exists>st. check_lease (da_snapshot d) token now (da_grants d) = Inl st \<and> st_code st \<noteq> kOk" for token
    using check_lease_Inl check_lease_Inr_iff by (metis sum.exhaust)
  then obtain f where f: "\<And>token. check_lease (da_snapshot d) token now (da_grants d) = Inl (f token)" "\<And>token. st_code (f token) \<noteq> kOk"
    by metis
  show "fst (daemon_validate q now d) \<noteq> grant_to_response g kOk"
    by (simp add: daemon_validate_def then_answer_def e validate_def f refusal_response_def grant_to_response_def)
  show "fst (daemon_renew p now d) \<noteq> grant_to_response g kOk"
    by (simp add: daemon_renew_def then_answer_def e renew_def f refusal_response_def grant_to_response_def)
qed

lemma steady_fold:
  assumes "\<forall>op\<in>set ops. \<forall>q now. op \<noteq> Do_lifecycle q now"
  shows "steady d (fold daemon_apply ops d) \<and> advance d (fold daemon_apply ops d)"
  using assms
proof (induction ops arbitrary: d)
  case (Cons op ops)
  then have "steady d (daemon_apply op d)" "advance d (daemon_apply op d)"
    using steady_apply [of op d] performs_apply [of "{}" d op] by (auto simp: performs_def)
  with Cons.IH [of "daemon_apply op d"] Cons.prems show ?case by (auto intro: steady_trans advance_trans)
qed simp

text \<open>
  (C6) A dirty start honours nothing. When the daemon starts on a store whose previous process did not
  shut down cleanly, the rack comes up recovering, and whatever commands it serves after that, in any
  order and with any answers of the disk, no lease is confirmed and none is renewed until an operator
  gives a lifecycle command.
\<close>
theorem dirty_start_honours_nothing:
  assumes "daemon_start io now (daemon_new config os) = (ok_status, d0)" "da_dirty_recovery d0" "da_store d0 \<noteq> None"
    and "\<forall>op\<in>set ops. \<forall>q t. op \<noteq> Do_lifecycle q t" "d = fold daemon_apply ops d0"
  shows "da_lifecycle d = LifecycleState_kRecovering \<and>
    (\<forall>q p t g. fst (daemon_validate q t d) \<noteq> grant_to_response g kOk \<and> fst (daemon_renew p t d) \<noteq> grant_to_response g kOk)"
proof -
  obtain st gs sts d1 where p: "daemon_prepare io (daemon_new config os) = (st, gs, sts, d1)" "status_ok st"
    "d0 = restore_grants gs sts now d1" using daemon_start_Inr [OF assms(1)] by blast
  have new: "vacant {} (da_grants (daemon_new config os))" "ledger_ok (da_ledger (daemon_new config os))"
    "\<not> snapshot_valid (da_snapshot (daemon_new config os))"
    by (simp_all add: daemon_new_def vacant_new ledger_ok_new empty_handle_def snapshot_valid_def)
  note facts = daemon_prepare_facts [OF p(1,2) new]
  have d0: "da_lifecycle d0 = LifecycleState_kRecovering" "snapshot_valid (da_snapshot d0)"
    "sd_lifecycle (sn_data (da_snapshot d0)) = LifecycleState_kRecovering"
    using facts(3,6,7) assms(2,3) p(3) by (auto simp: restore_grants_eq)
  have "steady d0 d" "advance d0 d" using steady_fold [OF assms(4), of d0] assms(5) by simp_all
  then have "da_lifecycle d = LifecycleState_kRecovering" "snapshot_valid (da_snapshot d)"
    "sd_lifecycle (sn_data (da_snapshot d)) = LifecycleState_kRecovering"
    using d0 by (auto simp: steady_def advance_def)
  then show ?thesis using not_honouring_refuses [of d] by (simp add: lifecycle_honours_existing_authority_def)
qed

text \<open>A store whose log is there but whose manifest was never written: the previous process died early.\<close>

definition crashed_config :: daemon_config where
  "crashed_config = bare_config\<lparr>dc_store_directory := ''d''\<rparr>"

definition crashed_io :: start_io where
  "crashed_io = \<lparr>si_files = no_files\<lparr>fs_wal := Some []\<rparr>, si_open = open_io_ok, si_incarnation = None, si_bind = None\<rparr>"

definition crashed_store :: store where
  "crashed_store = opened ''d'' default_store_options (no_files\<lparr>fs_wal := Some []\<rparr>)
     (empty_meta, 0, empty_checkpoint, empty_report\<lparr>rr_manifest_missing := True\<rparr>) sample_start"

lemma crashed_store_simps [simp]:
  "so_bound_rack crashed_store = 0" "\<not> rr_fresh_store (so_report crashed_store)" "so_records crashed_store = []"
  "\<not> rr_clean_shutdown (so_report crashed_store)" "so_checkpoint crashed_store = empty_checkpoint"
  "so_incarnation_counter crashed_store = 0" "so_wal_open crashed_store" "so_log_bytes crashed_store = 0"
  "so_options crashed_store = default_store_options" "so_appends crashed_store = 0"
  "fs_wal (so_files crashed_store) = Some []"
  by (simp_all add: crashed_store_def opened_def Let_def replay_start_def empty_report_def empty_meta_def)

lemma crashed_boot:
  obtains d where "daemon_start crashed_io now (daemon_new crashed_config calm) = (ok_status, d)"
    "da_dirty_recovery d" "da_store d \<noteq> None"
proof -
  obtain x where c: "compose (ledger_new default_evidence_limits) (dc_rack bare_config)
     \<lparr>ci_generation = 0, ci_epoch = 0, ci_lifecycle = LifecycleState_kRecovering, ci_limits = default_compose_limits\<rparr> =
     Inr (bare_rack LifecycleState_kRecovering, x)" using bare_compose by blast
  have opts: "default_store_options\<lparr>op_fsync_on_append := dc_fsync_on_append crashed_config\<rparr> = default_store_options"
    by (simp add: default_store_options_def crashed_config_def bare_config_def)
  have cfg: "dc_store_directory crashed_config = ''d''" "dc_rack crashed_config = dc_rack bare_config"
    "dc_evidence_limits crashed_config = default_evidence_limits" "dc_compose_limits crashed_config = default_compose_limits"
    by (simp_all add: crashed_config_def)
  let ?n = "(daemon_new crashed_config calm)\<lparr>da_started := True\<rparr>"
  have n: "da_config ?n = crashed_config" "da_lifecycle ?n = LifecycleState_kAssembling"
    "da_ledger ?n = ledger_new default_evidence_limits" "da_generation ?n = 0" "da_epoch ?n = 0"
    "\<not> da_membership_initialized ?n" by (simp_all add: daemon_new_def cfg)
  have "store_open ''d'' default_store_options open_io_ok (no_files\<lparr>fs_wal := Some []\<rparr>) = Inr crashed_store"
    by (simp add: sample_open crashed_store_def)
  then have "\<exists>s st. daemon_open crashed_io ?n = (ok_status, [], [], ?n\<lparr>da_store := Some s, da_dirty_recovery := True,
      da_incarnation := 1, da_stats := st\<rparr>)"
    by (simp add: daemon_open_def daemon_new_def cfg opts crashed_io_def recover_checkpoint_def empty_checkpoint_def
        next_incarnation_def bind_rack_def persist_meta_def Let_def id_is_set_def)
  then obtain s st where op: "daemon_open crashed_io ?n = (ok_status, [], [], ?n\<lparr>da_store := Some s, da_dirty_recovery := True,
      da_incarnation := 1, da_stats := st\<rparr>)" by blast
  define e where "e = ?n\<lparr>da_store := Some s, da_dirty_recovery := True, da_incarnation := 1, da_stats := st\<rparr>"
  have e: "da_store e = Some s" "da_dirty_recovery e" "da_config e = crashed_config" "da_lifecycle e = LifecycleState_kAssembling"
    "da_ledger e = ledger_new default_evidence_limits" "da_generation e = 0" "da_epoch e = 0" "\<not> da_membership_initialized e"
    by (simp_all add: e_def daemon_new_def cfg)
  have "daemon_prepare crashed_io (daemon_new crashed_config calm) = (ok_status, [], [],
      adopt_snapshot (bare_rack LifecycleState_kRecovering)
        (e\<lparr>da_grants := set_incarnation (da_incarnation e) (da_grants e), da_lifecycle := LifecycleState_kRecovering,
           da_membership_initialized := True, da_member_set_digest := member_set_digest []\<rparr>))"
    unfolding daemon_prepare_def Let_def
    by (simp add: op [folded e_def] n cfg e start_lifecycle_def compose_locked_def accepts_compose_def compose_request_def c)
  then have "daemon_start crashed_io now (daemon_new crashed_config calm) = (ok_status, restore_grants [] [] now
      (adopt_snapshot (bare_rack LifecycleState_kRecovering)
        (e\<lparr>da_grants := set_incarnation (da_incarnation e) (da_grants e), da_lifecycle := LifecycleState_kRecovering,
           da_membership_initialized := True, da_member_set_digest := member_set_digest []\<rparr>)))"
    by (simp add: daemon_start_def new_not_started)
  from that [OF this] show thesis by (simp add: restore_grants_eq adopt_snapshot_def e(1,2))
qed

theorem dirty_start_honours_nothing_witness:
  "\<exists>d. da_dirty_recovery d \<and> da_lifecycle d = LifecycleState_kRecovering \<and>
     fst (daemon_validate \<lparr>tm_token = grant_token (bare_grant 1)\<rparr> 20 d) \<noteq> grant_to_response (bare_grant 1) kOk"
proof -
  obtain d where d: "daemon_start crashed_io 1 (daemon_new crashed_config calm) = (ok_status, d)"
    "da_dirty_recovery d" "da_store d \<noteq> None" by (rule crashed_boot)
  show ?thesis using dirty_start_honours_nothing [OF d, of "[]" d] d(2) by auto
qed

section \<open>Durability of leases\<close>

lemma acquire_new_Inl_not_ok:
  assumes "acquire_new s q inc now allow r = (Inl st, r')"
  shows "\<not> status_ok st"
proof -
  have scope: "\<not> status_ok e" if "expand_scope s root = Inl e" for e root
    using that by (auto simp: expand_scope_def status_ok_def dest!: rnf_try_Inl split: if_splits option.splits)
  have eligible: "\<not> status_ok e" if "eligibility_scan s refs = Some (b, e)" for b e refs
    using that by (induction refs) (auto simp: status_ok_def split: option.splits if_splits)
  have occupants: "\<not> status_ok e" if "occupant_scan r m ref xs = Some e" for m ref xs e
    using that by (induction xs) (auto simp: status_ok_def split: option.splits if_splits)
  have conflicts: "\<not> status_ok e" if "conflict_scan r m refs = Some e" for m refs e
    using that by (induction refs) (auto dest: occupants split: option.splits)
  have pool: "\<not> status_ok e" if "capacity_pool_refs s root = Inl e" for e root
    using that by (auto simp: capacity_pool_refs_def status_ok_def Let_def split: if_splits option.splits)
  show ?thesis
    using assms
    by (auto simp: acquire_new_def refuse_def issue_cases Let_def dest: scope eligible conflicts pool
        split: if_splits sum.splits option.splits prod.splits)
qed

lemma acquire_Inl_not_ok: "acquire s q inc now allow r = (Inl st, r') \<Longrightarrow> \<not> status_ok st"
  by (auto simp: acquire_def status_ok_def split: if_splits option.splits dest: acquire_new_Inl_not_ok [unfolded status_ok_def])

text \<open>What an append that succeeded has written.\<close>

definition logged :: "store_payload \<Rightarrow> store \<Rightarrow> u8 list \<Rightarrow> bool" where
  "logged p s bs \<longleftrightarrow>
     (\<exists>st w. encode_store_record (typed_record p) (bw_new (op_max_record_bytes (so_options s))) = Some (st, w) \<and>
        status_ok st \<and> bs = wal_frame (bw_buffer w))"

lemma store_append_success:
  assumes "store_append (typed_record p) io s = Some (st, s')" "status_ok st"
  shows "\<exists>bs. logged p s bs \<and> wal_of (so_files s') = wal_of (so_files s) @ bs \<and> so_options s' = so_options s"
proof -
  obtain est w where e: "encode_store_record (typed_record p) (bw_new (op_max_record_bytes (so_options s))) = Some (est, w)"
    using assms by (auto simp: store_append_def status_ok_def split: if_splits)
  have wal: "wal_of (so_files (wal_write bs s)) = wal_of (so_files s) @ bs" for bs
    by (simp add: wal_write_def split: option.splits)
  have "status_ok est \<and> wal_of (so_files s') = wal_of (so_files s) @ wal_frame (bw_buffer w) \<and> so_options s' = so_options s"
    using assms wal by (cases io) (auto simp: store_append_def e Let_def wal_write_def status_ok_def split: if_splits)
  then show ?thesis using e by (auto simp: logged_def)
qed

lemma append_locked_success:
  assumes "append_locked p d = (st, d')" "status_ok st" "da_store d = Some s"
  obtains s' bs where "da_store d' = Some s'" "logged p s bs" "wal_of (so_files s') = wal_of (so_files s) @ bs"
    "so_options s' = so_options s"
proof -
  obtain io os where io: "next_append (da_os d) = (io, os)" by fastforce
  obtain ast s' where a: "store_append (typed_record p) io s = Some (ast, s')" using append_typed_record [of p io s] by auto
  have "status_ok ast" "da_store d' = Some s'"
    using assms by (auto simp: append_locked_def io a Let_def split: if_splits)
  with store_append_success [OF a] that show thesis by blast
qed

lemma checkpoint_keeps_log:
  "da_store d = Some s \<Longrightarrow> \<exists>s'. da_store (snd (maybe_checkpoint_locked d)) = Some s' \<and> wal_of (so_files s') = wal_of (so_files s) \<and>
     so_options s' = so_options s"
proof -
  assume s: "da_store d = Some s"
  have "wal_of (so_files (snd (write_checkpoint c rotated io meta_io s))) = wal_of (so_files s) \<and>
      so_options (snd (write_checkpoint c rotated io meta_io s)) = so_options s" for c rotated io meta_io
    by (auto simp: write_checkpoint_def persist_meta_def Let_def split: sum.splits option.splits)
  then have "\<exists>s'. da_store (snd (checkpoint_write c s d)) = Some s' \<and> wal_of (so_files s') = wal_of (so_files s) \<and>
      so_options s' = so_options s" for c
    by (auto simp: checkpoint_write_def Let_def split: prod.splits) (metis snd_conv)+
  then show ?thesis using s by (auto simp: maybe_checkpoint_locked_def split: sum.splits)
qed

lemma acquire_Inr_held: "acquire s q inc now allow r = (Inr g, r') \<Longrightarrow> \<exists>i. omap_get (rg_grants r') i = Some g"
  by (auto simp: acquire_def acquire_new_Inr_iff remember_def enter_def omap_get_put split: if_splits option.splits)

text \<open>
  (C4) A lease that was answered is on disk. When the daemon keeps a store and answers an acquire with a
  lease, the log ends with the two records the store writes for exactly that grant: the grant itself and
  the outcome of its request. This holds whatever the disk answered before, for new grants and for
  repeated requests alike.
\<close>
theorem lease_is_durable:
  assumes "daemon_acquire q now d = (Inr a, d')" "gn_code a = kOk" "da_store d \<noteq> None"
  shows "\<exists>g s before r1 r2. a = \<lparr>gn_code = kOk, gn_grant = summary_from g, gn_detail = g_reason g\<rparr> \<and>
    (\<exists>i. omap_get (rg_grants (da_grants d')) i = Some g) \<and> da_store d' = Some s \<and>
    logged (SP_Grant g) s r1 \<and> logged (SP_RequestOutcome (outcome_record_of (aq_request q) g)) s r2 \<and>
    wal_of (so_files s) = before @ r1 @ r2"
proof (cases rule: daemon_acquire_cases [of q now d])
  case not_ready
  then show ?thesis using assms by simp
next
  case (refused st r)
  have "\<not> status_ok st" using refused(1) acquire_Inl_not_ok by (fastforce simp: acquire_answer_def)
  then show ?thesis using refused(2) assms by (auto simp: refusal_response_def status_ok_def)
next
  case (granted g r)
  let ?e = "(acquire_core now d)\<lparr>da_grants := r\<rparr>"
  have "da_store ?e \<noteq> None" using acquire_core_facts(1) [of d now] assms(3) by (simp add: advance_def)
  then obtain s0 where s0: "da_store ?e = Some s0" by auto
  obtain ast d1 where a: "append_locked (SP_Grant g) ?e = (ast, d1)" by fastforce
  obtain bst d2 where b: "append_locked (SP_RequestOutcome (outcome_record_of (aq_request q) g)) d1 = (bst, d2)" by fastforce
  let ?i = "d2\<lparr>da_stats := (da_stats d2)\<lparr>ds_grants_issued := ds_grants_issued (da_stats d2) + 1\<rparr>\<rparr>"
  have ok: "status_ok ast" "status_ok bst" "d' = snd (maybe_checkpoint_locked ?i)" "Inr a = grant_to_response g kOk"
    using assms(1) granted(2) by (auto simp: commit_grant_def a b split: if_splits)
  obtain s1 r1 where s1: "da_store d1 = Some s1" "logged (SP_Grant g) s0 r1"
    "wal_of (so_files s1) = wal_of (so_files s0) @ r1" "so_options s1 = so_options s0"
    using append_locked_success [OF a ok(1) s0] .
  obtain s2 r2 where s2: "da_store d2 = Some s2" "logged (SP_RequestOutcome (outcome_record_of (aq_request q) g)) s1 r2"
    "wal_of (so_files s2) = wal_of (so_files s1) @ r2" "so_options s2 = so_options s1"
    using append_locked_success [OF b ok(2) s1(1)] .
  obtain s where s: "da_store d' = Some s" "wal_of (so_files s) = wal_of (so_files s2)" "so_options s = so_options s2"
    using checkpoint_keeps_log [of ?i s2] s2(1) ok(3) by auto
  have "da_grants d1 = da_grants ?e" using append_quiet [of ?e "SP_Grant g"] by (simp add: a quietD)
  moreover have "da_grants d2 = da_grants d1"
    using append_quiet [of d1 "SP_RequestOutcome (outcome_record_of (aq_request q) g)"] by (simp add: b quietD)
  moreover have "da_grants d' = da_grants d2" using quietD(3) [OF maybe_checkpoint_quiet, of ?i] ok(3) by simp
  ultimately have "\<exists>i. omap_get (rg_grants (da_grants d')) i = Some g"
    using acquire_Inr_held granted(1) by (simp add: acquire_answer_def)
  then show ?thesis using s s1 s2 ok(4) by (auto simp: grant_to_response_def logged_def)
qed

definition stored_daemon :: "registry \<Rightarrow> daemon_core" where
  "stored_daemon r = (bare_daemon LifecycleState_kActive r empty_daemon_stats)\<lparr>da_store := Some crashed_store\<rparr>"

lemma bare_grant_loggable: "loggable default_store_options (typed_record (SP_Grant (bare_grant n)))"
  by (simp add: loggable_def record_ok_def typed_record_def record_bytes_def default_store_options_def grant_ok_def
      kMaxPoolRefs_def grant_calls_def ref_calls_def counted_calls_def string_bytes_def is_valid_utf8.simps)

lemma bare_outcome_loggable:
  "loggable default_store_options (typed_record (SP_RequestOutcome (outcome_record_of q (bare_grant n))))"
  by (simp add: loggable_def record_ok_def typed_record_def record_bytes_def default_store_options_def outcome_record_of_def
      kMaxDetailText_def string_bytes_def ascii_valid_utf8 grant_digest_def split: prod.splits)

lemma stored_acquire:
  obtains d' where "daemon_acquire (bare_acquire 1) 10 (stored_daemon bare_reg) =
    (Inr \<lparr>gn_code = kOk, gn_grant = summary_from (bare_grant 1), gn_detail = []\<rparr>, d')"
proof -
  have q: "grant_request_of (bare_acquire 1) (stored_daemon bare_reg) = bare_request 1"
    by (simp add: grant_request_of_def bare_acquire_def bare_request_def)
  have acq: "daemon_acquire (bare_acquire 1) 10 (stored_daemon bare_reg) =
      commit_grant (RequestId 0 1) (bare_grant 1) 10 (stored_daemon bare_reg1)"
    using bare_expire(1) bare_acquires(1) q
    by (simp add: daemon_acquire_def expire_due_locked_def ensure_snapshot_locked_def then_answer_def stored_daemon_def
        bare_daemon_def lifecycle_accepts_new_authority_def) (simp add: bare_acquire_def)
  have app: "\<exists>d' s'. append_locked p d = (ok_status, d') \<and> da_store d' = Some s' \<and> so_options s' = default_store_options \<and>
      so_wal_open s' \<and> da_os d' = calm"
    if "da_store d = Some s" "so_options s = default_store_options" "so_wal_open s" "da_os d = calm"
      "loggable default_store_options (typed_record p)" for p d s
    using append_ok_succeeds [of s "typed_record p"] that
    by (auto simp: append_locked_def next_append_def calm_def Let_def)
  obtain d1 s1 where 1: "append_locked (SP_Grant (bare_grant 1)) (stored_daemon bare_reg1) = (ok_status, d1)"
    "da_store d1 = Some s1" "so_options s1 = default_store_options" "so_wal_open s1" "da_os d1 = calm"
    using app [of "stored_daemon bare_reg1" crashed_store, OF _ _ _ _ bare_grant_loggable [of 1]]
    by (auto simp: stored_daemon_def bare_daemon_def)
  obtain d2 where 2: "append_locked (SP_RequestOutcome (outcome_record_of (RequestId 0 1) (bare_grant 1))) d1 = (ok_status, d2)"
    using app [OF 1(2-5) bare_outcome_loggable] by blast
  show thesis using that acq by (simp add: commit_grant_def 1 2 grant_to_response_def)
qed

theorem lease_is_durable_witness:
  "\<exists>d' g s before r1 r2. daemon_acquire (bare_acquire 1) 10 (stored_daemon bare_reg) =
      (Inr \<lparr>gn_code = kOk, gn_grant = summary_from g, gn_detail = g_reason g\<rparr>, d') \<and> da_store d' = Some s \<and>
    logged (SP_Grant g) s r1 \<and> wal_of (so_files s) = before @ r1 @ r2"
proof -
  obtain d' where a: "daemon_acquire (bare_acquire 1) 10 (stored_daemon bare_reg) =
    (Inr \<lparr>gn_code = kOk, gn_grant = summary_from (bare_grant 1), gn_detail = []\<rparr>, d')" by (rule stored_acquire)
  have "da_store (stored_daemon bare_reg) \<noteq> None" by (simp add: stored_daemon_def)
  from lease_is_durable [OF a _ this] obtain g s before r1 r2 where
    "\<lparr>gn_code = kOk, gn_grant = summary_from (bare_grant 1), gn_detail = []\<rparr> =
       \<lparr>gn_code = kOk, gn_grant = summary_from g, gn_detail = g_reason g\<rparr>" "da_store d' = Some s"
    "logged (SP_Grant g) s r1" "wal_of (so_files s) = before @ r1 @ r2" by auto
  with a show ?thesis by metis
qed

section \<open>Leases that could not be logged\<close>

lemma release_live:
  assumes "omap_get (rg_grants (snd (release token now r))) i = Some h" "g_live h"
  shows "omap_get (rg_grants r) i = Some h"
proof (cases "rg_grants (snd (release token now r)) = rg_grants r")
  case False
  then obtain g where "rg_grants (snd (release token now r)) =
      omap_put (t_grant token) (g\<lparr>g_state := GrantState_kReleased, g_reason := ''released by holder''\<rparr>) (rg_grants r)"
    by (auto simp: release_def retire_def Let_def split: option.splits if_splits)
  with assms show ?thesis by (auto simp: omap_get_put is_live_state_def split: if_splits)
qed (use assms in simp)

lemma release_own:
  assumes "omap_get (rg_grants r) (g_id g) = Some g" "omap_get (rg_grants (snd (release (grant_token g) now r))) (g_id g) = Some h"
  shows "\<not> g_live h"
  using assms by (auto simp: release_def grant_token_def retire_def Let_def omap_get_put is_live_state_def split: if_splits)

lemma commit_failed:
  assumes "commit_grant q g now d = (Inl st, d')"
  shows "da_grants d' = snd (release (grant_token g) now (da_grants d))"
proof -
  obtain ast d1 where a: "append_locked (SP_Grant g) d = (ast, d1)" by fastforce
  obtain bst d2 where b: "append_locked (SP_RequestOutcome (outcome_record_of q g)) d1 = (bst, d2)" by fastforce
  have "quiet d d1" "quiet d1 d2" using append_quiet a b by (metis snd_conv)+
  then have "da_grants d1 = da_grants d" "da_grants d2 = da_grants d" by (simp_all add: quietD)
  then show ?thesis
    using assms by (auto simp: commit_grant_def a b take_back_def note_refused_def grant_to_response_def split: if_splits)
qed

lemma acquire_Inr_grants:
  "acquire s q inc now allow r = (Inr g, r') \<Longrightarrow> rg_grants r' = rg_grants r \<or> rg_grants r' = omap_put (g_id g) g (rg_grants r)"
  by (auto simp: acquire_def acquire_new_Inr_iff remember_def enter_def split: if_splits option.splits)

text \<open>
  (C5) A lease the daemon could not log is not held. When an acquire ends with an error, for example
  because one of its two records could not be written, every lease that is live afterwards was live
  before with the same terms: the attempt leaves no authority behind, although the registry had already
  entered the grant when the write failed.
\<close>
theorem failed_acquire_leaves_no_lease:
  assumes "daemon_inv S d" "daemon_acquire q now d = (Inl st, d')"
    and "omap_get (rg_grants (da_grants d')) i = Some h" "g_live h"
  shows "omap_get (rg_grants (da_grants d)) i = Some h"
proof -
  have inv: "registry_inv S (da_grants d)" using assms(1) by (simp add: daemon_inv_def)
  let ?r0 = "snd (expire_due now (da_grants d))"
  have expired: "omap_get (rg_grants (da_grants d)) i = Some h" if "omap_get (rg_grants ?r0) i = Some h"
    using that assms(4) expire_due_facts(2) [OF inv, of now i]
    by (auto simp: expired_as_def is_live_state_def split: if_splits)
  show ?thesis
  proof (cases rule: daemon_acquire_cases [of q now d])
    case not_ready
    then show ?thesis using assms(2,3) expired by (simp add: acquire_core_facts(2))
  next
    case (refused x r)
    then show ?thesis using assms(2) by simp
  next
    case (granted g r)
    have "da_grants d' = snd (release (grant_token g) now r)"
      using commit_failed [of "aq_request q" g now "(acquire_core now d)\<lparr>da_grants := r\<rparr>" st d'] assms(2) granted(2) by simp
    then have rel: "omap_get (rg_grants (snd (release (grant_token g) now r))) i = Some h" using assms(3) by simp
    note held = release_live [OF rel assms(4)]
    from acquire_Inr_grants granted(1) consider "rg_grants r = rg_grants ?r0"
      | "rg_grants r = omap_put (g_id g) g (rg_grants ?r0)"
      unfolding acquire_answer_def acquire_core_facts(2) by blast
    then show ?thesis
    proof cases
      case 1
      then show ?thesis using held expired by simp
    next
      case 2
      then have "i \<noteq> g_id g" using release_own [of r g now h] rel assms(4) by (auto simp: omap_get_put)
      then show ?thesis using held expired 2 by (simp add: omap_get_put)
    qed
  qed
qed

theorem failed_acquire_leaves_no_lease_witness:
  "\<exists>d d' st. daemon_acquire (bare_acquire 2) 10 d = (Inl st, d') \<and>
     omap_get (rg_grants (da_grants d')) 1 = Some (bare_grant 1) \<and> omap_get (rg_grants (da_grants d)) 1 = Some (bare_grant 1)"
proof -
  obtain sm where "daemon_inv bare_racks (bare_daemon LifecycleState_kActive bare_reg1 sm)"
    by (metis bare_run daemon.inv_reachable)
  define d where "d = (bare_daemon LifecycleState_kActive bare_reg1 sm)\<lparr>da_store := Some crashed_store,
      da_os := \<lparr>os_appends = [Append_short_header 0], os_checkpoints = []\<rparr>\<rparr>"
  have inv: "daemon_inv bare_racks d"
    using \<open>daemon_inv bare_racks (bare_daemon LifecycleState_kActive bare_reg1 sm)\<close>
    by (simp add: d_def daemon_inv_def snapshot_fits_def)
  have q: "grant_request_of (bare_acquire 2) d = bare_request 2"
    by (simp add: grant_request_of_def bare_acquire_def bare_request_def)
  have acq: "daemon_acquire (bare_acquire 2) 10 d = commit_grant (RequestId 0 2) (bare_grant 2) 10 (d\<lparr>da_grants := bare_reg2\<rparr>)"
    using bare_expire(2) bare_acquires(2) q
    by (simp add: daemon_acquire_def expire_due_locked_def ensure_snapshot_locked_def then_answer_def d_def
        bare_daemon_def lifecycle_accepts_new_authority_def) (simp add: bare_acquire_def)
  obtain s' where "store_append (typed_record (SP_Grant (bare_grant 2))) (Append_short_header 0) crashed_store =
      Some (Status kIo ''short write of the log record header'', s')"
    using append_short_header [of crashed_store "typed_record (SP_Grant (bare_grant 2))" 0] bare_grant_loggable [of 2] by auto
  then obtain st e where "append_locked (SP_Grant (bare_grant 2)) (d\<lparr>da_grants := bare_reg2\<rparr>) = (st, e)" "\<not> status_ok st"
    by (simp add: append_locked_def d_def next_append_def Let_def status_ok_def)
  then obtain d' where a: "daemon_acquire (bare_acquire 2) 10 d = (Inl st, d')" by (simp add: acq commit_grant_def)
  have "da_grants d' = snd (release (grant_token (bare_grant 2)) 10 bare_reg2)"
    using commit_failed [of "RequestId 0 2" "bare_grant 2" 10 "d\<lparr>da_grants := bare_reg2\<rparr>" st d'] a acq by simp
  then have l: "omap_get (rg_grants (da_grants d')) 1 = Some (bare_grant 1)"
    by (simp add: release_def grant_token_def is_live_state_def retire_def Let_def omap_get_put)
  have "g_live (bare_grant 1)" by (simp add: is_live_state_def)
  from failed_acquire_leaves_no_lease [OF inv a l this] a l show ?thesis by blast
qed

section \<open>Retirement\<close>

definition quenched :: "registry \<Rightarrow> bool" where
  "quenched r \<longleftrightarrow> (\<forall>i g. omap_get (rg_grants r) i = Some g \<longrightarrow> \<not> g_live g)"

lemma quenchedI_map:
  assumes "\<And>i. omap_get (rg_grants r') i = map_option h (omap_get (rg_grants r) i)"
    "\<And>i g. omap_get (rg_grants r) i = Some g \<Longrightarrow> \<not> g_live (h g)"
  shows "quenched r'"
  using assms by (auto simp: quenched_def)

lemma quenched_fence_all: "registry_inv S r \<Longrightarrow> quenched (fence_all reason r)"
  by (rule quenchedI_map [OF fence_all_facts(2)]) (auto simp: fenced_as_def is_live_state_def)

lemma quenched_expire: "registry_inv S r \<Longrightarrow> quenched r \<Longrightarrow> quenched (snd (expire_due now r))"
  by (rule quenchedI_map [OF expire_due_facts(2)]) (auto simp: quenched_def expired_as_def is_live_state_def)

lemma quenched_release: "quenched r \<Longrightarrow> quenched (snd (release token now r))"
  unfolding quenched_def using release_live by blast

lemma quenched_not_honoured:
  assumes "registry_inv S r" "quenched r"
  shows "\<not> honoured s token now r g"
proof
  assume h: "honoured s token now r g"
  then have g: "omap_get (rg_grants r) (t_grant token) = Some g" "armed g"
    using lease_state_refusal_None [of g] by (auto simp: honoured_def)
  have "basis_ok S r" "index_ok r" using assms(1) by (simp_all add: registry_inv_def registry_ok_def)
  then show False
    using basis_okD [OF _ g] index_footprint [of r "t_grant token"] g assms(2) by (auto simp: quenched_def)
qed

lemma quenched_check_lease:
  "registry_inv S r \<Longrightarrow> quenched r \<Longrightarrow> \<exists>st. check_lease s token now r = Inl st"
  using quenched_not_honoured check_lease_Inr_iff by (metis sum.exhaust)

lemma acquire_retired: "rg_grants (snd (acquire s q inc now False r)) = rg_grants r"
  by (auto simp: acquire_def acquire_new_def refuse_def remember_def split: option.splits)

lemma retire_effect:
  assumes "ly_target q = LifecycleState_kRetired" "lifecycle_transition_allowed (da_lifecycle d) LifecycleState_kRetired"
  shows "da_grants (snd (daemon_set_lifecycle q now d)) = fence_all ''the rack was retired'' (da_grants d)"
    "da_lifecycle (snd (daemon_set_lifecycle q now d)) = LifecycleState_kRetired"
proof -
  let ?t = "d\<lparr>da_lifecycle := LifecycleState_kRetired, da_grants := fence_all ''the rack was retired'' (da_grants d)\<rparr>"
  let ?p = "SP_Lifecycle \<lparr>lr_state = LifecycleState_kRetired, lr_generation = da_generation ?t, lr_epoch = da_epoch ?t\<rparr>"
  have t: "transition_effects LifecycleState_kRetired now d = (ok_status, ?t)" by (simp add: transition_effects_def Let_def)
  obtain ast a where a: "append_locked ?p ?t = (ast, a)" by fastforce
  then have "quiet ?t a" using append_quiet [of ?t ?p] by simp
  moreover from this have "quiet ?t (snd (maybe_checkpoint_locked a))" using maybe_checkpoint_quiet by (rule quiet_trans)
  moreover have "snd (daemon_set_lifecycle q now d) \<in> {a, snd (maybe_checkpoint_locked a)}"
    using assms a by (simp add: daemon_set_lifecycle_def transition_lifecycle_locked_def then_ok_def Let_def t)
  ultimately have "quiet ?t (snd (daemon_set_lifecycle q now d))" by auto
  then show "da_grants (snd (daemon_set_lifecycle q now d)) = fence_all ''the rack was retired'' (da_grants d)"
    "da_lifecycle (snd (daemon_set_lifecycle q now d)) = LifecycleState_kRetired" by (simp_all add: quietD)
qed

lemma retired_step:
  assumes "daemon_inv S d" "da_lifecycle d = LifecycleState_kRetired" "quenched (da_grants d)"
  shows "quenched (da_grants (daemon_apply op d))"
proof -
  have inv: "registry_inv S (da_grants d)" and valid: "ensure_snapshot_locked d = (ok_status, d)"
    using assms(1) by (simp_all add: daemon_inv_def ensure_snapshot_locked_def)
  have q0: "quenched (snd (expire_due now (da_grants d)))" for now using quenched_expire [OF inv assms(3)] .
  show ?thesis
  proof (cases op)
    case (Do_submit q now)
    then show ?thesis using assms(2,3) by (simp add: daemon_submit_evidence_def)
  next
    case (Do_compose q)
    then show ?thesis using assms(2,3) by (simp add: daemon_compose_def)
  next
    case (Do_acquire q now)
    have life: "da_lifecycle (acquire_core now d) = LifecycleState_kRetired"
      using acquire_core_facts(1) [of d now] assms(2) by (simp add: advance_def)
    then have kept: "rg_grants r = rg_grants (snd (expire_due now (da_grants d)))"
      if "acquire_answer q now (acquire_core now d) = (res, r)" for res r
      using that acquire_retired [of "da_snapshot (acquire_core now d)" "grant_request_of q (acquire_core now d)"
          "da_incarnation (acquire_core now d)" now "da_grants (acquire_core now d)"]
      by (simp add: acquire_answer_def lifecycle_accepts_new_authority_def acquire_core_facts(2))
    show ?thesis
    proof (cases rule: daemon_acquire_cases [of q now d])
      case not_ready
      then show ?thesis using Do_acquire q0 by (simp add: acquire_core_facts(2))
    next
      case (refused st r)
      then show ?thesis using Do_acquire q0 kept by (simp add: note_refused_def quenched_def)
    next
      case (granted g r)
      have "quenched r" using kept [OF granted(1)] q0 by (simp add: quenched_def)
      then show ?thesis
        using Do_acquire granted(2) performs_commit(3) [of "aq_request q" g now "(acquire_core now d)\<lparr>da_grants := r\<rparr>"]
          quenched_release by auto
    qed
  next
    case (Do_renew q now)
    have "da_grants (snd (daemon_renew q now d)) = da_grants d"
      using quenched_check_lease [OF inv assms(3), of "da_snapshot d" "rn_token q" now]
      by (auto simp: daemon_renew_def valid then_answer_def renew_def)
    then show ?thesis using Do_renew assms(3) by simp
  next
    case (Do_release q now)
    have "da_grants (snd (daemon_release q now d)) = snd (release (tm_token q) now (da_grants d))"
      by (auto simp: daemon_release_def Let_def then_answer_snd quietD(3) [OF append_quiet] quietD(3) [OF maybe_checkpoint_quiet]
          split: prod.splits)
    then show ?thesis using Do_release quenched_release [OF assms(3)] by simp
  next
    case (Do_lifecycle q now)
    show ?thesis
    proof (cases "ly_target q = LifecycleState_kRetired")
      case True
      then show ?thesis
        using Do_lifecycle assms(2) quenched_fence_all [OF inv] retire_effect(1) [of q d now]
        by (simp add: lifecycle_transition_allowed_def)
    next
      case False
      then show ?thesis
        using Do_lifecycle assms transition_retired
        by (auto simp: daemon_set_lifecycle_def transition_lifecycle_locked_def Let_def)
    qed
  next
    case Do_checkpoint
    have "da_grants (snd (daemon_checkpoint d)) = da_grants d"
      using quietD(3) [OF checkpoint_write_quiet]
      by (auto simp: daemon_checkpoint_def valid Let_def split: option.splits sum.splits prod.splits) (metis snd_conv)+
    then show ?thesis using Do_checkpoint assms(3) by simp
  next
    case (Do_expire now)
    then show ?thesis using q0 quietD(3) [OF expire_due_quiet, of now d] by simp
  next
    case (Do_stop now sync_io meta_io)
    have "da_grants (snd (daemon_stop now sync_io meta_io d)) \<in> {da_grants d, fence_all ''daemon stopped'' (da_grants d)}"
      by (auto simp: daemon_stop_def Let_def split: option.splits prod.splits)
    then show ?thesis using Do_stop assms(3) quenched_fence_all [OF inv] by auto
  qed (use assms(3) in \<open>simp_all add: query_core valid\<close>)
qed

text \<open>
  (C9) Retirement is final for the running daemon. Once a lifecycle command has moved the rack to retired,
  whatever commands follow, the rack stays retired, no grant is live, and no lease is confirmed.
\<close>
theorem retired_rack_is_final:
  assumes "booted S d0" "run (daemon_step S) d0 ops d"
    and "lifecycle_transition_allowed (da_lifecycle d) LifecycleState_kRetired" "ly_target q = LifecycleState_kRetired"
    and "daemon_step S d (Do_lifecycle q now) d1" "run (daemon_step S) d1 ops' d2"
  shows "da_lifecycle d2 = LifecycleState_kRetired \<and>
    (\<forall>i g. omap_get (rg_grants (da_grants d2)) i = Some g \<longrightarrow> \<not> g_live g) \<and>
    (\<forall>p t g. fst (daemon_validate p t d2) \<noteq> grant_to_response g kOk)"
proof -
  have inv: "daemon_inv S d" using assms(1,2) by (rule daemon.inv_reachable)
  have d1: "d1 = snd (daemon_set_lifecycle q now d)" using assms(5) by (auto simp: daemon_step_iff)
  have "registry_inv S (da_grants d)" using inv by (simp add: daemon_inv_def)
  then have start: "daemon_inv S d1 \<and> da_lifecycle d1 = LifecycleState_kRetired \<and> quenched (da_grants d1)"
    using step_inv [OF inv assms(5)] retire_effect [OF assms(4,3)] quenched_fence_all by (simp add: d1)
  from assms(6) start have final: "daemon_inv S d2 \<and> da_lifecycle d2 = LifecycleState_kRetired \<and> quenched (da_grants d2)"
  proof (induction rule: run.induct)
    case (run_cons s l t ls u)
    have "t = daemon_apply l s" using run_cons.hyps(1) by (auto simp: daemon_step_iff)
    moreover have "advance s (daemon_apply l s)" using performs_apply [of S s l] by (simp add: performs_def)
    ultimately have "daemon_inv S t \<and> da_lifecycle t = LifecycleState_kRetired \<and> quenched (da_grants t)"
      using run_cons.prems step_inv [OF _ run_cons.hyps(1)] retired_step [of S s l] by (auto simp: advance_def)
    then show ?case by (rule run_cons.IH)
  qed
  then have "\<not> honoured (da_snapshot d2) token t (da_grants d2) g" for token t g
    using quenched_not_honoured by (auto simp: daemon_inv_def)
  with final show ?thesis using daemon_validate_ok [of S d2] by (auto simp: quenched_def)
qed

lemma bare_transition:
  assumes "lifecycle_transition_allowed LifecycleState_kActive target"
    "target \<noteq> LifecycleState_kActive" "target \<noteq> LifecycleState_kDegraded" "target \<noteq> LifecycleState_kMaintenance"
  shows "daemon_apply (Do_lifecycle \<lparr>ly_target = target\<rparr> now) (bare_daemon LifecycleState_kActive r st) =
    (bare_daemon LifecycleState_kActive
      (if target = LifecycleState_kRetired then fence_all ''the rack was retired'' r else r) st)\<lparr>da_lifecycle := target\<rparr>"
  using assms
  by (simp add: daemon_set_lifecycle_def transition_lifecycle_locked_def transition_effects_def then_ok_def append_locked_def
      maybe_checkpoint_locked_def bare_daemon_def Let_def)

theorem retired_rack_is_final_witness:
  "\<exists>d. da_lifecycle d = LifecycleState_kRetired \<and> rg_grants (da_grants d) \<noteq> [] \<and>
     (\<forall>p t g. fst (daemon_validate p t d) \<noteq> grant_to_response g kOk)"
proof -
  obtain st st' where b: "booted bare_racks (bare_daemon LifecycleState_kAssembling bare_reg st)"
    "run (daemon_step bare_racks) (bare_daemon LifecycleState_kAssembling bare_reg st)
      [Do_lifecycle \<lparr>ly_target = LifecycleState_kActive\<rparr> 5, Do_acquire (bare_acquire 1) 10, Do_acquire (bare_acquire 2) 10]
      (bare_daemon LifecycleState_kActive bare_reg2 st')" by (metis bare_run)
  let ?d = "bare_daemon LifecycleState_kActive bare_reg2 st'"
  let ?op = "Do_lifecycle \<lparr>ly_target = LifecycleState_kRetired\<rparr> 30"
  have d1: "daemon_apply ?op ?d = (bare_daemon LifecycleState_kActive (fence_all ''the rack was retired'' bare_reg2) st')
      \<lparr>da_lifecycle := LifecycleState_kRetired\<rparr>"
    by (subst bare_transition) (simp_all add: lifecycle_transition_allowed_def)
  have step: "daemon_step bare_racks ?d ?op (daemon_apply ?op ?d)"
    unfolding daemon_step_iff d1 by (simp add: bare_daemon_def bare_racks_def)
  have "lifecycle_transition_allowed (da_lifecycle ?d) LifecycleState_kRetired"
    by (simp add: bare_daemon_def lifecycle_transition_allowed_def)
  note final = retired_rack_is_final [OF b this _ step run.run_nil]
  have "rg_grants (fence_all ''the rack was retired'' bare_reg2) \<noteq> []"
    by (simp add: fence_all_def for_grants_def is_live_state_def retire_def Let_def)
  then have "rg_grants (da_grants (daemon_apply ?op ?d)) \<noteq> []" unfolding d1 by (simp add: bare_daemon_def)
  with final show ?thesis by (intro exI [of _ "daemon_apply ?op ?d"]) simp
qed

text \<open>
  A lifecycle command other than one to active or degraded does not compose, so the snapshot keeps the
  lifecycle it was composed under and leases are judged by that one: a rack an operator has moved to
  recovering, in which no existing authority is to be honoured, goes on confirming leases.
\<close>
theorem recovering_rack_still_confirms:
  "\<exists>d. da_lifecycle d = LifecycleState_kRecovering \<and> \<not> lifecycle_honours_existing_authority (da_lifecycle d) \<and>
     fst (daemon_validate \<lparr>tm_token = grant_token (bare_grant 1)\<rparr> 20 d) = grant_to_response (bare_grant 1) kOk"
proof -
  let ?op = "Do_lifecycle \<lparr>ly_target = LifecycleState_kRecovering\<rparr> 15"
  let ?d = "bare_daemon LifecycleState_kActive bare_reg2 empty_daemon_stats"
  have d: "daemon_apply ?op ?d = ?d\<lparr>da_lifecycle := LifecycleState_kRecovering\<rparr>"
    by (subst bare_transition) (simp_all add: lifecycle_transition_allowed_def)
  have "fst (daemon_validate \<lparr>tm_token = grant_token (bare_grant 1)\<rparr> 20 (?d\<lparr>da_lifecycle := LifecycleState_kRecovering\<rparr>)) =
      fst (daemon_validate \<lparr>tm_token = grant_token (bare_grant 1)\<rparr> 20 ?d)"
    by (simp add: daemon_validate_def ensure_snapshot_locked_def then_answer_def bare_daemon_def validate_def split: sum.splits)
  then show ?thesis
    using bare_validate [of 1 empty_daemon_stats] d
    by (intro exI [of _ "daemon_apply ?op ?d"]) (simp add: lifecycle_honours_existing_authority_def)
qed

end
