(* ===== verification/Rnf_Socket.thy ===== *)
theory Rnf_Socket
  imports Rnf_Daemon
begin

text \<open>
  \<^verbatim>\<open>net/socket\<close>: the loops of \<^verbatim>\<open>TcpStream\<close> around the system calls. A stream holds the bytes the peer has
  sent and that were not read yet (after them the peer has closed), the bytes that were sent, and what
  the operating system will answer to the calls to come; once these answers are used up every call
  succeeds in full. A receive of no bytes is the end of the stream.
\<close>

section \<open>Streams\<close>

datatype send_answer = Sent nat | Send_would_block | Send_failed

text \<open>
  One turn of a waiting loop: the stop flag is seen, the idle time has passed, nothing arrived within the
  poll, the poll or the receive failed (or timed out), or so many bytes were received.
\<close>

datatype recv_answer = Received nat | Recv_would_block | Recv_failed

datatype wait_answer = Wait_stopped | Wait_idle | Wait_again | Wait_failed | Wait_ready recv_answer

record tcp_stream =
  ts_valid :: bool
  ts_in :: "u8 list"
  ts_out :: "u8 list"
  ts_sends :: "send_answer list"
  ts_recvs :: "recv_answer list"
  ts_waits :: "wait_answer list"

definition kMaxChunk :: nat where "kMaxChunk = 0x40000000"

section \<open>Sending\<close>

text \<open>The loop of \<^verbatim>\<open>send_all\<close>: the status, what left, and the answers that remain.\<close>

fun send_loop :: "send_answer list \<Rightarrow> u8 list \<Rightarrow> status \<times> u8 list \<times> send_answer list" where
  "send_loop answers [] = (ok_status, [], answers)"
| "send_loop [] rest = (ok_status, rest, [])"
| "send_loop (a # answers) rest =
     (case a of
        Sent n \<Rightarrow>
          (let k = min n (min (length rest) kMaxChunk) in
           if k = 0 then (Status kIo ''send failed'', [], answers)
           else (case send_loop answers (drop k rest) of (st, sent, answers) \<Rightarrow> (st, take k rest @ sent, answers)))
      | Send_would_block \<Rightarrow> (Status kIo ''send timed out'', [], answers)
      | Send_failed \<Rightarrow> (Status kIo ''send failed'', [], answers))"

definition add_bytes_sent :: "nat \<Rightarrow> socket_counters \<Rightarrow> socket_counters" where
  "add_bytes_sent n k = k\<lparr>sk_bytes_sent := sk_bytes_sent k + of_nat n\<rparr>"

definition add_bytes_received :: "nat \<Rightarrow> socket_counters \<Rightarrow> socket_counters" where
  "add_bytes_received n k = k\<lparr>sk_bytes_received := sk_bytes_received k + of_nat n\<rparr>"

definition add_frame_sent :: "socket_counters \<Rightarrow> socket_counters" where
  "add_frame_sent k = k\<lparr>sk_frames_sent := sk_frames_sent k + 1\<rparr>"

definition add_frame_received :: "socket_counters \<Rightarrow> socket_counters" where
  "add_frame_received k = k\<lparr>sk_frames_received := sk_frames_received k + 1\<rparr>"

definition add_frame_rejected :: "socket_counters \<Rightarrow> socket_counters" where
  "add_frame_rejected k = k\<lparr>sk_frames_rejected := sk_frames_rejected k + 1\<rparr>"

definition send_all :: "u8 list \<Rightarrow> tcp_stream \<Rightarrow> socket_counters \<Rightarrow> status \<times> tcp_stream \<times> socket_counters" where
  "send_all bytes s k =
     (if \<not> ts_valid s then (Status kClosed ''stream is not connected'', s, k)
      else
        (case send_loop (ts_sends s) bytes of (st, sent, answers) \<Rightarrow>
           (st, s\<lparr>ts_out := ts_out s @ sent, ts_sends := answers\<rparr>,
            if status_ok st then add_bytes_sent (length bytes) k else k)))"

section \<open>Receiving\<close>

definition recv_call :: "nat \<Rightarrow> recv_answer \<Rightarrow> u8 list \<Rightarrow> u8 list" where
  "recv_call want a pending =
     (case a of Received n \<Rightarrow> take (min n (min want kMaxChunk)) pending | _ \<Rightarrow> [])"

definition next_recv :: "tcp_stream \<Rightarrow> recv_answer \<times> tcp_stream" where
  "next_recv s =
     (case ts_recvs s of [] \<Rightarrow> (Received kMaxChunk, s) | a # answers \<Rightarrow> (a, s\<lparr>ts_recvs := answers\<rparr>))"

definition recv_some :: "nat \<Rightarrow> tcp_stream \<Rightarrow> socket_counters \<Rightarrow> u8 list result \<times> tcp_stream \<times> socket_counters" where
  "recv_some want s k =
     (if \<not> ts_valid s then (fail kClosed ''stream is not connected'', s, k)
      else if want = 0 then (Inr [], s, k)
      else
        (case next_recv s of (a, s) \<Rightarrow>
           (case a of
              Recv_would_block \<Rightarrow> (fail kIo ''receive timed out'', s, k)
            | Recv_failed \<Rightarrow> (fail kIo ''receive failed'', s, k)
            | Received n \<Rightarrow>
                (let got = recv_call want a (ts_in s) in
                 (Inr got, s\<lparr>ts_in := drop (length got) (ts_in s)\<rparr>, add_bytes_received (length got) k)))))"

lemma recv_call_length: "length (recv_call want a pending) \<le> want"
  by (cases a) (simp_all add: recv_call_def)

text \<open>\<^verbatim>\<open>recv_exact\<close>: read until so many bytes are there.\<close>

function recv_exact :: "nat \<Rightarrow> tcp_stream \<Rightarrow> socket_counters \<Rightarrow> u8 list result \<times> tcp_stream \<times> socket_counters" where
  "recv_exact want s k =
     (if want = 0 then (Inr [], s, k)
      else
        (case recv_some want s k of
           (Inl st, s, k) \<Rightarrow> (Inl st, s, k)
         | (Inr got, s, k) \<Rightarrow>
             if got = [] then (fail kTruncated ''peer closed the connection in the middle of a frame'', s, k)
             else
               (case recv_exact (want - length got) s k of
                  (Inl st, s, k) \<Rightarrow> (Inl st, s, k)
                | (Inr tail, s, k) \<Rightarrow> (Inr (got @ tail), s, k))))"
  by pat_completeness auto
termination
  by (relation "measure (\<lambda>(want, s, k). want)") auto

declare recv_exact.simps [simp del]

text \<open>
  \<^verbatim>\<open>recv_exact_interruptible\<close>: the same with a poll in front of every receive, which also looks at the stop
  flag and the idle time. Here a failed receive is not told apart from one that timed out.
\<close>

definition next_wait :: "tcp_stream \<Rightarrow> wait_answer \<times> tcp_stream" where
  "next_wait s =
     (case ts_waits s of [] \<Rightarrow> (Wait_ready (Received kMaxChunk), s) | a # answers \<Rightarrow> (a, s\<lparr>ts_waits := answers\<rparr>))"

function wait_loop :: "nat \<Rightarrow> tcp_stream \<Rightarrow> socket_counters \<Rightarrow> u8 list result \<times> tcp_stream \<times> socket_counters" where
  "wait_loop want s k =
     (if want = 0 then (Inr [], s, k)
      else
        (case next_wait s of (a, s') \<Rightarrow>
           (case a of
              Wait_stopped \<Rightarrow> (fail kCancelled ''the server is shutting down'', s', k)
            | Wait_idle \<Rightarrow> (fail kCancelled ''the connection was idle for too long'', s', k)
            | Wait_failed \<Rightarrow> (fail kIo ''select failed on the connection'', s', k)
            | Wait_again \<Rightarrow> wait_loop want s' k
            | Wait_ready answer \<Rightarrow>
                (case answer of
                   Received n \<Rightarrow>
                     (let got = recv_call want answer (ts_in s') in
                      if got = [] then (fail kTruncated ''peer closed the connection in the middle of a frame'', s', k)
                      else
                        (case wait_loop (want - length got) (s'\<lparr>ts_in := drop (length got) (ts_in s')\<rparr>)
                                (add_bytes_received (length got) k) of
                           (Inl st, s, k) \<Rightarrow> (Inl st, s, k)
                         | (Inr tail, s, k) \<Rightarrow> (Inr (got @ tail), s, k)))
                 | _ \<Rightarrow> (fail kIo ''receive failed'', s', k)))))"
  by pat_completeness auto
termination
  by (relation "measures [\<lambda>(want, s, k). want, \<lambda>(want, s, k). length (ts_waits s)]")
    (auto simp: next_wait_def split: list.splits)

declare wait_loop.simps [simp del]

definition recv_exact_interruptible ::
  "nat \<Rightarrow> tcp_stream \<Rightarrow> socket_counters \<Rightarrow> u8 list result \<times> tcp_stream \<times> socket_counters" where
  "recv_exact_interruptible want s k =
     (if \<not> ts_valid s then (fail kClosed ''stream is not connected'', s, k) else wait_loop want s k)"

section \<open>What the loops achieve\<close>

lemma kMaxChunk_pos [simp]: "0 < kMaxChunk"
  by (simp add: kMaxChunk_def)

lemma send_loop_sent:
  "send_loop answers bytes = (st, sent, answers') \<Longrightarrow> (\<exists>rest. bytes = sent @ rest) \<and> (status_ok st \<longrightarrow> sent = bytes)"
proof (induction answers bytes arbitrary: st sent answers' rule: send_loop.induct)
  case (3 a answers x xs)
  show ?case
  proof (cases a)
    case (Sent n)
    define c where "c = min n (min (length (x # xs)) kMaxChunk)"
    note eqn = 3(2) [unfolded Sent send_loop.simps send_answer.case Let_def, folded c_def]
    show ?thesis
    proof (cases "c = 0")
      case True
      then show ?thesis using eqn by (auto simp: status_ok_def)
    next
      case False
      obtain st1 sent1 as1 where r: "send_loop answers (drop c (x # xs)) = (st1, sent1, as1)" by (metis prod_cases3)
      have eq: "st = st1" "sent = take c (x # xs) @ sent1" using eqn False r by simp_all
      obtain rest where "drop c (x # xs) = sent1 @ rest" and full: "status_ok st1 \<longrightarrow> sent1 = drop c (x # xs)"
        using 3(1) [OF Sent c_def False r] by blast
      then have "x # xs = sent @ rest" using append_take_drop_id [of c "x # xs"] eq(2) by simp
      moreover have "status_ok st \<longrightarrow> sent = x # xs" using full eq append_take_drop_id [of c "x # xs"] by metis
      ultimately show ?thesis by blast
    qed
  qed (use 3(2) in \<open>auto simp: status_ok_def\<close>)
qed auto

definition send_progress :: "send_answer \<Rightarrow> bool" where
  "send_progress a \<longleftrightarrow> (\<exists>n. a = Sent n \<and> n \<noteq> 0)"

lemma send_loop_progress:
  "\<forall>a\<in>set answers. send_progress a \<Longrightarrow> \<exists>answers'. send_loop answers bytes = (ok_status, bytes, answers') \<and> set answers' \<subseteq> set answers"
proof (induction answers bytes rule: send_loop.induct)
  case (3 a answers x xs)
  obtain n where a: "a = Sent n" "n \<noteq> 0" using "3.prems" by (auto simp: send_progress_def)
  define c where "c = min n (min (length (x # xs)) kMaxChunk)"
  have c: "c \<noteq> 0" using a(2) by (simp add: kMaxChunk_def c_def)
  obtain as' where "send_loop answers (drop c (x # xs)) = (ok_status, drop c (x # xs), as')" "set as' \<subseteq> set answers"
    using "3.IH" [OF a(1) c_def c] "3.prems" by auto
  moreover have "send_loop (a # answers) (x # xs) =
      (case send_loop answers (drop c (x # xs)) of (st, sent, answers) \<Rightarrow> (st, take c (x # xs) @ sent, answers))"
    unfolding a(1) send_loop.simps send_answer.case Let_def c_def [symmetric] using c by simp
  ultimately show ?case using append_take_drop_id [of c "x # xs"] by auto
qed auto

text \<open>A receive delivers the next bytes of the stream, all of them or an error, and nothing else changes.\<close>

definition taken :: "nat \<Rightarrow> u8 list \<Rightarrow> tcp_stream \<Rightarrow> tcp_stream \<Rightarrow> bool" where
  "taken n bs s s' \<longleftrightarrow>
     length bs = n \<and> ts_in s = bs @ ts_in s' \<and> ts_out s' = ts_out s \<and> ts_valid s' = ts_valid s \<and> ts_sends s' = ts_sends s"

lemma recv_call_taken:
  "taken (length (recv_call n a (ts_in s))) (recv_call n a (ts_in s)) s (s\<lparr>ts_in := drop (length (recv_call n a (ts_in s))) (ts_in s)\<rparr>)"
  by (cases a) (auto simp: taken_def recv_call_def min_def)

lemma taken_trans: "taken m bs s s' \<Longrightarrow> taken n cs s' s'' \<Longrightarrow> taken (m + n) (bs @ cs) s s''"
  by (auto simp: taken_def)

lemma next_wait_keeps:
  "next_wait s = (a, s') \<Longrightarrow> ts_in s' = ts_in s \<and> ts_out s' = ts_out s \<and> ts_valid s' = ts_valid s \<and> ts_sends s' = ts_sends s \<and>
     set (ts_waits s') \<subseteq> set (ts_waits s) \<and> (a = Wait_ready (Received kMaxChunk) \<or> a \<in> set (ts_waits s))"
  by (cases "ts_waits s") (auto simp: next_wait_def)

lemma next_recv_keeps:
  "next_recv s = (a, s') \<Longrightarrow> ts_in s' = ts_in s \<and> ts_out s' = ts_out s \<and> ts_valid s' = ts_valid s \<and> ts_sends s' = ts_sends s \<and>
     set (ts_recvs s') \<subseteq> set (ts_recvs s) \<and> (a = Received kMaxChunk \<or> a \<in> set (ts_recvs s))"
  by (cases "ts_recvs s") (auto simp: next_recv_def)

definition recv_progress :: "recv_answer \<Rightarrow> bool" where
  "recv_progress a \<longleftrightarrow> (\<exists>n. a = Received n \<and> n \<noteq> 0)"

definition wait_progress :: "wait_answer \<Rightarrow> bool" where
  "wait_progress a \<longleftrightarrow> a = Wait_again \<or> (\<exists>r. a = Wait_ready r \<and> recv_progress r)"

lemma recv_call_progress: "recv_progress a \<Longrightarrow> 0 < n \<Longrightarrow> pending \<noteq> [] \<Longrightarrow> recv_call n a pending \<noteq> []"
  by (auto simp: recv_progress_def recv_call_def kMaxChunk_def)

lemma wait_loop_taken:
  "wait_loop n s k = (Inr bs, s', k') \<Longrightarrow> taken n bs s s'"
proof (induction n s k arbitrary: bs s' k' rule: wait_loop.induct)
  case (1 n s k)
  show ?case
  proof (cases "n = 0")
    case True
    then show ?thesis using "1.prems" by (subst (asm) wait_loop.simps) (auto simp: taken_def)
  next
    case False
    obtain a s1 where a: "next_wait s = (a, s1)" by fastforce
    note kept = next_wait_keeps [OF a]
    note step = "1.prems" [unfolded wait_loop.simps [of n s k]]
    show ?thesis
    proof (cases a)
      case Wait_again
      then have "wait_loop n s1 k = (Inr bs, s', k')" using step False a by simp
      from "1.IH"(1) [OF False a [symmetric] Wait_again this] kept show ?thesis by (simp add: taken_def)
    next
      case (Wait_ready r)
      obtain m where r: "r = Received m" using step False a Wait_ready by (cases r) auto
      let ?got = "recv_call n (Received m) (ts_in s1)"
      let ?s2 = "s1\<lparr>ts_in := drop (length ?got) (ts_in s1)\<rparr>"
      have ne: "?got \<noteq> []" using step False a Wait_ready r by auto
      obtain tail where w: "wait_loop (n - length ?got) ?s2 (add_bytes_received (length ?got) k) = (Inr tail, s', k')" "bs = ?got @ tail"
        using step False a Wait_ready r ne by (auto simp: Let_def split: sum.splits prod.splits)
      have "taken (n - length ?got) tail ?s2 s'"
        using "1.IH"(2) [OF False a [symmetric] Wait_ready r _ _ w(1)] r ne by simp
      then have "taken (length ?got + (n - length ?got)) bs s1 s'"
        using taken_trans [OF recv_call_taken] w(2) by blast
      moreover have "length ?got \<le> n" by (rule recv_call_length)
      ultimately show ?thesis using kept by (simp add: taken_def)
    qed (use step False a in auto)
  qed
qed

lemma wait_loop_progress:
  assumes "\<forall>a\<in>set (ts_waits s). wait_progress a" "n \<le> length (ts_in s)"
  shows "\<exists>s' k'. wait_loop n s k = (Inr (take n (ts_in s)), s', k') \<and> set (ts_waits s') \<subseteq> set (ts_waits s)"
  using assms
proof (induction n s k rule: wait_loop.induct)
  case (1 n s k)
  show ?case
  proof (cases "n = 0")
    case True
    then show ?thesis by (subst wait_loop.simps) simp
  next
    case False
    obtain a s1 where a: "next_wait s = (a, s1)" by fastforce
    note kept = next_wait_keeps [OF a]
    have "wait_progress (Wait_ready (Received kMaxChunk))" by (simp add: wait_progress_def recv_progress_def kMaxChunk_def)
    then have "wait_progress a" using kept "1.prems"(1) by auto
    then consider "a = Wait_again" | r where "a = Wait_ready r" "recv_progress r" by (auto simp: wait_progress_def)
    then show ?thesis
    proof cases
      case 1
      obtain s' k' where "wait_loop n s1 k = (Inr (take n (ts_in s1)), s', k')" "set (ts_waits s') \<subseteq> set (ts_waits s1)"
        using "1.IH"(1) [OF False a [symmetric] 1] "1.prems" kept by (metis subset_iff)
      then show ?thesis using False a 1 kept by (subst wait_loop.simps) auto
    next
      case (2 r)
      then obtain m where r: "r = Received m" by (auto simp: recv_progress_def)
      define got where "got = recv_call n r (ts_in s1)"
      have ne: "got \<noteq> []" unfolding got_def using False "1.prems"(2) kept by (intro recv_call_progress 2(2)) auto
      have le: "length got \<le> n" unfolding got_def by (rule recv_call_length)
      have split: "got @ drop (length got) (ts_in s1) = ts_in s1"
        using recv_call_taken [of n r s1] by (simp add: taken_def got_def)
      let ?s2 = "s1\<lparr>ts_in := drop (length got) (ts_in s1)\<rparr>"
      have still: "\<forall>a\<in>set (ts_waits ?s2). wait_progress a" using kept "1.prems"(1) by auto
      have room: "n - length got \<le> length (ts_in ?s2)" using kept "1.prems"(2) by simp
      obtain s' k' where w: "wait_loop (n - length got) ?s2 (add_bytes_received (length got) k) =
          (Inr (take (n - length got) (drop (length got) (ts_in s1))), s', k')" "set (ts_waits s') \<subseteq> set (ts_waits s1)"
        using "1.IH"(2) [OF False a [symmetric] 2(1) r got_def ne] still room by auto
      have "take n (ts_in s1) = got @ take (n - length got) (drop (length got) (ts_in s1))"
        using split le by (metis append_eq_conv_conj take_append take_all)
      moreover have "wait_loop n s k = (Inr (got @ take (n - length got) (drop (length got) (ts_in s1))), s', k')"
      proof -
        have "recv_call n (Received m) (ts_in s1) = got" by (simp add: got_def r)
        then show ?thesis using False ne by (subst wait_loop.simps) (simp add: a 2(1) r Let_def w(1))
      qed
      ultimately show ?thesis using kept w(2) by auto
    qed
  qed
qed

lemma recv_exact_taken:
  "recv_exact n s k = (Inr bs, s', k') \<Longrightarrow> taken n bs s s'"
proof (induction n s k arbitrary: bs s' k' rule: recv_exact.induct)
  case (1 n s k)
  show ?case
  proof (cases "n = 0")
    case True
    then show ?thesis using "1.prems" by (subst (asm) recv_exact.simps) (auto simp: taken_def)
  next
    case False
    note step = "1.prems" [unfolded recv_exact.simps [of n s k]]
    obtain got s1 k1 where g: "recv_some n s k = (Inr got, s1, k1)" "got \<noteq> []"
      using step False by (auto split: prod.splits sum.splits if_splits)
    obtain tail where w: "recv_exact (n - length got) s1 k1 = (Inr tail, s', k')" "bs = got @ tail"
      using step False g by (auto split: prod.splits sum.splits)
    have "taken (length got) got s s1" "length got \<le> n"
      using g(1) next_recv_keeps [of s] recv_call_taken recv_call_length
      by (auto simp: recv_some_def Let_def taken_def split: if_splits prod.splits recv_answer.splits)
    moreover have "taken (n - length got) tail s1 s'" using "1.IH" [OF False g(1) [symmetric] refl refl g(2) w(1)] .
    ultimately show ?thesis using taken_trans [of "length got" got s s1 "n - length got" tail s'] w(2) by simp
  qed
qed

lemma recv_some_progress:
  assumes "\<forall>a\<in>set (ts_recvs s). recv_progress a" "0 < n" "ts_in s \<noteq> []" "ts_valid s"
  obtains got s' k' where "recv_some n s k = (Inr got, s', k')" "got \<noteq> []" "length got \<le> n" "taken (length got) got s s'"
    "set (ts_recvs s') \<subseteq> set (ts_recvs s)"
proof -
  obtain a s1 where a: "next_recv s = (a, s1)" by fastforce
  note kept = next_recv_keeps [OF a]
  have "recv_progress (Received kMaxChunk)" by (simp add: recv_progress_def kMaxChunk_def)
  then have p: "recv_progress a" using kept assms(1) by auto
  then obtain m where m: "a = Received m" by (auto simp: recv_progress_def)
  let ?got = "recv_call n a (ts_in s1)"
  have "?got \<noteq> []" using assms(3) kept by (intro recv_call_progress p assms(2)) simp
  moreover have "taken (length ?got) ?got s (s1\<lparr>ts_in := drop (length ?got) (ts_in s1)\<rparr>)"
    using recv_call_taken [of n a s1] kept by (simp add: taken_def)
  ultimately show thesis
    using that [of ?got "s1\<lparr>ts_in := drop (length ?got) (ts_in s1)\<rparr>" "add_bytes_received (length ?got) k"]
      assms(2,4) kept recv_call_length [of n a "ts_in s1"]
    by (auto simp: recv_some_def a m Let_def)
qed

lemma recv_exact_progress:
  assumes "\<forall>a\<in>set (ts_recvs s). recv_progress a" "n \<le> length (ts_in s)" "ts_valid s"
  shows "\<exists>s' k'. recv_exact n s k = (Inr (take n (ts_in s)), s', k') \<and> set (ts_recvs s') \<subseteq> set (ts_recvs s)"
  using assms
proof (induction n arbitrary: s k rule: less_induct)
  case (less n)
  show ?case
  proof (cases "n = 0")
    case True
    then show ?thesis by (subst recv_exact.simps) simp
  next
    case False
    have "ts_in s \<noteq> []" using False less.prems(2) by auto
    then obtain got s1 k1 where g: "recv_some n s k = (Inr got, s1, k1)" "got \<noteq> []" "length got \<le> n"
      "taken (length got) got s s1" "set (ts_recvs s1) \<subseteq> set (ts_recvs s)"
      using recv_some_progress [OF less.prems(1) _ _ less.prems(3)] False by blast
    have s1: "ts_in s = got @ ts_in s1" "ts_valid s1" using g(4) less.prems(3) by (simp_all add: taken_def)
    obtain s' k' where w: "recv_exact (n - length got) s1 k1 = (Inr (take (n - length got) (ts_in s1)), s', k')"
      "set (ts_recvs s') \<subseteq> set (ts_recvs s1)"
    proof -
      have "n - length got < n" "n - length got \<le> length (ts_in s1)" using g(2,3) s1(1) less.prems(2) False by auto
      moreover have "\<forall>a\<in>set (ts_recvs s1). recv_progress a" using g(5) less.prems(1) by blast
      ultimately show thesis using less.IH [of "n - length got" s1 k1] s1(2) that by blast
    qed
    have "recv_exact n s k = (Inr (got @ take (n - length got) (ts_in s1)), s', k')"
      using False g(2) by (subst recv_exact.simps) (simp add: g(1) w(1))
    then show ?thesis using s1(1) g(3,5) w(2) by auto
  qed
qed

text \<open>
  Fragmentation is invisible. However the operating system cuts a send into partial writes and the
  receives on the other side into partial reads, with any number of polls that find nothing in between:
  as long as every call makes progress, what was sent is what an exact receive of that length returns, on
  the server's interruptible loop and on the client's blocking one, and nothing of it stays behind.
\<close>
theorem fragmentation_invisible:
  assumes "ts_valid s" "\<forall>a\<in>set (ts_sends s). send_progress a"
    and "ts_valid p" "ts_in p = []" "\<forall>a\<in>set (ts_waits p). wait_progress a" "\<forall>a\<in>set (ts_recvs p). recv_progress a"
  shows "\<exists>s' k'. send_all bytes s k = (ok_status, s', k') \<and> ts_out s' = ts_out s @ bytes \<and>
    (\<exists>p' l'. recv_exact_interruptible (length bytes) (p\<lparr>ts_in := bytes @ rest\<rparr>) l = (Inr bytes, p', l') \<and> ts_in p' = rest) \<and>
    (\<exists>p' l'. recv_exact (length bytes) (p\<lparr>ts_in := bytes @ rest\<rparr>) l = (Inr bytes, p', l') \<and> ts_in p' = rest)"
proof -
  let ?p = "p\<lparr>ts_in := bytes @ rest\<rparr>"
  obtain answers where "send_loop (ts_sends s) bytes = (ok_status, bytes, answers)" using send_loop_progress [OF assms(2)] by blast
  then have "send_all bytes s k = (ok_status, s\<lparr>ts_out := ts_out s @ bytes, ts_sends := answers\<rparr>, add_bytes_sent (length bytes) k)"
    using assms(1) by (simp add: send_all_def)
  moreover obtain p1 l1 where "wait_loop (length bytes) ?p l = (Inr bytes, p1, l1)"
    using wait_loop_progress [of ?p "length bytes" l] assms(5) by auto
  moreover from this have "ts_in p1 = rest" using wait_loop_taken by (fastforce simp: taken_def)
  moreover obtain p2 l2 where "recv_exact (length bytes) ?p l = (Inr bytes, p2, l2)"
    using recv_exact_progress [of ?p "length bytes" l] assms(3,6) by auto
  moreover from this have "ts_in p2 = rest" using recv_exact_taken by (fastforce simp: taken_def)
  ultimately show ?thesis using assms(3) by (simp add: recv_exact_interruptible_def)
qed

definition slow_stream :: tcp_stream where
  "slow_stream = \<lparr>ts_valid = True, ts_in = [], ts_out = [], ts_sends = [Sent 1, Sent 2],
     ts_recvs = [Received 2, Received 1], ts_waits = [Wait_again, Wait_ready (Received 1), Wait_again]\<rparr>"

definition no_counters :: socket_counters where
  "no_counters = \<lparr>sk_bytes_sent = 0, sk_bytes_received = 0, sk_frames_sent = 0, sk_frames_received = 0, sk_frames_rejected = 0\<rparr>"

theorem fragmentation_invisible_witness:
  "\<exists>p' l'. recv_exact_interruptible (length [1 :: u8, 2, 3, 4, 5]) (slow_stream\<lparr>ts_in := [1, 2, 3, 4, 5, 6]\<rparr>) no_counters = (Inr [1, 2, 3, 4, 5], p', l') \<and>
     ts_in p' = [6]"
  using fragmentation_invisible [of slow_stream slow_stream "[1, 2, 3, 4, 5]" no_counters "[6]" no_counters]
  by (auto simp: slow_stream_def send_progress_def wait_progress_def recv_progress_def)

end
