(* ===== verification/Rnf_Server.thy ===== *)
theory Rnf_Server
  imports Rnf_Socket
begin

text \<open>
  \<^verbatim>\<open>runtime/server\<close> and \<^verbatim>\<open>runtime/client\<close>: one connection of the loopback front end, and the blocking client.
  A worker serves one connection on the calling thread; its state is the core it calls into, the stream,
  the process wide counters and the stop flag. Other workers only meet it in the core, whose commands are
  atomic, so everything below holds for whatever state the core is in. The time a command reads is an
  argument.
\<close>

section \<open>Server\<close>

record server_config =
  sf_max_frame_payload :: u32
  sf_max_connections :: nat
  sf_idle_timeout_ms :: u32
  sf_tick_interval_ms :: u32

record worker =
  wk_core :: daemon_core
  wk_stream :: tcp_stream
  wk_counters :: socket_counters
  wk_stop :: bool

record turn_io =
  tu_now :: timestamp_ms
  tu_uptime :: u64

type_synonym 'm encoder = "'m \<Rightarrow> byte_writer \<Rightarrow> status \<times> byte_writer"

definition request_header :: "message_type \<Rightarrow> u64 \<Rightarrow> frame_header" where
  "request_header type correlation =
     default_frame_header\<lparr>fh_version := kProtocolVersion, fh_type := mt_value type, fh_correlation := correlation\<rparr>"

definition write_message :: "'m encoder \<Rightarrow> message_type \<Rightarrow> u64 \<Rightarrow> 'm \<Rightarrow> u32 \<Rightarrow> worker \<Rightarrow> status \<times> worker" where
  "write_message enc type correlation m max_payload w =
     (case enc m (bw_new (unat max_payload)) of (st, writer) \<Rightarrow>
        if \<not> status_ok st then (st, w)
        else
          (case encode_frame (request_header type correlation) (bw_buffer writer) max_payload of
             Inl st \<Rightarrow> (st, w)
           | Inr frame \<Rightarrow>
               (case send_all frame (wk_stream w) (wk_counters w) of (st, s, k) \<Rightarrow>
                  if \<not> status_ok st then (st, w\<lparr>wk_stream := s, wk_counters := k\<rparr>)
                  else (ok_status, w\<lparr>wk_stream := s, wk_counters := add_frame_sent k\<rparr>))))"

definition ack_of :: "status \<Rightarrow> ack_response" where
  "ack_of st = \<lparr>ak_code = st_code st, ak_detail = st_detail st\<rparr>"

text \<open>\<^verbatim>\<open>answer\<close>: the call has been made, its result is reported.\<close>

definition answer :: "'m encoder \<Rightarrow> message_type \<Rightarrow> u64 \<Rightarrow> 'm result \<Rightarrow> u32 \<Rightarrow> worker \<Rightarrow> status \<times> worker" where
  "answer enc type correlation response max_payload w =
     (case response of
        Inl st \<Rightarrow> write_message encode_ack_response MessageType_kError correlation (ack_of st) max_payload w
      | Inr m \<Rightarrow> write_message enc type correlation m max_payload w)"

definition send_error :: "server_config \<Rightarrow> u64 \<Rightarrow> status \<Rightarrow> worker \<Rightarrow> status \<times> worker" where
  "send_error cfg correlation st w =
     write_message encode_ack_response MessageType_kError correlation (ack_of st) (sf_max_frame_payload cfg) w"

definition reject_frame :: "worker \<Rightarrow> worker" where
  "reject_frame w = w\<lparr>wk_counters := add_frame_rejected (wk_counters w), wk_core := note_frame_rejected (wk_core w)\<rparr>"

definition undecodable :: "server_config \<Rightarrow> u64 \<Rightarrow> status \<Rightarrow> worker \<Rightarrow> status \<times> worker" where
  "undecodable cfg correlation st w = (st, reject_frame (snd (send_error cfg correlation st w)))"

text \<open>A command with a body: decode, call the core, answer.\<close>

definition serve_command ::
  "server_config \<Rightarrow> u64 \<Rightarrow> 'q result \<Rightarrow> ('q \<Rightarrow> daemon_core \<Rightarrow> 'r result \<times> daemon_core) \<Rightarrow> 'r encoder \<Rightarrow> message_type \<Rightarrow>
   worker \<Rightarrow> status \<times> worker" where
  "serve_command cfg correlation request command enc type w =
     (case request of
        Inl st \<Rightarrow> undecodable cfg correlation st w
      | Inr q \<Rightarrow>
          (case command q (wk_core w) of (response, d) \<Rightarrow>
             answer enc type correlation response (sf_max_frame_payload cfg) (w\<lparr>wk_core := d\<rparr>)))"

definition serve_hello :: "server_config \<Rightarrow> u64 \<Rightarrow> u8 list \<Rightarrow> worker \<Rightarrow> status \<times> worker" where
  "serve_hello cfg correlation payload w =
     (case decode_hello_request payload of
        Inl st \<Rightarrow> undecodable cfg correlation st w
      | Inr q \<Rightarrow>
          (case daemon_hello q (wk_core w) of
             Inl st \<Rightarrow> undecodable cfg correlation st w
           | Inr r \<Rightarrow>
               (case write_message encode_hello_response MessageType_kHelloAck correlation r (sf_max_frame_payload cfg) w of
                  (st, w) \<Rightarrow>
                    if \<not> hr_accepted r \<and> status_ok st then (Status kIncompatibleVersion (hr_detail r), w) else (st, w))))"

definition serve_shutdown :: "server_config \<Rightarrow> u64 \<Rightarrow> worker \<Rightarrow> status \<times> worker" where
  "serve_shutdown cfg correlation w =
     (case write_message encode_ack_response MessageType_kShutdownAck correlation
             \<lparr>ak_code = kOk, ak_detail = ''the daemon is shutting down''\<rparr> (sf_max_frame_payload cfg) w of
        (st, w) \<Rightarrow> if \<not> status_ok st then (st, w) else (ok_status, w\<lparr>wk_stop := True\<rparr>))"

definition pure_query :: "(daemon_core \<Rightarrow> 'r result) \<Rightarrow> unit \<Rightarrow> daemon_core \<Rightarrow> 'r result \<times> daemon_core" where
  "pure_query f u d = (f d, d)"

definition dispatch :: "server_config \<Rightarrow> turn_io \<Rightarrow> message_type \<Rightarrow> u64 \<Rightarrow> u8 list \<Rightarrow> worker \<Rightarrow> status \<times> worker" where
  "dispatch cfg io type correlation payload w =
     (let w = w\<lparr>wk_core := note_request_served (wk_core w)\<rparr>; now = tu_now io in
      if type = MessageType_kHello then serve_hello cfg correlation payload w
      else if type = MessageType_kSubmitEvidence then
        serve_command cfg correlation (decode_submit_evidence payload) (\<lambda>q. daemon_submit_evidence q now)
          encode_evidence_ack MessageType_kEvidenceAck w
      else if type = MessageType_kCompose then
        serve_command cfg correlation (decode_compose_command payload) daemon_compose
          encode_compose_response MessageType_kComposeAck w
      else if type = MessageType_kAcquire then
        serve_command cfg correlation (decode_acquire_request payload) (\<lambda>q. daemon_acquire q now)
          encode_grant_response MessageType_kAcquireAck w
      else if type = MessageType_kRenew then
        serve_command cfg correlation (decode_renew_request payload) (\<lambda>q. daemon_renew q now)
          encode_grant_response MessageType_kRenewAck w
      else if type = MessageType_kRelease then
        serve_command cfg correlation (decode_token_message payload) (\<lambda>q. daemon_release q now)
          encode_ack_response MessageType_kReleaseAck w
      else if type = MessageType_kValidate then
        serve_command cfg correlation (decode_token_message payload) (\<lambda>q. daemon_validate q now)
          encode_grant_response MessageType_kValidateAck w
      else if type = MessageType_kLookup then
        serve_command cfg correlation (decode_lookup_request payload) (\<lambda>q d. (daemon_lookup q d, d))
          encode_lookup_response MessageType_kLookupAck w
      else if type = MessageType_kQueryState then
        serve_command cfg correlation (Inr ()) (\<lambda>_. daemon_query_state) encode_state_response MessageType_kStateAck w
      else if type = MessageType_kQueryResources then
        serve_command cfg correlation (decode_resource_query payload) daemon_query_resources
          encode_resources_response MessageType_kResourcesAck w
      else if type = MessageType_kQueryPaths then
        serve_command cfg correlation (Inr ()) (\<lambda>_. daemon_query_paths) encode_paths_response MessageType_kPathsAck w
      else if type = MessageType_kQueryGrants then
        serve_command cfg correlation (Inr ()) (pure_query daemon_query_grants) encode_grants_response MessageType_kGrantsAck w
      else if type = MessageType_kLifecycle then
        serve_command cfg correlation (decode_lifecycle_request payload) (\<lambda>q. daemon_set_lifecycle q now)
          encode_lifecycle_response MessageType_kLifecycleAck w
      else if type = MessageType_kCheckpoint then
        serve_command cfg correlation (Inr ()) (\<lambda>_. daemon_checkpoint) encode_ack_response MessageType_kCheckpointAck w
      else if type = MessageType_kStats then
        serve_command cfg correlation (Inr ()) (pure_query (daemon_stats_command (tu_uptime io) (wk_counters w)))
          encode_stats_response MessageType_kStatsAck w
      else if type = MessageType_kShutdown then serve_shutdown cfg correlation w
      else if is_known_message_type (mt_value type) then
        send_error cfg correlation (Status kUnsupported ''a response message type arrived at the server'') (reject_frame w)
      else undecodable cfg correlation (Status kUnsupported ''unhandled message type'') w)"

text \<open>The body is received into a buffer of the declared length; nothing is read for an empty one.\<close>

definition receive_body :: "frame_header \<Rightarrow> tcp_stream \<Rightarrow> socket_counters \<Rightarrow> u8 list result \<times> tcp_stream \<times> socket_counters" where
  "receive_body h s k =
     (if fh_length h > 0 then recv_exact_interruptible (unat (fh_length h)) s k else (Inr [], s, k))"

text \<open>One turn of \<^verbatim>\<open>handle_connection\<close>: whether the loop goes on.\<close>

definition handle_turn :: "server_config \<Rightarrow> turn_io \<Rightarrow> worker \<Rightarrow> bool \<times> worker" where
  "handle_turn cfg io w =
     (case recv_exact_interruptible kFrameHeaderSize (wk_stream w) (wk_counters w) of
        (Inl st, s, k) \<Rightarrow> (False, w\<lparr>wk_stream := s, wk_counters := k\<rparr>)
      | (Inr header_bytes, s, k) \<Rightarrow>
          (let w = w\<lparr>wk_stream := s, wk_counters := k\<rparr> in
           case decode_frame_header header_bytes (sf_max_frame_payload cfg) kProtocolVersion of (st, h) \<Rightarrow>
             if \<not> status_ok st then (False, snd (send_error cfg (fh_correlation h) st (reject_frame w)))
             else
               (case receive_body h (wk_stream w) (wk_counters w) of
                  (Inl st, s, k) \<Rightarrow> (False, reject_frame (w\<lparr>wk_stream := s, wk_counters := k\<rparr>))
                | (Inr payload, s, k) \<Rightarrow>
                    (let w = w\<lparr>wk_stream := s, wk_counters := k\<rparr> in
                     if crc32c payload \<noteq> fh_crc h
                     then (False, snd (send_error cfg (fh_correlation h)
                             (Status kIntegrityFailure ''frame payload failed its checksum'') (reject_frame w)))
                     else
                       (case dispatch cfg io (MessageType (fh_type h)) (fh_correlation h) payload
                               (w\<lparr>wk_counters := add_frame_received (wk_counters w)\<rparr>) of (st, w) \<Rightarrow>
                          (status_ok st \<and> \<not> wk_stop w, w))))))"

section \<open>The connection loop\<close>

lemma send_all_keeps:
  "send_all bytes s k = (st, s', k') \<Longrightarrow> ts_in s' = ts_in s \<and> ts_valid s' = ts_valid s \<and> ts_waits s' = ts_waits s \<and> ts_recvs s' = ts_recvs s"
  by (auto simp: send_all_def split: if_splits prod.splits)

definition same_input :: "worker \<Rightarrow> worker \<Rightarrow> bool" where
  "same_input w w' \<longleftrightarrow> ts_in (wk_stream w') = ts_in (wk_stream w)"

lemma same_input_write: "same_input w (snd (write_message enc type correlation m max_payload w))"
  by (auto simp: write_message_def same_input_def dest: send_all_keeps split: prod.splits sum.splits)

lemma same_input_answer: "same_input w (snd (answer enc type correlation response max_payload w))"
  by (auto simp: answer_def same_input_write split: sum.splits)

lemma same_input_error: "same_input w (snd (send_error cfg correlation st w))"
  by (simp add: send_error_def same_input_write)

lemma same_input_undecodable: "same_input w (snd (undecodable cfg correlation st w))"
  using same_input_error [of w cfg correlation st] by (simp add: undecodable_def reject_frame_def same_input_def)

lemma same_input_core: "same_input (w\<lparr>wk_core := d\<rparr>) w' \<longleftrightarrow> same_input w w'"
  by (simp add: same_input_def)

lemma same_input_command: "same_input w (snd (serve_command cfg correlation request command enc type w))"
proof (cases request)
  case (Inr q)
  obtain response d where "command q (wk_core w) = (response, d)" by fastforce
  then show ?thesis
    using Inr same_input_answer [of "w\<lparr>wk_core := d\<rparr>" enc type correlation response "sf_max_frame_payload cfg"]
    by (simp add: serve_command_def same_input_core)
qed (simp add: serve_command_def same_input_undecodable)

lemma same_input_hello: "same_input w (snd (serve_hello cfg correlation payload w))"
  using same_input_write [of w encode_hello_response MessageType_kHelloAck correlation _ "sf_max_frame_payload cfg"]
  by (auto simp: serve_hello_def same_input_undecodable split: sum.splits prod.splits) (metis snd_conv)+

lemma same_input_shutdown: "same_input w (snd (serve_shutdown cfg correlation w))"
  using same_input_write [of w encode_ack_response MessageType_kShutdownAck correlation
      "\<lparr>ak_code = kOk, ak_detail = ''the daemon is shutting down''\<rparr>" "sf_max_frame_payload cfg"]
  by (auto simp: serve_shutdown_def same_input_def split: prod.splits)

lemma same_input_if: "same_input w (snd a) \<Longrightarrow> same_input w (snd b) \<Longrightarrow> same_input w (snd (if c then a else b))"
  by simp

lemma same_input_served:
  "same_input w (snd (serve_command cfg correlation request command enc type (w\<lparr>wk_core := d\<rparr>)))"
  "same_input w (snd (serve_hello cfg correlation payload (w\<lparr>wk_core := d\<rparr>)))"
  "same_input w (snd (serve_shutdown cfg correlation (w\<lparr>wk_core := d\<rparr>)))"
  "same_input w (snd (undecodable cfg correlation st (w\<lparr>wk_core := d\<rparr>)))"
  "same_input w (snd (send_error cfg correlation st (reject_frame (w\<lparr>wk_core := d\<rparr>))))"
  using same_input_command [of "w\<lparr>wk_core := d\<rparr>" cfg correlation request command enc type]
    same_input_hello [of "w\<lparr>wk_core := d\<rparr>" cfg correlation payload] same_input_shutdown [of "w\<lparr>wk_core := d\<rparr>" cfg correlation]
    same_input_undecodable [of "w\<lparr>wk_core := d\<rparr>" cfg correlation st]
    same_input_error [of "reject_frame (w\<lparr>wk_core := d\<rparr>)" cfg correlation st]
  by (simp_all add: same_input_def reject_frame_def)

lemma dispatch_input: "same_input w (snd (dispatch cfg io type correlation payload w))"
  unfolding dispatch_def Let_def by (intro same_input_if same_input_served)

lemma interruptible_taken:
  "recv_exact_interruptible n s k = (Inr bs, s', k') \<Longrightarrow> taken n bs s s'"
  by (auto simp: recv_exact_interruptible_def wait_loop_taken split: if_splits)

text \<open>A turn that goes on has taken at least a header off the stream.\<close>

lemma handle_turn_consumes:
  assumes "handle_turn cfg io w = (True, w')"
  shows "length (ts_in (wk_stream w')) < length (ts_in (wk_stream w))"
proof -
  obtain hb s k where r: "recv_exact_interruptible kFrameHeaderSize (wk_stream w) (wk_counters w) = (Inr hb, s, k)"
    using assms by (auto simp: handle_turn_def split: prod.splits sum.splits)
  obtain st h where d: "decode_frame_header hb (sf_max_frame_payload cfg) kProtocolVersion = (st, h)" by fastforce
  obtain res s2 k2 where b: "receive_body h s k = (res, s2, k2)" by (metis prod_cases3)
  obtain payload where p: "res = Inr payload"
    using assms r d b by (auto simp: handle_turn_def Let_def split: sum.splits if_splits)
  let ?w = "w\<lparr>wk_stream := s2, wk_counters := add_frame_received k2\<rparr>"
  have "w' = snd (dispatch cfg io (MessageType (fh_type h)) (fh_correlation h) payload ?w)"
    using assms r d b p by (auto simp: handle_turn_def Let_def split: prod.splits if_splits)
  then have "ts_in (wk_stream w') = ts_in s2"
    using dispatch_input [of ?w cfg io] by (simp add: same_input_def)
  moreover have "length (ts_in s2) \<le> length (ts_in s)"
    using b p interruptible_taken [of "unat (fh_length h)" s k payload s2 k2]
    by (auto simp: receive_body_def taken_def split: if_splits)
  moreover have "length (ts_in s) + kFrameHeaderSize = length (ts_in (wk_stream w))"
    using interruptible_taken [OF r] by (simp add: taken_def)
  ultimately show ?thesis by (simp add: kFrameHeaderSize_def)
qed

text \<open>\<^verbatim>\<open>handle_connection\<close>; \<open>clock\<close> gives the times the turns read.\<close>

function handle_connection :: "server_config \<Rightarrow> (nat \<Rightarrow> turn_io) \<Rightarrow> worker \<Rightarrow> worker" where
  "handle_connection cfg clock w =
     (case handle_turn cfg (clock 0) w of (go_on, w') \<Rightarrow>
        if go_on then handle_connection cfg (\<lambda>n. clock (Suc n)) w'
        else w'\<lparr>wk_stream := (wk_stream w')\<lparr>ts_valid := False\<rparr>\<rparr>)"
  by pat_completeness auto
termination
  by (relation "measure (\<lambda>(cfg, clock, w). length (ts_in (wk_stream w)))") (auto dest: handle_turn_consumes [OF sym])

declare handle_connection.simps [simp del]

section \<open>Accepting connections\<close>

definition server_bind :: "string \<Rightarrow> 'l result \<Rightarrow> 'l result" where
  "server_bind host listener =
     (if host \<noteq> ''127.0.0.1'' \<and> host \<noteq> ''localhost''
      then fail kUnsupported (''this build only binds the loopback address; refusing to bind '' @ host)
      else listener)"

text \<open>
  The slots of \<^verbatim>\<open>run\<close>: the compare and exchange loop reserves one atomically or finds none free; a worker
  returns its slot on the way out.
\<close>

definition admit_connection :: "server_config \<Rightarrow> nat \<Rightarrow> daemon_core \<Rightarrow> bool \<times> nat \<times> daemon_core" where
  "admit_connection cfg active d =
     (if active < sf_max_connections cfg then (True, active + 1, note_connection_accepted d)
      else (False, active, note_connection_rejected d))"

section \<open>Client\<close>

record client_options =
  co_max_frame_payload :: u32
  co_connect_attempts :: u32
  co_connect_retry_ms :: u32
  co_io_timeout_ms :: u32

record client =
  cl_stream :: tcp_stream
  cl_options :: client_options
  cl_next_correlation :: u64
  cl_last_correlation :: u64
  cl_counters :: socket_counters

definition send_raw :: "message_type \<Rightarrow> u8 list \<Rightarrow> client \<Rightarrow> status \<times> client" where
  "send_raw type payload c =
     (let correlation = cl_next_correlation c;
          c = c\<lparr>cl_next_correlation := correlation + 1, cl_last_correlation := correlation\<rparr>
      in
      case encode_frame (request_header type correlation) payload (co_max_frame_payload (cl_options c)) of
        Inl st \<Rightarrow> (st, c)
      | Inr frame \<Rightarrow>
          (case send_all frame (cl_stream c) (cl_counters c) of (st, s, k) \<Rightarrow>
             if \<not> status_ok st then (st, c\<lparr>cl_stream := s, cl_counters := k\<rparr>)
             else (ok_status, c\<lparr>cl_stream := s, cl_counters := add_frame_sent k\<rparr>)))"

definition read_exact_payload :: "u32 \<Rightarrow> client \<Rightarrow> (message_type \<times> u64 \<times> u8 list) result \<times> client" where
  "read_exact_payload max_payload c =
     (case recv_exact kFrameHeaderSize (cl_stream c) (cl_counters c) of
        (Inl st, s, k) \<Rightarrow> (Inl st, c\<lparr>cl_stream := s, cl_counters := k\<rparr>)
      | (Inr header_bytes, s, k) \<Rightarrow>
          (case decode_frame_header header_bytes max_payload kProtocolVersion of (st, h) \<Rightarrow>
             if \<not> status_ok st then (Inl st, c\<lparr>cl_stream := s, cl_counters := k\<rparr>)
             else
               (case (if fh_length h > 0 then recv_exact (unat (fh_length h)) s k else (Inr [], s, k)) of
                  (Inl st, s, k) \<Rightarrow> (Inl st, c\<lparr>cl_stream := s, cl_counters := k\<rparr>)
                | (Inr payload, s, k) \<Rightarrow>
                    if crc32c payload \<noteq> fh_crc h
                    then (fail kIntegrityFailure ''response frame failed its checksum'', c\<lparr>cl_stream := s, cl_counters := k\<rparr>)
                    else (Inr (MessageType (fh_type h), fh_correlation h, payload),
                          c\<lparr>cl_stream := s, cl_counters := add_frame_received k\<rparr>))))"

definition receive_raw :: "message_type \<Rightarrow> client \<Rightarrow> u8 list result \<times> client" where
  "receive_raw expected c =
     (case read_exact_payload (co_max_frame_payload (cl_options c)) c of
        (Inl st, c) \<Rightarrow> (Inl st, c)
      | (Inr (type, correlation, payload), c) \<Rightarrow>
          (if correlation \<noteq> cl_last_correlation c
           then fail kMalformedEncoding ''response correlation does not match the request''
           else if type = MessageType_kError
           then rnf_try (decode_ack_response payload) (\<lambda>ack. Inl (Status (ak_code ack) (ak_detail ack)))
           else if type \<noteq> expected
           then fail kUnsupported (''expected '' @ message_type_to_string expected @ '' but received '' @
                  message_type_to_string type)
           else Inr payload, c))"

text \<open>
  One exchange: encode, send, receive, decode. What happens between the send and the receive is the
  argument \<open>exchange\<close>: the wire and, at its other end, a state of its own.
\<close>

type_synonym 'w wire = "tcp_stream \<Rightarrow> 'w \<Rightarrow> tcp_stream \<times> 'w"

definition client_call ::
  "'q encoder \<Rightarrow> message_type \<Rightarrow> message_type \<Rightarrow> (u8 list \<Rightarrow> 'r result) \<Rightarrow> 'w wire \<Rightarrow> 'q \<Rightarrow> client \<Rightarrow> 'w \<Rightarrow>
   'r result \<times> client \<times> 'w" where
  "client_call enc type expected dec exchange m c peer =
     (case enc m (bw_new (unat (co_max_frame_payload (cl_options c)))) of (st, writer) \<Rightarrow>
        if \<not> status_ok st then (Inl st, c, peer)
        else
          (case send_raw type (bw_buffer writer) c of (st, c) \<Rightarrow>
             if \<not> status_ok st then (Inl st, c, peer)
             else
               (case exchange (cl_stream c) peer of (s, peer) \<Rightarrow>
                  (case receive_raw expected (c\<lparr>cl_stream := s\<rparr>) of
                     (Inl st, c) \<Rightarrow> (Inl st, c, peer)
                   | (Inr payload, c) \<Rightarrow> (dec payload, c, peer)))))"

definition no_body :: "unit encoder" where
  "no_body u w = finish w"

definition client_hello :: "u32 \<Rightarrow> 'w wire \<Rightarrow> client \<Rightarrow> 'w \<Rightarrow> hello_response result \<times> client \<times> 'w" where
  "client_hello client_id exchange =
     client_call encode_hello_request MessageType_kHello MessageType_kHelloAck decode_hello_response exchange
       \<lparr>hq_protocol_version = kProtocolVersion, hq_client_id = client_id\<rparr>"

definition client_submit_evidence ::
  "evidence_record list \<Rightarrow> 'w wire \<Rightarrow> client \<Rightarrow> 'w \<Rightarrow> evidence_ack_response result \<times> client \<times> 'w" where
  "client_submit_evidence records exchange =
     client_call encode_submit_evidence MessageType_kSubmitEvidence MessageType_kEvidenceAck decode_evidence_ack exchange
       \<lparr>sv_records = records\<rparr>"

definition client_compose :: "topology_generation \<Rightarrow> 'w wire \<Rightarrow> client \<Rightarrow> 'w \<Rightarrow> compose_response result \<times> client \<times> 'w" where
  "client_compose generation exchange =
     client_call encode_compose_command MessageType_kCompose MessageType_kComposeAck decode_compose_response exchange
       \<lparr>cc_generation = generation\<rparr>"

definition client_acquire :: "acquire_request \<Rightarrow> 'w wire \<Rightarrow> client \<Rightarrow> 'w \<Rightarrow> grant_response result \<times> client \<times> 'w" where
  "client_acquire q exchange =
     client_call encode_acquire_request MessageType_kAcquire MessageType_kAcquireAck decode_grant_response exchange q"

definition client_renew :: "lease_token \<Rightarrow> u64 \<Rightarrow> 'w wire \<Rightarrow> client \<Rightarrow> 'w \<Rightarrow> grant_response result \<times> client \<times> 'w" where
  "client_renew token ttl exchange =
     client_call encode_renew_request MessageType_kRenew MessageType_kRenewAck decode_grant_response exchange
       \<lparr>rn_token = token, rn_ttl_ms = ttl\<rparr>"

definition client_release :: "lease_token \<Rightarrow> 'w wire \<Rightarrow> client \<Rightarrow> 'w \<Rightarrow> ack_response result \<times> client \<times> 'w" where
  "client_release token exchange =
     client_call encode_token_message MessageType_kRelease MessageType_kReleaseAck decode_ack_response exchange
       \<lparr>tm_token = token\<rparr>"

definition client_validate :: "lease_token \<Rightarrow> 'w wire \<Rightarrow> client \<Rightarrow> 'w \<Rightarrow> grant_response result \<times> client \<times> 'w" where
  "client_validate token exchange =
     client_call encode_token_message MessageType_kValidate MessageType_kValidateAck decode_grant_response exchange
       \<lparr>tm_token = token\<rparr>"

definition client_lookup :: "request_id \<Rightarrow> 'w wire \<Rightarrow> client \<Rightarrow> 'w \<Rightarrow> lookup_response result \<times> client \<times> 'w" where
  "client_lookup request exchange =
     client_call encode_lookup_request MessageType_kLookup MessageType_kLookupAck decode_lookup_response exchange
       \<lparr>lu_request = request\<rparr>"

definition client_query_state :: "'w wire \<Rightarrow> client \<Rightarrow> 'w \<Rightarrow> state_response result \<times> client \<times> 'w" where
  "client_query_state exchange =
     client_call no_body MessageType_kQueryState MessageType_kStateAck decode_state_response exchange ()"

definition client_query_resources ::
  "resource_query \<Rightarrow> 'w wire \<Rightarrow> client \<Rightarrow> 'w \<Rightarrow> resources_response result \<times> client \<times> 'w" where
  "client_query_resources q exchange =
     client_call encode_resource_query MessageType_kQueryResources MessageType_kResourcesAck decode_resources_response exchange q"

definition client_query_paths :: "'w wire \<Rightarrow> client \<Rightarrow> 'w \<Rightarrow> paths_response result \<times> client \<times> 'w" where
  "client_query_paths exchange =
     client_call no_body MessageType_kQueryPaths MessageType_kPathsAck decode_paths_response exchange ()"

definition client_query_grants :: "'w wire \<Rightarrow> client \<Rightarrow> 'w \<Rightarrow> grants_response result \<times> client \<times> 'w" where
  "client_query_grants exchange =
     client_call no_body MessageType_kQueryGrants MessageType_kGrantsAck decode_grants_response exchange ()"

definition client_set_lifecycle ::
  "lifecycle_state \<Rightarrow> 'w wire \<Rightarrow> client \<Rightarrow> 'w \<Rightarrow> lifecycle_response result \<times> client \<times> 'w" where
  "client_set_lifecycle target exchange =
     client_call encode_lifecycle_request MessageType_kLifecycle MessageType_kLifecycleAck decode_lifecycle_response exchange
       \<lparr>ly_target = target\<rparr>"

definition client_checkpoint :: "'w wire \<Rightarrow> client \<Rightarrow> 'w \<Rightarrow> ack_response result \<times> client \<times> 'w" where
  "client_checkpoint exchange =
     client_call no_body MessageType_kCheckpoint MessageType_kCheckpointAck decode_ack_response exchange ()"

definition client_stats :: "'w wire \<Rightarrow> client \<Rightarrow> 'w \<Rightarrow> stats_response result \<times> client \<times> 'w" where
  "client_stats exchange =
     client_call no_body MessageType_kStats MessageType_kStatsAck decode_stats_response exchange ()"

definition client_shutdown :: "'w wire \<Rightarrow> client \<Rightarrow> 'w \<Rightarrow> ack_response result \<times> client \<times> 'w" where
  "client_shutdown exchange =
     client_call no_body MessageType_kShutdown MessageType_kShutdownAck decode_ack_response exchange ()"

end
