(* ===== verification/Rnf_Protocol_Props.thy ===== *)
theory Rnf_Protocol_Props
  imports Rnf_Protocol
begin

text \<open>
  The message bodies are canonical. The interface a message offers the network layer is a locale: its
  encoder makes a fixed sequence of writer calls, its decoder accepts exactly the bytes of those calls.
  Every message of the protocol interprets it, and a body is then read back by its peer exactly as it was
  written, whatever its kind.
\<close>

section \<open>Encoders as call sequences\<close>

definition writes :: "(byte_writer \<Rightarrow> status \<times> byte_writer) \<Rightarrow> writer_call list \<Rightarrow> bool" where
  "writes e cs \<longleftrightarrow>
     (\<forall>w. bw_wf w \<longrightarrow> (status_ok (fst (e w)) \<longleftrightarrow> bw_ok (write_all cs w)) \<and>
        (status_ok (fst (e w)) \<longrightarrow> snd (e w) = write_all cs w))"

lemma write_all_wf: "bw_wf w \<Longrightarrow> bw_wf (write_all cs w)"
proof (induction cs arbitrary: w)
  case (Cons c cs)
  then show ?case using write_call_wf [OF Cons.prems, of c] by (simp add: write_all_def)
qed (simp add: write_all_def)

lemma write_all_failed: "bw_wf w \<Longrightarrow> bw_ok (write_all cs w) \<Longrightarrow> bw_ok w"
  using write_all_spec(1) by blast

lemma writes_finish: "writes (\<lambda>w. finish (write_all cs w)) cs"
  by (simp add: writes_def finish_def)

lemma writesD:
  assumes "writes e cs" "bw_wf w"
  shows "(status_ok (fst (e w)) \<longleftrightarrow> bw_ok (write_all cs w)) \<and>
    (status_ok (fst (e w)) \<longrightarrow> snd (e w) = write_all cs w)"
  using assms unfolding writes_def by blast

lemma writes_prefix:
  assumes "writes e ds"
  shows "writes (\<lambda>w. e (write_all cs w)) (cs @ ds)"
  unfolding writes_def write_all_append [symmetric]
  using writesD [OF assms write_all_wf] by blast

lemma writes_then:
  assumes "writes e cs" "writes k ds"
  shows "writes (\<lambda>w. encode_then (e w) k) (cs @ ds)"
  unfolding writes_def
proof (intro allI impI)
  fix w
  assume w: "bw_wf w"
  obtain st w' where e: "e w = (st, w')" by fastforce
  note wf = write_all_wf [OF w, of cs]
  show "(status_ok (fst (encode_then (e w) k)) \<longleftrightarrow> bw_ok (write_all (cs @ ds) w)) \<and>
      (status_ok (fst (encode_then (e w) k)) \<longrightarrow> snd (encode_then (e w) k) = write_all (cs @ ds) w)"
  proof (cases "status_ok st")
    case True
    then have "w' = write_all cs w" using writesD [OF assms(1) w] by (simp add: e)
    with True have "encode_then (e w) k = k (write_all cs w)" by (simp add: e encode_then_def)
    then show ?thesis unfolding write_all_append [symmetric] by (simp only:) (rule writesD [OF assms(2) wf])
  next
    case False
    then have "\<not> bw_ok (write_all cs w)" using writesD [OF assms(1) w] by (simp add: e)
    then have "\<not> bw_ok (write_all ds (write_all cs w))" using write_all_failed [OF wf] by blast
    moreover have "encode_then (e w) k = (st, w')" using False by (simp add: e encode_then_def)
    ultimately show ?thesis unfolding write_all_append [symmetric] using False by (simp only: fst_conv simp_thms)
  qed
qed

lemma writes_each:
  assumes "\<And>x. x \<in> set xs \<Longrightarrow> writes (e x) (f x)" "writes k ds"
  shows "writes (encode_each e xs k) (concat (map f xs) @ ds)"
  using assms(1)
proof (induction xs)
  case Nil
  have "encode_each e [] k = k" by (rule ext) simp
  with assms(2) show ?case by simp
next
  case (Cons x xs)
  have "encode_each e (x # xs) k = (\<lambda>w. encode_then (e x w) (encode_each e xs k))" by (rule ext) simp
  with writes_then [of "e x" "f x" "encode_each e xs k"] Cons show ?case by simp
qed

lemma writes_evidence: "evidence_valid r \<Longrightarrow> writes (encode_evidence r) (evidence_calls r)"
  using encode_evidence_ok [of r] by (simp add: writes_def Let_def evidence_valid_text_ok)

section \<open>The interface of a message\<close>

text \<open>
  What the peer reads is what was written; and, for a body with one encoding only, nothing else is
  accepted.
\<close>

locale message_body =
  fixes encode :: "'m \<Rightarrow> byte_writer \<Rightarrow> status \<times> byte_writer"
    and decode :: "u8 list \<Rightarrow> 'm result"
    and calls :: "'m \<Rightarrow> writer_call list"
    and ok :: "'m \<Rightarrow> bool"
  assumes encode_writes: "ok m \<Longrightarrow> writes (encode m) (calls m)"
    and calls_within: "ok m \<Longrightarrow> calls_ok (calls m)"
    and decode_calls: "ok m \<Longrightarrow> decode (calls_bytes (calls m)) = Inr m"
begin

lemma encode_fits:
  assumes "ok m"
  shows "status_ok (fst (encode m (bw_new n))) \<longleftrightarrow> length (calls_bytes (calls m)) \<le> n"
    "length (calls_bytes (calls m)) \<le> n \<Longrightarrow> bw_buffer (snd (encode m (bw_new n))) = calls_bytes (calls m)"
proof -
  have wf: "bw_wf (bw_new n)" by (simp add: bw_wf_def bw_new_def)
  have iff: "bw_ok (write_all (calls m) (bw_new n)) \<longleftrightarrow> length (calls_bytes (calls m)) \<le> n"
    using write_all_spec(1) [OF wf, of "calls m"] calls_within [OF assms] by (auto simp: bw_new_def)
  note w = writesD [OF encode_writes [OF assms] wf]
  show "status_ok (fst (encode m (bw_new n))) \<longleftrightarrow> length (calls_bytes (calls m)) \<le> n" using w iff by simp
  show "bw_buffer (snd (encode m (bw_new n))) = calls_bytes (calls m)" if "length (calls_bytes (calls m)) \<le> n"
    using that w iff write_all_spec(2) [OF wf, of "calls m"] by (simp add: bw_new_def)
qed

lemma message_roundtrip:
  assumes "ok m" "status_ok (fst (encode m (bw_new n)))"
  shows "decode (bw_buffer (snd (encode m (bw_new n)))) = Inr m"
  using encode_fits [OF assms(1), of n] assms decode_calls [OF assms(1)] by simp

end

locale message_codec = message_body +
  assumes decode_sound: "decode bs = Inr m \<Longrightarrow> ok m \<and> bs = calls_bytes (calls m)"
begin

lemma decode_injective: "decode bs = Inr m \<Longrightarrow> decode cs = Inr m \<Longrightarrow> bs = cs"
  using decode_sound by metis

end

section \<open>Field parsers\<close>

lemma max_detail_bound: "max_detail < 2 ^ 32"
  by (simp add: kLimits_def)

definition ref_ok :: "resource_ref \<Rightarrow> bool" where
  "ref_ok r \<longleftrightarrow> 1 \<le> rk_byte (ref_kind r) \<and> rk_byte (ref_kind r) \<le> 6"

lemma ref_codec_wire: "call_codec put_ref get_ref ref_ok"
  by unfold_locales
    (auto simp: put_ref_def get_ref_def ref_ok_def codec_simps Option.bind_eq_Some_conv
      dest!: dec_sound_basic split: if_splits)

lemmas wire_enc = codec_simps codec.dec_enc [OF text_codec [OF max_detail_bound]] codec.dec_enc [OF ref_codec_wire]

lemmas wire_sound = dec_sound_basic codec.dec_sound [OF text_codec [OF max_detail_bound]]
  codec.dec_sound [OF ref_codec_wire]

lemma calls_bytes_append: "calls_bytes (xs @ ys) = calls_bytes xs @ calls_bytes ys" by simp

lemma read_fields_Inr: "read_fields what p k = Inr y \<longleftrightarrow> (\<exists>x. p = Some x \<and> k x = Inr y)"
  by (simp add: read_fields_def or_fail_Inr_iff)

lemma read_fields_Some [simp]: "read_fields what (Some x) k = k x"
  by (simp add: read_fields_def)

lemma trailing_Inr [simp]: "trailing m bs = Inr x \<longleftrightarrow> bs = [] \<and> x = m"
  by (auto simp: trailing_def)

lemma to_opt_read_fields [simp]: "to_opt (read_fields what p Inr) = p"
  by (cases p) (simp_all add: read_fields_def)

text \<open>A body that is one run of fields, with at most a check on the result.\<close>

lemma fields_message:
  assumes "call_codec calls parse ok" "\<And>m. ok m \<Longrightarrow> calls_ok (calls m)"
  shows "message_codec (\<lambda>m w. finish (write_all (calls m) w))
    (\<lambda>bs. read_fields what (parse bs) (\<lambda>(m, bs). if bad m then fail code detail else trailing m bs)) calls
    (\<lambda>m. ok m \<and> \<not> bad m)"
proof
  fix m
  assume m: "ok m \<and> \<not> bad m"
  show "writes (\<lambda>w. finish (write_all (calls m) w)) (calls m)" by (rule writes_finish)
  show "calls_ok (calls m)" using m assms(2) by simp
  show "read_fields what (parse (calls_bytes (calls m))) (\<lambda>(m, bs). if bad m then fail code detail else trailing m bs) = Inr m"
    using codec.dec_enc [OF assms(1), of m "[]"] m by (simp add: read_fields_def)
next
  fix bs m
  assume "read_fields what (parse bs) (\<lambda>(m, bs). if bad m then fail code detail else trailing m bs) = Inr m"
  then have "parse bs = Some (m, []) \<and> \<not> bad m" by (auto simp: read_fields_Inr split: if_splits)
  with codec.dec_sound [OF assms(1), of bs m "[]"] show "(ok m \<and> \<not> bad m) \<and> bs = calls_bytes (calls m)" by simp
qed

lemma plain_message:
  assumes "call_codec calls parse ok" "\<And>m. ok m \<Longrightarrow> calls_ok (calls m)"
  shows "message_codec (\<lambda>m w. finish (write_all (calls m) w))
    (\<lambda>bs. read_fields what (parse bs) (\<lambda>(m, bs). trailing m bs)) calls ok"
  using fields_message [OF assms, where bad = "\<lambda>_. False"] by simp

section \<open>The runs of fields\<close>

abbreviation detail_ok :: "string \<Rightarrow> bool" where "detail_ok s \<equiv> text_ok max_detail s"

lemma detail_calls_ok: "detail_ok s \<Longrightarrow> call_ok (W_text s max_detail)"
  by (simp add: kLimits_def)

lemma hello_request_codec: "call_codec hello_request_calls fields_hello_request (\<lambda>_. True)"
  by unfold_locales
    (auto simp: hello_request_calls_def fields_hello_request_def wire_enc Option.bind_eq_Some_conv dest!: wire_sound)

lemma hello_response_codec:
  "call_codec hello_response_calls fields_hello_response (\<lambda>m. length (hr_snapshot_digest m) = 32 \<and> detail_ok (hr_detail m))"
  by unfold_locales
    (auto simp: hello_response_calls_def fields_hello_response_def wire_enc Option.bind_eq_Some_conv call_bytes_text
      simp del: call_bytes.simps(8) dest!: wire_sound)

lemma evidence_ack_entry_codec:
  "call_codec evidence_ack_entry_calls fields_evidence_ack_entry (\<lambda>e. length (ae_digest e) = 32 \<and> detail_ok (ae_detail e))"
  by unfold_locales
    (auto simp: evidence_ack_entry_calls_def fields_evidence_ack_entry_def wire_enc Option.bind_eq_Some_conv call_bytes_text
      simp del: call_bytes.simps(8) dest!: wire_sound)

lemma compose_command_codec: "call_codec compose_command_calls fields_compose_command (\<lambda>_. True)"
  by unfold_locales
    (auto simp: compose_command_calls_def fields_compose_command_def wire_enc Option.bind_eq_Some_conv dest!: wire_sound)

lemma compose_response_codec:
  "call_codec compose_response_calls fields_compose_response (\<lambda>m. length (cz_digest m) = 32 \<and> detail_ok (cz_detail m))"
  by unfold_locales
    (auto simp: compose_response_calls_def fields_compose_response_def wire_enc Option.bind_eq_Some_conv call_bytes_text
      simp del: call_bytes.simps(8) dest!: wire_sound)

lemma acquire_request_codec: "call_codec acquire_request_calls fields_acquire_request (\<lambda>m. ref_ok (aq_scope m))"
  by unfold_locales
    (auto simp: acquire_request_calls_def fields_acquire_request_def wire_enc Option.bind_eq_Some_conv dest!: wire_sound)

lemma grant_summary_codec:
  "call_codec grant_summary_calls fields_grant_summary
     (\<lambda>m. ref_ok (gy_scope m) \<and> length (gy_basis m) = 32 \<and> detail_ok (gy_reason m))"
  by unfold_locales
    (auto simp: grant_summary_calls_def fields_grant_summary_def wire_enc Option.bind_eq_Some_conv call_bytes_text
      simp del: call_bytes.simps(8) dest!: wire_sound)

lemma token_message_codec:
  "call_codec token_message_calls fields_token_message (\<lambda>m. length (t_scope_basis (tm_token m)) = 32)"
  by unfold_locales
    (auto simp: token_message_calls_def fields_token_message_def wire_enc Option.bind_eq_Some_conv dest!: wire_sound)

lemma lookup_request_codec: "call_codec lookup_request_calls fields_lookup_request (\<lambda>_. True)"
  by unfold_locales
    (auto simp: lookup_request_calls_def fields_lookup_request_def wire_enc Option.bind_eq_Some_conv dest!: wire_sound)

lemma lookup_response_codec: "call_codec lookup_response_calls fields_lookup_response (\<lambda>m. detail_ok (lv_detail m))"
  by unfold_locales
    (auto simp: lookup_response_calls_def fields_lookup_response_def wire_enc Option.bind_eq_Some_conv call_bytes_text
      simp del: call_bytes.simps(8) dest!: wire_sound)

lemma diagnostic_entry_codec: "call_codec diagnostic_entry_calls fields_diagnostic_entry (\<lambda>m. detail_ok (dn_detail m))"
  by unfold_locales
    (auto simp: diagnostic_entry_calls_def fields_diagnostic_entry_def wire_enc Option.bind_eq_Some_conv call_bytes_text
      simp del: call_bytes.simps(8) dest!: wire_sound)

lemma capacity_message_codec: "call_codec capacity_message_calls fields_capacity_message (\<lambda>_. True)"
  by unfold_locales
    (auto simp: capacity_message_calls_def fields_capacity_message_def wire_enc Option.bind_eq_Some_conv dest!: wire_sound)

lemma resource_query_codec: "call_codec resource_query_calls fields_resource_query (\<lambda>_. True)"
  by unfold_locales
    (auto simp: resource_query_calls_def fields_resource_query_def wire_enc Option.bind_eq_Some_conv dest!: wire_sound)

lemma resource_entry_codec: "call_codec resource_entry_calls fields_resource_entry (\<lambda>m. ref_ok (re_ref m))"
  by unfold_locales
    (auto simp: resource_entry_calls_def fields_resource_entry_def wire_enc Option.bind_eq_Some_conv dest!: wire_sound)

lemma path_entry_codec: "call_codec path_entry_calls fields_path_entry (\<lambda>_. True)"
  by unfold_locales
    (auto simp: path_entry_calls_def fields_path_entry_def wire_enc Option.bind_eq_Some_conv dest!: wire_sound)

lemma lifecycle_response_codec:
  "call_codec lifecycle_response_calls fields_lifecycle_response (\<lambda>m. detail_ok (lz_detail m))"
  by unfold_locales
    (auto simp: lifecycle_response_calls_def fields_lifecycle_response_def wire_enc Option.bind_eq_Some_conv call_bytes_text
      simp del: call_bytes.simps(8) dest!: wire_sound)

lemma stats_response_codec: "call_codec stats_response_calls fields_stats_response (\<lambda>m. detail_ok (sx_detail m))"
  by unfold_locales
    (auto simp: stats_response_calls_def fields_stats_response_def wire_enc Option.bind_eq_Some_conv call_bytes_text
      simp del: call_bytes.simps(8) dest!: wire_sound)

lemma ack_response_codec: "call_codec ack_response_calls fields_ack_response (\<lambda>m. detail_ok (ak_detail m))"
  by unfold_locales
    (auto simp: ack_response_calls_def fields_ack_response_def wire_enc Option.bind_eq_Some_conv call_bytes_text
      simp del: call_bytes.simps(8) dest!: wire_sound)

section \<open>The messages\<close>

lemma wire_bounds:
  "pl_max_evidence_records kLimits < 2 ^ 32" "pl_max_resources kLimits < 2 ^ 32" "pl_max_paths kLimits < 2 ^ 32"
  "pl_max_grants kLimits < 2 ^ 32" "pl_max_diagnostics kLimits < 2 ^ 32"
  by (simp_all add: kLimits_def)

lemmas message_calls = hello_request_calls_def hello_response_calls_def evidence_ack_entry_calls_def
  compose_command_calls_def compose_response_calls_def acquire_request_calls_def grant_summary_calls_def
  token_message_calls_def lookup_request_calls_def lookup_response_calls_def diagnostic_entry_calls_def
  capacity_message_calls_def resource_query_calls_def resource_entry_calls_def path_entry_calls_def
  lifecycle_response_calls_def stats_response_calls_def ack_response_calls_def put_ref_def

interpretation hello_request: message_codec encode_hello_request decode_hello_request hello_request_calls "\<lambda>_. True"
  unfolding encode_hello_request_def [abs_def] decode_hello_request_def [abs_def]
  by (rule plain_message [OF hello_request_codec]) (simp add: message_calls)

interpretation hello_response: message_codec encode_hello_response decode_hello_response hello_response_calls
  "\<lambda>m. length (hr_snapshot_digest m) = 32 \<and> detail_ok (hr_detail m)"
  unfolding encode_hello_response_def [abs_def] decode_hello_response_def [abs_def]
  by (rule plain_message [OF hello_response_codec]) (simp add: message_calls kLimits_def)

interpretation compose_command: message_codec encode_compose_command decode_compose_command compose_command_calls "\<lambda>_. True"
  unfolding encode_compose_command_def [abs_def] decode_compose_command_def [abs_def]
  by (rule plain_message [OF compose_command_codec]) (simp add: message_calls)

interpretation compose_response: message_codec encode_compose_response decode_compose_response compose_response_calls
  "\<lambda>m. length (cz_digest m) = 32 \<and> detail_ok (cz_detail m)"
  unfolding encode_compose_response_def [abs_def] decode_compose_response_def [abs_def]
  by (rule plain_message [OF compose_response_codec]) (simp add: message_calls kLimits_def)

interpretation acquire_request: message_codec encode_acquire_request decode_acquire_request acquire_request_calls
  "\<lambda>m. ref_ok (aq_scope m) \<and> \<not> (aq_mode m \<noteq> GrantMode_kShared \<and> aq_mode m \<noteq> GrantMode_kExclusive)"
  unfolding encode_acquire_request_def [abs_def] decode_acquire_request_def [abs_def]
  by (rule fields_message [OF acquire_request_codec]) (simp add: message_calls)

lemma decode_token_message_alt:
  "decode_token_message bs = read_fields ''lease token'' (fields_token_message bs) (\<lambda>(m, bs). trailing m bs)"
  by (cases "fields_token_message bs") (simp_all add: decode_token_message_def decode_token_prefix_def read_fields_def)

interpretation token_message: message_codec encode_token_message decode_token_message token_message_calls
  "\<lambda>m. length (t_scope_basis (tm_token m)) = 32"
  unfolding encode_token_message_def [abs_def] decode_token_message_alt [abs_def]
  by (rule plain_message [OF token_message_codec]) (simp add: message_calls)

interpretation lookup_request: message_codec encode_lookup_request decode_lookup_request lookup_request_calls "\<lambda>_. True"
  unfolding encode_lookup_request_def [abs_def] decode_lookup_request_def [abs_def]
  by (rule plain_message [OF lookup_request_codec]) (simp add: message_calls)

interpretation lookup_response: message_codec encode_lookup_response decode_lookup_response lookup_response_calls
  "\<lambda>m. detail_ok (lv_detail m)"
  unfolding encode_lookup_response_def [abs_def] decode_lookup_response_def [abs_def]
  by (rule plain_message [OF lookup_response_codec]) (simp add: message_calls kLimits_def)

interpretation resource_query: message_codec encode_resource_query decode_resource_query resource_query_calls "\<lambda>_. True"
  unfolding encode_resource_query_def [abs_def] decode_resource_query_def [abs_def]
  by (rule plain_message [OF resource_query_codec]) (simp add: message_calls)

interpretation lifecycle_response: message_codec encode_lifecycle_response decode_lifecycle_response
  lifecycle_response_calls "\<lambda>m. detail_ok (lz_detail m)"
  unfolding encode_lifecycle_response_def [abs_def] decode_lifecycle_response_def [abs_def]
  by (rule plain_message [OF lifecycle_response_codec]) (simp add: message_calls kLimits_def)

interpretation stats_response: message_codec encode_stats_response decode_stats_response stats_response_calls
  "\<lambda>m. detail_ok (sx_detail m)"
  unfolding encode_stats_response_def [abs_def] decode_stats_response_def [abs_def]
  by (rule plain_message [OF stats_response_codec]) (simp add: message_calls kLimits_def)

interpretation ack_response: message_codec encode_ack_response decode_ack_response ack_response_calls
  "\<lambda>m. detail_ok (ak_detail m)"
  unfolding encode_ack_response_def [abs_def] decode_ack_response_def [abs_def]
  by (rule plain_message [OF ack_response_codec]) (simp add: message_calls kLimits_def)

text \<open>Lists of entries, counted against a bound of the protocol.\<close>

lemma decode_counted_codec:
  assumes "codec e (\<lambda>bs. to_opt (d bs)) ok" "m < 2 ^ 32"
  shows "codec (\<lambda>xs. store_le 4 (of_nat (length xs) :: u32) @ enc_many e xs)
    (\<lambda>bs. to_opt (decode_counted m detail d bs)) (\<lambda>xs. length xs \<le> m \<and> (\<forall>x\<in>set xs. ok x))"
proof -
  have "to_opt (decode_counted m detail d bs) = to_opt (decode_list m detail d bs)" for bs
    by (cases "r_count m bs") (simp_all add: decode_counted_def decode_list_def or_fail_def)
  with counted_codec [OF assms, of detail] show ?thesis by simp
qed

definition evidence_ack_calls :: "evidence_ack_response \<Rightarrow> writer_call list" where
  "evidence_ack_calls m = counted_calls evidence_ack_entry_calls (ar_entries m)"

lemma counted_calls_ok: "calls_ok (counted_calls f xs) \<longleftrightarrow> (\<forall>x\<in>set xs. calls_ok (f x))"
  by (auto simp: counted_calls_def list_all_iff)

interpretation evidence_ack: message_codec encode_evidence_ack decode_evidence_ack evidence_ack_calls
  "\<lambda>m. length (ar_entries m) \<le> pl_max_evidence_records kLimits \<and>
     (\<forall>e\<in>set (ar_entries m). length (ae_digest e) = 32 \<and> detail_ok (ae_detail e))"
proof -
  have entries: "codec (\<lambda>xs. calls_bytes (counted_calls evidence_ack_entry_calls xs))
      (\<lambda>bs. to_opt (decode_counted (pl_max_evidence_records kLimits) ''evidence acknowledgement exceeds its bound''
         (\<lambda>bs. read_fields ''evidence acknowledgement'' (fields_evidence_ack_entry bs) Inr) bs))
      (\<lambda>xs. length xs \<le> pl_max_evidence_records kLimits \<and>
         (\<forall>x\<in>set xs. length (ae_digest x) = 32 \<and> detail_ok (ae_detail x)))"
    unfolding calls_bytes_counted
    by (rule decode_counted_codec [OF _ wire_bounds(1)]) (simp add: evidence_ack_entry_codec)
  show "message_codec encode_evidence_ack decode_evidence_ack evidence_ack_calls
    (\<lambda>m. length (ar_entries m) \<le> pl_max_evidence_records kLimits \<and>
     (\<forall>e\<in>set (ar_entries m). length (ae_digest e) = 32 \<and> detail_ok (ae_detail e)))"
  proof
    fix m :: evidence_ack_response
    assume ok: "length (ar_entries m) \<le> pl_max_evidence_records kLimits \<and>
     (\<forall>e\<in>set (ar_entries m). length (ae_digest e) = 32 \<and> detail_ok (ae_detail e))"
    show "writes (encode_evidence_ack m) (evidence_ack_calls m)"
      unfolding encode_evidence_ack_def [abs_def] evidence_ack_calls_def by (rule writes_finish)
    show "calls_ok (evidence_ack_calls m)"
      using ok by (fastforce simp: evidence_ack_calls_def counted_calls_ok message_calls kLimits_def)
    show "decode_evidence_ack (calls_bytes (evidence_ack_calls m)) = Inr m"
      using codec.dec_enc [OF entries, of "ar_entries m" "[]"] ok
      by (simp add: decode_evidence_ack_def evidence_ack_calls_def)
  next
    fix bs and m :: evidence_ack_response
    assume "decode_evidence_ack bs = Inr m"
    then show "(length (ar_entries m) \<le> pl_max_evidence_records kLimits \<and>
     (\<forall>e\<in>set (ar_entries m). length (ae_digest e) = 32 \<and> detail_ok (ae_detail e))) \<and>
     bs = calls_bytes (evidence_ack_calls m)"
      using codec.dec_sound [OF entries, of bs]
      by (auto simp: decode_evidence_ack_def evidence_ack_calls_def rnf_try_Inr_iff)
  qed
qed

definition submit_evidence_calls :: "submit_evidence_request \<Rightarrow> writer_call list" where
  "submit_evidence_calls m = counted_calls evidence_calls (sv_records m)"

interpretation submit_evidence: message_codec encode_submit_evidence decode_submit_evidence submit_evidence_calls
  "\<lambda>m. length (sv_records m) \<le> pl_max_evidence_records kLimits \<and> (\<forall>r\<in>set (sv_records m). evidence_valid r)"
proof -
  have dec: "dec_evidence = (\<lambda>bs. to_opt (decode_evidence bs))"
    by (rule ext) (simp add: dec_evidence_def to_opt_def)
  have records: "codec (\<lambda>xs. calls_bytes (counted_calls evidence_calls xs))
      (\<lambda>bs. to_opt (decode_counted (pl_max_evidence_records kLimits) ''evidence batch exceeds its bound'' decode_evidence bs))
      (\<lambda>xs. length xs \<le> pl_max_evidence_records kLimits \<and> (\<forall>x\<in>set xs. evidence_valid x))"
    unfolding calls_bytes_counted evidence_bytes_def [symmetric]
    by (rule decode_counted_codec [OF _ wire_bounds(1)]) (use evidencec.codec_axioms dec in simp)
  show "message_codec encode_submit_evidence decode_submit_evidence submit_evidence_calls
    (\<lambda>m. length (sv_records m) \<le> pl_max_evidence_records kLimits \<and> (\<forall>r\<in>set (sv_records m). evidence_valid r))"
  proof
    fix m :: submit_evidence_request
    assume ok: "length (sv_records m) \<le> pl_max_evidence_records kLimits \<and> (\<forall>r\<in>set (sv_records m). evidence_valid r)"
    have "writes (encode_each encode_evidence (sv_records m) finish) (concat (map evidence_calls (sv_records m)) @ [])"
      by (rule writes_each) (use ok writes_evidence writes_finish [of "[]"] in \<open>auto simp: write_all_def\<close>)
    then show "writes (encode_submit_evidence m) (submit_evidence_calls m)"
      using writes_prefix [of _ _ "[W_u32 (of_nat (length (sv_records m)))]"]
      by (simp add: encode_submit_evidence_def [abs_def] submit_evidence_calls_def counted_calls_def)
    show "calls_ok (submit_evidence_calls m)"
      using ok by (simp add: submit_evidence_calls_def counted_calls_ok evidence_calls_ok evidence_valid_text_ok)
    show "decode_submit_evidence (calls_bytes (submit_evidence_calls m)) = Inr m"
      using codec.dec_enc [OF records, of "sv_records m" "[]"] ok
      by (simp add: decode_submit_evidence_def submit_evidence_calls_def)
  next
    fix bs and m :: submit_evidence_request
    assume "decode_submit_evidence bs = Inr m"
    then show "(length (sv_records m) \<le> pl_max_evidence_records kLimits \<and> (\<forall>r\<in>set (sv_records m). evidence_valid r)) \<and>
      bs = calls_bytes (submit_evidence_calls m)"
      using codec.dec_sound [OF records, of bs]
      by (auto simp: decode_submit_evidence_def submit_evidence_calls_def rnf_try_Inr_iff)
  qed
qed

definition renew_request_calls :: "renew_request \<Rightarrow> writer_call list" where
  "renew_request_calls m = token_message_calls \<lparr>tm_token = rn_token m\<rparr> @ [W_u64 (rn_ttl_ms m)]"

interpretation renew_request: message_codec encode_renew_request decode_renew_request renew_request_calls
  "\<lambda>m. length (t_scope_basis (rn_token m)) = 32"
proof
  fix m :: renew_request
  assume ok: "length (t_scope_basis (rn_token m)) = 32"
  have "writes (encode_token_message x) (token_message_calls x)" for x
    unfolding encode_token_message_def [abs_def] by (rule writes_finish)
  from writes_then [OF this writes_finish, of "\<lparr>tm_token = rn_token m\<rparr>" "[W_u64 (rn_ttl_ms m)]"]
  show "writes (encode_renew_request m) (renew_request_calls m)"
    by (simp add: encode_renew_request_def [abs_def] renew_request_calls_def)
  show "calls_ok (renew_request_calls m)" by (simp add: renew_request_calls_def message_calls)
  show "decode_renew_request (calls_bytes (renew_request_calls m)) = Inr m"
    using codec.dec_enc [OF token_message_codec, of "\<lparr>tm_token = rn_token m\<rparr>" "store_le 8 (rn_ttl_ms m)"] ok
      u64c.dec_enc [of "rn_ttl_ms m" "[]"]
    by (simp add: decode_renew_request_def decode_token_prefix_def renew_request_calls_def trailing_def)
next
  fix bs and m :: renew_request
  assume "decode_renew_request bs = Inr m"
  then show "length (t_scope_basis (rn_token m)) = 32 \<and> bs = calls_bytes (renew_request_calls m)"
    by (auto simp: decode_renew_request_def decode_token_prefix_def renew_request_calls_def rnf_try_Inr_iff
        read_fields_Inr token_message_calls_def dest!: codec.dec_sound [OF token_message_codec] wire_sound)
qed

definition summary_ok :: "grant_summary \<Rightarrow> bool" where
  "summary_ok m \<longleftrightarrow> ref_ok (gy_scope m) \<and> length (gy_basis m) = 32 \<and> detail_ok (gy_reason m)"

lemma summary_codec: "call_codec grant_summary_calls fields_grant_summary summary_ok"
  using grant_summary_codec by (simp add: summary_ok_def [abs_def])

lemma summary_calls_ok: "summary_ok m \<Longrightarrow> calls_ok (grant_summary_calls m)"
  by (simp add: summary_ok_def message_calls kLimits_def)

definition grant_response_calls :: "grant_response \<Rightarrow> writer_call list" where
  "grant_response_calls m =
     [W_u16 (code_value (gn_code m)), W_boolean (gy_id (gn_grant m) \<noteq> 0)] @
     (if gy_id (gn_grant m) \<noteq> 0 then grant_summary_calls (gn_grant m) else []) @ [W_text (gn_detail m) max_detail]"

text \<open>A response without a grant is the one with the default summary.\<close>

definition grant_response_ok :: "grant_response \<Rightarrow> bool" where
  "grant_response_ok m \<longleftrightarrow>
     detail_ok (gn_detail m) \<and>
     (if gy_id (gn_grant m) = 0 then gn_grant m = empty_grant_summary else summary_ok (gn_grant m))"

lemma grant_response_writes: "writes (encode_grant_response m) (grant_response_calls m)"
proof -
  let ?tail = "\<lambda>w. finish (write_all [W_text (gn_detail m) max_detail] w)"
  have summary: "writes (encode_grant_summary x) (grant_summary_calls x)" for x
    unfolding encode_grant_summary_def [abs_def] by (rule writes_finish)
  have "writes (\<lambda>w. if gy_id (gn_grant m) \<noteq> 0 then encode_then (encode_grant_summary (gn_grant m) w) ?tail else ?tail w)
      ((if gy_id (gn_grant m) \<noteq> 0 then grant_summary_calls (gn_grant m) else []) @ [W_text (gn_detail m) max_detail])"
  proof (cases "gy_id (gn_grant m) = 0")
    case True
    with writes_finish [of "[W_text (gn_detail m) max_detail]"] show ?thesis by simp
  next
    case False
    with writes_then [OF summary writes_finish, of "gn_grant m" "[W_text (gn_detail m) max_detail]"]
    show ?thesis by simp
  qed
  from writes_prefix [OF this, of "[W_u16 (code_value (gn_code m)), W_boolean (gy_id (gn_grant m) \<noteq> 0)]"]
  show ?thesis by (simp add: encode_grant_response_def [abs_def] grant_response_calls_def Let_def)
qed

text \<open>A body that claims a grant with the identity zero decodes, but is not what the encoder writes.\<close>

lemma grant_response_decodes:
  assumes "grant_response_ok m"
  shows "decode_grant_response (calls_bytes (grant_response_calls m)) = Inr m"
proof (cases "gy_id (gn_grant m) = 0")
  case True
  with assms show ?thesis
    by (simp add: decode_grant_response_def grant_response_calls_def grant_response_ok_def wire_enc call_bytes_text
        codec.dec_enc [OF text_codec [OF max_detail_bound], of _ "[]", simplified] trailing_def
        booleanc.dec_enc [of False, simplified] del: call_bytes.simps(8))
next
  case False
  then have "fields_grant_summary (calls_bytes (grant_summary_calls (gn_grant m)) @ enc_text (gn_detail m)) =
      Some (gn_grant m, enc_text (gn_detail m))"
    using assms by (intro codec.dec_enc [OF summary_codec]) (simp add: grant_response_ok_def)
  with False assms show ?thesis
    by (simp add: decode_grant_response_def decode_grant_summary_def grant_response_calls_def grant_response_ok_def
        wire_enc call_bytes_text codec.dec_enc [OF text_codec [OF max_detail_bound], of _ "[]", simplified]
        trailing_def booleanc.dec_enc [of True, simplified] del: call_bytes.simps(8))
qed

interpretation grant_response: message_body encode_grant_response decode_grant_response grant_response_calls grant_response_ok
proof
  fix m
  assume m: "grant_response_ok m"
  show "writes (encode_grant_response m) (grant_response_calls m)" by (rule grant_response_writes)
  show "calls_ok (grant_response_calls m)"
    using m summary_calls_ok [of "gn_grant m"]
    by (auto simp: grant_response_ok_def grant_response_calls_def kLimits_def)
  show "decode_grant_response (calls_bytes (grant_response_calls m)) = Inr m" by (rule grant_response_decodes [OF m])
qed

lemma word_ge_1 [simp]: "1 \<le> (a :: u8) \<longleftrightarrow> a \<noteq> 0"
  by (auto simp: word_le_nat_alt Suc_le_eq unat_gt_0)

definition lifecycle_request_ok :: "lifecycle_request \<Rightarrow> bool" where
  "lifecycle_request_ok m \<longleftrightarrow> 1 \<le> ls_byte (ly_target m) \<and> ls_byte (ly_target m) \<le> 7"

interpretation lifecycle_request: message_codec encode_lifecycle_request decode_lifecycle_request
  lifecycle_request_calls lifecycle_request_ok
proof
  fix m
  assume m: "lifecycle_request_ok m"
  show "writes (encode_lifecycle_request m) (lifecycle_request_calls m)"
    unfolding encode_lifecycle_request_def [abs_def] by (rule writes_finish)
  show "calls_ok (lifecycle_request_calls m)" by (simp add: lifecycle_request_calls_def)
  show "decode_lifecycle_request (calls_bytes (lifecycle_request_calls m)) = Inr m"
    using m u8c.dec_enc [of "ls_byte (ly_target m)" "[]"]
    by (auto simp: decode_lifecycle_request_def lifecycle_request_calls_def lifecycle_request_ok_def trailing_def not_less)
next
  fix bs m
  assume "decode_lifecycle_request bs = Inr m"
  then show "lifecycle_request_ok m \<and> bs = calls_bytes (lifecycle_request_calls m)"
    by (auto simp: decode_lifecycle_request_def lifecycle_request_calls_def lifecycle_request_ok_def read_fields_Inr
        not_less dest!: wire_sound split: if_splits)
qed

definition list_response_calls :: "('a \<Rightarrow> writer_call list) \<Rightarrow> 'a list_response \<Rightarrow> writer_call list" where
  "list_response_calls f m =
     [W_u16 (code_value (lq_code m)), W_boolean (lq_truncated m)] @ counted_calls f (lq_entries m) @
     [W_text (lq_detail m) max_detail]"

definition list_response_ok :: "nat \<Rightarrow> ('a \<Rightarrow> bool) \<Rightarrow> 'a list_response \<Rightarrow> bool" where
  "list_response_ok n ok m \<longleftrightarrow>
     detail_ok (lq_detail m) \<and> length (lq_entries m) \<le> n \<and> (\<forall>x\<in>set (lq_entries m). ok x)"

lemma list_message:
  assumes codec: "call_codec calls parse ok" and within: "\<And>x. ok x \<Longrightarrow> calls_ok (calls x)" and n: "n < 2 ^ 32"
  shows "message_codec (encode_list_response (\<lambda>x w. finish (write_all (calls x) w)))
    (decode_list_response n what over (\<lambda>bs. read_fields entry (parse bs) Inr))
    (list_response_calls calls) (list_response_ok n ok)"
proof -
  let ?d = "decode_counted n over (\<lambda>bs. read_fields entry (parse bs) Inr)"
  have entries: "codec (\<lambda>xs. calls_bytes (counted_calls calls xs)) (\<lambda>bs. to_opt (?d bs))
      (\<lambda>xs. length xs \<le> n \<and> (\<forall>x\<in>set xs. ok x))"
    unfolding calls_bytes_counted by (rule decode_counted_codec [OF _ n]) (simp add: codec)
  show ?thesis
  proof
    fix m :: "'a list_response"
    assume m: "list_response_ok n ok m"
    have "writes (encode_each (\<lambda>x w. finish (write_all (calls x) w)) (lq_entries m)
        (\<lambda>w. finish (write_all [W_text (lq_detail m) max_detail] w)))
        (concat (map calls (lq_entries m)) @ [W_text (lq_detail m) max_detail])"
      by (intro writes_each writes_finish)
    from writes_prefix [OF this, of "[W_u16 (code_value (lq_code m)), W_boolean (lq_truncated m), W_u32 (of_nat (length (lq_entries m)))]"]
    show "writes (encode_list_response (\<lambda>x w. finish (write_all (calls x) w)) m) (list_response_calls calls m)"
      by (simp add: encode_list_response_def [abs_def] list_response_calls_def counted_calls_def)
    show "calls_ok (list_response_calls calls m)"
      using m within by (auto simp: list_response_ok_def list_response_calls_def counted_calls_ok kLimits_def)
    have "?d (calls_bytes (counted_calls calls (lq_entries m)) @ enc_text (lq_detail m)) =
        Inr (lq_entries m, enc_text (lq_detail m))"
      using codec.dec_enc [OF entries, of "lq_entries m" "enc_text (lq_detail m)"] m by (simp add: list_response_ok_def)
    moreover have "r_boolean (call_bytes (W_boolean (lq_truncated m)) @ rest) = Some (lq_truncated m, rest)" for rest
      using booleanc.dec_enc [of "lq_truncated m" rest] by simp
    ultimately show "decode_list_response n what over (\<lambda>bs. read_fields entry (parse bs) Inr)
        (calls_bytes (list_response_calls calls m)) = Inr m"
      using m
      by (simp add: decode_list_response_def list_response_calls_def list_response_ok_def wire_enc call_bytes_text
          codec.dec_enc [OF text_codec [OF max_detail_bound], of _ "[]", simplified] trailing_def
          del: call_bytes.simps(5,8))
  next
    fix bs and m :: "'a list_response"
    assume "decode_list_response n what over (\<lambda>bs. read_fields entry (parse bs) Inr) bs = Inr m"
    then show "list_response_ok n ok m \<and> bs = calls_bytes (list_response_calls calls m)"
      using codec.dec_sound [OF entries]
      by (auto simp: decode_list_response_def list_response_calls_def list_response_ok_def read_fields_Inr rnf_try_Inr_iff
          Option.bind_eq_Some_conv call_bytes_text simp del: call_bytes.simps(8) dest!: wire_sound)
  qed
qed

interpretation resources_response: message_codec encode_resources_response decode_resources_response
  "list_response_calls resource_entry_calls" "list_response_ok (pl_max_resources kLimits) (\<lambda>m. ref_ok (re_ref m))"
  unfolding encode_resources_response_def decode_resources_response_def encode_resource_entry_def [abs_def]
    decode_resource_entry_def [abs_def]
  by (rule list_message [OF resource_entry_codec]) (simp_all add: message_calls kLimits_def)

interpretation paths_response: message_codec encode_paths_response decode_paths_response
  "list_response_calls path_entry_calls" "list_response_ok (pl_max_paths kLimits) (\<lambda>_. True)"
  unfolding encode_paths_response_def decode_paths_response_def encode_path_entry_def [abs_def]
    decode_path_entry_def [abs_def]
  by (rule list_message [OF path_entry_codec]) (simp_all add: message_calls kLimits_def)

interpretation grants_response: message_codec encode_grants_response decode_grants_response
  "list_response_calls grant_summary_calls" "list_response_ok (pl_max_grants kLimits) summary_ok"
  unfolding encode_grants_response_def decode_grants_response_def encode_grant_summary_def [abs_def]
    decode_grant_summary_def [abs_def]
  by (rule list_message [OF summary_codec]) (simp_all add: summary_calls_ok kLimits_def)

definition state_response_calls :: "state_response \<Rightarrow> writer_call list" where
  "state_response_calls m =
     state_head_calls m @ capacity_message_calls (sr_capacity m) @ state_counter_calls m @
     counted_calls diagnostic_entry_calls (sr_diagnostics m) @ [W_text (sr_detail m) max_detail]"

definition state_response_ok :: "state_response \<Rightarrow> bool" where
  "state_response_ok m \<longleftrightarrow>
     length (sr_snapshot_digest m) = 32 \<and> length (sr_evidence_digest m) = 32 \<and> length (sr_member_set_digest m) = 32 \<and>
     length (sr_diagnostics m) \<le> pl_max_diagnostics kLimits \<and> (\<forall>d\<in>set (sr_diagnostics m). detail_ok (dn_detail d)) \<and>
     detail_ok (sr_detail m)"

definition state_head_of :: "state_response \<Rightarrow> state_head" where
  "state_head_of m = (sr_code m, sr_rack m, sr_generation m, sr_epoch m, sr_incarnation m, sr_lifecycle m,
     sr_snapshot_digest m, sr_evidence_digest m, sr_member_set_digest m)"

definition state_counters_of :: "state_response \<Rightarrow> state_counters" where
  "state_counters_of m = (sr_devices m, sr_ports m, sr_links m, sr_attachments m, sr_paths m, sr_live_grants m,
     sr_recovering_grants m, sr_clean_shutdown m, sr_recovered_from_dirty_shutdown m, sr_total_diagnostics m)"

lemma state_head_reads:
  "state_response_ok m \<Longrightarrow>
     fields_state_head (calls_bytes (state_head_calls m) @ rest) = Some (state_head_of m, rest)"
  by (simp add: fields_state_head_def state_head_calls_def state_head_of_def state_response_ok_def wire_enc)

lemma state_counters_read:
  "fields_state_counters (calls_bytes (state_counter_calls m) @ rest) = Some (state_counters_of m, rest)"
  using booleanc.dec_enc
  by (simp add: fields_state_counters_def state_counter_calls_def state_counters_of_def wire_enc)

lemma fields_state_head_sound:
  assumes "fields_state_head bs = Some (h, rest)" "state_head_of m = h"
  shows "bs = calls_bytes (state_head_calls m) @ rest \<and>
    length (sr_snapshot_digest m) = 32 \<and> length (sr_evidence_digest m) = 32 \<and> length (sr_member_set_digest m) = 32"
  using assms
  by (cases "sr_code m"; cases "sr_lifecycle m")
    (auto simp: fields_state_head_def state_head_calls_def state_head_of_def Option.bind_eq_Some_conv dest!: wire_sound)

lemma fields_state_counters_sound:
  assumes "fields_state_counters bs = Some (c, rest)" "state_counters_of m = c"
  shows "bs = calls_bytes (state_counter_calls m) @ rest"
  using assms
  by (auto simp: fields_state_counters_def state_counter_calls_def state_counters_of_def Option.bind_eq_Some_conv
      dest!: wire_sound)

lemma diagnostics_codec:
  "codec (\<lambda>xs. calls_bytes (counted_calls diagnostic_entry_calls xs))
     (\<lambda>bs. to_opt (decode_counted (pl_max_diagnostics kLimits) ''diagnostic list exceeds its bound''
        decode_diagnostic_entry bs))
     (\<lambda>xs. length xs \<le> pl_max_diagnostics kLimits \<and> (\<forall>d\<in>set xs. detail_ok (dn_detail d)))"
  unfolding calls_bytes_counted decode_diagnostic_entry_def [abs_def]
  by (rule decode_counted_codec [OF _ wire_bounds(5)]) (simp add: diagnostic_entry_codec)

lemma decode_diagnostics_Inr:
  assumes "decode_counted (pl_max_diagnostics kLimits) ''diagnostic list exceeds its bound''
    decode_diagnostic_entry bs = Inr (ds, rest)"
  shows "(length ds \<le> pl_max_diagnostics kLimits \<and> (\<forall>d\<in>set ds. detail_ok (dn_detail d))) \<and>
    bs = calls_bytes (counted_calls diagnostic_entry_calls ds) @ rest"
  using codec.dec_sound [OF diagnostics_codec, of bs ds rest] assms by simp

lemma state_response_writes: "writes (encode_state_response m) (state_response_calls m)"
proof -
  let ?tail = "\<lambda>w. finish (write_all [W_text (sr_detail m) max_detail] w)"
  have "writes (encode_each encode_diagnostic_entry (sr_diagnostics m) ?tail)
      (concat (map diagnostic_entry_calls (sr_diagnostics m)) @ [W_text (sr_detail m) max_detail])"
    unfolding encode_diagnostic_entry_def [abs_def] by (intro writes_each writes_finish)
  note rest = writes_prefix [OF this, of "state_counter_calls m @ [W_u32 (of_nat (length (sr_diagnostics m)))]"]
  have "writes (encode_capacity_message (sr_capacity m)) (capacity_message_calls (sr_capacity m))"
    unfolding encode_capacity_message_def [abs_def] by (rule writes_finish)
  note writes_prefix [OF writes_then [OF this rest], of "state_head_calls m"]
  then show ?thesis
    by (simp add: encode_state_response_def [abs_def] state_response_calls_def counted_calls_def)
qed

lemma state_response_decodes:
  assumes "state_response_ok m"
  shows "decode_state_response (calls_bytes (state_response_calls m)) = Inr m"
proof -
  have cap: "fields_capacity_message (calls_bytes (capacity_message_calls c) @ rest) = Some (c, rest)" for c rest
    by (rule codec.dec_enc [OF capacity_message_codec]) simp
  have diags: "decode_counted (pl_max_diagnostics kLimits) ''diagnostic list exceeds its bound'' decode_diagnostic_entry
      (calls_bytes (counted_calls diagnostic_entry_calls (sr_diagnostics m)) @ rest) = Inr (sr_diagnostics m, rest)" for rest
    using codec.dec_enc [OF diagnostics_codec, of "sr_diagnostics m" rest] assms by (simp add: state_response_ok_def)
  have detail: "r_text max_detail (enc_text (sr_detail m)) = Some (sr_detail m, [])"
    using codec.dec_enc [OF text_codec [OF max_detail_bound], of "sr_detail m" "[]"] assms
    by (simp add: state_response_ok_def)
  show ?thesis
    by (simp add: decode_state_response_def state_response_calls_def calls_bytes_append call_bytes_text
        decode_capacity_message_def state_head_reads [OF assms] state_counters_read cap diags detail
        state_head_of_def state_counters_of_def trailing_def del: call_bytes.simps)
qed

interpretation state_response: message_codec encode_state_response decode_state_response
  state_response_calls state_response_ok
proof
  fix m
  assume m: "state_response_ok m"
  show "writes (encode_state_response m) (state_response_calls m)" by (rule state_response_writes)
  show "calls_ok (state_response_calls m)"
    using m by (auto simp: state_response_ok_def state_response_calls_def state_head_calls_def state_counter_calls_def
        counted_calls_ok message_calls kLimits_def)
  show "decode_state_response (calls_bytes (state_response_calls m)) = Inr m" by (rule state_response_decodes [OF m])
next
  fix bs m
  assume "decode_state_response bs = Inr m"
  then obtain bs1 cap bs2 bs3 ds bs4 where
    head: "fields_state_head bs = Some (state_head_of m, bs1)" and
    cap: "fields_capacity_message bs1 = Some (sr_capacity m, bs2)" and
    counters: "fields_state_counters bs2 = Some (state_counters_of m, bs3)" and
    diags: "decode_counted (pl_max_diagnostics kLimits) ''diagnostic list exceeds its bound''
       decode_diagnostic_entry bs3 = Inr (sr_diagnostics m, bs4)" and
    detail: "r_text max_detail bs4 = Some (sr_detail m, [])"
    by (auto simp: decode_state_response_def decode_capacity_message_def read_fields_Inr rnf_try_Inr_iff
        state_head_of_def state_counters_of_def)
  show "state_response_ok m \<and> bs = calls_bytes (state_response_calls m)"
    using fields_state_head_sound [OF head refl] codec.dec_sound [OF capacity_message_codec cap]
      fields_state_counters_sound [OF counters refl] decode_diagnostics_Inr [OF diags]
      codec.dec_sound [OF text_codec [OF max_detail_bound] detail]
    by (simp add: state_response_ok_def state_response_calls_def call_bytes_text del: call_bytes.simps)
qed

section \<open>The whole protocol\<close>

text \<open>
  A body with values in range has a size: the encoder succeeds exactly when it is given that much room, and
  what it wrote is then read back as it was. And a body has one encoding.
\<close>

definition carried :: "('m \<Rightarrow> byte_writer \<Rightarrow> status \<times> byte_writer) \<Rightarrow> (u8 list \<Rightarrow> 'm result) \<Rightarrow> ('m \<Rightarrow> bool) \<Rightarrow> bool" where
  "carried encode decode ok \<longleftrightarrow>
     (\<forall>m. ok m \<longrightarrow> (\<exists>k. \<forall>n. (status_ok (fst (encode m (bw_new n))) \<longleftrightarrow> k \<le> n) \<and>
        (k \<le> n \<longrightarrow> decode (bw_buffer (snd (encode m (bw_new n)))) = Inr m)))"

definition canonical :: "(u8 list \<Rightarrow> 'm result) \<Rightarrow> bool" where
  "canonical decode \<longleftrightarrow> (\<forall>bs cs m. decode bs = Inr m \<longrightarrow> decode cs = Inr m \<longrightarrow> bs = cs)"

context message_body
begin

lemma body_carried: "carried encode decode ok"
  unfolding carried_def using encode_fits decode_calls by metis

end

context message_codec
begin

lemma body_canonical: "canonical decode"
  unfolding canonical_def using decode_injective by blast

end

text \<open>
  (C38) The wire protocol loses nothing. For every message of the protocol, requests and responses, a
  body whose fields are in the range the decoder admits is encoded whenever there is room for it, and the
  peer decodes the very message that was encoded; and for every message but the grant response two byte strings
  that decode to the same message are equal, so a body cannot be varied without changing what it says.
\<close>
theorem protocol_roundtrip:
  "carried encode_hello_request decode_hello_request (\<lambda>_. True) \<and>
   carried encode_submit_evidence decode_submit_evidence (\<lambda>m. length (sv_records m) \<le> pl_max_evidence_records kLimits \<and>
       (\<forall>r\<in>set (sv_records m). evidence_valid r)) \<and>
   carried encode_compose_command decode_compose_command (\<lambda>_. True) \<and>
   carried encode_acquire_request decode_acquire_request (\<lambda>m. ref_ok (aq_scope m) \<and> \<not> (aq_mode m \<noteq> GrantMode_kShared \<and> aq_mode m \<noteq> GrantMode_kExclusive)) \<and>
   carried encode_renew_request decode_renew_request (\<lambda>m. length (t_scope_basis (rn_token m)) = 32) \<and>
   carried encode_token_message decode_token_message (\<lambda>m. length (t_scope_basis (tm_token m)) = 32) \<and>
   carried encode_lookup_request decode_lookup_request (\<lambda>_. True) \<and>
   carried encode_resource_query decode_resource_query (\<lambda>_. True) \<and>
   carried encode_lifecycle_request decode_lifecycle_request lifecycle_request_ok \<and>
   carried encode_hello_response decode_hello_response (\<lambda>m. length (hr_snapshot_digest m) = 32 \<and> detail_ok (hr_detail m)) \<and>
   carried encode_evidence_ack decode_evidence_ack (\<lambda>m. length (ar_entries m) \<le> pl_max_evidence_records kLimits \<and>
       (\<forall>e\<in>set (ar_entries m). length (ae_digest e) = 32 \<and> detail_ok (ae_detail e))) \<and>
   carried encode_compose_response decode_compose_response (\<lambda>m. length (cz_digest m) = 32 \<and> detail_ok (cz_detail m)) \<and>
   carried encode_grant_response decode_grant_response grant_response_ok \<and>
   carried encode_ack_response decode_ack_response (\<lambda>m. detail_ok (ak_detail m)) \<and>
   carried encode_lookup_response decode_lookup_response (\<lambda>m. detail_ok (lv_detail m)) \<and>
   carried encode_state_response decode_state_response state_response_ok \<and>
   carried encode_resources_response decode_resources_response (list_response_ok (pl_max_resources kLimits) (\<lambda>m. ref_ok (re_ref m))) \<and>
   carried encode_paths_response decode_paths_response (list_response_ok (pl_max_paths kLimits) (\<lambda>_. True)) \<and>
   carried encode_grants_response decode_grants_response (list_response_ok (pl_max_grants kLimits) summary_ok) \<and>
   carried encode_lifecycle_response decode_lifecycle_response (\<lambda>m. detail_ok (lz_detail m)) \<and>
   carried encode_stats_response decode_stats_response (\<lambda>m. detail_ok (sx_detail m)) \<and>
   canonical decode_hello_request \<and> canonical decode_submit_evidence \<and> canonical decode_compose_command \<and> canonical decode_acquire_request \<and>
   canonical decode_renew_request \<and> canonical decode_token_message \<and> canonical decode_lookup_request \<and> canonical decode_resource_query \<and>
   canonical decode_lifecycle_request \<and> canonical decode_hello_response \<and> canonical decode_evidence_ack \<and> canonical decode_compose_response \<and>
   canonical decode_ack_response \<and> canonical decode_lookup_response \<and> canonical decode_state_response \<and> canonical decode_resources_response \<and>
   canonical decode_paths_response \<and> canonical decode_grants_response \<and> canonical decode_lifecycle_response \<and> canonical decode_stats_response"
  by (intro conjI hello_request.body_carried submit_evidence.body_carried compose_command.body_carried
    acquire_request.body_carried renew_request.body_carried token_message.body_carried
    lookup_request.body_carried resource_query.body_carried lifecycle_request.body_carried
    hello_response.body_carried evidence_ack.body_carried compose_response.body_carried
    grant_response.body_carried ack_response.body_carried lookup_response.body_carried
    state_response.body_carried resources_response.body_carried paths_response.body_carried
    grants_response.body_carried lifecycle_response.body_carried stats_response.body_carried
    hello_request.body_canonical submit_evidence.body_canonical compose_command.body_canonical
    acquire_request.body_canonical renew_request.body_canonical token_message.body_canonical
    lookup_request.body_canonical resource_query.body_canonical lifecycle_request.body_canonical
    hello_response.body_canonical evidence_ack.body_canonical compose_response.body_canonical
    ack_response.body_canonical lookup_response.body_canonical state_response.body_canonical
    resources_response.body_canonical paths_response.body_canonical grants_response.body_canonical
    lifecycle_response.body_canonical stats_response.body_canonical)

theorem protocol_roundtrip_witness:
  "decode_lookup_request (bw_buffer (snd (encode_lookup_request \<lparr>lu_request = RequestId 7 9\<rparr> (bw_new 16)))) =
     Inr \<lparr>lu_request = RequestId 7 9\<rparr>"
proof -
  have "carried encode_lookup_request decode_lookup_request (\<lambda>_. True)" using protocol_roundtrip by (elim conjE)
  moreover have "status_ok (fst (encode_lookup_request \<lparr>lu_request = RequestId 7 9\<rparr> (bw_new 16)))"
    by (simp add: lookup_request.encode_fits(1) lookup_request_calls_def)
  ultimately show ?thesis unfolding carried_def by blast
qed

end
