(* ===== verification/Rnf_Rpc.thy ===== *)
theory Rnf_Rpc
  imports Rnf_Server Rnf_Protocol_Props Rnf_Daemon_Sample
begin

text \<open>
  Calls end to end: the client's encoder and frame, the wire with any fragmentation, the server's loop and
  dispatch, the command, and the way back. The interface of a command is a locale over the codecs of its
  request and its answer; every command of the protocol is an instance.
\<close>

section \<open>Streams that make progress\<close>

definition server_flow :: "tcp_stream \<Rightarrow> bool" where
  "server_flow s \<longleftrightarrow> ts_valid s \<and> (\<forall>a\<in>set (ts_sends s). send_progress a) \<and> (\<forall>a\<in>set (ts_waits s). wait_progress a)"

definition client_flow :: "tcp_stream \<Rightarrow> bool" where
  "client_flow s \<longleftrightarrow> ts_valid s \<and> (\<forall>a\<in>set (ts_sends s). send_progress a) \<and> (\<forall>a\<in>set (ts_recvs s). recv_progress a)"

lemma server_receives:
  assumes "server_flow s" "n \<le> length (ts_in s)"
  obtains s' k' where "recv_exact_interruptible n s k = (Inr (take n (ts_in s)), s', k')" "server_flow s'"
    "ts_in s' = drop n (ts_in s)" "ts_out s' = ts_out s"
proof -
  obtain s' k' where w: "wait_loop n s k = (Inr (take n (ts_in s)), s', k')" "set (ts_waits s') \<subseteq> set (ts_waits s)"
    using wait_loop_progress [of s n k] assms by (auto simp: server_flow_def)
  note t = wait_loop_taken [OF w(1)]
  then have "ts_in s' = drop n (ts_in s)" unfolding taken_def by (metis append_take_drop_id same_append_eq)
  moreover have "server_flow s'" using assms(1) w(2) t by (auto simp: server_flow_def taken_def)
  ultimately show thesis
    using that w(1) t assms(1) by (auto simp: recv_exact_interruptible_def server_flow_def taken_def)
qed

lemma client_receives:
  assumes "client_flow s" "n \<le> length (ts_in s)"
  obtains s' k' where "recv_exact n s k = (Inr (take n (ts_in s)), s', k')" "client_flow s'"
    "ts_in s' = drop n (ts_in s)" "ts_out s' = ts_out s"
proof -
  obtain s' k' where w: "recv_exact n s k = (Inr (take n (ts_in s)), s', k')" "set (ts_recvs s') \<subseteq> set (ts_recvs s)"
    using recv_exact_progress [of s n k] assms by (auto simp: client_flow_def)
  note t = recv_exact_taken [OF w(1)]
  then have "ts_in s' = drop n (ts_in s)" unfolding taken_def by (metis append_take_drop_id same_append_eq)
  moreover have "client_flow s'" using assms(1) w(2) t by (auto simp: client_flow_def taken_def)
  ultimately show thesis using that w(1) t by (auto simp: taken_def)
qed

lemma flow_sends:
  assumes "ts_valid s" "\<forall>a\<in>set (ts_sends s). send_progress a"
  obtains s' k' where "send_all bytes s k = (ok_status, s', k')" "ts_out s' = ts_out s @ bytes" "ts_in s' = ts_in s"
    "ts_valid s'" "ts_waits s' = ts_waits s" "ts_recvs s' = ts_recvs s" "\<forall>a\<in>set (ts_sends s'). send_progress a"
proof -
  obtain answers where "send_loop (ts_sends s) bytes = (ok_status, bytes, answers)" "set answers \<subseteq> set (ts_sends s)"
    using send_loop_progress [OF assms(2)] by blast
  then show thesis
    using assms that [of "s\<lparr>ts_out := ts_out s @ bytes, ts_sends := answers\<rparr>" "add_bytes_sent (length bytes) k"]
    by (auto simp: send_all_def)
qed

lemma worker_updates:
  "w\<lparr>wk_stream := s, wk_counters := k, wk_core := d\<rparr> = w\<lparr>wk_core := d, wk_stream := s, wk_counters := k\<rparr>"
  by (cases w) simp

lemma client_updates: "c\<lparr>cl_counters := k, cl_stream := s\<rparr> = c\<lparr>cl_stream := s, cl_counters := k\<rparr>"
  by (cases c) simp

section \<open>Frames on the wire\<close>

definition wire_header :: "message_type \<Rightarrow> u64 \<Rightarrow> u8 list \<Rightarrow> frame_header" where
  "wire_header type correlation payload =
     (request_header type correlation)\<lparr>fh_length := of_nat (length payload), fh_crc := crc32c payload\<rparr>"

definition wire_frame :: "message_type \<Rightarrow> u64 \<Rightarrow> u8 list \<Rightarrow> u8 list" where
  "wire_frame type correlation payload = frame_bytes (wire_header type correlation payload) @ payload"

definition frame_fits :: "u32 \<Rightarrow> u8 list \<Rightarrow> bool" where
  "frame_fits max_payload payload \<longleftrightarrow> length payload \<le> unat max_payload \<and> length payload \<le> unat kHardMaxFramePayload"

lemma encode_wire_frame:
  "frame_fits max_payload payload \<Longrightarrow> encode_frame (request_header type correlation) payload max_payload =
     Inr (wire_frame type correlation payload)"
  by (simp add: frame_fits_def encode_frame_Inr wire_frame_def wire_header_def)

lemma wire_header_simps [simp]:
  "fh_magic (wire_header type correlation payload) = kFrameMagic"
  "fh_version (wire_header type correlation payload) = kProtocolVersion"
  "fh_type (wire_header type correlation payload) = mt_value type"
  "fh_correlation (wire_header type correlation payload) = correlation"
  "fh_length (wire_header type correlation payload) = of_nat (length payload)"
  "fh_crc (wire_header type correlation payload) = crc32c payload"
  by (simp_all add: wire_header_def request_header_def default_frame_header_def)

lemma fits_length: "frame_fits max_payload payload \<Longrightarrow> unat (of_nat (length payload) :: u32) = length payload"
  by (simp add: frame_fits_def hard_max unat_of_nat)

lemma decode_wire_header:
  assumes "frame_fits max_payload payload" "is_known_message_type (mt_value type)"
  shows "decode_frame_header (frame_bytes (wire_header type correlation payload)) max_payload kProtocolVersion =
    (ok_status, wire_header type correlation payload)"
  using assms fits_length [OF assms(1)]
  by (simp add: decode_frame_header_def Let_def not_less word_le_nat_alt frame_fits_def)

lemma length_wire_frame: "length (wire_frame type correlation payload) = kFrameHeaderSize + length payload"
  by (simp add: wire_frame_def)

text \<open>A turn of the server on a stream that starts with a frame.\<close>

lemma handle_turn_frame:
  assumes "server_flow (wk_stream w)" "ts_in (wk_stream w) = wire_frame type correlation payload @ rest"
    "frame_fits (sf_max_frame_payload cfg) payload" "is_known_message_type (mt_value type)"
  obtains s k where "server_flow s" "ts_in s = rest" "ts_out s = ts_out (wk_stream w)"
    "handle_turn cfg io w = (case dispatch cfg io type correlation payload (w\<lparr>wk_stream := s, wk_counters := k\<rparr>) of
       (st, w') \<Rightarrow> (status_ok st \<and> \<not> wk_stop w', w'))"
proof -
  let ?h = "wire_header type correlation payload"
  obtain s1 k1 where 1: "recv_exact_interruptible kFrameHeaderSize (wk_stream w) (wk_counters w) = (Inr (frame_bytes ?h), s1, k1)"
    "server_flow s1" "ts_in s1 = payload @ rest" "ts_out s1 = ts_out (wk_stream w)"
    using server_receives [OF assms(1), of kFrameHeaderSize "wk_counters w"] assms(2) by (auto simp: wire_frame_def)
  have len: "unat (fh_length ?h) = length payload" using fits_length [OF assms(3)] by simp
  obtain s2 k2 where 2: "receive_body ?h s1 k1 = (Inr payload, s2, k2)" "server_flow s2" "ts_in s2 = rest"
    "ts_out s2 = ts_out (wk_stream w)"
  proof (cases "payload = []")
    case True
    then show thesis using that 1 by (simp add: receive_body_def)
  next
    case False
    then have "fh_length ?h > 0" using len by (simp add: word_less_nat_alt)
    then show thesis
      using that server_receives [OF 1(2), of "length payload" k1] 1(3,4) len by (auto simp: receive_body_def)
  qed
  have "handle_turn cfg io w = (case dispatch cfg io type correlation payload
      (w\<lparr>wk_stream := s2, wk_counters := add_frame_received k2\<rparr>) of (st, w') \<Rightarrow> (status_ok st \<and> \<not> wk_stop w', w'))"
    by (simp add: handle_turn_def 1(1) 2(1) decode_wire_header [OF assms(3,4)] Let_def)
  with 2 show thesis using that by blast
qed

text \<open>What the client reads when a frame is next on its stream.\<close>

lemma read_frame:
  assumes "client_flow (cl_stream c)" "ts_in (cl_stream c) = wire_frame type correlation payload @ rest"
    "frame_fits max_payload payload" "is_known_message_type (mt_value type)"
  obtains s k where "client_flow s" "ts_in s = rest" "ts_out s = ts_out (cl_stream c)"
    "read_exact_payload max_payload c = (Inr (type, correlation, payload), c\<lparr>cl_stream := s, cl_counters := k\<rparr>)"
proof -
  let ?h = "wire_header type correlation payload"
  obtain s1 k1 where 1: "recv_exact kFrameHeaderSize (cl_stream c) (cl_counters c) = (Inr (frame_bytes ?h), s1, k1)"
    "client_flow s1" "ts_in s1 = payload @ rest" "ts_out s1 = ts_out (cl_stream c)"
    using client_receives [OF assms(1), of kFrameHeaderSize "cl_counters c"] assms(2) by (auto simp: wire_frame_def)
  have len: "unat (fh_length ?h) = length payload" using fits_length [OF assms(3)] by simp
  obtain s2 k2 where 2: "(if fh_length ?h > 0 then recv_exact (unat (fh_length ?h)) s1 k1 else (Inr [], s1, k1)) =
      (Inr payload, s2, k2)" "client_flow s2" "ts_in s2 = rest" "ts_out s2 = ts_out (cl_stream c)"
  proof (cases "payload = []")
    case True
    then show thesis using that 1 by simp
  next
    case False
    then have "fh_length ?h > 0" using len by (simp add: word_less_nat_alt)
    then show thesis using that client_receives [OF 1(2), of "length payload" k1] 1(3,4) len by auto
  qed
  have "read_exact_payload max_payload c =
      (Inr (type, correlation, payload), c\<lparr>cl_stream := s2, cl_counters := add_frame_received k2\<rparr>)"
    unfolding read_exact_payload_def 1(1) prod.case sum.case decode_wire_header [OF assms(3,4)] 2(1) by simp
  with 2 show thesis using that by blast
qed

section \<open>The server's answer\<close>

context message_body
begin

lemma write_message_flow:
  assumes "server_flow (wk_stream w)" "ok m" "frame_fits max_payload (calls_bytes (calls m))"
  obtains s k where "write_message encode type correlation m max_payload w = (ok_status, w\<lparr>wk_stream := s, wk_counters := k\<rparr>)"
    "server_flow s" "ts_in s = ts_in (wk_stream w)"
    "ts_out s = ts_out (wk_stream w) @ wire_frame type correlation (calls_bytes (calls m))"
proof -
  have "length (calls_bytes (calls m)) \<le> unat max_payload" using assms(3) by (simp add: frame_fits_def)
  then obtain st writer where e: "encode m (bw_new (unat max_payload)) = (st, writer)" "status_ok st"
    "bw_buffer writer = calls_bytes (calls m)"
    using encode_fits [OF assms(2), of "unat max_payload"] by (cases "encode m (bw_new (unat max_payload))") simp
  have v: "ts_valid (wk_stream w)" "\<forall>a\<in>set (ts_sends (wk_stream w)). send_progress a"
    using assms(1) by (simp_all add: server_flow_def)
  obtain s k where 1: "send_all (wire_frame type correlation (calls_bytes (calls m))) (wk_stream w) (wk_counters w) = (ok_status, s, k)"
    "ts_out s = ts_out (wk_stream w) @ wire_frame type correlation (calls_bytes (calls m))" "ts_in s = ts_in (wk_stream w)"
    "ts_valid s" "ts_waits s = ts_waits (wk_stream w)" "\<forall>a\<in>set (ts_sends s). send_progress a"
    using flow_sends [OF v, of "wire_frame type correlation (calls_bytes (calls m))" "wk_counters w"] by metis
  moreover from this have "server_flow s" using assms(1) by (simp add: server_flow_def)
  ultimately show thesis
    using that e by (simp add: write_message_def encode_wire_frame [OF assms(3)])
qed

end

text \<open>What the server puts on the wire for the result of a command.\<close>

definition answer_frame ::
  "message_type \<Rightarrow> ('r \<Rightarrow> writer_call list) \<Rightarrow> u64 \<Rightarrow> 'r result \<Rightarrow> u8 list" where
  "answer_frame expected calls correlation response =
     (case response of
        Inl st \<Rightarrow> wire_frame MessageType_kError correlation (calls_bytes (ack_response_calls (ack_of st)))
      | Inr r \<Rightarrow> wire_frame expected correlation (calls_bytes (calls r)))"

definition answer_fits :: "u32 \<Rightarrow> ('r \<Rightarrow> writer_call list) \<Rightarrow> ('r \<Rightarrow> bool) \<Rightarrow> 'r result \<Rightarrow> bool" where
  "answer_fits max_payload calls ok response \<longleftrightarrow>
     (case response of
        Inl st \<Rightarrow> detail_ok (st_detail st) \<and> frame_fits max_payload (calls_bytes (ack_response_calls (ack_of st)))
      | Inr r \<Rightarrow> ok r \<and> frame_fits max_payload (calls_bytes (calls r)))"

context message_body
begin

lemma answer_flow:
  assumes "server_flow (wk_stream w)" "answer_fits max_payload calls ok response"
  obtains s k where "answer encode expected correlation response max_payload w = (ok_status, w\<lparr>wk_stream := s, wk_counters := k\<rparr>)"
    "server_flow s" "ts_in s = ts_in (wk_stream w)" "ts_out s = ts_out (wk_stream w) @ answer_frame expected calls correlation response"
proof (cases response)
  case (Inl st)
  then have ok: "detail_ok (ak_detail (ack_of st))" "frame_fits max_payload (calls_bytes (ack_response_calls (ack_of st)))"
    using assms(2) by (simp_all add: answer_fits_def ack_of_def)
  show thesis
    by (rule ack_response.write_message_flow [OF assms(1) ok, of MessageType_kError correlation])
      (use that Inl in \<open>simp add: answer_def answer_frame_def\<close>)
next
  case (Inr r)
  then have ok: "ok r" "frame_fits max_payload (calls_bytes (calls r))" using assms(2) by (simp_all add: answer_fits_def)
  show thesis
    by (rule write_message_flow [OF assms(1) ok, of expected correlation])
      (use that Inr in \<open>simp add: answer_def answer_frame_def\<close>)
qed

end

section \<open>The interface of a command\<close>

text \<open>
  The wire between one client and the worker that serves it: what the client wrote reaches the worker,
  which takes a turn, and what the worker wrote reaches the client.
\<close>

definition serve_turn :: "server_config \<Rightarrow> turn_io \<Rightarrow> worker wire" where
  "serve_turn cfg io s w =
     (case handle_turn cfg io (w\<lparr>wk_stream := (wk_stream w)\<lparr>ts_in := ts_in (wk_stream w) @ ts_out s\<rparr>\<rparr>) of (go_on, w') \<Rightarrow>
        (s\<lparr>ts_out := [], ts_in := ts_in s @ ts_out (wk_stream w')\<rparr>,
         w'\<lparr>wk_stream := (wk_stream w')\<lparr>ts_out := []\<rparr>\<rparr>))"

text \<open>Between two calls nothing is under way in either direction.\<close>

definition client_idle :: "client \<Rightarrow> bool" where
  "client_idle c \<longleftrightarrow> client_flow (cl_stream c) \<and> ts_in (cl_stream c) = [] \<and> ts_out (cl_stream c) = []"

definition worker_idle :: "worker \<Rightarrow> bool" where
  "worker_idle w \<longleftrightarrow> server_flow (wk_stream w) \<and> ts_in (wk_stream w) = [] \<and> ts_out (wk_stream w) = []"

locale rpc =
  request: message_body enc_q dec_q calls_q ok_q + response: message_body enc_r dec_r calls_r ok_r
  for enc_q :: "'q encoder" and dec_q :: "u8 list \<Rightarrow> 'q result" and calls_q ok_q
    and enc_r :: "'r encoder" and dec_r :: "u8 list \<Rightarrow> 'r result" and calls_r ok_r +
  fixes type expected :: message_type
    and command :: "turn_io \<Rightarrow> 'q \<Rightarrow> daemon_core \<Rightarrow> 'r result \<times> daemon_core"
  assumes type_known: "is_known_message_type (mt_value type)"
    and expected_known: "is_known_message_type (mt_value expected)" "expected \<noteq> MessageType_kError"
    and dispatched: "dispatch cfg io type correlation payload w =
      serve_command cfg correlation (dec_q payload) (command io) enc_r expected (w\<lparr>wk_core := note_request_served (wk_core w)\<rparr>)"
begin

lemma turn_answers:
  assumes "server_flow (wk_stream w)" "ts_in (wk_stream w) = wire_frame type correlation (calls_bytes (calls_q m))"
    "ok_q m" "frame_fits (sf_max_frame_payload cfg) (calls_bytes (calls_q m))"
    "command io m (note_request_served (wk_core w)) = (response, d)"
    "answer_fits (sf_max_frame_payload cfg) calls_r ok_r response"
  obtains go_on s k where "handle_turn cfg io w = (go_on, w\<lparr>wk_core := d, wk_stream := s, wk_counters := k\<rparr>)"
    "server_flow s" "ts_in s = []" "ts_out s = ts_out (wk_stream w) @ answer_frame expected calls_r correlation response"
proof -
  obtain s1 k1 where 1: "server_flow s1" "ts_in s1 = []" "ts_out s1 = ts_out (wk_stream w)"
    "handle_turn cfg io w = (case dispatch cfg io type correlation (calls_bytes (calls_q m)) (w\<lparr>wk_stream := s1, wk_counters := k1\<rparr>) of
       (st, w') \<Rightarrow> (status_ok st \<and> \<not> wk_stop w', w'))"
    using handle_turn_frame [OF assms(1) _ assms(4) type_known, of correlation "[]"] assms(2) by auto
  let ?w = "w\<lparr>wk_core := d, wk_stream := s1, wk_counters := k1\<rparr>"
  obtain s k where 2: "answer enc_r expected correlation response (sf_max_frame_payload cfg) ?w =
      (ok_status, ?w\<lparr>wk_stream := s, wk_counters := k\<rparr>)" "server_flow s" "ts_in s = []"
    "ts_out s = ts_out (wk_stream w) @ answer_frame expected calls_r correlation response"
    by (rule response.answer_flow [OF _ assms(6), of ?w expected correlation]) (use 1 in auto)
  have "dispatch cfg io type correlation (calls_bytes (calls_q m)) (w\<lparr>wk_stream := s1, wk_counters := k1\<rparr>) =
      (ok_status, ?w\<lparr>wk_stream := s, wk_counters := k\<rparr>)"
    using assms(5) 2(1) by (simp add: dispatched serve_command_def worker_updates request.decode_calls [OF assms(3)])
  with 1(4) 2 show thesis using that by simp
qed

end

section \<open>The client's side\<close>

lemma send_raw_flow:
  assumes "client_flow (cl_stream c)" "frame_fits (co_max_frame_payload (cl_options c)) payload"
  obtains s k where "send_raw type payload c =
      (ok_status, c\<lparr>cl_next_correlation := cl_next_correlation c + 1, cl_last_correlation := cl_next_correlation c,
         cl_stream := s, cl_counters := k\<rparr>)"
    "client_flow s" "ts_in s = ts_in (cl_stream c)"
    "ts_out s = ts_out (cl_stream c) @ wire_frame type (cl_next_correlation c) payload"
proof -
  let ?f = "wire_frame type (cl_next_correlation c) payload"
  have v: "ts_valid (cl_stream c)" "\<forall>a\<in>set (ts_sends (cl_stream c)). send_progress a"
    using assms(1) by (simp_all add: client_flow_def)
  obtain s k where 1: "send_all ?f (cl_stream c) (cl_counters c) = (ok_status, s, k)"
    "ts_out s = ts_out (cl_stream c) @ ?f" "ts_in s = ts_in (cl_stream c)"
    "ts_valid s" "ts_recvs s = ts_recvs (cl_stream c)" "\<forall>a\<in>set (ts_sends s). send_progress a"
    using flow_sends [OF v, of ?f "cl_counters c"] by metis
  moreover from this have "client_flow s" using assms(1) by (simp add: client_flow_def)
  ultimately show thesis
    using that by (simp add: send_raw_def Let_def encode_wire_frame [OF assms(2)])
qed

context message_body
begin

lemma receive_answer:
  assumes "client_flow (cl_stream c)" "ts_in (cl_stream c) = answer_frame expected calls (cl_last_correlation c) response"
    "answer_fits (co_max_frame_payload (cl_options c)) calls ok response"
    "is_known_message_type (mt_value expected)" "expected \<noteq> MessageType_kError"
  obtains s k where "client_flow s" "ts_in s = []" "ts_out s = ts_out (cl_stream c)"
    "(case receive_raw expected c of (Inl st, c) \<Rightarrow> (Inl st, c, peer) | (Inr payload, c) \<Rightarrow> (decode payload, c, peer)) =
      (response, c\<lparr>cl_stream := s, cl_counters := k\<rparr>, peer)"
proof (cases response)
  case (Inl st)
  let ?a = "ack_of st"
  have fits: "detail_ok (ak_detail ?a)" "frame_fits (co_max_frame_payload (cl_options c)) (calls_bytes (ack_response_calls ?a))"
    using assms(3) Inl by (simp_all add: answer_fits_def ack_of_def)
  have known: "is_known_message_type (mt_value MessageType_kError)"
    by (simp add: is_known_message_type_def message_type_names_def)
  have next_in: "ts_in (cl_stream c) =
      wire_frame MessageType_kError (cl_last_correlation c) (calls_bytes (ack_response_calls ?a)) @ []"
    using assms(2) Inl by (simp add: answer_frame_def)
  show thesis
    by (rule read_frame [OF assms(1) next_in fits(2) known])
      (use that Inl ack_response.decode_calls [OF fits(1)] in \<open>simp add: receive_raw_def ack_of_def rnf_try_def\<close>)
next
  case (Inr r)
  have fits: "ok r" "frame_fits (co_max_frame_payload (cl_options c)) (calls_bytes (calls r))"
    using assms(3) Inr by (simp_all add: answer_fits_def)
  have next_in: "ts_in (cl_stream c) = wire_frame expected (cl_last_correlation c) (calls_bytes (calls r)) @ []"
    using assms(2) Inr by (simp add: answer_frame_def)
  show thesis
    by (rule read_frame [OF assms(1) next_in fits(2) assms(4)])
      (use that Inr assms(5) decode_calls [OF fits(1)] in \<open>simp add: receive_raw_def\<close>)
qed

end

context rpc
begin

text \<open>
  A call over an idle connection returns what the command answers, leaves the core in the state the
  command leaves, and the connection idle.
\<close>

lemma call_end_to_end:
  assumes "client_idle c" "worker_idle w" "ok_q m"
    "frame_fits (co_max_frame_payload (cl_options c)) (calls_bytes (calls_q m))"
    "frame_fits (sf_max_frame_payload cfg) (calls_bytes (calls_q m))"
    "command io m (note_request_served (wk_core w)) = (response, d)"
    "answer_fits (sf_max_frame_payload cfg) calls_r ok_r response"
    "answer_fits (co_max_frame_payload (cl_options c)) calls_r ok_r response"
  shows "\<exists>c' w'. client_call enc_q type expected dec_r (serve_turn cfg io) m c w = (response, c', w') \<and>
    wk_core w' = d \<and> client_idle c' \<and> worker_idle w'"
proof -
  have ci: "client_flow (cl_stream c)" "ts_in (cl_stream c) = []" "ts_out (cl_stream c) = []"
    and wi: "server_flow (wk_stream w)" "ts_in (wk_stream w) = []" "ts_out (wk_stream w) = []"
    using assms(1,2) by (simp_all add: client_idle_def worker_idle_def)
  let ?q = "calls_bytes (calls_q m)" and ?n = "unat (co_max_frame_payload (cl_options c))"
  have "length ?q \<le> ?n" using assms(4) by (simp add: frame_fits_def)
  then obtain st writer where e: "enc_q m (bw_new ?n) = (st, writer)" "status_ok st" "bw_buffer writer = ?q"
    using request.encode_fits [OF assms(3), of ?n] by (cases "enc_q m (bw_new ?n)") simp
  obtain s1 k1 where 1: "send_raw type ?q c =
      (ok_status, c\<lparr>cl_next_correlation := cl_next_correlation c + 1, cl_last_correlation := cl_next_correlation c,
         cl_stream := s1, cl_counters := k1\<rparr>)"
    "client_flow s1" "ts_in s1 = []" "ts_out s1 = wire_frame type (cl_next_correlation c) ?q"
    by (rule send_raw_flow [OF ci(1) assms(4), of type]) (use ci in auto)
  let ?w = "w\<lparr>wk_stream := (wk_stream w)\<lparr>ts_in := ts_in (wk_stream w) @ ts_out s1\<rparr>\<rparr>"
  obtain go_on s2 k2 where 2: "handle_turn cfg io ?w = (go_on, ?w\<lparr>wk_core := d, wk_stream := s2, wk_counters := k2\<rparr>)"
    "server_flow s2" "ts_in s2 = []" "ts_out s2 = answer_frame expected calls_r (cl_next_correlation c) response"
    by (rule turn_answers [of ?w "cl_next_correlation c" m cfg io response d])
      (use wi 1(4) assms(3,5-7) in \<open>auto simp: server_flow_def\<close>)
  let ?s = "s1\<lparr>ts_out := [], ts_in := ts_out s2\<rparr>" and ?w' = "w\<lparr>wk_core := d, wk_stream := s2\<lparr>ts_out := []\<rparr>, wk_counters := k2\<rparr>"
  have turn: "serve_turn cfg io s1 w = (?s, ?w')" by (simp add: serve_turn_def 2(1) 1(3))
  let ?c = "c\<lparr>cl_next_correlation := cl_next_correlation c + 1, cl_last_correlation := cl_next_correlation c,
         cl_stream := ?s, cl_counters := k1\<rparr>"
  obtain s3 k3 where 3: "client_flow s3" "ts_in s3 = []" "ts_out s3 = []"
    "(case receive_raw expected ?c of (Inl st, c) \<Rightarrow> (Inl st, c, ?w') | (Inr payload, c) \<Rightarrow> (dec_r payload, c, ?w')) =
      (response, ?c\<lparr>cl_stream := s3, cl_counters := k3\<rparr>, ?w')"
    by (rule response.receive_answer [of ?c expected response ?w'])
      (use 1(2) 2(4) assms(8) expected_known in \<open>auto simp: client_flow_def\<close>)
  have "client_call enc_q type expected dec_r (serve_turn cfg io) m c w =
      (case receive_raw expected ?c of (Inl st, c) \<Rightarrow> (Inl st, c, ?w') | (Inr payload, c) \<Rightarrow> (dec_r payload, c, ?w'))"
    by (simp add: client_call_def e 1(1) turn client_updates)
  then show ?thesis using 3 2(2,3) by (auto simp: client_idle_def worker_idle_def server_flow_def)
qed

end

section \<open>The commands\<close>

text \<open>A request without a body is an empty payload; the server does not look at it.\<close>

interpretation no_body: message_body no_body "\<lambda>_. Inr ()" "\<lambda>_. []" "\<lambda>_. True"
proof
  fix m :: unit
  show "writes (no_body m) []" using writes_finish [of "[]"] by (simp add: no_body_def [abs_def] write_all_def)
qed simp_all

lemmas command_law = dispatch_def is_known_message_type_def message_type_names_def

interpretation submit_evidence_rpc: rpc encode_submit_evidence decode_submit_evidence submit_evidence_calls "\<lambda>m. length (sv_records m) \<le> pl_max_evidence_records kLimits \<and> (\<forall>r\<in>set (sv_records m). evidence_valid r)"
  encode_evidence_ack decode_evidence_ack evidence_ack_calls "\<lambda>m. length (ar_entries m) \<le> pl_max_evidence_records kLimits \<and>
     (\<forall>e\<in>set (ar_entries m). length (ae_digest e) = 32 \<and> detail_ok (ae_detail e))"
  MessageType_kSubmitEvidence MessageType_kEvidenceAck "\<lambda>io q. daemon_submit_evidence q (tu_now io)"
  by unfold_locales (simp_all add: command_law)

interpretation compose_rpc: rpc encode_compose_command decode_compose_command compose_command_calls "\<lambda>_. True"
  encode_compose_response decode_compose_response compose_response_calls "\<lambda>m. length (cz_digest m) = 32 \<and> detail_ok (cz_detail m)"
  MessageType_kCompose MessageType_kComposeAck "\<lambda>io. daemon_compose"
  by unfold_locales (simp_all add: command_law)

interpretation acquire_rpc: rpc encode_acquire_request decode_acquire_request acquire_request_calls "\<lambda>m. ref_ok (aq_scope m) \<and> \<not> (aq_mode m \<noteq> GrantMode_kShared \<and> aq_mode m \<noteq> GrantMode_kExclusive)"
  encode_grant_response decode_grant_response grant_response_calls grant_response_ok
  MessageType_kAcquire MessageType_kAcquireAck "\<lambda>io q. daemon_acquire q (tu_now io)"
  by unfold_locales (simp_all add: command_law)

interpretation renew_rpc: rpc encode_renew_request decode_renew_request renew_request_calls "\<lambda>m. length (t_scope_basis (rn_token m)) = 32"
  encode_grant_response decode_grant_response grant_response_calls grant_response_ok
  MessageType_kRenew MessageType_kRenewAck "\<lambda>io q. daemon_renew q (tu_now io)"
  by unfold_locales (simp_all add: command_law)

interpretation release_rpc: rpc encode_token_message decode_token_message token_message_calls "\<lambda>m. length (t_scope_basis (tm_token m)) = 32"
  encode_ack_response decode_ack_response ack_response_calls "\<lambda>m. detail_ok (ak_detail m)"
  MessageType_kRelease MessageType_kReleaseAck "\<lambda>io q. daemon_release q (tu_now io)"
  by unfold_locales (simp_all add: command_law)

interpretation validate_rpc: rpc encode_token_message decode_token_message token_message_calls "\<lambda>m. length (t_scope_basis (tm_token m)) = 32"
  encode_grant_response decode_grant_response grant_response_calls grant_response_ok
  MessageType_kValidate MessageType_kValidateAck "\<lambda>io q. daemon_validate q (tu_now io)"
  by unfold_locales (simp_all add: command_law)

interpretation lookup_rpc: rpc encode_lookup_request decode_lookup_request lookup_request_calls "\<lambda>_. True"
  encode_lookup_response decode_lookup_response lookup_response_calls "\<lambda>m. detail_ok (lv_detail m)"
  MessageType_kLookup MessageType_kLookupAck "\<lambda>io q d. (daemon_lookup q d, d)"
  by unfold_locales (simp_all add: command_law)

interpretation query_state_rpc: rpc no_body "\<lambda>_. Inr ()" "\<lambda>_. []" "\<lambda>_. True"
  encode_state_response decode_state_response state_response_calls state_response_ok
  MessageType_kQueryState MessageType_kStateAck "\<lambda>io u. daemon_query_state"
  by unfold_locales (simp_all add: command_law)

interpretation query_resources_rpc: rpc encode_resource_query decode_resource_query resource_query_calls "\<lambda>_. True"
  encode_resources_response decode_resources_response "list_response_calls resource_entry_calls" "list_response_ok (pl_max_resources kLimits) (\<lambda>m. ref_ok (re_ref m))"
  MessageType_kQueryResources MessageType_kResourcesAck "\<lambda>io. daemon_query_resources"
  by unfold_locales (simp_all add: command_law)

interpretation query_paths_rpc: rpc no_body "\<lambda>_. Inr ()" "\<lambda>_. []" "\<lambda>_. True"
  encode_paths_response decode_paths_response "list_response_calls path_entry_calls" "list_response_ok (pl_max_paths kLimits) (\<lambda>_. True)"
  MessageType_kQueryPaths MessageType_kPathsAck "\<lambda>io u. daemon_query_paths"
  by unfold_locales (simp_all add: command_law)

interpretation query_grants_rpc: rpc no_body "\<lambda>_. Inr ()" "\<lambda>_. []" "\<lambda>_. True"
  encode_grants_response decode_grants_response "list_response_calls grant_summary_calls" "list_response_ok (pl_max_grants kLimits) summary_ok"
  MessageType_kQueryGrants MessageType_kGrantsAck "\<lambda>io. pure_query daemon_query_grants"
  by unfold_locales (simp_all add: command_law)

interpretation lifecycle_rpc: rpc encode_lifecycle_request decode_lifecycle_request lifecycle_request_calls lifecycle_request_ok
  encode_lifecycle_response decode_lifecycle_response lifecycle_response_calls "\<lambda>m. detail_ok (lz_detail m)"
  MessageType_kLifecycle MessageType_kLifecycleAck "\<lambda>io q. daemon_set_lifecycle q (tu_now io)"
  by unfold_locales (simp_all add: command_law)

interpretation checkpoint_rpc: rpc no_body "\<lambda>_. Inr ()" "\<lambda>_. []" "\<lambda>_. True"
  encode_ack_response decode_ack_response ack_response_calls "\<lambda>m. detail_ok (ak_detail m)"
  MessageType_kCheckpoint MessageType_kCheckpointAck "\<lambda>io u. daemon_checkpoint"
  by unfold_locales (simp_all add: command_law)

section \<open>A lease over the wire\<close>

text \<open>A grant response never needs more room than this, nor does an acquire request or an error.\<close>

definition grant_room :: nat where
  "grant_room = 142 + 2 * max_detail"

lemma grant_response_room: "grant_response_ok m \<Longrightarrow> length (calls_bytes (grant_response_calls m)) \<le> grant_room"
  by (auto simp: grant_response_ok_def grant_response_calls_def grant_summary_calls_def put_ref_def summary_ok_def
      grant_room_def string_bytes_def)

lemma acquire_request_room: "length (calls_bytes (acquire_request_calls m)) \<le> grant_room"
  by (simp add: acquire_request_calls_def put_ref_def grant_room_def)

lemma ack_response_room: "detail_ok (ak_detail m) \<Longrightarrow> length (calls_bytes (ack_response_calls m)) \<le> grant_room"
  by (simp add: ack_response_calls_def grant_room_def string_bytes_def)

lemma room_fits: "length payload \<le> grant_room \<Longrightarrow> grant_room \<le> unat max_payload \<Longrightarrow> frame_fits max_payload payload"
  by (simp add: frame_fits_def hard_max grant_room_def kLimits_def)

definition grant_answer_ok :: "grant_response result \<Rightarrow> bool" where
  "grant_answer_ok response = (case response of Inl st \<Rightarrow> detail_ok (st_detail st) | Inr m \<Rightarrow> grant_response_ok m)"

lemma grant_answer_fits:
  assumes "grant_answer_ok response" "grant_room \<le> unat max_payload"
  shows "answer_fits max_payload grant_response_calls grant_response_ok response"
proof (cases response)
  case (Inl st)
  with assms ack_response_room [of "ack_of st"] show ?thesis
    by (auto simp: answer_fits_def grant_answer_ok_def ack_of_def intro!: room_fits)
next
  case (Inr m)
  with assms grant_response_room [of m] show ?thesis
    by (auto simp: answer_fits_def grant_answer_ok_def intro!: room_fits)
qed

text \<open>
  (C7) A lease request over the network is the command on the core. The client and the worker that
  serves its connection have nothing under way; every system call makes progress but may cut what it is
  given as it likes. Then \<open>acquire\<close> of the client library returns, and what it returns, a grant, a
  refusal or a failure, is exactly the answer of the daemon's command; the core is in the state the command
  leaves and counts the request as served; and the connection is idle again, ready for the next call.
\<close>
theorem acquire_end_to_end:
  assumes "client_idle c" "worker_idle w"
    and "ref_ok (aq_scope q)" "aq_mode q = GrantMode_kShared \<or> aq_mode q = GrantMode_kExclusive"
    and "grant_room \<le> unat (co_max_frame_payload (cl_options c))" "grant_room \<le> unat (sf_max_frame_payload cfg)"
    and "daemon_acquire q (tu_now io) (note_request_served (wk_core w)) = (response, d)" "grant_answer_ok response"
  shows "\<exists>c' w'. client_acquire q (serve_turn cfg io) c w = (response, c', w') \<and> wk_core w' = d \<and> client_idle c' \<and> worker_idle w'"
  unfolding client_acquire_def
  using assms
  by (intro acquire_rpc.call_end_to_end) (auto intro: grant_answer_fits room_fits acquire_request_room)

definition sample_client :: client where
  "sample_client = \<lparr>cl_stream = slow_stream, cl_options = \<lparr>co_max_frame_payload = kDefaultMaxFramePayload, co_connect_attempts = 1,
       co_connect_retry_ms = 50, co_io_timeout_ms = 30000\<rparr>,
     cl_next_correlation = 1, cl_last_correlation = 0, cl_counters = no_counters\<rparr>"

definition sample_worker :: "daemon_core \<Rightarrow> worker" where
  "sample_worker d = \<lparr>wk_core = d, wk_stream = slow_stream, wk_counters = no_counters, wk_stop = False\<rparr>"

definition sample_server :: server_config where
  "sample_server = \<lparr>sf_max_frame_payload = kDefaultMaxFramePayload, sf_max_connections = 32, sf_idle_timeout_ms = 60000,
     sf_tick_interval_ms = 100\<rparr>"

theorem acquire_end_to_end_witness:
  "\<exists>c' w'. client_acquire (bare_acquire 1) (serve_turn sample_server \<lparr>tu_now = 10, tu_uptime = 0\<rparr>) sample_client
      (sample_worker (bare_daemon LifecycleState_kActive bare_reg empty_daemon_stats)) =
    (grant_to_response (bare_grant 1) kOk, c', w') \<and> rg_grants (da_grants (wk_core w')) = [(1, bare_grant 1)]"
proof -
  let ?d = "bare_daemon LifecycleState_kActive bare_reg empty_daemon_stats"
  have served: "note_request_served ?d = bare_daemon LifecycleState_kActive bare_reg (empty_daemon_stats\<lparr>ds_requests_served := 1\<rparr>)"
    by (simp add: note_request_served_def bare_daemon_def) (simp add: empty_daemon_stats_def)
  obtain st where acquired: "daemon_acquire (bare_acquire 1) 10 (note_request_served ?d) =
      (grant_to_response (bare_grant 1) kOk, bare_daemon LifecycleState_kActive bare_reg1 st)"
    unfolding served by (rule bare_lease [OF bare_expire(1) bare_acquires(1)])
  have "grant_answer_ok (grant_to_response (bare_grant 1) kOk)"
    by (simp add: grant_answer_ok_def grant_to_response_def grant_response_ok_def summary_ok_def summary_from_def ref_ok_def
        rack_ref_def string_bytes_def)
  with acquire_end_to_end [of sample_client "sample_worker ?d" "bare_acquire 1" sample_server "\<lparr>tu_now = 10, tu_uptime = 0\<rparr>"] acquired
  have "\<exists>c' w'. client_acquire (bare_acquire 1) (serve_turn sample_server \<lparr>tu_now = 10, tu_uptime = 0\<rparr>) sample_client (sample_worker ?d) =
      (grant_to_response (bare_grant 1) kOk, c', w') \<and> wk_core w' = bare_daemon LifecycleState_kActive bare_reg1 st"
    by (auto simp: sample_client_def sample_worker_def sample_server_def client_idle_def worker_idle_def client_flow_def
        server_flow_def slow_stream_def send_progress_def recv_progress_def wait_progress_def bare_acquire_def ref_ok_def
        rack_ref_def grant_room_def kLimits_def kDefaultMaxFramePayload_def)
  then show ?thesis by (auto simp: bare_daemon_def)
qed

end
