(* ===== verification/Rnf_Connection.thy ===== *)
theory Rnf_Connection
  imports Rnf_Server Rnf_Daemon_Props
begin

text \<open>
  What a connection can do to the core. The bytes a peer sends are arbitrary, and so is the behaviour of
  the sockets; the loop of the server turns them into commands of the daemon and nothing else.
\<close>

section \<open>Traces of commands\<close>

text \<open>The commands the protocol reaches: neither the clock's expiry nor the stop is among them.\<close>

fun remote_op :: "daemon_op \<Rightarrow> bool" where
  "remote_op (Do_expire now) \<longleftrightarrow> False"
| "remote_op (Do_stop now sync_io meta_io) \<longleftrightarrow> False"
| "remote_op _ \<longleftrightarrow> True"

text \<open>The commands of a trace run in order; between them only counters move.\<close>

inductive served :: "daemon_core \<Rightarrow> daemon_op list \<Rightarrow> daemon_core \<Rightarrow> bool" where
  served_none: "served d [] d"
| served_count: "served (d\<lparr>da_stats := st\<rparr>) ops d' \<Longrightarrow> served d ops d'"
| served_do: "remote_op op \<Longrightarrow> served (daemon_apply op d) ops d' \<Longrightarrow> served d (op # ops) d'"

lemma served_trans: "served d ops d' \<Longrightarrow> served d' ops' d'' \<Longrightarrow> served d (ops @ ops') d''"
  by (induction rule: served.induct) (auto intro: served.intros)

text \<open>At most \<open>n\<close> commands lead from one state of the core to another.\<close>

definition serves :: "nat \<Rightarrow> daemon_core \<Rightarrow> daemon_core \<Rightarrow> bool" where
  "serves n d d' \<longleftrightarrow> (\<exists>ops. length ops \<le> n \<and> served d ops d')"

lemma serves_refl [simp]: "serves n d d"
  unfolding serves_def by (rule exI [of _ "[]"]) (simp add: served_none)

lemma serves_do: "remote_op op \<Longrightarrow> serves 1 d (daemon_apply op d)"
  unfolding serves_def by (rule exI [of _ "[op]"]) (simp add: served_do served_none)

lemma serves_trans: "serves m d d' \<Longrightarrow> serves n d' d'' \<Longrightarrow> serves (m + n) d d''"
  unfolding serves_def using served_trans by (metis add_mono length_append)

lemma serves_counted: "serves 0 d (d\<lparr>da_stats := st\<rparr>)"
  unfolding serves_def by (rule exI [of _ "[]"]) (auto intro: served_count served_none)

lemma serves_noted: "serves 0 d (note_request_served d)" "serves 0 d (note_frame_rejected d)"
  unfolding note_request_served_def note_frame_rejected_def by (rule serves_counted)+

section \<open>The server's steps\<close>

text \<open>Sending leaves the core alone.\<close>

lemma write_message_core [simp]: "wk_core (snd (write_message enc type correlation m max_payload w)) = wk_core w"
  by (auto simp: write_message_def split: prod.splits sum.splits)

lemma write_message_same: "write_message enc type correlation m max_payload w = (st, w') \<Longrightarrow> wk_core w' = wk_core w"
  by (metis snd_conv write_message_core)

lemma answer_core [simp]: "wk_core (snd (answer enc type correlation response max_payload w)) = wk_core w"
  by (simp add: answer_def split: sum.splits)

lemma send_error_core [simp]: "wk_core (snd (send_error cfg correlation st w)) = wk_core w"
  by (simp add: send_error_def)

lemma reject_frame_core [simp]: "wk_core (reject_frame w) = note_frame_rejected (wk_core w)"
  by (simp add: reject_frame_def)

lemma undecodable_core [simp]: "wk_core (snd (undecodable cfg correlation st w)) = note_frame_rejected (wk_core w)"
  by (simp add: undecodable_def)

lemma serves_mono: "serves m d d' \<Longrightarrow> m \<le> n \<Longrightarrow> serves n d d'"
  unfolding serves_def by (meson order_trans)

lemma serves_command:
  assumes "\<And>q d. serves 1 d (snd (command q d))"
  shows "serves 1 (wk_core w) (wk_core (snd (serve_command cfg correlation request command enc type w)))"
proof (cases request)
  case (Inl st)
  with serves_mono [OF serves_noted(2), of 1] show ?thesis by (simp add: serve_command_def)
next
  case (Inr q)
  with assms [of "wk_core w" q] show ?thesis by (cases "command q (wk_core w)") (simp add: serve_command_def)
qed

lemma serves_hello: "serves 1 (wk_core w) (wk_core (snd (serve_hello cfg correlation payload w)))"
proof -
  have "wk_core (snd (serve_hello cfg correlation payload w)) \<in> {wk_core w, note_frame_rejected (wk_core w)}"
    by (auto simp: serve_hello_def dest: write_message_same split: sum.splits prod.splits)
  with serves_mono [OF serves_noted(2), of 1] show ?thesis by auto
qed

lemma serve_shutdown_core [simp]: "wk_core (snd (serve_shutdown cfg correlation w)) = wk_core w"
  by (auto simp: serve_shutdown_def dest: write_message_same split: prod.splits)

lemma command_serves:
  "serves 1 d (snd (daemon_submit_evidence q1 now d))" "serves 1 d (snd (daemon_compose q2 d))"
  "serves 1 d (snd (daemon_acquire q3 now d))" "serves 1 d (snd (daemon_renew q4 now d))"
  "serves 1 d (snd (daemon_release q5 now d))" "serves 1 d (snd (daemon_validate q5 now d))"
  "serves 1 d (snd (daemon_query_state d))" "serves 1 d (snd (daemon_query_resources q6 d))"
  "serves 1 d (snd (daemon_query_paths d))" "serves 1 d (snd (daemon_set_lifecycle q7 now d))"
  "serves 1 d (snd (daemon_checkpoint d))"
  using serves_do [of "Do_submit q1 now" d] serves_do [of "Do_compose q2" d] serves_do [of "Do_acquire q3 now" d]
    serves_do [of "Do_renew q4 now" d] serves_do [of "Do_release q5 now" d] serves_do [of "Do_validate q5 now" d]
    serves_do [of Do_query_state d] serves_do [of "Do_query_resources q6" d] serves_do [of Do_query_paths d]
    serves_do [of "Do_lifecycle q7 now" d] serves_do [of Do_checkpoint d]
  by simp_all

lemma serves_if: "serves n d (wk_core (snd a)) \<Longrightarrow> serves n d (wk_core (snd b)) \<Longrightarrow> serves n d (wk_core (snd (if c then a else b)))"
  by simp

lemma dispatch_serves: "serves 1 (wk_core w) (wk_core (snd (dispatch cfg io type correlation payload w)))"
proof -
  let ?d = "note_request_served (wk_core w)" and ?w = "w\<lparr>wk_core := note_request_served (wk_core w)\<rparr>"
  have command: "serves 1 ?d (wk_core (snd (serve_command cfg correlation request command enc t ?w)))"
    if "\<And>q d. serves 1 d (snd (command q d))" for request command enc t
    using serves_command [OF that, of ?w] by simp
  have hello: "serves 1 ?d (wk_core (snd (serve_hello cfg correlation payload ?w)))"
    using serves_hello [of ?w] by simp
  have rejected: "serves 1 ?d (note_frame_rejected ?d)" using serves_mono [OF serves_noted(2)] by simp
  have "serves 1 ?d (wk_core (snd (dispatch cfg io type correlation payload w)))"
    unfolding dispatch_def Let_def
    by (intro serves_if command hello command_serves) (use rejected in \<open>simp_all add: pure_query_def\<close>)
  from serves_trans [OF serves_noted(1) this] show ?thesis by simp
qed

section \<open>A turn and the whole connection\<close>

lemma handle_turn_cases:
  assumes "handle_turn cfg io w = (go_on, w')"
  shows "\<not> go_on \<and> serves 0 (wk_core w) (wk_core w') \<or>
    (\<exists>type correlation payload w1. wk_core w1 = wk_core w \<and>
       length (ts_in (wk_stream w1)) + kFrameHeaderSize \<le> length (ts_in (wk_stream w)) \<and>
       w' = snd (dispatch cfg io type correlation payload w1))"
proof -
  obtain got s k where r: "recv_exact_interruptible kFrameHeaderSize (wk_stream w) (wk_counters w) = (got, s, k)"
    by (metis prod_cases3)
  show ?thesis
  proof (cases got)
    case (Inl st)
    with assms r show ?thesis by (auto simp: handle_turn_def)
  next
    case (Inr hb)
    note r = r [unfolded Inr]
    obtain st h where d: "decode_frame_header hb (sf_max_frame_payload cfg) kProtocolVersion = (st, h)" by fastforce
    obtain res s2 k2 where b: "receive_body h s k = (res, s2, k2)" by (metis prod_cases3)
    let ?w1 = "w\<lparr>wk_stream := s2, wk_counters := add_frame_received k2\<rparr>"
    show ?thesis
    proof (cases "\<exists>payload. status_ok st \<and> res = Inr payload \<and> crc32c payload = fh_crc h")
      case True
      then obtain payload where p: "status_ok st" "res = Inr payload" "crc32c payload = fh_crc h" by blast
      have "length (ts_in s2) \<le> length (ts_in s)"
        using b p interruptible_taken [of "unat (fh_length h)" s k payload s2 k2]
        by (auto simp: receive_body_def taken_def split: if_splits)
      then have "length (ts_in (wk_stream ?w1)) + kFrameHeaderSize \<le> length (ts_in (wk_stream w))"
        using interruptible_taken [OF r] by (simp add: taken_def)
      moreover have "w' = snd (dispatch cfg io (MessageType (fh_type h)) (fh_correlation h) payload ?w1)"
        using assms r d b p by (auto simp: handle_turn_def Let_def split: prod.splits)
      ultimately show ?thesis by (intro disjI2 exI [of _ ?w1] exI conjI) simp_all
    next
      case False
      then have "\<not> go_on \<and> (wk_core w' = wk_core w \<or> wk_core w' = note_frame_rejected (wk_core w))"
        using assms r d b by (auto simp: handle_turn_def Let_def split: sum.splits if_splits)
      then show ?thesis using serves_noted(2) by auto
    qed
  qed
qed

lemma connection_serves:
  "\<exists>ops. served (wk_core w) ops (wk_core (handle_connection cfg clock w)) \<and>
     length ops * kFrameHeaderSize \<le> length (ts_in (wk_stream w))"
proof (induction cfg clock w rule: handle_connection.induct)
  case (1 cfg clock w)
  obtain go_on w' where t: "handle_turn cfg (clock 0) w = (go_on, w')" by fastforce
  have core: "wk_core (handle_connection cfg clock w) =
      (if go_on then wk_core (handle_connection cfg (\<lambda>n. clock (Suc n)) w') else wk_core w')"
    by (subst handle_connection.simps) (simp add: t)
  from handle_turn_cases [OF t] show ?case
  proof (elim disjE exE conjE)
    assume "\<not> go_on" "serves 0 (wk_core w) (wk_core w')"
    then show ?thesis using core by (auto simp: serves_def)
  next
    fix type correlation payload w1
    assume w1: "wk_core w1 = wk_core w" "length (ts_in (wk_stream w1)) + kFrameHeaderSize \<le> length (ts_in (wk_stream w))"
      and w': "w' = snd (dispatch cfg (clock 0) type correlation payload w1)"
    obtain ops where ops: "length ops \<le> 1" "served (wk_core w) ops (wk_core w')"
      using dispatch_serves [of w1 cfg "clock 0" type correlation payload] w1(1) w' by (auto simp: serves_def)
    have "ts_in (wk_stream w') = ts_in (wk_stream w1)"
      using dispatch_input [of w1 cfg "clock 0" type correlation payload] by (simp add: same_input_def w')
    moreover obtain n where n: "length ops * kFrameHeaderSize = n" "n \<le> kFrameHeaderSize"
      using ops(1) by (metis mult_le_mono1 mult_1)
    ultimately have room: "length ops * kFrameHeaderSize + length (ts_in (wk_stream w')) \<le> length (ts_in (wk_stream w))"
      unfolding n(1) using w1(2) n(2) by simp
    show ?thesis
    proof (cases go_on)
      case True
      obtain more_ops where "served (wk_core w') more_ops (wk_core (handle_connection cfg (\<lambda>n. clock (Suc n)) w'))"
        "length more_ops * kFrameHeaderSize \<le> length (ts_in (wk_stream w'))"
        using "1.IH" [OF t [symmetric] True] by blast
      with ops(2) room core True show ?thesis
        by (intro exI [of _ "ops @ more_ops"]) (auto intro: served_trans simp: add_mult_distrib)
    qed (use ops(2) room core in auto)
  qed
qed

lemma connection_closes: "\<not> ts_valid (wk_stream (handle_connection cfg clock w))"
proof (induction cfg clock w rule: handle_connection.induct)
  case (1 cfg clock w)
  then show ?case by (subst handle_connection.simps) (auto split: prod.split)
qed

text \<open>
  (C8) A peer can only issue commands. Whatever bytes arrive, well formed or not, and however the sockets
  behave, serving a connection ends with the connection closed, and what it did to the core is a finite
  sequence of the daemon's own commands, run one after the other with only counters moving in between:
  no partial command, no other change of the evidence, the leases, the store or the lifecycle, and never
  the expiry or the stop, which are not on the wire. Every command took a full frame header off the
  stream, so the work a peer can cause is bounded by what it sends.
\<close>
theorem connection_runs_commands:
  "\<not> ts_valid (wk_stream (handle_connection cfg clock w)) \<and>
   (\<exists>ops. served (wk_core w) ops (wk_core (handle_connection cfg clock w)) \<and>
      length ops * kFrameHeaderSize \<le> length (ts_in (wk_stream w)))"
  using connection_closes connection_serves by blast

end
