(* ===== verification/Rnf_Listener.thy ===== *)
theory Rnf_Listener
  imports Rnf_Connection
begin

text \<open>
  The ends of a connection's life in \<^verbatim>\<open>net/socket\<close>, \<^verbatim>\<open>runtime/server\<close> and \<^verbatim>\<open>runtime/client\<close>: binding,
  accepting and connecting, and the accept loop of the server with its workers and its ticker as a state
  machine whose steps interleave in any order.
\<close>

section \<open>Sockets\<close>

text \<open>\<^verbatim>\<open>discard\<close>: read and drop, in pieces of at most 512 bytes.\<close>

function discard :: "nat \<Rightarrow> tcp_stream \<Rightarrow> socket_counters \<Rightarrow> tcp_stream \<times> socket_counters" where
  "discard n s k =
     (if n = 0 then (s, k)
      else
        (case recv_some (if n < 512 then n else 512) s k of
           (Inl st, s, k) \<Rightarrow> (s, k)
         | (Inr got, s, k) \<Rightarrow> if got = [] then (s, k) else discard (n - length got) s k))"
  by pat_completeness auto
termination
  by (relation "measure (\<lambda>(n, s, k). n)") auto

declare discard.simps [simp del]

record endpoint =
  ep_host :: string
  ep_port :: u16

definition endpoint_to_text :: "endpoint \<Rightarrow> string" where
  "endpoint_to_text e = ep_host e @ '':'' @ to_string_nat (unat (ep_port e))"

definition set_timeout :: "string \<Rightarrow> bool \<Rightarrow> tcp_stream \<Rightarrow> status" where
  "set_timeout which set_ok s =
     (if \<not> ts_valid s then Status kClosed ''stream is not connected''
      else if \<not> set_ok then Status kIo (''cannot set the '' @ which @ '' timeout'')
      else ok_status)"

text \<open>What the operating system answers to one attempt to connect.\<close>

datatype connect_answer = Not_numeric | No_socket | Refused | Connected tcp_stream

fun connect_loop :: "endpoint \<Rightarrow> nat \<Rightarrow> connect_answer list \<Rightarrow> status \<Rightarrow> tcp_stream result" where
  "connect_loop e 0 answers last_status = Inl last_status"
| "connect_loop e (Suc n) answers last_status =
     (case (case answers of [] \<Rightarrow> Refused | a # _ \<Rightarrow> a) of
        Not_numeric \<Rightarrow> fail kInvalidArgument (''endpoint host is not a numeric IPv4 address: '' @ ep_host e)
      | No_socket \<Rightarrow> connect_loop e n (tl answers) (Status kIo ''cannot create a client socket'')
      | Refused \<Rightarrow> connect_loop e n (tl answers) (Status kIo (''cannot connect to '' @ endpoint_to_text e))
      | Connected s \<Rightarrow> Inr s)"

definition connect_loopback :: "status \<Rightarrow> endpoint \<Rightarrow> u32 \<Rightarrow> connect_answer list \<Rightarrow> tcp_stream result" where
  "connect_loopback runtime e attempts answers =
     (if \<not> status_ok runtime then Inl runtime
      else connect_loop e (if attempts = 0 then 1 else unat attempts) answers (Status kIo ''no connection attempt was made''))"

definition client_connect ::
  "status \<Rightarrow> endpoint \<Rightarrow> client_options \<Rightarrow> connect_answer list \<Rightarrow> bool \<Rightarrow> bool \<Rightarrow> socket_counters \<Rightarrow> client result" where
  "client_connect runtime e options answers read_ok write_ok k =
     rnf_try (connect_loopback runtime e (co_connect_attempts options) answers) (\<lambda>s.
       let r = set_timeout ''receive'' read_ok s; w = set_timeout ''send'' write_ok s in
       if \<not> status_ok r then Inl r
       else if \<not> status_ok w then Inl w
       else Inr \<lparr>cl_stream = s, cl_options = options, cl_next_correlation = 1, cl_last_correlation = 0, cl_counters = k\<rparr>)"

text \<open>The first call that fails decides; \<open>Bound\<close> carries the port the system chose.\<close>

datatype bind_answer = No_listening_socket | Bind_failed | Listen_failed | Name_failed | Bound u16

definition bind_loopback :: "status \<Rightarrow> u16 \<Rightarrow> bind_answer \<Rightarrow> u16 result" where
  "bind_loopback runtime port a =
     (if \<not> status_ok runtime then Inl runtime
      else
        (case a of
           No_listening_socket \<Rightarrow> fail kIo ''cannot create a listening socket''
         | Bind_failed \<Rightarrow> fail kIo (''cannot bind to loopback port '' @ to_string_nat (unat port))
         | Listen_failed \<Rightarrow> fail kIo ''cannot listen on the bound socket''
         | Name_failed \<Rightarrow> fail kIo ''cannot read back the bound port''
         | Bound p \<Rightarrow> Inr p))"

text \<open>
  What one round of \<^verbatim>\<open>accept\<close> sees: the stop predicate, a poll that found nothing or was interrupted, a
  failure of the poll or of the call, with the predicate asked again, or a connection. The loop goes on as
  long as there are answers; \<open>None\<close> is a listener still waiting.
\<close>

datatype accept_answer = Stop_asked | Poll_again | Poll_failed | Accept_failed bool | Accepted tcp_stream

fun accept_loop :: "accept_answer list \<Rightarrow> tcp_stream result option" where
  "accept_loop [] = None"
| "accept_loop (a # answers) =
     (case a of
        Stop_asked \<Rightarrow> Some (fail kCancelled ''listener was asked to stop'')
      | Poll_again \<Rightarrow> accept_loop answers
      | Poll_failed \<Rightarrow> Some (fail kIo ''select failed on the listening socket'')
      | Accept_failed stop \<Rightarrow>
          Some (if stop then fail kCancelled ''listener was asked to stop'' else fail kIo ''accept failed'')
      | Accepted s \<Rightarrow> Some (Inr s))"

definition listener_accept :: "bool \<Rightarrow> accept_answer list \<Rightarrow> tcp_stream result option" where
  "listener_accept listening answers =
     (if \<not> listening then Some (fail kClosed ''listener is closed'') else accept_loop answers)"

lemma connect_loop_gives_up:
  "set answers \<subseteq> {Refused} \<Longrightarrow> 0 < n \<Longrightarrow>
     connect_loop e n answers st = fail kIo (''cannot connect to '' @ endpoint_to_text e)"
proof (induction n arbitrary: answers st)
  case (Suc n)
  then show ?case using Suc.IH [of "tl answers"] by (cases n; cases answers) auto
qed simp

text \<open>A listener that comes up while the client still has attempts left is reached.\<close>

lemma connect_loop_retries:
  "length before < n \<Longrightarrow> \<forall>a\<in>set before. a = Refused \<or> a = No_socket \<Longrightarrow>
     connect_loop e n (before @ Connected s # answers) st = Inr s"
proof (induction before arbitrary: n st)
  case Nil
  then show ?case by (cases n) auto
next
  case (Cons a before)
  then show ?case by (cases n) auto
qed

section \<open>The accept loop and its workers\<close>

text \<open>
  A worker serves its connection, then returns its slot, then raises its flag, the last two in this order
  and apart from each other, so that a slot may be free while its worker is still on the list.
\<close>

datatype worker_phase = Wk_serving | Wk_released | Wk_finished

record server_state =
  sv_core :: daemon_core
  sv_active :: nat
  sv_workers :: "worker_phase list"

definition reap_workers :: "server_state \<Rightarrow> server_state" where
  "reap_workers s = s\<lparr>sv_workers := filter (\<lambda>p. p \<noteq> Wk_finished) (sv_workers s)\<rparr>"

definition accept_connection :: "server_config \<Rightarrow> server_state \<Rightarrow> server_state" where
  "accept_connection cfg s =
     (let s = reap_workers s in
      case admit_connection cfg (sv_active s) (sv_core s) of (reserved, active, d) \<Rightarrow>
        s\<lparr>sv_active := active, sv_core := d, sv_workers := sv_workers s @ (if reserved then [Wk_serving] else [])\<rparr>)"

datatype server_event = Ev_accept | Ev_release nat | Ev_finish nat | Ev_tick timestamp_ms | Ev_command nat daemon_op

inductive server_step :: "server_config \<Rightarrow> server_state \<Rightarrow> server_event \<Rightarrow> server_state \<Rightarrow> bool" for cfg where
  step_accept: "server_step cfg s Ev_accept (accept_connection cfg s)"
| step_release: "i < length (sv_workers s) \<Longrightarrow> sv_workers s ! i = Wk_serving \<Longrightarrow>
    server_step cfg s (Ev_release i) (s\<lparr>sv_active := sv_active s - 1, sv_workers := (sv_workers s)[i := Wk_released]\<rparr>)"
| step_finish: "i < length (sv_workers s) \<Longrightarrow> sv_workers s ! i = Wk_released \<Longrightarrow>
    server_step cfg s (Ev_finish i) (s\<lparr>sv_workers := (sv_workers s)[i := Wk_finished]\<rparr>)"
| step_tick: "server_step cfg s (Ev_tick now) (s\<lparr>sv_core := snd (expire_due_locked now (sv_core s))\<rparr>)"
| step_command: "i < length (sv_workers s) \<Longrightarrow> sv_workers s ! i = Wk_serving \<Longrightarrow> remote_op op \<Longrightarrow>
    server_step cfg s (Ev_command i op) (s\<lparr>sv_core := daemon_apply op (sv_core s)\<rparr>)"

inductive_cases server_stepE: "server_step cfg s e t"

definition serving :: "server_state \<Rightarrow> nat" where
  "serving s = count_list (sv_workers s) Wk_serving"

definition slots_inv :: "server_config \<Rightarrow> server_state \<Rightarrow> bool" where
  "slots_inv cfg s \<longleftrightarrow> sv_active s = serving s \<and> sv_active s \<le> sf_max_connections cfg"

definition idle_server :: "daemon_core \<Rightarrow> server_state" where
  "idle_server d = \<lparr>sv_core = d, sv_active = 0, sv_workers = []\<rparr>"

lemma count_update:
  "i < length xs \<Longrightarrow> xs ! i = a \<Longrightarrow> b \<noteq> a \<Longrightarrow> count_list (xs[i := b]) a = count_list xs a - 1"
  "i < length xs \<Longrightarrow> xs ! i \<noteq> a \<Longrightarrow> b \<noteq> a \<Longrightarrow> count_list (xs[i := b]) a = count_list xs a"
  "i < length xs \<Longrightarrow> xs ! i = a \<Longrightarrow> 0 < count_list xs a"
proof (induction xs arbitrary: i)
  case (Cons x xs)
  {
    case 1
    then show ?case
    proof (cases i)
      case (Suc j)
      with 1 Cons.IH(1,3) [of j] show ?thesis by auto
    qed auto
  next
    case 2
    then show ?case using Cons.IH(2) by (cases i) auto
  next
    case 3
    then show ?case using Cons.IH(3) by (cases i) auto
  }
qed auto

lemma accept_serving:
  "serving (accept_connection cfg s) = serving s + (if sv_active s < sf_max_connections cfg then 1 else 0)"
proof -
  have "count_list (filter (\<lambda>p. p \<noteq> Wk_finished) ps) Wk_serving = count_list ps Wk_serving" for ps
    by (induction ps) auto
  then show ?thesis
    by (simp add: serving_def accept_connection_def reap_workers_def admit_connection_def Let_def)
qed

lemma accept_active:
  "sv_active (accept_connection cfg s) = sv_active s + (if sv_active s < sf_max_connections cfg then 1 else 0)"
  by (simp add: accept_connection_def reap_workers_def admit_connection_def Let_def)

interpretation server_slots: state_machine "\<lambda>s. \<exists>d. s = idle_server d" "server_step cfg" "slots_inv cfg" for cfg
proof
  fix s
  assume "\<exists>d. s = idle_server d"
  then show "slots_inv cfg s" by (auto simp: slots_inv_def idle_server_def serving_def)
next
  fix s e t
  assume "slots_inv cfg s" "server_step cfg s e t"
  then show "slots_inv cfg t"
    by (elim server_stepE)
      (auto simp: slots_inv_def accept_serving accept_active, auto simp: serving_def count_update)
qed

text \<open>
  (C37) The bound on connections is exact. However accepting, serving, returning slots, finishing, the
  commands of the workers and the ticks of the clock interleave, the counter of the server is the number of
  workers serving a connection and never above the configured maximum; and a connection that arrives is
  turned away if and only if that many are being served at that moment.
\<close>
theorem connections_bounded:
  assumes "run (server_step cfg) (idle_server d) events s"
  shows "sv_active s = serving s \<and> serving s \<le> sf_max_connections cfg \<and>
    (serving (accept_connection cfg s) = serving s \<longleftrightarrow> serving s = sf_max_connections cfg) \<and>
    (serving s < sf_max_connections cfg \<longrightarrow> Wk_serving \<in> set (sv_workers (accept_connection cfg s)))"
proof -
  have inv: "slots_inv cfg s" using server_slots.inv_reachable [OF _ assms] by blast
  then have "serving s < sf_max_connections cfg \<Longrightarrow> Wk_serving \<in> set (sv_workers (accept_connection cfg s))"
    by (simp add: slots_inv_def accept_connection_def reap_workers_def admit_connection_def Let_def)
  with inv show ?thesis by (auto simp: slots_inv_def accept_serving)
qed

theorem connections_bounded_witness:
  "\<forall>d. \<exists>s. run (server_step \<lparr>sf_max_frame_payload = 64, sf_max_connections = 1, sf_idle_timeout_ms = 0, sf_tick_interval_ms = 1\<rparr>)
       (idle_server d) [Ev_accept, Ev_accept, Ev_release 0] s \<and> sv_active s = serving s \<and> sv_workers s = [Wk_released]"
proof
  fix d
  let ?cfg = "\<lparr>sf_max_frame_payload = 64, sf_max_connections = 1, sf_idle_timeout_ms = 0, sf_tick_interval_ms = 1\<rparr> :: server_config"
  define s where "s = accept_connection ?cfg (accept_connection ?cfg (idle_server d))"
  have w: "sv_workers s = [Wk_serving]"
    by (simp add: s_def idle_server_def accept_connection_def reap_workers_def admit_connection_def Let_def)
  let ?t = "s\<lparr>sv_active := sv_active s - 1, sv_workers := (sv_workers s)[0 := Wk_released]\<rparr>"
  have r: "run (server_step ?cfg) (idle_server d) [Ev_accept, Ev_accept, Ev_release 0] ?t"
    by (intro run.intros, rule step_accept, rule step_accept, unfold s_def [symmetric], rule step_release) (simp_all add: w)
  then show "\<exists>s. run (server_step ?cfg) (idle_server d) [Ev_accept, Ev_accept, Ev_release 0] s \<and> sv_active s = serving s \<and>
      sv_workers s = [Wk_released]"
    using connections_bounded [OF r] w by (intro exI [of _ ?t]) simp
qed

end
