(* ===== verification/Rnf_Apps.thy ===== *)
theory Rnf_Apps
  imports Rnf_Listener
begin

text \<open>
  The command lines of \<^verbatim>\<open>rnfd\<close> and \<^verbatim>\<open>rnfctl\<close>: options and arguments, endpoints and the JSON text the
  tool prints. \<^verbatim>\<open>--help\<close> prints and leaves the process; it is the value \<open>None\<close> of the parsers.
\<close>

section \<open>Shared parsers\<close>

datatype log_level = LogLevel_kTrace | LogLevel_kDebug | LogLevel_kInfo | LogLevel_kWarn | LogLevel_kError | LogLevel_kOff

definition parse_log_level :: "string \<Rightarrow> log_level option" where
  "parse_log_level text =
     map_of [(''trace'', LogLevel_kTrace), (''debug'', LogLevel_kDebug), (''info'', LogLevel_kInfo),
       (''warn'', LogLevel_kWarn), (''error'', LogLevel_kError), (''off'', LogLevel_kOff)] text"

definition log_level_to_string :: "log_level \<Rightarrow> string" where
  "log_level_to_string level =
     (case level of LogLevel_kTrace \<Rightarrow> ''trace'' | LogLevel_kDebug \<Rightarrow> ''debug'' | LogLevel_kInfo \<Rightarrow> ''info''
      | LogLevel_kWarn \<Rightarrow> ''warn'' | LogLevel_kError \<Rightarrow> ''error'' | LogLevel_kOff \<Rightarrow> ''off'')"

lemma log_level_roundtrip [simp]: "parse_log_level (log_level_to_string level) = Some level"
  by (cases level) (simp_all add: parse_log_level_def log_level_to_string_def)

text \<open>Both tools parse numbers with the loop of the library, but without its bound on the length.\<close>

definition parse_number :: "string \<Rightarrow> u64 option" where
  "parse_number text = (if text = [] then None else parse_u64_loop text 0)"

lemma parse_number_decimal: "parse_number (to_string_nat (unat (n :: 'a :: len word))) = Some (of_nat (unat n))"
  if "LENGTH('a) \<le> 64"
proof -
  have "unat n < 2 ^ LENGTH('a)" by (rule unsigned_less)
  then have "unat n < 2 ^ 64" using that by (meson less_le_trans one_le_numeral power_increasing)
  moreover have "decimal_digits m \<noteq> []" for m by (subst decimal_digits.simps) simp
  ultimately show ?thesis
    using parse_u64_loop_decimal by (simp add: parse_number_def to_string_nat_def)
qed

section \<open>Options of the daemon\<close>

definition default_server_config :: server_config where
  "default_server_config = \<lparr>sf_max_frame_payload = kDefaultMaxFramePayload, sf_max_connections = 32,
     sf_idle_timeout_ms = 300000, sf_tick_interval_ms = 200\<rparr>"

definition default_rack_config :: rack_config where
  "default_rack_config = \<lparr>rc_rack = 0, rc_name = [], rc_headroom_floor = 0, rc_max_paths_per_pair = 2,
     rc_max_path_hops = 6, rc_strict_generation = True\<rparr>"

definition default_daemon_config :: daemon_config where
  "default_daemon_config = \<lparr>dc_rack = default_rack_config, dc_store_directory = [], dc_bind_host = ''127.0.0.1'', dc_port = 0,
     dc_max_connections = 32, dc_max_frame_payload = kDefaultMaxFramePayload, dc_default_ttl_ms = 60000,
     dc_auto_compose = False, dc_checkpoint_every_records = 4096, dc_evidence_limits = default_evidence_limits,
     dc_compose_limits = default_compose_limits, dc_authority_limits = default_authority_limits,
     dc_max_records_per_batch = 4096, dc_fsync_on_append = True\<rparr>"

record rnfd_options =
  op_config :: daemon_config
  op_server :: server_config
  op_valid :: bool
  op_error :: string
  op_level :: "log_level option"
  op_rack_set :: bool

definition reject_options :: "string \<Rightarrow> rnfd_options \<Rightarrow> rnfd_options" where
  "reject_options message opts = opts\<lparr>op_valid := False, op_error := message\<rparr>"

text \<open>The value of a flag; a missing one is noted and reads as the empty text.\<close>

definition need_value :: "string \<Rightarrow> string list \<Rightarrow> rnfd_options \<Rightarrow> string \<times> string list \<times> rnfd_options" where
  "need_value flag rest opts =
     (case rest of
        [] \<Rightarrow> ([], [], reject_options (flag @ '' requires a value'') opts)
      | v # rest \<Rightarrow> (v, rest, opts))"

datatype option_step = Show_help | Give_up rnfd_options | Go_on "string list" rnfd_options

definition number_option :: "string \<Rightarrow> (u64 \<Rightarrow> bool) \<Rightarrow> string \<Rightarrow> rnfd_options \<Rightarrow> (u64 \<Rightarrow> option_step) \<Rightarrow> option_step" where
  "number_option text admit message opts k =
     (case parse_number text of
        None \<Rightarrow> Give_up (reject_options message opts)
      | Some n \<Rightarrow> if admit n then k n else Give_up (reject_options message opts))"

definition set_config :: "(daemon_config \<Rightarrow> daemon_config) \<Rightarrow> rnfd_options \<Rightarrow> rnfd_options" where
  "set_config f opts = opts\<lparr>op_config := f (op_config opts)\<rparr>"

definition set_rack :: "(rack_config \<Rightarrow> rack_config) \<Rightarrow> rnfd_options \<Rightarrow> rnfd_options" where
  "set_rack f = set_config (\<lambda>c. c\<lparr>dc_rack := f (dc_rack c)\<rparr>)"

definition parse_option :: "string \<Rightarrow> string list \<Rightarrow> rnfd_options \<Rightarrow> option_step" where
  "parse_option flag rest opts =
     (let (v, rest', opts') = need_value flag rest opts in
      if flag = ''--help'' \<or> flag = ''-h'' then Show_help
      else if flag = ''--rack'' then
        number_option v (\<lambda>n. n \<noteq> 0) ''--rack needs a positive decimal identity'' opts' (\<lambda>n.
          Go_on rest' (set_rack (\<lambda>r. r\<lparr>rc_rack := n\<rparr>) opts'\<lparr>op_rack_set := True\<rparr>))
      else if flag = ''--name'' then Go_on rest' (set_rack (\<lambda>r. r\<lparr>rc_name := v\<rparr>) opts')
      else if flag = ''--store'' then Go_on rest' (set_config (\<lambda>c. c\<lparr>dc_store_directory := v\<rparr>) opts')
      else if flag = ''--port'' then
        number_option v (\<lambda>n. n \<le> 65535) ''--port needs a number between 0 and 65535'' opts' (\<lambda>n.
          Go_on rest' (set_config (\<lambda>c. c\<lparr>dc_port := ucast n\<rparr>) opts'))
      else if flag = ''--host'' then Go_on rest' (set_config (\<lambda>c. c\<lparr>dc_bind_host := v\<rparr>) opts')
      else if flag = ''--headroom'' then
        number_option v (\<lambda>n. True) ''--headroom needs a number'' opts' (\<lambda>n.
          Go_on rest' (set_rack (\<lambda>r. r\<lparr>rc_headroom_floor := n\<rparr>) opts'))
      else if flag = ''--max-connections'' then
        number_option v (\<lambda>n. n \<noteq> 0) ''--max-connections needs a positive number'' opts' (\<lambda>n.
          Go_on rest' (set_config (\<lambda>c. c\<lparr>dc_max_connections := unat n\<rparr>)
            (opts'\<lparr>op_server := (op_server opts')\<lparr>sf_max_connections := unat n\<rparr>\<rparr>)))
      else if flag = ''--max-frame'' then
        number_option v (\<lambda>n. n \<noteq> 0 \<and> n \<le> ucast kHardMaxFramePayload) ''--max-frame is out of range'' opts' (\<lambda>n.
          Go_on rest' (set_config (\<lambda>c. c\<lparr>dc_max_frame_payload := ucast n\<rparr>)
            (opts'\<lparr>op_server := (op_server opts')\<lparr>sf_max_frame_payload := ucast n\<rparr>\<rparr>)))
      else if flag = ''--checkpoint-every'' then
        number_option v (\<lambda>n. True) ''--checkpoint-every needs a number'' opts' (\<lambda>n.
          Go_on rest' (set_config (\<lambda>c. c\<lparr>dc_checkpoint_every_records := n\<rparr>) opts'))
      else if flag = ''--default-ttl-ms'' then
        number_option v (\<lambda>n. n \<noteq> 0) ''--default-ttl-ms needs a positive number'' opts' (\<lambda>n.
          Go_on rest' (set_config (\<lambda>c. c\<lparr>dc_default_ttl_ms := n\<rparr>) opts'))
      else if flag = ''--auto-compose'' then Go_on rest (set_config (\<lambda>c. c\<lparr>dc_auto_compose := True\<rparr>) opts)
      else if flag = ''--no-fsync'' then Go_on rest (set_config (\<lambda>c. c\<lparr>dc_fsync_on_append := False\<rparr>) opts)
      else if flag = ''--log-level'' then
        (case parse_log_level v of
           None \<Rightarrow> Give_up (reject_options ''unknown log level'' opts')
         | Some level \<Rightarrow> Go_on rest' (opts'\<lparr>op_level := Some level\<rparr>))
      else Give_up (reject_options (''unknown option '' @ flag) opts))"

text \<open>What holds of the arguments left and the options after a step.\<close>

definition step_all :: "(string list \<Rightarrow> rnfd_options \<Rightarrow> bool) \<Rightarrow> option_step \<Rightarrow> bool" where
  "step_all P s = (case s of Show_help \<Rightarrow> True | Give_up opts \<Rightarrow> P [] opts | Go_on rest opts \<Rightarrow> P rest opts)"

lemma step_all_if: "step_all P a \<Longrightarrow> step_all P b \<Longrightarrow> step_all P (if c then a else b)"
  by simp

lemma step_all_simps [simp]:
  "step_all P Show_help" "step_all P (Give_up opts) = P [] opts" "step_all P (Go_on rest opts) = P rest opts"
  by (simp_all add: step_all_def)

lemma step_all_number:
  "P [] (reject_options message opts) \<Longrightarrow> (\<And>n. admit n \<Longrightarrow> step_all P (k n)) \<Longrightarrow> step_all P (number_option text admit message opts k)"
  by (auto simp: number_option_def split: option.splits)

lemma parse_option_shrinks: "parse_option flag rest opts = Go_on rest' opts' \<Longrightarrow> length rest' \<le> length rest"
proof -
  obtain v r o' where need: "need_value flag rest opts = (v, r, o')" by (metis prod_cases3)
  then have "length r \<le> length rest" by (auto simp: need_value_def split: list.splits)
  then have "step_all (\<lambda>r opts. length r \<le> length rest) (parse_option flag rest opts)"
    unfolding parse_option_def need Let_def prod.case
    by (intro step_all_if step_all_number) (auto split: option.split)
  then show "parse_option flag rest opts = Go_on rest' opts' \<Longrightarrow> length rest' \<le> length rest" by simp
qed

function parse_options_loop :: "string list \<Rightarrow> rnfd_options \<Rightarrow> rnfd_options option" where
  "parse_options_loop [] opts = Some opts"
| "parse_options_loop (flag # rest) opts =
     (case parse_option flag rest opts of
        Show_help \<Rightarrow> None
      | Give_up opts' \<Rightarrow> Some opts'
      | Go_on rest' opts' \<Rightarrow> parse_options_loop rest' opts')"
  by pat_completeness auto
termination
  by (relation "measure (\<lambda>(args, opts). length args)") (auto dest: parse_option_shrinks)

definition start_options :: rnfd_options where
  "start_options = \<lparr>op_config = default_daemon_config, op_server = default_server_config, op_valid = True, op_error = [],
     op_level = None, op_rack_set = False\<rparr>"

definition parse_options :: "string list \<Rightarrow> rnfd_options option" where
  "parse_options args =
     map_option (\<lambda>opts. if op_valid opts \<and> \<not> op_rack_set opts then reject_options ''--rack is required'' opts else opts)
       (parse_options_loop args start_options)"

text \<open>What \<^verbatim>\<open>main\<close> makes of the outcomes of its steps.\<close>

definition rnfd_exit_code :: "rnfd_options option \<Rightarrow> status \<Rightarrow> status \<Rightarrow> status \<Rightarrow> status \<Rightarrow> nat" where
  "rnfd_exit_code opts started bound outcome stopped =
     (case opts of
        None \<Rightarrow> 0
      | Some opts \<Rightarrow>
          if \<not> op_valid opts then 2
          else if \<not> status_ok started then 1
          else if \<not> status_ok bound then 1
          else if \<not> status_ok outcome then 1
          else if \<not> status_ok stopped then 1
          else 0)"

section \<open>Options in range\<close>

definition options_inv :: "rnfd_options \<Rightarrow> bool" where
  "options_inv opts \<longleftrightarrow>
     (op_rack_set opts \<longrightarrow> rc_rack (dc_rack (op_config opts)) \<noteq> 0) \<and>
     0 < dc_max_frame_payload (op_config opts) \<and> dc_max_frame_payload (op_config opts) \<le> kHardMaxFramePayload \<and>
     sf_max_frame_payload (op_server opts) = dc_max_frame_payload (op_config opts) \<and>
     0 < dc_max_connections (op_config opts) \<and> sf_max_connections (op_server opts) = dc_max_connections (op_config opts) \<and>
     dc_default_ttl_ms (op_config opts) \<noteq> 0"

lemma options_inv_reject [simp]: "options_inv (reject_options message opts) = options_inv opts"
  by (simp add: options_inv_def reject_options_def)

lemma frame_cast:
  assumes "n \<noteq> 0" "n \<le> (ucast kHardMaxFramePayload :: u64)"
  shows "0 < (ucast n :: u32)" "(ucast n :: u32) \<le> kHardMaxFramePayload"
proof -
  have n: "unat n \<le> 8388608" using assms(2) by (simp add: word_le_nat_alt kHardMaxFramePayload_def)
  have "unat (ucast n :: u32) = unat n" using n by (simp add: unsigned_ucast_eq take_bit_nat_eq_self)
  then show "0 < (ucast n :: u32)" "(ucast n :: u32) \<le> kHardMaxFramePayload"
    using assms(1) n by (simp_all add: word_less_nat_alt word_le_nat_alt hard_max unat_gt_0 unat_eq_zero)
qed

lemma parse_option_inv:
  assumes "options_inv opts"
  shows "step_all (\<lambda>r. options_inv) (parse_option flag rest opts)"
proof -
  obtain v r o' where need: "need_value flag rest opts = (v, r, o')" by (metis prod_cases3)
  have o': "options_inv o'" using need assms by (cases rest) (auto simp: need_value_def)
  show ?thesis
    unfolding parse_option_def need Let_def prod.case using o' assms
    by (intro step_all_if step_all_number)
      (simp_all add: options_inv_def set_config_def set_rack_def frame_cast unat_gt_0 reject_options_def split: option.split)
qed

lemma parse_options_loop_inv: "options_inv opts \<Longrightarrow> parse_options_loop args opts = Some opts' \<Longrightarrow> options_inv opts'"
proof (induction args opts rule: parse_options_loop.induct)
  case (2 flag rest opts)
  show ?case
  proof (cases "parse_option flag rest opts")
    case (Go_on rest2 opts2)
    then have "options_inv opts2" using parse_option_inv [OF "2.prems"(1), of flag rest] by simp
    then show ?thesis using "2.IH" [OF Go_on] "2.prems"(2) Go_on by simp
  qed (use "2.prems" parse_option_inv [OF "2.prems"(1), of flag rest] in auto)
qed simp

text \<open>
  A daemon that starts has a configuration in range. Whatever the command line says, options that are
  accepted name a rack, the bound on a frame is positive and no more than the protocol's hard bound, there is
  room for a connection, a lease without a lifetime of its own gets a positive one, and the daemon and its
  server agree on the bounds they both hold.
\<close>
theorem rnfd_options_in_range:
  assumes "parse_options args = Some opts" "op_valid opts"
  shows "rc_rack (dc_rack (op_config opts)) \<noteq> 0 \<and>
    0 < sf_max_frame_payload (op_server opts) \<and> sf_max_frame_payload (op_server opts) \<le> kHardMaxFramePayload \<and>
    0 < sf_max_connections (op_server opts) \<and> dc_default_ttl_ms (op_config opts) \<noteq> 0 \<and>
    dc_max_frame_payload (op_config opts) = sf_max_frame_payload (op_server opts) \<and>
    dc_max_connections (op_config opts) = sf_max_connections (op_server opts)"
proof -
  obtain opts0 where l: "parse_options_loop args start_options = Some opts0"
    and o: "opts = (if op_valid opts0 \<and> \<not> op_rack_set opts0 then reject_options ''--rack is required'' opts0 else opts0)"
    using assms(1) by (auto simp: parse_options_def)
  have "options_inv start_options"
    by (simp add: options_inv_def start_options_def default_daemon_config_def default_server_config_def
        kDefaultMaxFramePayload_def kHardMaxFramePayload_def)
  from parse_options_loop_inv [OF this l] have "options_inv opts0" .
  moreover have "opts = opts0 \<and> op_rack_set opts0"
    using o assms(2) by (auto simp: reject_options_def split: if_splits)
  ultimately show ?thesis by (simp add: options_inv_def)
qed

theorem rnfd_options_in_range_witness:
  "\<exists>opts. parse_options [''--rack'', ''7'', ''--auto-compose'', ''--max-frame'', ''4096''] = Some opts \<and> op_valid opts \<and>
     rc_rack (dc_rack (op_config opts)) \<noteq> 0"
proof -
  have n: "parse_number ''4096'' = Some 4096" "parse_number ''7'' = Some 7" by code_simp+
  obtain opts where "parse_options [''--rack'', ''7'', ''--auto-compose'', ''--max-frame'', ''4096''] = Some opts" "op_valid opts"
    by (simp add: parse_options_def parse_option_def need_value_def number_option_def n set_config_def set_rack_def
        start_options_def kHardMaxFramePayload_def)
  with rnfd_options_in_range [OF this] show ?thesis by blast
qed

section \<open>The text rnfctl prints\<close>

definition kQuote :: char where "kQuote = CHR 0x22"
definition kBackslash :: char where "kBackslash = CHR 0x5C"

text \<open>\<^verbatim>\<open>%04x\<close> of a value below 32.\<close>

definition escape_char :: "char \<Rightarrow> string" where
  "escape_char c =
     (if c = kQuote then [kBackslash, kQuote]
      else if c = kBackslash then [kBackslash, kBackslash]
      else if (of_char c :: nat) < 0x20
      then kBackslash # ''u00'' @ [kHexDigits ! (of_char c div 16), kHexDigits ! (of_char c mod 16)]
      else [c])"

definition json_escape :: "string \<Rightarrow> string" where
  "json_escape t = concat (map escape_char t)"

definition json_quote :: "string \<Rightarrow> string" where
  "json_quote t = kQuote # json_escape t @ [kQuote]"

definition json_field :: "string \<Rightarrow> string \<Rightarrow> string" where
  "json_field key v = json_quote key @ '':'' @ v"

definition json_text_field :: "string \<Rightarrow> string \<Rightarrow> string" where
  "json_text_field key v = json_field key (json_quote v)"

definition json_number_field :: "string \<Rightarrow> u64 \<Rightarrow> string" where
  "json_number_field key v = json_field key (to_string_u64 v)"

definition json_boolean_field :: "string \<Rightarrow> bool \<Rightarrow> string" where
  "json_boolean_field key v = json_field key (if v then ''true'' else ''false'')"

text \<open>The specification: the strings of JSON, read up to the closing quote.\<close>

fun json_read :: "string \<Rightarrow> (string \<times> string) option" where
  "json_read [] = None"
| "json_read (c # cs) =
     (if c = kQuote then Some ([], cs)
      else if c = kBackslash then
        (case cs of
           e # cs \<Rightarrow>
             if e = kQuote \<or> e = kBackslash then map_option (map_prod ((#) e) id) (json_read cs)
             else if e = CHR ''u'' then
               (case cs of
                  a # b # h # l # cs \<Rightarrow>
                    if a = CHR ''0'' \<and> b = CHR ''0'' \<and> hex_value h \<noteq> 0xFF \<and> hex_value l \<noteq> 0xFF
                    then map_option (map_prod ((#) (char_of (16 * unat (hex_value h) + unat (hex_value l)))) id) (json_read cs)
                    else None
                | _ \<Rightarrow> None)
             else None
         | [] \<Rightarrow> None)
      else if (of_char c :: nat) < 0x20 then None
      else map_option (map_prod ((#) c) id) (json_read cs))"

lemma hex_digits_value:
  assumes "n < 16"
  shows "hex_value (kHexDigits ! n) \<noteq> 0xFF" "unat (hex_value (kHexDigits ! n)) = n"
proof -
  have "\<forall>n\<in>{..<16}. hex_value (kHexDigits ! n) \<noteq> 0xFF \<and> unat (hex_value (kHexDigits ! n)) = n" by code_simp
  with assms show "hex_value (kHexDigits ! n) \<noteq> 0xFF" "unat (hex_value (kHexDigits ! n)) = n" by auto
qed

lemma json_read_escape: "json_read (escape_char c @ cs) = map_option (map_prod ((#) c) id) (json_read cs)"
proof (cases "c = kQuote \<or> c = kBackslash \<or> \<not> (of_char c :: nat) < 0x20")
  case True
  then show ?thesis by (auto simp: escape_char_def kQuote_def kBackslash_def)
next
  case False
  let ?n = "of_char c :: nat"
  have "16 * (?n div 16) + ?n mod 16 = ?n" by simp
  moreover have "?n div 16 < 16" "?n mod 16 < 16" using False by auto
  ultimately show ?thesis
    using False by (simp add: escape_char_def hex_digits_value) (simp add: kQuote_def kBackslash_def)
qed

text \<open>
  What the tool prints is the text it was given. A reader of JSON strings, placed after the opening quote
  of a quoted text, reads exactly that text and stops behind the closing quote, whatever bytes the text
  contains: quotes, backslashes and control characters cannot end the string early or forge a field.
\<close>
theorem json_quote_roundtrip: "json_read (tl (json_quote t @ rest)) = Some (t, rest)"
proof -
  have "json_read (json_escape t @ kQuote # rest) = Some (t, rest)"
    by (induction t) (simp_all add: json_escape_def json_read_escape)
  then show ?thesis by (simp add: json_quote_def)
qed

section \<open>Arguments of rnfctl\<close>

record ctl_arguments =
  ca_command :: string
  ca_values :: "string \<rightharpoonup> string"
  ca_endpoint :: string
  ca_timeout_ms :: u32
  ca_quiet :: bool
  ca_valid :: bool
  ca_error :: string
  ca_level :: "log_level option"

definition start_arguments :: ctl_arguments where
  "start_arguments = \<lparr>ca_command = [], ca_values = Map.empty, ca_endpoint = ''127.0.0.1:8790'', ca_timeout_ms = 300000,
     ca_quiet = False, ca_valid = True, ca_error = [], ca_level = None\<rparr>"

definition reject_arguments :: "string \<Rightarrow> ctl_arguments \<Rightarrow> ctl_arguments" where
  "reject_arguments message a = a\<lparr>ca_valid := False, ca_error := message\<rparr>"

definition argument :: "ctl_arguments \<Rightarrow> string \<Rightarrow> string \<Rightarrow> string" where
  "argument a key fallback = (case ca_values a key of None \<Rightarrow> fallback | Some v \<Rightarrow> v)"

fun parse_arguments_loop :: "string list \<Rightarrow> ctl_arguments \<Rightarrow> ctl_arguments option" where
  "parse_arguments_loop [] a =
     Some (if ca_command a = [] then reject_arguments ''no command given'' a else a)"
| "parse_arguments_loop (flag # rest) a =
     (if flag = ''--help'' \<or> flag = ''-h'' then None
      else if flag = ''--quiet'' then parse_arguments_loop rest (a\<lparr>ca_quiet := True\<rparr>)
      else if take 2 flag \<noteq> ''--'' then
        if ca_command a = [] then parse_arguments_loop rest (a\<lparr>ca_command := flag\<rparr>)
        else Some (reject_arguments (''unexpected argument '' @ flag) a)
      else
        (case rest of
           [] \<Rightarrow> Some (reject_arguments (flag @ '' requires a value'') a)
         | v # rest \<Rightarrow>
             if flag = ''--endpoint'' then parse_arguments_loop rest (a\<lparr>ca_endpoint := v\<rparr>)
             else if flag = ''--timeout-ms'' then
               (case parse_number v of
                  None \<Rightarrow> Some (reject_arguments ''--timeout-ms needs a number'' a)
                | Some n \<Rightarrow>
                    if n > 0xFFFFFFFF then Some (reject_arguments ''--timeout-ms needs a number'' a)
                    else parse_arguments_loop rest (a\<lparr>ca_timeout_ms := ucast n\<rparr>))
             else if flag = ''--log-level'' then
               (case parse_log_level v of
                  None \<Rightarrow> Some (reject_arguments ''unknown log level'' a)
                | Some level \<Rightarrow> parse_arguments_loop rest (a\<lparr>ca_level := Some level\<rparr>))
             else parse_arguments_loop rest (a\<lparr>ca_values := (ca_values a)(drop 2 flag \<mapsto> v)\<rparr>)))"

definition parse_arguments :: "string list \<Rightarrow> ctl_arguments option" where
  "parse_arguments args = parse_arguments_loop args start_arguments"

definition required_number :: "ctl_arguments \<Rightarrow> string \<Rightarrow> u64 result" where
  "required_number a key =
     (let t = argument a key [] in
      if t = [] then fail kInvalidArgument (''--'' @ key @ '' is required'')
      else
        (case parse_number t of
           None \<Rightarrow> fail kInvalidArgument (''--'' @ key @ '' needs a number'')
         | Some n \<Rightarrow> Inr n))"

definition ctl_source_kind :: "ctl_arguments \<Rightarrow> source_kind result" where
  "ctl_source_kind a =
     (case parse_source_kind (argument a ''source-kind'' ''operator'') of
        None \<Rightarrow> fail kInvalidArgument ''--source-kind must be operator, discovery, imported or synthetic''
      | Some kind \<Rightarrow> Inr kind)"

text \<open>\<^verbatim>\<open>text.rfind(':')\<close> and the endpoint.\<close>

definition rfind_colon :: "string \<Rightarrow> nat option" where
  "rfind_colon t =
     (if CHR '':'' \<in> set t then Some (length t - 1 - length (takeWhile (\<lambda>c. c \<noteq> CHR '':'') (rev t))) else None)"

definition parse_endpoint :: "string \<Rightarrow> endpoint result" where
  "parse_endpoint t =
     (case rfind_colon t of
        None \<Rightarrow> fail kInvalidArgument ''endpoint must be written host:port''
      | Some colon \<Rightarrow>
          if colon = 0 \<or> colon + 1 \<ge> length t then fail kInvalidArgument ''endpoint must be written host:port''
          else
            (case parse_number (drop (colon + 1) t) of
               None \<Rightarrow> fail kOutOfRange ''endpoint port is out of range''
             | Some port \<Rightarrow>
                 if port = 0 \<or> port > 65535 then fail kOutOfRange ''endpoint port is out of range''
                 else Inr \<lparr>ep_host = take colon t, ep_port = ucast port\<rparr>))"

lemma digits_no_colon: "c \<in> set (to_string_nat n) \<Longrightarrow> c \<noteq> CHR '':''"
proof -
  have "d \<in> set (decimal_digits n) \<Longrightarrow> d < 10" for d n
    by (induction n rule: decimal_digits.induct) (subst (asm) (2) decimal_digits.simps, auto split: if_splits)
  moreover assume "c \<in> set (to_string_nat n)"
  ultimately obtain d where "c = digit_char d" "d < 10" by (auto simp: to_string_nat_def)
  then have "(of_char c :: nat) \<noteq> 58" using of_char_digit_char [of d] by simp
  then show "c \<noteq> CHR '':''" by auto
qed

lemma rfind_colon_text: "CHR '':'' \<notin> set port \<Longrightarrow> rfind_colon (host @ '':'' @ port) = Some (length host)"
proof -
  assume p: "CHR '':'' \<notin> set port"
  then have "takeWhile (\<lambda>c. c \<noteq> CHR '':'') (rev (host @ '':'' @ port)) = rev port"
    by (auto simp: takeWhile_append intro: takeWhile_eq_all_conv [THEN iffD2])
  then show ?thesis by (simp add: rfind_colon_def)
qed

text \<open>
  An endpoint survives its text: what \<^verbatim>\<open>Endpoint::to_text\<close> prints for a host and a port other than zero
  is parsed back to the same host and port, even when the host contains colons.
\<close>
theorem endpoint_roundtrip:
  assumes "ep_host e \<noteq> []" "ep_port e \<noteq> 0"
  shows "parse_endpoint (endpoint_to_text e) = Inr e"
proof -
  let ?p = "to_string_nat (unat (ep_port e))"
  have ne: "?p \<noteq> []" by (subst to_string_nat_def, subst decimal_digits.simps) simp
  have colon: "rfind_colon (endpoint_to_text e) = Some (length (ep_host e))"
    unfolding endpoint_to_text_def by (rule rfind_colon_text) (use digits_no_colon in blast)
  have port: "parse_number ?p = Some (ucast (ep_port e))"
    using parse_number_decimal [of "ep_port e"] by simp
  let ?w = "ucast (ep_port e) :: u64"
  have lt: "unat (ep_port e) < 65536" using unsigned_less [of "ep_port e", where 'a = nat] by simp
  have w: "unat ?w = unat (ep_port e)" using lt by (simp add: unsigned_ucast_eq take_bit_nat_eq_self)
  have "?w \<noteq> 0" using w assms(2) by (metis unsigned_0 unat_eq_zero)
  moreover have "?w \<le> 65535" using w lt by (simp only: word_le_nat_alt) simp
  moreover have "ucast ?w = ep_port e" by (rule bit_word_eqI) (simp add: bit_simps)
  ultimately show ?thesis
    using assms(1) ne colon port by (simp add: parse_endpoint_def endpoint_to_text_def)
qed

theorem endpoint_roundtrip_witness:
  "parse_endpoint (endpoint_to_text \<lparr>ep_host = ''127.0.0.1'', ep_port = 8790\<rparr>) = Inr \<lparr>ep_host = ''127.0.0.1'', ep_port = 8790\<rparr>"
  by (rule endpoint_roundtrip) simp_all

text \<open>The fields every declaration of evidence shares.\<close>

record evidence_defaults =
  ed_source :: source_id
  ed_sequence :: u64
  ed_generation :: topology_generation
  ed_durability :: durability

definition optional_number :: "ctl_arguments \<Rightarrow> string \<Rightarrow> (u64 \<Rightarrow> bool) \<Rightarrow> string \<Rightarrow> u64 \<Rightarrow> string + u64" where
  "optional_number a key admit message default_value =
     (case ca_values a key of
        None \<Rightarrow> Inr default_value
      | Some t \<Rightarrow>
          (case parse_number t of None \<Rightarrow> Inl message | Some n \<Rightarrow> if admit n then Inr n else Inl message))"

definition evidence_defaults_of :: "ctl_arguments \<Rightarrow> state_response \<Rightarrow> u64 \<Rightarrow> string + evidence_defaults" where
  "evidence_defaults_of a state now =
     (case optional_number a ''source'' (\<lambda>n. n \<noteq> 0) ''--source needs a positive identity'' 1 of
        Inl message \<Rightarrow> Inl message
      | Inr source \<Rightarrow>
          (case optional_number a ''sequence'' (\<lambda>n. True) ''--sequence needs a number'' now of
             Inl message \<Rightarrow> Inl message
           | Inr sequence \<Rightarrow>
               (case optional_number a ''generation'' (\<lambda>n. True) ''--generation needs a number'' (sr_generation state) of
                  Inl message \<Rightarrow> Inl message
                | Inr generation \<Rightarrow>
                    (case ca_values a ''durability'' of
                       None \<Rightarrow> Inr \<lparr>ed_source = source, ed_sequence = sequence, ed_generation = generation,
                                  ed_durability = Durability_kSticky\<rparr>
                     | Some t \<Rightarrow>
                         (case parse_durability t of
                            None \<Rightarrow> Inl ''--durability must be sticky or ephemeral''
                          | Some durability \<Rightarrow> Inr \<lparr>ed_source = source, ed_sequence = sequence, ed_generation = generation,
                              ed_durability = durability\<rparr>)))))"

definition emit :: "ctl_arguments \<Rightarrow> string \<Rightarrow> string \<Rightarrow> string" where
  "emit a result_name body =
     (if ca_quiet a then []
      else ''{'' @ json_field ''result'' (json_quote result_name) @ (if body = [] then [] else '','') @ body @ ''}'' @ [CHR 0x0A])"

lemma evidence_defaults_source: "evidence_defaults_of a state now = Inr e \<Longrightarrow> ed_source e \<noteq> 0"
  by (auto simp: evidence_defaults_of_def optional_number_def split: sum.splits option.splits if_splits)

end
