(* ===== verification/Rnf_Ctl.thy ===== *)
theory Rnf_Ctl
  imports Rnf_Apps Rnf_Protocol_Props
begin

text \<open>
  The commands of \<^verbatim>\<open>rnfctl\<close>: what each makes of its arguments, up to the call of the client, and the exit
  code it gives the answer. A command that ends before the call has an exit code, a label and a status, which
  \<^verbatim>\<open>emit_status\<close> prints; \<open>now\<close> is the time \<^verbatim>\<open>default_sequence\<close> reads.
\<close>

section \<open>Early exits\<close>

type_synonym 'a ctl = "(nat \<times> string \<times> status) + 'a"

text \<open>\<^verbatim>\<open>CTL_TRY\<close>, and the exits with code 2.\<close>

definition ctl_try :: "string \<Rightarrow> 'r result \<Rightarrow> ('r \<Rightarrow> 'a ctl) \<Rightarrow> 'a ctl" where
  "ctl_try label r k = (case r of Inl st \<Rightarrow> Inl (1, label, st) | Inr x \<Rightarrow> k x)"

definition misuse :: "string \<Rightarrow> string \<Rightarrow> 'a ctl" where
  "misuse label detail = Inl (2, label, Status kInvalidArgument detail)"

definition ctl_number :: "ctl_arguments \<Rightarrow> string \<Rightarrow> (u64 \<Rightarrow> 'a ctl) \<Rightarrow> 'a ctl" where
  "ctl_number a key = ctl_try (ca_command a) (required_number a key)"

definition ctl_choice :: "ctl_arguments \<Rightarrow> string \<Rightarrow> (string \<Rightarrow> 'e option) \<Rightarrow> 'e \<Rightarrow> string \<Rightarrow> ('e \<Rightarrow> 'a ctl) \<Rightarrow> 'a ctl" where
  "ctl_choice a key parse default_value detail k =
     (case ca_values a key of
        None \<Rightarrow> k default_value
      | Some t \<Rightarrow> (case parse t of None \<Rightarrow> misuse (ca_command a) detail | Some e \<Rightarrow> k e))"

text \<open>An absent capacity is unknown.\<close>

definition ctl_capacity :: "ctl_arguments \<Rightarrow> (capacity \<times> bool \<Rightarrow> 'a ctl) \<Rightarrow> 'a ctl" where
  "ctl_capacity a k =
     (if ca_values a ''capacity'' = None then k (0, False) else ctl_number a ''capacity'' (\<lambda>n. k (n, True)))"

section \<open>Declarations\<close>

definition begin_record :: "evidence_defaults \<Rightarrow> u64 \<Rightarrow> evidence_payload \<Rightarrow> evidence_record" where
  "begin_record defaults observed p =
     \<lparr>er_durability = Durability_kSticky, er_generation = ed_generation defaults,
      er_provenance = \<lparr>pv_source = ed_source defaults, pv_kind = SourceKind_kOperator, pv_sequence = ed_sequence defaults,
        pv_observed_at_ms = observed\<rparr>, er_payload = p\<rparr>"

definition submit_one :: "ctl_arguments \<Rightarrow> evidence_record \<Rightarrow> evidence_record ctl" where
  "submit_one a r =
     (case ctl_source_kind a of
        Inl st \<Rightarrow> Inl (2, ca_command a, st)
      | Inr kind \<Rightarrow>
          (let r = r\<lparr>er_provenance := (er_provenance r)\<lparr>pv_kind := kind\<rparr>\<rparr>; valid = validate_evidence r in
           if \<not> status_ok valid then Inl (2, ca_command a, valid) else Inr r))"

definition ctl_member :: "ctl_arguments \<Rightarrow> state_response \<Rightarrow> evidence_payload ctl" where
  "ctl_member a state =
     ctl_number a ''device'' (\<lambda>device. ctl_number a ''incarnation'' (\<lambda>incarnation.
       let claim = (\<lambda>rack. Inr (PMember \<lparr>mc_rack = rack, mc_device = device, mc_incarnation = incarnation\<rparr>)) in
       if ca_values a ''member-rack'' = None then claim (sr_rack state) else ctl_number a ''member-rack'' claim))"

definition ctl_device :: "ctl_arguments \<Rightarrow> evidence_payload ctl" where
  "ctl_device a =
     ctl_number a ''device'' (\<lambda>device.
       ctl_choice a ''role'' parse_device_role DeviceRole_kHost ''unknown device role'' (\<lambda>role.
         ctl_capacity a (\<lambda>(cap, known).
           ctl_choice a ''availability'' parse_availability Availability_kUp ''unknown availability'' (\<lambda>availability.
             Inr (PDevice \<lparr>dc_device = device, dc_role = role, dc_capacity = cap, dc_capacity_known = known,
               dc_availability = availability\<rparr>)))))"

definition ctl_port :: "ctl_arguments \<Rightarrow> evidence_payload ctl" where
  "ctl_port a =
     ctl_number a ''port'' (\<lambda>port. ctl_number a ''device'' (\<lambda>device. ctl_number a ''index'' (\<lambda>index.
       if index > 65535 then Inl (2, ca_command a, Status kOutOfRange ''port index is out of range'')
       else
         ctl_choice a ''port-role'' parse_port_role PortRole_kAccess ''unknown port role'' (\<lambda>role.
           ctl_capacity a (\<lambda>(cap, known).
             ctl_choice a ''admin'' parse_admin_state AdminState_kEnabled ''unknown admin state'' (\<lambda>admin.
               ctl_choice a ''availability'' parse_availability Availability_kUp ''unknown availability'' (\<lambda>availability.
                 Inr (PPort \<lparr>pc_port = port, pc_device = device, pc_index = ucast index, pc_role = role, pc_capacity = cap,
                   pc_capacity_known = known, pc_admin = admin, pc_availability = availability\<rparr>))))))))"

definition ctl_link :: "ctl_arguments \<Rightarrow> evidence_payload ctl" where
  "ctl_link a =
     ctl_number a ''link'' (\<lambda>link. ctl_number a ''port-a'' (\<lambda>port_a. ctl_number a ''port-b'' (\<lambda>port_b.
       ctl_choice a ''kind'' parse_link_kind LinkKind_kPhysical ''unknown link kind'' (\<lambda>kind.
         ctl_capacity a (\<lambda>(cap, known).
           ctl_choice a ''availability'' parse_availability Availability_kUp ''unknown availability'' (\<lambda>availability.
             Inr (PLink \<lparr>lc_link = link, lc_port_a = port_a, lc_port_b = port_b, lc_kind = kind, lc_capacity = cap,
               lc_capacity_known = known, lc_availability = availability\<rparr>)))))))"

definition ctl_attach :: "ctl_arguments \<Rightarrow> evidence_payload ctl" where
  "ctl_attach a =
     ctl_number a ''attachment'' (\<lambda>attachment. ctl_number a ''device'' (\<lambda>device. ctl_number a ''port'' (\<lambda>port.
       Inr (PAttachment \<lparr>ac_attachment = attachment, ac_device = device, ac_port = port,
         ac_host_key = argument a ''host-key'' ''host''\<rparr>))))"

definition ctl_maintenance :: "ctl_arguments \<Rightarrow> evidence_payload ctl" where
  "ctl_maintenance a =
     (case parse_maintenance_kind (argument a ''action'' ''drain'') of
        None \<Rightarrow> misuse (ca_command a) ''--action must be drain, maintenance or clear''
      | Some action \<Rightarrow>
          ctl_try (ca_command a) (parse_resource_ref (argument a ''target'' [])) (\<lambda>target.
            Inr (PMaintenance \<lparr>tc_action = action, tc_target_kind = ref_kind target, tc_target_id = ref_id target,
              tc_reason = argument a ''reason'' ''operator directive''\<rparr>)))"

definition ctl_obligate :: "ctl_arguments \<Rightarrow> evidence_payload ctl" where
  "ctl_obligate a =
     ctl_number a ''obligation'' (\<lambda>obligation. ctl_number a ''capacity'' (\<lambda>cap. ctl_number a ''holder'' (\<lambda>holder.
       ctl_try (ca_command a) (parse_resource_ref (argument a ''target'' [])) (\<lambda>target.
         Inr (PObligation \<lparr>oc_obligation = obligation, oc_target_kind = ref_kind target, oc_target_id = ref_id target,
           oc_capacity = cap, oc_holder = holder, oc_authority = argument a ''authority'' ''external-governance''\<rparr>)))))"

section \<open>Leases\<close>

text \<open>Sixteen hexadecimal digits, the most significant first.\<close>

definition hex_word :: "string \<Rightarrow> u64" where
  "hex_word t = foldl (\<lambda>w c. push_bit 4 w OR ucast (hex_value c)) 0 t"

definition ctl_request_id :: "ctl_arguments \<Rightarrow> string \<Rightarrow> (request_id \<Rightarrow> 'a ctl) \<Rightarrow> 'a ctl" where
  "ctl_request_id a t k =
     (if \<exists>c\<in>set t. hex_value c = 0xFF then misuse (ca_command a) ''--request needs hexadecimal characters''
      else k (RequestId (hex_word (take 16 t)) (hex_word (drop 16 t))))"

definition ctl_acquire :: "ctl_arguments \<Rightarrow> acquire_request ctl" where
  "ctl_acquire a =
     (let t = argument a ''request'' [] in
      if length t \<noteq> 32 then misuse (ca_command a) ''--request needs 32 hex characters''
      else
        (case digest_from_hex (t @ replicate 32 (CHR ''0'')) of
           Inl st \<Rightarrow> Inl (2, ca_command a, st)
         | Inr _ \<Rightarrow>
             ctl_request_id a t (\<lambda>request. ctl_number a ''principal'' (\<lambda>principal.
               ctl_try (ca_command a) (parse_resource_ref (argument a ''scope'' [])) (\<lambda>scope.
                 ctl_choice a ''mode'' parse_grant_mode GrantMode_kShared ''--mode must be shared or exclusive'' (\<lambda>mode.
                   ctl_capacity a (\<lambda>(cap, _).
                     let finish = (\<lambda>ttl. Inr \<lparr>aq_request = request, aq_principal = principal, aq_scope = scope, aq_mode = mode,
                           aq_capacity = cap, aq_ttl_ms = ttl\<rparr>)
                     in if ca_values a ''ttl-ms'' = None then finish 60000 else ctl_number a ''ttl-ms'' finish)))))))"

definition ctl_lookup :: "ctl_arguments \<Rightarrow> request_id ctl" where
  "ctl_lookup a =
     (let t = argument a ''request'' [] in
      if length t \<noteq> 32 then misuse (ca_command a) ''--request needs 32 hex characters'' else ctl_request_id a t Inr)"

definition ctl_token :: "ctl_arguments \<Rightarrow> (lease_token \<Rightarrow> 'a ctl) \<Rightarrow> 'a ctl" where
  "ctl_token a k =
     ctl_number a ''grant'' (\<lambda>grant. ctl_number a ''fence'' (\<lambda>fence. ctl_number a ''incarnation'' (\<lambda>incarnation.
       ctl_try (ca_command a) (digest_from_hex (argument a ''basis'' [])) (\<lambda>basis.
         k \<lparr>t_grant = grant, t_fence = fence, t_incarnation = incarnation, t_scope_basis = basis\<rparr>))))"

definition ctl_resources :: "ctl_arguments \<Rightarrow> resource_query ctl" where
  "ctl_resources a =
     (let kinds = (\<lambda>limit.
            case ca_values a ''kind'' of
              None \<Rightarrow> Inr \<lparr>rq_limit = limit, rq_kind_filter = 0\<rparr>
            | Some t \<Rightarrow>
                (case parse_resource_kind t of
                   None \<Rightarrow> misuse ''resources'' ''unknown resource kind''
                 | Some kind \<Rightarrow> Inr \<lparr>rq_limit = limit, rq_kind_filter = rk_byte kind\<rparr>))
      in
      case ca_values a ''limit'' of
        None \<Rightarrow> kinds 256
      | Some t \<Rightarrow>
          (case parse_number t of
             None \<Rightarrow> misuse ''resources'' ''--limit needs a positive number''
           | Some n \<Rightarrow> if n = 0 then misuse ''resources'' ''--limit needs a positive number'' else kinds (ucast n)))"

section \<open>The command table\<close>

datatype ctl_call =
    Call_state | Call_stats | Call_paths | Call_grants | Call_resources resource_query | Call_none
  | Call_compose topology_generation | Call_lifecycle lifecycle_state | Call_checkpoint | Call_shutdown
  | Call_submit evidence_record | Call_acquire acquire_request | Call_lookup request_id
  | Call_renew lease_token u64 | Call_release lease_token | Call_validate lease_token

definition ctl_map :: "('a \<Rightarrow> 'b) \<Rightarrow> 'a ctl \<Rightarrow> 'b ctl" where
  "ctl_map f x = (case x of Inl e \<Rightarrow> Inl e | Inr y \<Rightarrow> Inr (f y))"

definition ctl_declare :: "ctl_arguments \<Rightarrow> evidence_defaults \<Rightarrow> u64 \<Rightarrow> evidence_payload ctl \<Rightarrow> ctl_call ctl" where
  "ctl_declare a defaults observed p =
     (case p of Inl e \<Rightarrow> Inl e | Inr p \<Rightarrow> ctl_map Call_submit (submit_one a (begin_record defaults observed p)))"

definition ctl_lifecycle :: "ctl_arguments \<Rightarrow> ctl_call ctl" where
  "ctl_lifecycle a =
     (let t = argument a ''state'' (argument a ''target'' []) in
      case (if t = [] then None else parse_lifecycle_state t) of
        None \<Rightarrow> misuse ''lifecycle'' ''lifecycle needs --state <state>''
      | Some target \<Rightarrow> Inr (Call_lifecycle target))"

definition ctl_renew :: "ctl_arguments \<Rightarrow> lease_token \<Rightarrow> ctl_call ctl" where
  "ctl_renew a token =
     (if ca_values a ''ttl-ms'' = None then Inr (Call_renew token 60000)
      else ctl_number a ''ttl-ms'' (\<lambda>ttl. Inr (Call_renew token ttl)))"

text \<open>
  The commands before the evidence defaults are read, and those after. A declaration reads the clock twice:
  \<open>now\<close> is what the default sequence is taken from, \<open>observed\<close> what the record is stamped with.
\<close>

definition run_command :: "ctl_arguments \<Rightarrow> state_response \<Rightarrow> u64 \<Rightarrow> u64 \<Rightarrow> ctl_call ctl" where
  "run_command a state now observed =
     (let c = ca_command a in
      if c = ''state'' then Inr Call_state
      else if c = ''stats'' then Inr Call_stats
      else if c = ''paths'' then Inr Call_paths
      else if c = ''grants'' then Inr Call_grants
      else if c = ''resources'' then ctl_map Call_resources (ctl_resources a)
      else if c = ''hello'' \<or> c = ''state-peek'' then Inr Call_none
      else if c = ''compose'' then ctl_number a ''generation'' (\<lambda>n. Inr (Call_compose n))
      else if c = ''lifecycle'' then ctl_lifecycle a
      else if c = ''checkpoint'' then Inr Call_checkpoint
      else if c = ''shutdown'' then Inr Call_shutdown
      else
        (case evidence_defaults_of a state now of
           Inl message \<Rightarrow> misuse c message
         | Inr defaults \<Rightarrow>
             if c = ''declare-member'' then ctl_declare a defaults observed (ctl_member a state)
             else if c = ''declare-device'' then ctl_declare a defaults observed (ctl_device a)
             else if c = ''declare-port'' then ctl_declare a defaults observed (ctl_port a)
             else if c = ''declare-link'' then ctl_declare a defaults observed (ctl_link a)
             else if c = ''attach'' then ctl_declare a defaults observed (ctl_attach a)
             else if c = ''maintenance'' then ctl_declare a defaults observed (ctl_maintenance a)
             else if c = ''obligate'' then ctl_declare a defaults observed (ctl_obligate a)
             else if c = ''acquire'' then ctl_map Call_acquire (ctl_acquire a)
             else if c = ''lookup'' then ctl_map Call_lookup (ctl_lookup a)
             else if c = ''renew'' then ctl_token a (ctl_renew a)
             else if c = ''release'' then ctl_token a (\<lambda>token. Inr (Call_release token))
             else if c = ''validate'' then ctl_token a (\<lambda>token. Inr (Call_validate token))
             else misuse ''unknown'' (''unknown command '' @ c)))"

definition code_exit :: "status_code \<Rightarrow> nat" where
  "code_exit code = (if code = kOk then 0 else 1)"

section \<open>Requests the daemon understands\<close>

definition wire_clear :: "('m \<Rightarrow> byte_writer \<Rightarrow> status \<times> byte_writer) \<Rightarrow> (u8 list \<Rightarrow> 'm result) \<Rightarrow> 'm \<Rightarrow> bool" where
  "wire_clear enc dec m \<longleftrightarrow>
     (\<forall>n. status_ok (fst (enc m (bw_new n))) \<longrightarrow> dec (bw_buffer (snd (enc m (bw_new n)))) = Inr m)"

text \<open>The message of the client library behind a call.\<close>

fun understood :: "ctl_call \<Rightarrow> bool" where
  "understood (Call_submit r) \<longleftrightarrow> wire_clear encode_submit_evidence decode_submit_evidence \<lparr>sv_records = [r]\<rparr>"
| "understood (Call_resources q) \<longleftrightarrow> wire_clear encode_resource_query decode_resource_query q"
| "understood (Call_compose g) \<longleftrightarrow> wire_clear encode_compose_command decode_compose_command \<lparr>cc_generation = g\<rparr>"
| "understood (Call_lifecycle s) \<longleftrightarrow> wire_clear encode_lifecycle_request decode_lifecycle_request \<lparr>ly_target = s\<rparr>"
| "understood (Call_acquire q) \<longleftrightarrow> wire_clear encode_acquire_request decode_acquire_request q"
| "understood (Call_lookup r) \<longleftrightarrow> wire_clear encode_lookup_request decode_lookup_request \<lparr>lu_request = r\<rparr>"
| "understood (Call_renew t ttl) \<longleftrightarrow> wire_clear encode_renew_request decode_renew_request \<lparr>rn_token = t, rn_ttl_ms = ttl\<rparr>"
| "understood (Call_release t) \<longleftrightarrow> wire_clear encode_token_message decode_token_message \<lparr>tm_token = t\<rparr>"
| "understood (Call_validate t) \<longleftrightarrow> wire_clear encode_token_message decode_token_message \<lparr>tm_token = t\<rparr>"
| "understood _ \<longleftrightarrow> True"

lemma parse_enum_in: "parse_enum t table = Some v \<Longrightarrow> v \<in> snd ` set table"
  by (auto simp: parse_enum_def find_Some_iff split: option.splits)

lemma parse_resource_ref_ok: "parse_resource_ref t = Inr r \<Longrightarrow> ref_ok r"
  by (auto simp: parse_resource_ref_def parse_resource_kind_def kResourceKinds_def ref_ok_def dest!: parse_enum_in
      split: option.splits if_splits)

lemma parse_lifecycle_ok: "parse_lifecycle_state t = Some s \<Longrightarrow> lifecycle_request_ok \<lparr>ly_target = s\<rparr>"
  by (auto simp: parse_lifecycle_state_def kLifecycleStates_def lifecycle_request_ok_def dest!: parse_enum_in)

lemma parse_grant_mode_ok: "parse_grant_mode t = Some m \<Longrightarrow> m = GrantMode_kShared \<or> m = GrantMode_kExclusive"
  by (auto simp: parse_grant_mode_def split: if_splits)

lemma from_hex_length: "from_hex_loop t = Inr d \<Longrightarrow> length d = length t div 2"
  by (induction t arbitrary: d rule: from_hex_loop.induct) (auto simp: rnf_try_Inr_iff split: if_splits)

lemma digest_from_hex_length: "digest_from_hex t = Inr d \<Longrightarrow> length d = 32"
  by (auto simp: digest_from_hex_def dest: from_hex_length split: if_splits)

lemma understood_submit: "evidence_valid r \<Longrightarrow> understood (Call_submit r)"
  by (auto simp: wire_clear_def kLimits_def intro: submit_evidence.message_roundtrip)

lemma understood_token:
  assumes "length (t_scope_basis t) = 32"
  shows "understood (Call_release t)" "understood (Call_validate t)" "understood (Call_renew t ttl)"
  using assms by (auto simp: wire_clear_def intro: token_message.message_roundtrip renew_request.message_roundtrip)

lemma understood_plain: "understood (Call_resources q)" "understood (Call_compose g)" "understood (Call_lookup r)"
  by (auto simp: wire_clear_def intro: resource_query.message_roundtrip compose_command.message_roundtrip
      lookup_request.message_roundtrip)

lemma understood_lifecycle: "parse_lifecycle_state t = Some s \<Longrightarrow> understood (Call_lifecycle s)"
  by (auto simp: wire_clear_def intro: lifecycle_request.message_roundtrip parse_lifecycle_ok)

lemma understood_acquire:
  "ref_ok (aq_scope q) \<Longrightarrow> aq_mode q = GrantMode_kShared \<or> aq_mode q = GrantMode_kExclusive \<Longrightarrow> understood (Call_acquire q)"
  by (auto simp: wire_clear_def intro: acquire_request.message_roundtrip)

text \<open>A command that reaches its call satisfies \<open>P\<close>.\<close>

definition ctl_all :: "('a \<Rightarrow> bool) \<Rightarrow> 'a ctl \<Rightarrow> bool" where
  "ctl_all P x = (case x of Inl e \<Rightarrow> True | Inr y \<Rightarrow> P y)"

lemma ctl_all_simps [simp]: "ctl_all P (Inl e)" "ctl_all P (Inr y) = P y" "ctl_all P (misuse label detail)"
  "ctl_all P (ctl_map f x) = ctl_all (\<lambda>y. P (f y)) x" "ctl_all (\<lambda>y. True) z"
  by (simp_all add: ctl_all_def misuse_def ctl_map_def split: sum.split)

lemma ctl_all_try: "(\<And>x. r = Inr x \<Longrightarrow> ctl_all P (k x)) \<Longrightarrow> ctl_all P (ctl_try label r k)"
  by (auto simp: ctl_try_def split: sum.split)

lemma ctl_all_number: "(\<And>n. ctl_all P (k n)) \<Longrightarrow> ctl_all P (ctl_number a key k)"
  by (simp add: ctl_number_def ctl_all_try)

lemma ctl_all_choice: "ctl_all P (k e) \<Longrightarrow> (\<And>t v. parse t = Some v \<Longrightarrow> ctl_all P (k v)) \<Longrightarrow> ctl_all P (ctl_choice a key parse e detail k)"
  by (auto simp: ctl_choice_def split: option.split)

lemma ctl_all_capacity: "(\<And>n known. ctl_all P (k (n, known))) \<Longrightarrow> ctl_all P (ctl_capacity a k)"
  by (simp add: ctl_capacity_def ctl_all_number)

lemma ctl_all_mono: "ctl_all P x \<Longrightarrow> (\<And>y. P y \<Longrightarrow> Q y) \<Longrightarrow> ctl_all Q x"
  by (auto simp: ctl_all_def split: sum.splits)

lemma ctl_all_case: "(\<And>y. x = Inr y \<Longrightarrow> ctl_all P (k y)) \<Longrightarrow> ctl_all P (case x of Inl e \<Rightarrow> Inl (f e) | Inr y \<Rightarrow> k y)"
  by (auto split: sum.split)

lemma ctl_all_request: "(\<And>r. ctl_all P (k r)) \<Longrightarrow> ctl_all P (ctl_request_id a t k)"
  by (simp add: ctl_request_id_def)

lemma ctl_all_if: "ctl_all P x \<Longrightarrow> ctl_all P y \<Longrightarrow> ctl_all P (if c then x else y)"
  by simp

lemmas ctl_rules = ctl_all_try ctl_all_number ctl_all_choice ctl_all_capacity ctl_all_if ctl_all_case ctl_all_request

lemma ctl_declare_understood: "ctl_all understood (ctl_declare a defaults observed p)"
proof -
  have "ctl_all evidence_valid (submit_one a r)" for r
    by (auto simp: submit_one_def Let_def evidence_valid_def split: sum.split)
  then have "ctl_all (\<lambda>r. understood (Call_submit r)) (submit_one a r)" for r
    by (rule ctl_all_mono) (rule understood_submit)
  then show ?thesis by (simp add: ctl_declare_def split: sum.split)
qed

lemma ctl_acquire_understood: "ctl_all (\<lambda>q. understood (Call_acquire q)) (ctl_acquire a)"
proof (rule ctl_all_mono)
  show "ctl_all (\<lambda>q. ref_ok (aq_scope q) \<and> (aq_mode q = GrantMode_kShared \<or> aq_mode q = GrantMode_kExclusive)) (ctl_acquire a)"
    unfolding ctl_acquire_def Let_def
    by (intro ctl_rules; (unfold prod.case)?; (intro ctl_rules)?; simp add: parse_resource_ref_ok parse_grant_mode_ok)
qed (blast intro: understood_acquire)

lemma ctl_token_understood:
  "(\<And>t. length (t_scope_basis t) = 32 \<Longrightarrow> ctl_all P (k t)) \<Longrightarrow> ctl_all P (ctl_token a k)"
  unfolding ctl_token_def by (intro ctl_rules) (auto dest: digest_from_hex_length)

lemma ctl_lifecycle_understood: "ctl_all understood (ctl_lifecycle a)"
  using understood_lifecycle by (auto simp: ctl_lifecycle_def Let_def simp del: understood.simps split: option.split if_splits)

lemma ctl_renew_understood: "length (t_scope_basis t) = 32 \<Longrightarrow> ctl_all understood (ctl_renew a t)"
  unfolding ctl_renew_def by (intro ctl_rules) (simp_all add: understood_token del: understood.simps)

lemma run_command_understood: "ctl_all understood (run_command a state now observed)"
proof -
  have every: "ctl_all (\<lambda>q. understood (f q)) x" if "\<And>q. understood (f q)" for f and x :: "'z ctl"
    using that by (simp add: ctl_all_def split: sum.split)
  have tokens: "ctl_all understood (ctl_token a (ctl_renew a))"
    "ctl_all understood (ctl_token a (\<lambda>t. Inr (Call_release t)))" "ctl_all understood (ctl_token a (\<lambda>t. Inr (Call_validate t)))"
    by (rule ctl_token_understood; simp add: ctl_renew_understood understood_token del: understood.simps)+
  show ?thesis
  proof (cases "evidence_defaults_of a state now")
    case (Inl message)
    show ?thesis
      unfolding run_command_def Let_def Inl sum.case
      by (intro ctl_rules ctl_lifecycle_understood)
        (simp_all add: every understood_plain del: understood.simps(1-9))
  next
    case (Inr defaults)
    show ?thesis
      unfolding run_command_def Let_def Inr sum.case
      by (intro ctl_rules ctl_lifecycle_understood ctl_declare_understood tokens)
        (simp_all add: every understood_plain ctl_acquire_understood del: understood.simps(1-9))
  qed
qed

text \<open>
  (C40) The tool sends nothing the daemon cannot read. Whatever is typed, a command of \<^verbatim>\<open>rnfctl\<close> either ends
  before it calls the daemon, with an exit code and a message, or makes a call whose message the protocol
  carries: if it fits the frame, the daemon decodes the very request that was built, with a record that
  validates, a scope of a known kind, a known mode or lifecycle, and a basis of the right length.
\<close>
theorem ctl_requests_understood:
  assumes "run_command a state now observed = Inr call"
  shows "understood call"
  using run_command_understood [of a state now observed] assms by simp

theorem ctl_requests_understood_witness:
  "\<forall>state. run_command (start_arguments\<lparr>ca_command := ''lifecycle'', ca_values := [''state'' \<mapsto> ''retired'']\<rparr>) state 5 6 =
      Inr (Call_lifecycle LifecycleState_kRetired) \<and> understood (Call_lifecycle LifecycleState_kRetired)"
proof
  fix state
  let ?a = "start_arguments\<lparr>ca_command := ''lifecycle'', ca_values := [''state'' \<mapsto> ''retired'']\<rparr>"
  have "run_command ?a state 5 6 = Inr (Call_lifecycle LifecycleState_kRetired)"
    by (simp add: run_command_def ctl_lifecycle_def argument_def parse_lifecycle_state_def parse_enum_def kLifecycleStates_def)
  with ctl_requests_understood [OF this]
  show "run_command ?a state 5 6 = Inr (Call_lifecycle LifecycleState_kRetired) \<and> understood (Call_lifecycle LifecycleState_kRetired)"
    by blast
qed

text \<open>
  The tool prints the identity of a grant in hexadecimal and reads it as a decimal number: the identity of
  the sixteenth grant, typed as it was printed, names the tenth.
\<close>

lemma grant_identity_misread:
  "required_number (start_arguments\<lparr>ca_values := [''grant'' \<mapsto> hex64 16]\<rparr>) ''grant'' = Inr 10"
proof -
  have "hex64 16 \<noteq> []" "parse_number (hex64 16) = Some 10" by code_simp+
  then show ?thesis by (simp add: required_number_def argument_def)
qed

end
