(* ===== verification/Rnf_Report.thy ===== *)
theory Rnf_Report
  imports Rnf_Ctl
begin

text \<open>
  What \<^verbatim>\<open>rnfctl\<close> prints for the answers of the daemon, and its exit codes. The text is the standard output;
  a failure is also described on the error stream.
\<close>

section \<open>Bodies\<close>

fun json_join :: "string list \<Rightarrow> string" where
  "json_join [] = []"
| "json_join [x] = x"
| "json_join (x # y # xs) = x @ '','' @ json_join (y # xs)"

abbreviation u32_field :: "string \<Rightarrow> u32 \<Rightarrow> string" where
  "u32_field key v \<equiv> json_number_field key (ucast v)"

definition state_body :: "state_response \<Rightarrow> string" where
  "state_body v = json_join
     [json_text_field ''rack'' (hex64 (sr_rack v)), json_number_field ''generation'' (sr_generation v),
      json_number_field ''epoch'' (sr_epoch v), json_number_field ''incarnation'' (sr_incarnation v),
      json_text_field ''lifecycle'' (lifecycle_state_to_string (sr_lifecycle v)),
      json_text_field ''snapshot_digest'' (digest_to_hex (sr_snapshot_digest v)),
      json_text_field ''evidence_digest'' (digest_to_hex (sr_evidence_digest v)),
      json_number_field ''total_capacity'' (cm_total (sr_capacity v)),
      json_number_field ''unavailable_capacity'' (cm_unavailable (sr_capacity v)),
      json_number_field ''usable_capacity'' (cm_usable (sr_capacity v)),
      json_number_field ''obligated_capacity'' (cm_obligated (sr_capacity v)),
      json_number_field ''committed_capacity'' (cm_committed_grants (sr_capacity v)),
      json_number_field ''headroom_floor'' (cm_headroom_floor (sr_capacity v)),
      json_number_field ''uncommitted_capacity'' (cm_uncommitted (sr_capacity v)),
      json_number_field ''capacity_deficit'' (cm_deficit (sr_capacity v)),
      u32_field ''devices'' (sr_devices v), u32_field ''ports'' (sr_ports v), u32_field ''links'' (sr_links v),
      u32_field ''attachments'' (sr_attachments v), u32_field ''paths'' (sr_paths v),
      u32_field ''live_grants'' (sr_live_grants v), u32_field ''recovering_grants'' (sr_recovering_grants v),
      u32_field ''total_diagnostics'' (sr_total_diagnostics v),
      json_number_field ''dirty_recovery'' (if sr_recovered_from_dirty_shutdown v then 1 else 0)]"

definition stats_body :: "stats_response \<Rightarrow> string" where
  "stats_body v = json_join
     [json_number_field ''uptime_ms'' (sx_uptime_ms v), json_number_field ''evidence_records'' (sx_evidence_records v),
      json_number_field ''evidence_sources'' (sx_evidence_sources v),
      json_number_field ''evidence_conflicts'' (sx_evidence_conflicts v),
      json_number_field ''evidence_superseded'' (sx_evidence_superseded v),
      json_number_field ''log_records'' (sx_log_records v), json_number_field ''log_bytes'' (sx_log_bytes v),
      json_number_field ''checkpoints'' (sx_checkpoints v), json_number_field ''requests_served'' (sx_requests_served v),
      json_number_field ''connections_accepted'' (sx_connections_accepted v),
      json_number_field ''connections_rejected'' (sx_connections_rejected v),
      json_number_field ''frames_rejected'' (sx_frames_rejected v), json_number_field ''bytes_sent'' (sx_bytes_sent v),
      json_number_field ''bytes_received'' (sx_bytes_received v), json_number_field ''composes'' (sx_composes v),
      json_number_field ''grants_issued'' (sx_grants_issued v), json_number_field ''grants_refused'' (sx_grants_refused v),
      json_number_field ''grants_fenced'' (sx_grants_fenced v)]"

definition json_array :: "string \<Rightarrow> string list \<Rightarrow> string" where
  "json_array key entries = json_quote key @ '':['' @ json_join (map (\<lambda>e. ''{'' @ e @ ''}'') entries) @ '']''"

definition path_body :: "path_entry \<Rightarrow> string" where
  "path_body p = json_join
     [json_text_field ''id'' (hex64 (pt_id p)), json_text_field ''start_port'' (hex64 (pt_start_port p)),
      json_text_field ''end_port'' (hex64 (pt_end_port p)), u32_field ''hops'' (pt_hops p),
      json_number_field ''bottleneck'' (pt_bottleneck p), json_boolean_field ''bottleneck_known'' (pt_bottleneck_known p),
      json_text_field ''eligibility'' (eligibility_to_string (pt_eligibility p))]"

definition paths_body :: "path_entry list_response \<Rightarrow> string" where
  "paths_body v = json_join
     [json_number_field ''count'' (of_nat (length (lq_entries v))), json_boolean_field ''truncated'' (lq_truncated v),
      json_array ''paths'' (map path_body (lq_entries v))]"

definition grant_body :: "grant_summary \<Rightarrow> string" where
  "grant_body g = json_join
     [json_text_field ''id'' (hex64 (gy_id g)), json_text_field ''scope'' (ref_to_text (gy_scope g)),
      json_text_field ''mode'' (grant_mode_to_string (gy_mode g)), json_number_field ''capacity'' (gy_capacity g),
      json_number_field ''generation'' (gy_generation g), json_number_field ''epoch'' (gy_epoch g),
      json_number_field ''incarnation'' (gy_incarnation g), json_number_field ''fence'' (gy_fence g),
      json_text_field ''state'' (grant_state_to_string (gy_state g)),
      json_text_field ''basis'' (digest_to_hex (gy_basis g)), json_number_field ''expires_at_ms'' (gy_expires_at_ms g),
      json_text_field ''reason'' (gy_reason g)]"

definition grants_body :: "grant_summary list_response \<Rightarrow> string" where
  "grants_body v = json_join
     [json_number_field ''count'' (of_nat (length (lq_entries v))), json_array ''grants'' (map grant_body (lq_entries v))]"

definition resource_body :: "resource_entry \<Rightarrow> string" where
  "resource_body e = json_join
     [json_text_field ''ref'' (ref_to_text (re_ref e)),
      json_text_field ''eligibility'' (eligibility_to_string (re_eligibility e)),
      json_text_field ''availability'' (availability_to_string (re_availability e)),
      json_boolean_field ''capacity_known'' (re_capacity_known e), json_number_field ''capacity'' (re_capacity e),
      json_number_field ''obligated'' (re_obligated e), json_number_field ''committed'' (re_committed e),
      json_number_field ''available'' (re_available e), json_boolean_field ''available_known'' (re_available_known e),
      json_text_field ''available_code'' (status_code_to_string (re_available_code e)),
      json_boolean_field ''maintenance'' (re_maintenance e)]"

definition resources_body :: "resource_entry list_response \<Rightarrow> string" where
  "resources_body v = json_join
     [json_number_field ''count'' (of_nat (length (lq_entries v))), json_boolean_field ''truncated'' (lq_truncated v),
      json_array ''resources'' (map resource_body (lq_entries v))]"

definition hello_body :: "state_response \<Rightarrow> string" where
  "hello_body s = json_join
     [json_text_field ''rack'' (hex64 (sr_rack s)), json_number_field ''generation'' (sr_generation s),
      json_number_field ''epoch'' (sr_epoch s), json_number_field ''incarnation'' (sr_incarnation s),
      json_text_field ''lifecycle'' (lifecycle_state_to_string (sr_lifecycle s))]"

definition compose_body :: "compose_response \<Rightarrow> string" where
  "compose_body v = json_join
     [json_text_field ''code'' (status_code_to_string (cz_code v)), json_number_field ''generation'' (cz_generation v),
      json_number_field ''epoch'' (cz_epoch v), json_number_field ''incarnation'' (cz_incarnation v),
      json_text_field ''snapshot_digest'' (digest_to_hex (cz_digest v)), u32_field ''diagnostics'' (cz_diagnostics v),
      json_text_field ''detail'' (cz_detail v)]"

definition lifecycle_body :: "lifecycle_response \<Rightarrow> string" where
  "lifecycle_body v = json_join
     [json_text_field ''code'' (status_code_to_string (lz_code v)),
      json_text_field ''lifecycle'' (lifecycle_state_to_string (lz_lifecycle v)), json_text_field ''detail'' (lz_detail v)]"

definition ack_body :: "ack_response \<Rightarrow> string" where
  "ack_body v = json_join
     [json_text_field ''code'' (status_code_to_string (ak_code v)), json_text_field ''detail'' (ak_detail v)]"

text \<open>The outcome is the byte of the message.\<close>

definition outcome_text :: "u8 \<Rightarrow> string" where
  "outcome_text b = table_to_string
     [(''inserted'', 1), (''updated'', 2), (''duplicate'', 3), (''superseded'', 4), (''conflicted'', 5), (''refused'', 6)] b"

definition evidence_body :: "evidence_ack_entry \<Rightarrow> string" where
  "evidence_body e = json_join
     [json_text_field ''outcome'' (outcome_text (ae_outcome e)), json_text_field ''code'' (status_code_to_string (ae_code e)),
      json_text_field ''digest'' (digest_to_hex (ae_digest e)), json_text_field ''detail'' (ae_detail e)]"

definition acquire_body :: "grant_response \<Rightarrow> string" where
  "acquire_body v = json_join
     [json_text_field ''code'' (status_code_to_string (gn_code v)), json_text_field ''grant'' (hex64 (gy_id (gn_grant v))),
      json_number_field ''fence'' (gy_fence (gn_grant v)), json_number_field ''incarnation'' (gy_incarnation (gn_grant v)),
      json_text_field ''basis'' (digest_to_hex (gy_basis (gn_grant v))),
      json_text_field ''state'' (grant_state_to_string (gy_state (gn_grant v))),
      json_number_field ''expires_at_ms'' (gy_expires_at_ms (gn_grant v)), json_text_field ''detail'' (gn_detail v)]"

definition lookup_body :: "lookup_response \<Rightarrow> string" where
  "lookup_body v = json_join
     [json_text_field ''code'' (status_code_to_string (lv_code v)), json_boolean_field ''remembered'' (lv_remembered v),
      json_text_field ''outcome'' (status_code_to_string (lv_outcome_code v)), json_text_field ''grant'' (hex64 (lv_grant v)),
      json_number_field ''fence'' (lv_fence v), json_number_field ''incarnation'' (lv_incarnation v),
      json_text_field ''detail'' (lv_detail v)]"

definition renew_body :: "grant_response \<Rightarrow> string" where
  "renew_body v = json_join
     [json_text_field ''code'' (status_code_to_string (gn_code v)),
      json_number_field ''expires_at_ms'' (gy_expires_at_ms (gn_grant v)), json_text_field ''detail'' (gn_detail v)]"

definition validate_body :: "grant_response \<Rightarrow> string" where
  "validate_body v = json_join
     [json_text_field ''code'' (status_code_to_string (gn_code v)),
      json_text_field ''state'' (grant_state_to_string (gy_state (gn_grant v))), json_text_field ''detail'' (gn_detail v)]"

section \<open>Output and exit code\<close>

definition emit_status :: "ctl_arguments \<Rightarrow> string \<Rightarrow> status \<Rightarrow> string" where
  "emit_status a result_name st =
     (if ca_quiet a then []
      else ''{'' @ json_join [json_text_field ''result'' result_name, json_text_field ''class'' (status_class_to_string (classify (st_code st))),
             json_text_field ''code'' (status_code_to_string (st_code st)), json_text_field ''detail'' (st_detail st)] @ ''}'' @ [CHR 0x0A])"

datatype ctl_reply =
    Reply_state state_response | Reply_stats stats_response | Reply_paths "path_entry list_response"
  | Reply_grants "grant_summary list_response" | Reply_resources "resource_entry list_response" | Reply_none
  | Reply_compose compose_response | Reply_lifecycle lifecycle_response | Reply_checkpoint ack_response
  | Reply_shutdown ack_response | Reply_submit evidence_ack_response | Reply_acquire grant_response
  | Reply_lookup lookup_response | Reply_renew grant_response | Reply_release ack_response | Reply_validate grant_response

definition report_evidence :: "ctl_arguments \<Rightarrow> evidence_ack_response \<Rightarrow> string \<times> nat" where
  "report_evidence a v =
     (case ar_entries v of
        [] \<Rightarrow> (emit_status a (ca_command a) (Status kInternal ''the daemon returned no acknowledgement''), 1)
      | e # _ \<Rightarrow> (emit a (ca_command a) (evidence_body e), if ae_outcome e = 6 then 1 else 0))"

fun report :: "ctl_arguments \<Rightarrow> state_response \<Rightarrow> ctl_reply \<Rightarrow> string \<times> nat" where
  "report a s (Reply_state v) = (emit a ''state'' (state_body v), 0)"
| "report a s (Reply_stats v) = (emit a ''stats'' (stats_body v), 0)"
| "report a s (Reply_paths v) = (emit a ''paths'' (paths_body v), 0)"
| "report a s (Reply_grants v) = (emit a ''grants'' (grants_body v), 0)"
| "report a s (Reply_resources v) = (emit a ''resources'' (resources_body v), 0)"
| "report a s Reply_none = (emit a ''hello'' (hello_body s), 0)"
| "report a s (Reply_compose v) = (emit a ''compose'' (compose_body v), code_exit (cz_code v))"
| "report a s (Reply_lifecycle v) = (emit a ''lifecycle'' (lifecycle_body v), code_exit (lz_code v))"
| "report a s (Reply_checkpoint v) = (emit a ''checkpoint'' (ack_body v), code_exit (ak_code v))"
| "report a s (Reply_shutdown v) = (emit a ''shutdown'' (ack_body v), 0)"
| "report a s (Reply_submit v) = report_evidence a v"
| "report a s (Reply_acquire v) = (emit a ''acquire'' (acquire_body v), code_exit (gn_code v))"
| "report a s (Reply_lookup v) = (emit a ''lookup'' (lookup_body v), 0)"
| "report a s (Reply_renew v) = (emit a ''renew'' (renew_body v), code_exit (gn_code v))"
| "report a s (Reply_release v) = (emit a ''release'' (ack_body v), code_exit (ak_code v))"
| "report a s (Reply_validate v) = (emit a ''validate'' (validate_body v), code_exit (gn_code v))"

text \<open>The whole command: \<open>exchange\<close> is the client's call.\<close>

definition ctl_main :: "(ctl_call \<Rightarrow> ctl_reply result) \<Rightarrow> ctl_arguments \<Rightarrow> state_response \<Rightarrow> u64 \<Rightarrow> u64 \<Rightarrow> string \<times> nat" where
  "ctl_main exchange a s now observed =
     (case run_command a s now observed of
        Inl (code, label, st) \<Rightarrow> (emit_status a label st, code)
      | Inr call \<Rightarrow>
          (case exchange call of
             Inl st \<Rightarrow> (emit_status a (ca_command a) st, 1)
           | Inr reply \<Rightarrow> report a s reply))"

section \<open>One line per command\<close>

definition printable :: "string \<Rightarrow> bool" where
  "printable t \<longleftrightarrow> (\<forall>c\<in>set t. 0x20 \<le> (of_char c :: nat))"

lemma printable_simps [simp]:
  "printable []" "printable (c # t) \<longleftrightarrow> 0x20 \<le> (of_char c :: nat) \<and> printable t" "printable (s @ t) \<longleftrightarrow> printable s \<and> printable t"
  by (auto simp: printable_def)

lemma printable_hex: "n < 16 \<Longrightarrow> 0x20 \<le> (of_char (kHexDigits ! n) :: nat)"
proof -
  have "\<forall>n\<in>{..<16}. 0x20 \<le> (of_char (kHexDigits ! n) :: nat)" by code_simp
  then show "n < 16 \<Longrightarrow> 0x20 \<le> (of_char (kHexDigits ! n) :: nat)" by auto
qed

lemma printable_escape: "printable (json_escape t)"
proof (induction t)
  case (Cons c t)
  have "(of_char c :: nat) < 0x20 \<Longrightarrow> (of_char c :: nat) div 16 < 16" by simp
  then have "printable (escape_char c)"
    by (auto simp: escape_char_def kQuote_def kBackslash_def printable_hex)
  with Cons show ?case by (simp add: json_escape_def)
qed (simp add: json_escape_def)

lemma printable_quote: "printable (json_quote t)"
  by (simp add: json_quote_def printable_escape kQuote_def)

lemma printable_number: "printable (to_string_nat n)"
proof -
  have "d \<in> set (decimal_digits n) \<Longrightarrow> d < 10" for d n
    by (induction n rule: decimal_digits.induct) (subst (asm) (2) decimal_digits.simps, auto split: if_splits)
  then show ?thesis using of_char_digit_char by (auto simp: printable_def to_string_nat_def)
qed

lemma printable_fields [simp]:
  "printable (json_text_field key v)" "printable (json_number_field key n)" "printable (json_boolean_field key b)"
  by (simp_all add: json_text_field_def json_number_field_def json_boolean_field_def json_field_def printable_quote
      to_string_u64_def printable_number)

lemma printable_join [simp]: "printable (json_join xs) \<longleftrightarrow> (\<forall>x\<in>set xs. printable x)"
  by (induction xs rule: json_join.induct) auto

lemma printable_array [simp]: "printable (json_array key entries) \<longleftrightarrow> (\<forall>e\<in>set entries. printable e)"
  by (auto simp: json_array_def printable_quote)

lemmas body_defs = state_body_def stats_body_def path_body_def paths_body_def grant_body_def grants_body_def resource_body_def
  resources_body_def hello_body_def compose_body_def lifecycle_body_def ack_body_def evidence_body_def acquire_body_def
  lookup_body_def renew_body_def validate_body_def

definition one_line :: "ctl_arguments \<Rightarrow> string \<Rightarrow> bool" where
  "one_line a out \<longleftrightarrow> (if ca_quiet a then out = [] else (\<exists>line. out = line @ [CHR 0x0A] \<and> printable line))"

lemma one_line_emit: "printable body \<Longrightarrow> one_line a (emit a name body)"
  by (auto simp: one_line_def emit_def json_field_def printable_quote)

lemma one_line_status: "one_line a (emit_status a name st)"
  by (auto simp: one_line_def emit_status_def)

lemma one_line_report: "one_line a (fst (report a s reply))"
proof (cases reply)
  case (Reply_submit v)
  then show ?thesis
    by (cases "ar_entries v") (simp_all add: report_evidence_def one_line_status one_line_emit body_defs)
qed (simp_all add: one_line_emit body_defs)

text \<open>
  A command prints one line: whatever the daemon answers and whatever text its answer contains, the output is
  a single line without control characters, or nothing when the tool is quiet; and a command that asked the
  daemon exits with 0 or 1, the code 2 being for misuse.
\<close>
theorem ctl_output_one_line:
  "one_line a (fst (ctl_main exchange a s now observed)) \<and>
   (snd (ctl_main exchange a s now observed) \<le> 1 \<or> (\<exists>code label st. run_command a s now observed = Inl (code, label, st)))"
proof (cases "run_command a s now observed")
  case (Inl e)
  then show ?thesis by (cases e) (simp add: ctl_main_def one_line_status)
next
  case (Inr call)
  have "snd (report a s reply) \<le> 1" for reply
    by (cases reply) (auto simp: code_exit_def report_evidence_def split: list.split)
  then show ?thesis
    using Inr by (cases "exchange call") (simp_all add: ctl_main_def one_line_status one_line_report)
qed

end
