(* ===== verification/Spec2Isabelle.thy ===== *)
theory Spec2Isabelle
  imports Rnf_Registry_History Rnf_Store_Files Rnf_Compose_Claims Rnf_Daemon_Guarantees Rnf_Rpc Rnf_Report
begin

text \<open>
  A verification development for the Rack Network Fabric runtime, a daemon that owns one rack of network
  equipment. Sources declare what they know of the rack as \<^emph>\<open>evidence\<close>; the daemon keeps the evidence in a
  ledger, composes it into an immutable \<^emph>\<open>snapshot\<close>, and hands out \<^emph>\<open>leases\<close> over resources of the snapshot,
  which it logs before it answers and judges against the snapshot whenever they are presented. Clients talk
  to it over loopback sockets in length prefixed frames.

  \<^bold>\<open>Parts and theories\<close>

  \<^item> \<^verbatim>\<open>Rnf_Prelude\<close> and \<^verbatim>\<open>Rnf_Map\<close>: machine integers as words, little endian loads and stores, the locales
    \<^verbatim>\<open>codec\<close> (what an encoder and a decoder promise each other) and \<^verbatim>\<open>state_machine\<close> (an invariant over the
    runs of a step relation), and \<^verbatim>\<open>std::map\<close> and \<^verbatim>\<open>std::set\<close> as ascending lists, an instance of the locale
    \<^verbatim>\<open>ordered_dict\<close>.
  \<^item> \<^verbatim>\<open>Rnf_Status\<close>, \<^verbatim>\<open>Rnf_Hash\<close>, \<^verbatim>\<open>Rnf_Bytes\<close>, \<^verbatim>\<open>Rnf_Types\<close>: \<^verbatim>\<open>core/status.hpp\<close>, \<^verbatim>\<open>checked.hpp\<close>, \<^verbatim>\<open>id.hpp\<close>,
    \<^verbatim>\<open>core/hash.cpp\<close> (BLAKE2s and CRC-32C computed, not assumed), \<^verbatim>\<open>core/bytes.cpp\<close> and \<^verbatim>\<open>model/types.cpp\<close>.
  \<^item> \<^verbatim>\<open>Rnf_Evidence\<close>, \<^verbatim>\<open>Rnf_Ledger\<close>: \<^verbatim>\<open>model/evidence.cpp\<close>. Within its bounds the ledger's contents and digest depend
    on the set of records offered, not on their order or repetition, and nothing is replaced by an older record.
  \<^item> \<^verbatim>\<open>Rnf_Snapshot\<close>, \<^verbatim>\<open>Rnf_Snapshot_Codec\<close>, \<^verbatim>\<open>Rnf_Scope\<close>: \<^verbatim>\<open>compose/snapshot.cpp\<close>, its exact canonical encoding, and
    \<^verbatim>\<open>compose/scope.cpp\<close>.
  \<^item> \<^verbatim>\<open>Rnf_Compose\<close> is \<^verbatim>\<open>compose/composer.cpp\<close>, the one long function split where the source has its sections;
    \<^verbatim>\<open>Rnf_Compose_Select\<close>, \<^verbatim>\<open>Rnf_Compose_Paths\<close>, \<^verbatim>\<open>Rnf_Compose_Props\<close>, \<^verbatim>\<open>Rnf_Compose_Snapshot\<close> and
    \<^verbatim>\<open>Rnf_Compose_Claims\<close> show what a composed snapshot is: sorted containers within their bounds, eligibility
    that rests on eligible and measured resources, an exact capacity ledger, sound paths and, without a
    truncation notice, all of them, against a declarative specification of routes.
  \<^item> \<^verbatim>\<open>Rnf_Grant\<close>, \<^verbatim>\<open>Rnf_Registry\<close>: \<^verbatim>\<open>authority/grant.cpp\<close> and \<^verbatim>\<open>authority/registry.cpp\<close>. \<^verbatim>\<open>Rnf_Registry_Inv\<close>,
    \<^verbatim>\<open>Rnf_Registry_Ops\<close>, \<^verbatim>\<open>Rnf_Registry_Machine\<close>, \<^verbatim>\<open>Rnf_Registry_Props\<close> and \<^verbatim>\<open>Rnf_Registry_History\<close>: the registry as
    a state machine, the invariant of index, capacity account and counters, the exact condition of every
    answer, and what may happen to a grant over time.
  \<^item> \<^verbatim>\<open>Rnf_Store\<close>: \<^verbatim>\<open>persist/store.cpp\<close>, with \<^verbatim>\<open>Rnf_Store_Props\<close>, \<^verbatim>\<open>Rnf_Store_Recovery\<close> and \<^verbatim>\<open>Rnf_Store_Files\<close>: record
    codec, crash recovery, checkpoint and manifest files, incarnations.
  \<^item> \<^verbatim>\<open>Rnf_Frame\<close>, \<^verbatim>\<open>Rnf_Protocol\<close>, \<^verbatim>\<open>Rnf_Protocol_Props\<close>: \<^verbatim>\<open>net/frame.cpp\<close> and \<^verbatim>\<open>net/protocol.cpp\<close>. Every message
    interprets the locale \<^verbatim>\<open>message_body\<close>, and all but one its extension \<^verbatim>\<open>message_codec\<close>.
  \<^item> \<^verbatim>\<open>Rnf_Daemon\<close>: \<^verbatim>\<open>runtime/daemon.cpp\<close>, one function per method of \<^verbatim>\<open>DaemonCore\<close>. \<^verbatim>\<open>Rnf_Daemon_Props\<close>, \<^verbatim>\<open>Rnf_Recovery\<close>,
    \<^verbatim>\<open>Rnf_Daemon_Claims\<close> and \<^verbatim>\<open>Rnf_Daemon_Guarantees\<close>: the daemon as a state machine from its recovery on, and
    its guarantees; \<^verbatim>\<open>Rnf_Daemon_Sample\<close> is the run the witnesses use.
  \<^item> \<^verbatim>\<open>Rnf_Socket\<close>, \<^verbatim>\<open>Rnf_Server\<close>, \<^verbatim>\<open>Rnf_Connection\<close>, \<^verbatim>\<open>Rnf_Listener\<close>, \<^verbatim>\<open>Rnf_Rpc\<close>: \<^verbatim>\<open>net/socket.cpp\<close>,
    \<^verbatim>\<open>runtime/server.cpp\<close> and \<^verbatim>\<open>runtime/client.cpp\<close>: loops around the system calls, the connection loop and dispatch,
    what arbitrary bytes can do to the core, the accept loop with its workers, and calls end to end through the
    locale \<^verbatim>\<open>rpc\<close>, which every command with a plain answer interprets.
  \<^item> \<^verbatim>\<open>Rnf_Apps\<close>, \<^verbatim>\<open>Rnf_Ctl\<close>, \<^verbatim>\<open>Rnf_Report\<close>: the options of \<^verbatim>\<open>apps/rnfd\<close>, and of \<^verbatim>\<open>apps/rnfctl\<close> the arguments, every
    command up to its call, and what it prints: what is typed becomes a request the daemon can read, and what the
    daemon answers becomes one line of text.

  \<^bold>\<open>How the code is read\<close>

  A class is a record of its members, a method a function that returns its result and the new state. A
  scoped enumeration is the byte it is stored in, so that values outside the named ones exist, as they do
  in C++. \<^verbatim>\<open>Result\<close> is a sum with the status on the left. Integers keep their width; \<^verbatim>\<open>size_t\<close> counters of
  containers are naturals. Strings are lists of characters, bytes lists of words.

  The answers of the operating system are arguments: a write may stop after any number of bytes or fail, a
  rename or a sync may fail, a send or a receive may move any part of what it is given, a poll may find
  nothing. The time a command reads is an argument. Where the model needs a list of such answers and the
  list ends, the calls after it succeed.

  The daemon holds one mutex for the whole of a command, so a command is one step; threads appear as the
  interleavings of steps in \<^verbatim>\<open>Rnf_Listener\<close>.

  \<^bold>\<open>Bounds and side conditions\<close>

  The path search carries its own expansion budget, as the code does, and is shown to end within it. The
  connection loop ends because every turn that continues has taken a frame header off the stream. Runs of the
  registry and of the daemon assume that the fence counter has not reached its last value and that the
  snapshots met have distinct authority bases where the bytes of the bases differ (an assumption on the hash,
  stated for the set of snapshots of the run as \<^verbatim>\<open>basis_injective\<close>). Of the log a start replays they ask that
  no grant has an identity above the fences seen or names a pool twice, that the capacities of the grants add
  up within 64 bits, and that the fence counter has room to re-arm them (\<^verbatim>\<open>log_fits\<close>); the code checks none of
  these when it installs recovered grants. The recovered grants may conflict with each other, since the code
  does not compare them and the log need not hold the end of every lease (a restart fences in memory only):
  exclusivity is stated for pairs of leases of which at least one was issued after the start. The registry on
  its own asks, for an installed grant, that it takes no resource from a conflicting grant the registry issued
  (\<^verbatim>\<open>recovered_fits\<close>) and, for a revalidation, that the snapshot gives each recovering grant the scope it was
  indexed under (\<^verbatim>\<open>rearm_indexed\<close>); the daemon's start meets both. Order independence of the ledger and of
  composition holds while the offered slots and sources fit the ledger's bounds. The reads of the log during an
  open do not fail in the model.

  \<^bold>\<open>Not modelled\<close>

  The system calls themselves, file descriptors, socket initialisation and the file lock
  (\<^verbatim>\<open>persist/file_lock.cpp\<close>), which wrap the platform and have no logic to state beyond what the answers above
  express; random request identities; memory ordering below the mutex; signal handling, usage texts and the
  log sink; the benchmark, the tests and the examples.
\<close>

end
